(* ===== verification/Delta_Prelude.thy ===== *)
theory Delta_Prelude
  imports Main
begin

text \<open>
  Shared vocabulary of the Delta development: results of fallible code, tables as lists of
  rows with the SQL statements the stores use (unique insert, insert on conflict do nothing,
  conditional update), exact sums, and the rendering of integers as decimal digits.
\<close>

named_theorems delta_defs \<open>definitions that component proofs unfold\<close>
named_theorems table_simps \<open>simplification rules for tables\<close>

type_synonym ident = string
type_synonym instant = int \<comment> \<open>an aware datetime: microseconds since 0001-01-01T00:00Z\<close>
type_synonym cents = int \<comment> \<open>integer minor units; Python integers do not overflow\<close>

section \<open>Results\<close>

text \<open>Code that may raise returns \<open>Inl\<close> of the error or \<open>Inr\<close> of the value.\<close>

definition bindR :: "'e + 'a \<Rightarrow> ('a \<Rightarrow> 'e + 'b) \<Rightarrow> 'e + 'b" where
  "bindR m f = (case m of Inl e \<Rightarrow> Inl e | Inr x \<Rightarrow> f x)"

definition guardR :: "bool \<Rightarrow> 'e \<Rightarrow> 'e + unit" where
  "guardR b e = (if b then Inr () else Inl e)"

fun mapR :: "('a \<Rightarrow> 'e + 'b) \<Rightarrow> 'a list \<Rightarrow> 'e + 'b list" where
  "mapR f [] = Inr []"
| "mapR f (x # xs) = bindR (f x) (\<lambda>y. bindR (mapR f xs) (\<lambda>ys. Inr (y # ys)))"

text \<open>A loop over a list that stops at the first error, threading a state.\<close>

fun foldR :: "('a \<Rightarrow> 's \<Rightarrow> 'e + 's) \<Rightarrow> 'a list \<Rightarrow> 's \<Rightarrow> 'e + 's" where
  "foldR f [] s = Inr s"
| "foldR f (x # xs) s = bindR (f x s) (foldR f xs)"

definition is_ok :: "'e + 'a \<Rightarrow> bool" where
  "is_ok m = (case m of Inl _ \<Rightarrow> False | Inr _ \<Rightarrow> True)"

lemma bindR_Inl [simp]: "bindR (Inl e) f = Inl e"
  by (simp add: bindR_def)

lemma bindR_Inr [simp]: "bindR (Inr x) f = f x"
  by (simp add: bindR_def)

lemma bindR_eq_Inr: "bindR m f = Inr y \<longleftrightarrow> (\<exists>x. m = Inr x \<and> f x = Inr y)"
  by (cases m) auto

lemma bindR_eq_Inl: "bindR m f = Inl e \<longleftrightarrow> m = Inl e \<or> (\<exists>x. m = Inr x \<and> f x = Inl e)"
  by (cases m) auto

lemma guardR_True [simp]: "guardR True e = Inr ()"
  by (simp add: guardR_def)

lemma guardR_False [simp]: "guardR False e = Inl e"
  by (simp add: guardR_def)

lemma guardR_eq_Inr [simp]: "guardR b e = Inr u \<longleftrightarrow> b"
  by (simp add: guardR_def)

lemma guardR_eq_Inl [simp]: "guardR b e = Inl e' \<longleftrightarrow> \<not> b \<and> e' = e"
  by (auto simp: guardR_def)

lemma is_ok_simps [simp]: "is_ok (Inr x)" "\<not> is_ok (Inl e)"
  by (simp_all add: is_ok_def)

lemma bindRE:
  assumes "bindR m f = Inr y"
  obtains x where "m = Inr x" and "f x = Inr y"
  using assms by (auto simp: bindR_eq_Inr)

lemma foldR_append: "foldR f (xs @ ys) s = bindR (foldR f xs s) (foldR f ys)"
proof (induction xs arbitrary: s)
  case (Cons x xs)
  then show ?case by (cases "f x s") auto
qed simp

text \<open>An invariant of the body is an invariant of the loop.\<close>

lemma foldR_invariant:
  assumes "\<And>x s s'. x \<in> set xs \<Longrightarrow> I s \<Longrightarrow> f x s = Inr s' \<Longrightarrow> I s'"
    and "I s" and "foldR f xs s = Inr s'"
  shows "I s'"
  using assms
proof (induction xs arbitrary: s)
  case Nil
  then show ?case by simp
next
  case (Cons x xs)
  from Cons.prems(3) obtain t where t: "f x s = Inr t" and rest: "foldR f xs t = Inr s'"
    by (auto simp: bindR_eq_Inr)
  from Cons.prems(1) [of x s t] Cons.prems(2) t have "I t" by simp
  with rest Cons.prems(1) show ?case by (auto intro: Cons.IH)
qed

lemma mapR_length: "mapR f xs = Inr ys \<Longrightarrow> length ys = length xs"
  by (induction xs arbitrary: ys) (auto simp: bindR_eq_Inr)

lemma mapR_list_all2: "mapR f xs = Inr ys \<Longrightarrow> list_all2 (\<lambda>x y. f x = Inr y) xs ys"
  by (induction xs arbitrary: ys) (auto simp: bindR_eq_Inr)

section \<open>Tables\<close>

text \<open>
  A table is the list of its rows in insertion order. \<open>insert_unique\<close> is an INSERT into a
  table with a unique key, \<open>insert_nothing\<close> is INSERT ... ON CONFLICT DO NOTHING (it also
  tells whether the row went in, as RETURNING does), \<open>update_where\<close> is UPDATE ... WHERE.
\<close>

definition insert_unique :: "'e \<Rightarrow> ('r \<Rightarrow> 'k) \<Rightarrow> 'r \<Rightarrow> 'r list \<Rightarrow> 'e + 'r list" where
  "insert_unique e key r rows = (if key r \<in> key ` set rows then Inl e else Inr (rows @ [r]))"

definition insert_nothing :: "('r \<Rightarrow> 'k) \<Rightarrow> 'r \<Rightarrow> 'r list \<Rightarrow> bool \<times> 'r list" where
  "insert_nothing key r rows = (if key r \<in> key ` set rows then (False, rows) else (True, rows @ [r]))"

definition update_where :: "('r \<Rightarrow> bool) \<Rightarrow> ('r \<Rightarrow> 'r) \<Rightarrow> 'r list \<Rightarrow> 'r list" where
  "update_where P f rows = map (\<lambda>r. if P r then f r else r) rows"

lemma insert_unique_eq_Inr [table_simps]:
  "insert_unique e key r rows = Inr rows' \<longleftrightarrow> key r \<notin> key ` set rows \<and> rows' = rows @ [r]"
  by (auto simp: insert_unique_def)

lemma update_where_Nil [simp]: "update_where P f [] = []"
  by (simp add: update_where_def)

lemma update_where_Cons [simp]:
  "update_where P f (r # rs) = (if P r then f r else r) # update_where P f rs"
  by (simp add: update_where_def)

lemma update_where_append [simp]:
  "update_where P f (rs @ ss) = update_where P f rs @ update_where P f ss"
  by (simp add: update_where_def)

lemma length_update_where [simp]: "length (update_where P f rows) = length rows"
  by (simp add: update_where_def)

lemma set_update_where:
  "set (update_where P f rows) = {r \<in> set rows. \<not> P r} \<union> f ` {r \<in> set rows. P r}"
  by (auto simp: update_where_def)

text \<open>A column an update does not write keeps its values, row by row.\<close>

lemma map_update_where_frame:
  assumes "\<And>r. r \<in> set rows \<Longrightarrow> P r \<Longrightarrow> g (f r) = g r"
  shows "map g (update_where P f rows) = map g rows"
  using assms by (induction rows) auto

lemma update_where_cong:
  assumes "\<And>r. r \<in> set rows \<Longrightarrow> P r = Q r"
  shows "update_where P f rows = update_where Q f rows"
  using assms by (induction rows) auto

lemma update_where_none:
  assumes "\<And>r. r \<in> set rows \<Longrightarrow> \<not> P r"
  shows "update_where P f rows = rows"
  using assms by (induction rows) auto

lemma find_filter_hd: "List.find P rows = (case filter P rows of [] \<Rightarrow> None | r # _ \<Rightarrow> Some r)"
  by (induction rows) (auto split: list.splits)

lemma find_eq_Some_in: "List.find P rows = Some r \<Longrightarrow> r \<in> set rows \<and> P r"
  by (auto simp: find_Some_iff)

lemma find_eq_None: "List.find P rows = None \<longleftrightarrow> (\<forall>r \<in> set rows. \<not> P r)"
  by (auto simp: find_None_iff)

lemma find_append:
  "List.find P (xs @ ys) = (case List.find P xs of None \<Rightarrow> List.find P ys | Some z \<Rightarrow> Some z)"
  by (induction xs) auto

lemma find_snoc_fresh:
  "(\<And>x. x \<in> set xs \<Longrightarrow> \<not> P x) \<Longrightarrow> List.find P (xs @ [y]) = (if P y then Some y else None)"
  by (simp add: find_append find_None_iff split: option.splits) (metis find_eq_Some_in)

text \<open>With distinct keys a key names at most one row.\<close>

lemma distinct_key_unique:
  assumes "distinct (map key rows)" and "r \<in> set rows" and "s \<in> set rows" and "key r = key s"
  shows "r = s"
  using assms by (auto simp: distinct_map inj_on_def)

lemma find_distinct_key:
  assumes "distinct (map key rows)" and "r \<in> set rows"
  shows "List.find (\<lambda>s. key s = key r) rows = Some r"
  using assms by (induction rows) (auto simp: image_iff)

section \<open>Exact sums\<close>

definition total :: "('r \<Rightarrow> int) \<Rightarrow> 'r list \<Rightarrow> int" where
  "total f rows = sum_list (map f rows)"

lemma total_simps [simp]:
  "total f [] = 0"
  "total f (r # rs) = f r + total f rs"
  "total f (rs @ ss) = total f rs + total f ss"
  by (simp_all add: total_def)

lemma total_nonneg: "(\<And>r. r \<in> set rows \<Longrightarrow> 0 \<le> f r) \<Longrightarrow> 0 \<le> total f rows"
  by (induction rows) auto

lemma total_uminus: "total (\<lambda>r. - f r) rows = - total f rows"
  by (induction rows) auto

lemma total_cong: "(\<And>r. r \<in> set rows \<Longrightarrow> f r = g r) \<Longrightarrow> total f rows = total g rows"
  by (induction rows) auto

lemma total_map: "total f (map g rows) = total (\<lambda>r. f (g r)) rows"
  by (simp add: total_def comp_def)

lemma total_filter_split:
  "total f rows = total f (filter P rows) + total f (filter (\<lambda>r. \<not> P r) rows)"
  by (induction rows) auto

lemma total_list_all2_uminus:
  assumes "list_all2 (\<lambda>x y. f y = - g x \<and> Q y = P x) xs ys"
  shows "total f (filter Q ys) = - total g (filter P xs)"
  using assms by (induction rule: list_all2_induct) auto

section \<open>Decimal digits\<close>

definition digit_char :: "nat \<Rightarrow> char" where
  "digit_char d = char_of (48 + d)"

fun dec_nat :: "nat \<Rightarrow> string" where
  "dec_nat n = (if n < 10 then [digit_char n] else dec_nat (n div 10) @ [digit_char (n mod 10)])"

declare dec_nat.simps [simp del]

definition dec_int :: "int \<Rightarrow> string" where
  "dec_int i = (if i < 0 then CHR ''-'' # dec_nat (nat (- i)) else dec_nat (nat i))"

text \<open>Fixed-width, zero-padded fields of dates.\<close>

definition pad2 :: "nat \<Rightarrow> string" where
  "pad2 n = [digit_char (n div 10 mod 10), digit_char (n mod 10)]"

definition pad4 :: "nat \<Rightarrow> string" where
  "pad4 n = pad2 (n div 100) @ pad2 (n mod 100)"

definition pad6 :: "nat \<Rightarrow> string" where
  "pad6 n = pad2 (n div 10000) @ pad2 (n div 100 mod 100) @ pad2 (n mod 100)"

lemma digit_char_inj:
  assumes "a < 10" and "b < 10" and "digit_char a = digit_char b"
  shows "a = b"
proof -
  have "of_char (digit_char a) = (of_char (digit_char b) :: nat)"
    using assms(3) by simp
  then show ?thesis using assms(1,2) by (simp add: digit_char_def)
qed

text \<open>Reading digits back: the value of a digit string, and that it inverts \<open>dec_nat\<close>.\<close>

definition digit_val :: "char \<Rightarrow> nat" where
  "digit_val c = of_char c - 48"

definition digits_val :: "string \<Rightarrow> nat" where
  "digits_val s = foldl (\<lambda>n c. 10 * n + digit_val c) 0 s"

definition is_digit :: "char \<Rightarrow> bool" where
  "is_digit c \<longleftrightarrow> 48 \<le> (of_char c :: nat) \<and> (of_char c :: nat) \<le> 57"

lemma digit_val_digit_char [simp]: "d < 10 \<Longrightarrow> digit_val (digit_char d) = d"
  by (simp add: digit_val_def digit_char_def)

lemma is_digit_digit_char [simp]: "d < 10 \<Longrightarrow> is_digit (digit_char d)"
  by (simp add: is_digit_def digit_char_def)

lemma digits_val_dec_nat [simp]: "digits_val (dec_nat n) = n"
proof (induction n rule: dec_nat.induct)
  case (1 n)
  then show ?case
    by (cases "n < 10") (simp_all add: dec_nat.simps [of n] digits_val_def)
qed

lemma dec_nat_digits: "list_all is_digit (dec_nat n)"
proof (induction n rule: dec_nat.induct)
  case (1 n)
  then show ?case by (cases "n < 10") (simp_all add: dec_nat.simps [of n])
qed

lemma dec_nat_nonempty [simp]: "dec_nat n \<noteq> []"
  by (subst dec_nat.simps) simp

lemma dec_nat_inj: "dec_nat m = dec_nat n \<longleftrightarrow> m = n"
  by (metis digits_val_dec_nat)

lemma dec_nat_not_minus [simp]: "dec_nat n \<noteq> CHR ''-'' # s"
proof
  assume "dec_nat n = CHR ''-'' # s"
  then have "is_digit (CHR ''-'')" using dec_nat_digits [of n] by simp
  then show False by (simp add: is_digit_def)
qed

lemma dec_int_inj: "dec_int i = dec_int j \<longleftrightarrow> i = j"
  by (auto simp: dec_int_def dec_nat_inj dec_nat_not_minus [symmetric] split: if_splits)

lemma length_pad [simp]: "length (pad2 n) = 2" "length (pad4 n) = 4" "length (pad6 n) = 6"
  by (simp_all add: pad2_def pad4_def pad6_def)

lemma pad2_inj:
  assumes "a < 100" and "b < 100" and "pad2 a = pad2 b"
  shows "a = b"
proof -
  have "a div 10 mod 10 = b div 10 mod 10" and "a mod 10 = b mod 10"
    using assms(3) digit_char_inj [of "a div 10 mod 10" "b div 10 mod 10"]
      digit_char_inj [of "a mod 10" "b mod 10"]
    by (auto simp: pad2_def)
  moreover have "a = 10 * (a div 10 mod 10) + a mod 10" "b = 10 * (b div 10 mod 10) + b mod 10"
    using assms(1,2) by simp_all
  ultimately show ?thesis by metis
qed

lemma pad4_inj:
  assumes "a < 10000" and "b < 10000" and "pad4 a = pad4 b"
  shows "a = b"
proof -
  have "pad2 (a div 100) = pad2 (b div 100)" and "pad2 (a mod 100) = pad2 (b mod 100)"
    using assms(3) by (simp_all add: pad4_def)
  then have "a div 100 = b div 100" and "a mod 100 = b mod 100"
    using assms(1,2) by (auto intro: pad2_inj)
  then show ?thesis by (metis div_mult_mod_eq)
qed

lemma pad6_inj:
  assumes "a < 1000000" and "b < 1000000" and "pad6 a = pad6 b"
  shows "a = b"
proof -
  have "pad2 (a div 10000) = pad2 (b div 10000)"
    and "pad2 (a div 100 mod 100) = pad2 (b div 100 mod 100)"
    and "pad2 (a mod 100) = pad2 (b mod 100)"
    using assms(3) by (simp_all add: pad6_def)
  then have "a div 10000 = b div 10000" and "a div 100 mod 100 = b div 100 mod 100"
    and "a mod 100 = b mod 100"
    using assms(1,2) by (auto intro: pad2_inj)
  moreover have "a div 10000 = a div 100 div 100" "b div 10000 = b div 100 div 100"
    by (simp_all add: div_mult2_eq [symmetric])
  ultimately have "a div 100 = b div 100" and "a mod 100 = b mod 100"
    by (metis div_mult_mod_eq)+
  then show ?thesis by (metis div_mult_mod_eq)
qed

lemma append_eq_length:
  assumes "length a = length b" and "a @ x = b @ y"
  shows "a = b \<and> x = y"
  using assms by simp

text \<open>A field without a colon is determined by the text up to the next colon.\<close>

lemma colon_split:
  assumes "CHR '':'' \<notin> set a" "CHR '':'' \<notin> set b" "a @ '':'' @ x = b @ '':'' @ y"
  shows "a = b \<and> x = y"
  using assms
proof (induction a arbitrary: b)
  case Nil
  then show ?case by (cases b) auto
next
  case (Cons c a)
  then show ?case by (cases b) auto
qed

lemma dec_int_no_colon: "CHR '':'' \<notin> set (dec_int i)"
proof -
  have "CHR '':'' \<notin> set (dec_nat n)" for n using dec_nat_digits [of n] by (auto simp: list_all_iff is_digit_def)
  then show ?thesis by (simp add: dec_int_def)
qed

end
