(* ===== verification/Money.thy ===== *)
theory Money
  imports Delta_Prelude
begin

text \<open>
  \<open>delta.money\<close>: exact integer money and the numeric guards, over the JSON values the
  services receive. Python's \<open>decimal\<close> is modelled as far as \<open>from_wire_cents\<close> uses it: the
  conversion of a string to an exact decimal, and quantization to an integer, half-even, in
  the default context of 28 digits. A finite float is represented by the decimal its \<open>repr\<close>
  prints (\<open>str(value)\<close> is all the code reads of it).
\<close>

section \<open>Values and exceptions\<close>

text \<open>A float: a NaN, an infinity with its sign, or \<open>m * 10 ^ e\<close> as printed.\<close>

datatype pyfloat = PNan | PInf bool | PFin int int

datatype json = JNull | JBool bool | JInt int | JFloat pyfloat | JStr string
  | JArr "json list" | JObj "(string \<times> json) list"

text \<open>
  The exception classes the code raises or distinguishes. \<open>ValidationError\<close> is pydantic's,
  a subclass of \<open>ValueError\<close>; \<open>InvalidOperation\<close> is decimal's, an \<open>ArithmeticError\<close>.
\<close>

datatype py_exc = ValueError | ValidationError | TypeError | InvalidOperation | RuntimeError
  | IntegrityError | DataError | ProgrammingError | OperationalError | InterfaceError
  | SATimeoutError | TimeoutError | ConnectionError | OSError | DBAPIError | LookupError
  | TransactionNotFoundError | AllocationReconciliationError | AllocationNotFoundError
  | AllocationAlreadyDecidedError | PolicySignError | KeyError | AttributeError | OverflowError

definition is_value_error :: "py_exc \<Rightarrow> bool" where
  "is_value_error x \<longleftrightarrow> x \<in> {ValueError, ValidationError, AllocationReconciliationError, PolicySignError}"

datatype py_datetime = Naive instant | Aware instant

record money =
  minor_units :: cents
  currency :: string

section \<open>Constants\<close>

definition MAX_BUDGET_TOKENS :: int where "MAX_BUDGET_TOKENS = 1000000000000"
definition MAX_BUDGET_COST_CENTS :: int where "MAX_BUDGET_COST_CENTS = 100000000000"
definition MAX_USAGE_TOKENS :: int where "MAX_USAGE_TOKENS = 10000000"
definition MAX_USAGE_COST_CENTS :: int where "MAX_USAGE_COST_CENTS = 100000000"
definition MAX_MONEY_MINOR_UNITS :: int where "MAX_MONEY_MINOR_UNITS = MAX_BUDGET_COST_CENTS"
definition DEFAULT_CURRENCY :: string where "DEFAULT_CURRENCY = ''USD''"

lemmas money_bounds = MAX_BUDGET_TOKENS_def MAX_BUDGET_COST_CENTS_def MAX_USAGE_TOKENS_def
  MAX_USAGE_COST_CENTS_def MAX_MONEY_MINOR_UNITS_def

section \<open>Integer guards\<close>

fun reject_non_integer :: "json \<Rightarrow> py_exc + int" where
  "reject_non_integer (JBool b) = Inl ValueError"
| "reject_non_integer (JFloat x) = Inl ValueError"
| "reject_non_integer (JInt i) = Inr i"
| "reject_non_integer _ = Inl ValueError"

definition bounded_count :: "json \<Rightarrow> int \<Rightarrow> py_exc + int" where
  "bounded_count value maximum =
     bindR (reject_non_integer value) (\<lambda>v.
     if v < 0 then Inl ValueError
     else if v > maximum then Inl ValueError
     else Inr v)"

fun require_aware_utc :: "py_datetime \<Rightarrow> py_exc + instant" where
  "require_aware_utc (Naive t) = Inl ValueError"
| "require_aware_utc (Aware t) = Inr t"

section \<open>Decimal\<close>

datatype pydec = DFin int int | DInf | DNan

definition is_space :: "char \<Rightarrow> bool" where
  "is_space c = (let n = (of_char c :: nat) in
     (9 \<le> n \<and> n \<le> 13) \<or> (28 \<le> n \<and> n \<le> 32) \<or> n = 133 \<or> n = 160)"

definition strip :: "string \<Rightarrow> string" where
  "strip s = rev (dropWhile is_space (rev (dropWhile is_space s)))"

definition to_lower :: "char \<Rightarrow> char" where
  "to_lower c = (let n = (of_char c :: nat) in
     if 65 \<le> n \<and> n \<le> 90 then char_of (n + 32) else c)"

definition split_sign :: "string \<Rightarrow> bool \<times> string" where
  "split_sign s = (case s of
     c # cs \<Rightarrow> if c = CHR ''-'' then (True, cs) else if c = CHR ''+'' then (False, cs) else (False, s)
   | [] \<Rightarrow> (False, []))"

definition signed :: "bool \<Rightarrow> nat \<Rightarrow> int" where
  "signed neg n = (if neg then - int n else int n)"

text \<open>The exponent part: absent (0), or e, an optional sign and at least one digit.\<close>

definition parse_exponent :: "string \<Rightarrow> int option" where
  "parse_exponent s = (case s of
     [] \<Rightarrow> Some 0
   | c # cs \<Rightarrow>
       (let (neg, ds) = split_sign cs in
        if to_lower c = CHR ''e'' \<and> ds \<noteq> [] \<and> list_all is_digit ds
        then Some (signed neg (digits_val ds)) else None))"

definition dec_digits :: "int \<Rightarrow> int" where
  "dec_digits m = int (length (dec_nat (nat \<bar>m\<bar>)))"

text \<open>An exact conversion: an exponent outside the widest context is an invalid operation.\<close>

definition exact_dec :: "int \<Rightarrow> int \<Rightarrow> pydec option" where
  "exact_dec m e =
     (if e + dec_digits m - 1 > 999999999999999999 \<or> e < - 1999999999999999997 then None
      else Some (DFin m e))"

definition parse_number :: "bool \<Rightarrow> string \<Rightarrow> pydec option" where
  "parse_number neg s =
     (let ip = takeWhile is_digit s; s1 = dropWhile is_digit s;
          (fp, s2) = (case s1 of
             c # cs \<Rightarrow> if c = CHR ''.'' then (takeWhile is_digit cs, dropWhile is_digit cs) else ([], s1)
           | [] \<Rightarrow> ([], []))
      in if ip @ fp = [] then None
         else case parse_exponent s2 of
           None \<Rightarrow> None
         | Some x \<Rightarrow> exact_dec (signed neg (digits_val (ip @ fp))) (x - int (length fp)))"

definition parse_decimal :: "string \<Rightarrow> pydec option" where
  "parse_decimal str =
     (let (neg, s) = split_sign (filter (\<lambda>c. c \<noteq> CHR ''_'') (strip str)); l = map to_lower s in
      if l = ''inf'' \<or> l = ''infinity'' then Some DInf
      else if take 3 l = ''nan'' \<and> list_all is_digit (drop 3 l) then Some DNan
      else if take 4 l = ''snan'' \<and> list_all is_digit (drop 4 l) then Some DNan
      else parse_number neg s)"

text \<open>\<open>Decimal(str(value))\<close>: \<open>None\<close>, lists and dicts print as text that is no number.\<close>

fun decimal_of_str :: "json \<Rightarrow> py_exc + pydec" where
  "decimal_of_str (JInt i) = Inr (DFin i 0)"
| "decimal_of_str (JFloat PNan) = Inr DNan"
| "decimal_of_str (JFloat (PInf neg)) = Inr DInf"
| "decimal_of_str (JFloat (PFin m e)) = Inr (DFin m e)"
| "decimal_of_str (JStr s) = (case parse_decimal s of None \<Rightarrow> Inl InvalidOperation | Some d \<Rightarrow> Inr d)"
| "decimal_of_str _ = Inl InvalidOperation"

definition round_half_even :: "int \<Rightarrow> int \<Rightarrow> int" where
  "round_half_even n d =
     (let q = n div d; r = n mod d in
      if 2 * r < d then q else if 2 * r > d then q + 1 else if even q then q else q + 1)"

definition dec_round :: "int \<Rightarrow> int \<Rightarrow> int" where
  "dec_round m e = (if 0 \<le> e then m * 10 ^ nat e else round_half_even m (10 ^ nat (- e)))"

definition quantize :: "int \<Rightarrow> int \<Rightarrow> py_exc + int" where
  "quantize m e = (let v = dec_round m e in
     if \<bar>v\<bar> < 10 ^ 28 then Inr v else Inl InvalidOperation)"

section \<open>Money\<close>

definition is_upper :: "char \<Rightarrow> bool" where
  "is_upper c = (let n = (of_char c :: nat) in 65 \<le> n \<and> n \<le> 90)"

definition is_currency :: "string \<Rightarrow> bool" where
  "is_currency s \<longleftrightarrow> length s = 3 \<and> list_all is_upper s"

text \<open>The model constructor: every failing validator surfaces as \<open>ValidationError\<close>.\<close>

definition mk_money :: "json \<Rightarrow> string \<Rightarrow> py_exc + money" where
  "mk_money units cur =
     (case bounded_count units MAX_MONEY_MINOR_UNITS of
        Inl _ \<Rightarrow> Inl ValidationError
      | Inr u \<Rightarrow> if is_currency cur then Inr \<lparr>minor_units = u, currency = cur\<rparr>
                 else Inl ValidationError)"

definition from_wire_cents :: "json \<Rightarrow> string \<Rightarrow> py_exc + money" where
  "from_wire_cents value cur =
     (case value of
        JBool _ \<Rightarrow> Inl ValueError
      | _ \<Rightarrow>
        bindR (decimal_of_str value) (\<lambda>dec.
        case dec of
          DFin m e \<Rightarrow>
            (case quantize m e of
               Inl _ \<Rightarrow> Inl ValueError
             | Inr quantized \<Rightarrow> mk_money (JInt quantized) cur)
        | _ \<Rightarrow> Inl ValueError))"

section \<open>Bounds\<close>

lemma bounded_count_Inr [simp]:
  "bounded_count v m = Inr i \<longleftrightarrow> v = JInt i \<and> 0 \<le> i \<and> i \<le> m"
  by (cases v) (auto simp: bounded_count_def)

lemma bounded_count_Inl: "bounded_count v m = Inl x \<Longrightarrow> x = ValueError"
  by (cases v) (auto simp: bounded_count_def split: if_splits)

lemma bounded_count_ok: "0 \<le> i \<Longrightarrow> i \<le> m \<Longrightarrow> bounded_count (JInt i) m = Inr i"
  by simp

lemma mk_money_Inr [simp]:
  "mk_money v c = Inr a \<longleftrightarrow> (\<exists>i. v = JInt i \<and> 0 \<le> i \<and> i \<le> MAX_MONEY_MINOR_UNITS \<and> is_currency c
     \<and> a = \<lparr>minor_units = i, currency = c\<rparr>)"
  by (cases "bounded_count v MAX_MONEY_MINOR_UNITS")
    (auto simp: mk_money_def bounded_count_ok simp flip: bounded_count_Inr)

lemma mk_money_Inl: "mk_money v c = Inl x \<Longrightarrow> x = ValidationError"
  by (auto simp: mk_money_def split: sum.splits if_splits)

lemma round_half_even_near:
  assumes "0 < d"
  shows "2 * \<bar>round_half_even n d * d - n\<bar> \<le> d"
    and "2 * \<bar>round_half_even n d * d - n\<bar> = d \<Longrightarrow> even (round_half_even n d)"
proof -
  define q r where "q = n div d" and "r = n mod d"
  have n: "n = q * d + r" by (simp add: q_def r_def)
  have r: "0 \<le> r" "r < d" using assms by (simp_all add: r_def)
  consider (down) "round_half_even n d = q" "2 * r < d" | (up) "round_half_even n d = q + 1" "2 * r > d"
    | (tie) "2 * r = d" "round_half_even n d = (if even q then q else q + 1)"
    unfolding round_half_even_def Let_def q_def [symmetric] r_def [symmetric]
    by (cases "2 * r" d rule: linorder_cases) simp_all
  then show "2 * \<bar>round_half_even n d * d - n\<bar> \<le> d"
    "2 * \<bar>round_half_even n d * d - n\<bar> = d \<Longrightarrow> even (round_half_even n d)"
    using r by (cases; simp add: n algebra_simps split: if_splits)+
qed

lemma dec_round_near:
  assumes "e \<le> 0"
  shows "2 * \<bar>dec_round m e * 10 ^ nat (- e) - m\<bar> \<le> 10 ^ nat (- e)"
    and "2 * \<bar>dec_round m e * 10 ^ nat (- e) - m\<bar> = 10 ^ nat (- e) \<Longrightarrow> even (dec_round m e)"
  using round_half_even_near [of "10 ^ nat (- e)" m] assms by (auto simp: dec_round_def)

text \<open>What a wire value denotes, when it denotes a number.\<close>

definition wire_number :: "json \<Rightarrow> (int \<times> int) option" where
  "wire_number v = (case v of JBool _ \<Rightarrow> None
     | _ \<Rightarrow> (case decimal_of_str v of Inr (DFin m e) \<Rightarrow> Some (m, e) | _ \<Rightarrow> None))"

lemma from_wire_cents_Inr:
  "from_wire_cents v c = Inr a \<longleftrightarrow>
     (\<exists>m e. wire_number v = Some (m, e) \<and> 0 \<le> dec_round m e
        \<and> dec_round m e \<le> MAX_MONEY_MINOR_UNITS \<and> is_currency c
        \<and> a = \<lparr>minor_units = dec_round m e, currency = c\<rparr>)"
proof -
  have big: "v < 10000000000000000000000000000" if "v \<le> MAX_MONEY_MINOR_UNITS" for v :: int
    using that by (simp add: money_bounds)
  show ?thesis
    by (cases v; cases "decimal_of_str v")
      (auto simp: from_wire_cents_def wire_number_def quantize_def Let_def big
        split: pydec.splits option.splits)
qed

lemma from_wire_cents_Inl:
  assumes "from_wire_cents v c = Inl x"
  shows "is_value_error x \<or> (x = InvalidOperation \<and> decimal_of_str v = Inl InvalidOperation)"
proof -
  have "decimal_of_str v = Inl y \<Longrightarrow> y = InvalidOperation" for y
    by (cases v rule: decimal_of_str.cases) (auto split: option.splits)
  then show ?thesis
    using assms by (cases v; cases "decimal_of_str v")
      (auto simp: from_wire_cents_def is_value_error_def dest: mk_money_Inl
        split: pydec.splits sum.splits)
qed

lemma from_wire_cents_non_finite:
  "v \<in> {JFloat PNan, JFloat (PInf s)} \<Longrightarrow> \<exists>e. from_wire_cents v c = Inl e \<and> is_value_error e"
  by (auto simp: from_wire_cents_def is_value_error_def)

end
