(* ===== verification/Identifiers.thy ===== *)
theory Identifiers
  imports Delta_Prelude
begin

text \<open>
  \<open>delta.identifiers\<close>: the constrained string types. A pattern checked by pydantic must match
  the whole string; a pattern checked with \<open>re.match\<close> ends in a dollar sign that also
  matches before one trailing newline (\<open>dollar\<close>).
\<close>

section \<open>Definitions\<close>

definition char_in :: "nat \<Rightarrow> nat \<Rightarrow> char \<Rightarrow> bool" where
  "char_in lo hi c = (let n = (of_char c :: nat) in lo \<le> n \<and> n \<le> hi)"

definition is_lower :: "char \<Rightarrow> bool" where "is_lower = char_in 97 122"
definition is_upper_az :: "char \<Rightarrow> bool" where "is_upper_az = char_in 65 90"

definition is_hex :: "char \<Rightarrow> bool" where
  "is_hex c \<longleftrightarrow> is_digit c \<or> char_in 97 102 c \<or> char_in 65 70 c"

definition is_slug_char :: "char \<Rightarrow> bool" where
  "is_slug_char c \<longleftrightarrow> is_lower c \<or> is_digit c"

definition is_alnum :: "char \<Rightarrow> bool" where
  "is_alnum c \<longleftrightarrow> is_lower c \<or> is_upper_az c \<or> is_digit c"

definition dollar :: "(string \<Rightarrow> bool) \<Rightarrow> string \<Rightarrow> bool" where
  "dollar p s \<longleftrightarrow> p s \<or> (s \<noteq> [] \<and> last s = char_of (10::nat) \<and> p (butlast s))"

text \<open>The dashed form 8-4-4-4-12 of \<open>_UUID_PATTERN\<close>.\<close>

definition uuid_template :: string where
  "uuid_template = ''xxxxxxxx-xxxx-xxxx-xxxx-xxxxxxxxxxxx''"

definition is_uuid :: "string \<Rightarrow> bool" where
  "is_uuid s \<longleftrightarrow> list_all2 (\<lambda>t c. if t = CHR ''-'' then c = t else is_hex c) uuid_template s"

text \<open>\<open>_AGENT_ID_PATTERN\<close> as the automaton of \<open>[a-z0-9]+(-[a-z0-9]+)*\<close>: the flag tells
  whether the last character read was a letter or a digit.\<close>

fun slug_run :: "bool \<Rightarrow> string \<Rightarrow> bool" where
  "slug_run ok [] = ok"
| "slug_run ok (c # cs) =
     (if is_slug_char c then slug_run True cs
      else c = CHR ''-'' \<and> ok \<and> slug_run False cs)"

definition is_agent_id :: "string \<Rightarrow> bool" where
  "is_agent_id s \<longleftrightarrow> slug_run False s \<and> length s \<le> 64"

definition is_request_id :: "string \<Rightarrow> bool" where
  "is_request_id s \<longleftrightarrow> 1 \<le> length s \<and> length s \<le> 64
     \<and> list_all (\<lambda>c. is_alnum c \<or> c \<in> set ''._-'') s"

section \<open>Facts\<close>

lemma is_uuid_length: "is_uuid s \<Longrightarrow> length s = 36"
  by (auto simp: is_uuid_def uuid_template_def dest: list_all2_lengthD)

lemma is_agent_id_length: "is_agent_id s \<Longrightarrow> length s \<le> 64"
  by (simp add: is_agent_id_def)

lemma is_agent_id_nonempty: "is_agent_id s \<Longrightarrow> s \<noteq> []"
  by (auto simp: is_agent_id_def)

lemma list_all2_last:
  "list_all2 P xs ys \<Longrightarrow> xs \<noteq> [] \<Longrightarrow> P (last xs) (last ys)"
  by (induction rule: list_all2_induct) auto

lemma is_uuid_last: "is_uuid s \<Longrightarrow> is_hex (last s)"
  using list_all2_last [of _ uuid_template s] by (fastforce simp: is_uuid_def uuid_template_def)

text \<open>\<open>re.match\<close> accepts one more string than the pattern says: the id with a newline.\<close>

lemma dollar_uuid:
  "dollar is_uuid s \<longleftrightarrow> is_uuid s \<or> (\<exists>t. is_uuid t \<and> s = t @ [char_of (10::nat)])"
  by (auto simp: dollar_def) (metis append_butlast_last_id)+

lemma newline_not_uuid: "\<not> is_uuid (t @ [char_of (10::nat)])"
  using is_uuid_last [of "t @ [char_of (10::nat)]"]
  by (auto simp: is_hex_def is_digit_def char_in_def Let_def)

end
