(* ===== verification/Calendar.thy ===== *)
theory Calendar
  imports Delta_Prelude
begin

text \<open>
  The part of Python's \<open>datetime\<close> the program uses: aware datetimes as instants (an integer
  number of microseconds since 0001-01-01T00:00Z), their proleptic Gregorian fields in UTC,
  \<open>replace\<close>, \<open>isoformat\<close> and \<open>strftime\<close>. \<open>instant_of\<close> and \<open>civil_of\<close> are
  proved inverse on valid field tuples, so reading the fields of an instant and rebuilding it
  is exact.
\<close>

section \<open>Definitions\<close>

record civil =
  c_year :: int
  c_month :: int
  c_day :: int
  c_hour :: int
  c_minute :: int
  c_second :: int
  c_micro :: int

definition is_leap :: "int \<Rightarrow> bool" where
  "is_leap y \<longleftrightarrow> y mod 4 = 0 \<and> (y mod 100 \<noteq> 0 \<or> y mod 400 = 0)"

definition days_before_year :: "int \<Rightarrow> int" where
  "days_before_year y = (y - 1) * 365 + (y - 1) div 4 - (y - 1) div 100 + (y - 1) div 400"

definition leap_day :: "int \<Rightarrow> int" where
  "leap_day y = (if is_leap y then 1 else 0)"

definition days_before_month :: "int \<Rightarrow> int \<Rightarrow> int" where
  "days_before_month y m =
     (if m \<le> 1 then 0 else if m = 2 then 31
      else leap_day y +
        (if m = 3 then 59 else if m = 4 then 90 else if m = 5 then 120 else if m = 6 then 151
         else if m = 7 then 181 else if m = 8 then 212 else if m = 9 then 243
         else if m = 10 then 273 else if m = 11 then 304 else if m = 12 then 334 else 365))"

definition days_in_month :: "int \<Rightarrow> int \<Rightarrow> int" where
  "days_in_month y m = days_before_month y (m + 1) - days_before_month y m"

text \<open>Days since 0001-01-01, counted from 0.\<close>

definition day_number :: "int \<Rightarrow> int \<Rightarrow> int \<Rightarrow> int" where
  "day_number y m d = days_before_year y + days_before_month y m + (d - 1)"

definition year_of_day :: "int \<Rightarrow> int" where
  "year_of_day n =
     (let n400 = n div 146097; r = n mod 146097;
          n100 = min 3 (r div 36524); r1 = r - n100 * 36524;
          n4 = r1 div 1461; r2 = r1 - n4 * 1461;
          n1 = min 3 (r2 div 365)
      in 400 * n400 + 100 * n100 + 4 * n4 + n1 + 1)"

definition month_of_yday :: "int \<Rightarrow> int \<Rightarrow> int" where
  "month_of_yday y k =
     (if k < days_before_month y 2 then 1 else if k < days_before_month y 3 then 2
      else if k < days_before_month y 4 then 3 else if k < days_before_month y 5 then 4
      else if k < days_before_month y 6 then 5 else if k < days_before_month y 7 then 6
      else if k < days_before_month y 8 then 7 else if k < days_before_month y 9 then 8
      else if k < days_before_month y 10 then 9 else if k < days_before_month y 11 then 10
      else if k < days_before_month y 12 then 11 else 12)"

abbreviation us_per_second :: int where "us_per_second \<equiv> 1000000"
abbreviation us_per_hour :: int where "us_per_hour \<equiv> 3600000000"
abbreviation us_per_day :: int where "us_per_day \<equiv> 86400000000"

definition instant_of :: "civil \<Rightarrow> instant" where
  "instant_of c = day_number (c_year c) (c_month c) (c_day c) * us_per_day
     + c_hour c * us_per_hour + c_minute c * 60000000 + c_second c * us_per_second + c_micro c"

definition civil_of :: "instant \<Rightarrow> civil" where
  "civil_of t =
     (let n = t div us_per_day; r = t mod us_per_day; y = year_of_day n;
          k = n - days_before_year y; m = month_of_yday y k
      in \<lparr>c_year = y, c_month = m, c_day = k - days_before_month y m + 1,
         c_hour = r div us_per_hour, c_minute = r mod us_per_hour div 60000000,
         c_second = r mod 60000000 div us_per_second, c_micro = r mod us_per_second\<rparr>)"

definition valid_civil :: "civil \<Rightarrow> bool" where
  "valid_civil c \<longleftrightarrow> 1 \<le> c_month c \<and> c_month c \<le> 12 \<and>
     1 \<le> c_day c \<and> c_day c \<le> days_in_month (c_year c) (c_month c) \<and>
     0 \<le> c_hour c \<and> c_hour c < 24 \<and> 0 \<le> c_minute c \<and> c_minute c < 60 \<and>
     0 \<le> c_second c \<and> c_second c < 60 \<and> 0 \<le> c_micro c \<and> c_micro c < 1000000"

text \<open>\<open>datetime\<close> holds the years 1 to 9999 (MINYEAR and MAXYEAR).\<close>

definition in_range :: "instant \<Rightarrow> bool" where
  "in_range t \<longleftrightarrow> 1 \<le> c_year (civil_of t) \<and> c_year (civil_of t) \<le> 9999"

definition date_str :: "civil \<Rightarrow> string" where
  "date_str c = pad4 (nat (c_year c)) @ ''-'' @ pad2 (nat (c_month c)) @ ''-'' @ pad2 (nat (c_day c))"

definition time_str :: "civil \<Rightarrow> string" where
  "time_str c = pad2 (nat (c_hour c)) @ '':'' @ pad2 (nat (c_minute c)) @ '':'' @ pad2 (nat (c_second c))"

text \<open>\<open>isoformat\<close> of a UTC datetime: the microseconds are printed only when they are not 0.\<close>

definition iso_local :: "instant \<Rightarrow> string" where
  "iso_local t = (let c = civil_of t in
     date_str c @ ''T'' @ time_str c @
     (if c_micro c = 0 then [] else ''.'' @ pad6 (nat (c_micro c))))"

definition isoformat :: "instant \<Rightarrow> string" where
  "isoformat t = iso_local t @ ''+00:00''"

section \<open>Days and fields\<close>

lemma leap_day_bounds: "0 \<le> leap_day y \<and> leap_day y \<le> 1"
  by (simp add: leap_day_def)

lemma div_step:
  fixes y k :: int
  assumes "0 < k"
  shows "y div k = (y - 1) div k + (if y mod k = 0 then 1 else 0)"
proof (cases "y mod k = 0")
  case True
  then have "y - 1 = k * (y div k - 1) + (k - 1)"
    by (simp add: algebra_simps) (metis add.right_neutral mult_div_mod_eq)
  then have "(y - 1) div k = y div k - 1"
    using assms by (intro int_div_pos_eq [where r = "k - 1"]) auto
  with True show ?thesis by simp
next
  case False
  then have "0 < y mod k" using assms by (simp add: order_less_le)
  moreover have "y - 1 = k * (y div k) + (y mod k - 1)" by simp
  moreover have "y mod k < k" using assms by simp
  ultimately have "(y - 1) div k = y div k"
    using assms by (intro int_div_pos_eq [where r = "y mod k - 1"]) linarith+
  with False show ?thesis by simp
qed

lemma if_counts:
  assumes "c \<Longrightarrow> b" and "b \<Longrightarrow> a"
  shows "(if a \<and> (\<not> b \<or> c) then 1 else 0)
    = (if a then 1 else 0) - (if b then 1 else 0) + (if c then 1 else (0::int))"
  using assms by (cases a; cases b; cases c; simp)

lemma leap_day_counts:
  "leap_day y = (if y mod 4 = 0 then 1 else 0) - (if y mod 100 = 0 then 1 else 0)
     + (if y mod 400 = 0 then 1 else (0::int))"
  unfolding leap_day_def is_leap_def
proof (rule if_counts)
  show "y mod 100 = 0" if "y mod 400 = 0"
    using that dvd_trans [of 100 400 y] by (simp add: mod_eq_0_iff_dvd)
  show "y mod 4 = 0" if "y mod 100 = 0"
    using that dvd_trans [of 4 100 y] by (simp add: mod_eq_0_iff_dvd)
qed

lemma days_before_year_Suc: "days_before_year (y + 1) = days_before_year y + 365 + leap_day y"
proof -
  define a b c where "a = (y - 1) div 4" and "b = (y - 1) div 100" and "c = (y - 1) div 400"
  define p q r :: int where "p = (if y mod 4 = 0 then 1 else 0)"
    and "q = (if y mod 100 = 0 then 1 else 0)" and "r = (if y mod 400 = 0 then 1 else 0)"
  have "y div 4 = a + p" "y div 100 = b + q" "y div 400 = c + r"
    unfolding a_def b_def c_def p_def q_def r_def by (rule div_step, simp)+
  then have "days_before_year (y + 1) = y * 365 + (a + p) - (b + q) + (c + r)"
    by (simp add: days_before_year_def)
  moreover have "days_before_year y = (y - 1) * 365 + a - b + c"
    unfolding days_before_year_def a_def b_def c_def by (rule refl)
  moreover have "leap_day y = p - q + r"
    unfolding p_def q_def r_def by (rule leap_day_counts)
  ultimately show ?thesis by simp
qed

lemma days_before_year_mono_nat: "days_before_year y + 365 * int k \<le> days_before_year (y + int k)"
proof (induction k)
  case (Suc k)
  have "days_before_year (y + int (Suc k)) = days_before_year ((y + int k) + 1)"
    by (simp add: algebra_simps)
  with Suc leap_day_bounds [of "y + int k"] show ?case
    by (simp add: days_before_year_Suc)
qed simp

lemma days_before_year_strict: "y < z \<Longrightarrow> days_before_year (y + 1) \<le> days_before_year z"
  using days_before_year_mono_nat [of "y + 1" "nat (z - (y + 1))"] by simp

text \<open>A day number lies in exactly one year.\<close>

lemma year_unique:
  assumes "days_before_year y \<le> n" and "n < days_before_year (y + 1)"
    and "days_before_year z \<le> n" and "n < days_before_year (z + 1)"
  shows "y = z"
  using assms days_before_year_strict [of y z] days_before_year_strict [of z y]
  by (cases y z rule: linorder_cases) auto

lemma days_before_year_split:
  fixes a b c d :: int
  assumes "0 \<le> b" "b \<le> 3" "0 \<le> c" "c \<le> 24" "0 \<le> d" "d \<le> 3"
  shows "days_before_year (400 * a + 100 * b + 4 * c + d + 1)
           = 146097 * a + 36524 * b + 1461 * c + 365 * d"
proof -
  have "(400 * a + 100 * b + 4 * c + d) div 4 = 100 * a + 25 * b + c"
    using assms by (intro int_div_pos_eq [where r = d]) auto
  moreover have "(400 * a + 100 * b + 4 * c + d) div 100 = 4 * a + b"
    using assms by (intro int_div_pos_eq [where r = "4 * c + d"]) auto
  moreover have "(400 * a + 100 * b + 4 * c + d) div 400 = a"
    using assms by (intro int_div_pos_eq [where r = "100 * b + 4 * c + d"]) auto
  ultimately show ?thesis by (simp add: days_before_year_def)
qed

lemma year_of_day_lower: "days_before_year (year_of_day n) \<le> n"
proof -
  define r where "r = n mod 146097"
  define b where "b = min 3 (r div 36524)"
  define r1 where "r1 = r - b * 36524"
  define c where "c = r1 div 1461"
  define r2 where "r2 = r1 - c * 1461"
  define d where "d = min 3 (r2 div 365)"
  have r: "0 \<le> r" "r < 146097" by (simp_all add: r_def)
  have b: "0 \<le> b" "b \<le> 3" "0 \<le> r1" "r1 < 36525"
    using r unfolding b_def r1_def by (auto simp: min_def split: if_splits)
  have c: "0 \<le> c" "c \<le> 24" "0 \<le> r2" "r2 < 1461"
    using b unfolding c_def r2_def by (auto simp: minus_div_mult_eq_mod)
  have d: "0 \<le> d" "d \<le> 3" "365 * d \<le> r2"
    using c unfolding d_def by (auto simp: min_def)
  have y: "year_of_day n = 400 * (n div 146097) + 100 * b + 4 * c + d + 1"
    unfolding year_of_day_def Let_def r_def b_def r1_def c_def r2_def d_def by (rule refl)
  have n: "n = 146097 * (n div 146097) + r" by (simp add: r_def)
  have "r = b * 36524 + c * 1461 + r2" by (simp add: r2_def r1_def)
  then have "146097 * (n div 146097) + 36524 * b + 1461 * c + 365 * d \<le> n"
    using n d(3) by linarith
  then show ?thesis
    unfolding y days_before_year_split [OF b(1,2) c(1,2) d(1,2)] .
qed

lemma year_of_day_upper: "n < days_before_year (year_of_day n + 1)"
proof -
  define r where "r = n mod 146097"
  define b where "b = min 3 (r div 36524)"
  define r1 where "r1 = r - b * 36524"
  define c where "c = r1 div 1461"
  define r2 where "r2 = r1 - c * 1461"
  define d where "d = min 3 (r2 div 365)"
  define y where "y = 400 * (n div 146097) + 100 * b + 4 * c + d + 1"
  have r: "0 \<le> r" "r < 146097" by (simp_all add: r_def)
  have b: "0 \<le> b" "b \<le> 3" "0 \<le> r1" "b < 3 \<Longrightarrow> r1 < 36524" "r1 < 36525"
    using r unfolding b_def r1_def by (auto simp: min_def split: if_splits)
  have c: "0 \<le> c" "c \<le> 24" "0 \<le> r2" "r2 < 1461" "c = 24 \<Longrightarrow> b < 3 \<Longrightarrow> r2 < 1460"
    using b unfolding c_def r2_def by (auto simp: minus_div_mult_eq_mod)
  have d: "0 \<le> d" "d \<le> 3" "d < 3 \<Longrightarrow> r2 < 365 * d + 365"
    using c unfolding d_def by (auto simp: min_def split: if_splits)
  have leap: "is_leap y" if "d = 3" "c \<noteq> 24 \<or> b = 3"
  proof -
    have y: "y = 400 * (n div 146097) + (100 * b + 4 * c + 4)" using that y_def by simp
    have "y = (100 * (n div 146097) + 25 * b + c + 1) * 4" by (simp add: y)
    then have y4: "y mod 4 = 0" by simp
    show ?thesis
    proof (cases "c = 24")
      case True
      then have "y = (n div 146097 + 1) * 400" using that y by simp
      then show ?thesis by (simp add: is_leap_def)
    next
      case False
      have "y = (4 * (n div 146097) + b) * 100 + (4 * c + 4)" by (simp add: y)
      then have "y mod 100 = (4 * c + 4) mod 100" by (simp only: mod_mult_self3)
      also have "\<dots> = 4 * c + 4" using c False by simp
      finally have "y mod 100 \<noteq> 0" using c by simp
      with y4 show ?thesis by (simp add: is_leap_def)
    qed
  qed
  have "n = 146097 * (n div 146097) + r" by (simp add: r_def)
  moreover have "r2 < 365 * d + 365 + leap_day y"
  proof (cases "d = 3 \<and> (c \<noteq> 24 \<or> b = 3)")
    case True
    with leap have "leap_day y = 1" by (simp add: leap_day_def)
    with True c(4) show ?thesis by simp
  next
    case False
    then have "r2 < 365 * d + 365" using b(2) c(5) d(2,3) by (cases "d = 3") auto
    with leap_day_bounds [of y] show ?thesis by linarith
  qed
  moreover have "r = b * 36524 + c * 1461 + r2" by (simp add: r2_def r1_def)
  moreover have "days_before_year y = 146097 * (n div 146097) + 36524 * b + 1461 * c + 365 * d"
    unfolding y_def using b c d by (intro days_before_year_split)
  ultimately have "n < days_before_year (y + 1)"
    using days_before_year_Suc [of y] by linarith
  moreover have "year_of_day n = y"
    unfolding year_of_day_def Let_def y_def r_def b_def r1_def c_def r2_def d_def by (rule refl)
  ultimately show ?thesis by (simp only:)
qed

lemma year_of_day_day_number:
  assumes "1 \<le> m" "m \<le> 12" "1 \<le> d" "d \<le> days_in_month y m"
  shows "year_of_day (day_number y m d) = y"
proof (rule year_unique [OF year_of_day_lower year_of_day_upper])
  have "0 \<le> days_before_month y m" "days_before_month y (m + 1) \<le> 365 + leap_day y"
    using assms(1,2) leap_day_bounds [of y] by (auto simp: days_before_month_def)
  then show "days_before_year y \<le> day_number y m d" "day_number y m d < days_before_year (y + 1)"
    using assms(3,4) by (auto simp: day_number_def days_before_year_Suc days_in_month_def)
qed

lemma month_cases:
  fixes m :: int
  assumes "1 \<le> m" "m \<le> 12"
  shows "m = 1 \<or> m = 2 \<or> m = 3 \<or> m = 4 \<or> m = 5 \<or> m = 6 \<or> m = 7 \<or> m = 8 \<or> m = 9 \<or> m = 10 \<or> m = 11 \<or> m = 12"
  using assms by presburger

lemma month_of_yday_bounds: "1 \<le> month_of_yday y k \<and> month_of_yday y k \<le> 12"
  by (simp add: month_of_yday_def)

lemma month_of_yday_lower: "0 \<le> k \<Longrightarrow> days_before_month y (month_of_yday y k) \<le> k"
  by (simp add: month_of_yday_def days_before_month_def)

lemma month_of_yday_upper:
  "k < 365 + leap_day y \<Longrightarrow> k < days_before_month y (month_of_yday y k + 1)"
  by (simp add: month_of_yday_def days_before_month_def)

lemma month_of_yday_eq:
  assumes "1 \<le> m" "m \<le> 12" "days_before_month y m \<le> k" "k < days_before_month y (m + 1)"
  shows "month_of_yday y k = m"
  using month_cases [OF assms(1,2)] assms(3,4) leap_day_bounds [of y]
  by (elim disjE) (simp_all add: month_of_yday_def days_before_month_def)

section \<open>Instants and fields are inverse\<close>

lemma time_fields:
  fixes r :: int
  assumes "0 \<le> r" "r < us_per_day"
  shows "0 \<le> r div us_per_hour" "r div us_per_hour < 24"
    and "0 \<le> r mod us_per_hour div 60000000" "r mod us_per_hour div 60000000 < 60"
    and "0 \<le> r mod 60000000 div us_per_second" "r mod 60000000 div us_per_second < 60"
    and "r div us_per_hour * us_per_hour + r mod us_per_hour div 60000000 * 60000000
      + r mod 60000000 div us_per_second * us_per_second + r mod us_per_second = r"
proof -
  have m: "r mod us_per_hour mod 60000000 = r mod 60000000"
    "r mod 60000000 mod us_per_second = r mod us_per_second"
    by (simp_all add: mod_mod_cancel)
  show "0 \<le> r div us_per_hour" "r div us_per_hour < 24"
    using assms by linarith+
  have h: "0 \<le> r mod us_per_hour" "r mod us_per_hour < us_per_hour" by simp_all
  show "0 \<le> r mod us_per_hour div 60000000" "r mod us_per_hour div 60000000 < 60"
    using h by linarith+
  have s: "0 \<le> r mod 60000000" "r mod 60000000 < 60000000" by simp_all
  show "0 \<le> r mod 60000000 div us_per_second" "r mod 60000000 div us_per_second < 60"
    using s by linarith+
  have "r div us_per_hour * us_per_hour + r mod us_per_hour = r"
    "r mod us_per_hour div 60000000 * 60000000 + r mod us_per_hour mod 60000000 = r mod us_per_hour"
    "r mod 60000000 div us_per_second * us_per_second + r mod 60000000 mod us_per_second
       = r mod 60000000"
    by (simp_all only: div_mult_mod_eq)
  with m show "r div us_per_hour * us_per_hour + r mod us_per_hour div 60000000 * 60000000
      + r mod 60000000 div us_per_second * us_per_second + r mod us_per_second = r"
    by linarith
qed

lemma civil_of_valid: "valid_civil (civil_of t)"
proof -
  define n where "n = t div us_per_day"
  define r where "r = t mod us_per_day"
  define y where "y = year_of_day n"
  define k where "k = n - days_before_year y"
  have "0 \<le> k" "k < 365 + leap_day y"
    using year_of_day_lower [of n] year_of_day_upper [of n]
    by (auto simp: k_def y_def days_before_year_Suc)
  then have "days_before_month y (month_of_yday y k) \<le> k"
    "k < days_before_month y (month_of_yday y k + 1)"
    by (auto intro: month_of_yday_lower month_of_yday_upper)
  then have "1 \<le> k - days_before_month y (month_of_yday y k) + 1"
    "k - days_before_month y (month_of_yday y k) + 1 \<le> days_in_month y (month_of_yday y k)"
    by (simp_all add: days_in_month_def)
  moreover have "0 \<le> r" "r < us_per_day" by (simp_all add: r_def)
  moreover have "civil_of t = \<lparr>c_year = y, c_month = month_of_yday y k,
      c_day = k - days_before_month y (month_of_yday y k) + 1,
      c_hour = r div us_per_hour, c_minute = r mod us_per_hour div 60000000,
      c_second = r mod 60000000 div us_per_second, c_micro = r mod us_per_second\<rparr>"
    by (simp add: civil_of_def Let_def n_def r_def y_def k_def)
  moreover have "0 \<le> r mod us_per_second" "r mod us_per_second < us_per_second" by simp_all
  ultimately show ?thesis
    using month_of_yday_bounds [of y k] time_fields [of r]
    by (simp only: valid_civil_def civil.simps simp_thms)
qed

lemma instant_of_civil_of [simp]: "instant_of (civil_of t) = t"
proof -
  define n where "n = t div us_per_day"
  define r where "r = t mod us_per_day"
  have "r div us_per_hour * us_per_hour + r mod us_per_hour div 60000000 * 60000000
      + r mod 60000000 div us_per_second * us_per_second + r mod us_per_second = r"
    by (rule time_fields) (simp_all add: r_def)
  moreover have "n * us_per_day + r = t"
    unfolding n_def r_def by (rule div_mult_mod_eq)
  moreover have "instant_of (civil_of t) = n * us_per_day + (r div us_per_hour * us_per_hour
      + r mod us_per_hour div 60000000 * 60000000
      + r mod 60000000 div us_per_second * us_per_second + r mod us_per_second)"
    by (simp add: instant_of_def civil_of_def Let_def day_number_def n_def r_def)
  ultimately show ?thesis by (simp only:)
qed

lemma civil_of_inj: "civil_of s = civil_of t \<Longrightarrow> s = t"
  by (metis instant_of_civil_of)

lemma instant_parts:
  assumes "valid_civil c"
  defines "u \<equiv> c_hour c * us_per_hour + c_minute c * 60000000 + c_second c * us_per_second + c_micro c"
  shows "0 \<le> u" and "u < us_per_day"
    and "instant_of c div us_per_day = day_number (c_year c) (c_month c) (c_day c)"
    and "instant_of c mod us_per_day = u"
proof -
  have b: "0 \<le> c_hour c" "c_hour c < 24" "0 \<le> c_minute c" "c_minute c < 60"
    "0 \<le> c_second c" "c_second c < 60" "0 \<le> c_micro c" "c_micro c < 1000000"
    using assms(1) by (simp_all only: valid_civil_def)
  show u: "0 \<le> u" "u < us_per_day" using b unfolding u_def by linarith+
  have i: "instant_of c = us_per_day * day_number (c_year c) (c_month c) (c_day c) + u"
    by (simp add: instant_of_def u_def)
  show "instant_of c div us_per_day = day_number (c_year c) (c_month c) (c_day c)"
    using u i by (intro int_div_pos_eq)
  show "instant_of c mod us_per_day = u"
    using u i by (intro int_mod_pos_eq)
qed

lemma time_fields_unique:
  fixes h m s k :: int
  assumes "0 \<le> h" "0 \<le> m" "m < 60" "0 \<le> s" "s < 60" "0 \<le> k" "k < us_per_second"
  defines "u \<equiv> h * us_per_hour + m * 60000000 + s * us_per_second + k"
  shows "u div us_per_hour = h" and "u mod us_per_hour div 60000000 = m"
    and "u mod 60000000 div us_per_second = s" and "u mod us_per_second = k"
proof -
  show "u div us_per_hour = h"
    using assms by (intro int_div_pos_eq [where r = "m * 60000000 + s * us_per_second + k"]) auto
  have "u mod us_per_hour = m * 60000000 + s * us_per_second + k"
    using assms by (intro int_mod_pos_eq [where q = h]) auto
  moreover have "(m * 60000000 + s * us_per_second + k) div 60000000 = m"
    using assms by (intro int_div_pos_eq [where r = "s * us_per_second + k"]) auto
  ultimately show "u mod us_per_hour div 60000000 = m" by (simp only:)
  have "u mod 60000000 = s * us_per_second + k"
    using assms by (intro int_mod_pos_eq [where q = "h * 60 + m"]) auto
  moreover have "(s * us_per_second + k) div us_per_second = s"
    using assms by (intro int_div_pos_eq [where r = k]) auto
  ultimately show "u mod 60000000 div us_per_second = s" by (simp only:)
  show "u mod us_per_second = k"
    using assms by (intro int_mod_pos_eq [where q = "h * 3600 + m * 60 + s"]) auto
qed

lemma civil_of_instant_of [simp]:
  assumes "valid_civil c"
  shows "civil_of (instant_of c) = c"
proof -
  note v = assms [unfolded valid_civil_def]
  define n where "n = day_number (c_year c) (c_month c) (c_day c)"
  define k where "k = n - days_before_year (c_year c)"
  have y: "year_of_day n = c_year c"
    unfolding n_def using v by (intro year_of_day_day_number) auto
  have k: "k = days_before_month (c_year c) (c_month c) + c_day c - 1"
    by (simp add: k_def n_def day_number_def)
  have m: "month_of_yday (c_year c) k = c_month c"
    using v k by (intro month_of_yday_eq) (auto simp: days_in_month_def)
  have d: "k - days_before_month (c_year c) (c_month c) + 1 = c_day c" using k by simp
  note t = time_fields_unique [of "c_hour c" "c_minute c" "c_second c" "c_micro c"]
  show ?thesis
    unfolding civil_of_def Let_def instant_parts [OF assms] n_def [symmetric] y
      k_def [symmetric] m d
    using v t by (cases c) (simp only: civil.simps simp_thms)
qed

end
