(* ===== verification/Periods.thy ===== *)
theory Periods
  imports Calendar
begin

text \<open>
  \<open>delta.budget_engine.periods\<close>: the window \<open>[period_start, period_end)\<close> a budget
  is evaluated over, and the label that keys its enforcement-state row. Datetimes are UTC
  instants (\<open>_as_utc\<close> is the reading of an aware datetime as an instant), so the model is
  exact as long as the results stay within the years \<open>datetime\<close> represents.
\<close>

section \<open>Definitions\<close>

datatype budget_period = HOURLY | DAILY | MONTHLY

definition start_civil :: "budget_period \<Rightarrow> civil \<Rightarrow> civil" where
  "start_civil p u =
     (case p of
        HOURLY \<Rightarrow> u\<lparr>c_minute := 0, c_second := 0, c_micro := 0\<rparr>
      | DAILY \<Rightarrow> u\<lparr>c_hour := 0, c_minute := 0, c_second := 0, c_micro := 0\<rparr>
      | MONTHLY \<Rightarrow> u\<lparr>c_day := 1, c_hour := 0, c_minute := 0, c_second := 0, c_micro := 0\<rparr>)"

definition period_start :: "budget_period \<Rightarrow> instant \<Rightarrow> instant" where
  "period_start p now = instant_of (start_civil p (civil_of now))"

definition period_end :: "budget_period \<Rightarrow> instant \<Rightarrow> instant" where
  "period_end p now =
     (let start = period_start p now; s = civil_of start in
      case p of
        HOURLY \<Rightarrow> start + us_per_hour
      | DAILY \<Rightarrow> start + us_per_day
      | MONTHLY \<Rightarrow>
          if c_month s = 12 then instant_of (s\<lparr>c_year := c_year s + 1, c_month := 1\<rparr>)
          else instant_of (s\<lparr>c_month := c_month s + 1\<rparr>))"

text \<open>\<open>strftime\<close> with the format %Y-%m-%dT%H:%M:%SZ; the platform's %Y does not pad.\<close>

definition period_bucket_label :: "budget_period \<Rightarrow> instant \<Rightarrow> string" where
  "period_bucket_label p now =
     (let c = civil_of (period_start p now) in
      dec_int (c_year c) @ ''-'' @ pad2 (nat (c_month c)) @ ''-'' @ pad2 (nat (c_day c)) @ ''T''
      @ time_str c @ ''Z'')"

section \<open>Windows\<close>

lemma valid_start_civil: "valid_civil u \<Longrightarrow> valid_civil (start_civil p u)"
  by (cases p) (auto simp: start_civil_def valid_civil_def)

lemma civil_of_period_start: "civil_of (period_start p now) = start_civil p (civil_of now)"
  by (simp add: period_start_def valid_start_civil civil_of_valid)

lemma start_civil_idem [simp]: "start_civil p (start_civil p u) = start_civil p u"
  by (cases p; cases u) (simp_all add: start_civil_def)

lemma period_start_idem: "period_start p (period_start p now) = period_start p now"
  by (simp add: period_start_def valid_start_civil civil_of_valid)

lemma day_number_next_month:
  assumes "1 \<le> m" "m \<le> 12"
  shows "(if m = 12 then day_number (y + 1) 1 1 else day_number y (m + 1) 1)
    = day_number y m 1 + days_in_month y m"
  using assms by (simp add: day_number_def days_in_month_def days_before_year_Suc
      days_before_month_def leap_day_def)

lemma month_civil:
  assumes "day_number y m 1 \<le> t div us_per_day"
    and "t div us_per_day < day_number y m 1 + days_in_month y m"
    and "1 \<le> m" "m \<le> 12"
  shows "c_year (civil_of t) = y" and "c_month (civil_of t) = m"
proof -
  define n where "n = t div us_per_day"
  define d where "d = n - day_number y m 1 + 1"
  have d: "1 \<le> d" "d \<le> days_in_month y m" using assms(1,2) by (simp_all add: d_def n_def)
  have n: "n = day_number y m d" by (simp add: d_def day_number_def)
  have y: "year_of_day n = y"
    unfolding n using assms(3,4) d by (rule year_of_day_day_number)
  have "month_of_yday y (n - days_before_year y) = m"
    using assms(3,4) d n by (intro month_of_yday_eq) (auto simp: day_number_def days_in_month_def)
  then show "c_year (civil_of t) = y" "c_month (civil_of t) = m"
    by (simp_all only: civil_of_def Let_def civil.simps n_def [symmetric] y)
qed

text \<open>Each window is an interval of instants whose start depends only on the interval.\<close>

lemma civil_day_time:
  "t = day_number (c_year (civil_of t)) (c_month (civil_of t)) (c_day (civil_of t)) * us_per_day
     + c_hour (civil_of t) * us_per_hour + c_minute (civil_of t) * 60000000
     + c_second (civil_of t) * us_per_second + c_micro (civil_of t)"
  using instant_of_civil_of [of t] by (simp only: instant_of_def)

lemma period_start_daily: "period_start DAILY t = t div us_per_day * us_per_day"
  using instant_parts(3) [OF civil_of_valid [of t], unfolded instant_of_civil_of]
  by (simp add: period_start_def start_civil_def instant_of_def)

lemma hour_of_instant:
  fixes n h u :: int
  assumes "0 \<le> u" "u < us_per_hour"
  shows "(n * us_per_day + h * us_per_hour + u) div us_per_hour = n * 24 + h"
  using assms by (intro int_div_pos_eq [where r = u]) auto

lemma period_start_hourly: "period_start HOURLY t = t div us_per_hour * us_per_hour"
proof -
  define c where "c = civil_of t"
  define n where "n = day_number (c_year c) (c_month c) (c_day c)"
  define u where "u = c_minute c * 60000000 + c_second c * us_per_second + c_micro c"
  have "valid_civil c" unfolding c_def by (rule civil_of_valid)
  then have u: "0 \<le> u" "u < us_per_hour" unfolding u_def valid_civil_def by linarith+
  have t: "t = n * us_per_day + c_hour c * us_per_hour + u"
    using civil_day_time [of t] unfolding n_def u_def c_def by linarith
  have "t div us_per_hour = n * 24 + c_hour c"
    by (subst t) (rule hour_of_instant [OF u])
  then show ?thesis
    by (simp only: period_start_def start_civil_def instant_of_def c_def [symmetric])
      (simp add: n_def)
qed

lemma period_start_monthly:
  "period_start MONTHLY t
     = day_number (c_year (civil_of t)) (c_month (civil_of t)) 1 * us_per_day"
  by (simp add: period_start_def start_civil_def instant_of_def)

lemma period_end_monthly:
  "period_end MONTHLY t = period_start MONTHLY t
     + days_in_month (c_year (civil_of t)) (c_month (civil_of t)) * us_per_day"
proof -
  define y m where "y = c_year (civil_of t)" and "m = c_month (civil_of t)"
  have m: "1 \<le> m" "m \<le> 12" using civil_of_valid [of t] by (simp_all add: m_def valid_civil_def)
  have "period_end MONTHLY t
      = (if m = 12 then day_number (y + 1) 1 1 else day_number y (m + 1) 1) * us_per_day"
    by (simp add: period_end_def Let_def civil_of_period_start start_civil_def instant_of_def
        y_def m_def)
  also have "\<dots> = (day_number y m 1 + days_in_month y m) * us_per_day"
    by (simp only: day_number_next_month [OF m])
  finally show ?thesis
    by (simp only: period_start_monthly y_def m_def distrib_right)
qed

text \<open>A multiple-of-\<open>k\<close> window is the block \<open>[q k, q k + k)\<close> that contains the instant.\<close>

lemma block_unique:
  fixes k q t :: int
  assumes "0 < k"
  shows "q * k \<le> t \<and> t < q * k + k \<longleftrightarrow> t div k = q"
proof -
  have "t div k = q" if "q * k \<le> t" "t < q * k + k"
    using that by (intro int_div_pos_eq [where r = "t - q * k"]) (auto simp: mult.commute)
  moreover have "t div k * k \<le> t" "t < t div k * k + k"
    using assms minus_mod_eq_div_mult [of t k] pos_mod_bound [of k t] pos_mod_sign [of k t]
    by linarith+
  ultimately show ?thesis by auto
qed

lemma month_block:
  fixes a b t :: int
  shows "a * us_per_day \<le> t \<and> t < (a + b) * us_per_day
    \<longleftrightarrow> a \<le> t div us_per_day \<and> t div us_per_day < a + b"
proof -
  have "t div us_per_day * us_per_day \<le> t \<and> t < t div us_per_day * us_per_day + us_per_day"
    by (subst block_unique) simp_all
  then show ?thesis by (auto simp: algebra_simps) (linarith+)?
qed

lemma month_window:
  "period_start MONTHLY t \<le> s \<and> s < period_end MONTHLY t \<longleftrightarrow>
     c_year (civil_of s) = c_year (civil_of t) \<and> c_month (civil_of s) = c_month (civil_of t)"
proof -
  define y m where "y = c_year (civil_of t)" and "m = c_month (civil_of t)"
  have m: "1 \<le> m" "m \<le> 12" using civil_of_valid [of t] by (simp_all add: m_def valid_civil_def)
  have "period_start MONTHLY t \<le> s \<and> s < period_end MONTHLY t \<longleftrightarrow>
      day_number y m 1 \<le> s div us_per_day \<and> s div us_per_day < day_number y m 1 + days_in_month y m"
    unfolding month_block [symmetric] period_end_monthly period_start_monthly
      y_def [symmetric] m_def [symmetric] distrib_right ..
  also have "\<dots> \<longleftrightarrow> c_year (civil_of s) = y \<and> c_month (civil_of s) = m"
  proof
    assume "c_year (civil_of s) = y \<and> c_month (civil_of s) = m"
    moreover have "1 \<le> c_day (civil_of s)"
      "c_day (civil_of s) \<le> days_in_month (c_year (civil_of s)) (c_month (civil_of s))"
      using civil_of_valid [of s] by (simp_all add: valid_civil_def)
    ultimately show "day_number y m 1 \<le> s div us_per_day
        \<and> s div us_per_day < day_number y m 1 + days_in_month y m"
      using instant_parts(3) [OF civil_of_valid [of s], unfolded instant_of_civil_of]
      by (auto simp: day_number_def)
  qed (use m month_civil in blast)
  finally show ?thesis by (simp only: y_def m_def)
qed

text \<open>
  The windows partition time: an instant lies in the window of \<open>now\<close> exactly when both
  have the same window start.
\<close>

lemma period_window_iff:
  "period_start p now \<le> t \<and> t < period_end p now \<longleftrightarrow> period_start p t = period_start p now"
proof (cases p)
  case HOURLY
  then show ?thesis
    using block_unique [of us_per_hour "now div us_per_hour" t]
    by (simp add: period_end_def Let_def period_start_hourly)
next
  case DAILY
  then show ?thesis
    using block_unique [of us_per_day "now div us_per_day" t]
    by (simp add: period_end_def Let_def period_start_daily)
next
  case MONTHLY
  have "period_start MONTHLY t = period_start MONTHLY now \<longleftrightarrow>
      c_year (civil_of t) = c_year (civil_of now) \<and> c_month (civil_of t) = c_month (civil_of now)"
    (is "?l \<longleftrightarrow> ?r")
  proof
    assume ?l
    then have "civil_of (period_start MONTHLY t) = civil_of (period_start MONTHLY now)" by simp
    then have "start_civil MONTHLY (civil_of t) = start_civil MONTHLY (civil_of now)"
      by (simp only: civil_of_period_start)
    then show ?r by (cases "civil_of t"; cases "civil_of now") (simp add: start_civil_def)
  next
    assume ?r
    then show ?l by (simp add: period_start_monthly)
  qed
  with MONTHLY month_window [of now t] show ?thesis by simp
qed

lemma period_contains: "period_start p now \<le> now" "now < period_end p now"
  using period_window_iff [of p now now] by simp_all

lemma period_start_mono_window:
  assumes "period_start p now \<le> t" "t < period_end p now"
  shows "period_start p t = period_start p now" and "period_end p t = period_end p now"
proof -
  show s: "period_start p t = period_start p now" using assms period_window_iff by blast
  show "period_end p t = period_end p now" unfolding period_end_def s ..
qed

lemma period_start_mono:
  assumes "t \<le> t'"
  shows "period_start p t \<le> period_start p t'"
proof (rule ccontr)
  assume "\<not> period_start p t \<le> period_start p t'"
  then have "period_start p t' \<le> t" "t < period_end p t'"
    using assms period_contains(1) [of p t] period_contains(2) [of t' p] by linarith+
  then have "period_start p t = period_start p t'" using period_window_iff by blast
  with \<open>\<not> period_start p t \<le> period_start p t'\<close> show False by simp
qed

lemma c_year_pos: "0 \<le> t \<Longrightarrow> 1 \<le> c_year (civil_of t)"
proof -
  assume "0 \<le> t"
  then have "0 \<le> t div us_per_day" by (simp add: pos_imp_zdiv_nonneg_iff)
  moreover have "days_before_year 1 = 0" by (simp add: days_before_year_def)
  ultimately have "\<not> year_of_day (t div us_per_day) < 1"
    using year_of_day_upper [of "t div us_per_day"]
      days_before_year_strict [of "year_of_day (t div us_per_day)" 1]
    by linarith
  then show ?thesis by (simp add: civil_of_def Let_def)
qed

section \<open>Labels\<close>

lemma digits_until_minus:
  assumes "list_all is_digit a" "list_all is_digit b" "a @ ''-'' @ x = b @ ''-'' @ y"
  shows "a = b \<and> x = y"
proof -
  have tw: "takeWhile is_digit (d @ ''-'' @ z) = d" if "list_all is_digit d" for d z
    using that by (induction d) (auto simp: is_digit_def)
  have "a = b" using tw [OF assms(1)] tw [OF assms(2)] assms(3) by metis
  with assms(3) show ?thesis by simp
qed

lemma pad2_nat_inj:
  assumes "0 \<le> a" "a < 100" "0 \<le> b" "b < 100" "pad2 (nat a) = pad2 (nat b)"
  shows "(a::int) = b"
proof -
  have "nat a = nat b" using assms by (intro pad2_inj) auto
  with assms(1,3) show ?thesis by simp
qed

lemma days_in_month_le: "1 \<le> m \<Longrightarrow> m \<le> 12 \<Longrightarrow> days_in_month y m \<le> 31"
  using month_cases [of m] leap_day_bounds [of y]
  by (auto simp: days_in_month_def days_before_month_def)

lemma start_civil_eqI:
  assumes "c_year u = c_year v" "c_month u = c_month v" "c_day u = c_day v" "c_hour u = c_hour v"
    "c_minute u = c_minute v" "c_second u = c_second v" "c_micro u = c_micro v"
  shows "u = (v::civil)"
  using assms by (cases u; cases v) simp

lemma period_start_micro: "c_micro (civil_of (period_start p t)) = 0"
  by (cases p) (simp_all add: civil_of_period_start start_civil_def)

text \<open>Two instants have the same label exactly when they lie in the same window.\<close>

lemma period_bucket_label_inj:
  assumes "0 \<le> c_year (civil_of s)" and "0 \<le> c_year (civil_of t)"
  shows "period_bucket_label p s = period_bucket_label p t \<longleftrightarrow> period_start p s = period_start p t"
proof
  assume l: "period_bucket_label p s = period_bucket_label p t"
  define c d where "c = civil_of (period_start p s)" and "d = civil_of (period_start p t)"
  have v: "valid_civil c" "valid_civil d" unfolding c_def d_def by (rule civil_of_valid)+
  have b: "c_month c < 100" "c_day c < 100" "c_month d < 100" "c_day d < 100"
    using v days_in_month_le [of "c_month c" "c_year c"] days_in_month_le [of "c_month d" "c_year d"]
    by (auto simp: valid_civil_def)
  have y: "0 \<le> c_year c" "0 \<le> c_year d"
    using assms by (cases p; simp add: c_def d_def civil_of_period_start start_civil_def)+
  have "dec_nat (nat (c_year c)) @ ''-'' @ pad2 (nat (c_month c)) @ ''-'' @ pad2 (nat (c_day c))
      @ ''T'' @ time_str c @ ''Z'' = dec_nat (nat (c_year d)) @ ''-'' @ pad2 (nat (c_month d))
      @ ''-'' @ pad2 (nat (c_day d)) @ ''T'' @ time_str d @ ''Z''"
    using l y by (simp add: period_bucket_label_def Let_def c_def d_def dec_int_def)
  note e = digits_until_minus [OF dec_nat_digits dec_nat_digits this]
  have "pad2 (nat (c_month c)) = pad2 (nat (c_month d))" "pad2 (nat (c_day c)) = pad2 (nat (c_day d))"
    "pad2 (nat (c_hour c)) = pad2 (nat (c_hour d))"
    "pad2 (nat (c_minute c)) = pad2 (nat (c_minute d))"
    "pad2 (nat (c_second c)) = pad2 (nat (c_second d))"
    using e by (auto simp: pad2_def time_str_def)
  then have "c = d"
    using e v b y period_start_micro [of p s] period_start_micro [of p t]
    by (intro start_civil_eqI)
      (auto intro!: pad2_nat_inj simp: valid_civil_def dec_nat_inj nat_eq_iff2 c_def d_def)
  then show "period_start p s = period_start p t"
    unfolding c_def d_def by (rule civil_of_inj)
qed (simp add: period_bucket_label_def)

text \<open>A label that comes back at a later instant was the label all the time between.\<close>

lemma period_bucket_label_between:
  assumes "0 \<le> s" "s \<le> t" "t \<le> u" and "period_bucket_label p u = period_bucket_label p s"
  shows "period_bucket_label p t = period_bucket_label p s"
proof -
  have y: "0 \<le> c_year (civil_of s)" "0 \<le> c_year (civil_of t)" "0 \<le> c_year (civil_of u)"
    using c_year_pos [of s] c_year_pos [of t] c_year_pos [of u] assms(1-3) by linarith+
  have "period_start p u = period_start p s"
    using assms(4) period_bucket_label_inj y by blast
  then have "period_start p t = period_start p s"
    using period_start_mono [OF assms(2), of p] period_start_mono [OF assms(3), of p] by linarith
  then show ?thesis using period_bucket_label_inj y by blast
qed

end
