(* ===== verification/Ledger.thy ===== *)
theory Ledger
  imports Money Identifiers Periods
begin

text \<open>
  The double-entry domain: \<open>delta.accounts\<close>, \<open>delta.ledger\<close>, \<open>delta.reconciliation\<close>,
  \<open>delta.allocation\<close>, \<open>delta.cost_center\<close>. Each pydantic model is a record and its
  constructor \<open>mk_...\<close> runs the field constraints and validators in the source's order;
  the only way to get a value of the type is through it. Reconciliation errors are values
  that carry what the messages print.
\<close>

section \<open>Accounts\<close>

datatype account_type = ASSET | LIABILITY | EQUITY | REVENUE | EXPENSE

record account =
  acc_id :: ident
  acc_tenant :: ident
  acc_type :: account_type
  acc_currency :: string
  acc_name :: string

definition is_name :: "string \<Rightarrow> bool" where
  "is_name s \<longleftrightarrow> 1 \<le> length s \<and> length s \<le> 256"

definition mk_account :: "ident \<Rightarrow> ident \<Rightarrow> account_type \<Rightarrow> string \<Rightarrow> string \<Rightarrow> py_exc + account" where
  "mk_account i t ty cur nm =
     (if is_uuid i \<and> is_uuid t \<and> is_currency cur \<and> is_name nm
      then Inr \<lparr>acc_id = i, acc_tenant = t, acc_type = ty, acc_currency = cur, acc_name = nm\<rparr>
      else Inl ValidationError)"

record cost_center =
  cc_id :: ident
  cc_tenant :: ident
  cc_name :: string

definition mk_cost_center :: "ident \<Rightarrow> ident \<Rightarrow> string \<Rightarrow> py_exc + cost_center" where
  "mk_cost_center i t nm =
     (if is_uuid i \<and> is_uuid t \<and> is_name nm
      then Inr \<lparr>cc_id = i, cc_tenant = t, cc_name = nm\<rparr> else Inl ValidationError)"

record project =
  pr_id :: ident
  pr_team :: ident
  pr_tenant :: ident
  pr_name :: string

definition mk_project :: "ident \<Rightarrow> ident \<Rightarrow> ident \<Rightarrow> string \<Rightarrow> py_exc + project" where
  "mk_project i tm t nm =
     (if is_uuid i \<and> is_uuid tm \<and> is_uuid t \<and> is_name nm
      then Inr \<lparr>pr_id = i, pr_team = tm, pr_tenant = t, pr_name = nm\<rparr> else Inl ValidationError)"

section \<open>Entries and transactions\<close>

datatype direction = DEBIT | CREDIT

record ledger_entry =
  e_id :: ident
  e_tenant :: ident
  e_account :: ident
  e_dir :: direction
  e_amount :: money
  e_team :: ident
  e_project :: ident
  e_agent :: ident
  e_time :: instant

definition mk_entry ::
  "ident \<Rightarrow> ident \<Rightarrow> ident \<Rightarrow> direction \<Rightarrow> money \<Rightarrow> ident \<Rightarrow> ident \<Rightarrow> ident \<Rightarrow> py_datetime \<Rightarrow> py_exc + ledger_entry" where
  "mk_entry i t ac dir amt tm pj ag ts =
     (case require_aware_utc ts of
        Inl _ \<Rightarrow> Inl ValidationError
      | Inr at \<Rightarrow>
          if is_uuid i \<and> is_uuid t \<and> is_uuid ac \<and> is_uuid tm \<and> is_uuid pj \<and> is_agent_id ag
          then Inr \<lparr>e_id = i, e_tenant = t, e_account = ac, e_dir = dir, e_amount = amt, e_team = tm,
            e_project = pj, e_agent = ag, e_time = at\<rparr>
          else Inl ValidationError)"

record txn =
  t_id :: ident
  t_tenant :: ident
  t_entries :: "ledger_entry list"
  t_time :: instant
  t_desc :: string

abbreviation e_cents :: "ledger_entry \<Rightarrow> int" where "e_cents e \<equiv> minor_units (e_amount e)"

definition debits :: "ledger_entry list \<Rightarrow> int" where
  "debits es = total e_cents (filter (\<lambda>e. e_dir e = DEBIT) es)"

definition credits :: "ledger_entry list \<Rightarrow> int" where
  "credits es = total e_cents (filter (\<lambda>e. e_dir e = CREDIT) es)"

text \<open>The number of distinct values, as \<open>len\<close> of a set comprehension.\<close>

definition distinct_count :: "('a \<Rightarrow> 'b) \<Rightarrow> 'a list \<Rightarrow> nat" where
  "distinct_count f xs = length (remdups (map f xs))"

text \<open>The validator \<open>Transaction._balanced\<close>.\<close>

definition check_balanced :: "ident \<Rightarrow> ledger_entry list \<Rightarrow> py_exc + unit" where
  "check_balanced tenant es =
     bindR (guardR (distinct_count (\<lambda>e. currency (e_amount e)) es = 1) ValueError) (\<lambda>_.
     bindR (guardR (list_all (\<lambda>e. e_tenant e = tenant) es) ValueError) (\<lambda>_.
     guardR (debits es = credits es) ValueError))"

definition mk_transaction ::
  "ident \<Rightarrow> ident \<Rightarrow> ledger_entry list \<Rightarrow> py_datetime \<Rightarrow> string \<Rightarrow> py_exc + txn" where
  "mk_transaction i t es ts desc =
     (case require_aware_utc ts of
        Inl _ \<Rightarrow> Inl ValidationError
      | Inr at \<Rightarrow>
          if is_uuid i \<and> is_uuid t \<and> 2 \<le> length es \<and> length es \<le> 1024 \<and> length desc \<le> 512
             \<and> is_ok (check_balanced t es)
          then Inr \<lparr>t_id = i, t_tenant = t, t_entries = es, t_time = at, t_desc = desc\<rparr>
          else Inl ValidationError)"

section \<open>Reconciliation and allocations\<close>

datatype rec_error = MixedCurrency "string set" | NotReconciled int int | EmptySet
  | CrossTenant nat | Unbalanced int int

definition reconcile_allocation :: "money \<Rightarrow> money list \<Rightarrow> rec_error list" where
  "reconcile_allocation tot targets =
     (let currencies = currency ` set (tot # targets) in
      if distinct_count currency (tot # targets) \<noteq> 1 then [MixedCurrency currencies]
      else let distributed = total minor_units targets in
        if distributed \<noteq> minor_units tot then [NotReconciled distributed (minor_units tot)] else [])"

definition reconcile_entry_set :: "ledger_entry list \<Rightarrow> rec_error list" where
  "reconcile_entry_set es =
     (if es = [] then [EmptySet]
      else
        (if distinct_count (\<lambda>e. currency (e_amount e)) es \<noteq> 1
         then [MixedCurrency ((\<lambda>e. currency (e_amount e)) ` set es)] else [])
        @ (if distinct_count e_tenant es \<noteq> 1 then [CrossTenant (distinct_count e_tenant es)] else [])
        @ (if debits es \<noteq> credits es then [Unbalanced (debits es) (credits es)] else []))"

record alloc_target =
  at_scope_ref :: string
  at_amount :: money

record allocation =
  al_id :: ident
  al_tenant :: ident
  al_total :: money
  al_targets :: "alloc_target list"
  al_period :: budget_period

definition is_scope_ref :: "string \<Rightarrow> bool" where
  "is_scope_ref s \<longleftrightarrow> 1 \<le> length s \<and> length s \<le> 64"

definition mk_allocation ::
  "ident \<Rightarrow> ident \<Rightarrow> money \<Rightarrow> alloc_target list \<Rightarrow> budget_period \<Rightarrow> py_exc + allocation" where
  "mk_allocation i t tot targets p =
     (if is_uuid i \<and> is_uuid t \<and> list_all (\<lambda>g. is_scope_ref (at_scope_ref g)) targets
         \<and> 1 \<le> length targets \<and> length targets \<le> 1024
         \<and> reconcile_allocation tot (map at_amount targets) = []
      then Inr \<lparr>al_id = i, al_tenant = t, al_total = tot, al_targets = targets, al_period = p\<rparr>
      else Inl ValidationError)"

section \<open>Facts\<close>

lemma distinct_count_1:
  "distinct_count f xs = 1 \<longleftrightarrow> xs \<noteq> [] \<and> (\<forall>x \<in> set xs. f x = f (hd xs))"
proof -
  have "distinct_count f xs = card (f ` set xs)"
    by (simp add: distinct_count_def length_remdups_card_conv)
  also have "\<dots> = 1 \<longleftrightarrow> xs \<noteq> [] \<and> (\<forall>x \<in> set xs. f x = f (hd xs))"
  proof
    assume c: "card (f ` set xs) = 1"
    then obtain z where z: "f ` set xs = {z}" by (auto simp: card_1_singleton_iff)
    have "f x = z" if "x \<in> set xs" for x using z that by blast
    moreover have "xs \<noteq> []" using c by auto
    ultimately show "xs \<noteq> [] \<and> (\<forall>x \<in> set xs. f x = f (hd xs))" by simp
  next
    assume a: "xs \<noteq> [] \<and> (\<forall>x \<in> set xs. f x = f (hd xs))"
    define c where "c = f (hd xs)"
    from a have "\<forall>x \<in> set xs. f x = c" and "hd xs \<in> set xs" 
      unfolding c_def by (blast intro: hd_in_set)+
    then have "f ` set xs = {c}" by (auto intro: rev_image_eqI)
    then show "card (f ` set xs) = 1" by simp
  qed
  finally show ?thesis .
qed

lemma mk_entry_Inr [simp]:
  "mk_entry i t ac d a tm pj ag ts = Inr e \<longleftrightarrow>
     (\<exists>at. ts = Aware at \<and> is_uuid i \<and> is_uuid t \<and> is_uuid ac \<and> is_uuid tm \<and> is_uuid pj
       \<and> is_agent_id ag \<and> e = \<lparr>e_id = i, e_tenant = t, e_account = ac, e_dir = d, e_amount = a,
         e_team = tm, e_project = pj, e_agent = ag, e_time = at\<rparr>)"
  by (cases ts) (auto simp: mk_entry_def)

lemma mk_entry_Inl: "mk_entry i t ac d a tm pj ag ts = Inl x \<Longrightarrow> x = ValidationError"
  by (cases ts) (auto simp: mk_entry_def split: if_splits)

text \<open>The invariant every constructed transaction has.\<close>

definition balanced :: "txn \<Rightarrow> bool" where
  "balanced t \<longleftrightarrow> 2 \<le> length (t_entries t) \<and> debits (t_entries t) = credits (t_entries t)
     \<and> list_all (\<lambda>e. e_tenant e = t_tenant t) (t_entries t)
     \<and> distinct_count (\<lambda>e. currency (e_amount e)) (t_entries t) = 1"

lemma check_balanced_ok:
  "is_ok (check_balanced t es) \<longleftrightarrow> distinct_count (\<lambda>e. currency (e_amount e)) es = 1
     \<and> list_all (\<lambda>e. e_tenant e = t) es \<and> debits es = credits es"
  by (auto simp: check_balanced_def guardR_def is_ok_def)

lemma mk_transaction_Inr:
  "mk_transaction i t es ts desc = Inr x \<longleftrightarrow>
     (\<exists>at. ts = Aware at \<and> is_uuid i \<and> is_uuid t \<and> length es \<le> 1024 \<and> length desc \<le> 512
        \<and> x = \<lparr>t_id = i, t_tenant = t, t_entries = es, t_time = at, t_desc = desc\<rparr> \<and> balanced x)"
  by (cases ts) (auto simp: mk_transaction_def check_balanced_ok balanced_def)

lemma mk_transaction_Inl: "mk_transaction i t es ts desc = Inl x \<Longrightarrow> x = ValidationError"
  by (cases ts) (auto simp: mk_transaction_def split: if_splits)

lemma mk_transaction_balanced: "mk_transaction i t es ts desc = Inr x \<Longrightarrow> balanced x"
  by (auto simp: mk_transaction_Inr)

text \<open>The flagging check and the rejecting validator agree.\<close>

lemma reconcile_entry_set_Nil:
  "reconcile_entry_set es = [] \<longleftrightarrow> (\<exists>t. is_ok (check_balanced t es))"
proof (cases "es = []")
  case True
  then show ?thesis by (simp add: reconcile_entry_set_def check_balanced_ok distinct_count_def)
next
  case False
  then have "(\<exists>t. list_all (\<lambda>e. e_tenant e = t) es) \<longleftrightarrow> distinct_count e_tenant es = 1"
    unfolding distinct_count_1 list_all_iff using hd_in_set by metis
  moreover have "reconcile_entry_set es = [] \<longleftrightarrow>
      distinct_count (\<lambda>e. currency (e_amount e)) es = 1 \<and> distinct_count e_tenant es = 1
      \<and> debits es = credits es"
    using False by (simp add: reconcile_entry_set_def)
  ultimately show ?thesis unfolding check_balanced_ok by blast
qed

lemma reconcile_allocation_Nil:
  "reconcile_allocation tot gs = [] \<longleftrightarrow>
     (\<forall>g \<in> set gs. currency g = currency tot) \<and> total minor_units gs = minor_units tot"
  unfolding reconcile_allocation_def distinct_count_1 by (simp add: Let_def)

lemma mk_allocation_reconciled:
  assumes "mk_allocation i t tot gs p = Inr a"
  shows "total (\<lambda>g. minor_units (at_amount g)) (al_targets a) = minor_units (al_total a)"
    and "g \<in> set (al_targets a) \<Longrightarrow> currency (at_amount g) = currency (al_total a)"
  using assms
  by (auto simp: mk_allocation_def reconcile_allocation_Nil total_map split: if_splits)

end
