(* ===== verification/Usage.thy ===== *)
theory Usage
  imports Ledger
begin

text \<open>
  \<open>delta.usage\<close>, \<open>delta.revenue\<close> and \<open>delta.burn_rate\<close>: the records built from wire
  payloads and the burn-rate derivation. Reading a JSON value as a datetime is pydantic's, so
  it is the parameter \<open>pdt\<close> of the constructors. The per-hour rates of \<open>BurnRate\<close> are
  floating-point ratios of the exact totals and are not modelled.
\<close>

section \<open>JSON objects\<close>

text \<open>\<open>d.get(k)\<close> of a decoded object: the value, or \<open>None\<close>.\<close>

definition jget :: "string \<Rightarrow> (string \<times> json) list \<Rightarrow> json" where
  "jget k d = (case map_of d k of None \<Rightarrow> JNull | Some v \<Rightarrow> v)"

definition jhas :: "string \<Rightarrow> (string \<times> json) list \<Rightarrow> bool" where
  "jhas k d \<longleftrightarrow> k \<in> fst ` set d"

text \<open>A constrained string field: only a JSON string that satisfies the constraint.\<close>

fun str_field :: "(string \<Rightarrow> bool) \<Rightarrow> json \<Rightarrow> py_exc + string" where
  "str_field p (JStr s) = (if p s then Inr s else Inl ValidationError)"
| "str_field p _ = Inl ValidationError"

definition count_field :: "json \<Rightarrow> int \<Rightarrow> py_exc + int" where
  "count_field v m = (case bounded_count v m of Inl _ \<Rightarrow> Inl ValidationError | Inr i \<Rightarrow> Inr i)"

definition time_field :: "(json \<Rightarrow> py_datetime option) \<Rightarrow> json \<Rightarrow> py_exc + instant" where
  "time_field pdt v = (case pdt v of
     None \<Rightarrow> Inl ValidationError
   | Some d \<Rightarrow> (case require_aware_utc d of Inl _ \<Rightarrow> Inl ValidationError | Inr t \<Rightarrow> Inr t))"

section \<open>Usage records\<close>

record usage_record =
  u_tenant :: ident
  u_team :: ident
  u_project :: ident
  u_agent :: ident
  u_model :: string
  u_tokens_in :: int
  u_tokens_out :: int
  u_cost :: cents
  u_currency :: string
  u_request :: ident
  u_event :: ident
  u_time :: instant

definition is_model_name :: "string \<Rightarrow> bool" where
  "is_model_name s \<longleftrightarrow> 1 \<le> length s \<and> length s \<le> 256"

definition mk_usage_record ::
  "(json \<Rightarrow> py_datetime option) \<Rightarrow> json \<Rightarrow> json \<Rightarrow> json \<Rightarrow> json \<Rightarrow> json \<Rightarrow> json \<Rightarrow> json \<Rightarrow> json
     \<Rightarrow> string \<Rightarrow> json \<Rightarrow> json \<Rightarrow> json \<Rightarrow> py_exc + usage_record" where
  "mk_usage_record pdt tenant team proj agent model tin tout cost cur req ev ts =
     bindR (str_field is_uuid tenant) (\<lambda>t.
     bindR (str_field is_uuid team) (\<lambda>tm.
     bindR (str_field is_uuid proj) (\<lambda>p.
     bindR (str_field is_agent_id agent) (\<lambda>a.
     bindR (str_field is_model_name model) (\<lambda>m.
     bindR (count_field tin MAX_USAGE_TOKENS) (\<lambda>ti.
     bindR (count_field tout MAX_USAGE_TOKENS) (\<lambda>to.
     bindR (count_field cost MAX_USAGE_COST_CENTS) (\<lambda>c.
     bindR (guardR (is_currency cur) ValidationError) (\<lambda>_.
     bindR (str_field is_request_id req) (\<lambda>r.
     bindR (str_field is_uuid ev) (\<lambda>e.
     bindR (time_field pdt ts) (\<lambda>at.
     Inr \<lparr>u_tenant = t, u_team = tm, u_project = p, u_agent = a, u_model = m, u_tokens_in = ti,
       u_tokens_out = to, u_cost = c, u_currency = cur, u_request = r, u_event = e, u_time = at\<rparr>))))))))))))"

section \<open>Revenue records\<close>

definition REVENUE_SOURCE_PRODUCT :: string where "REVENUE_SOURCE_PRODUCT = ''rendly''"

datatype revenue_event_type = SUBSCRIPTION_GRANTED | SUBSCRIPTION_REVOKED

definition revenue_event_type_of :: "string \<Rightarrow> revenue_event_type option" where
  "revenue_event_type_of s =
     (if s = ''subscription_granted'' then Some SUBSCRIPTION_GRANTED
      else if s = ''subscription_revoked'' then Some SUBSCRIPTION_REVOKED else None)"

record revenue_record =
  v_tenant :: ident
  v_event_type :: revenue_event_type
  v_tier :: string
  v_amount :: cents
  v_currency :: string
  v_idem :: string
  v_occurred :: instant

definition is_tier :: "string \<Rightarrow> bool" where
  "is_tier s \<longleftrightarrow> 1 \<le> length s \<and> length s \<le> 64"

definition is_revenue_key :: "string \<Rightarrow> bool" where
  "is_revenue_key s \<longleftrightarrow> 1 \<le> length s \<and> length s \<le> 128
     \<and> list_all (\<lambda>c. is_alnum c \<or> c \<in> set ''._:-'') s"

definition mk_revenue_record ::
  "(json \<Rightarrow> py_datetime option) \<Rightarrow> string \<Rightarrow> string \<Rightarrow> string \<Rightarrow> json \<Rightarrow> json \<Rightarrow> string \<Rightarrow> json
     \<Rightarrow> py_exc + revenue_record" where
  "mk_revenue_record pdt tenant ev tier amount cur idem ts =
     bindR (str_field is_uuid (JStr tenant)) (\<lambda>t.
     case revenue_event_type_of ev of
       None \<Rightarrow> Inl ValidationError
     | Some et \<Rightarrow>
     bindR (str_field is_tier (JStr tier)) (\<lambda>ti.
     bindR (count_field amount MAX_MONEY_MINOR_UNITS) (\<lambda>a.
     bindR (str_field is_currency cur) (\<lambda>c.
     bindR (str_field is_revenue_key (JStr idem)) (\<lambda>k.
     bindR (time_field pdt ts) (\<lambda>at.
     Inr \<lparr>v_tenant = t, v_event_type = et, v_tier = ti, v_amount = a, v_currency = c,
       v_idem = k, v_occurred = at\<rparr>))))))"

section \<open>Windows and burn rate\<close>

datatype window_granularity = WHOURLY | WDAILY | WMONTHLY

record time_window =
  w_start :: instant
  w_end :: instant
  w_granularity :: window_granularity

definition mk_time_window :: "py_datetime \<Rightarrow> py_datetime \<Rightarrow> window_granularity \<Rightarrow> py_exc + time_window" where
  "mk_time_window s e g =
     (case (require_aware_utc s, require_aware_utc e) of
        (Inr a, Inr b) \<Rightarrow>
          if b \<le> a then Inl ValidationError
          else Inr \<lparr>w_start = a, w_end = b, w_granularity = g\<rparr>
      | _ \<Rightarrow> Inl ValidationError)"

record burn =
  br_window :: time_window
  br_tenant :: "ident option"
  br_currency :: "string option"
  br_count :: int
  br_cost :: cents
  br_tokens :: int

definition in_window :: "time_window \<Rightarrow> usage_record \<Rightarrow> bool" where
  "in_window w r \<longleftrightarrow> w_start w \<le> u_time r \<and> u_time r < w_end w"

definition mk_burn :: "time_window \<Rightarrow> ident option \<Rightarrow> string option \<Rightarrow> int \<Rightarrow> int \<Rightarrow> int \<Rightarrow> py_exc + burn" where
  "mk_burn w t c n cost toks =
     bindR (count_field (JInt n) MAX_BUDGET_TOKENS) (\<lambda>n'.
     bindR (count_field (JInt cost) MAX_BUDGET_COST_CENTS) (\<lambda>c'.
     bindR (count_field (JInt toks) MAX_BUDGET_TOKENS) (\<lambda>k'.
     Inr \<lparr>br_window = w, br_tenant = t, br_currency = c, br_count = n', br_cost = c', br_tokens = k'\<rparr>)))"

definition burn_rate :: "usage_record list \<Rightarrow> time_window \<Rightarrow> py_exc + burn" where
  "burn_rate records w =
     (let rs = filter (in_window w) records in
      if distinct_count u_tenant rs > 1 then Inl ValueError
      else if distinct_count u_currency rs > 1 then Inl ValueError
      else mk_burn w (case rs of [] \<Rightarrow> None | r # _ \<Rightarrow> Some (u_tenant r))
             (case rs of [] \<Rightarrow> None | r # _ \<Rightarrow> Some (u_currency r))
             (int (length rs)) (total u_cost rs) (total (\<lambda>r. u_tokens_in r + u_tokens_out r) rs))"

section \<open>Facts\<close>

lemma str_field_Inr [simp]: "str_field p v = Inr s \<longleftrightarrow> v = JStr s \<and> p s"
  by (cases v) auto

lemma count_field_Inr [simp]: "count_field v m = Inr i \<longleftrightarrow> v = JInt i \<and> 0 \<le> i \<and> i \<le> m"
  by (cases "bounded_count v m") (auto simp: count_field_def bounded_count_ok simp flip: bounded_count_Inr)

lemma time_field_Inr [simp]: "time_field pdt v = Inr t \<longleftrightarrow> pdt v = Some (Aware t)"
  by (cases "pdt v"; cases "the (pdt v)") (simp_all add: time_field_def)

text \<open>Every usage record has well-formed identifiers and in-range amounts.\<close>

lemma mk_usage_record_Inr:
  assumes "mk_usage_record pdt tn tm pj ag mo ti to co cur rq ev ts = Inr r"
  shows "tn = JStr (u_tenant r)" "is_uuid (u_tenant r)" "is_uuid (u_team r)" "is_uuid (u_project r)"
    "is_agent_id (u_agent r)" "is_model_name (u_model r)" "is_uuid (u_event r)" "ev = JStr (u_event r)"
    "co = JInt (u_cost r)" "0 \<le> u_cost r" "u_cost r \<le> MAX_USAGE_COST_CENTS"
    "0 \<le> u_tokens_in r" "u_tokens_in r \<le> MAX_USAGE_TOKENS"
    "0 \<le> u_tokens_out r" "u_tokens_out r \<le> MAX_USAGE_TOKENS"
    "u_currency r = cur" "is_currency cur"
  using assms by (auto simp: mk_usage_record_def bindR_eq_Inr)

lemma mk_revenue_record_Inr:
  assumes "mk_revenue_record pdt tn ev ti am cur idem ts = Inr r"
  shows "tn = v_tenant r" "is_uuid (v_tenant r)" "revenue_event_type_of ev = Some (v_event_type r)"
    "is_tier (v_tier r)" "am = JInt (v_amount r)" "0 \<le> v_amount r" "v_amount r \<le> MAX_MONEY_MINOR_UNITS"
    "is_currency (v_currency r)" "v_idem r = idem" "is_revenue_key idem"
  using assms by (auto simp: mk_revenue_record_def bindR_eq_Inr split: option.splits if_splits)

lemma burn_rate_Inr:
  assumes "burn_rate rs w = Inr b"
  shows "br_cost b = total u_cost (filter (in_window w) rs)"
    and "br_tokens b = total (\<lambda>r. u_tokens_in r + u_tokens_out r) (filter (in_window w) rs)"
    and "br_count b = int (length (filter (in_window w) rs))"
    and "0 \<le> br_cost b" "br_cost b \<le> MAX_BUDGET_COST_CENTS"
  using assms by (auto simp: burn_rate_def mk_burn_def Let_def bindR_eq_Inr split: if_splits)

end
