(* ===== verification/Budget.thy ===== *)
theory Budget
  imports Usage
begin

text \<open>
  \<open>delta.budget\<close>, \<open>delta.attribution\<close> and \<open>delta.budget_policy\<close>: the budget concept, the
  builder of the wire policy record, and the policy document whose advisory warning tiers
  never reach that record. A Python dict is the list of its items in insertion order.
\<close>

section \<open>Budget concepts\<close>

datatype budget_scope = STENANT | STEAM | SPROJECT | SAGENT

fun scope_value :: "budget_scope \<Rightarrow> string" where
  "scope_value STENANT = ''tenant''"
| "scope_value STEAM = ''team''"
| "scope_value SPROJECT = ''project''"
| "scope_value SAGENT = ''agent''"

fun period_value :: "budget_period \<Rightarrow> string" where
  "period_value HOURLY = ''hourly''"
| "period_value DAILY = ''daily''"
| "period_value MONTHLY = ''monthly''"

record budget_concept =
  bc_tenant :: ident
  bc_team :: ident
  bc_project :: ident
  bc_agent :: ident
  bc_scope :: budget_scope
  bc_period :: budget_period
  bc_tokens :: "int option"
  bc_cost :: "cents option"
  bc_currency :: string

definition limit_field :: "json \<Rightarrow> int \<Rightarrow> py_exc + int option" where
  "limit_field v m = (case v of
     JNull \<Rightarrow> Inr None
   | _ \<Rightarrow> (case bounded_count v m of Inl _ \<Rightarrow> Inl ValidationError | Inr i \<Rightarrow> Inr (Some i)))"

definition mk_concept ::
  "ident \<Rightarrow> ident \<Rightarrow> ident \<Rightarrow> ident \<Rightarrow> budget_scope \<Rightarrow> budget_period \<Rightarrow> json \<Rightarrow> json \<Rightarrow> string
     \<Rightarrow> py_exc + budget_concept" where
  "mk_concept t tm p a sc pe toks cost cur =
     bindR (guardR (is_uuid t \<and> is_uuid tm \<and> is_uuid p \<and> is_agent_id a \<and> is_currency cur)
       ValidationError) (\<lambda>_.
     bindR (limit_field toks MAX_BUDGET_TOKENS) (\<lambda>lt.
     bindR (limit_field cost MAX_BUDGET_COST_CENTS) (\<lambda>lc.
     if lt = None \<and> lc = None then Inl ValidationError
     else Inr \<lparr>bc_tenant = t, bc_team = tm, bc_project = p, bc_agent = a, bc_scope = sc,
       bc_period = pe, bc_tokens = lt, bc_cost = lc, bc_currency = cur\<rparr>)))"

section \<open>The wire record\<close>

record attribution =
  at_tenant :: ident
  at_team :: ident
  at_project :: ident
  at_agent :: ident

definition mk_attribution :: "ident \<Rightarrow> ident \<Rightarrow> ident \<Rightarrow> ident \<Rightarrow> py_exc + attribution" where
  "mk_attribution t tm p a =
     (if is_uuid t \<and> is_uuid tm \<and> is_uuid p \<and> is_agent_id a
      then Inr \<lparr>at_tenant = t, at_team = tm, at_project = p, at_agent = a\<rparr>
      else Inl ValidationError)"

definition MAX_POLICY_VERSION :: int where "MAX_POLICY_VERSION = 9007199254740991"

definition is_b64url :: "char \<Rightarrow> bool" where
  "is_b64url c \<longleftrightarrow> is_alnum c \<or> c = CHR ''_'' \<or> c = CHR ''-''"

fun split_dots :: "string \<Rightarrow> string list" where
  "split_dots [] = [[]]"
| "split_dots (c # cs) =
     (if c = CHR ''.'' then [] # split_dots cs
      else case split_dots cs of [] \<Rightarrow> [[c]] | g # gs \<Rightarrow> (c # g) # gs)"

definition is_compact_jws :: "string \<Rightarrow> bool" where
  "is_compact_jws s =
     (let gs = split_dots s in length gs = 3 \<and> list_all (\<lambda>g. g \<noteq> [] \<and> list_all is_b64url g) gs)"

fun to_rfc3339_utc :: "py_datetime \<Rightarrow> py_exc + string" where
  "to_rfc3339_utc (Naive t) = Inl ValueError"
| "to_rfc3339_utc (Aware t) = Inr (iso_local t @ ''Z'')"

definition budget_concept_to_policy_payload ::
  "budget_concept \<Rightarrow> ident \<Rightarrow> int \<Rightarrow> py_datetime \<Rightarrow> string \<Rightarrow> py_exc + (string \<times> json) list" where
  "budget_concept_to_policy_payload c pid ver eff sig =
     (if \<not> (1 \<le> ver \<and> ver \<le> MAX_POLICY_VERSION) then Inl ValueError
      else if length sig < 16 \<or> \<not> dollar is_compact_jws sig then Inl ValueError
      else bindR (to_rfc3339_utc eff) (\<lambda>eff_str. Inr (
        [(''policy_type'', JStr ''budget_limit''), (''tenant_id'', JStr (bc_tenant c)),
         (''team_id'', JStr (bc_team c)), (''project_id'', JStr (bc_project c)),
         (''agent_id'', JStr (bc_agent c)), (''policy_id'', JStr pid),
         (''policy_version'', JInt ver), (''effective_from'', JStr eff_str),
         (''signature'', JStr sig), (''period'', JStr (period_value (bc_period c))),
         (''scope'', JStr (scope_value (bc_scope c)))]
        @ (case bc_tokens c of None \<Rightarrow> [] | Some n \<Rightarrow> [(''max_tokens_per_period'', JInt n)])
        @ (case bc_cost c of None \<Rightarrow> [] | Some n \<Rightarrow> [(''max_cost_cents_per_period'', JInt n)]))))"

section \<open>Policy documents\<close>

datatype warning_action = NOTIFY | ALERT | PAGE

record warning_tier =
  wt_percent :: "int option"
  wt_cost :: "cents option"
  wt_action :: warning_action

definition percent_field :: "json \<Rightarrow> py_exc + int option" where
  "percent_field v = (case v of
     JNull \<Rightarrow> Inr None
   | _ \<Rightarrow> bindR (reject_non_integer v) (\<lambda>p. if 1 \<le> p \<and> p \<le> 99 then Inr (Some p) else Inl ValueError))"

definition absolute_field :: "json \<Rightarrow> py_exc + int option" where
  "absolute_field v = (case v of
     JNull \<Rightarrow> Inr None
   | _ \<Rightarrow> bindR (bounded_count v MAX_BUDGET_COST_CENTS) (\<lambda>c. if c < 1 then Inl ValueError else Inr (Some c)))"

definition mk_warning_tier :: "json \<Rightarrow> json \<Rightarrow> warning_action \<Rightarrow> py_exc + warning_tier" where
  "mk_warning_tier pct cost act =
     (case (percent_field pct, absolute_field cost) of
        (Inr p, Inr c) \<Rightarrow>
          if (p \<noteq> None) = (c \<noteq> None) then Inl ValidationError
          else Inr \<lparr>wt_percent = p, wt_cost = c, wt_action = act\<rparr>
      | _ \<Rightarrow> Inl ValidationError)"

datatype basis = BPercent | BAbsolute

definition tier_basis :: "warning_tier \<Rightarrow> basis" where
  "tier_basis w = (if wt_percent w \<noteq> None then BPercent else BAbsolute)"

definition order_value :: "warning_tier \<Rightarrow> int option" where
  "order_value w = (case wt_percent w of Some p \<Rightarrow> Some p | None \<Rightarrow> wt_cost w)"

record budget_policy =
  bp_cap :: budget_concept
  bp_policy_id :: ident
  bp_version :: int
  bp_effective :: instant
  bp_warnings :: "warning_tier list"

fun ascending :: "int list \<Rightarrow> bool" where
  "ascending (x # y # zs) \<longleftrightarrow> x < y \<and> ascending (y # zs)"
| "ascending _ \<longleftrightarrow> True"

definition warnings_sound :: "budget_concept \<Rightarrow> warning_tier list \<Rightarrow> py_exc + unit" where
  "warnings_sound cap ws =
     (if ws = [] then Inr ()
      else if distinct_count tier_basis ws \<noteq> 1 then Inl ValueError
      else
        let b = tier_basis (hd ws); values = map (\<lambda>w. the (order_value w)) ws in
        if b = BAbsolute \<and> bc_cost cap = None then Inl ValueError
        else if \<not> ascending values then Inl ValueError
        else if b = BAbsolute \<and> last values \<ge> the (bc_cost cap) then Inl ValueError
        else Inr ())"

definition mk_budget_policy ::
  "budget_concept \<Rightarrow> ident \<Rightarrow> json \<Rightarrow> py_datetime \<Rightarrow> warning_tier list \<Rightarrow> py_exc + budget_policy" where
  "mk_budget_policy cap pid ver eff ws =
     (case (reject_non_integer ver, require_aware_utc eff) of
        (Inr v, Inr t) \<Rightarrow>
          if is_uuid pid \<and> 1 \<le> v \<and> v \<le> MAX_POLICY_VERSION \<and> is_ok (warnings_sound cap ws)
          then Inr \<lparr>bp_cap = cap, bp_policy_id = pid, bp_version = v, bp_effective = t, bp_warnings = ws\<rparr>
          else Inl ValidationError
      | _ \<Rightarrow> Inl ValidationError)"

definition to_policy_payload :: "budget_policy \<Rightarrow> string \<Rightarrow> py_exc + (string \<times> json) list" where
  "to_policy_payload p sig =
     budget_concept_to_policy_payload (bp_cap p) (bp_policy_id p) (bp_version p) (Aware (bp_effective p)) sig"

section \<open>Facts\<close>

lemma limit_field_Inr:
  "limit_field v m = Inr x \<longleftrightarrow> v = JNull \<and> x = None \<or> (\<exists>i. v = JInt i \<and> 0 \<le> i \<and> i \<le> m \<and> x = Some i)"
  by (cases v) (auto simp: limit_field_def bounded_count_def)

text \<open>The bounds every concept has.\<close>

definition valid_concept :: "budget_concept \<Rightarrow> bool" where
  "valid_concept c \<longleftrightarrow> is_uuid (bc_tenant c) \<and> is_uuid (bc_team c) \<and> is_uuid (bc_project c)
     \<and> is_agent_id (bc_agent c) \<and> is_currency (bc_currency c)
     \<and> (bc_tokens c \<noteq> None \<or> bc_cost c \<noteq> None)
     \<and> (\<forall>n \<in> set_option (bc_tokens c). 0 \<le> n \<and> n \<le> MAX_BUDGET_TOKENS)
     \<and> (\<forall>n \<in> set_option (bc_cost c). 0 \<le> n \<and> n \<le> MAX_BUDGET_COST_CENTS)"

lemma mk_concept_valid: "mk_concept t tm p a sc pe toks cost cur = Inr c \<Longrightarrow> valid_concept c"
  by (auto simp: mk_concept_def bindR_eq_Inr limit_field_Inr valid_concept_def split: if_splits)

definition json_limit :: "int option \<Rightarrow> json" where
  "json_limit x = (case x of None \<Rightarrow> JNull | Some n \<Rightarrow> JInt n)"

text \<open>Rebuilding a concept from its own fields gives it back.\<close>

lemma limit_field_json_limit:
  "(\<And>n. x = Some n \<Longrightarrow> 0 \<le> n \<and> n \<le> m) \<Longrightarrow> limit_field (json_limit x) m = Inr x"
  by (cases x) (auto simp: json_limit_def limit_field_def bounded_count_ok)

lemma mk_concept_of_valid:
  assumes "valid_concept c"
  shows "mk_concept (bc_tenant c) (bc_team c) (bc_project c) (bc_agent c) (bc_scope c) (bc_period c)
    (json_limit (bc_tokens c)) (json_limit (bc_cost c)) (bc_currency c) = Inr c"
  using assms by (cases c) (auto simp: mk_concept_def valid_concept_def limit_field_json_limit)

text \<open>The record carries exactly the caps that are set, and the envelope it was given.\<close>

lemma payload_fields:
  assumes "budget_concept_to_policy_payload c pid ver eff sig = Inr d"
  shows "map_of d ''max_tokens_per_period'' = map_option JInt (bc_tokens c)"
    and "map_of d ''max_cost_cents_per_period'' = map_option JInt (bc_cost c)"
    and "map_of d ''policy_version'' = Some (JInt ver)" and "map_of d ''policy_id'' = Some (JStr pid)"
    and "map_of d ''tenant_id'' = Some (JStr (bc_tenant c))"
    and "map_of d ''agent_id'' = Some (JStr (bc_agent c))"
    and "1 \<le> ver" "ver \<le> MAX_POLICY_VERSION"
  using assms by (auto simp: budget_concept_to_policy_payload_def bindR_eq_Inr
      split: if_splits option.splits)

lemma payload_ok:
  assumes "1 \<le> ver" "ver \<le> MAX_POLICY_VERSION" "16 \<le> length sig" "is_compact_jws sig"
  shows "\<exists>d. budget_concept_to_policy_payload c pid ver (Aware t) sig = Inr d"
  using assms by (auto simp: budget_concept_to_policy_payload_def dollar_def)

end
