(* ===== verification/Schema.thy ===== *)
theory Schema
  imports Budget
begin

text \<open>
  The Delta database (\<open>delta.persistence.models\<close> and the migrations): one record whose fields
  are the tables of the ledger, ingest, budget-engine, kill-switch and allocation components,
  each the list of its rows in insertion order. An operation that runs in a session takes
  the tenant the session is bound to (row-level security: it sees only that tenant's rows and
  may insert only such rows) and returns an exception or its result with the new database; an
  exception rolls the transaction back, so the caller keeps the old database. Ids drawn from
  \<open>uuid.uuid4()\<close> are the parameter \<open>u4\<close> applied to a counter kept in the database.
\<close>

section \<open>Rows\<close>

record txn_row =
  tr_id :: ident
  tr_tenant :: ident
  tr_currency :: string
  tr_time :: instant
  tr_desc :: string
  tr_reversal_of :: "ident option"
  tr_idem :: "string option"

record entry_row =
  le_id :: ident
  le_txn :: ident
  le_tenant :: ident
  le_account :: ident
  le_dir :: direction
  le_amount :: cents
  le_currency :: string
  le_team :: ident
  le_project :: ident
  le_agent :: ident
  le_time :: instant

datatype dlq_reason = UNKNOWN_TENANT | INVALID_COST | UNRESOLVABLE_ACCOUNT | MALFORMED_PAYLOAD

record dlq_row =
  dl_id :: ident
  dl_tenant :: "ident option"
  dl_event :: "string option"
  dl_type :: "string option"
  dl_reason :: dlq_reason
  dl_payload :: json
  dl_attempts :: int
  dl_first :: instant
  dl_last :: instant

record budget_def =
  bd_id :: ident
  bd_tenant :: ident
  bd_scope :: budget_scope
  bd_team :: ident
  bd_project :: ident
  bd_agent :: ident
  bd_period :: budget_period
  bd_tokens :: "int option"
  bd_cost :: "cents option"
  bd_currency :: string
  bd_policy :: ident
  bd_created :: instant

datatype enforcement = Under | Enforced

record bstate =
  bs_id :: ident
  bs_tenant :: ident
  bs_budget :: ident
  bs_bucket :: string
  bs_state :: enforcement
  bs_enforced_version :: "int option"
  bs_version :: int
  bs_warned :: "int option"
  bs_updated :: instant

datatype delivery = Pending | Delivered | Failed

datatype transition = TEnforce | TRefresh | TKill | TClear

record outbox_row =
  ob_id :: ident
  ob_tenant :: ident
  ob_subject :: ident
  ob_policy :: ident
  ob_version :: int
  ob_transition :: transition
  ob_payload :: "(string \<times> json) list"
  ob_distribution :: "string option"
  ob_state :: delivery
  ob_attempts :: int
  ob_next :: instant
  ob_error :: "string option"
  ob_created :: instant

record auth_row =
  aa_tenant :: ident
  aa_agent :: ident
  aa_at :: instant

datatype kill_state = KClear | Killed

datatype kill_reason = UNAUTHORIZED_AGENT | ANOMALOUS_SINGLE_TX

record kstate =
  ks_id :: ident
  ks_tenant :: ident
  ks_team :: ident
  ks_project :: ident
  ks_agent :: ident
  ks_policy :: ident
  ks_state :: kill_state
  ks_reason :: "kill_reason option"
  ks_version :: int
  ks_updated :: instant

datatype alloc_status = Requested | Approved | Rejected

record alloc_row =
  ar_id :: ident
  ar_tenant :: ident
  ar_total :: cents
  ar_currency :: string
  ar_period :: budget_period
  ar_status :: alloc_status
  ar_by :: string
  ar_at :: instant
  ar_decided_by :: "string option"
  ar_decided_at :: "instant option"

record target_row =
  ta_id :: ident
  ta_alloc :: ident
  ta_tenant :: ident
  ta_scope :: budget_scope
  ta_team :: ident
  ta_project :: ident
  ta_agent :: ident
  ta_amount :: cents
  ta_budget :: "ident option"

record hist_row =
  h_id :: ident
  h_tenant :: ident
  h_type :: string
  h_entity :: string
  h_action :: string
  h_actor :: string
  h_note :: "string option"
  h_created :: instant
  h_seq :: int
  h_prev :: string
  h_hash :: string

section \<open>The database\<close>

record db =
  accounts :: "account list"
  transactions :: "txn_row list"
  entries :: "entry_row list"
  dead_letters :: "dlq_row list"
  budgets :: "budget_def list"
  bstates :: "bstate list"
  boutbox :: "outbox_row list"
  auths :: "auth_row list"
  kstates :: "kstate list"
  koutbox :: "outbox_row list"
  allocs :: "alloc_row list"
  targets :: "target_row list"
  history :: "hist_row list"
  uuid_ctr :: nat
  hist_seq :: int

definition empty_db :: db where
  "empty_db = \<lparr>accounts = [], transactions = [], entries = [], dead_letters = [], budgets = [],
     bstates = [], boutbox = [], auths = [], kstates = [], koutbox = [], allocs = [], targets = [],
     history = [], uuid_ctr = 0, hist_seq = 0\<rparr>"

type_synonym u4gen = "nat \<Rightarrow> ident"

definition uuid4 :: "u4gen \<Rightarrow> db \<Rightarrow> ident \<times> db" where
  "uuid4 u4 d = (u4 (uuid_ctr d), d\<lparr>uuid_ctr := Suc (uuid_ctr d)\<rparr>)"

text \<open>\<open>get_tenant_session\<close> refuses an empty or blank tenant before anything runs.\<close>

definition tenant_session :: "ident \<Rightarrow> py_exc + unit" where
  "tenant_session t = (if t = [] \<or> strip t = [] then Inl RuntimeError else Inr ())"

text \<open>Row-level security on INSERT: the row must belong to the session's tenant.\<close>

definition rls_check :: "ident \<Rightarrow> ident \<Rightarrow> py_exc + unit" where
  "rls_check sess t = guardR (t = sess) ProgrammingError"

lemma rls_check_simps [simp]:
  "rls_check sess t = Inr u \<longleftrightarrow> t = sess"
  "rls_check sess t = Inl x \<longleftrightarrow> t \<noteq> sess \<and> x = ProgrammingError"
  "rls_check sess sess = Inr ()"
  by (auto simp: rls_check_def)

lemma uuid4_simps [simp]:
  "fst (uuid4 u4 d) = u4 (uuid_ctr d)"
  "snd (uuid4 u4 d) = d\<lparr>uuid_ctr := Suc (uuid_ctr d)\<rparr>"
  by (simp_all add: uuid4_def)

end
