(* ===== verification/Ledger_Store.thy ===== *)
theory Ledger_Store
  imports Schema
begin

text \<open>
  \<open>delta.persistence.ledger_store\<close> and \<open>delta.persistence.balances\<close> with what the database
  enforces under them: the unique keys, the same-tenant account reference, the amount bounds
  and the deferred balance trigger of migrations 0001 and 0002. \<open>ledger_ok\<close> is the
  invariant of a committed ledger; no append, whatever transaction it is given, breaks it.
\<close>

section \<open>Append\<close>

record append_result =
  ap_txn :: ident
  ap_applied :: bool
  ap_replay :: bool
  ap_count :: nat

text \<open>The sums and counts \<open>assert_txn_balanced\<close> takes over a transaction's visible rows.\<close>

definition row_debits :: "entry_row list \<Rightarrow> int" where
  "row_debits es = total le_amount (filter (\<lambda>e. le_dir e = DEBIT) es)"

definition row_credits :: "entry_row list \<Rightarrow> int" where
  "row_credits es = total le_amount (filter (\<lambda>e. le_dir e = CREDIT) es)"

definition assert_txn_balanced :: "ident \<Rightarrow> ident \<Rightarrow> db \<Rightarrow> bool" where
  "assert_txn_balanced sess i d =
     (let es = filter (\<lambda>e. le_txn e = i \<and> le_tenant e = sess) (entries d) in
      2 \<le> length es \<and> distinct_count le_currency es = 1 \<and> distinct_count le_tenant es = 1
      \<and> row_debits es = row_credits es
      \<and> (case List.find (\<lambda>t. tr_id t = i \<and> tr_tenant t = sess) (transactions d) of
           None \<Rightarrow> False
         | Some t \<Rightarrow> tr_tenant t = le_tenant (hd es) \<and> tr_currency t = le_currency (hd es)))"

definition txn_row_of :: "txn \<Rightarrow> string option \<Rightarrow> ident option \<Rightarrow> txn_row" where
  "txn_row_of x idem rv = \<lparr>tr_id = t_id x, tr_tenant = t_tenant x,
     tr_currency = (case t_entries x of [] \<Rightarrow> [] | e # _ \<Rightarrow> currency (e_amount e)),
     tr_time = t_time x, tr_desc = t_desc x, tr_reversal_of = rv, tr_idem = idem\<rparr>"

text \<open>The INSERT of the transaction row: \<open>Inr None\<close> when the idempotency key conflicts.\<close>

definition insert_txn :: "ident \<Rightarrow> txn_row \<Rightarrow> db \<Rightarrow> py_exc + db option" where
  "insert_txn sess r d =
     bindR (guardR (\<forall>k \<in> set_option (tr_idem r). length k \<le> 255) DataError) (\<lambda>_.
     bindR (rls_check sess (tr_tenant r)) (\<lambda>_.
     bindR (guardR (is_currency (tr_currency r) \<and> tr_reversal_of r \<noteq> Some (tr_id r)) IntegrityError) (\<lambda>_.
     if tr_idem r \<noteq> None \<and> (tr_tenant r, tr_idem r) \<in> (\<lambda>t. (tr_tenant t, tr_idem t)) ` set (transactions d)
     then Inr None
     else bindR (guardR (tr_id r \<notin> tr_id ` set (transactions d)) IntegrityError) (\<lambda>_.
          bindR (guardR (\<forall>o' \<in> set_option (tr_reversal_of r). o' \<in> tr_id ` set (transactions d)) IntegrityError) (\<lambda>_.
          Inr (Some (d\<lparr>transactions := transactions d @ [r]\<rparr>)))))))"

definition entry_row_of :: "ident \<Rightarrow> ledger_entry \<Rightarrow> entry_row" where
  "entry_row_of i e = \<lparr>le_id = e_id e, le_txn = i, le_tenant = e_tenant e, le_account = e_account e,
     le_dir = e_dir e, le_amount = minor_units (e_amount e), le_currency = currency (e_amount e),
     le_team = e_team e, le_project = e_project e, le_agent = e_agent e, le_time = e_time e\<rparr>"

definition entry_ok :: "db \<Rightarrow> entry_row \<Rightarrow> bool" where
  "entry_ok d r \<longleftrightarrow> 0 \<le> le_amount r \<and> le_amount r \<le> MAX_MONEY_MINOR_UNITS \<and> is_currency (le_currency r)
     \<and> (le_tenant r, le_account r) \<in> (\<lambda>a. (acc_tenant a, acc_id a)) ` set (accounts d)"

definition insert_entry :: "ident \<Rightarrow> entry_row \<Rightarrow> db \<Rightarrow> py_exc + db" where
  "insert_entry sess r d =
     bindR (rls_check sess (le_tenant r)) (\<lambda>_.
     bindR (guardR (le_id r \<notin> le_id ` set (entries d)) IntegrityError) (\<lambda>_.
     bindR (guardR (entry_ok d r) IntegrityError) (\<lambda>_.
     Inr (d\<lparr>entries := entries d @ [r]\<rparr>))))"

definition append_transaction ::
  "ident \<Rightarrow> txn \<Rightarrow> string option \<Rightarrow> ident option \<Rightarrow> db \<Rightarrow> py_exc + append_result \<times> db" where
  "append_transaction sess x idem rv d =
     bindR (insert_txn sess (txn_row_of x idem rv) d) (\<lambda>inserted.
     case inserted of
       None \<Rightarrow> Inr (\<lparr>ap_txn = t_id x, ap_applied = False, ap_replay = True, ap_count = 0\<rparr>, d)
     | Some d1 \<Rightarrow>
         bindR (foldR (insert_entry sess) (map (entry_row_of (t_id x)) (t_entries x)) d1) (\<lambda>d2.
         bindR (guardR (assert_txn_balanced sess (t_id x) d2) DBAPIError) (\<lambda>_.
         Inr (\<lparr>ap_txn = t_id x, ap_applied = True, ap_replay = False,
               ap_count = length (t_entries x)\<rparr>, d2))))"

section \<open>Reverse\<close>

fun opposite :: "direction \<Rightarrow> direction" where
  "opposite DEBIT = CREDIT"
| "opposite CREDIT = DEBIT"

definition compensate :: "ident \<Rightarrow> py_datetime \<Rightarrow> entry_row \<Rightarrow> py_exc + ledger_entry" where
  "compensate i ts r =
     bindR (mk_money (JInt (le_amount r)) (le_currency r)) (\<lambda>amt.
     mk_entry i (le_tenant r) (le_account r) (opposite (le_dir r)) amt (le_team r) (le_project r)
       (le_agent r) ts)"

definition reverse_transaction ::
  "u4gen \<Rightarrow> ident \<Rightarrow> ident \<Rightarrow> ident \<Rightarrow> py_datetime \<Rightarrow> string \<Rightarrow> string option \<Rightarrow> db
     \<Rightarrow> py_exc + append_result \<times> db" where
  "reverse_transaction u4 sess orig new ts desc idem d =
     (let rows = filter (\<lambda>e. le_txn e = orig \<and> le_tenant e = sess) (entries d);
          ids = map u4 [uuid_ctr d ..< uuid_ctr d + length rows];
          d0 = d\<lparr>uuid_ctr := uuid_ctr d + length rows\<rparr> in
      if rows = [] then Inl TransactionNotFoundError
      else bindR (mapR (\<lambda>(i, r). compensate i ts r) (zip ids rows)) (\<lambda>es.
           bindR (mk_transaction new (le_tenant (hd rows)) es ts
                    (if desc = [] then ''reversal of '' @ orig else desc)) (\<lambda>x.
           append_transaction sess x idem (Some orig) d0)))"

section \<open>Balances\<close>

record movement =
  mv_debit :: int
  mv_credit :: int

definition net :: "movement \<Rightarrow> int" where
  "net m = mv_debit m - mv_credit m"

definition movement_where ::
  "ident \<Rightarrow> ident \<Rightarrow> instant option \<Rightarrow> instant option \<Rightarrow> instant option \<Rightarrow> db \<Rightarrow> movement" where
  "movement_where sess a as_of start end' d =
     (let es = filter (\<lambda>e. le_tenant e = sess \<and> le_account e = a
          \<and> (\<forall>t \<in> set_option as_of. le_time e \<le> t)
          \<and> (\<forall>t \<in> set_option start. t \<le> le_time e)
          \<and> (\<forall>t \<in> set_option end'. le_time e < t)) (entries d)
      in \<lparr>mv_debit = row_debits es, mv_credit = row_credits es\<rparr>)"

definition account_movement :: "ident \<Rightarrow> ident \<Rightarrow> instant option \<Rightarrow> db \<Rightarrow> movement" where
  "account_movement sess a as_of d = movement_where sess a as_of None None d"

definition windowed_movement :: "ident \<Rightarrow> ident \<Rightarrow> instant \<Rightarrow> instant \<Rightarrow> db \<Rightarrow> movement" where
  "windowed_movement sess a s e d = movement_where sess a None (Some s) (Some e) d"

definition debit_normal :: "account_type \<Rightarrow> bool" where
  "debit_normal ty \<longleftrightarrow> ty = ASSET \<or> ty = EXPENSE"

definition account_balance :: "ident \<Rightarrow> ident \<Rightarrow> instant option \<Rightarrow> db \<Rightarrow> py_exc + int" where
  "account_balance sess a as_of d =
     (case List.find (\<lambda>x. acc_id x = a \<and> acc_tenant x = sess) (accounts d) of
        None \<Rightarrow> Inl LookupError
      | Some x \<Rightarrow>
          let m = account_movement sess a as_of d in
          Inr (if debit_normal (acc_type x) then mv_debit m - mv_credit m else mv_credit m - mv_debit m))"

section \<open>The committed ledger\<close>

definition txn_entries :: "ident \<Rightarrow> db \<Rightarrow> entry_row list" where
  "txn_entries i d = filter (\<lambda>e. le_txn e = i) (entries d)"

definition txn_ok :: "db \<Rightarrow> txn_row \<Rightarrow> bool" where
  "txn_ok d t \<longleftrightarrow> 2 \<le> length (txn_entries (tr_id t) d)
     \<and> row_debits (txn_entries (tr_id t) d) = row_credits (txn_entries (tr_id t) d)
     \<and> (\<forall>e \<in> set (txn_entries (tr_id t) d). le_tenant e = tr_tenant t \<and> le_currency e = tr_currency t)"

definition ledger_ok :: "db \<Rightarrow> bool" where
  "ledger_ok d \<longleftrightarrow> distinct (map tr_id (transactions d)) \<and> distinct (map le_id (entries d))
     \<and> (\<forall>t \<in> set (transactions d). txn_ok d t)
     \<and> (\<forall>e \<in> set (entries d). le_txn e \<in> tr_id ` set (transactions d) \<and> entry_ok d e)
     \<and> distinct (map (\<lambda>t. (tr_tenant t, tr_idem t)) (filter (\<lambda>t. tr_idem t \<noteq> None) (transactions d)))"

text \<open>A signed leg: debits count positive, credits negative.\<close>

definition signed_cents :: "entry_row \<Rightarrow> int" where
  "signed_cents e = (if le_dir e = DEBIT then le_amount e else - le_amount e)"

lemma total_signed: "total signed_cents es = row_debits es - row_credits es"
proof (induction es)
  case (Cons e es)
  then show ?case by (cases "le_dir e") (simp_all add: row_debits_def row_credits_def signed_cents_def)
qed (simp add: row_debits_def row_credits_def)

section \<open>Appending keeps the ledger\<close>

lemma entry_ok_frame [simp]:
  "entry_ok (d\<lparr>transactions := a\<rparr>) r = entry_ok d r" "entry_ok (d\<lparr>entries := b\<rparr>) r = entry_ok d r"
  "entry_ok (d\<lparr>uuid_ctr := n\<rparr>) r = entry_ok d r"
  by (simp_all add: entry_ok_def)

lemma insert_txn_Some:
  assumes "insert_txn sess r d = Inr (Some d')"
  shows "d' = d\<lparr>transactions := transactions d @ [r]\<rparr>" and "tr_id r \<notin> tr_id ` set (transactions d)"
    and "tr_tenant r = sess"
    and "tr_idem r \<noteq> None \<Longrightarrow> (tr_tenant r, tr_idem r) \<notin> (\<lambda>t. (tr_tenant t, tr_idem t)) ` set (transactions d)"
  using assms by (auto simp: insert_txn_def bindR_eq_Inr split: if_splits)

lemma insert_entry_Inr:
  "insert_entry sess r d = Inr d' \<longleftrightarrow> le_tenant r = sess \<and> le_id r \<notin> le_id ` set (entries d)
     \<and> entry_ok d r \<and> d' = d\<lparr>entries := entries d @ [r]\<rparr>"
  by (auto simp: insert_entry_def bindR_eq_Inr)

text \<open>A run of entry inserts appends the rows, all of the session's tenant, with fresh ids.\<close>

lemma foldR_insert_entry:
  assumes "foldR (insert_entry sess) rs d = Inr d'"
  shows "d' = d\<lparr>entries := entries d @ rs\<rparr> \<and> (\<forall>r \<in> set rs. le_tenant r = sess \<and> entry_ok d r)
    \<and> (distinct (map le_id (entries d)) \<longrightarrow> distinct (map le_id (entries d @ rs)))"
  using assms
proof (induction rs arbitrary: d)
  case (Cons r rs)
  from Cons.prems obtain d1 where 1: "insert_entry sess r d = Inr d1"
    and 2: "foldR (insert_entry sess) rs d1 = Inr d'"
    by (auto simp: bindR_eq_Inr)
  have ok: "entry_ok d1 x = entry_ok d x" for x
    using 1 by (auto simp: insert_entry_Inr)
  from 1 Cons.IH [OF 2] show ?case by (auto simp: insert_entry_Inr ok)
qed simp

lemma append_transaction_cases:
  assumes "append_transaction sess x idem rv d = Inr (res, d')"
  obtains (replay) "d' = d" "ap_applied res = False" "ap_replay res" "ap_count res = 0"
      "idem \<noteq> None" "(t_tenant x, idem) \<in> (\<lambda>t. (tr_tenant t, tr_idem t)) ` set (transactions d)"
  | (applied) "d' = d\<lparr>transactions := transactions d @ [txn_row_of x idem rv],
        entries := entries d @ map (entry_row_of (t_id x)) (t_entries x)\<rparr>"
      "t_id x \<notin> tr_id ` set (transactions d)" "t_tenant x = sess"
      "\<forall>r \<in> set (map (entry_row_of (t_id x)) (t_entries x)). le_tenant r = sess \<and> entry_ok d r"
      "distinct (map le_id (entries d)) \<longrightarrow> distinct (map le_id (entries d'))"
      "idem \<noteq> None \<longrightarrow> (sess, idem) \<notin> (\<lambda>t. (tr_tenant t, tr_idem t)) ` set (transactions d)"
      "assert_txn_balanced sess (t_id x) d'"
      "ap_applied res" "\<not> ap_replay res" "ap_count res = length (t_entries x)"
proof -
  from assms obtain ins where i: "insert_txn sess (txn_row_of x idem rv) d = Inr ins"
    by (auto simp: append_transaction_def bindR_eq_Inr)
  show thesis
  proof (cases ins)
    case None
    with i have "idem \<noteq> None" "(t_tenant x, idem) \<in> (\<lambda>t. (tr_tenant t, tr_idem t)) ` set (transactions d)"
      by (auto simp: insert_txn_def bindR_eq_Inr txn_row_of_def split: if_splits)
    moreover have "d' = d" "ap_applied res = False" "ap_replay res" "ap_count res = 0"
      using assms i None by (auto simp: append_transaction_def)
    ultimately show thesis by (intro replay)
  next
    case (Some d1)
    note t = insert_txn_Some [OF i [unfolded Some]]
    have d1: "d1 = d\<lparr>transactions := transactions d @ [txn_row_of x idem rv]\<rparr>"
      and fresh: "t_id x \<notin> tr_id ` set (transactions d)" and ten: "t_tenant x = sess"
      and key: "idem \<noteq> None \<longrightarrow> (sess, idem) \<notin> (\<lambda>t. (tr_tenant t, tr_idem t)) ` set (transactions d)"
      using t by (simp_all add: txn_row_of_def)
    from assms i Some obtain d2
      where f: "foldR (insert_entry sess) (map (entry_row_of (t_id x)) (t_entries x)) d1 = Inr d2"
        and b: "assert_txn_balanced sess (t_id x) d2" and d2: "d' = d2"
        and r: "ap_applied res" "\<not> ap_replay res" "ap_count res = length (t_entries x)"
      by (auto simp: append_transaction_def bindR_eq_Inr)
    from foldR_insert_entry [OF f] d2 show thesis
      using fresh ten key b r
      by (intro applied) (simp_all add: d1)
  qed
qed

lemma entry_row_of_txn [simp]: "le_txn (entry_row_of i e) = i"
  by (simp add: entry_row_of_def)

lemma txn_row_of_simps [simp]:
  "tr_id (txn_row_of x idem rv) = t_id x" "tr_tenant (txn_row_of x idem rv) = t_tenant x"
  "tr_idem (txn_row_of x idem rv) = idem"
  by (simp_all add: txn_row_of_def)

lemma ledger_ok_fk: "ledger_ok d \<Longrightarrow> e \<in> set (entries d) \<Longrightarrow> le_txn e \<in> tr_id ` set (transactions d)"
  by (simp add: ledger_ok_def)

text \<open>
  Committed transactions stay balanced whatever is appended: the invariant does not rest on
  the caller's transaction being valid.
\<close>

lemma append_transaction_ledger_ok:
  assumes ok: "ledger_ok d" and app: "append_transaction sess x idem rv d = Inr (res, d')"
  shows "ledger_ok d'"
  using app
proof (cases rule: append_transaction_cases)
  case replay
  with ok show ?thesis by simp
next
  case applied
  let ?r = "txn_row_of x idem rv" and ?es = "map (entry_row_of (t_id x)) (t_entries x)"
  have fk: "le_txn e \<noteq> t_id x" if "e \<in> set (entries d)" for e
    using ledger_ok_fk [OF ok that] applied(2) by metis
  have old: "txn_entries (tr_id t) d' = txn_entries (tr_id t) d" if "t \<in> set (transactions d)" for t
    using applied(1,2) that by (auto simp: txn_entries_def filter_empty_conv)
  have new: "txn_entries (t_id x) d' = ?es"
    using applied(1) fk by (auto simp: txn_entries_def filter_empty_conv)
  have vis: "filter (\<lambda>e. le_txn e = t_id x \<and> le_tenant e = sess) (entries d') = ?es"
    using applied(1,4) fk by (auto simp: filter_empty_conv)
  have none: "List.find (\<lambda>t. tr_id t = t_id x \<and> tr_tenant t = sess) (transactions d') = Some ?r"
    using applied(1-3) by (simp, subst find_snoc_fresh) (auto simp: image_iff)
  have bal: "2 \<le> length ?es" "row_debits ?es = row_credits ?es" "distinct_count le_currency ?es = 1"
    "le_currency (hd ?es) = tr_currency ?r"
    using applied(7) unfolding assert_txn_balanced_def Let_def vis none by simp_all
  have cur: "le_currency e = tr_currency ?r" if "e \<in> set ?es" for e
    using bal(3,4) that unfolding distinct_count_1 by metis
  have "txn_ok d' ?r"
    using bal cur applied(3,4) by (simp add: txn_ok_def new)
  moreover have "txn_ok d' t" if "t \<in> set (transactions d)" for t
    using ok that by (simp add: ledger_ok_def txn_ok_def old)
  moreover have "entry_ok d' e = entry_ok d e" for e
    by (simp add: applied(1))
  ultimately show ?thesis
    using ok applied(1-6) unfolding ledger_ok_def by (auto simp: image_iff)
qed

section \<open>Reversal\<close>

lemma ledger_ok_uuid [simp]: "ledger_ok (d\<lparr>uuid_ctr := n\<rparr>) = ledger_ok d"
  by (simp add: ledger_ok_def txn_ok_def txn_entries_def)

text \<open>What a compensating row keeps of the row it reverses.\<close>

definition compensates :: "ident \<Rightarrow> instant \<Rightarrow> entry_row \<Rightarrow> entry_row \<Rightarrow> bool" where
  "compensates i t r n \<longleftrightarrow> le_txn n = i \<and> le_time n = t \<and> le_tenant n = le_tenant r
     \<and> le_account n = le_account r \<and> le_dir n = opposite (le_dir r) \<and> le_amount n = le_amount r
     \<and> le_currency n = le_currency r \<and> le_team n = le_team r \<and> le_project n = le_project r
     \<and> le_agent n = le_agent r"

lemma compensate_row:
  "compensate i (Aware t) r = Inr e \<Longrightarrow> compensates x t r (entry_row_of x e)"
  by (auto simp: compensate_def bindR_eq_Inr compensates_def entry_row_of_def)

lemma compensates_signed: "compensates i t r n \<Longrightarrow> signed_cents n = - signed_cents r"
  by (cases "le_dir r") (auto simp: compensates_def signed_cents_def)

lemma list_all2_zip_snd:
  assumes "list_all2 P (zip is rs) es" and "length is = length rs"
    and "\<And>i r e. P (i, r) e \<Longrightarrow> Q r (f e)"
  shows "list_all2 Q rs (map f es)"
proof (rule list_all2_all_nthI)
  show "length rs = length (map f es)" using assms(1,2) by (auto dest: list_all2_lengthD)
  fix n assume n: "n < length rs"
  then have "P (is ! n, rs ! n) (es ! n)"
    using list_all2_nthD [OF assms(1), of n] assms(2) by simp
  then show "Q (rs ! n) (map f es ! n)"
    using assms(3) n list_all2_lengthD [OF assms(1)] assms(2) by simp
qed

lemma reverse_transaction_cases:
  assumes "reverse_transaction u4 sess orig new ts desc idem d = Inr (res, d')"
  obtains x t where
    "append_transaction sess x idem (Some orig)
       (d\<lparr>uuid_ctr := uuid_ctr d + length (filter (\<lambda>e. le_txn e = orig \<and> le_tenant e = sess) (entries d))\<rparr>)
       = Inr (res, d')"
    "t_id x = new" "balanced x" "filter (\<lambda>e. le_txn e = orig \<and> le_tenant e = sess) (entries d) \<noteq> []"
    "ts = Aware t"
    "list_all2 (compensates new t) (filter (\<lambda>e. le_txn e = orig \<and> le_tenant e = sess) (entries d))
       (map (entry_row_of new) (t_entries x))"
proof -
  let ?rows = "filter (\<lambda>e. le_txn e = orig \<and> le_tenant e = sess) (entries d)"
  let ?ids = "map u4 [uuid_ctr d ..< uuid_ctr d + length ?rows]"
  from assms obtain es x where ne: "?rows \<noteq> []"
    and es: "mapR (\<lambda>(i, r). compensate i ts r) (zip ?ids ?rows) = Inr es"
    and x: "mk_transaction new (le_tenant (hd ?rows)) es ts
              (if desc = [] then ''reversal of '' @ orig else desc) = Inr x"
    and app: "append_transaction sess x idem (Some orig) (d\<lparr>uuid_ctr := uuid_ctr d + length ?rows\<rparr>)
              = Inr (res, d')"
    by (auto simp: reverse_transaction_def Let_def bindR_eq_Inr split: if_splits)
  from x obtain t where t: "ts = Aware t" and xe: "t_entries x = es" "t_id x = new" "balanced x"
    by (auto simp: mk_transaction_Inr)
  have "list_all2 (compensates new t) ?rows (map (entry_row_of new) es)"
    by (rule list_all2_zip_snd [OF mapR_list_all2 [OF es]]) (auto simp: t intro: compensate_row)
  with app ne t xe show thesis by (auto intro: that)
qed

text \<open>
  A reversal keeps the ledger, and when it is applied it cancels the original exactly: over
  any selection of accounts and attribution its signed total is the negated original's.
\<close>

lemma reverse_transaction_ledger_ok:
  assumes "ledger_ok d" and "reverse_transaction u4 sess orig new ts desc idem d = Inr (res, d')"
  shows "ledger_ok d'"
  using assms(2)
proof (cases rule: reverse_transaction_cases)
  case (1 x t)
  from append_transaction_ledger_ok [OF _ 1(1)] assms(1) show ?thesis by simp
qed

lemma txn_entries_visible:
  assumes "ledger_ok d" and "filter (\<lambda>e. le_txn e = i \<and> le_tenant e = sess) (entries d) \<noteq> []"
  shows "filter (\<lambda>e. le_txn e = i \<and> le_tenant e = sess) (entries d) = txn_entries i d"
proof -
  obtain e where e: "e \<in> set (entries d)" "le_txn e = i" "le_tenant e = sess"
    using assms(2) by (auto simp: filter_empty_conv)
  from ledger_ok_fk [OF assms(1) e(1)] obtain r where r: "r \<in> set (transactions d)" "tr_id r = i"
    using e(2) by auto
  then have all: "le_tenant f = tr_tenant r" if "f \<in> set (entries d)" "le_txn f = i" for f
    using assms(1) that by (auto simp: ledger_ok_def txn_ok_def txn_entries_def)
  with e have "tr_tenant r = sess" by metis
  with all show ?thesis unfolding txn_entries_def by (intro filter_cong) auto
qed

lemma reverse_transaction_nets:
  assumes ok: "ledger_ok d" and rev: "reverse_transaction u4 sess orig new ts desc idem d = Inr (res, d')"
    and ap: "ap_applied res"
  shows "total signed_cents (filter (\<lambda>e. P (le_account e) (le_team e) (le_project e) (le_agent e)) (txn_entries new d'))
    = - total signed_cents (filter (\<lambda>e. P (le_account e) (le_team e) (le_project e) (le_agent e)) (txn_entries orig d))"
    and "txn_entries orig d' = txn_entries orig d"
  using rev
proof (atomize (full), cases rule: reverse_transaction_cases)
  case (1 x t)
  let ?new = "map (entry_row_of new) (t_entries x)"
  note vis = txn_entries_visible [OF ok 1(4)]
  have applied: "entries d' = entries d @ ?new" "new \<notin> tr_id ` set (transactions d)"
    using 1(1) ap 1(2) by (cases rule: append_transaction_cases; simp)+
  have none: "le_txn e \<noteq> new" if "e \<in> set (entries d)" for e
    using ledger_ok_fk [OF ok that] applied(2) by metis
  have ne: "orig \<noteq> new"
    using 1(4) none by (auto simp: filter_empty_conv)
  have new: "txn_entries new d' = ?new"
    using none by (auto simp: txn_entries_def applied(1) filter_empty_conv)
  have old: "txn_entries orig d' = txn_entries orig d"
    using ne by (auto simp: txn_entries_def applied(1) filter_empty_conv)
  have "list_all2 (\<lambda>r n. signed_cents n = - signed_cents r
      \<and> P (le_account n) (le_team n) (le_project n) (le_agent n)
        = P (le_account r) (le_team r) (le_project r) (le_agent r)) (txn_entries orig d) ?new"
    using 1(6) unfolding vis
    by (rule list_all2_mono) (auto simp: compensates_signed compensates_def)
  from total_list_all2_uminus [OF this] show
    "total signed_cents (filter (\<lambda>e. P (le_account e) (le_team e) (le_project e) (le_agent e)) (txn_entries new d'))
      = - total signed_cents (filter (\<lambda>e. P (le_account e) (le_team e) (le_project e) (le_agent e)) (txn_entries orig d))
      \<and> txn_entries orig d' = txn_entries orig d"
    by (simp add: new old)
qed

end
