(* ===== verification/Json_Text.thy ===== *)
theory Json_Text
  imports Calendar
begin

text \<open>
  The text \<open>json.dumps\<close> prints for an object of string fields with
  \<open>separators=(",", ":")\<close> and \<open>ensure_ascii=False\<close>, as the hash chains use it: string
  escaping, its decoder, and that the printed text determines the fields. Characters stand
  for the bytes of the UTF-8 text; escaping only touches ASCII.
\<close>

section \<open>Escaping\<close>

definition hex_digit :: "nat \<Rightarrow> char" where
  "hex_digit n = (if n < 10 then char_of (48 + n) else char_of (87 + n))"

definition hex_val :: "char \<Rightarrow> nat" where
  "hex_val c = (let n = (of_char c :: nat) in if n < 58 then n - 48 else n - 87)"

definition backslash :: char where "backslash = CHR 0x5C"

definition quote :: char where "quote = CHR 0x22"

definition esc_char :: "char \<Rightarrow> string" where
  "esc_char c = (let n = (of_char c :: nat) in
     if n = 34 then [backslash, quote] else if n = 92 then [backslash, backslash]
     else if n = 10 then [backslash, CHR ''n''] else if n = 13 then [backslash, CHR ''r'']
     else if n = 9 then [backslash, CHR ''t''] else if n = 12 then [backslash, CHR ''f'']
     else if n = 8 then [backslash, CHR ''b'']
     else if n < 32 then [backslash, CHR ''u'', CHR ''0'', CHR ''0'', hex_digit (n div 16), hex_digit (n mod 16)]
     else [c])"

definition json_str :: "string \<Rightarrow> string" where
  "json_str s = quote # concat (map esc_char s) @ [quote]"

fun join_comma :: "string list \<Rightarrow> string" where
  "join_comma [] = []"
| "join_comma [x] = x"
| "join_comma (x # y # zs) = x @ '','' @ join_comma (y # zs)"

definition json_obj :: "(string \<times> string) list \<Rightarrow> string" where
  "json_obj kvs = ''{'' @ join_comma (map (\<lambda>(k, v). json_str k @ '':'' @ json_str v) kvs) @ ''}''"

text \<open>The decoder of one escaped character: the character and what follows it.\<close>

definition unesc :: "string \<Rightarrow> (char \<times> string) option" where
  "unesc s = (case s of
     [] \<Rightarrow> None
   | a # as \<Rightarrow>
     if a = quote then None
     else if a \<noteq> backslash then Some (a, as)
     else (case as of
       [] \<Rightarrow> None
     | b # bs \<Rightarrow>
       if b = quote then Some (quote, bs) else if b = backslash then Some (backslash, bs)
       else if b = CHR ''n'' then Some (char_of (10::nat), bs)
       else if b = CHR ''r'' then Some (char_of (13::nat), bs)
       else if b = CHR ''t'' then Some (char_of (9::nat), bs)
       else if b = CHR ''f'' then Some (char_of (12::nat), bs)
       else if b = CHR ''b'' then Some (char_of (8::nat), bs)
       else (case bs of
           _ # _ # h # l # rest \<Rightarrow> Some (char_of (16 * hex_val h + hex_val l), rest)
         | _ \<Rightarrow> None)))"

section \<open>Escaped text determines the string\<close>

lemma char_of_specials: "char_of (34::nat) = quote" "char_of (92::nat) = backslash"
proof -
  have "of_char quote = (34::nat)" "of_char backslash = (92::nat)"
    by (simp_all add: quote_def backslash_def)
  then show "char_of (34::nat) = quote" "char_of (92::nat) = backslash"
    by (metis char_of_char)+
qed

lemma hex_val_digit: "n < 16 \<Longrightarrow> hex_val (hex_digit n) = n"
  by (simp add: hex_val_def hex_digit_def Let_def)

lemma unesc_esc_char: "unesc (esc_char c @ u) = Some (c, u)"
proof -
  define n where "n = (of_char c :: nat)"
  have c: "char_of n = c" by (simp add: n_def)
  have neq: "c \<noteq> quote" "c \<noteq> backslash" if "n \<noteq> 34" "n \<noteq> 92"
    using that by (auto simp: n_def quote_def backslash_def)
  have hex: "16 * hex_val (hex_digit (n div 16)) + hex_val (hex_digit (n mod 16)) = n" if "n < 32"
  proof -
    have "n div 16 < 16" "n mod 16 < 16" using that by auto
    then show ?thesis by (simp add: hex_val_digit)
  qed
  have e: "esc_char c = (if n = 34 then [backslash, quote] else if n = 92 then [backslash, backslash]
     else if n = 10 then [backslash, CHR ''n''] else if n = 13 then [backslash, CHR ''r'']
     else if n = 9 then [backslash, CHR ''t''] else if n = 12 then [backslash, CHR ''f'']
     else if n = 8 then [backslash, CHR ''b'']
     else if n < 32 then [backslash, CHR ''u'', CHR ''0'', CHR ''0'', hex_digit (n div 16), hex_digit (n mod 16)]
     else [c])"
    unfolding esc_char_def Let_def n_def ..
  have q: "quote \<noteq> backslash" by (simp add: quote_def backslash_def)
  have l: "CHR ''u'' \<noteq> quote" "CHR ''u'' \<noteq> backslash" "CHR ''n'' \<noteq> quote" "CHR ''n'' \<noteq> backslash"
    "CHR ''r'' \<noteq> quote" "CHR ''r'' \<noteq> backslash" "CHR ''t'' \<noteq> quote" "CHR ''t'' \<noteq> backslash"
    "CHR ''f'' \<noteq> quote" "CHR ''f'' \<noteq> backslash" "CHR ''b'' \<noteq> quote" "CHR ''b'' \<noteq> backslash"
    by (simp_all add: quote_def backslash_def)
  consider "n = 34" | "n = 92" | "n = 10" | "n = 13" | "n = 9" | "n = 12" | "n = 8"
    | "n < 32" "n \<noteq> 10" "n \<noteq> 13" "n \<noteq> 9" "n \<noteq> 12" "n \<noteq> 8" | "32 \<le> n" "n \<noteq> 34" "n \<noteq> 92"
    by linarith
  then show ?thesis
  proof cases
    case 8
    then show ?thesis using hex q l c by (simp add: e unesc_def)
  next
    case 9
    then show ?thesis using neq by (simp add: e unesc_def)
  next
    case 1
    then have "esc_char c = [backslash, quote]" "c = quote"
      using e c char_of_specials by simp_all
    then show ?thesis using q by (simp only:) (simp add: unesc_def)
  next
    case 2
    then have "esc_char c = [backslash, backslash]" "c = backslash"
      using e c char_of_specials by simp_all
    then show ?thesis using q by (simp only:) (simp add: unesc_def)
  qed (use q l c in \<open>simp_all add: e unesc_def\<close>)
qed

lemma unesc_quote [simp]: "unesc (quote # u) = None"
  by (simp add: unesc_def)

lemma esc_str_inj:
  "concat (map esc_char s) @ quote # x = concat (map esc_char t) @ quote # y \<Longrightarrow> s = t \<and> x = y"
proof (induction s arbitrary: t)
  case Nil
  then show ?case
    by (cases t) (auto, metis unesc_esc_char unesc_quote append.assoc option.distinct(1))
next
  case (Cons c s)
  show ?case
  proof (cases t)
    case Nil
    with Cons.prems have "esc_char c @ (concat (map esc_char s) @ quote # x) = quote # y" by simp
    then show ?thesis by (metis unesc_esc_char unesc_quote option.distinct(1))
  next
    case (Cons d t')
    with Cons.prems have e: "esc_char c @ (concat (map esc_char s) @ quote # x)
        = esc_char d @ (concat (map esc_char t') @ quote # y)" by simp
    then have "Some (c, concat (map esc_char s) @ quote # x) = Some (d, concat (map esc_char t') @ quote # y)"
      by (metis unesc_esc_char)
    with Cons.IH [of t'] Cons show ?thesis by simp
  qed
qed

lemma json_str_append_inj: "json_str s @ x = json_str t @ y \<Longrightarrow> s = t \<and> x = y"
  unfolding json_str_def using esc_str_inj [of s x t y] by simp

text \<open>The text of an object determines its items.\<close>

definition field_text :: "string \<times> string \<Rightarrow> string" where
  "field_text kv = json_str (fst kv) @ '':'' @ json_str (snd kv)"

lemma json_obj_field_text: "json_obj kvs = ''{'' @ join_comma (map field_text kvs) @ ''}''"
proof -
  have "(\<lambda>(k, v). json_str k @ '':'' @ json_str v) = field_text"
    by (auto simp: field_text_def fun_eq_iff)
  then show ?thesis by (simp add: json_obj_def)
qed

lemma field_text_inj:
  assumes "field_text a @ x = field_text b @ y"
  shows "a = b \<and> x = y"
proof -
  have "fst a = fst b \<and> '':'' @ json_str (snd a) @ x = '':'' @ json_str (snd b) @ y"
    using assms unfolding field_text_def by (intro json_str_append_inj) simp
  then show ?thesis using json_str_append_inj [of "snd a" x "snd b" y] by (auto intro: prod_eqI)
qed

lemma field_text_start: "field_text a @ x \<noteq> CHR ''}'' # y"
  by (simp add: field_text_def json_str_def quote_def)

lemma join_fields_tail:
  "join_comma (map field_text (a # as)) @ ''}''
     = field_text a @ (if as = [] then ''}'' else '','' @ join_comma (map field_text as) @ ''}'')"
  by (cases as) auto

lemma join_fields_inj:
  "join_comma (map field_text as) @ ''}'' = join_comma (map field_text bs) @ ''}'' \<Longrightarrow> as = bs"
proof (induction as arbitrary: bs)
  case Nil
  show ?case
  proof (cases bs)
    case (Cons b bs')
    from Nil have "field_text b @ (if bs' = [] then ''}'' else '','' @ join_comma (map field_text bs') @ ''}'') = ''}''"
      unfolding Cons join_fields_tail by simp
    then show ?thesis by (simp only: field_text_start)
  qed simp
next
  case (Cons a as)
  show ?case
  proof (cases bs)
    case Nil
    from Cons.prems have "field_text a @ (if as = [] then ''}'' else '','' @ join_comma (map field_text as) @ ''}'') = ''}''"
      unfolding Nil join_fields_tail by simp
    then show ?thesis by (simp only: field_text_start)
  next
    case (Cons b bs')
    note e = Cons.prems [unfolded Cons join_fields_tail]
    from field_text_inj [OF e] Cons.IH [of bs'] show ?thesis
      by (auto simp: Cons split: if_splits)
  qed
qed

lemma json_obj_inj: "json_obj a = json_obj b \<Longrightarrow> a = b"
  by (rule join_fields_inj) (simp add: json_obj_field_text)

end
