(* ===== verification/Hash_Chain.thy ===== *)
theory Hash_Chain
  imports Main
begin

text \<open>
  The contract of a hash-chained log, stated once: rows carry the digest of their content
  together with the digest of the row before them. A log that walks from its genesis value is
  extended by a row computed from its tip, every prefix of it walks too, and two logs of the
  same length with the same tip hold the same contents unless two of their rows exhibit a
  collision of the digest.
\<close>

locale chained_log =
  fixes content :: "'r \<Rightarrow> 'c" and prev :: "'r \<Rightarrow> 'h" and hash :: "'r \<Rightarrow> 'h"
    and digest :: "'c \<Rightarrow> 'h \<Rightarrow> 'h"
    and walk :: "'h \<Rightarrow> 'r list \<Rightarrow> bool" and tip :: "'h \<Rightarrow> 'r list \<Rightarrow> 'h"
  assumes walk_Nil: "walk p []"
    and walk_Cons: "walk p (r # rs) \<longleftrightarrow> prev r = p \<and> digest (content r) (prev r) = hash r \<and> walk (hash r) rs"
    and tip_Nil: "tip p [] = p"
    and tip_snoc: "tip p (rs @ [r]) = hash r"
begin

lemma tip_Cons: "tip p (r # rs) = tip (hash r) rs"
proof (cases rs rule: rev_cases)
  case Nil
  then show ?thesis using tip_snoc [of p "[]" r] by (simp add: tip_Nil)
next
  case (snoc ss s)
  then show ?thesis using tip_snoc [of p "r # ss" s] tip_snoc [of "hash r" ss s] by simp
qed

lemma walk_append: "walk p (rs @ ss) \<longleftrightarrow> walk p rs \<and> walk (tip p rs) ss"
  by (induction rs arbitrary: p) (auto simp: walk_Nil walk_Cons tip_Nil tip_Cons)

lemma walk_extend:
  assumes "walk p rs" and "prev r = tip p rs" and "hash r = digest (content r) (prev r)"
  shows "walk p (rs @ [r])"
  using assms by (simp add: walk_append walk_Cons walk_Nil)

lemma walk_prefix: "walk p (rs @ ss) \<Longrightarrow> walk p rs"
  by (simp add: walk_append)

text \<open>A collision shown by two rows of the logs.\<close>

definition collide :: "'r \<Rightarrow> 'r \<Rightarrow> bool" where
  "collide r s \<longleftrightarrow> (content r, prev r) \<noteq> (content s, prev s)
     \<and> digest (content r) (prev r) = digest (content s) (prev s)"

lemma walk_determined:
  assumes "walk p rs" and "walk p ss" and "length rs = length ss" and "tip p rs = tip p ss"
  shows "map content rs = map content ss \<or> (\<exists>r \<in> set rs. \<exists>s \<in> set ss. collide r s)"
  using assms
proof (induction rs arbitrary: ss rule: rev_induct)
  case (snoc r rs)
  from snoc.prems(3) obtain s ts where ss: "ss = ts @ [s]" by (cases ss rule: rev_cases) auto
  from snoc.prems have w: "walk p rs" "walk p ts" "length rs = length ts"
    and r: "prev r = tip p rs" "digest (content r) (prev r) = hash r"
    and s: "prev s = tip p ts" "digest (content s) (prev s) = hash s"
    and h: "hash r = hash s"
    by (auto simp: ss walk_append walk_Cons tip_snoc)
  show ?case
  proof (cases "content r = content s \<and> prev r = prev s")
    case True
    with r s have "tip p rs = tip p ts" by simp
    from snoc.IH [OF w this] True show ?thesis by (auto simp: ss)
  next
    case False
    with r s h have "collide r s" by (auto simp: collide_def)
    then show ?thesis by (auto simp: ss)
  qed
qed simp

end

end
