(* ===== verification/Audit_Log.thy ===== *)
theory Audit_Log
  imports Schema Json_Text Hash_Chain
begin

text \<open>
  \<open>delta.persistence.audit_log\<close>: the per-tenant hash-chained change history. SHA-256 is the
  parameter \<open>sha\<close>. \<open>history_ok\<close> is the invariant of a table written only through
  \<open>append_history\<close>; the chain contract of \<open>Hash_Chain\<close> is interpreted on its rows.
\<close>

section \<open>Definitions\<close>

record hash_data =
  hd_tenant :: string
  hd_type :: string
  hd_entity :: string
  hd_action :: string
  hd_actor :: string
  hd_note :: "string option"
  hd_created :: string
  hd_prev :: string

text \<open>Keys sorted; \<open>note\<close> is present only when it is not \<open>None\<close>.\<close>

definition canonical_json :: "hash_data \<Rightarrow> string" where
  "canonical_json x = json_obj (
     [(''action'', hd_action x), (''actor'', hd_actor x), (''created_at'', hd_created x),
      (''entity_id'', hd_entity x), (''entity_type'', hd_type x)]
     @ (case hd_note x of None \<Rightarrow> [] | Some n \<Rightarrow> [(''note'', n)])
     @ [(''prev_hash'', hd_prev x), (''tenant_id'', hd_tenant x)])"

definition compute_row_hash :: "(string \<Rightarrow> string) \<Rightarrow> hash_data \<Rightarrow> string" where
  "compute_row_hash sha x = sha (canonical_json x)"

definition GENESIS_HASH :: "(string \<Rightarrow> string) \<Rightarrow> string" where
  "GENESIS_HASH sha = sha ''anoryx-delta:financial-audit:genesis:v1''"

definition row_hash_data ::
  "string \<Rightarrow> string \<Rightarrow> string \<Rightarrow> string \<Rightarrow> string \<Rightarrow> string option \<Rightarrow> instant \<Rightarrow> string \<Rightarrow> hash_data" where
  "row_hash_data tenant ty en ac actor note created prev =
     \<lparr>hd_tenant = tenant, hd_type = ty, hd_entity = en, hd_action = ac, hd_actor = actor,
      hd_note = note, hd_created = isoformat created, hd_prev = prev\<rparr>"

text \<open>The rows of a tenant's chain a session sees, in sequence order.\<close>

definition chain_rows :: "ident \<Rightarrow> ident \<Rightarrow> db \<Rightarrow> hist_row list" where
  "chain_rows sess t d = sort_key h_seq (filter (\<lambda>h. h_tenant h = t \<and> h_tenant h = sess) (history d))"

definition tip_of :: "string \<Rightarrow> hist_row list \<Rightarrow> string" where
  "tip_of g rs = (if rs = [] then g else h_hash (last rs))"

definition tip_hash :: "(string \<Rightarrow> string) \<Rightarrow> ident \<Rightarrow> ident \<Rightarrow> db \<Rightarrow> string" where
  "tip_hash sha sess t d = tip_of (GENESIS_HASH sha) (chain_rows sess t d)"

text \<open>The column widths of \<open>change_history\<close>.\<close>

definition hist_fits :: "string \<Rightarrow> string \<Rightarrow> string \<Rightarrow> string \<Rightarrow> string option \<Rightarrow> bool" where
  "hist_fits ty en ac actor note \<longleftrightarrow> length ty \<le> 32 \<and> length en \<le> 64 \<and> length ac \<le> 32
     \<and> length actor \<le> 128 \<and> (\<forall>n \<in> set_option note. length n \<le> 1024)"

definition append_history ::
  "(string \<Rightarrow> string) \<Rightarrow> u4gen \<Rightarrow> ident \<Rightarrow> ident \<Rightarrow> string \<Rightarrow> string \<Rightarrow> string \<Rightarrow> string \<Rightarrow> instant
     \<Rightarrow> string option \<Rightarrow> db \<Rightarrow> py_exc + hist_row \<times> db" where
  "append_history sha u4 sess t ty en ac actor now note d =
     (let prev = tip_hash sha sess t d;
          (hid, d1) = uuid4 u4 d;
          rh = compute_row_hash sha (row_hash_data t ty en ac actor note now prev);
          r = \<lparr>h_id = hid, h_tenant = t, h_type = ty, h_entity = en, h_action = ac, h_actor = actor,
               h_note = note, h_created = now, h_seq = hist_seq d1 + 1, h_prev = prev, h_hash = rh\<rparr>
      in bindR (guardR (hist_fits ty en ac actor note) DataError) (\<lambda>_.
         bindR (rls_check sess t) (\<lambda>_.
         bindR (insert_unique IntegrityError h_id r (history d1)) (\<lambda>rows.
         Inr (r, d1\<lparr>history := rows, hist_seq := hist_seq d1 + 1\<rparr>)))))"

definition list_history ::
  "ident \<Rightarrow> string option \<Rightarrow> string option \<Rightarrow> int \<Rightarrow> db \<Rightarrow> hist_row list" where
  "list_history sess ty en limit d =
     take (nat (max 1 (min limit 500)))
       (sort_key (\<lambda>h. - h_created h)
         (filter (\<lambda>h. h_tenant h = sess \<and> (\<forall>x \<in> set_option ty. h_type h = x)
            \<and> (\<forall>x \<in> set_option en. h_entity h = x)) (history d)))"

record chain_result =
  cr_valid :: bool
  cr_checked :: nat
  cr_mismatch :: "int option"
  cr_detail :: "string option"

definition rehash :: "(string \<Rightarrow> string) \<Rightarrow> hist_row \<Rightarrow> string" where
  "rehash sha r = compute_row_hash sha (row_hash_data (h_tenant r) (h_type r) (h_entity r) (h_action r)
     (h_actor r) (h_note r) (h_created r) (h_prev r))"

fun verify_rows :: "(string \<Rightarrow> string) \<Rightarrow> string \<Rightarrow> nat \<Rightarrow> hist_row list \<Rightarrow> chain_result" where
  "verify_rows sha expected n [] = \<lparr>cr_valid = True, cr_checked = n, cr_mismatch = None, cr_detail = None\<rparr>"
| "verify_rows sha expected n (r # rs) =
     (if h_prev r \<noteq> expected then
        \<lparr>cr_valid = False, cr_checked = Suc n, cr_mismatch = Some (h_seq r),
         cr_detail = Some (''prev_hash mismatch at sequence_number='' @ dec_int (h_seq r)
           @ '': expected '' @ expected @ '', stored '' @ h_prev r)\<rparr>
      else if rehash sha r \<noteq> h_hash r then
        \<lparr>cr_valid = False, cr_checked = Suc n, cr_mismatch = Some (h_seq r),
         cr_detail = Some (''row_hash mismatch at sequence_number='' @ dec_int (h_seq r)
           @ '': expected '' @ rehash sha r @ '', stored '' @ h_hash r)\<rparr>
      else verify_rows sha (h_hash r) (Suc n) rs)"

definition verify_chain :: "(string \<Rightarrow> string) \<Rightarrow> ident \<Rightarrow> ident \<Rightarrow> db \<Rightarrow> chain_result" where
  "verify_chain sha sess t d = verify_rows sha (GENESIS_HASH sha) 0 (chain_rows sess t d)"

section \<open>The chain contract\<close>

text \<open>What a row's hash binds besides its predecessor: every audited field of the row.\<close>

definition audited :: "hist_row \<Rightarrow> string \<times> string \<times> string \<times> string \<times> string \<times> string option \<times> string" where
  "audited r = (h_tenant r, h_type r, h_entity r, h_action r, h_actor r, h_note r, isoformat (h_created r))"

definition row_digest ::
  "(string \<Rightarrow> string) \<Rightarrow> string \<times> string \<times> string \<times> string \<times> string \<times> string option \<times> string \<Rightarrow> string \<Rightarrow> string" where
  "row_digest sha c p = (case c of (t, ty, en, ac, actor, note, created) \<Rightarrow>
     compute_row_hash sha \<lparr>hd_tenant = t, hd_type = ty, hd_entity = en, hd_action = ac, hd_actor = actor,
       hd_note = note, hd_created = created, hd_prev = p\<rparr>)"

lemma rehash_digest: "rehash sha r = row_digest sha (audited r) (h_prev r)"
  by (simp add: rehash_def row_digest_def audited_def row_hash_data_def)

definition walks :: "(string \<Rightarrow> string) \<Rightarrow> string \<Rightarrow> hist_row list \<Rightarrow> bool" where
  "walks sha p rs \<longleftrightarrow> cr_valid (verify_rows sha p 0 rs)"

lemma verify_rows_valid_any: "cr_valid (verify_rows sha p n rs) = cr_valid (verify_rows sha p m rs)"
  by (induction rs arbitrary: p n m) auto

interpretation audit: chained_log audited h_prev h_hash "row_digest sha" "walks sha" tip_of for sha
proof
  show "walks sha p (r # rs) \<longleftrightarrow>
      h_prev r = p \<and> row_digest sha (audited r) (h_prev r) = h_hash r \<and> walks sha (h_hash r) rs"
    for p r rs
    using verify_rows_valid_any [of sha "h_hash r" "Suc 0" rs 0]
    by (auto simp: walks_def rehash_digest)
qed (simp_all add: walks_def tip_of_def)

section \<open>Facts\<close>

lemma canonical_json_inj: "canonical_json x = canonical_json y \<Longrightarrow> x = y"
  unfolding canonical_json_def
  by (drule json_obj_inj, cases x, cases y) (auto split: option.splits)

lemma row_digest_canonical:
  "row_digest sha (audited r) (h_prev r) = sha (canonical_json (row_hash_data (h_tenant r) (h_type r)
     (h_entity r) (h_action r) (h_actor r) (h_note r) (h_created r) (h_prev r)))"
  using rehash_digest [of sha r] by (simp add: rehash_def compute_row_hash_def)

text \<open>The bytes hashed for a stored row.\<close>

definition hashed_text :: "hist_row \<Rightarrow> string" where
  "hashed_text r = canonical_json (row_hash_data (h_tenant r) (h_type r) (h_entity r) (h_action r)
     (h_actor r) (h_note r) (h_created r) (h_prev r))"

lemma audit_collide_iff:
  "audit.collide sha r s \<longleftrightarrow> hashed_text r \<noteq> hashed_text s \<and> sha (hashed_text r) = sha (hashed_text s)"
proof -
  have "hashed_text r = hashed_text s \<longleftrightarrow> (audited r, h_prev r) = (audited s, h_prev s)"
    unfolding hashed_text_def
    by (auto dest!: canonical_json_inj simp: audited_def row_hash_data_def)
  then show ?thesis
    by (simp add: audit.collide_def row_digest_canonical hashed_text_def)
qed

lemma verify_rows_checked: "cr_valid (verify_rows sha p n rs) \<Longrightarrow> cr_checked (verify_rows sha p n rs) = n + length rs"
  by (induction rs arbitrary: p n) (auto split: if_splits)

text \<open>
  The invariant: ids are unique, sequence numbers increase in insertion order, and every
  tenant's rows walk from the genesis hash.
\<close>

definition tenant_history :: "ident \<Rightarrow> db \<Rightarrow> hist_row list" where
  "tenant_history t d = filter (\<lambda>h. h_tenant h = t) (history d)"

definition history_ok :: "(string \<Rightarrow> string) \<Rightarrow> db \<Rightarrow> bool" where
  "history_ok sha d \<longleftrightarrow> distinct (map h_id (history d)) \<and> sorted_wrt (<) (map h_seq (history d))
     \<and> (\<forall>h \<in> set (history d). h_seq h \<le> hist_seq d)
     \<and> (\<forall>t. walks sha (GENESIS_HASH sha) (tenant_history t d))"

lemma chain_rows_tenant:
  assumes "sorted_wrt (<) (map h_seq (history d))"
  shows "chain_rows t t d = tenant_history t d"
proof -
  have "sorted_wrt (<) (map h_seq (filter P (history d)))" for P
    using assms by (simp add: sorted_wrt_map sorted_wrt_filter)
  then have "sorted (map h_seq (tenant_history t d))"
    unfolding tenant_history_def by (blast intro: strict_sorted_imp_sorted)
  then show ?thesis
    by (simp add: chain_rows_def tenant_history_def sort_key_id_if_sorted)
qed

lemma append_history_Inr:
  assumes "append_history sha u4 sess t ty en ac actor now note d = Inr (r, d')"
  shows "d' = d\<lparr>uuid_ctr := Suc (uuid_ctr d), history := history d @ [r], hist_seq := hist_seq d + 1\<rparr>"
    and "t = sess" "h_id r \<notin> h_id ` set (history d)" "h_tenant r = t" "h_seq r = hist_seq d + 1"
    and "h_prev r = tip_hash sha t t d" "h_hash r = rehash sha r" "h_action r = ac" "h_entity r = en"
  using assms
  by (auto simp: append_history_def Let_def uuid4_def bindR_eq_Inr table_simps rehash_def)

lemma append_history_ok:
  assumes ok: "history_ok sha d" and app: "append_history sha u4 sess t ty en ac actor now note d = Inr (r, d')"
  shows "history_ok sha d'"
proof -
  note a = append_history_Inr [OF app]
  have s: "sorted_wrt (<) (map h_seq (history d))" "\<forall>h \<in> set (history d). h_seq h \<le> hist_seq d"
    using ok by (simp_all add: history_ok_def)
  have "walks sha (GENESIS_HASH sha) (tenant_history u d')" for u
  proof (cases "u = t")
    case True
    have "walks sha (GENESIS_HASH sha) (tenant_history t d @ [r])"
      using ok a by (intro audit.walk_extend)
        (auto simp: history_ok_def tip_hash_def chain_rows_tenant [OF s(1)] rehash_digest)
    then show ?thesis using True a by (simp add: tenant_history_def)
  next
    case False
    then show ?thesis using ok a by (simp add: tenant_history_def history_ok_def)
  qed
  then show ?thesis
    using ok a s by (fastforce simp: history_ok_def sorted_wrt_append image_iff)
qed

lemma verify_chain_ok:
  assumes "history_ok sha d"
  shows "cr_valid (verify_chain sha t t d)"
  using assms by (simp add: verify_chain_def history_ok_def chain_rows_tenant walks_def)

end
