(* ===== verification/Outbox.thy ===== *)
theory Outbox
  imports Schema
begin

text \<open>
  What the budget engine and the kill switch share on the delivery side: the publisher
  (\<open>delta.budget_engine.publisher\<close>), the loop of a drain over the due rows, and the contract of
  a delivery outbox as a locale. The loop runs each row in its own transaction; \<open>row_event\<close>
  says what the environment does to that transaction: it fails and is rolled back, another
  drainer holds the row, or it runs with the given signing result and HTTP answer. The
  signer is \<open>sign_policy_record\<close> with the loaded key; its outcome, the signed record or the
  text of the exception, is a parameter.
\<close>

section \<open>Publisher\<close>

text \<open>What the HTTP client gives: a transport error or timeout, another exception, or a
  response with its status and its body, \<open>None\<close> when the body is not JSON.\<close>

datatype http_result = Transport_Error string | Http_Exc py_exc | Response int "json option"

datatype publish_outcome = Distributed string | TransientPublishError string
  | PermanentPublishError string | PublishCrash py_exc

fun is_falsy :: "json \<Rightarrow> bool" where
  "is_falsy JNull = True"
| "is_falsy (JBool b) = (\<not> b)"
| "is_falsy (JInt n) = (n = 0)"
| "is_falsy (JFloat x) = (case x of PFin m e \<Rightarrow> m = 0 | _ \<Rightarrow> False)"
| "is_falsy (JStr s) = (s = [])"
| "is_falsy (JArr vs) = (vs = [])"
| "is_falsy (JObj kvs) = (kvs = [])"

text \<open>\<open>str\<close> of a JSON value; the printing of floats, lists and dicts is \<open>pystr\<close>.\<close>

definition str_of :: "(json \<Rightarrow> string) \<Rightarrow> json \<Rightarrow> string" where
  "str_of pystr v = (case v of JStr s \<Rightarrow> s | JInt i \<Rightarrow> dec_int i | JBool True \<Rightarrow> ''True''
     | JBool False \<Rightarrow> ''False'' | JNull \<Rightarrow> ''None'' | _ \<Rightarrow> pystr v)"

definition publish_signed_policy :: "(json \<Rightarrow> string) \<Rightarrow> http_result \<Rightarrow> publish_outcome" where
  "publish_signed_policy pystr h =
     (case h of
        Transport_Error e \<Rightarrow> TransientPublishError (''distribution transport error: '' @ e)
      | Http_Exc x \<Rightarrow> PublishCrash x
      | Response status body \<Rightarrow>
          if status = 202 then
            (case body of
               None \<Rightarrow> TransientPublishError ''202 with unparseable body''
             | Some (JObj d) \<Rightarrow>
                 let i = jget ''distribution_id'' d in
                 if is_falsy i then TransientPublishError ''202 without a distribution_id''
                 else Distributed (str_of pystr i)
             | Some _ \<Rightarrow> PublishCrash AttributeError)
          else if status = 429 \<or> status \<ge> 500
          then TransientPublishError (''distribution transient status '' @ dec_int status)
          else PermanentPublishError (''distribution rejected with status '' @ dec_int status))"

section \<open>The drain loop\<close>

datatype row_event = TxFault | Locked
  | Go "string + (string \<times> json) list" http_result

definition drain_step ::
  "('oid \<Rightarrow> 'rows \<Rightarrow> 'row option) \<Rightarrow>
   (string + (string \<times> json) list \<Rightarrow> http_result \<Rightarrow> 'row \<Rightarrow> 'rows \<Rightarrow> py_exc + 'rows) \<Rightarrow>
   ('oid \<Rightarrow> row_event) \<Rightarrow> 'oid \<Rightarrow> 'rows \<Rightarrow> 'rows" where
  "drain_step claim deliver env oid rows =
     (case env oid of
        TxFault \<Rightarrow> rows
      | Locked \<Rightarrow> rows
      | Go sg h \<Rightarrow>
          (case claim oid rows of
             None \<Rightarrow> rows
           | Some r \<Rightarrow> (case deliver sg h r rows of Inl _ \<Rightarrow> rows | Inr rows' \<Rightarrow> rows')))"

fun drain_loop ::
  "('oid \<Rightarrow> 'rows \<Rightarrow> 'row option) \<Rightarrow>
   (string + (string \<times> json) list \<Rightarrow> http_result \<Rightarrow> 'row \<Rightarrow> 'rows \<Rightarrow> py_exc + 'rows) \<Rightarrow>
   ('oid \<Rightarrow> row_event) \<Rightarrow> 'oid list \<Rightarrow> 'rows \<Rightarrow> 'rows" where
  "drain_loop claim deliver env [] rows = rows"
| "drain_loop claim deliver env (i # is) rows =
     drain_loop claim deliver env is (drain_step claim deliver env i rows)"

lemma drain_loop_append:
  "drain_loop claim deliver env (is @ js) rows
     = drain_loop claim deliver env js (drain_loop claim deliver env is rows)"
  by (induction "is" arbitrary: rows) auto

lemma drain_loop_invariant:
  assumes "\<And>i rows. I rows \<Longrightarrow> I (drain_step claim deliver env i rows)" and "I rows"
  shows "I (drain_loop claim deliver env is rows)"
  using assms by (induction "is" arbitrary: rows) auto

section \<open>The contract\<close>

text \<open>The decision a row carries: everything but its delivery bookkeeping.\<close>

definition decision :: "outbox_row \<Rightarrow> ident \<times> ident \<times> ident \<times> ident \<times> int \<times> transition \<times> (string \<times> json) list \<times> instant" where
  "decision r = (ob_id r, ob_tenant r, ob_subject r, ob_policy r, ob_version r, ob_transition r,
     ob_payload r, ob_created r)"

definition row_of :: "ident \<Rightarrow> ident \<Rightarrow> outbox_row \<Rightarrow> bool" where
  "row_of sess oid r \<longleftrightarrow> ob_tenant r = sess \<and> ob_id r = oid"

locale delivery_outbox =
  fixes claim :: "ident \<Rightarrow> instant \<Rightarrow> ident \<Rightarrow> outbox_row list \<Rightarrow> outbox_row option"
    and deliver :: "ident \<Rightarrow> instant \<Rightarrow> string + (string \<times> json) list \<Rightarrow> http_result \<Rightarrow> outbox_row
      \<Rightarrow> outbox_row list \<Rightarrow> py_exc + outbox_row list"
    and max_attempts :: int and pystr :: "json \<Rightarrow> string"
  assumes claim_sound: "claim sess now oid rows = Some r \<Longrightarrow>
      r \<in> set rows \<and> row_of sess oid r \<and> ob_state r = Pending \<and> ob_next r \<le> now"
    and claim_complete: "r \<in> set rows \<Longrightarrow> row_of sess oid r \<Longrightarrow> ob_state r = Pending \<Longrightarrow> ob_next r \<le> now
      \<Longrightarrow> \<exists>s. claim sess now oid rows = Some s"
    and deliver_update: "deliver sess now sg h r rows = Inr rows' \<Longrightarrow>
      \<exists>f. rows' = update_where (row_of sess (ob_id r)) f rows \<and> (\<forall>x. decision (f x) = decision x)
        \<and> (\<forall>x. ob_attempts (f x) = ob_attempts x + 1)
        \<and> (\<forall>x. ob_state (f x) = Pending \<longrightarrow> ob_attempts r + 1 < max_attempts)"
    and deliver_done: "publish_signed_policy pystr h = Distributed i \<Longrightarrow> length i \<le> 64 \<Longrightarrow>
      \<exists>f. deliver sess now (Inr pol) h r rows = Inr (update_where (row_of sess (ob_id r)) f rows)
        \<and> (\<forall>x. ob_state (f x) = Delivered \<and> decision (f x) = decision x)"
begin

text \<open>The invariant of the table: ids are unique and a pending row has retries left.\<close>

definition outbox_ok :: "outbox_row list \<Rightarrow> bool" where
  "outbox_ok rows \<longleftrightarrow> distinct (map ob_id rows)
     \<and> (\<forall>r \<in> set rows. 0 \<le> ob_attempts r \<and> (ob_state r = Pending \<longrightarrow> ob_attempts r < max_attempts))"

lemma drain_step_cases:
  obtains (idle) "drain_step (claim sess now) (deliver sess now) env oid rows = rows"
  | (moved) r f where "drain_step (claim sess now) (deliver sess now) env oid rows = update_where (row_of sess oid) f rows"
      "r \<in> set rows" "row_of sess oid r" "ob_state r = Pending" "\<And>x. decision (f x) = decision x"
      "\<And>x. ob_attempts (f x) = ob_attempts x + 1"
      "\<And>x. ob_state (f x) = Pending \<Longrightarrow> ob_attempts r + 1 < max_attempts"
proof (cases "env oid")
  case (Go sg h)
  show thesis
  proof (cases "claim sess now oid rows")
    case None
    with Go show thesis by (intro idle) (simp add: drain_step_def)
  next
    case (Some r)
    note c = claim_sound [OF Some]
    show thesis
    proof (cases "deliver sess now sg h r rows")
      case (Inl x)
      with Go Some show thesis by (intro idle) (simp add: drain_step_def)
    next
      case (Inr rows')
      from deliver_update [OF this] c obtain f where "rows' = update_where (row_of sess oid) f rows"
        and "\<forall>x. decision (f x) = decision x" "\<forall>x. ob_attempts (f x) = ob_attempts x + 1"
        and "\<forall>x. ob_state (f x) = Pending \<longrightarrow> ob_attempts r + 1 < max_attempts"
        by (auto simp: row_of_def)
      with Go Some Inr c show thesis
        by (intro moved [where r = r and f = f]) (simp_all add: drain_step_def, blast)
    qed
  qed
qed (auto intro: idle simp: drain_step_def)

lemma drain_step_decisions:
  "map decision (drain_step (claim sess now) (deliver sess now) env oid rows) = map decision rows"
  by (cases rule: drain_step_cases [of sess now env oid rows])
    (auto simp: update_where_def)

text \<open>No drain loses, duplicates or alters a decision, whatever fails on the way.\<close>

lemma drain_decisions:
  "map decision (drain_loop (claim sess now) (deliver sess now) env ids rows) = map decision rows"
  by (rule drain_loop_invariant [of "\<lambda>x. map decision x = map decision rows"])
    (simp_all add: drain_step_decisions)

lemma decision_ids:
  assumes "map decision xs = map decision ys"
  shows "map ob_id xs = map ob_id ys"
proof -
  have "map ob_id zs = map fst (map decision zs)" for zs by (simp add: decision_def)
  with assms show ?thesis by metis
qed

lemma drain_step_ok:
  assumes "outbox_ok rows"
  shows "outbox_ok (drain_step (claim sess now) (deliver sess now) env oid rows)"
proof -
  have ids: "distinct (map ob_id (drain_step (claim sess now) (deliver sess now) env oid rows))"
    using assms decision_ids [OF drain_step_decisions [of sess now env oid rows]]
    by (simp add: outbox_ok_def)
  show ?thesis
  proof (cases rule: drain_step_cases [of sess now env oid rows])
    case idle
    with assms show ?thesis by simp
  next
    case (moved r f)
    have only: "x = r" if "x \<in> set rows" "row_of sess oid x" for x
      using assms moved(2,3) that
      by (intro distinct_key_unique [of ob_id rows]) (auto simp: outbox_ok_def row_of_def)
    have "0 \<le> ob_attempts y \<and> (ob_state y = Pending \<longrightarrow> ob_attempts y < max_attempts)"
      if y: "y \<in> set (update_where (row_of sess oid) f rows)" for y
    proof -
      from y consider "y \<in> set rows" | x where "x \<in> set rows" "row_of sess oid x" "y = f x"
        by (auto simp: set_update_where)
      then show ?thesis
      proof cases
        case 1
        with assms show ?thesis by (simp add: outbox_ok_def)
      next
        case (2 x)
        from only [OF 2(1,2)] have "x = r" .
        moreover have "0 \<le> ob_attempts r" using assms moved(2) by (simp add: outbox_ok_def)
        ultimately show ?thesis using 2(3) moved(6) [of r] moved(7) [of r] by auto
      qed
    qed
    with ids show ?thesis by (simp add: outbox_ok_def moved(1))
  qed
qed

lemma drain_ok:
  "outbox_ok rows \<Longrightarrow> outbox_ok (drain_loop (claim sess now) (deliver sess now) env ids rows)"
  by (rule drain_loop_invariant [of outbox_ok]) (auto intro: drain_step_ok)

text \<open>Rows of other tenants, and rows already delivered or dead-lettered, are left alone.\<close>

lemma drain_step_frame:
  assumes "outbox_ok rows" and "r \<in> set rows" and "ob_tenant r \<noteq> sess \<or> ob_state r \<noteq> Pending"
  shows "r \<in> set (drain_step (claim sess now) (deliver sess now) env oid rows)"
proof (cases rule: drain_step_cases [of sess now env oid rows])
  case (moved q f)
  have "\<not> row_of sess oid r"
    using assms moved(2-4) distinct_key_unique [of ob_id rows r q]
    by (auto simp: outbox_ok_def row_of_def)
  with assms(2) show ?thesis by (simp add: moved(1) set_update_where)
qed (use assms in simp)

lemma drain_frame:
  assumes "outbox_ok rows" and "r \<in> set rows" and "ob_tenant r \<noteq> sess \<or> ob_state r \<noteq> Pending"
  shows "r \<in> set (drain_loop (claim sess now) (deliver sess now) env ids rows)"
proof -
  have "outbox_ok (drain_loop (claim sess now) (deliver sess now) env ids rows)
      \<and> r \<in> set (drain_loop (claim sess now) (deliver sess now) env ids rows)"
    by (rule drain_loop_invariant [of "\<lambda>x. outbox_ok x \<and> r \<in> set x"])
      (use assms in \<open>auto intro: drain_step_ok drain_step_frame\<close>)
  then show ?thesis ..
qed

text \<open>A row is not touched by the transactions of other rows.\<close>

lemma drain_step_other:
  assumes "r \<in> set rows" and "ob_id r \<noteq> oid"
  shows "r \<in> set (drain_step (claim sess now) (deliver sess now) env oid rows)"
  using assms by (cases rule: drain_step_cases [of sess now env oid rows])
    (auto simp: set_update_where row_of_def)

lemma drain_other:
  assumes "r \<in> set rows" and "ob_id r \<notin> set ids"
  shows "r \<in> set (drain_loop (claim sess now) (deliver sess now) env ids rows)"
  using assms by (induction ids arbitrary: rows) (auto intro: drain_step_other)

lemma drain_step_delivers:
  assumes "outbox_ok rows" and "r \<in> set rows" and "row_of sess oid r" and "ob_state r = Pending"
    and "ob_next r \<le> now" and "env oid = Go (Inr sg) h"
    and "publish_signed_policy pystr h = Distributed i" and "length i \<le> 64"
  obtains s where "s \<in> set (drain_step (claim sess now) (deliver sess now) env oid rows)"
    and "ob_state s = Delivered" and "decision s = decision r"
proof -
  obtain q where q: "claim sess now oid rows = Some q"
    using claim_complete assms(2-5) by blast
  have "ob_id q = oid" using claim_sound [OF q] by (simp add: row_of_def)
  with deliver_done [OF assms(7,8), of sess now sg q rows] obtain f
    where d: "deliver sess now (Inr sg) h q rows = Inr (update_where (row_of sess oid) f rows)"
      and f: "\<forall>x. ob_state (f x) = Delivered \<and> decision (f x) = decision x" by auto
  have "f r \<in> set (drain_step (claim sess now) (deliver sess now) env oid rows)"
    using assms(2,3,6) q d by (auto simp: drain_step_def set_update_where)
  with f show thesis by (intro that [of "f r"]) auto
qed

text \<open>A due row whose publish is accepted ends the drain delivered, whatever the others do.\<close>

lemma drain_delivers:
  assumes ok: "outbox_ok rows" and r: "r \<in> set rows" "row_of sess oid r" "ob_state r = Pending" "ob_next r \<le> now"
    and env: "env oid = Go (Inr sg) h" and pub: "publish_signed_policy pystr h = Distributed i" "length i \<le> 64"
    and ids: "oid \<in> set ids"
  shows "\<exists>s \<in> set (drain_loop (claim sess now) (deliver sess now) env ids rows).
    ob_state s = Delivered \<and> decision s = decision r"
proof -
  obtain as bs where split: "ids = as @ oid # bs" "oid \<notin> set as"
    using split_list_first [OF ids] by blast
  let ?rows1 = "drain_loop (claim sess now) (deliver sess now) env as rows"
  have "r \<in> set ?rows1" using r split(2) by (intro drain_other) (auto simp: row_of_def)
  then obtain s
    where s: "s \<in> set (drain_step (claim sess now) (deliver sess now) env oid ?rows1)"
      "ob_state s = Delivered" "decision s = decision r"
    using drain_step_delivers [of ?rows1 r sess oid now env sg h i] drain_ok [OF ok] r(2-4) env pub
    by blast
  have "s \<in> set (drain_loop (claim sess now) (deliver sess now) env bs
      (drain_step (claim sess now) (deliver sess now) env oid ?rows1))"
    using s by (intro drain_frame drain_step_ok drain_ok ok) auto
  with s(2,3) show ?thesis by (auto simp: split(1) drain_loop_append)
qed

end

end
