(* ===== verification/Budget_Engine.thy ===== *)
theory Budget_Engine
  imports Ledger_Store Audit_Log Outbox
begin

text \<open>
  The budget engine's configuration, decision logic, definition store, spend derivation and
  enforcement-state store (\<open>delta.budget_engine\<close>: config, decision, definitions, spend,
  state). Durations are integer microseconds.
\<close>

section \<open>Configuration\<close>

record engine_settings =
  es_enabled :: bool
  es_url :: string
  es_token :: string
  es_max_attempts :: int
  es_backoff_base :: int
  es_backoff_cap :: int
  es_warning_pcts :: "int list"

type_synonym environ = "string \<Rightarrow> string option"

definition env_flag :: "environ \<Rightarrow> string \<Rightarrow> bool \<Rightarrow> bool" where
  "env_flag env name dflt = (case env name of
     None \<Rightarrow> dflt
   | Some raw \<Rightarrow> map to_lower (strip raw) \<in> {''1'', ''true'', ''yes'', ''on''})"

definition env_str :: "environ \<Rightarrow> string \<Rightarrow> string" where
  "env_str env name = (case env name of None \<Rightarrow> [] | Some raw \<Rightarrow> strip raw)"

definition load_settings :: "environ \<Rightarrow> py_exc + engine_settings" where
  "load_settings env =
     (let en = env_flag env ''DELTA_BUDGET_ENGINE_ENABLED'' True;
          url = env_str env ''DELTA_ORCH_DISTRIBUTION_URL'';
          token = env_str env ''ORCH_SERVICE_TOKEN'' in
      if en \<and> url = [] then Inl RuntimeError
      else if en \<and> token = [] then Inl RuntimeError
      else Inr \<lparr>es_enabled = en, es_url = url, es_token = token, es_max_attempts = 8,
        es_backoff_base = 2 * us_per_second, es_backoff_cap = 300 * us_per_second,
        es_warning_pcts = [80, 95]\<rparr>)"

section \<open>Decision\<close>

definition is_over_cost_cap :: "cents \<Rightarrow> budget_def \<Rightarrow> bool" where
  "is_over_cost_cap spend b = (case bd_cost b of None \<Rightarrow> False | Some cap \<Rightarrow> spend > cap)"

definition soft_warning_band :: "cents \<Rightarrow> budget_def \<Rightarrow> int list \<Rightarrow> int option" where
  "soft_warning_band spend b pcts =
     (case bd_cost b of
        None \<Rightarrow> None
      | Some cap \<Rightarrow>
          if cap \<le> 0 then None
          else if spend > cap then None
          else let crossed = filter (\<lambda>p. 0 < p \<and> p < 100 \<and> spend * 100 \<ge> p * cap) pcts in
            if crossed = [] then None else Some (Max (set crossed)))"

section \<open>Definitions\<close>

definition to_concept :: "budget_def \<Rightarrow> py_exc + budget_concept" where
  "to_concept b = mk_concept (bd_tenant b) (bd_team b) (bd_project b) (bd_agent b) (bd_scope b)
     (bd_period b) (json_limit (bd_tokens b)) (json_limit (bd_cost b)) (bd_currency b)"

text \<open>The CHECK constraints of \<open>budget_definitions\<close>.\<close>

definition limits_ok :: "int option \<Rightarrow> int option \<Rightarrow> bool" where
  "limits_ok toks cost \<longleftrightarrow> (toks \<noteq> None \<or> cost \<noteq> None)
     \<and> (\<forall>n \<in> set_option toks. 0 \<le> n \<and> n \<le> MAX_BUDGET_TOKENS)
     \<and> (\<forall>n \<in> set_option cost. 0 \<le> n \<and> n \<le> MAX_BUDGET_COST_CENTS)"

text \<open>An id the caller gave, or a fresh one.\<close>

definition or_uuid4 :: "u4gen \<Rightarrow> ident option \<Rightarrow> db \<Rightarrow> ident \<times> db" where
  "or_uuid4 u4 given d = (case given of Some (c # cs) \<Rightarrow> (c # cs, d) | _ \<Rightarrow> uuid4 u4 d)"

definition create_budget ::
  "u4gen \<Rightarrow> ident \<Rightarrow> budget_concept \<Rightarrow> instant \<Rightarrow> ident option \<Rightarrow> ident option \<Rightarrow> db
     \<Rightarrow> py_exc + budget_def \<times> db" where
  "create_budget u4 sess c now policy_id budget_id d =
     (let (bid, d1) = or_uuid4 u4 budget_id d; (pid, d2) = or_uuid4 u4 policy_id d1;
          b = \<lparr>bd_id = bid, bd_tenant = bc_tenant c, bd_scope = bc_scope c, bd_team = bc_team c,
               bd_project = bc_project c, bd_agent = bc_agent c, bd_period = bc_period c,
               bd_tokens = bc_tokens c, bd_cost = bc_cost c, bd_currency = bc_currency c,
               bd_policy = pid, bd_created = now\<rparr>
      in bindR (rls_check sess (bd_tenant b)) (\<lambda>_.
         bindR (guardR (limits_ok (bd_tokens b) (bd_cost b) \<and> is_currency (bd_currency b)) IntegrityError) (\<lambda>_.
         bindR (guardR ((bd_tenant b, bd_policy b) \<notin> (\<lambda>x. (bd_tenant x, bd_policy x)) ` set (budgets d2)) IntegrityError) (\<lambda>_.
         bindR (insert_unique IntegrityError bd_id b (budgets d2)) (\<lambda>rows.
         Inr (b, d2\<lparr>budgets := rows\<rparr>))))))"

definition raise_budget_cost_cap :: "ident \<Rightarrow> ident \<Rightarrow> int \<Rightarrow> db \<Rightarrow> py_exc + db" where
  "raise_budget_cost_cap sess bid cap d =
     (let hit = (\<lambda>b. bd_tenant b = sess \<and> bd_id b = bid) in
      if (\<exists>b \<in> set (budgets d). hit b) \<and> \<not> (0 \<le> cap \<and> cap \<le> MAX_BUDGET_COST_CENTS)
      then Inl IntegrityError
      else Inr (d\<lparr>budgets := update_where hit (\<lambda>b. b\<lparr>bd_cost := Some cap\<rparr>) (budgets d)\<rparr>))"

definition get_budget :: "ident \<Rightarrow> ident \<Rightarrow> db \<Rightarrow> budget_def option" where
  "get_budget sess bid d = List.find (\<lambda>b. bd_tenant b = sess \<and> bd_id b = bid) (budgets d)"

definition list_budgets :: "ident \<Rightarrow> int \<Rightarrow> db \<Rightarrow> budget_def list" where
  "list_budgets sess limit d =
     take (nat (max 1 (min limit 100)))
       (sort_key bd_created (filter (\<lambda>b. bd_tenant b = sess) (budgets d)))"

definition touches :: "ident \<Rightarrow> ident \<Rightarrow> ident \<Rightarrow> budget_def \<Rightarrow> bool" where
  "touches team proj agent b = (case bd_scope b of
     STENANT \<Rightarrow> True
   | STEAM \<Rightarrow> bd_team b = team
   | SPROJECT \<Rightarrow> bd_project b = proj
   | SAGENT \<Rightarrow> bd_agent b = agent)"

definition budgets_for_event :: "ident \<Rightarrow> ident \<Rightarrow> ident \<Rightarrow> ident \<Rightarrow> db \<Rightarrow> budget_def list" where
  "budgets_for_event sess team proj agent d =
     filter (\<lambda>b. bd_tenant b = sess \<and> touches team proj agent b) (budgets d)"

section \<open>Spend\<close>

text \<open>The inner join with \<open>accounts\<close> is an existence test: an account id names one account.\<close>

definition expense_entry :: "ident \<Rightarrow> string \<Rightarrow> db \<Rightarrow> entry_row \<Rightarrow> bool" where
  "expense_entry sess cur d e = list_ex (\<lambda>a. acc_tenant a = sess \<and> acc_id a = le_account e
     \<and> acc_type a = EXPENSE \<and> acc_currency a = cur) (accounts d)"

definition in_scope :: "budget_scope \<Rightarrow> ident \<Rightarrow> ident \<Rightarrow> ident \<Rightarrow> entry_row \<Rightarrow> bool" where
  "in_scope sc team proj agent e = (case sc of
     STENANT \<Rightarrow> True
   | STEAM \<Rightarrow> le_team e = team
   | SPROJECT \<Rightarrow> le_project e = proj
   | SAGENT \<Rightarrow> le_agent e = agent)"

definition scope_spend_cents ::
  "ident \<Rightarrow> budget_scope \<Rightarrow> ident \<Rightarrow> ident \<Rightarrow> ident \<Rightarrow> ident \<Rightarrow> string \<Rightarrow> instant \<Rightarrow> instant \<Rightarrow> db \<Rightarrow> int" where
  "scope_spend_cents sess sc tenant team proj agent cur pstart pend d =
     total signed_cents (filter (\<lambda>e. le_tenant e = sess \<and> le_tenant e = tenant
        \<and> expense_entry sess cur d e \<and> pstart \<le> le_time e \<and> le_time e < pend
        \<and> in_scope sc team proj agent e) (entries d))"

section \<open>Enforcement state\<close>

definition state_key :: "bstate \<Rightarrow> ident \<times> ident \<times> string" where
  "state_key s = (bs_tenant s, bs_budget s, bs_bucket s)"

definition seed_version :: "ident \<Rightarrow> ident \<Rightarrow> ident \<Rightarrow> db \<Rightarrow> int" where
  "seed_version sess tenant budget d =
     (let vs = map bs_version (filter (\<lambda>s. bs_tenant s = sess \<and> bs_tenant s = tenant \<and> bs_budget s = budget) (bstates d))
      in if vs = [] then 0 else Max (set vs))"

definition get_or_create_state ::
  "u4gen \<Rightarrow> ident \<Rightarrow> ident \<Rightarrow> ident \<Rightarrow> string \<Rightarrow> instant \<Rightarrow> db \<Rightarrow> py_exc + bstate \<times> db" where
  "get_or_create_state u4 sess tenant budget bucket now d =
     (let (sid, d1) = uuid4 u4 d;
          s = \<lparr>bs_id = sid, bs_tenant = tenant, bs_budget = budget, bs_bucket = bucket, bs_state = Under,
               bs_enforced_version = None, bs_version = seed_version sess tenant budget d,
               bs_warned = None, bs_updated = now\<rparr>
      in bindR (rls_check sess tenant) (\<lambda>_.
         bindR (if state_key s \<in> state_key ` set (bstates d1) then Inr d1
                else bindR (insert_unique IntegrityError bs_id s (bstates d1)) (\<lambda>rows.
                     bindR (guardR ((budget, tenant) \<in> (\<lambda>b. (bd_id b, bd_tenant b)) ` set (budgets d1)) IntegrityError) (\<lambda>_.
                     Inr (d1\<lparr>bstates := rows\<rparr>)))) (\<lambda>d2.
         case List.find (\<lambda>x. bs_tenant x = sess \<and> state_key x = state_key s) (bstates d2) of
           None \<Rightarrow> Inl RuntimeError
         | Some x \<Rightarrow> Inr (x, d2))))"

definition bstate_hit :: "ident \<Rightarrow> ident \<Rightarrow> ident \<Rightarrow> string \<Rightarrow> bstate \<Rightarrow> bool" where
  "bstate_hit sess tenant budget bucket s \<longleftrightarrow> bs_tenant s = sess \<and> state_key s = (tenant, budget, bucket)"

definition conditional_transition ::
  "ident \<Rightarrow> ident \<Rightarrow> ident \<Rightarrow> string \<Rightarrow> enforcement \<Rightarrow> enforcement \<Rightarrow> bool \<Rightarrow> instant \<Rightarrow> db \<Rightarrow> int option \<times> db" where
  "conditional_transition sess tenant budget bucket from_state to_state set_enforced now d =
     (let hit = (\<lambda>s. bstate_hit sess tenant budget bucket s \<and> bs_state s = from_state);
          upd = (\<lambda>s. s\<lparr>bs_state := to_state, bs_version := bs_version s + 1, bs_updated := now,
                    bs_enforced_version := (if set_enforced then Some (bs_version s + 1) else None)\<rparr>)
      in (map_option (\<lambda>s. bs_version s + 1) (List.find hit (bstates d)),
          d\<lparr>bstates := update_where hit upd (bstates d)\<rparr>))"

definition try_transition_to_enforced :: "ident \<Rightarrow> ident \<Rightarrow> ident \<Rightarrow> string \<Rightarrow> instant \<Rightarrow> db \<Rightarrow> int option \<times> db" where
  "try_transition_to_enforced sess tenant budget bucket now d =
     conditional_transition sess tenant budget bucket Under Enforced True now d"

definition try_transition_to_under :: "ident \<Rightarrow> ident \<Rightarrow> ident \<Rightarrow> string \<Rightarrow> instant \<Rightarrow> db \<Rightarrow> int option \<times> db" where
  "try_transition_to_under sess tenant budget bucket now d =
     conditional_transition sess tenant budget bucket Enforced Under False now d"

definition try_bump_warned_pct :: "ident \<Rightarrow> ident \<Rightarrow> ident \<Rightarrow> string \<Rightarrow> int \<Rightarrow> instant \<Rightarrow> db \<Rightarrow> bool \<times> db" where
  "try_bump_warned_pct sess tenant budget bucket pct now d =
     (let hit = (\<lambda>s. bstate_hit sess tenant budget bucket s
            \<and> (case bs_warned s of None \<Rightarrow> True | Some w \<Rightarrow> w < pct))
      in (list_ex hit (bstates d),
          d\<lparr>bstates := update_where hit (\<lambda>s. s\<lparr>bs_warned := Some pct, bs_updated := now\<rparr>) (bstates d)\<rparr>))"

end
