(* ===== verification/Budget_Eval.thy ===== *)
theory Budget_Eval
  imports Budget_Engine
begin

text \<open>
  The budget engine's outbox, drainer, policy emission and evaluator
  (\<open>delta.budget_engine\<close>: outbox, drainer, emit, warnings, evaluator).
\<close>

section \<open>Outbox\<close>

definition bpo_key :: "outbox_row \<Rightarrow> ident \<times> ident \<times> int" where
  "bpo_key r = (ob_tenant r, ob_policy r, ob_version r)"

definition bpo_enqueue ::
  "u4gen \<Rightarrow> ident \<Rightarrow> ident \<Rightarrow> ident \<Rightarrow> ident \<Rightarrow> int \<Rightarrow> transition \<Rightarrow> (string \<times> json) list \<Rightarrow> instant \<Rightarrow> db \<Rightarrow> py_exc + db" where
  "bpo_enqueue u4 sess tenant budget policy version tr payload now d =
     (let (oid, d1) = uuid4 u4 d;
          r = \<lparr>ob_id = oid, ob_tenant = tenant, ob_subject = budget, ob_policy = policy, ob_version = version,
               ob_transition = tr, ob_payload = payload, ob_distribution = None, ob_state = Pending,
               ob_attempts = 0, ob_next = now, ob_error = None, ob_created = now\<rparr>
      in bindR (rls_check sess tenant) (\<lambda>_.
         bindR (guardR (1 \<le> version \<and> tr \<in> {TEnforce, TRefresh}) IntegrityError) (\<lambda>_.
         if bpo_key r \<in> bpo_key ` set (boutbox d1) then Inr d1
         else bindR (insert_unique IntegrityError ob_id r (boutbox d1)) (\<lambda>rows.
              bindR (guardR ((budget, tenant) \<in> (\<lambda>b. (bd_id b, bd_tenant b)) ` set (budgets d1)) IntegrityError) (\<lambda>_.
              Inr (d1\<lparr>boutbox := rows\<rparr>))))))"

definition bpo_due :: "ident \<Rightarrow> instant \<Rightarrow> outbox_row \<Rightarrow> bool" where
  "bpo_due sess now r \<longleftrightarrow> ob_tenant r = sess \<and> ob_state r = Pending \<and> ob_next r \<le> now"

definition bpo_due_outbox_ids :: "ident \<Rightarrow> instant \<Rightarrow> nat \<Rightarrow> outbox_row list \<Rightarrow> ident list" where
  "bpo_due_outbox_ids sess now limit rows =
     map ob_id (take limit (sort_key ob_created (filter (bpo_due sess now) rows)))"

definition bpo_claim_one :: "ident \<Rightarrow> instant \<Rightarrow> ident \<Rightarrow> outbox_row list \<Rightarrow> outbox_row option" where
  "bpo_claim_one sess now oid rows = List.find (\<lambda>r. bpo_due sess now r \<and> ob_id r = oid) rows"

definition bpo_mark_distributed :: "ident \<Rightarrow> ident \<Rightarrow> string \<Rightarrow> outbox_row list \<Rightarrow> py_exc + outbox_row list" where
  "bpo_mark_distributed sess oid dist rows =
     (if length dist > 64 then Inl DataError
      else Inr (update_where (row_of sess oid)
        (\<lambda>r. r\<lparr>ob_state := Delivered, ob_distribution := Some dist, ob_attempts := ob_attempts r + 1,
           ob_error := None\<rparr>) rows))"

definition bpo_mark_retry :: "ident \<Rightarrow> ident \<Rightarrow> string \<Rightarrow> instant \<Rightarrow> outbox_row list \<Rightarrow> outbox_row list" where
  "bpo_mark_retry sess oid err next rows = update_where (row_of sess oid)
     (\<lambda>r. r\<lparr>ob_attempts := ob_attempts r + 1, ob_next := next, ob_error := Some (take 512 err)\<rparr>) rows"

definition bpo_mark_failed :: "ident \<Rightarrow> ident \<Rightarrow> string \<Rightarrow> outbox_row list \<Rightarrow> outbox_row list" where
  "bpo_mark_failed sess oid err rows = update_where (row_of sess oid)
     (\<lambda>r. r\<lparr>ob_state := Failed, ob_attempts := ob_attempts r + 1, ob_error := Some (take 512 err)\<rparr>) rows"

section \<open>Drainer\<close>

definition bpo_backoff_at :: "int \<Rightarrow> engine_settings \<Rightarrow> instant \<Rightarrow> instant" where
  "bpo_backoff_at attempts st now =
     now + min (es_backoff_base st * 2 ^ nat (max 0 (attempts - 1))) (es_backoff_cap st)"

definition bpo_deliver_one ::
  "(json \<Rightarrow> string) \<Rightarrow> engine_settings \<Rightarrow> ident \<Rightarrow> instant \<Rightarrow> string + (string \<times> json) list \<Rightarrow> http_result
     \<Rightarrow> outbox_row \<Rightarrow> outbox_row list \<Rightarrow> py_exc + outbox_row list" where
  "bpo_deliver_one pystr st sess now sg h row rows =
     (case sg of
        Inl e \<Rightarrow> Inr (bpo_mark_failed sess (ob_id row) (''sign failed: '' @ e) rows)
      | Inr _ \<Rightarrow>
          (case publish_signed_policy pystr h of
             TransientPublishError e \<Rightarrow>
               (let attempts = ob_attempts row + 1 in
                if attempts \<ge> es_max_attempts st
                then Inr (bpo_mark_failed sess (ob_id row) (''retries exhausted: '' @ e) rows)
                else Inr (bpo_mark_retry sess (ob_id row) e (bpo_backoff_at attempts st now) rows))
           | PermanentPublishError e \<Rightarrow> Inr (bpo_mark_failed sess (ob_id row) e rows)
           | PublishCrash x \<Rightarrow> Inl x
           | Distributed i \<Rightarrow> bpo_mark_distributed sess (ob_id row) i rows))"

text \<open>What the environment does during one drain: the signing key may be missing, the
  snapshot read may fail, and each row's transaction meets a \<open>row_event\<close>.\<close>

record drain_env =
  dv_key :: bool
  dv_snapshot :: bool
  dv_row :: "ident \<Rightarrow> row_event"

definition bpo_drain_tenant ::
  "(json \<Rightarrow> string) \<Rightarrow> engine_settings \<Rightarrow> drain_env \<Rightarrow> ident \<Rightarrow> instant \<Rightarrow> db \<Rightarrow> db" where
  "bpo_drain_tenant pystr st env tenant now d =
     (if \<not> dv_key env then d
      else if \<not> dv_snapshot env \<or> tenant_session tenant \<noteq> Inr () then d
      else let ids = bpo_due_outbox_ids tenant now 64 (boutbox d) in
        d\<lparr>boutbox := drain_loop (bpo_claim_one tenant now) (bpo_deliver_one pystr st tenant now)
             (dv_row env) ids (boutbox d)\<rparr>)"

section \<open>Evaluation\<close>

definition PLACEHOLDER_SIGNATURE :: string where
  "PLACEHOLDER_SIGNATURE = ''AAAAAAAAAAAA.BBBBBBBBBBBB.CCCCCCCCCCCC''"

definition build_policy_payload :: "budget_def \<Rightarrow> int \<Rightarrow> instant \<Rightarrow> py_exc + (string \<times> json) list" where
  "build_policy_payload b version eff =
     bindR (to_concept b) (\<lambda>c.
     budget_concept_to_policy_payload c (bd_policy b) version (Aware eff) PLACEHOLDER_SIGNATURE)"

fun transition_str :: "transition \<Rightarrow> string" where
  "transition_str TEnforce = ''enforce''"
| "transition_str TRefresh = ''refresh''"
| "transition_str TKill = ''kill''"
| "transition_str TClear = ''clear''"

definition budget_enqueue ::
  "(string \<Rightarrow> string) \<Rightarrow> u4gen \<Rightarrow> ident \<Rightarrow> budget_def \<Rightarrow> int \<Rightarrow> transition \<Rightarrow> instant \<Rightarrow> db \<Rightarrow> py_exc + db" where
  "budget_enqueue sha u4 sess b version tr now d =
     bindR (build_policy_payload b version now) (\<lambda>payload.
     bindR (bpo_enqueue u4 sess (bd_tenant b) (bd_id b) (bd_policy b) version tr payload now d) (\<lambda>d1.
     bindR (append_history sha u4 sess (bd_tenant b) ''budget_enforcement'' (bd_id b) (transition_str tr)
       ''budget-engine'' now (Some (''policy_id='' @ bd_policy b @ '' version='' @ dec_int version
         @ '' scope='' @ scope_value (bd_scope b))) d1) (\<lambda>(_, d2).
     Inr d2)))"

text \<open>The outcome of evaluating one budget: a decision was enqueued, or an advisory warning
  was logged, or nothing.\<close>

datatype eval_outcome = Decided transition int | Warned int | Quiet

definition evaluate_budget ::
  "(string \<Rightarrow> string) \<Rightarrow> u4gen \<Rightarrow> engine_settings \<Rightarrow> ident \<Rightarrow> budget_def \<Rightarrow> instant \<Rightarrow> db \<Rightarrow> py_exc + eval_outcome \<times> db" where
  "evaluate_budget sha u4 st sess b now d =
     (let pstart = period_start (bd_period b) now; pend = period_end (bd_period b) now;
          bucket = period_bucket_label (bd_period b) now;
          spend = scope_spend_cents sess (bd_scope b) (bd_tenant b) (bd_team b) (bd_project b) (bd_agent b)
            (bd_currency b) pstart pend d in
      bindR (get_or_create_state u4 sess (bd_tenant b) (bd_id b) bucket now d) (\<lambda>(s, d1).
      let over = is_over_cost_cap spend b in
      if over \<and> bs_state s = Under then
        (let (v, d2) = try_transition_to_enforced sess (bd_tenant b) (bd_id b) bucket now d1 in
         case v of
           None \<Rightarrow> Inr (Quiet, d2)
         | Some version \<Rightarrow>
             bindR (budget_enqueue sha u4 sess b version TEnforce now d2) (\<lambda>d3.
             Inr (Decided TEnforce version, d3)))
      else if \<not> over \<and> bs_state s = Enforced then
        (let (v, d2) = try_transition_to_under sess (bd_tenant b) (bd_id b) bucket now d1 in
         case v of
           None \<Rightarrow> Inr (Quiet, d2)
         | Some version \<Rightarrow>
             bindR (budget_enqueue sha u4 sess b version TRefresh now d2) (\<lambda>d3.
             Inr (Decided TRefresh version, d3)))
      else
        (case soft_warning_band spend b (es_warning_pcts st) of
           None \<Rightarrow> Inr (Quiet, d1)
         | Some band \<Rightarrow>
             (let (bumped, d2) = try_bump_warned_pct sess (bd_tenant b) (bd_id b) bucket band now d1 in
              Inr (if bumped then Warned band else Quiet, d2)))))"

definition evaluate_txn ::
  "(string \<Rightarrow> string) \<Rightarrow> u4gen \<Rightarrow> engine_settings \<Rightarrow> usage_record \<Rightarrow> instant \<Rightarrow> db \<Rightarrow> py_exc + db" where
  "evaluate_txn sha u4 st r now d =
     bindR (tenant_session (u_tenant r)) (\<lambda>_.
     foldR (\<lambda>b x. bindR (evaluate_budget sha u4 st (u_tenant r) b now x) (\<lambda>(_, y). Inr y))
       (budgets_for_event (u_tenant r) (u_team r) (u_project r) (u_agent r) d) d)"

text \<open>\<open>evaluate_after_post\<close>: the evaluation's own transaction may fail (\<open>fault\<close>); nothing
  of it is committed then and nothing is raised.\<close>

definition evaluate_after_post ::
  "(string \<Rightarrow> string) \<Rightarrow> u4gen \<Rightarrow> (json \<Rightarrow> string) \<Rightarrow> engine_settings \<Rightarrow> py_exc option \<Rightarrow> drain_env
     \<Rightarrow> usage_record \<Rightarrow> instant \<Rightarrow> db \<Rightarrow> db" where
  "evaluate_after_post sha u4 pystr st fault env r now d =
     (if \<not> es_enabled st then d
      else case (case fault of Some x \<Rightarrow> Inl x | None \<Rightarrow> evaluate_txn sha u4 st r now d) of
        Inl _ \<Rightarrow> d
      | Inr d1 \<Rightarrow> bpo_drain_tenant pystr st env (u_tenant r) now d1)"

section \<open>The delivery contract\<close>

lemmas bpo_marks = bpo_mark_distributed_def bpo_mark_retry_def bpo_mark_failed_def

interpretation bpo: delivery_outbox bpo_claim_one "bpo_deliver_one pystr st" "es_max_attempts st" pystr
  for pystr st
proof
  show "r \<in> set rows \<and> row_of sess oid r \<and> ob_state r = Pending \<and> ob_next r \<le> now"
    if "bpo_claim_one sess now oid rows = Some r" for sess now oid rows r
    using find_eq_Some_in [OF that [unfolded bpo_claim_one_def]] by (auto simp: bpo_due_def row_of_def)
  show "\<exists>s. bpo_claim_one sess now oid rows = Some s"
    if "r \<in> set rows" "row_of sess oid r" "ob_state r = Pending" "ob_next r \<le> now" for r rows sess oid now
    using that by (auto simp: bpo_claim_one_def bpo_due_def row_of_def find_Some_iff2 find_None_iff
        simp flip: not_None_eq)
  show "\<exists>f. rows' = update_where (row_of sess (ob_id r)) f rows \<and> (\<forall>x. decision (f x) = decision x)
      \<and> (\<forall>x. ob_attempts (f x) = ob_attempts x + 1)
      \<and> (\<forall>x. ob_state (f x) = Pending \<longrightarrow> ob_attempts r + 1 < es_max_attempts st)"
    if "bpo_deliver_one pystr st sess now sg h r rows = Inr rows'" for sess now sg h r rows rows'
    using that
    by (auto simp: bpo_deliver_one_def bpo_marks Let_def decision_def
        split: sum.splits publish_outcome.splits if_splits intro!: exI)
  show "\<exists>f. bpo_deliver_one pystr st sess now (Inr pol) h r rows = Inr (update_where (row_of sess (ob_id r)) f rows)
      \<and> (\<forall>x. ob_state (f x) = Delivered \<and> decision (f x) = decision x)"
    if "publish_signed_policy pystr h = Distributed i" "length i \<le> 64" for h i sess now pol r rows
    using that by (auto simp: bpo_deliver_one_def bpo_marks decision_def intro!: exI)
qed

end
