(* ===== verification/Budget_Reach.thy ===== *)
theory Budget_Reach
  imports Budget_Eval
begin

text \<open>
  The behaviour of a budget over any sequence of evaluations whose clock does not run
  backwards. Published versions are consecutive from 1, so no two decisions share a version,
  and every row that says it is enforced has its decision in the outbox.
\<close>

section \<open>Single operations\<close>

lemma get_or_create_state_Inr:
  assumes "get_or_create_state u4 sess tenant budget bucket now d = Inr (s, d1)"
  shows "tenant = sess" "state_key s = (tenant, budget, bucket)" "s \<in> set (bstates d1)"
    and "d1 = d\<lparr>uuid_ctr := Suc (uuid_ctr d), bstates := bstates d1\<rparr>"
    and "bstates d1 = bstates d \<or>
      bstates d1 = bstates d @ [s] \<and> (tenant, budget, bucket) \<notin> state_key ` set (bstates d)
      \<and> bs_state s = Under \<and> bs_version s = seed_version sess tenant budget d \<and> bs_enforced_version s = None"
proof -
  define n where "n = \<lparr>bs_id = u4 (uuid_ctr d), bs_tenant = tenant, bs_budget = budget, bs_bucket = bucket,
    bs_state = Under, bs_enforced_version = None, bs_version = seed_version sess tenant budget d,
    bs_warned = None, bs_updated = now\<rparr>"
  have key: "state_key n = (tenant, budget, bucket)" by (simp add: n_def state_key_def)
  have t: "tenant = sess"
    using assms by (auto simp: get_or_create_state_def Let_def uuid4_def bindR_eq_Inr)
  then show "tenant = sess" .
  consider (old) "(tenant, budget, bucket) \<in> state_key ` set (bstates d)"
      "d1 = d\<lparr>uuid_ctr := Suc (uuid_ctr d)\<rparr>"
      "List.find (\<lambda>x. bs_tenant x = sess \<and> state_key x = state_key n) (bstates d) = Some s"
    | (new) "(tenant, budget, bucket) \<notin> state_key ` set (bstates d)"
      "d1 = d\<lparr>uuid_ctr := Suc (uuid_ctr d), bstates := bstates d @ [n]\<rparr>"
      "List.find (\<lambda>x. bs_tenant x = sess \<and> state_key x = state_key n) (bstates d @ [n]) = Some s"
    using assms
    by (auto simp: get_or_create_state_def Let_def uuid4_def bindR_eq_Inr n_def [symmetric] key
        table_simps split: if_splits option.splits)
  note cs = this
  show "state_key s = (tenant, budget, bucket)"
    by (cases rule: cs) (auto dest!: find_eq_Some_in simp: key)
  show "s \<in> set (bstates d1)" by (cases rule: cs) (auto dest!: find_eq_Some_in)
  show "d1 = d\<lparr>uuid_ctr := Suc (uuid_ctr d), bstates := bstates d1\<rparr>" by (cases rule: cs) auto
  show "bstates d1 = bstates d \<or>
      bstates d1 = bstates d @ [s] \<and> (tenant, budget, bucket) \<notin> state_key ` set (bstates d)
      \<and> bs_state s = Under \<and> bs_version s = seed_version sess tenant budget d \<and> bs_enforced_version s = None"
  proof (cases rule: cs)
    case new
    have "\<not> (bs_tenant x = sess \<and> state_key x = state_key n)" if "x \<in> set (bstates d)" for x
      using new(1) that key by (metis image_eqI)
    then have "s = n"
      using new(3) find_snoc_fresh [of "bstates d" "\<lambda>x. bs_tenant x = sess \<and> state_key x = state_key n" n] t
      by (auto simp: n_def split: if_splits)
    with new show ?thesis by (simp add: n_def)
  qed simp
qed

text \<open>With unique keys the conditional transition moves exactly the row that was read.\<close>

lemma bstate_hit_unique:
  assumes "distinct (map state_key rows)" "s \<in> set rows" "state_key s = (sess, budget, bucket)"
  shows "x \<in> set rows \<Longrightarrow> bstate_hit sess sess budget bucket x \<longleftrightarrow> x = s"
  using assms distinct_key_unique [of state_key rows x s]
  by (auto simp: bstate_hit_def state_key_def)

lemma find_unique:
  assumes "s \<in> set rows" "\<And>x. x \<in> set rows \<Longrightarrow> P x \<longleftrightarrow> x = s"
  shows "List.find P rows = Some s"
  using assms by (induction rows) auto

lemma conditional_transition_row:
  assumes "distinct (map state_key (bstates d))" "s \<in> set (bstates d)"
    "state_key s = (sess, budget, bucket)" "bs_state s = from_state"
  shows "conditional_transition sess sess budget bucket from_state to_state enf now d
    = (Some (bs_version s + 1), d\<lparr>bstates := update_where (\<lambda>x. x = s)
        (\<lambda>x. x\<lparr>bs_state := to_state, bs_version := bs_version x + 1, bs_updated := now,
           bs_enforced_version := (if enf then Some (bs_version x + 1) else None)\<rparr>) (bstates d)\<rparr>)"
proof -
  let ?P = "\<lambda>x. bstate_hit sess sess budget bucket x \<and> bs_state x = from_state"
  have "?P x \<longleftrightarrow> x = s" if "x \<in> set (bstates d)" for x
    using bstate_hit_unique [OF assms(1-3) that] assms(4) by auto
  then have "List.find ?P (bstates d) = Some s"
    and "update_where ?P f (bstates d) = update_where (\<lambda>x. x = s) f (bstates d)" for f
    using assms(2) by (auto intro!: find_unique update_where_cong)
  then show ?thesis by (simp add: conditional_transition_def Let_def)
qed

definition policy_rows :: "ident \<Rightarrow> ident \<Rightarrow> outbox_row list \<Rightarrow> outbox_row list" where
  "policy_rows t p rows = filter (\<lambda>o'. ob_tenant o' = t \<and> ob_policy o' = p) rows"

definition decision_row :: "outbox_row \<Rightarrow> ident \<Rightarrow> ident \<Rightarrow> ident \<Rightarrow> int \<Rightarrow> transition \<Rightarrow> (string \<times> json) list \<Rightarrow> bool" where
  "decision_row r t subj p v tr payload \<longleftrightarrow> ob_tenant r = t \<and> ob_subject r = subj \<and> ob_policy r = p
     \<and> ob_version r = v \<and> ob_transition r = tr \<and> ob_payload r = payload \<and> ob_state r = Pending \<and> ob_attempts r = 0"

lemma bpo_enqueue_Inr:
  assumes "bpo_enqueue u4 sess t i p v tr payload now d = Inr d'"
  obtains (dup) "t = sess" "1 \<le> v" "(t, p, v) \<in> bpo_key ` set (boutbox d)" "d' = d\<lparr>uuid_ctr := Suc (uuid_ctr d)\<rparr>"
  | (queued) r where "t = sess" "1 \<le> v" "(t, p, v) \<notin> bpo_key ` set (boutbox d)"
      "d' = d\<lparr>uuid_ctr := Suc (uuid_ctr d), boutbox := boutbox d @ [r]\<rparr>" "decision_row r t i p v tr payload"
      "ob_id r \<notin> ob_id ` set (boutbox d)"
proof -
  define r where "r = \<lparr>ob_id = u4 (uuid_ctr d), ob_tenant = t, ob_subject = i, ob_policy = p, ob_version = v,
    ob_transition = tr, ob_payload = payload, ob_distribution = None, ob_state = Pending,
    ob_attempts = 0, ob_next = now, ob_error = None, ob_created = now\<rparr>"
  have r: "bpo_key r = (t, p, v)" "decision_row r t i p v tr payload"
    by (simp_all add: r_def bpo_key_def decision_row_def)
  note e = assms [unfolded bpo_enqueue_def uuid4_def Let_def case_prod_conv, folded r_def]
  show thesis
  proof (cases "bpo_key r \<in> bpo_key ` set (boutbox d)")
    case True
    with e r show thesis by (intro dup) (auto simp: bindR_eq_Inr)
  next
    case False
    with e r show thesis by (intro queued [of r]) (auto simp: bindR_eq_Inr table_simps)
  qed
qed

lemma append_history_frame:
  assumes "append_history sha u4 sess t ty en ac actor now note d = Inr (r, d')"
  shows "bstates d' = bstates d" "entries d' = entries d" "boutbox d' = boutbox d" "kstates d' = kstates d"
    "koutbox d' = koutbox d" "budgets d' = budgets d" "accounts d' = accounts d" "auths d' = auths d"
    "transactions d' = transactions d" "allocs d' = allocs d" "targets d' = targets d" "dead_letters d' = dead_letters d"
  by (simp_all add: append_history_Inr(1) [OF assms])

lemma budget_enqueue_Inr:
  assumes "budget_enqueue sha u4 sess b v tr now d = Inr d'"
  shows "bstates d' = bstates d" "entries d' = entries d" "bd_tenant b = sess" "1 \<le> v"
    and "(sess, bd_policy b, v) \<in> bpo_key ` set (boutbox d) \<and> boutbox d' = boutbox d \<or>
      (sess, bd_policy b, v) \<notin> bpo_key ` set (boutbox d) \<and> (\<exists>r payload. boutbox d' = boutbox d @ [r]
        \<and> decision_row r sess (bd_id b) (bd_policy b) v tr payload \<and> build_policy_payload b v now = Inr payload)"
proof -
  from assms obtain payload d1 h where p: "build_policy_payload b v now = Inr payload"
    and q: "bpo_enqueue u4 sess (bd_tenant b) (bd_id b) (bd_policy b) v tr payload now d = Inr d1"
    and a: "append_history sha u4 sess (bd_tenant b) ''budget_enforcement'' (bd_id b) (transition_str tr)
      ''budget-engine'' now (Some (''policy_id='' @ bd_policy b @ '' version='' @ dec_int v
         @ '' scope='' @ scope_value (bd_scope b))) d1 = Inr (h, d')"
    by (auto simp: budget_enqueue_def bindR_eq_Inr)
  note f = append_history_frame [OF a]
  show "bstates d' = bstates d" "entries d' = entries d" "bd_tenant b = sess" "1 \<le> v"
    using q by (cases rule: bpo_enqueue_Inr; simp add: f)+
  show "(sess, bd_policy b, v) \<in> bpo_key ` set (boutbox d) \<and> boutbox d' = boutbox d \<or>
      (sess, bd_policy b, v) \<notin> bpo_key ` set (boutbox d) \<and> (\<exists>r payload. boutbox d' = boutbox d @ [r]
        \<and> decision_row r sess (bd_id b) (bd_policy b) v tr payload \<and> build_policy_payload b v now = Inr payload)"
    using q by (cases rule: bpo_enqueue_Inr) (use p in \<open>auto simp: f\<close>)
qed

text \<open>The two ways an evaluation ends: a decision on the row's edge, or no state change.\<close>

definition budget_spend :: "ident \<Rightarrow> budget_def \<Rightarrow> instant \<Rightarrow> db \<Rightarrow> int" where
  "budget_spend sess b now d = scope_spend_cents sess (bd_scope b) (bd_tenant b) (bd_team b) (bd_project b)
     (bd_agent b) (bd_currency b) (period_start (bd_period b) now) (period_end (bd_period b) now) d"

definition over_cap :: "ident \<Rightarrow> budget_def \<Rightarrow> instant \<Rightarrow> db \<Rightarrow> bool" where
  "over_cap sess b now d = is_over_cost_cap (budget_spend sess b now d) b"

definition flipped :: "bool \<Rightarrow> instant \<Rightarrow> bstate \<Rightarrow> bstate" where
  "flipped over now x = x\<lparr>bs_state := (if over then Enforced else Under), bs_version := bs_version x + 1,
     bs_updated := now, bs_enforced_version := (if over then Some (bs_version x + 1) else None)\<rparr>"

lemma flipped_funs:
  "flipped True now = (\<lambda>x. x\<lparr>bs_state := Enforced, bs_version := bs_version x + 1, bs_updated := now,
     bs_enforced_version := Some (bs_version x + 1)\<rparr>)"
  "flipped False now = (\<lambda>x. x\<lparr>bs_state := Under, bs_version := bs_version x + 1, bs_updated := now,
     bs_enforced_version := None\<rparr>)"
  by (simp_all add: flipped_def fun_eq_iff)

lemma evaluate_budget_cases:
  assumes ev: "evaluate_budget sha u4 st sess b now d = Inr (oc, d')" and dist: "distinct (map state_key (bstates d))"
  obtains s d1 where
    "get_or_create_state u4 sess (bd_tenant b) (bd_id b) (period_bucket_label (bd_period b) now) now d = Inr (s, d1)"
    "bs_state s \<noteq> (if over_cap sess b now d then Enforced else Under)"
    "oc = Decided (if over_cap sess b now d then TEnforce else TRefresh) (bs_version s + 1)"
    "budget_enqueue sha u4 sess b (bs_version s + 1) (if over_cap sess b now d then TEnforce else TRefresh) now
       (d1\<lparr>bstates := update_where (\<lambda>x. x = s) (flipped (over_cap sess b now d) now) (bstates d1)\<rparr>) = Inr d'"
  | s d1 P pct where
    "get_or_create_state u4 sess (bd_tenant b) (bd_id b) (period_bucket_label (bd_period b) now) now d = Inr (s, d1)"
    "bs_state s = (if over_cap sess b now d then Enforced else Under)"
    "\<forall>tr v. oc \<noteq> Decided tr v"
    "d' = d1\<lparr>bstates := update_where P (\<lambda>x. x\<lparr>bs_warned := Some pct, bs_updated := now\<rparr>) (bstates d1)\<rparr>"
proof -
  let ?over = "over_cap sess b now d" and ?bk = "period_bucket_label (bd_period b) now"
  from ev obtain s d1 where g: "get_or_create_state u4 sess (bd_tenant b) (bd_id b) ?bk now d = Inr (s, d1)"
    by (auto simp: evaluate_budget_def Let_def bindR_eq_Inr)
  note gf = get_or_create_state_Inr [OF g]
  have dist1: "distinct (map state_key (bstates d1))"
    using gf(5) dist gf(2) by auto
  note ct = conditional_transition_row [OF dist1 gf(3), of sess "bd_id b" ?bk]
  have k: "state_key s = (sess, bd_id b, ?bk)" using gf(1,2) by simp
  show thesis
  proof (cases "bs_state s = (if ?over then Enforced else Under)")
    case False
    then consider (e) "?over" "bs_state s = Under" | (r) "\<not> ?over" "bs_state s = Enforced"
      by (cases "bs_state s") (auto split: if_splits)
    then show thesis
    proof cases
      case e
      then show thesis
        using ev g gf(1) ct [OF k e(2), of Enforced True now] that(1) [of s d1]
        by (auto simp: evaluate_budget_def Let_def bindR_eq_Inr try_transition_to_enforced_def over_cap_def
            budget_spend_def flipped_funs)
    next
      case r
      then show thesis
        using ev g gf(1) ct [OF k r(2), of Under False now] that(1) [of s d1]
        by (auto simp: evaluate_budget_def Let_def bindR_eq_Inr try_transition_to_under_def over_cap_def
            budget_spend_def flipped_funs)
    qed
  next
    case True
    then have "(\<forall>tr v. oc \<noteq> Decided tr v) \<and> (d' = d1 \<or> (\<exists>P pct. d' = d1\<lparr>bstates :=
        update_where P (\<lambda>x. x\<lparr>bs_warned := Some pct, bs_updated := now\<rparr>) (bstates d1)\<rparr>))"
      using ev g
      by (auto simp: evaluate_budget_def Let_def over_cap_def budget_spend_def try_bump_warned_pct_def
          split: if_splits option.splits)
    moreover have "d1 = d1\<lparr>bstates := update_where (\<lambda>_. False) f (bstates d1)\<rparr>" for f
      by (simp add: update_where_none)
    ultimately show thesis using that(2) [OF g True] by metis
  qed
qed

section \<open>Versions\<close>

definition budget_states :: "budget_def \<Rightarrow> db \<Rightarrow> bstate list" where
  "budget_states b d = filter (\<lambda>s. bs_tenant s = bd_tenant b \<and> bs_budget s = bd_id b) (bstates d)"

definition top_version :: "budget_def \<Rightarrow> db \<Rightarrow> int" where
  "top_version b d = (if budget_states b d = [] then 0 else Max (bs_version ` set (budget_states b d)))"

lemma seed_version_top: "bd_tenant b = sess \<Longrightarrow> seed_version sess sess (bd_id b) d = top_version b d"
proof -
  assume "bd_tenant b = sess"
  then have "filter (\<lambda>s. bs_tenant s = sess \<and> bs_tenant s = sess \<and> bs_budget s = bd_id b) (bstates d) = budget_states b d"
    unfolding budget_states_def by (intro filter_cong) auto
  then show ?thesis by (simp add: seed_version_def Let_def top_version_def)
qed

lemma top_version_ge: "s \<in> set (budget_states b d) \<Longrightarrow> bs_version s \<le> top_version b d"
  by (auto simp: top_version_def)

lemma top_version_eqI:
  assumes "s \<in> set (budget_states b d)" "bs_version s = v" "\<And>x. x \<in> set (budget_states b d) \<Longrightarrow> bs_version x \<le> v"
  shows "top_version b d = v"
  using assms by (auto simp: top_version_def intro!: Max_eqI)

text \<open>
  The invariant at clock \<open>T\<close>: the versions queued for the policy are 1 up to the highest
  version of the budget's rows; a row whose window can still be current is the current one
  and has that highest version; and an enforced row names a queued enforce decision.
\<close>

definition versions_ok :: "budget_def \<Rightarrow> instant \<Rightarrow> db \<Rightarrow> bool" where
  "versions_ok b T d \<longleftrightarrow> 0 \<le> T \<and> distinct (map state_key (bstates d))
     \<and> map ob_version (policy_rows (bd_tenant b) (bd_policy b) (boutbox d)) = [1..top_version b d]
     \<and> 0 \<le> top_version b d
     \<and> (\<forall>s \<in> set (budget_states b d). \<forall>now \<ge> T. bs_bucket s = period_bucket_label (bd_period b) now
          \<longrightarrow> bs_bucket s = period_bucket_label (bd_period b) T \<and> bs_version s = top_version b d)
     \<and> (\<forall>s \<in> set (budget_states b d). bs_state s = Enforced \<longrightarrow>
          (\<exists>r \<in> set (policy_rows (bd_tenant b) (bd_policy b) (boutbox d)).
             ob_transition r = TEnforce \<and> bs_enforced_version s = Some (ob_version r)))"

lemma versions_ok_create:
  assumes ok: "versions_ok b T d" and T: "T \<le> now"
    and g: "get_or_create_state u4 sess (bd_tenant b) (bd_id b) (period_bucket_label (bd_period b) now) now d = Inr (s, d1)"
  shows "versions_ok b now d1" and "bs_version s = top_version b d1" and "s \<in> set (budget_states b d1)"
    and "top_version b d1 = top_version b d"
proof -
  note gf = get_or_create_state_Inr [OF g]
  let ?L = "period_bucket_label (bd_period b)"
  have t: "bd_tenant b = sess" using gf(1) by simp
  have s: "bs_tenant s = sess" "bs_budget s = bd_id b" "bs_bucket s = ?L now"
    using gf(1,2) by (auto simp: state_key_def)
  show in1: "s \<in> set (budget_states b d1)" using gf(3) s t by (simp add: budget_states_def)
  have box: "boutbox d1 = boutbox d" using gf(4) by (metis db.select_convs(7) db.surjective db.update_convs(6,14))
  have cases: "budget_states b d1 = budget_states b d \<and> s \<in> set (budget_states b d) \<and> bstates d1 = bstates d
      \<or> budget_states b d1 = budget_states b d @ [s] \<and> bs_version s = top_version b d \<and> bs_state s = Under
        \<and> bstates d1 = bstates d @ [s] \<and> state_key s \<notin> state_key ` set (bstates d)"
    using gf(5) in1 s t seed_version_top [OF t, of d] gf(2) by (auto simp: budget_states_def)
  have v: "bs_version s = top_version b d"
    using cases ok T s(3) by (auto simp: versions_ok_def)
  show top: "top_version b d1 = top_version b d"
    using cases v top_version_ge [of _ b d] in1
    by (intro top_version_eqI [of s]) auto
  show "bs_version s = top_version b d1" using v top by simp
  have old: "bs_bucket x = ?L now \<and> bs_version x = top_version b d"
    if x: "x \<in> set (budget_states b d)" "now \<le> n" "bs_bucket x = ?L n" for x n
  proof -
    have "bs_bucket x = ?L T" "bs_version x = top_version b d" "0 \<le> T"
      using ok x T unfolding versions_ok_def by (meson order_trans)+
    moreover have "?L now = ?L T"
      using period_bucket_label_between [of T now n "bd_period b"] calculation T x(2,3) by simp
    ultimately show ?thesis by simp
  qed
  have "distinct (map state_key (bstates d1))"
    using cases ok by (auto simp: versions_ok_def)
  moreover have "\<forall>x \<in> set (budget_states b d1). \<forall>n \<ge> now. bs_bucket x = ?L n
      \<longrightarrow> bs_bucket x = ?L now \<and> bs_version x = top_version b d"
    using cases old s(3) v by auto
  moreover have "\<forall>x \<in> set (budget_states b d1). bs_state x = Enforced \<longrightarrow> x \<in> set (budget_states b d)"
    using cases by auto
  ultimately show "versions_ok b now d1"
    using ok T unfolding versions_ok_def box top by auto
qed

lemma budget_states_update:
  assumes "\<And>x. bs_tenant (f x) = bs_tenant x \<and> bs_budget (f x) = bs_budget x"
  shows "budget_states b (d\<lparr>bstates := update_where P f (bstates d)\<rparr>) = update_where P f (budget_states b d)"
proof -
  have "filter Q (update_where P f rows) = update_where P f (filter Q rows)"
    if "\<And>x. Q (f x) = Q x" for Q rows
    using that by (induction rows) auto
  then show ?thesis using assms by (simp add: budget_states_def)
qed

lemma state_keys_update:
  "(\<And>x. state_key (f x) = state_key x) \<Longrightarrow> map state_key (update_where P f rows) = map state_key rows"
  by (intro map_update_where_frame)

lemma policy_rows_append: "policy_rows t p (xs @ ys) = policy_rows t p xs @ policy_rows t p ys"
  by (simp add: policy_rows_def)

lemma decision_set:
  assumes "map decision xs = map decision ys" "r \<in> set ys"
  obtains r' where "r' \<in> set xs" "decision r' = decision r"
proof -
  have "decision r \<in> set (map decision xs)" using assms by simp
  then show thesis using that by auto
qed

lemma decision_versions:
  assumes "map decision xs = map decision ys"
  shows "map ob_version xs = map ob_version ys"
proof -
  have "map ob_version zs = map (fst \<circ> snd \<circ> snd \<circ> snd \<circ> snd) (map decision zs)" for zs
    by (simp add: decision_def)
  with assms show ?thesis by metis
qed

text \<open>Steps of other parts leave the invariant: they may move the clock forward, deliver rows,
  post to the ledger or evaluate other budgets.\<close>

definition unrelated :: "budget_def \<Rightarrow> db \<Rightarrow> db \<Rightarrow> bool" where
  "unrelated b d d' \<longleftrightarrow> budget_states b d' = budget_states b d \<and> distinct (map state_key (bstates d'))
     \<and> map decision (policy_rows (bd_tenant b) (bd_policy b) (boutbox d'))
       = map decision (policy_rows (bd_tenant b) (bd_policy b) (boutbox d))"

lemma versions_ok_unrelated:
  assumes ok: "versions_ok b T d" and T: "T \<le> T'" and u: "unrelated b d d'"
  shows "versions_ok b T' d'"
proof -
  let ?L = "period_bucket_label (bd_period b)"
  let ?q = "policy_rows (bd_tenant b) (bd_policy b) (boutbox d)"
    and ?q' = "policy_rows (bd_tenant b) (bd_policy b) (boutbox d')"
  have bs: "budget_states b d' = budget_states b d" and keys: "distinct (map state_key (bstates d'))"
    and dec: "map decision ?q' = map decision ?q"
    using u by (simp_all add: unrelated_def)
  have top: "top_version b d' = top_version b d" by (simp add: top_version_def bs)
  have cur: "bs_bucket s = ?L T' \<and> bs_version s = top_version b d"
    if s: "s \<in> set (budget_states b d)" "T' \<le> n" "bs_bucket s = ?L n" for s n
  proof -
    have "bs_bucket s = ?L T" "bs_version s = top_version b d" "0 \<le> T"
      using ok s T unfolding versions_ok_def by (meson order_trans)+
    moreover have "?L T' = ?L T"
      using period_bucket_label_between [of T T' n "bd_period b"] calculation T s(2,3) by simp
    ultimately show ?thesis by simp
  qed
  have enf: "\<exists>r \<in> set ?q'. ob_transition r = TEnforce \<and> bs_enforced_version s = Some (ob_version r)"
    if s: "s \<in> set (budget_states b d)" "bs_state s = Enforced" for s
  proof -
    obtain r where r: "r \<in> set ?q" "ob_transition r = TEnforce" "bs_enforced_version s = Some (ob_version r)"
      using ok s unfolding versions_ok_def by blast
    from decision_set [OF dec r(1)] obtain r' where "r' \<in> set ?q'" "decision r' = decision r" .
    with r(2,3) show ?thesis by (auto simp: decision_def)
  qed
  show ?thesis
    using ok T keys cur enf decision_versions [OF dec] unfolding versions_ok_def bs top by auto
qed

text \<open>A decision takes the next version, which nothing in the outbox has.\<close>

lemma versions_ok_decide:
  assumes ok: "versions_ok b now d1" and s: "s \<in> set (budget_states b d1)" "bs_version s = top_version b d1"
    "bs_bucket s = period_bucket_label (bd_period b) now"
    and q: "budget_enqueue sha u4 (bd_tenant b) b (bs_version s + 1) tr now
       (d1\<lparr>bstates := update_where (\<lambda>x. x = s) (flipped over now) (bstates d1)\<rparr>) = Inr d'"
    and tr: "tr = (if over then TEnforce else TRefresh)"
  shows "versions_ok b now d'" and "top_version b d' = top_version b d1 + 1"
    and "\<exists>r payload. boutbox d' = boutbox d1 @ [r]
      \<and> decision_row r (bd_tenant b) (bd_id b) (bd_policy b) (top_version b d1 + 1) tr payload
      \<and> build_policy_payload b (top_version b d1 + 1) now = Inr payload"
proof -
  let ?V = "top_version b d1" and ?L = "period_bucket_label (bd_period b)"
  let ?d2 = "d1\<lparr>bstates := update_where (\<lambda>x. x = s) (flipped over now) (bstates d1)\<rparr>"
  note bq = budget_enqueue_Inr [OF q]
  have rows: "budget_states b d' = update_where (\<lambda>x. x = s) (flipped over now) (budget_states b d1)"
  proof -
    have "budget_states b d' = budget_states b ?d2" using bq(1) by (simp add: budget_states_def)
    also have "\<dots> = update_where (\<lambda>x. x = s) (flipped over now) (budget_states b d1)"
      by (rule budget_states_update) (simp add: flipped_def)
    finally show ?thesis .
  qed
  have fresh: "(bd_tenant b, bd_policy b, ?V + 1) \<notin> bpo_key ` set (boutbox d1)"
  proof
    assume "(bd_tenant b, bd_policy b, ?V + 1) \<in> bpo_key ` set (boutbox d1)"
    then have "?V + 1 \<in> ob_version ` set (policy_rows (bd_tenant b) (bd_policy b) (boutbox d1))"
      by (auto simp: bpo_key_def policy_rows_def)
    moreover have "ob_version ` set (policy_rows (bd_tenant b) (bd_policy b) (boutbox d1)) = set [1..?V]"
      using ok unfolding versions_ok_def by (metis image_set)
    ultimately show False by simp
  qed
  then show new: "\<exists>r payload. boutbox d' = boutbox d1 @ [r]
      \<and> decision_row r (bd_tenant b) (bd_id b) (bd_policy b) (?V + 1) tr payload
      \<and> build_policy_payload b (?V + 1) now = Inr payload"
    using bq(5) s(2) by simp
  then obtain r payload where r: "boutbox d' = boutbox d1 @ [r]"
    "decision_row r (bd_tenant b) (bd_id b) (bd_policy b) (?V + 1) tr payload" by blast
  have fs: "flipped over now s \<in> set (budget_states b d')"
    using s(1) by (auto simp: rows set_update_where)
  show top: "top_version b d' = ?V + 1"
  proof (rule top_version_eqI [OF fs])
    show "bs_version (flipped over now s) = ?V + 1" using s(2) by (simp add: flipped_def)
    show "bs_version x \<le> ?V + 1" if "x \<in> set (budget_states b d')" for x
      using that top_version_ge [of _ b d1] s(2)
      by (fastforce simp: rows set_update_where flipped_def)
  qed
  have only: "x = s" if "x \<in> set (budget_states b d1)" "now \<le> n" "bs_bucket x = ?L n" for x n
  proof -
    have "bs_bucket x = bs_bucket s" using ok that s(3) by (auto simp: versions_ok_def)
    then have "state_key x = state_key s"
      using that(1) s(1) by (auto simp: budget_states_def state_key_def)
    then show ?thesis
      using ok that(1) s(1) distinct_key_unique [of state_key "bstates d1" x s]
      by (auto simp: versions_ok_def budget_states_def)
  qed
  have pr: "policy_rows (bd_tenant b) (bd_policy b) (boutbox d')
      = policy_rows (bd_tenant b) (bd_policy b) (boutbox d1) @ [r]"
    using r(2) by (simp add: r(1) policy_rows_append) (simp add: policy_rows_def decision_row_def)
  have V0: "0 \<le> ?V" using ok by (simp add: versions_ok_def)
  have "map ob_version (policy_rows (bd_tenant b) (bd_policy b) (boutbox d')) = [1..?V] @ [?V + 1]"
    using ok r(2) by (simp add: pr versions_ok_def decision_row_def)
  also have "\<dots> = [1..?V + 1]"
    using V0 upto_rec2 [of 1 "?V + 1"] by simp
  finally have vers: "map ob_version (policy_rows (bd_tenant b) (bd_policy b) (boutbox d')) = [1..?V + 1]" .
  have keys: "distinct (map state_key (bstates d'))"
  proof -
    have "map state_key (bstates d') = map state_key (bstates d1)"
      using bq(1) by (simp add: state_keys_update flipped_def state_key_def)
    then show ?thesis using ok by (simp add: versions_ok_def)
  qed
  have cur: "bs_bucket x = ?L now \<and> bs_version x = ?V + 1"
    if x: "x \<in> set (budget_states b d')" "now \<le> n" "bs_bucket x = ?L n" for x n
  proof -
    from x(1) consider "x \<in> set (budget_states b d1)" "x \<noteq> s" | "x = flipped over now s"
      by (auto simp: rows set_update_where)
    then show ?thesis
    proof cases
      case 1
      with only x show ?thesis by blast
    next
      case 2
      then show ?thesis using s(2,3) by (simp add: flipped_def)
    qed
  qed
  have enf: "\<exists>o' \<in> set (policy_rows (bd_tenant b) (bd_policy b) (boutbox d')).
      ob_transition o' = TEnforce \<and> bs_enforced_version x = Some (ob_version o')"
    if x: "x \<in> set (budget_states b d')" "bs_state x = Enforced" for x
  proof -
    from x(1) consider "x \<in> set (budget_states b d1)" | "x = flipped over now s"
      by (auto simp: rows set_update_where)
    then show ?thesis
    proof cases
      case 1
      with ok x(2) show ?thesis by (auto simp: versions_ok_def pr)
    next
      case 2
      with x(2) have over by (auto simp: flipped_def split: if_splits)
      with 2 r(2) tr s(2) show ?thesis by (auto simp: pr flipped_def decision_row_def)
    qed
  qed
  show "versions_ok b now d'"
    using ok keys vers cur enf V0 unfolding versions_ok_def top by auto
qed

lemma versions_ok_warn:
  assumes "versions_ok b now d1"
  shows "versions_ok b now (d1\<lparr>bstates := update_where P (\<lambda>x. x\<lparr>bs_warned := Some pct, bs_updated := now\<rparr>) (bstates d1)\<rparr>)"
proof -
  let ?f = "\<lambda>x. x\<lparr>bs_warned := Some pct, bs_updated := now\<rparr>" and ?d = "d1\<lparr>bstates := update_where P
    (\<lambda>x. x\<lparr>bs_warned := Some pct, bs_updated := now\<rparr>) (bstates d1)\<rparr>"
  have rows: "budget_states b ?d = update_where P ?f (budget_states b d1)"
    by (rule budget_states_update) simp
  have "bs_version ` set (budget_states b ?d) = bs_version ` set (budget_states b d1)"
    unfolding rows by (metis (no_types, lifting) bstate.select_convs(7) bstate.surjective bstate.update_convs(8,9) image_set map_update_where_frame)
  moreover have "budget_states b ?d = [] \<longleftrightarrow> budget_states b d1 = []" unfolding rows
    by (simp add: update_where_def)
  ultimately have top: "top_version b ?d = top_version b d1" by (simp add: top_version_def)
  have keys: "map state_key (bstates ?d) = map state_key (bstates d1)"
    by (simp add: state_keys_update state_key_def)
  have row: "\<exists>y \<in> set (budget_states b d1). bs_bucket x = bs_bucket y \<and> bs_version x = bs_version y
      \<and> bs_state x = bs_state y \<and> bs_enforced_version x = bs_enforced_version y"
    if "x \<in> set (budget_states b ?d)" for x
    using that unfolding rows set_update_where by auto
  show ?thesis
    using assms keys unfolding versions_ok_def top by (auto dest!: row)
qed

text \<open>Evaluating the budget, with whatever limits it has by then, keeps the invariant.\<close>

definition same_budget :: "budget_def \<Rightarrow> budget_def \<Rightarrow> bool" where
  "same_budget b c \<longleftrightarrow> bd_id c = bd_id b \<and> bd_tenant c = bd_tenant b \<and> bd_policy c = bd_policy b
     \<and> bd_period c = bd_period b"

lemma versions_ok_same: "same_budget b c \<Longrightarrow> versions_ok c T d = versions_ok b T d"
  by (simp add: same_budget_def versions_ok_def budget_states_def top_version_def)

lemma evaluate_budget_sess: "evaluate_budget sha u4 st sess b now d = Inr (oc, d') \<Longrightarrow> bd_tenant b = sess"
  by (auto simp: evaluate_budget_def Let_def bindR_eq_Inr dest: get_or_create_state_Inr(1))

lemma versions_ok_evaluate:
  assumes ok: "versions_ok b T d" and T: "T \<le> now"
    and ev: "evaluate_budget sha u4 st sess b now d = Inr (oc, d')"
  shows "versions_ok b now d'"
proof -
  have t: "bd_tenant b = sess" using evaluate_budget_sess [OF ev] .
  have dist: "distinct (map state_key (bstates d))" using ok by (simp add: versions_ok_def)
  show ?thesis
  proof (cases rule: evaluate_budget_cases [OF ev dist])
    case (1 s d1)
    note c = versions_ok_create [OF ok T 1(1)] and g = get_or_create_state_Inr [OF 1(1)]
    show ?thesis
      by (rule versions_ok_decide(1) [OF c(1,3,2) _ 1(4) [folded t]])
        (use g(2) in \<open>simp_all add: state_key_def\<close>)
  next
    case (2 s d1 P pct)
    from versions_ok_warn [OF versions_ok_create(1) [OF ok T 2(1)]] show ?thesis by (simp add: 2(4))
  qed
qed

section \<open>Reachable states\<close>

text \<open>
  A budget from its creation on: evaluations of it with a clock that never runs backwards
  (its limits may be changed between them), interleaved with unrelated steps.
\<close>

inductive budget_reach :: "(string \<Rightarrow> string) \<Rightarrow> u4gen \<Rightarrow> engine_settings \<Rightarrow> budget_def \<Rightarrow> instant \<Rightarrow> db \<Rightarrow> bool"
  for sha u4 st b where
  start: "0 \<le> T \<Longrightarrow> budget_states b d = [] \<Longrightarrow> policy_rows (bd_tenant b) (bd_policy b) (boutbox d) = []
    \<Longrightarrow> distinct (map state_key (bstates d)) \<Longrightarrow> budget_reach sha u4 st b T d"
| evaluate: "budget_reach sha u4 st b T d \<Longrightarrow> T \<le> now \<Longrightarrow> same_budget b c
    \<Longrightarrow> evaluate_budget sha u4 st sess c now d = Inr (oc, d') \<Longrightarrow> budget_reach sha u4 st b now d'"
| other: "budget_reach sha u4 st b T d \<Longrightarrow> T \<le> T' \<Longrightarrow> unrelated b d d' \<Longrightarrow> budget_reach sha u4 st b T' d'"

lemma budget_reach_versions_ok: "budget_reach sha u4 st b T d \<Longrightarrow> versions_ok b T d"
proof (induction rule: budget_reach.induct)
  case (start T d)
  then show ?case by (simp add: versions_ok_def top_version_def)
next
  case (evaluate T d now c sess oc d')
  from versions_ok_evaluate [of c T d now sha u4 st sess oc d'] evaluate show ?case
    by (simp add: versions_ok_same)
next
  case (other T d T' d')
  then show ?case by (blast intro: versions_ok_unrelated)
qed

text \<open>A drain is an unrelated step.\<close>

lemma map_decision_policy_rows:
  "map decision (policy_rows t p xs) = filter (\<lambda>(_, t', _, p', _). t' = t \<and> p' = p) (map decision xs)"
  by (simp add: policy_rows_def filter_map comp_def decision_def)

lemma drain_unrelated:
  assumes "distinct (map state_key (bstates d))"
  shows "unrelated b d (bpo_drain_tenant pystr st env tenant now d)"
proof -
  let ?d = "bpo_drain_tenant pystr st env tenant now d"
  have "map decision (boutbox ?d) = map decision (boutbox d)"
    by (simp add: bpo_drain_tenant_def Let_def bpo.drain_decisions)
  moreover have "bstates ?d = bstates d" by (simp add: bpo_drain_tenant_def Let_def)
  ultimately show ?thesis
    using assms unfolding unrelated_def map_decision_policy_rows budget_states_def by simp
qed

section \<open>One evaluation\<close>

text \<open>After an evaluation the row says enforced exactly when spend exceeds the cap.\<close>

lemma evaluate_budget_state:
  assumes ev: "evaluate_budget sha u4 st sess b now d = Inr (oc, d')" and dist: "distinct (map state_key (bstates d))"
  shows "\<exists>s \<in> set (bstates d'). state_key s = (sess, bd_id b, period_bucket_label (bd_period b) now)
    \<and> bs_state s = (if over_cap sess b now d then Enforced else Under)"
proof (cases rule: evaluate_budget_cases [OF ev dist])
  case (1 s d1)
  note g = get_or_create_state_Inr [OF 1(1)]
  have "flipped (over_cap sess b now d) now s \<in> set (bstates d')"
    using g(3) by (simp add: budget_enqueue_Inr(1) [OF 1(4)] set_update_where)
  then show ?thesis using g(1,2) by (intro bexI) (auto simp: flipped_def state_key_def)
next
  case (2 s d1 P pct)
  note g = get_or_create_state_Inr [OF 2(1)]
  let ?f = "\<lambda>x. x\<lparr>bs_warned := Some pct, bs_updated := now\<rparr>"
  have "(if P s then ?f s else s) \<in> set (bstates d')"
    using g(3) by (auto simp: 2(4) set_update_where)
  then show ?thesis using g(1,2) 2(2) by (intro bexI) (auto simp: state_key_def)
qed

text \<open>An evaluation that decides nothing leaves the outbox as it was.\<close>

lemma evaluate_budget_quiet:
  assumes ev: "evaluate_budget sha u4 st sess b now d = Inr (oc, d')" and dist: "distinct (map state_key (bstates d))"
    and "\<And>tr v. oc \<noteq> Decided tr v"
  shows "boutbox d' = boutbox d" and "history d' = history d"
proof -
  have "boutbox d' = boutbox d \<and> history d' = history d"
  proof (cases rule: evaluate_budget_cases [OF ev dist])
    case (1 s d1)
    with assms(3) show ?thesis by blast
  next
    case (2 s d1 P pct)
    note g = get_or_create_state_Inr(4) [OF 2(1)]
    have "boutbox d1 = boutbox d" "history d1 = history d"
      using arg_cong [OF g, of boutbox] arg_cong [OF g, of history] by simp_all
    then show ?thesis by (simp add: 2(4))
  qed
  then show "boutbox d' = boutbox d" "history d' = history d" by simp_all
qed

end
