(* ===== verification/Kill_Switch.thy ===== *)
theory Kill_Switch
  imports Budget_Reach
begin

text \<open>
  \<open>delta.kill_switch\<close>: configuration, triggers, edge state, outbox and drainer, payloads,
  evaluator, allow-list and the recovery paths. The outbox and drainer repeat the budget
  engine's on their own table and are interpreted against the same delivery contract.
\<close>

section \<open>Configuration\<close>

record kill_settings =
  kc_enabled :: bool
  kc_url :: string
  kc_token :: string
  kc_max_attempts :: int
  kc_backoff_base :: int
  kc_backoff_cap :: int
  kc_max_tx :: "cents option"

text \<open>\<open>int(text)\<close>: an optional sign and digits, single underscores allowed between digits, and
  at most 4300 digits (the interpreter's limit on such conversions).\<close>

fun int_digits :: "bool \<Rightarrow> string \<Rightarrow> string option" where
  "int_digits after_digit [] = (if after_digit then Some [] else None)"
| "int_digits after_digit (c # cs) =
     (if is_digit c then map_option ((#) c) (int_digits True cs)
      else if c = CHR ''_'' \<and> after_digit then int_digits False cs
      else None)"

definition parse_int :: "string \<Rightarrow> int option" where
  "parse_int s = (let (neg, ds) = split_sign (strip s) in
     case int_digits False ds of
       None \<Rightarrow> None
     | Some x \<Rightarrow> if length x > 4300 then None else Some (signed neg (digits_val x)))"

definition load_kill_settings :: "environ \<Rightarrow> py_exc + kill_settings" where
  "load_kill_settings env =
     (let en = env_flag env ''DELTA_KILL_SWITCH_ENABLED'' True;
          url = env_str env ''DELTA_ORCH_DISTRIBUTION_URL'';
          token = env_str env ''ORCH_SERVICE_TOKEN'';
          raw = env_str env ''DELTA_KILL_SWITCH_MAX_TX_COST_CENTS'' in
      if en \<and> url = [] then Inl RuntimeError
      else if en \<and> token = [] then Inl RuntimeError
      else bindR (if raw = [] then Inr None
                  else case parse_int raw of
                    None \<Rightarrow> Inl RuntimeError
                  | Some n \<Rightarrow> if n < 0 then Inl RuntimeError else Inr (Some n)) (\<lambda>ceiling.
           Inr \<lparr>kc_enabled = en, kc_url = url, kc_token = token, kc_max_attempts = 8,
             kc_backoff_base = 2 * us_per_second, kc_backoff_cap = 300 * us_per_second,
             kc_max_tx = ceiling\<rparr>))"

section \<open>Triggers\<close>

definition unauthorized_reason :: "bool \<Rightarrow> bool \<Rightarrow> kill_reason option" where
  "unauthorized_reason gated authorized = (if gated \<and> \<not> authorized then Some UNAUTHORIZED_AGENT else None)"

definition anomalous_reason :: "cents \<Rightarrow> cents option \<Rightarrow> kill_reason option" where
  "anomalous_reason cost ceiling =
     (case ceiling of None \<Rightarrow> None | Some m \<Rightarrow> if cost > m then Some ANOMALOUS_SINGLE_TX else None)"

definition detect_reason :: "bool \<Rightarrow> bool \<Rightarrow> cents \<Rightarrow> cents option \<Rightarrow> kill_reason option" where
  "detect_reason gated authorized cost ceiling =
     (case unauthorized_reason gated authorized of
        Some r \<Rightarrow> Some r
      | None \<Rightarrow> anomalous_reason cost ceiling)"

fun reason_str :: "kill_reason \<Rightarrow> string" where
  "reason_str UNAUTHORIZED_AGENT = ''unauthorized_agent''"
| "reason_str ANOMALOUS_SINGLE_TX = ''anomalous_single_tx''"

section \<open>State\<close>

definition ks_key :: "kstate \<Rightarrow> ident \<times> ident \<times> ident \<times> ident" where
  "ks_key k = (ks_tenant k, ks_team k, ks_project k, ks_agent k)"

definition kill_get_or_create ::
  "u4gen \<Rightarrow> ident \<Rightarrow> ident \<Rightarrow> ident \<Rightarrow> ident \<Rightarrow> ident \<Rightarrow> instant \<Rightarrow> db \<Rightarrow> py_exc + kstate \<times> db" where
  "kill_get_or_create u4 sess tenant team proj agent now d =
     (let (kid, d1) = uuid4 u4 d; (pid, d2) = uuid4 u4 d1;
          k = \<lparr>ks_id = kid, ks_tenant = tenant, ks_team = team, ks_project = proj, ks_agent = agent,
               ks_policy = pid, ks_state = KClear, ks_reason = None, ks_version = 0, ks_updated = now\<rparr>
      in bindR (rls_check sess tenant) (\<lambda>_.
         bindR (if ks_key k \<in> ks_key ` set (kstates d2) then Inr d2
                else bindR (insert_unique IntegrityError ks_id k (kstates d2)) (\<lambda>rows. Inr (d2\<lparr>kstates := rows\<rparr>))) (\<lambda>d3.
         case List.find (\<lambda>x. ks_tenant x = sess \<and> ks_key x = ks_key k) (kstates d3) of
           None \<Rightarrow> Inl RuntimeError
         | Some x \<Rightarrow> Inr (x, d3))))"

definition killed_scopes_for_agent :: "ident \<Rightarrow> ident \<Rightarrow> ident \<Rightarrow> kill_reason option \<Rightarrow> db \<Rightarrow> kstate list" where
  "killed_scopes_for_agent sess tenant agent reason d =
     filter (\<lambda>k. ks_tenant k = sess \<and> ks_tenant k = tenant \<and> ks_agent k = agent \<and> ks_state k = Killed
        \<and> (\<forall>r \<in> set_option reason. ks_reason k = Some r)) (kstates d)"

definition find_state :: "ident \<Rightarrow> ident \<Rightarrow> ident \<Rightarrow> ident \<Rightarrow> ident \<Rightarrow> db \<Rightarrow> kstate option" where
  "find_state sess tenant team proj agent d =
     List.find (\<lambda>k. ks_tenant k = sess \<and> ks_key k = (tenant, team, proj, agent)) (kstates d)"

definition kill_transition ::
  "ident \<Rightarrow> ident \<Rightarrow> ident \<Rightarrow> kill_state \<Rightarrow> kill_state \<Rightarrow> kill_reason option \<Rightarrow> instant \<Rightarrow> db \<Rightarrow> int option \<times> db" where
  "kill_transition sess tenant kid from_state to_state reason now d =
     (let hit = (\<lambda>k. ks_tenant k = sess \<and> ks_tenant k = tenant \<and> ks_id k = kid \<and> ks_state k = from_state);
          upd = (\<lambda>k. k\<lparr>ks_state := to_state, ks_reason := reason, ks_version := ks_version k + 1, ks_updated := now\<rparr>)
      in (map_option (\<lambda>k. ks_version k + 1) (List.find hit (kstates d)),
          d\<lparr>kstates := update_where hit upd (kstates d)\<rparr>))"

definition try_transition_to_killed :: "ident \<Rightarrow> ident \<Rightarrow> ident \<Rightarrow> kill_reason \<Rightarrow> instant \<Rightarrow> db \<Rightarrow> int option \<times> db" where
  "try_transition_to_killed sess tenant kid reason now d =
     kill_transition sess tenant kid KClear Killed (Some reason) now d"

definition try_transition_to_clear :: "ident \<Rightarrow> ident \<Rightarrow> ident \<Rightarrow> instant \<Rightarrow> db \<Rightarrow> int option \<times> db" where
  "try_transition_to_clear sess tenant kid now d =
     (let current = (case List.find (\<lambda>k. ks_tenant k = sess \<and> ks_tenant k = tenant \<and> ks_id k = kid) (kstates d) of
            None \<Rightarrow> None | Some k \<Rightarrow> ks_reason k)
      in kill_transition sess tenant kid Killed KClear current now d)"

section \<open>Outbox\<close>

definition kso_key :: "outbox_row \<Rightarrow> ident \<times> ident \<times> int" where
  "kso_key r = (ob_tenant r, ob_policy r, ob_version r)"

definition kso_enqueue ::
  "u4gen \<Rightarrow> ident \<Rightarrow> ident \<Rightarrow> ident \<Rightarrow> ident \<Rightarrow> int \<Rightarrow> transition \<Rightarrow> (string \<times> json) list \<Rightarrow> instant \<Rightarrow> db \<Rightarrow> py_exc + db" where
  "kso_enqueue u4 sess tenant kill policy version tr payload now d =
     (let (oid, d1) = uuid4 u4 d;
          r = \<lparr>ob_id = oid, ob_tenant = tenant, ob_subject = kill, ob_policy = policy, ob_version = version,
               ob_transition = tr, ob_payload = payload, ob_distribution = None, ob_state = Pending,
               ob_attempts = 0, ob_next = now, ob_error = None, ob_created = now\<rparr>
      in bindR (rls_check sess tenant) (\<lambda>_.
         bindR (guardR (1 \<le> version \<and> tr \<in> {TKill, TClear}) IntegrityError) (\<lambda>_.
         if kso_key r \<in> kso_key ` set (koutbox d1) then Inr d1
         else bindR (insert_unique IntegrityError ob_id r (koutbox d1)) (\<lambda>rows.
              bindR (guardR ((kill, tenant) \<in> (\<lambda>k. (ks_id k, ks_tenant k)) ` set (kstates d1)) IntegrityError) (\<lambda>_.
              Inr (d1\<lparr>koutbox := rows\<rparr>))))))"

definition kso_due :: "ident \<Rightarrow> instant \<Rightarrow> outbox_row \<Rightarrow> bool" where
  "kso_due sess now r \<longleftrightarrow> ob_tenant r = sess \<and> ob_state r = Pending \<and> ob_next r \<le> now"

definition kso_due_outbox_ids :: "ident \<Rightarrow> instant \<Rightarrow> nat \<Rightarrow> outbox_row list \<Rightarrow> ident list" where
  "kso_due_outbox_ids sess now limit rows =
     map ob_id (take limit (sort_key ob_created (filter (kso_due sess now) rows)))"

definition kso_claim_one :: "ident \<Rightarrow> instant \<Rightarrow> ident \<Rightarrow> outbox_row list \<Rightarrow> outbox_row option" where
  "kso_claim_one sess now oid rows = List.find (\<lambda>r. kso_due sess now r \<and> ob_id r = oid) rows"

definition kso_mark_distributed :: "ident \<Rightarrow> ident \<Rightarrow> string \<Rightarrow> outbox_row list \<Rightarrow> py_exc + outbox_row list" where
  "kso_mark_distributed sess oid dist rows =
     (if length dist > 64 then Inl DataError
      else Inr (update_where (row_of sess oid)
        (\<lambda>r. r\<lparr>ob_state := Delivered, ob_distribution := Some dist, ob_attempts := ob_attempts r + 1,
           ob_error := None\<rparr>) rows))"

definition kso_mark_retry :: "ident \<Rightarrow> ident \<Rightarrow> string \<Rightarrow> instant \<Rightarrow> outbox_row list \<Rightarrow> outbox_row list" where
  "kso_mark_retry sess oid err next rows = update_where (row_of sess oid)
     (\<lambda>r. r\<lparr>ob_attempts := ob_attempts r + 1, ob_next := next, ob_error := Some (take 512 err)\<rparr>) rows"

definition kso_mark_failed :: "ident \<Rightarrow> ident \<Rightarrow> string \<Rightarrow> outbox_row list \<Rightarrow> outbox_row list" where
  "kso_mark_failed sess oid err rows = update_where (row_of sess oid)
     (\<lambda>r. r\<lparr>ob_state := Failed, ob_attempts := ob_attempts r + 1, ob_error := Some (take 512 err)\<rparr>) rows"

section \<open>Drainer\<close>

definition kso_backoff_at :: "int \<Rightarrow> kill_settings \<Rightarrow> instant \<Rightarrow> instant" where
  "kso_backoff_at attempts st now =
     now + min (kc_backoff_base st * 2 ^ nat (max 0 (attempts - 1))) (kc_backoff_cap st)"

definition kso_deliver_one ::
  "(json \<Rightarrow> string) \<Rightarrow> kill_settings \<Rightarrow> ident \<Rightarrow> instant \<Rightarrow> string + (string \<times> json) list \<Rightarrow> http_result
     \<Rightarrow> outbox_row \<Rightarrow> outbox_row list \<Rightarrow> py_exc + outbox_row list" where
  "kso_deliver_one pystr st sess now sg h row rows =
     (case sg of
        Inl e \<Rightarrow> Inr (kso_mark_failed sess (ob_id row) (''sign failed: '' @ e) rows)
      | Inr _ \<Rightarrow>
          (case publish_signed_policy pystr h of
             TransientPublishError e \<Rightarrow>
               (let attempts = ob_attempts row + 1 in
                if attempts \<ge> kc_max_attempts st
                then Inr (kso_mark_failed sess (ob_id row) (''retries exhausted: '' @ e) rows)
                else Inr (kso_mark_retry sess (ob_id row) e (kso_backoff_at attempts st now) rows))
           | PermanentPublishError e \<Rightarrow> Inr (kso_mark_failed sess (ob_id row) e rows)
           | PublishCrash x \<Rightarrow> Inl x
           | Distributed i \<Rightarrow> kso_mark_distributed sess (ob_id row) i rows))"

definition kso_drain_tenant ::
  "(json \<Rightarrow> string) \<Rightarrow> kill_settings \<Rightarrow> drain_env \<Rightarrow> ident \<Rightarrow> instant \<Rightarrow> db \<Rightarrow> db" where
  "kso_drain_tenant pystr st env tenant now d =
     (if \<not> dv_key env then d
      else if \<not> dv_snapshot env \<or> tenant_session tenant \<noteq> Inr () then d
      else let ids = kso_due_outbox_ids tenant now 64 (koutbox d) in
        d\<lparr>koutbox := drain_loop (kso_claim_one tenant now) (kso_deliver_one pystr st tenant now)
             (dv_row env) ids (koutbox d)\<rparr>)"

section \<open>Payloads\<close>

definition kill_switch_concept ::
  "ident \<Rightarrow> ident \<Rightarrow> ident \<Rightarrow> ident \<Rightarrow> int \<Rightarrow> int \<Rightarrow> py_exc + budget_concept" where
  "kill_switch_concept tenant team proj agent toks cost =
     mk_concept tenant team proj agent SAGENT DAILY (JInt toks) (JInt cost) DEFAULT_CURRENCY"

definition build_kill_payload ::
  "ident \<Rightarrow> ident \<Rightarrow> ident \<Rightarrow> ident \<Rightarrow> ident \<Rightarrow> int \<Rightarrow> instant \<Rightarrow> py_exc + (string \<times> json) list" where
  "build_kill_payload tenant team proj agent policy version eff =
     bindR (kill_switch_concept tenant team proj agent 0 0) (\<lambda>c.
     budget_concept_to_policy_payload c policy version (Aware eff) PLACEHOLDER_SIGNATURE)"

definition build_clear_payload ::
  "ident \<Rightarrow> ident \<Rightarrow> ident \<Rightarrow> ident \<Rightarrow> ident \<Rightarrow> int \<Rightarrow> instant \<Rightarrow> py_exc + (string \<times> json) list" where
  "build_clear_payload tenant team proj agent policy version eff =
     bindR (kill_switch_concept tenant team proj agent MAX_BUDGET_TOKENS MAX_BUDGET_COST_CENTS) (\<lambda>c.
     budget_concept_to_policy_payload c policy version (Aware eff) PLACEHOLDER_SIGNATURE)"

section \<open>Allow-list and recovery\<close>

definition is_tenant_gated :: "ident \<Rightarrow> ident \<Rightarrow> db \<Rightarrow> bool" where
  "is_tenant_gated sess tenant d = list_ex (\<lambda>a. aa_tenant a = sess \<and> aa_tenant a = tenant) (auths d)"

definition is_authorized :: "ident \<Rightarrow> ident \<Rightarrow> ident \<Rightarrow> db \<Rightarrow> bool" where
  "is_authorized sess tenant agent d =
     list_ex (\<lambda>a. aa_tenant a = sess \<and> aa_tenant a = tenant \<and> aa_agent a = agent) (auths d)"

definition clear_scope :: "(string \<Rightarrow> string) \<Rightarrow> u4gen \<Rightarrow> ident \<Rightarrow> kstate \<Rightarrow> instant \<Rightarrow> db \<Rightarrow> py_exc + bool \<times> db" where
  "clear_scope sha u4 sess k now d =
     (let (v, d1) = try_transition_to_clear sess (ks_tenant k) (ks_id k) now d in
      case v of
        None \<Rightarrow> Inr (False, d1)
      | Some version \<Rightarrow>
          bindR (build_clear_payload (ks_tenant k) (ks_team k) (ks_project k) (ks_agent k) (ks_policy k) version now) (\<lambda>payload.
          bindR (kso_enqueue u4 sess (ks_tenant k) (ks_id k) (ks_policy k) version TClear payload now d1) (\<lambda>d2.
          bindR (append_history sha u4 sess (ks_tenant k) ''kill_switch_enforcement'' (ks_id k) ''clear''
            ''kill-switch'' now (Some (''policy_id='' @ ks_policy k @ '' version='' @ dec_int version
              @ '' team='' @ ks_team k @ '' project='' @ ks_project k @ '' agent='' @ ks_agent k)) d2) (\<lambda>(_, d3).
          Inr (True, d3)))))"

fun clear_scopes :: "(string \<Rightarrow> string) \<Rightarrow> u4gen \<Rightarrow> ident \<Rightarrow> kstate list \<Rightarrow> instant \<Rightarrow> db \<Rightarrow> py_exc + ident list \<times> db" where
  "clear_scopes sha u4 sess [] now d = Inr ([], d)"
| "clear_scopes sha u4 sess (k # ks) now d =
     bindR (clear_scope sha u4 sess k now d) (\<lambda>(ok, d1).
     bindR (clear_scopes sha u4 sess ks now d1) (\<lambda>(rest, d2).
     Inr (if ok then ks_id k # rest else rest, d2)))"

definition authorize_agent ::
  "(string \<Rightarrow> string) \<Rightarrow> u4gen \<Rightarrow> ident \<Rightarrow> ident \<Rightarrow> ident \<Rightarrow> instant \<Rightarrow> db \<Rightarrow> py_exc + ident list \<times> db" where
  "authorize_agent sha u4 sess tenant agent now d =
     bindR (rls_check sess tenant) (\<lambda>_.
     let (_, rows) = insert_nothing (\<lambda>a. (aa_tenant a, aa_agent a))
           \<lparr>aa_tenant = tenant, aa_agent = agent, aa_at = now\<rparr> (auths d);
         d1 = d\<lparr>auths := rows\<rparr>
     in clear_scopes sha u4 sess (killed_scopes_for_agent sess tenant agent (Some UNAUTHORIZED_AGENT) d1) now d1)"

definition authorize_agent_and_publish ::
  "(string \<Rightarrow> string) \<Rightarrow> u4gen \<Rightarrow> (json \<Rightarrow> string) \<Rightarrow> kill_settings \<Rightarrow> drain_env \<Rightarrow> ident \<Rightarrow> ident \<Rightarrow> instant \<Rightarrow> db
     \<Rightarrow> py_exc + ident list \<times> db" where
  "authorize_agent_and_publish sha u4 pystr st env tenant agent now d =
     bindR (tenant_session tenant) (\<lambda>_.
     bindR (authorize_agent sha u4 tenant tenant agent now d) (\<lambda>(cleared, d1).
     Inr (cleared, kso_drain_tenant pystr st env tenant now d1)))"

definition revoke_agent :: "ident \<Rightarrow> ident \<Rightarrow> ident \<Rightarrow> db \<Rightarrow> db" where
  "revoke_agent sess tenant agent d =
     d\<lparr>auths := filter (\<lambda>a. \<not> (aa_tenant a = sess \<and> aa_tenant a = tenant \<and> aa_agent a = agent)) (auths d)\<rparr>"

definition clear_kill_switch ::
  "(string \<Rightarrow> string) \<Rightarrow> u4gen \<Rightarrow> ident \<Rightarrow> ident \<Rightarrow> ident \<Rightarrow> ident \<Rightarrow> ident \<Rightarrow> instant \<Rightarrow> db \<Rightarrow> py_exc + bool \<times> db" where
  "clear_kill_switch sha u4 sess tenant team proj agent now d =
     (case find_state sess tenant team proj agent d of
        None \<Rightarrow> Inr (False, d)
      | Some k \<Rightarrow> if ks_state k \<noteq> Killed then Inr (False, d) else clear_scope sha u4 sess k now d)"

definition clear_kill_switch_and_publish ::
  "(string \<Rightarrow> string) \<Rightarrow> u4gen \<Rightarrow> (json \<Rightarrow> string) \<Rightarrow> kill_settings \<Rightarrow> drain_env \<Rightarrow> ident \<Rightarrow> ident \<Rightarrow> ident \<Rightarrow> ident
     \<Rightarrow> instant \<Rightarrow> db \<Rightarrow> py_exc + bool \<times> db" where
  "clear_kill_switch_and_publish sha u4 pystr st env tenant team proj agent now d =
     bindR (tenant_session tenant) (\<lambda>_.
     bindR (clear_kill_switch sha u4 tenant tenant team proj agent now d) (\<lambda>(cleared, d1).
     Inr (cleared, if cleared then kso_drain_tenant pystr st env tenant now d1 else d1)))"

section \<open>Evaluation\<close>

definition do_kill ::
  "(string \<Rightarrow> string) \<Rightarrow> u4gen \<Rightarrow> ident \<Rightarrow> usage_record \<Rightarrow> kill_reason \<Rightarrow> instant \<Rightarrow> db \<Rightarrow> py_exc + db" where
  "do_kill sha u4 sess r reason now d =
     bindR (kill_get_or_create u4 sess (u_tenant r) (u_team r) (u_project r) (u_agent r) now d) (\<lambda>(k, d1).
     if ks_state k \<noteq> KClear then Inr d1
     else let (v, d2) = try_transition_to_killed sess (u_tenant r) (ks_id k) reason now d1 in
       case v of
         None \<Rightarrow> Inr d2
       | Some version \<Rightarrow>
           bindR (build_kill_payload (u_tenant r) (u_team r) (u_project r) (u_agent r) (ks_policy k) version now) (\<lambda>payload.
           bindR (kso_enqueue u4 sess (u_tenant r) (ks_id k) (ks_policy k) version TKill payload now d2) (\<lambda>d3.
           bindR (append_history sha u4 sess (u_tenant r) ''kill_switch_enforcement'' (ks_id k) ''kill''
             ''kill-switch'' now (Some (''reason='' @ reason_str reason @ '' policy_id='' @ ks_policy k
               @ '' version='' @ dec_int version @ '' team='' @ u_team r @ '' project='' @ u_project r
               @ '' agent='' @ u_agent r)) d3) (\<lambda>(_, d4).
           Inr d4))))"

definition kill_txn ::
  "(string \<Rightarrow> string) \<Rightarrow> u4gen \<Rightarrow> kill_settings \<Rightarrow> usage_record \<Rightarrow> instant \<Rightarrow> db \<Rightarrow> py_exc + db" where
  "kill_txn sha u4 st r now d =
     bindR (tenant_session (u_tenant r)) (\<lambda>_.
     let sess = u_tenant r;
         gated = is_tenant_gated sess (u_tenant r) d;
         authorized = gated \<and> is_authorized sess (u_tenant r) (u_agent r) d in
     case detect_reason gated authorized (u_cost r) (kc_max_tx st) of
       None \<Rightarrow> Inr d
     | Some reason \<Rightarrow> do_kill sha u4 sess r reason now d)"

definition evaluate_kill_switch ::
  "(string \<Rightarrow> string) \<Rightarrow> u4gen \<Rightarrow> (json \<Rightarrow> string) \<Rightarrow> kill_settings \<Rightarrow> py_exc option \<Rightarrow> drain_env
     \<Rightarrow> usage_record \<Rightarrow> instant \<Rightarrow> db \<Rightarrow> db" where
  "evaluate_kill_switch sha u4 pystr st fault env r now d =
     (if \<not> kc_enabled st then d
      else case (case fault of Some x \<Rightarrow> Inl x | None \<Rightarrow> kill_txn sha u4 st r now d) of
        Inl _ \<Rightarrow> d
      | Inr d1 \<Rightarrow> kso_drain_tenant pystr st env (u_tenant r) now d1)"

section \<open>The delivery contract\<close>

lemmas kso_marks = kso_mark_distributed_def kso_mark_retry_def kso_mark_failed_def

interpretation kso: delivery_outbox kso_claim_one "kso_deliver_one pystr st" "kc_max_attempts st" pystr
  for pystr st
proof
  show "r \<in> set rows \<and> row_of sess oid r \<and> ob_state r = Pending \<and> ob_next r \<le> now"
    if "kso_claim_one sess now oid rows = Some r" for sess now oid rows r
    using find_eq_Some_in [OF that [unfolded kso_claim_one_def]] by (auto simp: kso_due_def row_of_def)
  show "\<exists>s. kso_claim_one sess now oid rows = Some s"
    if "r \<in> set rows" "row_of sess oid r" "ob_state r = Pending" "ob_next r \<le> now" for r rows sess oid now
    using that by (auto simp: kso_claim_one_def kso_due_def row_of_def find_Some_iff2 find_None_iff
        simp flip: not_None_eq)
  show "\<exists>f. rows' = update_where (row_of sess (ob_id r)) f rows \<and> (\<forall>x. decision (f x) = decision x)
      \<and> (\<forall>x. ob_attempts (f x) = ob_attempts x + 1)
      \<and> (\<forall>x. ob_state (f x) = Pending \<longrightarrow> ob_attempts r + 1 < kc_max_attempts st)"
    if "kso_deliver_one pystr st sess now sg h r rows = Inr rows'" for sess now sg h r rows rows'
    using that
    by (auto simp: kso_deliver_one_def kso_marks Let_def decision_def
        split: sum.splits publish_outcome.splits if_splits intro!: exI)
  show "\<exists>f. kso_deliver_one pystr st sess now (Inr pol) h r rows = Inr (update_where (row_of sess (ob_id r)) f rows)
      \<and> (\<forall>x. ob_state (f x) = Delivered \<and> decision (f x) = decision x)"
    if "publish_signed_policy pystr h = Distributed i" "length i \<le> 64" for h i sess now pol r rows
    using that by (auto simp: kso_deliver_one_def kso_marks decision_def intro!: exI)
qed

end
