(* ===== verification/Kill_Reach.thy ===== *)
theory Kill_Reach
  imports Kill_Switch
begin

text \<open>
  The kill switch over any interleaving of evaluations, recoveries, revocations and drains:
  for every scope the queued decisions are kill, clear, kill, ... with versions 1, 2, 3, ...,
  and the scope is killed exactly when the last of them is a kill.
\<close>

section \<open>Single operations\<close>

lemma kso_enqueue_Inr:
  assumes "kso_enqueue u4 sess t i p v tr payload now d = Inr d'"
  obtains (dup) "t = sess" "1 \<le> v" "(t, p, v) \<in> kso_key ` set (koutbox d)" "d' = d\<lparr>uuid_ctr := Suc (uuid_ctr d)\<rparr>"
  | (queued) r where "t = sess" "1 \<le> v" "(t, p, v) \<notin> kso_key ` set (koutbox d)"
      "d' = d\<lparr>uuid_ctr := Suc (uuid_ctr d), koutbox := koutbox d @ [r]\<rparr>" "decision_row r t i p v tr payload"
      "ob_id r \<notin> ob_id ` set (koutbox d)" "(i, t) \<in> (\<lambda>k. (ks_id k, ks_tenant k)) ` set (kstates d)"
proof -
  define r where "r = \<lparr>ob_id = u4 (uuid_ctr d), ob_tenant = t, ob_subject = i, ob_policy = p, ob_version = v,
    ob_transition = tr, ob_payload = payload, ob_distribution = None, ob_state = Pending,
    ob_attempts = 0, ob_next = now, ob_error = None, ob_created = now\<rparr>"
  have r: "kso_key r = (t, p, v)" "decision_row r t i p v tr payload"
    by (simp_all add: r_def kso_key_def decision_row_def)
  note e = assms [unfolded kso_enqueue_def uuid4_def Let_def case_prod_conv, folded r_def]
  show thesis
  proof (cases "kso_key r \<in> kso_key ` set (koutbox d)")
    case True
    with e r show thesis by (intro dup) (auto simp: bindR_eq_Inr)
  next
    case False
    with e r show thesis by (intro queued [of r]) (auto simp: bindR_eq_Inr table_simps)
  qed
qed

definition ks_flip :: "kill_state \<Rightarrow> kill_reason option \<Rightarrow> instant \<Rightarrow> kstate \<Rightarrow> kstate" where
  "ks_flip to_state reason now k = k\<lparr>ks_state := to_state, ks_reason := reason, ks_version := ks_version k + 1, ks_updated := now\<rparr>"

lemma kill_transition_row:
  assumes "distinct (map ks_id (kstates d))" "k \<in> set (kstates d)" "ks_tenant k = sess" "ks_state k = from_state"
  shows "kill_transition sess sess (ks_id k) from_state to_state reason now d
    = (Some (ks_version k + 1), d\<lparr>kstates := update_where (\<lambda>x. x = k) (ks_flip to_state reason now) (kstates d)\<rparr>)"
proof -
  let ?P = "\<lambda>x. ks_tenant x = sess \<and> ks_tenant x = sess \<and> ks_id x = ks_id k \<and> ks_state x = from_state"
  have "?P x \<longleftrightarrow> x = k" if "x \<in> set (kstates d)" for x
    using distinct_key_unique [OF assms(1) that assms(2)] assms(3,4) by auto
  then have "List.find ?P (kstates d) = Some k"
    and "update_where ?P f (kstates d) = update_where (\<lambda>x. x = k) f (kstates d)" for f
    using assms(2) by (auto intro!: find_unique update_where_cong)
  moreover have "(\<lambda>x. x\<lparr>ks_state := to_state, ks_reason := reason, ks_version := ks_version x + 1, ks_updated := now\<rparr>)
      = ks_flip to_state reason now" by (simp add: fun_eq_iff ks_flip_def)
  ultimately show ?thesis by (simp only: kill_transition_def Let_def option.map)
qed

text \<open>Clearing retains the reason of the kill.\<close>

lemma try_transition_to_clear_row:
  assumes "distinct (map ks_id (kstates d))" "k \<in> set (kstates d)" "ks_tenant k = sess" "ks_state k = Killed"
  shows "try_transition_to_clear sess sess (ks_id k) now d
    = (Some (ks_version k + 1), d\<lparr>kstates := update_where (\<lambda>x. x = k) (ks_flip KClear (ks_reason k) now) (kstates d)\<rparr>)"
proof -
  have "List.find (\<lambda>x. ks_tenant x = sess \<and> ks_tenant x = sess \<and> ks_id x = ks_id k) (kstates d) = Some k"
    using assms distinct_key_unique [OF assms(1) _ assms(2)] by (intro find_unique) auto
  then show ?thesis
    unfolding try_transition_to_clear_def Let_def by (simp add: kill_transition_row [OF assms])
qed

section \<open>The invariant\<close>

definition scope_ok :: "kstate \<Rightarrow> outbox_row list \<Rightarrow> bool" where
  "scope_ok k rows \<longleftrightarrow> 0 \<le> ks_version k \<and> (ks_state k = Killed \<longleftrightarrow> odd (ks_version k))
     \<and> map (\<lambda>r. (ob_version r, ob_transition r)) rows
       = map (\<lambda>v. (v, if odd v then TKill else TClear)) [1..ks_version k]"

definition kill_ok :: "u4gen \<Rightarrow> db \<Rightarrow> bool" where
  "kill_ok u4 d \<longleftrightarrow> distinct (map ks_key (kstates d)) \<and> distinct (map ks_id (kstates d))
     \<and> distinct (map ks_policy (kstates d)) \<and> ks_policy ` set (kstates d) \<subseteq> u4 ` {..<uuid_ctr d}
     \<and> (\<forall>r \<in> set (koutbox d). \<exists>k \<in> set (kstates d). ks_id k = ob_subject r \<and> ks_tenant k = ob_tenant r \<and> ks_policy k = ob_policy r)
     \<and> (\<forall>k \<in> set (kstates d). scope_ok k (policy_rows (ks_tenant k) (ks_policy k) (koutbox d)))"

lemma kill_okD:
  assumes "kill_ok u4 d"
  shows "distinct (map ks_key (kstates d))" "distinct (map ks_id (kstates d))" "distinct (map ks_policy (kstates d))"
    "k \<in> set (kstates d) \<Longrightarrow> scope_ok k (policy_rows (ks_tenant k) (ks_policy k) (koutbox d))"
  using assms by (simp_all add: kill_ok_def)

lemma decision_pairs:
  assumes "map decision xs = map decision ys"
  shows "map (\<lambda>r. (ob_version r, ob_transition r)) xs = map (\<lambda>r. (ob_version r, ob_transition r)) ys"
proof -
  have "map (\<lambda>(_, _, _, _, v, tr, _). (v, tr)) (map decision xs)
      = map (\<lambda>(_, _, _, _, v, tr, _). (v, tr)) (map decision ys)"
    by (simp only: assms)
  then show ?thesis by (simp add: decision_def comp_def)
qed

text \<open>Steps that leave the scopes and the queued decisions alone.\<close>

lemma kill_ok_frame:
  assumes "kill_ok u4 d" "kstates d' = kstates d" "map decision (koutbox d') = map decision (koutbox d)"
    "uuid_ctr d \<le> uuid_ctr d'"
  shows "kill_ok u4 d'"
proof -
  have "scope_ok k (policy_rows (ks_tenant k) (ks_policy k) (koutbox d'))" if "k \<in> set (kstates d)" for k
  proof -
    have "map (\<lambda>r. (ob_version r, ob_transition r)) (policy_rows (ks_tenant k) (ks_policy k) (koutbox d'))
        = map (\<lambda>r. (ob_version r, ob_transition r)) (policy_rows (ks_tenant k) (ks_policy k) (koutbox d))"
      by (rule decision_pairs) (simp add: map_decision_policy_rows assms(3))
    then show ?thesis using kill_okD(4) [OF assms(1) that] by (simp add: scope_ok_def)
  qed
  moreover have "\<exists>k \<in> set (kstates d). ks_id k = ob_subject r \<and> ks_tenant k = ob_tenant r \<and> ks_policy k = ob_policy r"
    if r: "r \<in> set (koutbox d')" for r
  proof -
    obtain q where "q \<in> set (koutbox d)" "decision q = decision r"
      using decision_set [OF assms(3) [symmetric] r] .
    then show ?thesis using assms(1) unfolding kill_ok_def decision_def by (metis prod.inject)
  qed
  moreover have "{..<uuid_ctr d} \<subseteq> {..<uuid_ctr d'}" using assms(4) by auto
  ultimately show ?thesis
    using assms(1) unfolding kill_ok_def assms(2) by (auto dest: image_mono [of _ _ u4])
qed

text \<open>A scope's flip queued with the next version.\<close>

lemma scope_ok_snoc:
  assumes "scope_ok k rows" "ks_state k \<noteq> to_state" "ob_version r = ks_version k + 1"
    "ob_transition r = (if to_state = Killed then TKill else TClear)"
  shows "scope_ok (ks_flip to_state reason now k) (rows @ [r])"
proof -
  have v: "0 \<le> ks_version k" using assms(1) by (simp add: scope_ok_def)
  have odd: "(to_state = Killed) = odd (ks_version k + 1)"
    using assms(1,2) by (cases to_state; cases "ks_state k") (auto simp: scope_ok_def)
  have "[1..ks_version k + 1] = [1..ks_version k] @ [ks_version k + 1]"
    using v upto_rec2 [of 1 "ks_version k + 1"] by simp
  then show ?thesis using assms v odd by (simp add: scope_ok_def ks_flip_def)
qed

lemma kill_decide:
  assumes ok: "kill_ok u4 d" and k: "k \<in> set (kstates d)" "ks_tenant k = sess" "ks_state k \<noteq> to_state"
    and q: "kso_enqueue u4 sess sess (ks_id k) (ks_policy k) (ks_version k + 1)
        (if to_state = Killed then TKill else TClear) payload now
        (d\<lparr>kstates := update_where (\<lambda>x. x = k) (ks_flip to_state reason now) (kstates d)\<rparr>) = Inr d'"
  obtains r where "koutbox d' = koutbox d @ [r]" "kill_ok u4 d'"
    "kstates d' = update_where (\<lambda>x. x = k) (ks_flip to_state reason now) (kstates d)"
    "decision_row r sess (ks_id k) (ks_policy k) (ks_version k + 1) (if to_state = Killed then TKill else TClear) payload"
    "uuid_ctr d' = Suc (uuid_ctr d)"
proof -
  let ?ks = "update_where (\<lambda>x. x = k) (ks_flip to_state reason now) (kstates d)"
  let ?d1 = "d\<lparr>kstates := ?ks\<rparr>"
  have fresh: "(sess, ks_policy k, ks_version k + 1) \<notin> kso_key ` set (koutbox d)"
  proof
    assume "(sess, ks_policy k, ks_version k + 1) \<in> kso_key ` set (koutbox d)"
    then obtain r where r: "r \<in> set (policy_rows sess (ks_policy k) (koutbox d))" "ob_version r = ks_version k + 1"
      by (auto simp: kso_key_def policy_rows_def)
    have "(ob_version r, ob_transition r)
        \<in> set (map (\<lambda>r. (ob_version r, ob_transition r)) (policy_rows sess (ks_policy k) (koutbox d)))"
      using r(1) by auto
    also have "\<dots> = set (map (\<lambda>v. (v, if odd v then TKill else TClear)) [1..ks_version k])"
      using kill_okD(4) [OF ok k(1)] k(2) by (simp add: scope_ok_def)
    finally show False using r(2) by auto
  qed
  from q show thesis
  proof (cases rule: kso_enqueue_Inr)
    case dup
    with fresh show thesis by simp
  next
    case (queued r)
    have d': "kstates d' = ?ks" "koutbox d' = koutbox d @ [r]" "uuid_ctr d' = Suc (uuid_ctr d)"
      using queued(4) by simp_all
    have row: "ob_tenant r = sess" "ob_policy r = ks_policy k" "ob_subject r = ks_id k" "ob_version r = ks_version k + 1"
      "ob_transition r = (if to_state = Killed then TKill else TClear)"
      using queued(5) by (simp_all add: decision_row_def)
    have cols: "map ks_key ?ks = map ks_key (kstates d)" "map ks_id ?ks = map ks_id (kstates d)"
      "map ks_policy ?ks = map ks_policy (kstates d)"
      by (simp_all add: map_update_where_frame ks_flip_def ks_key_def)
    have pol: "ks_policy ` set ?ks = ks_policy ` set (kstates d)"
      using arg_cong [OF cols(3), of set] by simp
    have scopes: "scope_ok x (policy_rows (ks_tenant x) (ks_policy x) (koutbox d'))" if "x \<in> set ?ks" for x
    proof -
      from that consider "x \<in> set (kstates d)" "x \<noteq> k" | "x = ks_flip to_state reason now k"
        by (auto simp: set_update_where)
      then show ?thesis
      proof cases
        case 1
        then have "ks_policy x \<noteq> ks_policy k"
          using distinct_key_unique [OF kill_okD(3) [OF ok] _ k(1)] by blast
        then show ?thesis
          using kill_okD(4) [OF ok 1(1)] row by (simp add: d' policy_rows_def)
      next
        case 2
        have "policy_rows sess (ks_policy k) (koutbox d') = policy_rows sess (ks_policy k) (koutbox d) @ [r]"
          using row by (simp add: d' policy_rows_def)
        then show ?thesis
          using scope_ok_snoc [of k _ to_state r reason now] kill_okD(4) [OF ok k(1)] k(2,3) row 2
          by (simp add: ks_flip_def)
      qed
    qed
    have fk: "\<exists>x \<in> set ?ks. ks_id x = ob_subject q \<and> ks_tenant x = ob_tenant q \<and> ks_policy x = ob_policy q"
      if "q \<in> set (koutbox d')" for q
    proof -
      have "\<exists>x \<in> set (kstates d). ks_id x = ob_subject q \<and> ks_tenant x = ob_tenant q \<and> ks_policy x = ob_policy q"
      proof (cases "q = r")
        case True
        then show ?thesis using k row by auto
      next
        case False
        then show ?thesis using ok that by (auto simp: kill_ok_def d')
      qed
      then obtain x where "x \<in> set (kstates d)" "ks_id x = ob_subject q" "ks_tenant x = ob_tenant q" "ks_policy x = ob_policy q"
        by blast
      then show ?thesis
        by (intro bexI [of _ "if x = k then ks_flip to_state reason now x else x"])
          (auto simp: ks_flip_def set_update_where)
    qed
    have "u4 ` {..<uuid_ctr d} \<subseteq> u4 ` {..<Suc (uuid_ctr d)}" by (intro image_mono) auto
    then have "kill_ok u4 d'"
      using ok scopes fk unfolding kill_ok_def d' cols pol by blast
    then show thesis using that queued(5) d' by blast
  qed
qed

section \<open>Killing\<close>

lemma kill_get_or_create_Inr:
  assumes "kill_get_or_create u4 sess t team proj agent now d = Inr (k, d1)"
  shows "t = sess" "k \<in> set (kstates d1)" "ks_key k = (sess, team, proj, agent)" "koutbox d1 = koutbox d"
    "(sess, team, proj, agent) \<in> ks_key ` set (kstates d) \<and> kstates d1 = kstates d \<or>
     (sess, team, proj, agent) \<notin> ks_key ` set (kstates d) \<and> kstates d1 = kstates d @ [k]
       \<and> ks_id k \<notin> ks_id ` set (kstates d) \<and> ks_policy k = u4 (Suc (uuid_ctr d)) \<and> ks_state k = KClear \<and> ks_version k = 0"
    "uuid_ctr d1 = Suc (Suc (uuid_ctr d))"
proof -
  define k0 where "k0 = \<lparr>ks_id = u4 (uuid_ctr d), ks_tenant = t, ks_team = team, ks_project = proj, ks_agent = agent,
    ks_policy = u4 (Suc (uuid_ctr d)), ks_state = KClear, ks_reason = None, ks_version = 0, ks_updated = now\<rparr>"
  have k0: "ks_key k0 = (t, team, proj, agent)" "ks_tenant k0 = t" by (simp_all add: k0_def ks_key_def)
  let ?d2 = "d\<lparr>uuid_ctr := Suc (Suc (uuid_ctr d))\<rparr>"
  have e: "bindR (rls_check sess t) (\<lambda>_. bindR (if ks_key k0 \<in> ks_key ` set (kstates d) then Inr ?d2
      else bindR (insert_unique IntegrityError ks_id k0 (kstates d)) (\<lambda>rows. Inr (?d2\<lparr>kstates := rows\<rparr>))) (\<lambda>d3.
      case List.find (\<lambda>x. ks_tenant x = sess \<and> ks_key x = ks_key k0) (kstates d3) of
        None \<Rightarrow> Inl RuntimeError | Some x \<Rightarrow> Inr (x, d3))) = Inr (k, d1)"
    using assms by (simp add: kill_get_or_create_def uuid4_def Let_def k0_def split del: if_split cong: if_cong)
  from e have t: "t = sess" by (auto simp: bindR_eq_Inr)
  show "t = sess" by (fact t)
  from e t obtain d3 where d3: "(if ks_key k0 \<in> ks_key ` set (kstates d) then Inr ?d2
      else bindR (insert_unique IntegrityError ks_id k0 (kstates d)) (\<lambda>rows. Inr (?d2\<lparr>kstates := rows\<rparr>))) = Inr d3"
    and f: "List.find (\<lambda>x. ks_tenant x = sess \<and> ks_key x = ks_key k0) (kstates d3) = Some k" and d1: "d1 = d3"
    by (auto simp: bindR_eq_Inr split: option.splits)
  from find_eq_Some_in [OF f] k0 t d1
  show "k \<in> set (kstates d1)" and kk: "ks_key k = (sess, team, proj, agent)" by simp_all
  from d3 d1 show "koutbox d1 = koutbox d" "uuid_ctr d1 = Suc (Suc (uuid_ctr d))"
    by (auto simp: bindR_eq_Inr split: if_splits)
  show "(sess, team, proj, agent) \<in> ks_key ` set (kstates d) \<and> kstates d1 = kstates d \<or>
     (sess, team, proj, agent) \<notin> ks_key ` set (kstates d) \<and> kstates d1 = kstates d @ [k]
       \<and> ks_id k \<notin> ks_id ` set (kstates d) \<and> ks_policy k = u4 (Suc (uuid_ctr d)) \<and> ks_state k = KClear \<and> ks_version k = 0"
  proof (cases "ks_key k0 \<in> ks_key ` set (kstates d)")
    case True
    with d3 d1 k0 t show ?thesis by auto
  next
    case False
    with d3 d1 have rows: "kstates d1 = kstates d @ [k0]" "ks_id k0 \<notin> ks_id ` set (kstates d)"
      by (auto simp: bindR_eq_Inr table_simps)
    have "List.find (\<lambda>x. ks_tenant x = sess \<and> ks_key x = ks_key k0) (kstates d @ [k0])
        = (if ks_tenant k0 = sess \<and> ks_key k0 = ks_key k0 then Some k0 else None)"
      using False by (intro find_snoc_fresh) (metis imageI)
    then have "k = k0" using f d1 rows(1) k0(2) t by simp
    then show ?thesis using False rows k0 t by (simp add: k0_def)
  qed
qed

text \<open>No id drawn so far was drawn twice.\<close>

abbreviation ids_fresh :: "u4gen \<Rightarrow> db \<Rightarrow> bool" where
  "ids_fresh u4 d \<equiv> inj_on u4 {..<uuid_ctr d}"

lemma ids_fresh_mono: "ids_fresh u4 d' \<Longrightarrow> uuid_ctr d \<le> uuid_ctr d' \<Longrightarrow> ids_fresh u4 d"
  by (rule inj_on_subset) auto

lemma kso_enqueue_ctr:
  assumes "kso_enqueue u4 sess t i p v tr payload now d = Inr d'"
  shows "uuid_ctr d \<le> uuid_ctr d'"
  using assms
proof (cases rule: kso_enqueue_Inr)
  case dup
  then show ?thesis by simp
next
  case (queued r)
  then show ?thesis by simp
qed

lemma append_history_ctr: "append_history sha u4 sess t ty en ac actor now note d = Inr (r, d') \<Longrightarrow> uuid_ctr d \<le> uuid_ctr d'"
  using append_history_Inr(1) by fastforce

lemma kill_transition_ctr: "kill_transition sess t i f s r now d = (v, d') \<Longrightarrow> uuid_ctr d' = uuid_ctr d"
  by (auto simp: kill_transition_def Let_def)

lemma kill_ok_create:
  assumes ok: "kill_ok u4 d" and inj: "ids_fresh u4 d1" and g: "kill_get_or_create u4 sess t team proj agent now d = Inr (k, d1)"
  shows "kill_ok u4 d1"
proof -
  note gf = kill_get_or_create_Inr [OF g]
  from gf(5) show ?thesis
  proof
    assume "(sess, team, proj, agent) \<in> ks_key ` set (kstates d) \<and> kstates d1 = kstates d"
    then show ?thesis using kill_ok_frame [OF ok, of d1] gf(4,6) by simp
  next
    assume n: "(sess, team, proj, agent) \<notin> ks_key ` set (kstates d) \<and> kstates d1 = kstates d @ [k]
       \<and> ks_id k \<notin> ks_id ` set (kstates d) \<and> ks_policy k = u4 (Suc (uuid_ctr d)) \<and> ks_state k = KClear \<and> ks_version k = 0"
    have old: "ks_policy ` set (kstates d) \<subseteq> u4 ` {..<uuid_ctr d}" using ok by (simp add: kill_ok_def)
    have new: "u4 (Suc (uuid_ctr d)) \<notin> u4 ` {..<uuid_ctr d}"
      using inj by (auto dest: inj_onD simp: gf(6))
    have pol: "ks_policy k \<notin> ks_policy ` set (kstates d)" using old new n by auto
    have "ob_policy q \<noteq> ks_policy k" if "q \<in> set (koutbox d)" for q
      using ok pol that unfolding kill_ok_def by (metis imageI)
    then have "policy_rows (ks_tenant k) (ks_policy k) (koutbox d) = []"
      by (simp add: policy_rows_def filter_empty_conv)
    then have k: "scope_ok k (policy_rows (ks_tenant k) (ks_policy k) (koutbox d))"
      using n by (simp add: scope_ok_def)
    have sub: "u4 ` {..<uuid_ctr d} \<subseteq> u4 ` {..<uuid_ctr d1}" by (intro image_mono) (auto simp: gf(6))
    have "ks_policy k \<in> u4 ` {..<uuid_ctr d1}" using n gf(6) by simp
    then show ?thesis
      using ok n k pol gf(3) old sub unfolding kill_ok_def gf(4) by auto
  qed
qed

text \<open>An offending event leaves its scope killed, with its kill queued if it was not killed already.\<close>

lemma do_kill_ctr:
  assumes e: "do_kill sha u4 sess r reason now d = Inr d'"
    and g: "kill_get_or_create u4 sess (u_tenant r) (u_team r) (u_project r) (u_agent r) now d = Inr (k, d1)"
  shows "uuid_ctr d \<le> uuid_ctr d1" "uuid_ctr d1 \<le> uuid_ctr d'"
proof -
  show "uuid_ctr d \<le> uuid_ctr d1" using kill_get_or_create_Inr(6) [OF g] by simp
  show "uuid_ctr d1 \<le> uuid_ctr d'"
    using e g
    by (auto simp: do_kill_def try_transition_to_killed_def bindR_eq_Inr split: prod.splits option.splits if_splits
        dest!: kill_transition_ctr kso_enqueue_ctr append_history_ctr)
qed

lemma do_kill_Inr:
  assumes ok: "kill_ok u4 d" and fresh: "ids_fresh u4 d'" and e: "do_kill sha u4 sess r reason now d = Inr d'"
  obtains k where "kill_ok u4 d'" "k \<in> set (kstates d')" "ks_key k = (u_tenant r, u_team r, u_project r, u_agent r)"
    "ks_state k = Killed"
proof -
  from e obtain k d1 where g: "kill_get_or_create u4 sess (u_tenant r) (u_team r) (u_project r) (u_agent r) now d = Inr (k, d1)"
    by (auto simp: do_kill_def bindR_eq_Inr)
  have inj: "ids_fresh u4 d1" using ids_fresh_mono [OF fresh do_kill_ctr(2) [OF e g]] .
  note gf = kill_get_or_create_Inr [OF g] and ok1 = kill_ok_create [OF ok inj g]
  have tk: "ks_tenant k = sess" using gf(3) by (simp add: ks_key_def)
  show thesis
  proof (cases "ks_state k")
    case Killed
    then have "d' = d1" using e g by (simp add: do_kill_def)
    then show thesis using that [of k] Killed gf(1-3) ok1 by simp
  next
    case KClear
    note tr = kill_transition_row [OF kill_okD(2) [OF ok1] gf(2) tk KClear, of Killed "Some reason" now]
    let ?d2 = "d1\<lparr>kstates := update_where (\<lambda>x. x = k) (ks_flip Killed (Some reason) now) (kstates d1)\<rparr>"
    from e g KClear tr gf(1) obtain payload d3 h where
      q: "kso_enqueue u4 sess sess (ks_id k) (ks_policy k) (ks_version k + 1) TKill payload now ?d2 = Inr d3"
      and a: "\<exists>n. append_history sha u4 sess sess ''kill_switch_enforcement'' (ks_id k) ''kill'' ''kill-switch'' now n d3 = Inr (h, d')"
      by (auto simp: do_kill_def try_transition_to_killed_def bindR_eq_Inr)
    obtain ks: "kstates d3 = update_where (\<lambda>x. x = k) (ks_flip Killed (Some reason) now) (kstates d1)" and ok3: "kill_ok u4 d3"
      using kill_decide [OF ok1 gf(2) tk, of Killed payload now "Some reason" d3] q KClear by auto
    from a obtain n where ah: "append_history sha u4 sess sess ''kill_switch_enforcement'' (ks_id k) ''kill'' ''kill-switch'' now n d3 = Inr (h, d')"
      by blast
    have fr: "kstates d' = kstates d3" "koutbox d' = koutbox d3" using append_history_frame [OF ah] by simp_all
    have "uuid_ctr d3 \<le> uuid_ctr d'" using append_history_Inr(1) [OF ah] by simp
    then have "kill_ok u4 d'" using kill_ok_frame [OF ok3 fr(1)] fr(2) by simp
    moreover have "ks_flip Killed (Some reason) now k \<in> set (kstates d')" using gf(2) by (simp add: fr ks set_update_where)
    ultimately show thesis
      using that gf(1,3) by (force simp: ks_flip_def ks_key_def)
  qed
qed

section \<open>Recovery\<close>

definition cleared_row :: "instant \<Rightarrow> kstate \<Rightarrow> kstate" where
  "cleared_row now k = ks_flip KClear (ks_reason k) now k"

lemma clear_scope_Inr:
  assumes ok: "kill_ok u4 d" and k: "k \<in> set (kstates d)" "ks_tenant k = sess" "ks_state k = Killed"
    and e: "clear_scope sha u4 sess k now d = Inr (b, d')"
  shows "b" "kill_ok u4 d'" "kstates d' = update_where (\<lambda>x. x = k) (cleared_row now) (kstates d)" "auths d' = auths d"
    "\<exists>r payload. koutbox d' = koutbox d @ [r] \<and> decision_row r sess (ks_id k) (ks_policy k) (ks_version k + 1) TClear payload
       \<and> build_clear_payload sess (ks_team k) (ks_project k) (ks_agent k) (ks_policy k) (ks_version k + 1) now = Inr payload"
proof -
  note tr = try_transition_to_clear_row [OF kill_okD(2) [OF ok] k, of now]
  let ?d1 = "d\<lparr>kstates := update_where (\<lambda>x. x = k) (ks_flip KClear (ks_reason k) now) (kstates d)\<rparr>"
  from e k(2) tr obtain payload d2 h n where
    p: "build_clear_payload sess (ks_team k) (ks_project k) (ks_agent k) (ks_policy k) (ks_version k + 1) now = Inr payload"
    and q: "kso_enqueue u4 sess sess (ks_id k) (ks_policy k) (ks_version k + 1) TClear payload now ?d1 = Inr d2"
    and a: "append_history sha u4 sess sess ''kill_switch_enforcement'' (ks_id k) ''clear'' ''kill-switch'' now n d2 = Inr (h, d')"
    and b by (auto simp: clear_scope_def bindR_eq_Inr)
  show b by fact
  note fr = append_history_frame [OF a]
  have auth: "auths d2 = auths d" using q by (cases rule: kso_enqueue_Inr) simp_all
  obtain r where r: "koutbox d2 = koutbox d @ [r]" "kill_ok u4 d2"
    "kstates d2 = update_where (\<lambda>x. x = k) (ks_flip KClear (ks_reason k) now) (kstates d)"
    "decision_row r sess (ks_id k) (ks_policy k) (ks_version k + 1) TClear payload"
    using kill_decide [OF ok k(1,2), of KClear payload now "ks_reason k" d2] q k(3) by auto
  have "uuid_ctr d2 \<le> uuid_ctr d'" using append_history_Inr(1) [OF a] by simp
  then show "kill_ok u4 d'" using kill_ok_frame [OF r(2) fr(4)] fr(5) by simp
  have "update_where (\<lambda>x. x = k) (ks_flip KClear (ks_reason k) now) xs = update_where (\<lambda>x. x = k) (cleared_row now) xs" for xs
    by (simp add: update_where_def cleared_row_def)
  then show "kstates d' = update_where (\<lambda>x. x = k) (cleared_row now) (kstates d)" by (simp add: fr r)
  show "auths d' = auths d" by (simp add: fr auth)
  show "\<exists>r payload. koutbox d' = koutbox d @ [r] \<and> decision_row r sess (ks_id k) (ks_policy k) (ks_version k + 1) TClear payload
       \<and> build_clear_payload sess (ks_team k) (ks_project k) (ks_agent k) (ks_policy k) (ks_version k + 1) now = Inr payload"
    using r p by (auto simp: fr)
qed

lemma cleared_row_state [simp]: "ks_state (cleared_row now k) = KClear" "ks_id (cleared_row now k) = ks_id k"
  "ks_reason (cleared_row now k) = ks_reason k" "ks_key (cleared_row now k) = ks_key k"
  by (simp_all add: cleared_row_def ks_flip_def ks_key_def)

lemma update_where_twice:
  assumes "\<And>x. x \<in> set rows \<Longrightarrow> P x \<Longrightarrow> \<not> Q (f x)" "\<And>x. x \<in> set rows \<Longrightarrow> P x \<Longrightarrow> \<not> Q x"
  shows "update_where Q f (update_where P f rows) = update_where (\<lambda>x. P x \<or> Q x) f rows"
  using assms by (induction rows) auto

text \<open>Clearing a set of killed scopes, read before any of them changes.\<close>

lemma clear_scopes_Inr:
  assumes "kill_ok u4 d" "set ks \<subseteq> {k \<in> set (kstates d). ks_tenant k = sess \<and> ks_state k = Killed}" "distinct ks"
    "clear_scopes sha u4 sess ks now d = Inr (ids, d')"
  shows "kill_ok u4 d' \<and> ids = map ks_id ks \<and> kstates d' = update_where (\<lambda>x. x \<in> set ks) (cleared_row now) (kstates d)
    \<and> auths d' = auths d"
  using assms
proof (induction ks arbitrary: d ids d')
  case Nil
  then show ?case by (simp add: update_where_none)
next
  case (Cons k ks)
  from Cons.prems(4) obtain b d1 rest where c: "clear_scope sha u4 sess k now d = Inr (b, d1)"
    and cs: "clear_scopes sha u4 sess ks now d1 = Inr (rest, d')" and ids: "ids = (if b then ks_id k # rest else rest)"
    by (auto simp: bindR_eq_Inr)
  have k: "k \<in> set (kstates d)" "ks_tenant k = sess" "ks_state k = Killed" using Cons.prems(2) by auto
  note c1 = clear_scope_Inr [OF Cons.prems(1) k c]
  have sub: "set ks \<subseteq> {x \<in> set (kstates d1). ks_tenant x = sess \<and> ks_state x = Killed}"
    using Cons.prems(2,3) by (auto simp: c1(3) set_update_where)
  from Cons.IH [OF c1(2) sub _ cs] Cons.prems(3)
  have ih: "kill_ok u4 d'" "rest = map ks_id ks" "auths d' = auths d1"
    "kstates d' = update_where (\<lambda>x. x \<in> set ks) (cleared_row now) (kstates d1)" by auto
  have "update_where (\<lambda>x. x \<in> set ks) (cleared_row now) (kstates d1)
      = update_where (\<lambda>x. x = k \<or> x \<in> set ks) (cleared_row now) (kstates d)"
    unfolding c1(3)
  proof (rule update_where_twice)
    show "cleared_row now x \<notin> set ks" for x
      using sub cleared_row_state(1) [of now x] by (metis (mono_tags, lifting) kill_state.distinct(1) mem_Collect_eq subsetD)
    show "x \<notin> set ks" if "x = k" for x using that Cons.prems(3) by simp
  qed
  then show ?case using ih ids c1(1,4) by simp
qed

definition unauthorized_kill :: "ident \<Rightarrow> ident \<Rightarrow> kstate \<Rightarrow> bool" where
  "unauthorized_kill t agent k \<longleftrightarrow> ks_tenant k = t \<and> ks_agent k = agent \<and> ks_state k = Killed \<and> ks_reason k = Some UNAUTHORIZED_AGENT"

lemma authorize_agent_Inr:
  assumes ok: "kill_ok u4 d" and e: "authorize_agent sha u4 sess t agent now d = Inr (ids, d')"
  shows "t = sess" "kill_ok u4 d'" "is_authorized t t agent d'"
    "ids = map ks_id (filter (unauthorized_kill t agent) (kstates d))"
    "kstates d' = update_where (unauthorized_kill t agent) (cleared_row now) (kstates d)"
proof -
  show t: "t = sess" using e by (auto simp: authorize_agent_def bindR_eq_Inr)
  define rows where "rows = snd (insert_nothing (\<lambda>a. (aa_tenant a, aa_agent a))
    \<lparr>aa_tenant = t, aa_agent = agent, aa_at = now\<rparr> (auths d))"
  let ?d1 = "d\<lparr>auths := rows\<rparr>"
  let ?ks = "killed_scopes_for_agent sess t agent (Some UNAUTHORIZED_AGENT) ?d1"
  have ks: "?ks = filter (unauthorized_kill t agent) (kstates d)"
    using t by (auto simp: killed_scopes_for_agent_def unauthorized_kill_def intro!: filter_cong)
  have cs: "clear_scopes sha u4 sess ?ks now ?d1 = Inr (ids, d')"
    using e t by (simp add: authorize_agent_def rows_def case_prod_beta Let_def)
  have ok1: "kill_ok u4 ?d1" by (rule kill_ok_frame [OF ok]) simp_all
  have "distinct (kstates d)" using kill_okD(2) [OF ok] by (simp add: distinct_map)
  then have dist: "distinct ?ks" by (simp add: ks)
  have sub: "set ?ks \<subseteq> {k \<in> set (kstates ?d1). ks_tenant k = sess \<and> ks_state k = Killed}"
    unfolding ks using t by (auto simp: unauthorized_kill_def)
  note c = clear_scopes_Inr [OF ok1 sub dist cs]
  show "kill_ok u4 d'" "ids = map ks_id (filter (unauthorized_kill t agent) (kstates d))" using c ks by simp_all
  show "kstates d' = update_where (unauthorized_kill t agent) (cleared_row now) (kstates d)"
    using c by (simp add: ks) (rule update_where_cong, simp)
  have "\<exists>a \<in> set rows. aa_tenant a = t \<and> aa_agent a = agent"
    by (auto simp: rows_def insert_nothing_def image_iff)
  then show "is_authorized t t agent d'" using c by (auto simp: is_authorized_def list_ex_iff)
qed

text \<open>The administrative clear.\<close>

lemma clear_kill_switch_Inr:
  assumes ok: "kill_ok u4 d" and e: "clear_kill_switch sha u4 sess t team proj agent now d = Inr (b, d')"
  shows "kill_ok u4 d'" "b \<Longrightarrow> t = sess \<and> (\<exists>k \<in> set (kstates d). ks_key k = (sess, team, proj, agent) \<and> ks_state k = Killed
      \<and> kstates d' = update_where (\<lambda>x. x = k) (cleared_row now) (kstates d))"
    "\<not> b \<Longrightarrow> d' = d \<and> (\<forall>k \<in> set (kstates d). ks_key k = (sess, team, proj, agent) \<longrightarrow> t = sess \<longrightarrow> ks_state k = KClear)"
proof -
  let ?f = "find_state sess t team proj agent d"
  have "kill_ok u4 d' \<and> (b \<longrightarrow> t = sess \<and> (\<exists>k \<in> set (kstates d). ks_key k = (sess, team, proj, agent) \<and> ks_state k = Killed
      \<and> kstates d' = update_where (\<lambda>x. x = k) (cleared_row now) (kstates d)))
    \<and> (\<not> b \<longrightarrow> d' = d \<and> (\<forall>k \<in> set (kstates d). ks_key k = (sess, team, proj, agent) \<longrightarrow> t = sess \<longrightarrow> ks_state k = KClear))"
  proof (cases ?f)
    case None
    then have "ks_key k \<noteq> (t, team, proj, agent)" if "k \<in> set (kstates d)" "ks_tenant k = sess" for k
      using that by (auto simp: find_state_def find_None_iff)
    then show ?thesis using None e ok by (auto simp: clear_kill_switch_def ks_key_def)
  next
    case (Some k)
    then have k: "k \<in> set (kstates d)" "ks_tenant k = sess" "ks_key k = (t, team, proj, agent)"
      using find_eq_Some_in [of _ "kstates d" k] by (auto simp: find_state_def)
    then have t: "t = sess" by (simp add: ks_key_def)
    show ?thesis
    proof (cases "ks_state k")
      case KClear
      have "x = k" if "x \<in> set (kstates d)" "ks_key x = (sess, team, proj, agent)" for x
        using distinct_key_unique [OF kill_okD(1) [OF ok] that(1) k(1)] that(2) k(3) t by simp
      then show ?thesis using Some e ok KClear by (auto simp: clear_kill_switch_def)
    next
      case Killed
      then have c: "clear_scope sha u4 sess k now d = Inr (b, d')"
        using Some e by (simp add: clear_kill_switch_def)
      show ?thesis using clear_scope_Inr [OF ok k(1,2) Killed c] k t Killed by blast
    qed
  qed
  then show "kill_ok u4 d'" "b \<Longrightarrow> t = sess \<and> (\<exists>k \<in> set (kstates d). ks_key k = (sess, team, proj, agent) \<and> ks_state k = Killed
      \<and> kstates d' = update_where (\<lambda>x. x = k) (cleared_row now) (kstates d))"
    "\<not> b \<Longrightarrow> d' = d \<and> (\<forall>k \<in> set (kstates d). ks_key k = (sess, team, proj, agent) \<longrightarrow> t = sess \<longrightarrow> ks_state k = KClear)"
    by blast+
qed

section \<open>Reachable states\<close>

text \<open>
  Every entry point of the kill switch, each committing or rolling back whole, in any order
  and for any tenants; \<open>elsewhere\<close> is a transaction of another component, which writes neither
  kill-switch table.
\<close>

inductive kill_reach ::
  "(string \<Rightarrow> string) \<Rightarrow> u4gen \<Rightarrow> (json \<Rightarrow> string) \<Rightarrow> kill_settings \<Rightarrow> db \<Rightarrow> bool"
  for sha u4 pystr st where
  start: "kstates d = [] \<Longrightarrow> koutbox d = [] \<Longrightarrow> kill_reach sha u4 pystr st d"
| evaluate: "kill_reach sha u4 pystr st d
    \<Longrightarrow> kill_reach sha u4 pystr st (evaluate_kill_switch sha u4 pystr st fault env r now d)"
| authorize: "kill_reach sha u4 pystr st d
    \<Longrightarrow> authorize_agent_and_publish sha u4 pystr st env t agent now d = Inr (ids, d') \<Longrightarrow> kill_reach sha u4 pystr st d'"
| revoke: "kill_reach sha u4 pystr st d \<Longrightarrow> kill_reach sha u4 pystr st (revoke_agent sess t agent d)"
| clear: "kill_reach sha u4 pystr st d
    \<Longrightarrow> clear_kill_switch_and_publish sha u4 pystr st env t team proj agent now d = Inr (b, d') \<Longrightarrow> kill_reach sha u4 pystr st d'"
| drain: "kill_reach sha u4 pystr st d \<Longrightarrow> kill_reach sha u4 pystr st (kso_drain_tenant pystr st env t now d)"
| elsewhere: "kill_reach sha u4 pystr st d \<Longrightarrow> kstates d' = kstates d \<Longrightarrow> koutbox d' = koutbox d
    \<Longrightarrow> uuid_ctr d \<le> uuid_ctr d' \<Longrightarrow> kill_reach sha u4 pystr st d'"

lemma kso_drain_frame:
  "kstates (kso_drain_tenant pystr st env t now d) = kstates d"
  "uuid_ctr (kso_drain_tenant pystr st env t now d) = uuid_ctr d"
  "auths (kso_drain_tenant pystr st env t now d) = auths d"
  "map decision (koutbox (kso_drain_tenant pystr st env t now d)) = map decision (koutbox d)"
  by (simp_all add: kso_drain_tenant_def Let_def kso.drain_decisions)

lemma kill_ok_drain: "kill_ok u4 d \<Longrightarrow> kill_ok u4 (kso_drain_tenant pystr st env t now d)"
  using kill_ok_frame [of u4 d] by (simp add: kso_drain_frame)

lemma kill_txn_Inr:
  assumes "kill_txn sha u4 st r now d = Inr d'"
  obtains (quiet) "detect_reason (is_tenant_gated (u_tenant r) (u_tenant r) d)
      (is_tenant_gated (u_tenant r) (u_tenant r) d \<and> is_authorized (u_tenant r) (u_tenant r) (u_agent r) d)
      (u_cost r) (kc_max_tx st) = None" "d' = d"
  | (kill) reason where "do_kill sha u4 (u_tenant r) r reason now d = Inr d'"
      "detect_reason (is_tenant_gated (u_tenant r) (u_tenant r) d)
      (is_tenant_gated (u_tenant r) (u_tenant r) d \<and> is_authorized (u_tenant r) (u_tenant r) (u_agent r) d)
      (u_cost r) (kc_max_tx st) = Some reason"
proof -
  let ?x = "detect_reason (is_tenant_gated (u_tenant r) (u_tenant r) d)
      (is_tenant_gated (u_tenant r) (u_tenant r) d \<and> is_authorized (u_tenant r) (u_tenant r) (u_agent r) d)
      (u_cost r) (kc_max_tx st)"
  have e: "(case ?x of None \<Rightarrow> Inr d | Some reason \<Rightarrow> do_kill sha u4 (u_tenant r) r reason now d) = Inr d'"
    using assms unfolding kill_txn_def Let_def by (elim bindRE)
  show thesis
  proof (cases ?x)
    case None
    with e show thesis by (intro quiet) simp_all
  next
    case (Some reason)
    with e show thesis by (intro kill [of reason]) simp_all
  qed
qed

lemma kill_txn_ok:
  assumes "kill_ok u4 d" "ids_fresh u4 d1" "kill_txn sha u4 st r now d = Inr d1"
  shows "kill_ok u4 d1"
  using assms(3)
proof (cases rule: kill_txn_Inr)
  case quiet
  then show ?thesis using assms by simp
next
  case (kill reason)
  then show ?thesis using do_kill_Inr [OF assms(1,2)] by blast
qed

lemma kill_txn_ctr:
  assumes "kill_txn sha u4 st r now d = Inr d1"
  shows "uuid_ctr d \<le> uuid_ctr d1"
  using assms
proof (cases rule: kill_txn_Inr)
  case (kill reason)
  from kill(1) obtain k d2 where
    g: "kill_get_or_create u4 (u_tenant r) (u_tenant r) (u_team r) (u_project r) (u_agent r) now d = Inr (k, d2)"
    by (auto simp: do_kill_def bindR_eq_Inr)
  from do_kill_ctr [OF kill(1) g] show ?thesis by simp
qed simp

lemma evaluate_kill_switch_cases:
  obtains "evaluate_kill_switch sha u4 pystr st fault env r now d = d"
  | d1 where "kill_txn sha u4 st r now d = Inr d1"
      "evaluate_kill_switch sha u4 pystr st fault env r now d = kso_drain_tenant pystr st env (u_tenant r) now d1"
proof -
  note step = evaluate_kill_switch_def [of sha u4 pystr st fault env r now d]
  show thesis
  proof (cases "kc_enabled st \<and> fault = None")
    case on: True
    show thesis
    proof (cases "kill_txn sha u4 st r now d")
      case (Inl x)
      then show thesis using on that(1) step by simp
    next
      case (Inr d1)
      then show thesis using on that(2) step by simp
    qed
  next
    case False
    then show thesis using that(1) step by (cases fault) auto
  qed
qed

lemma kill_ok_evaluate:
  assumes "kill_ok u4 d" "ids_fresh u4 (evaluate_kill_switch sha u4 pystr st fault env r now d)"
  shows "kill_ok u4 (evaluate_kill_switch sha u4 pystr st fault env r now d)"
proof (cases rule: evaluate_kill_switch_cases [of sha u4 pystr st fault env r now d])
  case 1
  then show ?thesis using assms(1) by simp
next
  case (2 d1)
  have "ids_fresh u4 d1" using assms(2) by (simp add: 2(2) kso_drain_frame)
  from kill_ok_drain [OF kill_txn_ok [OF assms(1) this 2(1)]] show ?thesis by (simp add: 2(2))
qed

lemma evaluate_kill_switch_ctr: "uuid_ctr d \<le> uuid_ctr (evaluate_kill_switch sha u4 pystr st fault env r now d)"
proof (cases rule: evaluate_kill_switch_cases [of sha u4 pystr st fault env r now d])
  case (2 d1)
  then show ?thesis using kill_txn_ctr [OF 2(1)] by (simp add: kso_drain_frame)
qed simp

lemma clear_scope_ctr: "clear_scope sha u4 sess k now d = Inr (b, d') \<Longrightarrow> uuid_ctr d \<le> uuid_ctr d'"
  by (auto simp: clear_scope_def try_transition_to_clear_def Let_def bindR_eq_Inr split: prod.splits option.splits
      dest!: kill_transition_ctr kso_enqueue_ctr append_history_ctr)

lemma clear_scopes_ctr: "clear_scopes sha u4 sess ks now d = Inr (ids, d') \<Longrightarrow> uuid_ctr d \<le> uuid_ctr d'"
proof (induction ks arbitrary: d ids)
  case (Cons k ks)
  from Cons.prems obtain b d1 rest where "clear_scope sha u4 sess k now d = Inr (b, d1)"
    "clear_scopes sha u4 sess ks now d1 = Inr (rest, d')" by (auto simp: bindR_eq_Inr)
  then show ?case using clear_scope_ctr Cons.IH by fastforce
qed simp

lemma authorize_agent_ctr: "authorize_agent sha u4 sess t agent now d = Inr (ids, d') \<Longrightarrow> uuid_ctr d \<le> uuid_ctr d'"
  by (auto simp: authorize_agent_def bindR_eq_Inr Let_def split: prod.splits dest!: clear_scopes_ctr)

lemma clear_kill_switch_ctr: "clear_kill_switch sha u4 sess t team proj agent now d = Inr (b, d') \<Longrightarrow> uuid_ctr d \<le> uuid_ctr d'"
  by (auto simp: clear_kill_switch_def split: option.splits if_splits dest!: clear_scope_ctr)

lemma kill_reach_ok: "kill_reach sha u4 pystr st d \<Longrightarrow> ids_fresh u4 d \<Longrightarrow> kill_ok u4 d"
proof (induction rule: kill_reach.induct)
  case (start d)
  then show ?case by (simp add: kill_ok_def)
next
  case (evaluate d fault env r now)
  then show ?case using ids_fresh_mono [OF _ evaluate_kill_switch_ctr] by (simp add: kill_ok_evaluate)
next
  case (authorize d env t agent now ids d')
  then obtain d1 where a: "authorize_agent sha u4 t t agent now d = Inr (ids, d1)" "d' = kso_drain_tenant pystr st env t now d1"
    by (auto simp: authorize_agent_and_publish_def bindR_eq_Inr)
  have "ids_fresh u4 d1" using authorize.prems by (simp add: a(2) kso_drain_frame)
  from authorize.IH [OF ids_fresh_mono [OF this authorize_agent_ctr [OF a(1)]]]
  show ?case using authorize_agent_Inr(2) [OF _ a(1)] by (simp add: a(2) kill_ok_drain)
next
  case (revoke d sess t agent)
  then show ?case by (auto simp: revoke_agent_def intro: kill_ok_frame)
next
  case (clear d env t team proj agent now b d')
  then obtain d1 where c: "clear_kill_switch sha u4 t t team proj agent now d = Inr (b, d1)"
    "d' = (if b then kso_drain_tenant pystr st env t now d1 else d1)"
    by (auto simp: clear_kill_switch_and_publish_def bindR_eq_Inr)
  have "ids_fresh u4 d1" using clear.prems by (simp add: c(2) kso_drain_frame split: if_splits)
  from clear.IH [OF ids_fresh_mono [OF this clear_kill_switch_ctr [OF c(1)]]]
  show ?case using clear_kill_switch_Inr(1) [OF _ c(1)] by (simp add: c(2) kill_ok_drain)
next
  case (drain d env t now)
  then show ?case by (simp add: kill_ok_drain kso_drain_frame)
next
  case (elsewhere d d')
  then show ?case using kill_ok_frame [of u4 d d'] ids_fresh_mono [of u4 d' d] by simp
qed

text \<open>An event with no reason to kill changes nothing but what the drain delivers.\<close>

lemma evaluate_kill_switch_quiet:
  assumes "detect_reason (is_tenant_gated (u_tenant r) (u_tenant r) d)
      (is_tenant_gated (u_tenant r) (u_tenant r) d \<and> is_authorized (u_tenant r) (u_tenant r) (u_agent r) d)
      (u_cost r) (kc_max_tx st) = None"
  shows "evaluate_kill_switch sha u4 pystr st fault env r now d
    \<in> {d, kso_drain_tenant pystr st env (u_tenant r) now d}"
  using assms by (auto simp: evaluate_kill_switch_def kill_txn_def bindR_def Let_def tenant_session_def split: option.splits)

text \<open>A killed scope's newest decision is a kill.\<close>

lemma scope_ok_newest:
  assumes "scope_ok k rows" "ks_state k = Killed"
  shows "\<exists>r \<in> set rows. ob_version r = ks_version k \<and> ob_transition r = TKill"
proof -
  have "odd (ks_version k)" "0 \<le> ks_version k" using assms by (simp_all add: scope_ok_def)
  then have "1 \<le> ks_version k" by presburger
  then have "(ks_version k, TKill) \<in> set (map (\<lambda>v. (v, if odd v then TKill else TClear)) [1..ks_version k])"
    using \<open>odd (ks_version k)\<close> by (auto simp: image_iff)
  then have "(ks_version k, TKill) \<in> set (map (\<lambda>r. (ob_version r, ob_transition r)) rows)"
    using assms(1) by (simp add: scope_ok_def)
  then show ?thesis by auto
qed

end
