(* ===== verification/Ingest_Posting.thy ===== *)
theory Ingest_Posting
  imports Kill_Reach
begin

text \<open>
  From event to ledger: \<open>delta.ingest\<close>'s errors, resolver and posting. \<open>uuid.uuid5\<close> is the
  parameter \<open>u5\<close>, a function of the namespace and the name. An exception that reaches the
  classifier is a list of exception objects, the raised one first, linked by the indices of
  their causes and contexts.
\<close>

section \<open>Errors\<close>

record exn =
  ex_class :: py_exc
  ex_cause :: "nat option"
  ex_context :: "nat option"

definition raised :: "py_exc \<Rightarrow> exn list" where
  "raised x = [\<lparr>ex_class = x, ex_cause = None, ex_context = None\<rparr>]"

record perm_error =
  pe_reason :: dlq_reason
  pe_tenant :: "ident option"
  pe_event :: "string option"
  pe_type :: "string option"

datatype ingest_exc = Permanent perm_error | Raised "exn list"

definition TRANSIENT_TYPES :: "py_exc list" where
  "TRANSIENT_TYPES = [OperationalError, InterfaceError, SATimeoutError, TimeoutError, ConnectionError, OSError]"

text \<open>The walk of \<open>is_transient\<close>; a link that leads out of the list ends it.\<close>

function transient_walk :: "exn list \<Rightarrow> nat set \<Rightarrow> nat option \<Rightarrow> bool" where
  "transient_walk es seen cur =
     (case cur of
        None \<Rightarrow> False
      | Some i \<Rightarrow>
          if i \<in> seen \<or> length es \<le> i then False
          else if ex_class (es ! i) \<in> set TRANSIENT_TYPES then True
          else transient_walk es (insert i seen)
                 (if ex_cause (es ! i) \<noteq> None then ex_cause (es ! i) else ex_context (es ! i)))"
  by pat_completeness auto
termination
proof (relation "measure (\<lambda>(es, seen, cur). card ({..<length es} - seen))")
  fix es :: "exn list" and seen cur i
  assume "\<not> (i \<in> seen \<or> length es \<le> i)"
  then have i: "i \<in> {..<length es} - seen" by simp
  have "{..<length es} - insert i seen = ({..<length es} - seen) - {i}" by blast
  then have "card ({..<length es} - insert i seen) < card ({..<length es} - seen)"
    using card_Diff1_less [OF _ i] by simp
  then show "((es, insert i seen, if ex_cause (es ! i) \<noteq> None then ex_cause (es ! i) else ex_context (es ! i)), es, seen, cur)
      \<in> measure (\<lambda>(es, seen, cur). card ({..<length es} - seen))"
    by (simp only: in_measure case_prod_conv)
qed simp

declare transient_walk.simps [simp del]

definition is_transient :: "exn list \<Rightarrow> bool" where
  "is_transient es = transient_walk es {} (Some 0)"

lemma is_transient_raised [simp]: "is_transient (raised x) \<longleftrightarrow> x \<in> set TRANSIENT_TYPES"
  by (simp add: is_transient_def raised_def transient_walk.simps)

text \<open>The chain an exception carries: the objects reached by following the links.\<close>

definition next_exn :: "exn list \<Rightarrow> nat \<Rightarrow> nat option" where
  "next_exn es i = (if ex_cause (es ! i) \<noteq> None then ex_cause (es ! i) else ex_context (es ! i))"

inductive chained :: "exn list \<Rightarrow> nat \<Rightarrow> nat \<Rightarrow> bool" for es where
  here: "i < length es \<Longrightarrow> chained es i i"
| further: "i < length es \<Longrightarrow> next_exn es i = Some j \<Longrightarrow> chained es j k \<Longrightarrow> chained es i k"

lemma transient_walk_chained:
  "transient_walk es seen (Some i) \<Longrightarrow> \<exists>k. chained es i k \<and> ex_class (es ! k) \<in> set TRANSIENT_TYPES"
proof (induction es seen "Some i" arbitrary: i rule: transient_walk.induct)
  case (1 es seen i)
  then have i: "i \<notin> seen" "i < length es" by (simp_all add: transient_walk.simps split: if_splits)
  show ?case
  proof (cases "ex_class (es ! i) \<in> set TRANSIENT_TYPES")
    case True
    then show ?thesis using i by (blast intro: chained.here)
  next
    case False
    then have w: "transient_walk es (insert i seen) (next_exn es i)"
      using 1(2) i by (simp add: transient_walk.simps [of es seen] next_exn_def)
    then obtain j where j: "next_exn es i = Some j" by (cases "next_exn es i") (simp_all add: transient_walk.simps)
    with w have "transient_walk es (insert i seen) (Some j)" by simp
    with 1(1) [of i j] i False j obtain k where "chained es j k" "ex_class (es ! k) \<in> set TRANSIENT_TYPES"
      by (auto simp: next_exn_def)
    then show ?thesis using i j by (blast intro: chained.further)
  qed
qed

lemma transient_walk_False:
  assumes "\<not> transient_walk es seen (Some i)"
    "\<And>s j. s \<in> seen \<Longrightarrow> ex_class (es ! s) \<notin> set TRANSIENT_TYPES \<and> (next_exn es s = Some j \<longrightarrow> j \<in> insert i seen)"
  shows "\<exists>C. i \<in> C \<and> (\<forall>c \<in> C. c < length es \<longrightarrow>
    ex_class (es ! c) \<notin> set TRANSIENT_TYPES \<and> (\<forall>j. next_exn es c = Some j \<longrightarrow> j \<in> C))"
  using assms
proof (induction es seen "Some i" arbitrary: i rule: transient_walk.induct)
  case (1 es seen i)
  consider "i \<in> seen" | "length es \<le> i" | "i \<notin> seen" "i < length es" by force
  then show ?case
  proof cases
    case 1
    with "1.prems"(2) show ?thesis by (intro exI [of _ seen]) blast
  next
    case 2
    with "1.prems"(2) show ?thesis by (intro exI [of _ "insert i seen"]) auto
  next
    case 3
    have cls: "ex_class (es ! i) \<notin> set TRANSIENT_TYPES" and w: "\<not> transient_walk es (insert i seen) (next_exn es i)"
      using "1.prems"(1) 3 by (simp_all add: transient_walk.simps [of es seen] next_exn_def split: if_splits)
    show ?thesis
    proof (cases "next_exn es i")
      case None
      with cls "1.prems"(2) show ?thesis by (intro exI [of _ "insert i seen"]) auto
    next
      case (Some j)
      have inv: "ex_class (es ! s) \<notin> set TRANSIENT_TYPES \<and> (next_exn es s = Some k \<longrightarrow> k \<in> insert j (insert i seen))"
        if "s \<in> insert i seen" for s k
        using that "1.prems"(2) cls Some by auto
      from "1.hyps" [of i j] 3 cls Some w inv
      obtain C where C: "j \<in> C" "\<forall>c \<in> C. c < length es \<longrightarrow>
          ex_class (es ! c) \<notin> set TRANSIENT_TYPES \<and> (\<forall>j. next_exn es c = Some j \<longrightarrow> j \<in> C)"
        by (auto simp: next_exn_def)
      then show ?thesis using cls Some by (intro exI [of _ "insert i C"]) auto
    qed
  qed
qed

lemma chained_closed:
  "chained es i k \<Longrightarrow> i \<in> C \<Longrightarrow> (\<forall>c \<in> C. c < length es \<longrightarrow> (\<forall>j. next_exn es c = Some j \<longrightarrow> j \<in> C)) \<Longrightarrow> k \<in> C \<and> k < length es"
  by (induction rule: chained.induct) auto

text \<open>The classifier finds a transient error exactly when the chain has one, cycles included.\<close>

lemma is_transient_iff:
  "is_transient es \<longleftrightarrow> (\<exists>k. chained es 0 k \<and> ex_class (es ! k) \<in> set TRANSIENT_TYPES)"
proof
  assume "is_transient es"
  then show "\<exists>k. chained es 0 k \<and> ex_class (es ! k) \<in> set TRANSIENT_TYPES"
    unfolding is_transient_def by (rule transient_walk_chained)
next
  assume "\<exists>k. chained es 0 k \<and> ex_class (es ! k) \<in> set TRANSIENT_TYPES"
  then obtain k where k: "chained es 0 k" "ex_class (es ! k) \<in> set TRANSIENT_TYPES" by blast
  show "is_transient es"
  proof (rule ccontr)
    assume "\<not> is_transient es"
    then obtain C where C: "0 \<in> C" "\<forall>c \<in> C. c < length es \<longrightarrow>
        ex_class (es ! c) \<notin> set TRANSIENT_TYPES \<and> (\<forall>j. next_exn es c = Some j \<longrightarrow> j \<in> C)"
      unfolding is_transient_def using transient_walk_False [of es "{}" 0] by blast
    from chained_closed [OF k(1) C(1)] C(2) k(2) show False by blast
  qed
qed

section \<open>Resolver\<close>

type_synonym u5gen = "string \<Rightarrow> string \<Rightarrow> ident"

definition DELTA_ACCOUNT_NAMESPACE :: string where "DELTA_ACCOUNT_NAMESPACE = ''d0e1f2a3-0004-4000-8000-000000000004''"
definition POSTING_NAMESPACE :: string where "POSTING_NAMESPACE = ''d0e1f2a3-0004-4000-8000-00000000d004''"
definition REVENUE_POSTING_NAMESPACE :: string where "REVENUE_POSTING_NAMESPACE = ''d0e1f2a3-0005-4000-8000-00000000d005''"

definition account_id_of :: "u5gen \<Rightarrow> ident \<Rightarrow> string \<Rightarrow> string \<Rightarrow> ident" where
  "account_id_of u5 tenant cur role = u5 DELTA_ACCOUNT_NAMESPACE (tenant @ '':'' @ cur @ '':'' @ role)"

record resolved_accounts =
  ra_expense :: ident
  ra_contra :: ident

record resolved_revenue_accounts =
  rr_receivable :: ident
  rr_revenue :: ident

definition resolve_account_ids :: "u5gen \<Rightarrow> ident \<Rightarrow> string \<Rightarrow> resolved_accounts" where
  "resolve_account_ids u5 tenant cur =
     \<lparr>ra_expense = account_id_of u5 tenant cur ''expense'',
      ra_contra = account_id_of u5 tenant cur ''spend_clearing''\<rparr>"

definition resolve_revenue_account_ids :: "u5gen \<Rightarrow> ident \<Rightarrow> string \<Rightarrow> resolved_revenue_accounts" where
  "resolve_revenue_account_ids u5 tenant cur =
     \<lparr>rr_receivable = account_id_of u5 tenant cur ''subscription_receivable'',
      rr_revenue = account_id_of u5 tenant cur ''subscription_revenue''\<rparr>"

text \<open>INSERT ... ON CONFLICT (account_id) DO NOTHING, under row-level security.\<close>

definition ensure_account :: "ident \<Rightarrow> account \<Rightarrow> db \<Rightarrow> py_exc + db" where
  "ensure_account sess a d =
     bindR (rls_check sess (acc_tenant a)) (\<lambda>_.
     bindR (guardR (is_currency (acc_currency a) \<and> is_name (acc_name a)) IntegrityError) (\<lambda>_.
     Inr (d\<lparr>accounts := snd (insert_nothing acc_id a (accounts d))\<rparr>)))"

definition ensure_accounts :: "u5gen \<Rightarrow> ident \<Rightarrow> ident \<Rightarrow> string \<Rightarrow> db \<Rightarrow> py_exc + resolved_accounts \<times> db" where
  "ensure_accounts u5 sess tenant cur d =
     (let res = resolve_account_ids u5 tenant cur in
      bindR (ensure_account sess \<lparr>acc_id = ra_expense res, acc_tenant = tenant, acc_type = EXPENSE,
        acc_currency = cur, acc_name = ''AI Spend Expense ('' @ cur @ '')''\<rparr> d) (\<lambda>d1.
      bindR (ensure_account sess \<lparr>acc_id = ra_contra res, acc_tenant = tenant, acc_type = LIABILITY,
        acc_currency = cur, acc_name = ''AI Spend Clearing ('' @ cur @ '')''\<rparr> d1) (\<lambda>d2.
      Inr (res, d2))))"

definition ensure_revenue_accounts ::
  "u5gen \<Rightarrow> ident \<Rightarrow> ident \<Rightarrow> string \<Rightarrow> db \<Rightarrow> py_exc + resolved_revenue_accounts \<times> db" where
  "ensure_revenue_accounts u5 sess tenant cur d =
     (let res = resolve_revenue_account_ids u5 tenant cur in
      bindR (ensure_account sess \<lparr>acc_id = rr_receivable res, acc_tenant = tenant, acc_type = ASSET,
        acc_currency = cur, acc_name = ''Subscription Receivable ('' @ cur @ '')''\<rparr> d) (\<lambda>d1.
      bindR (ensure_account sess \<lparr>acc_id = rr_revenue res, acc_tenant = tenant, acc_type = REVENUE,
        acc_currency = cur, acc_name = ''Subscription Revenue ('' @ cur @ '')''\<rparr> d1) (\<lambda>d2.
      Inr (res, d2))))"

section \<open>Usage posting\<close>

definition is_valid_tenant :: "json \<Rightarrow> bool" where
  "is_valid_tenant v = (case v of JStr s \<Rightarrow> dollar is_uuid s | _ \<Rightarrow> False)"

fun opt_str :: "json \<Rightarrow> string option" where
  "opt_str (JStr s) = Some s"
| "opt_str _ = None"

definition permanent :: "dlq_reason \<Rightarrow> ident option \<Rightarrow> string option \<Rightarrow> string option \<Rightarrow> ingest_exc" where
  "permanent reason tenant event type = Permanent \<lparr>pe_reason = reason, pe_tenant = tenant, pe_event = event, pe_type = type\<rparr>"

definition build_usage_record :: "(json \<Rightarrow> py_datetime option) \<Rightarrow> json \<Rightarrow> ingest_exc + usage_record" where
  "build_usage_record pdt payload =
     (case payload of
        JObj d \<Rightarrow>
          (let raw_type = jget ''event_type'' d; raw_tenant = jget ''tenant_id'' d;
               attr_tenant = (if is_valid_tenant raw_tenant then opt_str raw_tenant else None);
               attr_event = opt_str (jget ''event_id'' d); attr_type = opt_str raw_type in
           if raw_type \<noteq> JStr ''usage'' then Inl (permanent MALFORMED_PAYLOAD attr_tenant attr_event attr_type)
           else if \<not> is_valid_tenant raw_tenant then Inl (permanent UNKNOWN_TENANT None attr_event attr_type)
           else if \<not> jhas ''cost_estimate_cents'' d then Inl (permanent MALFORMED_PAYLOAD attr_tenant attr_event attr_type)
           else
             (case from_wire_cents (jget ''cost_estimate_cents'' d) DEFAULT_CURRENCY of
                Inl x \<Rightarrow> if is_value_error x \<or> x = TypeError
                         then Inl (permanent INVALID_COST attr_tenant attr_event attr_type)
                         else Inl (Raised (raised x))
              | Inr cost \<Rightarrow>
                  (case jget ''latency_ms'' d of
                     JInt _ \<Rightarrow>
                       (case mk_usage_record pdt raw_tenant (jget ''team_id'' d) (jget ''project_id'' d)
                               (jget ''agent_id'' d) (jget ''model'' d) (jget ''tokens_in'' d) (jget ''tokens_out'' d)
                               (JInt (minor_units cost)) DEFAULT_CURRENCY (jget ''request_id'' d)
                               (jget ''event_id'' d) (jget ''event_timestamp'' d) of
                          Inl _ \<Rightarrow> Inl (permanent MALFORMED_PAYLOAD attr_tenant attr_event attr_type)
                        | Inr r \<Rightarrow> Inr r)
                   | _ \<Rightarrow> Inl (permanent MALFORMED_PAYLOAD attr_tenant attr_event attr_type))))
      | _ \<Rightarrow> Inl (permanent MALFORMED_PAYLOAD None None None))"

definition build_transaction :: "u5gen \<Rightarrow> usage_record \<Rightarrow> resolved_accounts \<Rightarrow> py_exc + txn" where
  "build_transaction u5 r acc =
     bindR (mk_money (JInt (u_cost r)) (u_currency r)) (\<lambda>amount.
     let base = u_tenant r @ '':'' @ u_event r;
         txn_id = u5 POSTING_NAMESPACE base;
         debit_id = u5 POSTING_NAMESPACE (base @ '':debit'');
         credit_id = u5 POSTING_NAMESPACE (base @ '':credit'') in
     bindR (mk_entry debit_id (u_tenant r) (ra_expense acc) DEBIT amount (u_team r) (u_project r) (u_agent r)
       (Aware (u_time r))) (\<lambda>debit.
     bindR (mk_entry credit_id (u_tenant r) (ra_contra acc) CREDIT amount (u_team r) (u_project r) (u_agent r)
       (Aware (u_time r))) (\<lambda>credit.
     mk_transaction txn_id (u_tenant r) [debit, credit] (Aware (u_time r)) (''AI usage: '' @ u_model r))))"

definition post_usage :: "u5gen \<Rightarrow> usage_record \<Rightarrow> db \<Rightarrow> py_exc + append_result \<times> db" where
  "post_usage u5 r d =
     bindR (tenant_session (u_tenant r)) (\<lambda>_.
     bindR (ensure_accounts u5 (u_tenant r) (u_tenant r) (u_currency r) d) (\<lambda>(acc, d1).
     bindR (build_transaction u5 r acc) (\<lambda>x.
     append_transaction (u_tenant r) x (Some (u_event r)) None d1)))"

section \<open>Revenue posting\<close>

definition REVENUE_UNATTRIBUTED_ID :: ident where "REVENUE_UNATTRIBUTED_ID = ''00000000-0000-0000-0000-000000000000''"

definition revenue_dlq_event_id :: "json \<Rightarrow> string option" where
  "revenue_dlq_event_id v = (case v of JStr s \<Rightarrow> if length s \<le> 64 then Some s else None | _ \<Rightarrow> None)"

text \<open>\<open>raw_event_type not in valid_event_types\<close>: membership in a set hashes the value, so a
  list or a dict raises \<open>TypeError\<close>.\<close>

fun hashable :: "json \<Rightarrow> bool" where
  "hashable (JArr _) = False"
| "hashable (JObj _) = False"
| "hashable _ = True"

definition build_revenue_record :: "(json \<Rightarrow> py_datetime option) \<Rightarrow> json \<Rightarrow> ingest_exc + revenue_record" where
  "build_revenue_record pdt payload =
     (case payload of
        JObj d \<Rightarrow>
          (let raw_type = jget ''event_type'' d; raw_tenant = jget ''tenant_id'' d; raw_idem = jget ''idempotency_key'' d;
               attr_tenant = (if is_valid_tenant raw_tenant then opt_str raw_tenant else None);
               attr_event = revenue_dlq_event_id raw_idem; attr_type = opt_str raw_type;
               perm = (\<lambda>reason. Inl (permanent reason attr_tenant attr_event attr_type)) in
           if \<not> hashable raw_type then Inl (Raised (raised TypeError))
           else if raw_type \<noteq> JStr ''subscription_granted'' \<and> raw_type \<noteq> JStr ''subscription_revoked'' then perm MALFORMED_PAYLOAD
           else if \<not> is_valid_tenant raw_tenant then Inl (permanent UNKNOWN_TENANT None attr_event attr_type)
           else if \<not> jhas ''amount_cents'' d then perm MALFORMED_PAYLOAD
           else
             (case jget ''amount_cents'' d of
                JInt amount \<Rightarrow>
                  if amount < 0 \<or> amount > MAX_MONEY_MINOR_UNITS then perm INVALID_COST
                  else
                    (case jget ''tier'' d of
                       JStr tier \<Rightarrow>
                         if \<not> (1 \<le> length tier \<and> length tier \<le> 64) then perm MALFORMED_PAYLOAD
                         else
                           (case raw_idem of
                              JStr idem \<Rightarrow>
                                if \<not> dollar is_revenue_key idem then perm MALFORMED_PAYLOAD
                                else if \<not> jhas ''occurred_at'' d then perm MALFORMED_PAYLOAD
                                else
                                  (let cur = (if jhas ''currency'' d then jget ''currency'' d else JStr DEFAULT_CURRENCY) in
                                   case mk_revenue_record pdt (the (opt_str raw_tenant)) (the (opt_str raw_type)) tier
                                          (JInt amount) cur idem (jget ''occurred_at'' d) of
                                     Inl _ \<Rightarrow> perm MALFORMED_PAYLOAD
                                   | Inr r \<Rightarrow> Inr r)
                            | _ \<Rightarrow> perm MALFORMED_PAYLOAD)
                     | _ \<Rightarrow> perm MALFORMED_PAYLOAD)
              | _ \<Rightarrow> perm INVALID_COST))
      | _ \<Rightarrow> Inl (permanent MALFORMED_PAYLOAD None None None))"

definition revenue_idempotency_key :: "revenue_record \<Rightarrow> string" where
  "revenue_idempotency_key r = ''revenue:'' @ REVENUE_SOURCE_PRODUCT @ '':'' @ v_idem r"

definition build_revenue_transaction :: "u5gen \<Rightarrow> revenue_record \<Rightarrow> resolved_revenue_accounts \<Rightarrow> py_exc + txn" where
  "build_revenue_transaction u5 r acc =
     bindR (mk_money (JInt (v_amount r)) (v_currency r)) (\<lambda>amount.
     let base = v_tenant r @ '':'' @ REVENUE_SOURCE_PRODUCT @ '':'' @ v_idem r;
         txn_id = u5 REVENUE_POSTING_NAMESPACE base;
         debit_id = u5 REVENUE_POSTING_NAMESPACE (base @ '':debit'');
         credit_id = u5 REVENUE_POSTING_NAMESPACE (base @ '':credit'') in
     bindR (mk_entry debit_id (v_tenant r) (rr_receivable acc) DEBIT amount REVENUE_UNATTRIBUTED_ID
       REVENUE_UNATTRIBUTED_ID REVENUE_SOURCE_PRODUCT (Aware (v_occurred r))) (\<lambda>debit.
     bindR (mk_entry credit_id (v_tenant r) (rr_revenue acc) CREDIT amount REVENUE_UNATTRIBUTED_ID
       REVENUE_UNATTRIBUTED_ID REVENUE_SOURCE_PRODUCT (Aware (v_occurred r))) (\<lambda>credit.
     mk_transaction txn_id (v_tenant r) [debit, credit] (Aware (v_occurred r))
       (''Rendly subscription revenue: '' @ v_tier r))))"

definition post_revenue :: "u5gen \<Rightarrow> revenue_record \<Rightarrow> db \<Rightarrow> py_exc + append_result \<times> db" where
  "post_revenue u5 r d =
     bindR (tenant_session (v_tenant r)) (\<lambda>_.
     bindR (ensure_revenue_accounts u5 (v_tenant r) (v_tenant r) (v_currency r) d) (\<lambda>(acc, d1).
     bindR (build_revenue_transaction u5 r acc) (\<lambda>x.
     append_transaction (v_tenant r) x (Some (revenue_idempotency_key r)) None d1)))"

section \<open>Accounts are only added\<close>

lemma ensure_account_Inr:
  assumes "ensure_account sess a d = Inr d'"
  shows "acc_tenant a = sess" "d' = d\<lparr>accounts := accounts d'\<rparr>"
    "accounts d' = (if acc_id a \<in> acc_id ` set (accounts d) then accounts d else accounts d @ [a])"
  using assms by (auto simp: ensure_account_def bindR_eq_Inr insert_nothing_def)

text \<open>What the two account inserts of a posting leave.\<close>

definition accounts_grown :: "ident \<Rightarrow> db \<Rightarrow> db \<Rightarrow> bool" where
  "accounts_grown t d d' \<longleftrightarrow> d' = d\<lparr>accounts := accounts d'\<rparr>
     \<and> (\<exists>new. accounts d' = accounts d @ new \<and> (\<forall>a \<in> set new. acc_tenant a = t \<and> acc_id a \<notin> acc_id ` set (accounts d))
          \<and> distinct (map acc_id new))"

lemma ensure_pair_grown:
  assumes "ensure_account sess a d = Inr d1" "ensure_account sess b d1 = Inr d2"
  shows "accounts_grown sess d d2" "a \<in> set (accounts d2) \<or> acc_id a \<in> acc_id ` set (accounts d)"
    "b \<in> set (accounts d2) \<or> acc_id b \<in> acc_id ` set (accounts d) \<or> acc_id b = acc_id a"
proof -
  note e1 = ensure_account_Inr [OF assms(1)] and e2 = ensure_account_Inr [OF assms(2)]
  have d2: "d2 = d\<lparr>accounts := accounts d2\<rparr>"
    using arg_cong [OF e1(2), of "accounts_update (\<lambda>_. accounts d2)"] e2(2) by simp
  define new where "new = (if acc_id a \<in> acc_id ` set (accounts d) then [] else [a])
    @ (if acc_id b \<in> acc_id ` set (accounts d1) then [] else [b])"
  have "accounts d2 = accounts d @ new" using e1(3) e2(3) by (simp add: new_def)
  moreover have "\<forall>x \<in> set new. acc_tenant x = sess \<and> acc_id x \<notin> acc_id ` set (accounts d)" "distinct (map acc_id new)"
    using e1(1,3) e2(1) by (auto simp: new_def)
  ultimately show "accounts_grown sess d d2" using d2 unfolding accounts_grown_def by blast
  show "a \<in> set (accounts d2) \<or> acc_id a \<in> acc_id ` set (accounts d)"
    "b \<in> set (accounts d2) \<or> acc_id b \<in> acc_id ` set (accounts d) \<or> acc_id b = acc_id a"
    using e1(3) e2(3) by auto
qed

lemma accounts_grown_simps:
  assumes "accounts_grown t d d'"
  shows "transactions d' = transactions d" "entries d' = entries d" "set (accounts d) \<subseteq> set (accounts d')"
proof -
  have e: "d' = d\<lparr>accounts := accounts d'\<rparr>" using assms by (simp add: accounts_grown_def)
  show "transactions d' = transactions d" using arg_cong [OF e, of transactions] by simp
  show "entries d' = entries d" using arg_cong [OF e, of entries] by simp
  show "set (accounts d) \<subseteq> set (accounts d')" using assms by (auto simp: accounts_grown_def)
qed

lemma ledger_ok_accounts:
  assumes "ledger_ok d" "transactions d' = transactions d" "entries d' = entries d" "set (accounts d) \<subseteq> set (accounts d')"
  shows "ledger_ok d'"
proof -
  have "entry_ok d' e" if "entry_ok d e" for e using that assms(4) by (auto simp: entry_ok_def)
  then show ?thesis using assms(1-3) by (simp add: ledger_ok_def txn_ok_def txn_entries_def)
qed

lemma ensure_accounts_Inr:
  assumes "ensure_accounts u5 sess t cur d = Inr (acc, d')"
  shows "t = sess" "acc = resolve_account_ids u5 t cur" "accounts_grown t d d'"
proof -
  from assms obtain a b d1 where e: "ensure_account sess a d = Inr d1" "ensure_account sess b d1 = Inr d'"
    and t: "acc_tenant a = t" and acc: "acc = resolve_account_ids u5 t cur"
    by (auto simp: ensure_accounts_def Let_def bindR_eq_Inr)
  show s: "t = sess" using ensure_account_Inr(1) [OF e(1)] t by simp
  show "acc = resolve_account_ids u5 t cur" by (fact acc)
  show "accounts_grown t d d'" using ensure_pair_grown(1) [OF e] s by simp
qed

lemma ensure_revenue_accounts_Inr:
  assumes "ensure_revenue_accounts u5 sess t cur d = Inr (acc, d')"
  shows "t = sess" "acc = resolve_revenue_account_ids u5 t cur" "accounts_grown t d d'"
proof -
  from assms obtain a b d1 where e: "ensure_account sess a d = Inr d1" "ensure_account sess b d1 = Inr d'"
    and t: "acc_tenant a = t" and acc: "acc = resolve_revenue_account_ids u5 t cur"
    by (auto simp: ensure_revenue_accounts_def Let_def bindR_eq_Inr)
  show s: "t = sess" using ensure_account_Inr(1) [OF e(1)] t by simp
  show "acc = resolve_revenue_account_ids u5 t cur" by (fact acc)
  show "accounts_grown t d d'" using ensure_pair_grown(1) [OF e] s by simp
qed

section \<open>Two-leg postings\<close>

definition two_leg :: "entry_row list \<Rightarrow> ident \<Rightarrow> ident \<Rightarrow> ident \<Rightarrow> cents \<Rightarrow> string \<Rightarrow> instant \<Rightarrow> bool" where
  "two_leg es t deb cred amount cur at \<longleftrightarrow> (\<exists>x y. es = [x, y] \<and> le_dir x = DEBIT \<and> le_account x = deb
     \<and> le_dir y = CREDIT \<and> le_account y = cred
     \<and> (\<forall>e \<in> {x, y}. le_tenant e = t \<and> le_amount e = amount \<and> le_currency e = cur \<and> le_time e = at))"

lemma build_transaction_Inr:
  assumes "build_transaction u5 r acc = Inr x"
  shows "t_id x = u5 POSTING_NAMESPACE (u_tenant r @ '':'' @ u_event r)" "t_tenant x = u_tenant r"
    "two_leg (map (entry_row_of (t_id x)) (t_entries x)) (u_tenant r) (ra_expense acc) (ra_contra acc) (u_cost r)
       (u_currency r) (u_time r)"
    "\<forall>e \<in> set (t_entries x). e_team e = u_team r \<and> e_project e = u_project r \<and> e_agent e = u_agent r"
  using assms
  by (auto simp: build_transaction_def Let_def bindR_eq_Inr mk_transaction_Inr two_leg_def entry_row_of_def)

lemma build_revenue_transaction_Inr:
  assumes "build_revenue_transaction u5 r acc = Inr x"
  shows "t_id x = u5 REVENUE_POSTING_NAMESPACE (v_tenant r @ '':'' @ REVENUE_SOURCE_PRODUCT @ '':'' @ v_idem r)"
    "t_tenant x = v_tenant r"
    "two_leg (map (entry_row_of (t_id x)) (t_entries x)) (v_tenant r) (rr_receivable acc) (rr_revenue acc) (v_amount r)
       (v_currency r) (v_occurred r)"
  using assms
  by (auto simp: build_revenue_transaction_def Let_def bindR_eq_Inr mk_transaction_Inr two_leg_def entry_row_of_def)

text \<open>A posting is a replay that adds no row, or one new transaction of two legs.\<close>

definition posted :: "ident \<Rightarrow> string \<Rightarrow> (entry_row list \<Rightarrow> bool) \<Rightarrow> append_result \<Rightarrow> db \<Rightarrow> db \<Rightarrow> bool" where
  "posted t key legs res d d' \<longleftrightarrow>
     (if (t, Some key) \<in> (\<lambda>x. (tr_tenant x, tr_idem x)) ` set (transactions d)
      then ap_replay res \<and> \<not> ap_applied res \<and> transactions d' = transactions d \<and> entries d' = entries d
      else \<not> ap_replay res \<and> ap_applied res \<and> (\<exists>row rows. transactions d' = transactions d @ [row]
        \<and> tr_tenant row = t \<and> tr_idem row = Some key \<and> tr_id row \<notin> tr_id ` set (transactions d)
        \<and> entries d' = entries d @ rows \<and> (\<forall>e \<in> set rows. le_txn e = tr_id row) \<and> legs rows))"

lemma append_posted:
  assumes "append_transaction t x (Some key) None d = Inr (res, d')" "t_tenant x = t"
    "legs (map (entry_row_of (t_id x)) (t_entries x))"
  shows "posted t key legs res d d'"
  using assms(1)
proof (cases rule: append_transaction_cases)
  case replay
  then show ?thesis using assms(2) by (simp add: posted_def)
next
  case applied
  then show ?thesis using assms(2,3) by (auto simp: posted_def)
qed

lemma append_transaction_frame:
  assumes "append_transaction t x idem rv d = Inr (res, d')"
  shows "d' = d\<lparr>transactions := transactions d', entries := entries d'\<rparr>"
  using assms by (cases rule: append_transaction_cases) simp_all

lemma frame_trans:
  "d1 = d\<lparr>accounts := a\<rparr> \<Longrightarrow> d' = d1\<lparr>transactions := t, entries := e\<rparr> \<Longrightarrow> d' = d\<lparr>accounts := a, transactions := t, entries := e\<rparr>"
  by simp

lemma post_usage_Inr:
  assumes "post_usage u5 r d = Inr (res, d')"
  shows "posted (u_tenant r) (u_event r) (\<lambda>es. two_leg es (u_tenant r) (account_id_of u5 (u_tenant r) (u_currency r) ''expense'')
      (account_id_of u5 (u_tenant r) (u_currency r) ''spend_clearing'') (u_cost r) (u_currency r) (u_time r)
      \<and> (\<forall>e \<in> set es. le_team e = u_team r \<and> le_project e = u_project r \<and> le_agent e = u_agent r)) res d d'"
    and "ledger_ok d \<Longrightarrow> ledger_ok d'"
    and "d' = d\<lparr>accounts := accounts d', transactions := transactions d', entries := entries d'\<rparr>"
    and "\<exists>new. accounts d' = accounts d @ new \<and> (\<forall>a \<in> set new. acc_tenant a = u_tenant r)"
proof -
  from assms obtain acc d1 x where a: "ensure_accounts u5 (u_tenant r) (u_tenant r) (u_currency r) d = Inr (acc, d1)"
    and b: "build_transaction u5 r acc = Inr x" and p: "append_transaction (u_tenant r) x (Some (u_event r)) None d1 = Inr (res, d')"
    by (auto simp: post_usage_def bindR_eq_Inr)
  note g = ensure_accounts_Inr [OF a] and bt = build_transaction_Inr [OF b]
  note gs = accounts_grown_simps [OF g(3)]
  let ?legs = "\<lambda>es. two_leg es (u_tenant r) (account_id_of u5 (u_tenant r) (u_currency r) ''expense'')
      (account_id_of u5 (u_tenant r) (u_currency r) ''spend_clearing'') (u_cost r) (u_currency r) (u_time r)
      \<and> (\<forall>e \<in> set es. le_team e = u_team r \<and> le_project e = u_project r \<and> le_agent e = u_agent r)"
  have "?legs (map (entry_row_of (t_id x)) (t_entries x))"
    using bt(3,4) by (auto simp: g(2) resolve_account_ids_def entry_row_of_def)
  from append_posted [OF p bt(2), of ?legs] this
  have "posted (u_tenant r) (u_event r) ?legs res d1 d'" by blast
  then show "posted (u_tenant r) (u_event r) ?legs res d d'" unfolding posted_def gs by simp
  show "ledger_ok d'" if "ledger_ok d"
    using append_transaction_ledger_ok [OF ledger_ok_accounts [OF that gs] p] .
  have d1: "d1 = d\<lparr>accounts := accounts d1\<rparr>" using g(3) by (simp add: accounts_grown_def)
  note fr = append_transaction_frame [OF p]
  have ac: "accounts d' = accounts d1" using arg_cong [OF fr, of accounts] by simp
  show "d' = d\<lparr>accounts := accounts d', transactions := transactions d', entries := entries d'\<rparr>"
    unfolding ac by (rule frame_trans [OF d1 fr])
  show "\<exists>new. accounts d' = accounts d @ new \<and> (\<forall>a \<in> set new. acc_tenant a = u_tenant r)"
    unfolding ac using g(3) by (auto simp: accounts_grown_def)
qed

lemma post_revenue_Inr:
  assumes "post_revenue u5 r d = Inr (res, d')"
  shows "posted (v_tenant r) (revenue_idempotency_key r) (\<lambda>es. two_leg es (v_tenant r)
      (account_id_of u5 (v_tenant r) (v_currency r) ''subscription_receivable'')
      (account_id_of u5 (v_tenant r) (v_currency r) ''subscription_revenue'') (v_amount r) (v_currency r) (v_occurred r)) res d d'"
    and "ledger_ok d \<Longrightarrow> ledger_ok d'"
    and "d' = d\<lparr>accounts := accounts d', transactions := transactions d', entries := entries d'\<rparr>"
    and "\<exists>new. accounts d' = accounts d @ new \<and> (\<forall>a \<in> set new. acc_tenant a = v_tenant r)"
proof -
  from assms obtain acc d1 x where a: "ensure_revenue_accounts u5 (v_tenant r) (v_tenant r) (v_currency r) d = Inr (acc, d1)"
    and b: "build_revenue_transaction u5 r acc = Inr x"
    and p: "append_transaction (v_tenant r) x (Some (revenue_idempotency_key r)) None d1 = Inr (res, d')"
    by (auto simp: post_revenue_def bindR_eq_Inr)
  note g = ensure_revenue_accounts_Inr [OF a] and bt = build_revenue_transaction_Inr [OF b]
  note gs = accounts_grown_simps [OF g(3)]
  let ?legs = "\<lambda>es. two_leg es (v_tenant r) (account_id_of u5 (v_tenant r) (v_currency r) ''subscription_receivable'')
      (account_id_of u5 (v_tenant r) (v_currency r) ''subscription_revenue'') (v_amount r) (v_currency r) (v_occurred r)"
  have "?legs (map (entry_row_of (t_id x)) (t_entries x))"
    using bt(3) by (simp add: g(2) resolve_revenue_account_ids_def)
  from append_posted [OF p bt(2), of ?legs] this
  have "posted (v_tenant r) (revenue_idempotency_key r) ?legs res d1 d'" by blast
  then show "posted (v_tenant r) (revenue_idempotency_key r) ?legs res d d'" unfolding posted_def gs by simp
  show "ledger_ok d'" if "ledger_ok d"
    using append_transaction_ledger_ok [OF ledger_ok_accounts [OF that gs] p] .
  have d1: "d1 = d\<lparr>accounts := accounts d1\<rparr>" using g(3) by (simp add: accounts_grown_def)
  note fr = append_transaction_frame [OF p]
  have ac: "accounts d' = accounts d1" using arg_cong [OF fr, of accounts] by simp
  show "d' = d\<lparr>accounts := accounts d', transactions := transactions d', entries := entries d'\<rparr>"
    unfolding ac by (rule frame_trans [OF d1 fr])
  show "\<exists>new. accounts d' = accounts d @ new \<and> (\<forall>a \<in> set new. acc_tenant a = v_tenant r)"
    unfolding ac using g(3) by (auto simp: accounts_grown_def)
qed

end
