(* ===== verification/Ingest.thy ===== *)
theory Ingest
  imports Ingest_Posting
begin

text \<open>
  The consume seam of \<open>delta.ingest\<close>: settings, signature verification, the dead-letter
  sink, the two route handlers and the application's catch-all. HMAC-SHA256 (as hex), the JSON
  decoder and the lenient UTF-8 decoder are the parameters \<open>x_mac\<close>, \<open>x_loads\<close> and
  \<open>x_decode\<close> of the handlers. A database transaction may be rolled back with an exception,
  or committed with its acknowledgement lost (\<open>tx_fault\<close>).
\<close>

section \<open>Settings and signatures\<close>

record ingest_settings =
  is_secret :: string
  is_revenue_secret :: string

definition load_ingest_settings :: "environ \<Rightarrow> py_exc + ingest_settings" where
  "load_ingest_settings env =
     (let raw = (case env ''DELTA_INGEST_HMAC_SECRET'' of None \<Rightarrow> [] | Some s \<Rightarrow> s);
          rev_raw = (case env ''DELTA_REVENUE_INGEST_HMAC_SECRET'' of None \<Rightarrow> [] | Some s \<Rightarrow> s) in
      if raw = [] then Inl RuntimeError
      else if rev_raw = [] then Inl RuntimeError
      else Inr \<lparr>is_secret = raw, is_revenue_secret = rev_raw\<rparr>)"

definition SIGNATURE_PREFIX :: string where "SIGNATURE_PREFIX = ''sha256=''"
definition HMAC_TOLERANCE_SECONDS :: int where "HMAC_TOLERANCE_SECONDS = 300"

definition is_ascii :: "string \<Rightarrow> bool" where
  "is_ascii s = list_all (\<lambda>c. (of_char c :: nat) < 128) s"

definition expected_signature :: "(string \<Rightarrow> string \<Rightarrow> string) \<Rightarrow> string \<Rightarrow> string \<Rightarrow> string \<Rightarrow> string" where
  "expected_signature mac secret ts body = mac secret (ts @ ''.'' @ body)"

text \<open>
  The clock is in microseconds. Subtracting the timestamp converts it to a float, which
  overflows from \<open>2^1024 - 2^970\<close> on; comparing a digest with non-ASCII text raises.
\<close>

definition verify_signature ::
  "(string \<Rightarrow> string \<Rightarrow> string) \<Rightarrow> string \<Rightarrow> string option \<Rightarrow> string option \<Rightarrow> string \<Rightarrow> int \<Rightarrow> py_exc + bool" where
  "verify_signature mac secret ts_header sig_header body clock =
     (case (ts_header, sig_header) of
        (Some ts_text, Some sg) \<Rightarrow>
          if ts_text = [] \<or> sg = [] then Inr False
          else if take (length SIGNATURE_PREFIX) sg \<noteq> SIGNATURE_PREFIX then Inr False
          else if \<not> is_ascii ts_text then Inr False
          else
            (case parse_int ts_text of
               None \<Rightarrow> Inr False
             | Some ts \<Rightarrow>
                 if \<bar>ts\<bar> \<ge> 2 ^ 1024 - 2 ^ 970 then Inl OverflowError
                 else if \<bar>clock - ts * us_per_second\<bar> > HMAC_TOLERANCE_SECONDS * us_per_second then Inr False
                 else
                   (let provided = drop (length SIGNATURE_PREFIX) sg;
                        expected = expected_signature mac secret ts_text body in
                    if \<not> is_ascii provided then Inl TypeError
                    else Inr (provided = expected)))
      | _ \<Rightarrow> Inr False)"

section \<open>Dead letters\<close>

definition no_nul :: "string \<Rightarrow> bool" where
  "no_nul s \<longleftrightarrow> char_of (0::nat) \<notin> set s"

text \<open>What PostgreSQL takes as JSONB: no NUL character and no NaN or infinity.\<close>

fun jsonb_ok :: "json \<Rightarrow> bool" where
  "jsonb_ok (JFloat PNan) = False"
| "jsonb_ok (JFloat (PInf s)) = False"
| "jsonb_ok (JStr s) = no_nul s"
| "jsonb_ok (JArr vs) = list_all jsonb_ok vs"
| "jsonb_ok (JObj kvs) = list_all (\<lambda>kv. no_nul (fst kv) \<and> jsonb_ok (snd kv)) kvs"
| "jsonb_ok _ = True"

text \<open>A value of a VARCHAR(64) column.\<close>

definition varchar64_ok :: "string option \<Rightarrow> bool" where
  "varchar64_ok v \<longleftrightarrow> (\<forall>s \<in> set_option v. length s \<le> 64 \<and> no_nul s)"

definition dlq_key :: "dlq_row \<Rightarrow> (ident \<times> string) option" where
  "dlq_key r = (case (dl_tenant r, dl_event r) of (Some t, Some e) \<Rightarrow> Some (t, e) | _ \<Rightarrow> None)"

definition dead_letter :: "u4gen \<Rightarrow> perm_error \<Rightarrow> json \<Rightarrow> int \<Rightarrow> instant \<Rightarrow> db \<Rightarrow> py_exc + unit \<times> db" where
  "dead_letter u4 err payload attempt now d =
     (let (i, d1) = uuid4 u4 d;
          r = \<lparr>dl_id = i, dl_tenant = pe_tenant err, dl_event = pe_event err, dl_type = pe_type err,
               dl_reason = pe_reason err, dl_payload = payload, dl_attempts = attempt, dl_first = now, dl_last = now\<rparr>
      in bindR (case pe_tenant err of Some (c # cs) \<Rightarrow> tenant_session (c # cs) | _ \<Rightarrow> Inr ()) (\<lambda>_.
         bindR (guardR (varchar64_ok (pe_tenant err) \<and> varchar64_ok (pe_event err) \<and> varchar64_ok (pe_type err)
           \<and> jsonb_ok payload \<and> \<bar>attempt\<bar> < 2 ^ 31) DataError) (\<lambda>_.
         bindR (guardR (0 \<le> attempt) IntegrityError) (\<lambda>_.
         if dlq_key r \<noteq> None \<and> dlq_key r \<in> dlq_key ` set (dead_letters d1) then Inr ((), d1)
         else bindR (insert_unique IntegrityError dl_id r (dead_letters d1)) (\<lambda>rows.
              Inr ((), d1\<lparr>dead_letters := rows\<rparr>))))))"

section \<open>Handlers\<close>

datatype tx_fault = NoFault | Rolled_back "exn list" | Lost_ack "exn list"

definition run_tx :: "tx_fault \<Rightarrow> (db \<Rightarrow> py_exc + 'a \<times> db) \<Rightarrow> db \<Rightarrow> (exn list + 'a) \<times> db" where
  "run_tx fault m d =
     (case fault of
        Rolled_back es \<Rightarrow> (Inl es, d)
      | NoFault \<Rightarrow> (case m d of Inl x \<Rightarrow> (Inl (raised x), d) | Inr (a, d') \<Rightarrow> (Inr a, d'))
      | Lost_ack es \<Rightarrow> (case m d of Inl x \<Rightarrow> (Inl (raised x), d) | Inr (a, d') \<Rightarrow> (Inl es, d')))"

text \<open>The responses, and the emergency audit trail a handler may log.\<close>

datatype reply = Unauthorized | Retry | Dead_lettered dlq_reason | Dead_letter_failed dlq_reason
  | Accepted bool bool "ident option"

fun status_code :: "reply \<Rightarrow> int" where
  "status_code Unauthorized = 401"
| "status_code Retry = 503"
| "status_code (Dead_lettered _) = 422"
| "status_code (Dead_letter_failed _) = 422"
| "status_code (Accepted _ _ _) = 200"

record outcome =
  o_reply :: reply
  o_log :: "(perm_error \<times> json) list"
  o_db :: db

record externals =
  x_mac :: "string \<Rightarrow> string \<Rightarrow> string"
  x_loads :: "string \<Rightarrow> json option"
  x_decode :: "string \<Rightarrow> string"
  x_pdt :: "json \<Rightarrow> py_datetime option"
  x_u5 :: u5gen
  x_u4 :: u4gen
  x_sha :: "string \<Rightarrow> string"
  x_pystr :: "json \<Rightarrow> string"

record app_state =
  as_ingest :: ingest_settings
  as_engine :: engine_settings
  as_kill :: kill_settings

record request =
  rq_body :: string
  rq_timestamp :: "string option"
  rq_signature :: "string option"
  rq_attempt :: "string option"

text \<open>What the environment does while a request is served: the clocks the steps read, and
  what goes wrong in each transaction.\<close>

record serve_env =
  sv_clock :: int
  sv_post :: tx_fault
  sv_dlq :: tx_fault
  sv_dlq_now :: instant
  sv_eval_fault :: "py_exc option"
  sv_eval_drain :: drain_env
  sv_eval_now :: instant
  sv_kill_fault :: "py_exc option"
  sv_kill_drain :: drain_env
  sv_kill_now :: instant

definition parse_attempt :: "string option \<Rightarrow> int" where
  "parse_attempt h = (case h of
     None \<Rightarrow> 1
   | Some s \<Rightarrow> if s = [] then 1 else (case parse_int s of None \<Rightarrow> 1 | Some n \<Rightarrow> max 1 n))"

definition dead_letter_or_503 :: "externals \<Rightarrow> serve_env \<Rightarrow> perm_error \<Rightarrow> json \<Rightarrow> int \<Rightarrow> db \<Rightarrow> outcome" where
  "dead_letter_or_503 x env err payload attempt d =
     (case run_tx (sv_dlq env) (dead_letter (x_u4 x) err payload attempt (sv_dlq_now env)) d of
        (Inl es, d1) \<Rightarrow>
          if is_transient es then \<lparr>o_reply = Retry, o_log = [], o_db = d1\<rparr>
          else \<lparr>o_reply = Dead_letter_failed (pe_reason err), o_log = [(err, payload)], o_db = d1\<rparr>
      | (Inr _, d1) \<Rightarrow> \<lparr>o_reply = Dead_lettered (pe_reason err), o_log = [], o_db = d1\<rparr>)"

definition MAX_RAW_DLQ_CHARS :: nat where "MAX_RAW_DLQ_CHARS = 10000"

definition raw_snippet :: "externals \<Rightarrow> string \<Rightarrow> json" where
  "raw_snippet x body = JObj [(''_raw'', JStr (take MAX_RAW_DLQ_CHARS
     (filter (\<lambda>c. c \<noteq> char_of (0::nat)) (x_decode x body))))]"

definition as_dict :: "json \<Rightarrow> json" where
  "as_dict payload = (case payload of JObj _ \<Rightarrow> payload | _ \<Rightarrow> JObj [(''_raw'', payload)])"

definition malformed_body :: perm_error where
  "malformed_body = \<lparr>pe_reason = MALFORMED_PAYLOAD, pe_tenant = None, pe_event = None, pe_type = None\<rparr>"

definition ingest_usage :: "externals \<Rightarrow> app_state \<Rightarrow> serve_env \<Rightarrow> request \<Rightarrow> db \<Rightarrow> exn list + outcome" where
  "ingest_usage x app env rq d =
     (case verify_signature (x_mac x) (is_secret (as_ingest app)) (rq_timestamp rq) (rq_signature rq) (rq_body rq)
             (sv_clock env) of
        Inl e \<Rightarrow> Inl (raised e)
      | Inr False \<Rightarrow> Inr \<lparr>o_reply = Unauthorized, o_log = [], o_db = d\<rparr>
      | Inr True \<Rightarrow>
          (let attempt = parse_attempt (rq_attempt rq) in
           case x_loads x (rq_body rq) of
             None \<Rightarrow> Inr (dead_letter_or_503 x env malformed_body (raw_snippet x (rq_body rq)) attempt d)
           | Some payload \<Rightarrow>
               (case build_usage_record (x_pdt x) payload of
                  Inl (Permanent err) \<Rightarrow> Inr (dead_letter_or_503 x env err (as_dict payload) attempt d)
                | Inl (Raised es) \<Rightarrow> Inl es
                | Inr r \<Rightarrow>
                    (case run_tx (sv_post env) (post_usage (x_u5 x) r) d of
                       (Inl es, d1) \<Rightarrow>
                         if is_transient es then Inr \<lparr>o_reply = Retry, o_log = [], o_db = d1\<rparr>
                         else Inr (dead_letter_or_503 x env
                           \<lparr>pe_reason = UNRESOLVABLE_ACCOUNT, pe_tenant = Some (u_tenant r), pe_event = Some (u_event r),
                            pe_type = Some ''usage''\<rparr> (as_dict payload) attempt d1)
                     | (Inr res, d1) \<Rightarrow>
                         let d2 = evaluate_after_post (x_sha x) (x_u4 x) (x_pystr x) (as_engine app) (sv_eval_fault env)
                               (sv_eval_drain env) r (sv_eval_now env) d1;
                             d3 = evaluate_kill_switch (x_sha x) (x_u4 x) (x_pystr x) (as_kill app) (sv_kill_fault env)
                               (sv_kill_drain env) r (sv_kill_now env) d2 in
                         Inr \<lparr>o_reply = Accepted (ap_applied res) (ap_replay res) (Some (ap_txn res)),
                              o_log = [], o_db = d3\<rparr>))))"

definition ingest_revenue :: "externals \<Rightarrow> app_state \<Rightarrow> serve_env \<Rightarrow> request \<Rightarrow> db \<Rightarrow> exn list + outcome" where
  "ingest_revenue x app env rq d =
     (case verify_signature (x_mac x) (is_revenue_secret (as_ingest app)) (rq_timestamp rq) (rq_signature rq) (rq_body rq)
             (sv_clock env) of
        Inl e \<Rightarrow> Inl (raised e)
      | Inr False \<Rightarrow> Inr \<lparr>o_reply = Unauthorized, o_log = [], o_db = d\<rparr>
      | Inr True \<Rightarrow>
          (let attempt = parse_attempt (rq_attempt rq) in
           case x_loads x (rq_body rq) of
             None \<Rightarrow> Inr (dead_letter_or_503 x env malformed_body (raw_snippet x (rq_body rq)) attempt d)
           | Some payload \<Rightarrow>
               (case build_revenue_record (x_pdt x) payload of
                  Inl (Permanent err) \<Rightarrow> Inr (dead_letter_or_503 x env err (as_dict payload) attempt d)
                | Inl (Raised es) \<Rightarrow> Inl es
                | Inr r \<Rightarrow>
                    if v_event_type r = SUBSCRIPTION_REVOKED
                    then Inr \<lparr>o_reply = Accepted False False None, o_log = [], o_db = d\<rparr>
                    else
                      (case run_tx (sv_post env) (post_revenue (x_u5 x) r) d of
                         (Inl es, d1) \<Rightarrow>
                           if is_transient es then Inr \<lparr>o_reply = Retry, o_log = [], o_db = d1\<rparr>
                           else Inr (dead_letter_or_503 x env
                             \<lparr>pe_reason = UNRESOLVABLE_ACCOUNT, pe_tenant = Some (v_tenant r),
                              pe_event = revenue_dlq_event_id (JStr (v_idem r)), pe_type = Some ''revenue''\<rparr>
                             (as_dict payload) attempt d1)
                       | (Inr res, d1) \<Rightarrow>
                           Inr \<lparr>o_reply = Accepted (ap_applied res) (ap_replay res) (Some (ap_txn res)),
                                o_log = [], o_db = d1\<rparr>))))"

text \<open>The application's catch-all: an unhandled exception is answered with 503.\<close>

definition failsafe :: "db \<Rightarrow> exn list + outcome \<Rightarrow> outcome" where
  "failsafe d r = (case r of Inl _ \<Rightarrow> \<lparr>o_reply = Retry, o_log = [], o_db = d\<rparr> | Inr out \<Rightarrow> out)"

definition serve_usage :: "externals \<Rightarrow> app_state \<Rightarrow> serve_env \<Rightarrow> request \<Rightarrow> db \<Rightarrow> outcome" where
  "serve_usage x app env rq d = failsafe d (ingest_usage x app env rq d)"

definition serve_revenue :: "externals \<Rightarrow> app_state \<Rightarrow> serve_env \<Rightarrow> request \<Rightarrow> db \<Rightarrow> outcome" where
  "serve_revenue x app env rq d = failsafe d (ingest_revenue x app env rq d)"

definition create_app :: "environ \<Rightarrow> py_exc + app_state" where
  "create_app env =
     bindR (load_ingest_settings env) (\<lambda>i.
     bindR (load_settings env) (\<lambda>e.
     bindR (load_kill_settings env) (\<lambda>k.
     Inr \<lparr>as_ingest = i, as_engine = e, as_kill = k\<rparr>)))"

end
