(* ===== verification/Ingest_Serve.thy ===== *)
theory Ingest_Serve
  imports Ingest "HOL-Library.Sublist"
begin

text \<open>
  What serving a request does to the database: the ledger only grows and stays balanced, an
  accepted event is posted exactly once however often it is delivered, an authentic event is
  never dropped, and a revenue event never reaches the enforcement tables.
\<close>

section \<open>Signatures\<close>

lemma verify_signature_True:
  assumes "verify_signature mac secret th sh body clock = Inr True"
  shows "\<exists>ts n. th = Some ts \<and> parse_int ts = Some n \<and> \<bar>clock - n * us_per_second\<bar> \<le> 300 * us_per_second
    \<and> sh = Some (''sha256='' @ mac secret (ts @ ''.'' @ body))"
proof -
  obtain ts sg where h: "th = Some ts" "sh = Some sg"
    using assms by (auto simp: verify_signature_def split: option.splits)
  let ?k = "length SIGNATURE_PREFIX"
  have p: "take ?k sg = SIGNATURE_PREFIX" and e: "parse_int ts \<noteq> None"
    using assms by (auto simp: verify_signature_def h split: if_splits option.splits)
  then obtain n where n: "parse_int ts = Some n" by blast
  have "\<bar>clock - n * us_per_second\<bar> \<le> 300 * us_per_second" "drop ?k sg = mac secret (ts @ ''.'' @ body)"
    using assms n by (auto simp: verify_signature_def h Let_def expected_signature_def HMAC_TOLERANCE_SECONDS_def
        simp del: power_numeral split: if_splits)
  moreover have "sg = take ?k sg @ drop ?k sg" by (rule append_take_drop_id [symmetric])
  ultimately show ?thesis using h n p by (auto simp: SIGNATURE_PREFIX_def)
qed

section \<open>What the post-commit hooks leave alone\<close>

definition ledger_same :: "db \<Rightarrow> db \<Rightarrow> bool" where
  "ledger_same d d' \<longleftrightarrow> accounts d' = accounts d \<and> transactions d' = transactions d \<and> entries d' = entries d
     \<and> dead_letters d' = dead_letters d"

lemma ledger_same_refl [simp]: "ledger_same d d"
  by (simp add: ledger_same_def)

lemma ledger_same_trans: "ledger_same a b \<Longrightarrow> ledger_same b c \<Longrightarrow> ledger_same a c"
  by (simp add: ledger_same_def)

lemma ledger_ok_same: "ledger_ok d \<Longrightarrow> ledger_same d d' \<Longrightarrow> ledger_ok d'"
  by (rule ledger_ok_accounts [of d]) (simp_all add: ledger_same_def)

lemma append_history_same: "append_history sha u4 sess t ty en ac actor now note d = Inr (r, d') \<Longrightarrow> ledger_same d d'"
  using append_history_frame by (simp add: ledger_same_def)

lemma get_or_create_state_same:
  assumes "get_or_create_state u4 sess t b bk now d = Inr (s, d')"
  shows "ledger_same d d'"
  using assms by (auto simp: get_or_create_state_def uuid4_def Let_def bindR_eq_Inr ledger_same_def split: if_splits option.splits)

lemma bpo_enqueue_same:
  assumes "bpo_enqueue u4 sess t i p v tr payload now d = Inr d'"
  shows "ledger_same d d'"
  using assms by (cases rule: bpo_enqueue_Inr) (simp_all add: ledger_same_def)

lemma kso_enqueue_same:
  assumes "kso_enqueue u4 sess t i p v tr payload now d = Inr d'"
  shows "ledger_same d d'"
  using assms by (cases rule: kso_enqueue_Inr) (simp_all add: ledger_same_def)

lemma budget_enqueue_same:
  assumes "budget_enqueue sha u4 sess b v tr now d = Inr d'"
  shows "ledger_same d d'"
  using assms
  by (auto simp: budget_enqueue_def bindR_eq_Inr intro: ledger_same_trans [OF bpo_enqueue_same append_history_same])

lemma state_updates_same [simp]:
  "ledger_same d (d\<lparr>bstates := x\<rparr>)" "ledger_same d (d\<lparr>kstates := y\<rparr>)"
  "ledger_same d (d\<lparr>boutbox := z\<rparr>)" "ledger_same d (d\<lparr>koutbox := z\<rparr>)"
  "ledger_same (d\<lparr>bstates := x\<rparr>) e = ledger_same d e" "ledger_same (d\<lparr>kstates := y\<rparr>) e = ledger_same d e"
  by (simp_all add: ledger_same_def)

lemma conditional_transition_same: "ledger_same d (snd (conditional_transition sess t b bk f g e now d))"
  by (simp add: conditional_transition_def Let_def)

lemma evaluate_budget_same:
  assumes "evaluate_budget sha u4 st sess b now d = Inr (oc, d')"
  shows "ledger_same d d'"
proof -
  from assms obtain s d1 where g: "get_or_create_state u4 sess (bd_tenant b) (bd_id b) (period_bucket_label (bd_period b) now) now d = Inr (s, d1)"
    by (auto simp: evaluate_budget_def Let_def bindR_eq_Inr)
  have "ledger_same d1 d'"
    using assms g
    by (auto simp: evaluate_budget_def Let_def bindR_eq_Inr try_transition_to_enforced_def try_transition_to_under_def
        conditional_transition_def try_bump_warned_pct_def split: if_splits option.splits
        dest!: budget_enqueue_same)
  then show ?thesis using ledger_same_trans [OF get_or_create_state_same [OF g]] by blast
qed

lemma evaluate_after_post_same: "ledger_same d (evaluate_after_post sha u4 pystr st fault env r now d)"
proof -
  have "ledger_same d d1" if "evaluate_txn sha u4 st r now d = Inr d1" for d1
  proof -
    from that have "foldR (\<lambda>b x. bindR (evaluate_budget sha u4 st (u_tenant r) b now x) (\<lambda>(_, y). Inr y))
        (budgets_for_event (u_tenant r) (u_team r) (u_project r) (u_agent r) d) d = Inr d1"
      by (auto simp: evaluate_txn_def bindR_eq_Inr)
    then show ?thesis
      by (rule foldR_invariant [where I = "ledger_same d", rotated -1])
        (auto simp: bindR_eq_Inr intro: ledger_same_trans evaluate_budget_same)
  qed
  moreover have "ledger_same x (bpo_drain_tenant pystr st env t now x)" for x t
    by (simp add: bpo_drain_tenant_def Let_def)
  ultimately show ?thesis
    by (auto simp: evaluate_after_post_def intro: ledger_same_trans split: option.splits sum.splits)
qed

lemma do_kill_same:
  assumes "do_kill sha u4 sess r reason now d = Inr d'"
  shows "ledger_same d d'"
proof -
  from assms obtain k d1 where g: "kill_get_or_create u4 sess (u_tenant r) (u_team r) (u_project r) (u_agent r) now d = Inr (k, d1)"
    by (auto simp: do_kill_def bindR_eq_Inr)
  have "ledger_same d d1"
    using g by (auto simp: kill_get_or_create_def uuid4_def Let_def bindR_eq_Inr ledger_same_def split: if_splits option.splits)
  moreover have "ledger_same d1 d'"
    using assms g
    by (auto simp: do_kill_def Let_def bindR_eq_Inr try_transition_to_killed_def kill_transition_def split: if_splits option.splits
        dest!: kso_enqueue_same append_history_same intro: ledger_same_trans)
  ultimately show ?thesis by (rule ledger_same_trans)
qed

lemma evaluate_kill_switch_same: "ledger_same d (evaluate_kill_switch sha u4 pystr st fault env r now d)"
proof -
  have "ledger_same d d1" if "kill_txn sha u4 st r now d = Inr d1" for d1
    using that by (cases rule: kill_txn_Inr) (auto intro: do_kill_same)
  moreover have "ledger_same x (kso_drain_tenant pystr st env t now x)" for x t
    by (simp add: kso_drain_tenant_def Let_def)
  ultimately show ?thesis
    by (auto simp: evaluate_kill_switch_def intro: ledger_same_trans split: option.splits sum.splits)
qed

section \<open>Transactions of a request\<close>

lemma run_tx_cases:
  assumes "run_tx fault m d = (y, d1)"
  obtains (failed) es where "y = Inl es" "d1 = d" "fault = Rolled_back es \<or> (\<exists>x. m d = Inl x \<and> es = raised x)"
  | (committed) a where "m d = Inr (a, d1)" "y = Inr a"
  | (lost) a es where "m d = Inr (a, d1)" "fault = Lost_ack es" "y = Inl es"
  using assms by (auto simp: run_tx_def split: tx_fault.splits sum.splits prod.splits)

text \<open>Every table of the ledger side only grows.\<close>

definition grows :: "db \<Rightarrow> db \<Rightarrow> bool" where
  "grows d d' \<longleftrightarrow> prefix (transactions d) (transactions d') \<and> prefix (entries d) (entries d')
     \<and> prefix (accounts d) (accounts d') \<and> prefix (dead_letters d) (dead_letters d')"

lemma grows_refl [simp]: "grows d d"
  by (simp add: grows_def)

lemma grows_trans: "grows a b \<Longrightarrow> grows b c \<Longrightarrow> grows a c"
  unfolding grows_def by (meson prefix_order.trans)

lemma ledger_same_grows: "ledger_same d d' \<Longrightarrow> grows d d'"
  by (simp add: ledger_same_def grows_def)

lemma posted_prefix:
  assumes "posted t key legs res d d'"
  shows "prefix (transactions d) (transactions d')" "prefix (entries d) (entries d')"
  using assms by (auto simp: posted_def split: if_splits)

lemma post_usage_grows:
  assumes "post_usage u5 r d = Inr (res, d')"
  shows "grows d d'" "dead_letters d' = dead_letters d"
proof -
  note p = post_usage_Inr [OF assms]
  show dl: "dead_letters d' = dead_letters d" using arg_cong [OF p(3), of dead_letters] by simp
  show "grows d d'" using posted_prefix [OF p(1)] p(4) dl by (auto simp: grows_def)
qed

lemma post_revenue_grows:
  assumes "post_revenue u5 r d = Inr (res, d')"
  shows "grows d d'" "dead_letters d' = dead_letters d"
proof -
  note p = post_revenue_Inr [OF assms]
  show dl: "dead_letters d' = dead_letters d" using arg_cong [OF p(3), of dead_letters] by simp
  show "grows d d'" using posted_prefix [OF p(1)] p(4) dl by (auto simp: grows_def)
qed

section \<open>Dead letters are kept\<close>

definition dlq_recorded :: "perm_error \<Rightarrow> json \<Rightarrow> db \<Rightarrow> bool" where
  "dlq_recorded err payload d \<longleftrightarrow> (\<exists>r \<in> set (dead_letters d).
     dl_tenant r = pe_tenant err \<and> dl_event r = pe_event err
     \<and> (dl_payload r = payload \<and> dl_reason r = pe_reason err \<and> dl_type r = pe_type err
        \<or> pe_tenant err \<noteq> None \<and> pe_event err \<noteq> None))"

lemma dead_letter_Inr:
  assumes "dead_letter u4 err payload attempt now d = Inr (u, d')"
  shows "d' = d\<lparr>uuid_ctr := Suc (uuid_ctr d), dead_letters := dead_letters d'\<rparr>"
    "dlq_recorded err payload d'" "prefix (dead_letters d) (dead_letters d')" "length (dead_letters d') \<le> Suc (length (dead_letters d))"
    "jsonb_ok payload" "varchar64_ok (pe_event err)"
proof -
  define r where "r = \<lparr>dl_id = u4 (uuid_ctr d), dl_tenant = pe_tenant err, dl_event = pe_event err, dl_type = pe_type err,
    dl_reason = pe_reason err, dl_payload = payload, dl_attempts = attempt, dl_first = now, dl_last = now\<rparr>"
  let ?d1 = "d\<lparr>uuid_ctr := Suc (uuid_ctr d)\<rparr>"
  have e: "(if dlq_key r \<noteq> None \<and> dlq_key r \<in> dlq_key ` set (dead_letters d) then Inr ((), ?d1)
      else bindR (insert_unique IntegrityError dl_id r (dead_letters d)) (\<lambda>rows.
           Inr ((), ?d1\<lparr>dead_letters := rows\<rparr>))) = Inr (u, d')"
    and "jsonb_ok payload" "varchar64_ok (pe_event err)"
    using assms by (auto simp: dead_letter_def uuid4_def Let_def r_def bindR_eq_Inr cong: if_cong)
  then show "jsonb_ok payload" "varchar64_ok (pe_event err)" by simp_all
  have "d' = ?d1\<lparr>dead_letters := dead_letters d'\<rparr> \<and> dlq_recorded err payload d' \<and> prefix (dead_letters d) (dead_letters d')
    \<and> length (dead_letters d') \<le> Suc (length (dead_letters d))"
  proof (cases "dlq_key r \<noteq> None \<and> dlq_key r \<in> dlq_key ` set (dead_letters d)")
    case True
    then obtain q where q: "q \<in> set (dead_letters d)" "dlq_key q = dlq_key r" "dlq_key r \<noteq> None" by auto
    then have "dl_tenant q = pe_tenant err" "dl_event q = pe_event err" "pe_tenant err \<noteq> None" "pe_event err \<noteq> None"
      by (auto simp: dlq_key_def r_def split: option.splits)
    then have "dlq_recorded err payload ?d1" using q(1) by (auto simp: dlq_recorded_def)
    then show ?thesis using e True by auto
  next
    case False
    then have "d' = ?d1\<lparr>dead_letters := dead_letters d @ [r]\<rparr>"
      using e by (auto simp: bindR_eq_Inr table_simps)
    then show ?thesis by (auto simp: dlq_recorded_def r_def)
  qed
  then show "d' = ?d1\<lparr>dead_letters := dead_letters d'\<rparr>" "dlq_recorded err payload d'"
    "prefix (dead_letters d) (dead_letters d')" "length (dead_letters d') \<le> Suc (length (dead_letters d))" by blast+
qed

text \<open>What a dead-lettering answers, and that it touches nothing but the dead letters.\<close>

lemma dead_letter_or_503_cases:
  fixes out
  assumes "out = dead_letter_or_503 x env err payload attempt d"
  shows "grows d (o_db out)" "transactions (o_db out) = transactions d" "entries (o_db out) = entries d"
    "accounts (o_db out) = accounts d"
    "o_reply out = Dead_lettered (pe_reason err) \<and> dlq_recorded err payload (o_db out) \<and> jsonb_ok payload \<and> varchar64_ok (pe_event err)
     \<or> o_reply out = Dead_letter_failed (pe_reason err) \<and> o_log out = [(err, payload)]
     \<or> o_reply out = Retry \<and> (\<exists>es. (sv_dlq env = Rolled_back es \<or> sv_dlq env = Lost_ack es) \<and> is_transient es)"
    "\<not> (jsonb_ok payload \<and> varchar64_ok (pe_event err)) \<Longrightarrow> dead_letters (o_db out) = dead_letters d"
proof -
  let ?m = "dead_letter (x_u4 x) err payload attempt (sv_dlq_now env)"
  have tr: "z \<notin> set TRANSIENT_TYPES" if "?m d = Inl z" for z
    using that by (auto simp: dead_letter_def Let_def uuid4_def bindR_eq_Inl TRANSIENT_TYPES_def tenant_session_def
        insert_unique_def split: option.splits list.splits if_splits)
  obtain y d1 where y: "run_tx (sv_dlq env) ?m d = (y, d1)" by fastforce
  have "grows d (o_db out) \<and> transactions (o_db out) = transactions d \<and> entries (o_db out) = entries d
    \<and> accounts (o_db out) = accounts d \<and>
    (o_reply out = Dead_lettered (pe_reason err) \<and> dlq_recorded err payload (o_db out) \<and> jsonb_ok payload \<and> varchar64_ok (pe_event err)
     \<or> o_reply out = Dead_letter_failed (pe_reason err) \<and> o_log out = [(err, payload)]
     \<or> o_reply out = Retry \<and> (\<exists>es. (sv_dlq env = Rolled_back es \<or> sv_dlq env = Lost_ack es) \<and> is_transient es))
    \<and> (\<not> (jsonb_ok payload \<and> varchar64_ok (pe_event err)) \<longrightarrow> dead_letters (o_db out) = dead_letters d)"
    using y
  proof (cases rule: run_tx_cases)
    case (failed es)
    then show ?thesis using y tr by (auto simp: assms dead_letter_or_503_def)
  next
    case (committed a)
    note i = dead_letter_Inr [OF committed(1)]
    have "transactions d1 = transactions d" "entries d1 = entries d" "accounts d1 = accounts d"
      using arg_cong [OF i(1), of transactions] arg_cong [OF i(1), of entries] arg_cong [OF i(1), of accounts] by simp_all
    then show ?thesis using y committed i(2-6) by (simp add: assms dead_letter_or_503_def grows_def)
  next
    case (lost a es)
    note i = dead_letter_Inr [OF lost(1)]
    have "transactions d1 = transactions d" "entries d1 = entries d" "accounts d1 = accounts d"
      using arg_cong [OF i(1), of transactions] arg_cong [OF i(1), of entries] arg_cong [OF i(1), of accounts] by simp_all
    then show ?thesis using y lost i(2-6) by (simp add: assms dead_letter_or_503_def grows_def)
  qed
  then show "grows d (o_db out)" "transactions (o_db out) = transactions d" "entries (o_db out) = entries d"
    "accounts (o_db out) = accounts d"
    "o_reply out = Dead_lettered (pe_reason err) \<and> dlq_recorded err payload (o_db out) \<and> jsonb_ok payload \<and> varchar64_ok (pe_event err)
     \<or> o_reply out = Dead_letter_failed (pe_reason err) \<and> o_log out = [(err, payload)]
     \<or> o_reply out = Retry \<and> (\<exists>es. (sv_dlq env = Rolled_back es \<or> sv_dlq env = Lost_ack es) \<and> is_transient es)"
    "\<not> (jsonb_ok payload \<and> varchar64_ok (pe_event err)) \<Longrightarrow> dead_letters (o_db out) = dead_letters d"
    by blast+
qed

section \<open>Serving a usage event\<close>

text \<open>The record an authentic, decodable, valid request carries.\<close>

definition usage_event :: "externals \<Rightarrow> app_state \<Rightarrow> serve_env \<Rightarrow> request \<Rightarrow> usage_record option" where
  "usage_event x app env rq =
     (case verify_signature (x_mac x) (is_secret (as_ingest app)) (rq_timestamp rq) (rq_signature rq) (rq_body rq)
             (sv_clock env) of
        Inr True \<Rightarrow>
          (case x_loads x (rq_body rq) of
             None \<Rightarrow> None
           | Some payload \<Rightarrow> (case build_usage_record (x_pdt x) payload of Inr r \<Rightarrow> Some r | Inl _ \<Rightarrow> None))
      | _ \<Rightarrow> None)"

definition usage_authentic :: "externals \<Rightarrow> app_state \<Rightarrow> serve_env \<Rightarrow> request \<Rightarrow> py_exc + bool" where
  "usage_authentic x app env rq =
     verify_signature (x_mac x) (is_secret (as_ingest app)) (rq_timestamp rq) (rq_signature rq) (rq_body rq) (sv_clock env)"

lemma ingest_usage_authentic:
  assumes "usage_authentic x app env rq = Inr True" "x_loads x (rq_body rq) = Some payload"
  shows "ingest_usage x app env rq d =
    (case build_usage_record (x_pdt x) payload of
       Inl (Permanent err) \<Rightarrow> Inr (dead_letter_or_503 x env err (as_dict payload) (parse_attempt (rq_attempt rq)) d)
     | Inl (Raised es) \<Rightarrow> Inl es
     | Inr r \<Rightarrow>
         (case run_tx (sv_post env) (post_usage (x_u5 x) r) d of
            (Inl es, d1) \<Rightarrow>
              if is_transient es then Inr \<lparr>o_reply = Retry, o_log = [], o_db = d1\<rparr>
              else Inr (dead_letter_or_503 x env
                \<lparr>pe_reason = UNRESOLVABLE_ACCOUNT, pe_tenant = Some (u_tenant r), pe_event = Some (u_event r),
                 pe_type = Some ''usage''\<rparr> (as_dict payload) (parse_attempt (rq_attempt rq)) d1)
          | (Inr res, d1) \<Rightarrow>
              Inr \<lparr>o_reply = Accepted (ap_applied res) (ap_replay res) (Some (ap_txn res)), o_log = [],
                o_db = evaluate_kill_switch (x_sha x) (x_u4 x) (x_pystr x) (as_kill app) (sv_kill_fault env)
                  (sv_kill_drain env) r (sv_kill_now env)
                  (evaluate_after_post (x_sha x) (x_u4 x) (x_pystr x) (as_engine app) (sv_eval_fault env)
                    (sv_eval_drain env) r (sv_eval_now env) d1)\<rparr>))"
  using assms unfolding ingest_usage_def usage_authentic_def Let_def by simp

text \<open>What the dead-letter row of a request would hold.\<close>

definition stored_payload :: "externals \<Rightarrow> request \<Rightarrow> json" where
  "stored_payload x rq = (case x_loads x (rq_body rq) of None \<Rightarrow> raw_snippet x (rq_body rq) | Some p \<Rightarrow> as_dict p)"

lemma serve_usage_cases:
  fixes out
  assumes out: "out = serve_usage x app env rq d"
  obtains (refused) "usage_authentic x app env rq = Inr False" "o_reply out = Unauthorized" "o_db out = d" "o_log out = []"
  | (retry) "o_reply out = Retry" "o_db out = d" "o_log out = []"
  | (dead) err d1 where "out = dead_letter_or_503 x env err (stored_payload x rq) (parse_attempt (rq_attempt rq)) d1"
      "usage_authentic x app env rq = Inr True"
      "d1 = d \<or> (\<exists>r a es. usage_event x app env rq = Some r \<and> post_usage (x_u5 x) r d = Inr (a, d1) \<and> sv_post env = Lost_ack es)"
  | (lost) r a es where "usage_event x app env rq = Some r" "post_usage (x_u5 x) r d = Inr (a, o_db out)"
      "sv_post env = Lost_ack es" "o_reply out = Retry" "o_log out = []"
  | (accepted) r a d1 where "usage_event x app env rq = Some r" "post_usage (x_u5 x) r d = Inr (a, d1)"
      "ledger_same d1 (o_db out)" "o_reply out = Accepted (ap_applied a) (ap_replay a) (Some (ap_txn a))" "o_log out = []"
proof (cases "usage_authentic x app env rq")
  case (Inl e)
  then have "ingest_usage x app env rq d = Inl (raised e)" by (simp add: usage_authentic_def ingest_usage_def)
  then show thesis by (intro retry) (simp_all add: out serve_usage_def failsafe_def)
next
  case (Inr b)
  show thesis
  proof (cases b)
    case False
    with Inr have "ingest_usage x app env rq d = Inr \<lparr>o_reply = Unauthorized, o_log = [], o_db = d\<rparr>"
      by (simp add: usage_authentic_def ingest_usage_def)
    then show thesis using Inr False by (intro refused) (simp_all add: out serve_usage_def failsafe_def)
  next
    case True
    with Inr have au: "usage_authentic x app env rq = Inr True" by simp
    show thesis
    proof (cases "x_loads x (rq_body rq)")
      case None
      then have sp: "stored_payload x rq = raw_snippet x (rq_body rq)" by (simp add: stored_payload_def)
      from None have "ingest_usage x app env rq d = Inr (dead_letter_or_503 x env malformed_body (raw_snippet x (rq_body rq))
          (parse_attempt (rq_attempt rq)) d)"
        using au by (simp add: usage_authentic_def ingest_usage_def Let_def)
      then show thesis using au by (intro dead [of malformed_body d]) (simp_all add: sp out serve_usage_def failsafe_def)
    next
      case (Some payload)
      then have sp: "stored_payload x rq = as_dict payload" by (simp add: stored_payload_def)
      note ig = ingest_usage_authentic [OF au Some, of d]
      show thesis
      proof (cases "build_usage_record (x_pdt x) payload")
        case (Inl e)
        show thesis
        proof (cases e)
          case (Permanent err)
          then show thesis using au Inl ig by (intro dead [of err d]) (simp_all add: sp out serve_usage_def failsafe_def)
        next
          case (Raised es)
          then show thesis using Inl ig by (intro retry) (simp_all add: out serve_usage_def failsafe_def)
        qed
      next
        case (Inr r)
        have ev: "usage_event x app env rq = Some r"
          using au Some Inr by (simp add: usage_event_def usage_authentic_def)
        obtain y d1 where y: "run_tx (sv_post env) (post_usage (x_u5 x) r) d = (y, d1)" by fastforce
        from y show thesis
        proof (cases rule: run_tx_cases)
          case (failed es)
          show thesis
          proof (cases "is_transient es")
            case True
            then show thesis using ig Inr y failed by (intro retry) (simp_all add: out serve_usage_def failsafe_def)
          next
            case False
            then show thesis using ig Inr y failed au by (intro dead [of _ d]) (simp_all add: sp out serve_usage_def failsafe_def)
          qed
        next
          case (committed a)
          let ?d2 = "evaluate_after_post (x_sha x) (x_u4 x) (x_pystr x) (as_engine app) (sv_eval_fault env)
              (sv_eval_drain env) r (sv_eval_now env) d1"
          have "ledger_same d1 (evaluate_kill_switch (x_sha x) (x_u4 x) (x_pystr x) (as_kill app) (sv_kill_fault env)
              (sv_kill_drain env) r (sv_kill_now env) ?d2)"
            by (rule ledger_same_trans [OF evaluate_after_post_same evaluate_kill_switch_same])
          then show thesis using ig Inr y committed ev
            by (intro accepted [OF ev committed(1)]) (simp_all add: out serve_usage_def failsafe_def)
        next
          case (lost a es)
          show thesis
          proof (cases "is_transient es")
            case True
            then show thesis using ig Inr y lost ev
              by (intro that(4) [of r a es]) (simp_all add: out serve_usage_def failsafe_def)
          next
            case False
            then have "out = dead_letter_or_503 x env
                \<lparr>pe_reason = UNRESOLVABLE_ACCOUNT, pe_tenant = Some (u_tenant r), pe_event = Some (u_event r),
                 pe_type = Some ''usage''\<rparr> (stored_payload x rq) (parse_attempt (rq_attempt rq)) d1"
              using ig Inr y lost by (simp add: sp out serve_usage_def failsafe_def)
            then show thesis using lost ev au by (intro dead) blast+
          qed
        qed
      qed
    qed
  qed
qed

lemma serve_usage_ledger:
  "grows d (o_db (serve_usage x app env rq d))" "ledger_ok d \<Longrightarrow> ledger_ok (o_db (serve_usage x app env rq d))"
proof -
  let ?out = "serve_usage x app env rq d"
  have "grows d (o_db ?out) \<and> (ledger_ok d \<longrightarrow> ledger_ok (o_db ?out))"
    using refl [of ?out]
  proof (cases rule: serve_usage_cases)
    case refused
    then show ?thesis by simp
  next
    case retry
    then show ?thesis by simp
  next
    case (dead err d1)
    note c = dead_letter_or_503_cases [OF dead(1)]
    have d1: "grows d d1" "ledger_ok d \<Longrightarrow> ledger_ok d1"
      using dead(3) by (auto dest: post_usage_grows(1) post_usage_Inr(2))
    show ?thesis
      using grows_trans [OF d1(1) c(1)] ledger_ok_accounts [OF d1(2) c(2,3)] c(4) by simp
  next
    case (lost r a es)
    then show ?thesis using post_usage_grows(1) post_usage_Inr(2) by blast
  next
    case (accepted r a d1)
    then show ?thesis
      using grows_trans [OF post_usage_grows(1) ledger_same_grows] post_usage_Inr(2) ledger_ok_same by blast
  qed
  then show "grows d (o_db ?out)" "ledger_ok d \<Longrightarrow> ledger_ok (o_db ?out)" by blast+
qed

text \<open>How many transactions carry an idempotency key.\<close>

definition posted_count :: "ident \<Rightarrow> string \<Rightarrow> db \<Rightarrow> nat" where
  "posted_count t key d = length (filter (\<lambda>x. tr_tenant x = t \<and> tr_idem x = Some key) (transactions d))"

lemma filter_key_le_1: "distinct (map f xs) \<Longrightarrow> length (filter (\<lambda>x. f x = k) xs) \<le> 1"
  by (induction xs) (auto simp: filter_empty_conv image_iff)

lemma posted_count_le_1:
  assumes "ledger_ok d"
  shows "posted_count t key d \<le> 1"
proof -
  let ?xs = "filter (\<lambda>x. tr_idem x \<noteq> None) (transactions d)"
  have "distinct (map (\<lambda>x. (tr_tenant x, tr_idem x)) ?xs)" using assms by (simp add: ledger_ok_def)
  from filter_key_le_1 [OF this, of "(t, Some key)"]
  have "length (filter (\<lambda>x. (tr_tenant x, tr_idem x) = (t, Some key)) ?xs) \<le> 1" .
  also have "filter (\<lambda>x. (tr_tenant x, tr_idem x) = (t, Some key)) ?xs
      = filter (\<lambda>x. tr_tenant x = t \<and> tr_idem x = Some key) (transactions d)"
    by (auto simp: filter_filter intro!: filter_cong)
  finally show ?thesis by (simp add: posted_count_def)
qed

lemma posted_count_pos: "posted t key legs res d d' \<Longrightarrow> 1 \<le> posted_count t key d'"
  by (auto simp: posted_def posted_count_def Suc_le_eq filter_empty_conv image_iff split: if_splits)

lemma posted_count_mono: "grows d d' \<Longrightarrow> posted_count t key d \<le> posted_count t key d'"
  by (auto simp: grows_def posted_count_def elim!: prefixE)

lemma serve_usage_accepted:
  assumes "o_reply (serve_usage x app env rq d) = Accepted ap rep i"
  obtains r a d1 where "usage_event x app env rq = Some r" "post_usage (x_u5 x) r d = Inr (a, d1)"
    "ledger_same d1 (o_db (serve_usage x app env rq d))" "ap = ap_applied a" "rep = ap_replay a" "i = Some (ap_txn a)"
  using refl [of "serve_usage x app env rq d"]
proof (cases rule: serve_usage_cases)
  case (dead err d1)
  with dead_letter_or_503_cases(5) [OF dead(1)] assms show thesis by auto
qed (use assms that in auto)

lemma serve_usage_accepted_once:
  assumes "o_reply (serve_usage x app env rq d) = Accepted ap rep i" "ledger_ok d"
  shows "\<exists>r. usage_event x app env rq = Some r \<and> posted_count (u_tenant r) (u_event r) (o_db (serve_usage x app env rq d)) = 1"
proof -
  from assms(1) obtain r a d1 where ev: "usage_event x app env rq = Some r" and p: "post_usage (x_u5 x) r d = Inr (a, d1)"
    and same: "ledger_same d1 (o_db (serve_usage x app env rq d))"
    by (rule serve_usage_accepted)
  have "posted_count (u_tenant r) (u_event r) (o_db (serve_usage x app env rq d)) = posted_count (u_tenant r) (u_event r) d1"
    using same by (simp add: ledger_same_def posted_count_def)
  moreover have "posted_count (u_tenant r) (u_event r) d1 = 1"
    using posted_count_pos [OF post_usage_Inr(1) [OF p]] posted_count_le_1 [OF post_usage_Inr(2) [OF p assms(2)]]
    by (simp add: le_antisym)
  ultimately show ?thesis using ev by auto
qed

text \<open>Any sequence of deliveries, redeliveries included, each meeting its own faults.\<close>

fun serve_all :: "externals \<Rightarrow> app_state \<Rightarrow> (serve_env \<times> request) list \<Rightarrow> db \<Rightarrow> db" where
  "serve_all x app [] d = d"
| "serve_all x app ((env, rq) # rest) d = serve_all x app rest (o_db (serve_usage x app env rq d))"

lemma serve_all_append: "serve_all x app (as @ bs) d = serve_all x app bs (serve_all x app as d)"
  by (induction "as" arbitrary: d) auto

lemma serve_all_ledger: "ledger_ok d \<Longrightarrow> ledger_ok (serve_all x app rqs d)" "grows d (serve_all x app rqs d)"
proof -
  have "grows d (serve_all x app rqs d) \<and> (ledger_ok d \<longrightarrow> ledger_ok (serve_all x app rqs d))"
  proof (induction rqs arbitrary: d)
    case (Cons a rqs)
    show ?case
      using Cons.IH serve_usage_ledger [of d x app "fst a" "snd a"]
      by (cases a) (auto intro: grows_trans)
  qed simp
  then show "ledger_ok d \<Longrightarrow> ledger_ok (serve_all x app rqs d)" "grows d (serve_all x app rqs d)" by blast+
qed

lemma serve_all_once:
  assumes "ledger_ok d" "rqs = as @ (env, rq) # bs"
    "o_reply (serve_usage x app env rq (serve_all x app as d)) = Accepted ap rep i"
  shows "\<exists>r. usage_event x app env rq = Some r \<and> posted_count (u_tenant r) (u_event r) (serve_all x app rqs d) = 1"
proof -
  let ?d1 = "serve_all x app as d" and ?d2 = "o_db (serve_usage x app env rq (serve_all x app as d))"
  have ok1: "ledger_ok ?d1" using serve_all_ledger(1) [OF assms(1)] .
  from serve_usage_accepted_once [OF assms(3) ok1] obtain r where ev: "usage_event x app env rq = Some r"
    and c: "posted_count (u_tenant r) (u_event r) ?d2 = 1" by blast
  have final: "serve_all x app rqs d = serve_all x app bs ?d2" by (simp add: assms(2) serve_all_append)
  have "1 \<le> posted_count (u_tenant r) (u_event r) (serve_all x app rqs d)"
    using posted_count_mono [OF serve_all_ledger(2) [of ?d2 x app bs], of "u_tenant r" "u_event r"] c by (simp add: final)
  moreover have "posted_count (u_tenant r) (u_event r) (serve_all x app rqs d) \<le> 1"
    by (rule posted_count_le_1) (rule serve_all_ledger(1) [OF assms(1)])
  ultimately show ?thesis using ev by auto
qed

text \<open>No authentic event is dropped: it is posted, kept as a dead letter, logged whole, or left
  to be delivered again.\<close>

lemma serve_usage_disposition:
  fixes out
  assumes "usage_authentic x app env rq = Inr True" "out = serve_usage x app env rq d"
  shows "case o_reply out of
      Unauthorized \<Rightarrow> False
    | Retry \<Rightarrow> sv_post env = NoFault \<and> sv_dlq env = NoFault \<longrightarrow> o_db out = d
    | Dead_lettered reason \<Rightarrow> \<exists>err. pe_reason err = reason \<and> dlq_recorded err (stored_payload x rq) (o_db out)
    | Dead_letter_failed reason \<Rightarrow> \<exists>err. pe_reason err = reason \<and> o_log out = [(err, stored_payload x rq)]
    | Accepted _ _ _ \<Rightarrow> \<exists>r. usage_event x app env rq = Some r \<and> 1 \<le> posted_count (u_tenant r) (u_event r) (o_db out)"
  using assms(2)
proof (cases rule: serve_usage_cases)
  case refused
  then show ?thesis using assms(1) by simp
next
  case retry
  then show ?thesis by simp
next
  case (dead err d1)
  from dead_letter_or_503_cases(5) [OF dead(1)] show ?thesis by auto
next
  case (lost r a es)
  then show ?thesis by simp
next
  case (accepted r a d1)
  have "1 \<le> posted_count (u_tenant r) (u_event r) d1"
    using posted_count_pos [OF post_usage_Inr(1) [OF accepted(2)]] .
  then show ?thesis using accepted by (simp add: ledger_same_def posted_count_def)
qed

section \<open>Serving a revenue event\<close>

definition enforcement_same :: "db \<Rightarrow> db \<Rightarrow> bool" where
  "enforcement_same d d' \<longleftrightarrow> budgets d' = budgets d \<and> bstates d' = bstates d \<and> boutbox d' = boutbox d
     \<and> auths d' = auths d \<and> kstates d' = kstates d \<and> koutbox d' = koutbox d
     \<and> allocs d' = allocs d \<and> targets d' = targets d \<and> history d' = history d"

lemma enforcement_same_refl [simp]: "enforcement_same d d"
  by (simp add: enforcement_same_def)

lemma enforcement_same_trans: "enforcement_same a b \<Longrightarrow> enforcement_same b c \<Longrightarrow> enforcement_same a c"
  by (simp add: enforcement_same_def)

lemma enforcement_same_dlq:
  assumes "d' = d\<lparr>uuid_ctr := n, dead_letters := dl\<rparr>"
  shows "enforcement_same d d'"
  by (simp add: assms enforcement_same_def)

lemma enforcement_same_post:
  assumes "d' = d\<lparr>accounts := a, transactions := t, entries := e\<rparr>"
  shows "enforcement_same d d'"
  by (simp add: assms enforcement_same_def)

lemma dead_letter_or_503_enforcement: "enforcement_same d (o_db (dead_letter_or_503 x env err payload attempt d))"
proof -
  obtain y d1 where y: "run_tx (sv_dlq env) (dead_letter (x_u4 x) err payload attempt (sv_dlq_now env)) d = (y, d1)"
    by fastforce
  then have "enforcement_same d d1"
    by (cases rule: run_tx_cases) (auto intro: enforcement_same_dlq [OF dead_letter_Inr(1)])
  then show ?thesis using y by (simp add: dead_letter_or_503_def split: sum.splits)
qed

definition revenue_authentic :: "externals \<Rightarrow> app_state \<Rightarrow> serve_env \<Rightarrow> request \<Rightarrow> py_exc + bool" where
  "revenue_authentic x app env rq =
     verify_signature (x_mac x) (is_revenue_secret (as_ingest app)) (rq_timestamp rq) (rq_signature rq) (rq_body rq) (sv_clock env)"

definition revenue_event :: "externals \<Rightarrow> app_state \<Rightarrow> serve_env \<Rightarrow> request \<Rightarrow> revenue_record option" where
  "revenue_event x app env rq =
     (if revenue_authentic x app env rq = Inr True then
        (case x_loads x (rq_body rq) of
           None \<Rightarrow> None
         | Some payload \<Rightarrow> (case build_revenue_record (x_pdt x) payload of Inr r \<Rightarrow> Some r | Inl _ \<Rightarrow> None))
      else None)"

text \<open>A revenue request appends to the ledger, or to the dead letters, and to nothing else.\<close>

lemma serve_revenue_cases:
  fixes out
  assumes out: "out = serve_revenue x app env rq d"
  obtains (same) "o_db out = d" "o_reply out \<in> {Unauthorized, Retry, Accepted False False None}"
      "\<And>r. revenue_event x app env rq = Some r \<Longrightarrow> o_reply out = Accepted False False None \<Longrightarrow> v_event_type r = SUBSCRIPTION_REVOKED"
  | (dead) err payload attempt d1 where "out = dead_letter_or_503 x env err payload attempt d1"
      "d1 = d \<or> (\<exists>r a. revenue_event x app env rq = Some r \<and> v_event_type r = SUBSCRIPTION_GRANTED \<and> post_revenue (x_u5 x) r d = Inr (a, d1))"
  | (posts) r a where "revenue_event x app env rq = Some r" "v_event_type r = SUBSCRIPTION_GRANTED"
      "post_revenue (x_u5 x) r d = Inr (a, o_db out)" "o_reply out \<in> {Retry, Accepted (ap_applied a) (ap_replay a) (Some (ap_txn a))}"
proof (cases "revenue_authentic x app env rq = Inr True")
  case False
  then have "o_db out = d \<and> o_reply out \<in> {Unauthorized, Retry}"
    by (auto simp: out serve_revenue_def ingest_revenue_def failsafe_def revenue_authentic_def split: sum.splits bool.splits)
  then show thesis using same by (metis empty_iff insert_iff reply.distinct(7) reply.distinct(13))
next
  case au: True
  show thesis
  proof (cases "x_loads x (rq_body rq)")
    case None
    then show thesis using au
      by (intro dead [of malformed_body "raw_snippet x (rq_body rq)" "parse_attempt (rq_attempt rq)" d])
        (simp_all add: out serve_revenue_def ingest_revenue_def failsafe_def revenue_authentic_def Let_def)
  next
    case (Some payload)
    show thesis
    proof (cases "build_revenue_record (x_pdt x) payload")
      case (Inl e)
      show thesis
      proof (cases e)
        case (Permanent err)
        then show thesis using au Some Inl
          by (intro dead [of err "as_dict payload" "parse_attempt (rq_attempt rq)" d])
            (simp_all add: out serve_revenue_def ingest_revenue_def failsafe_def revenue_authentic_def Let_def)
      next
        case (Raised es)
        then have "out = \<lparr>o_reply = Retry, o_log = [], o_db = d\<rparr>" using au Some Inl
          by (simp add: out serve_revenue_def ingest_revenue_def failsafe_def revenue_authentic_def Let_def)
        then show thesis by (intro same) simp_all
      qed
    next
      case (Inr r)
      have ev: "revenue_event x app env rq = Some r" using au Some Inr by (simp add: revenue_event_def)
      show thesis
      proof (cases "v_event_type r")
        case SUBSCRIPTION_REVOKED
        then have "out = \<lparr>o_reply = Accepted False False None, o_log = [], o_db = d\<rparr>" using au Some Inr
          by (simp add: out serve_revenue_def ingest_revenue_def failsafe_def revenue_authentic_def Let_def)
        then show thesis using ev SUBSCRIPTION_REVOKED by (intro same) simp_all
      next
        case SUBSCRIPTION_GRANTED
        obtain y d1 where y: "run_tx (sv_post env) (post_revenue (x_u5 x) r) d = (y, d1)" by fastforce
        let ?dl = "dead_letter_or_503 x env \<lparr>pe_reason = UNRESOLVABLE_ACCOUNT, pe_tenant = Some (v_tenant r),
            pe_event = revenue_dlq_event_id (JStr (v_idem r)), pe_type = Some ''revenue''\<rparr> (as_dict payload)
            (parse_attempt (rq_attempt rq)) d1"
        have o: "out = (case y of
            Inl es \<Rightarrow> if is_transient es then \<lparr>o_reply = Retry, o_log = [], o_db = d1\<rparr> else ?dl
          | Inr res \<Rightarrow> \<lparr>o_reply = Accepted (ap_applied res) (ap_replay res) (Some (ap_txn res)), o_log = [], o_db = d1\<rparr>)"
          using au Some Inr SUBSCRIPTION_GRANTED y unfolding out serve_revenue_def ingest_revenue_def failsafe_def revenue_authentic_def Let_def
          by (simp split: sum.splits)
        from y show thesis
        proof (cases rule: run_tx_cases)
          case (failed es)
          show thesis
          proof (cases "is_transient es")
            case True
            with o failed have "out = \<lparr>o_reply = Retry, o_log = [], o_db = d\<rparr>" by simp
            then show thesis by (intro same) simp_all
          next
            case False
            with o failed have "out = ?dl" by simp
            then show thesis using failed by (intro dead [OF \<open>out = ?dl\<close>]) simp
          qed
        next
          case (committed a)
          then show thesis using o ev SUBSCRIPTION_GRANTED by (intro posts [of r a]) simp_all
        next
          case (lost a es)
          show thesis
          proof (cases "is_transient es")
            case True
            then show thesis using o lost ev SUBSCRIPTION_GRANTED by (intro posts [of r a]) simp_all
          next
            case False
            with o lost have "out = ?dl" by simp
            then show thesis using lost ev SUBSCRIPTION_GRANTED by (intro dead [OF \<open>out = ?dl\<close>]) blast
          qed
        qed
      qed
    qed
  qed
qed

lemma serve_revenue_enforcement: "enforcement_same d (o_db (serve_revenue x app env rq d))"
  using refl [of "serve_revenue x app env rq d"]
proof (cases rule: serve_revenue_cases)
  case same
  then show ?thesis by simp
next
  case (dead err payload attempt d1)
  have "enforcement_same d d1" using dead(2) by (auto intro: enforcement_same_post [OF post_revenue_Inr(3)])
  then show ?thesis using enforcement_same_trans [OF _ dead_letter_or_503_enforcement] by (simp add: dead(1))
next
  case (posts r a)
  then show ?thesis by (auto intro: enforcement_same_post [OF post_revenue_Inr(3)])
qed

lemma serve_revenue_ledger:
  "grows d (o_db (serve_revenue x app env rq d))" "ledger_ok d \<Longrightarrow> ledger_ok (o_db (serve_revenue x app env rq d))"
proof -
  let ?out = "serve_revenue x app env rq d"
  have "grows d (o_db ?out) \<and> (ledger_ok d \<longrightarrow> ledger_ok (o_db ?out))"
    using refl [of ?out]
  proof (cases rule: serve_revenue_cases)
    case same
    then show ?thesis by simp
  next
    case (dead err payload attempt d1)
    note c = dead_letter_or_503_cases [OF dead(1)]
    have d1: "grows d d1" "ledger_ok d \<Longrightarrow> ledger_ok d1"
      using dead(2) by (auto dest: post_revenue_grows(1) post_revenue_Inr(2))
    show ?thesis
      using grows_trans [OF d1(1) c(1)] ledger_ok_accounts [OF d1(2) c(2,3)] c(4) by simp
  next
    case (posts r a)
    then show ?thesis using post_revenue_grows(1) post_revenue_Inr(2) by blast
  qed
  then show "grows d (o_db ?out)" "ledger_ok d \<Longrightarrow> ledger_ok (o_db ?out)" by blast+
qed

section \<open>Which permanent failures are kept\<close>

text \<open>Without a fault a permanent failure ends as a dead letter exactly when its row can be stored.\<close>

definition storable :: "u4gen \<Rightarrow> perm_error \<Rightarrow> json \<Rightarrow> int \<Rightarrow> db \<Rightarrow> bool" where
  "storable u4 err payload attempt d \<longleftrightarrow> varchar64_ok (pe_tenant err) \<and> varchar64_ok (pe_event err) \<and> varchar64_ok (pe_type err)
     \<and> jsonb_ok payload \<and> 0 \<le> attempt \<and> attempt < 2 ^ 31 \<and> u4 (uuid_ctr d) \<notin> dl_id ` set (dead_letters d)
     \<and> (\<forall>t \<in> set_option (pe_tenant err). is_ok (tenant_session t))"

lemma dead_letter_storable:
  assumes "storable u4 err payload attempt d"
  shows "\<exists>d'. dead_letter u4 err payload attempt now d = Inr ((), d')"
proof -
  have "(case pe_tenant err of Some (c # cs) \<Rightarrow> tenant_session (c # cs) | _ \<Rightarrow> Inr ()) = Inr ()"
    using assms by (auto simp: storable_def tenant_session_def split: option.splits list.splits if_splits)
  then show ?thesis
    using assms by (auto simp: dead_letter_def uuid4_def Let_def storable_def insert_unique_def)
qed

lemma dead_letter_or_503_stored:
  assumes "storable (x_u4 x) err payload attempt d" "sv_dlq env = NoFault"
  shows "o_reply (dead_letter_or_503 x env err payload attempt d) = Dead_lettered (pe_reason err)"
  using dead_letter_storable [OF assms(1), of "sv_dlq_now env"] assms(2)
  by (auto simp: dead_letter_or_503_def run_tx_def)

text \<open>A payload or an event id the table cannot hold is never dead-lettered, whatever happens.\<close>

lemma dead_letter_or_503_unstorable:
  assumes "\<not> (jsonb_ok payload \<and> varchar64_ok (pe_event err))"
  shows "dead_letters (o_db (dead_letter_or_503 x env err payload attempt d)) = dead_letters d"
    "o_reply (dead_letter_or_503 x env err payload attempt d) \<in> {Retry, Dead_letter_failed (pe_reason err)}"
  using dead_letter_or_503_cases(5,6) [of _ x env err payload attempt d, OF refl] assms by auto

section \<open>Validation\<close>

lemma build_usage_record_permanent:
  assumes "jget ''event_type'' kv = JStr ''usage''" "is_valid_tenant (jget ''tenant_id'' kv)"
    "jhas ''cost_estimate_cents'' kv" "from_wire_cents (jget ''cost_estimate_cents'' kv) DEFAULT_CURRENCY = Inl e"
  shows "build_usage_record pdt (JObj kv) = (if is_value_error e \<or> e = TypeError
    then Inl (permanent INVALID_COST (opt_str (jget ''tenant_id'' kv)) (opt_str (jget ''event_id'' kv)) (Some ''usage''))
    else Inl (Raised (raised e)))"
  using assms by (simp add: build_usage_record_def Let_def)

lemma build_usage_record_Raised:
  "build_usage_record pdt payload = Inl (Raised es) \<longleftrightarrow>
     (\<exists>kv. payload = JObj kv \<and> jget ''event_type'' kv = JStr ''usage'' \<and> is_valid_tenant (jget ''tenant_id'' kv)
        \<and> jhas ''cost_estimate_cents'' kv \<and> es = raised InvalidOperation
        \<and> from_wire_cents (jget ''cost_estimate_cents'' kv) DEFAULT_CURRENCY = Inl InvalidOperation)"
    (is "?l \<longleftrightarrow> ?r")
proof
  assume l: ?l
  then obtain kv where kv: "payload = JObj kv" by (cases payload) (simp_all add: build_usage_record_def permanent_def)
  have c: "jget ''event_type'' kv = JStr ''usage''" "is_valid_tenant (jget ''tenant_id'' kv)" "jhas ''cost_estimate_cents'' kv"
    using l by (auto simp: kv build_usage_record_def Let_def permanent_def split: if_splits)
  obtain e where e: "from_wire_cents (jget ''cost_estimate_cents'' kv) DEFAULT_CURRENCY = Inl e"
    using l c by (auto simp: kv build_usage_record_def Let_def permanent_def split: sum.splits json.splits)
  from from_wire_cents_Inl [OF this] build_usage_record_permanent [OF c e, of pdt] l
  show ?r using kv c e by (auto simp: permanent_def split: if_splits)
next
  assume ?r
  then show ?l using build_usage_record_permanent by (fastforce simp: is_value_error_def)
qed

lemma serve_usage_raises:
  assumes "usage_authentic x app env rq = Inr True" "x_loads x (rq_body rq) = Some payload"
    "build_usage_record (x_pdt x) payload = Inl (Raised es)"
  shows "serve_usage x app env rq d = \<lparr>o_reply = Retry, o_log = [], o_db = d\<rparr>"
  using ingest_usage_authentic [OF assms(1,2)] assms(3) by (simp add: serve_usage_def failsafe_def)

lemma serve_usage_permanent:
  assumes "usage_authentic x app env rq = Inr True" "x_loads x (rq_body rq) = Some payload"
    "build_usage_record (x_pdt x) payload = Inl (Permanent err)"
  shows "serve_usage x app env rq d
    = dead_letter_or_503 x env err (as_dict payload) (parse_attempt (rq_attempt rq)) d"
  using ingest_usage_authentic [OF assms(1,2)] assms(3) by (simp add: serve_usage_def failsafe_def)

lemma serve_usage_unverifiable:
  assumes "usage_authentic x app env rq = Inl e"
  shows "serve_usage x app env rq d = \<lparr>o_reply = Retry, o_log = [], o_db = d\<rparr>"
  using assms by (simp add: serve_usage_def failsafe_def ingest_usage_def usage_authentic_def)

lemma jsonb_ok_member:
  assumes "jsonb_ok (JObj kv)" "jhas k kv"
  shows "jsonb_ok (jget k kv)"
proof -
  have "map_of kv k \<noteq> None" using assms(2) by (simp add: jhas_def map_of_eq_None_iff)
  then obtain v where v: "map_of kv k = Some v" by blast
  then have "(k, v) \<in> set kv" by (rule map_of_SomeD)
  then show ?thesis using assms(1) v by (auto simp: list_all_iff jget_def)
qed

text \<open>A request that does not verify leaves no trace.\<close>

lemma serve_usage_refuses:
  assumes "usage_authentic x app env rq \<noteq> Inr True"
  shows "o_db (serve_usage x app env rq d) = d" "o_log (serve_usage x app env rq d) = []"
  using assms by (auto simp: serve_usage_def failsafe_def ingest_usage_def usage_authentic_def split: sum.splits bool.splits)

end
