(* ===== verification/Spend.thy ===== *)
theory Spend
  imports Ingest_Serve
begin

text \<open>
  Spend across components: what a posting and a reversal do to the spend the budget engine
  derives from the ledger, and when a valid event is certain to be posted.
\<close>

section \<open>Reversal and spend\<close>

definition in_spend :: "ident \<Rightarrow> budget_scope \<Rightarrow> ident \<Rightarrow> ident \<Rightarrow> ident \<Rightarrow> string \<Rightarrow> instant \<Rightarrow> instant \<Rightarrow> db \<Rightarrow> entry_row \<Rightarrow> bool" where
  "in_spend sess sc team proj agent cur ps pe d e \<longleftrightarrow> le_tenant e = sess \<and> expense_entry sess cur d e
     \<and> ps \<le> le_time e \<and> le_time e < pe \<and> in_scope sc team proj agent e"

lemma scope_spend_in_spend:
  "scope_spend_cents sess sc sess team proj agent cur ps pe d
    = total signed_cents (filter (in_spend sess sc team proj agent cur ps pe d) (entries d))"
  unfolding scope_spend_cents_def by (intro arg_cong [of _ _ "total signed_cents"] filter_cong) (auto simp: in_spend_def)

text \<open>What of \<open>in_spend\<close> a compensating entry shares with the entry it reverses.\<close>

definition spend_sel :: "ident \<Rightarrow> budget_scope \<Rightarrow> ident \<Rightarrow> ident \<Rightarrow> ident \<Rightarrow> string \<Rightarrow> db \<Rightarrow> ident \<Rightarrow> ident \<Rightarrow> ident \<Rightarrow> ident \<Rightarrow> bool" where
  "spend_sel sess sc team proj agent cur d ac tm pj ag \<longleftrightarrow>
     list_ex (\<lambda>a. acc_tenant a = sess \<and> acc_id a = ac \<and> acc_type a = EXPENSE \<and> acc_currency a = cur) (accounts d)
     \<and> (case sc of STENANT \<Rightarrow> True | STEAM \<Rightarrow> tm = team | SPROJECT \<Rightarrow> pj = proj | SAGENT \<Rightarrow> ag = agent)"

lemma in_spend_sel:
  assumes "le_tenant e = sess" "ps \<le> le_time e" "le_time e < pe"
  shows "in_spend sess sc team proj agent cur ps pe d e
    = spend_sel sess sc team proj agent cur d (le_account e) (le_team e) (le_project e) (le_agent e)"
  using assms by (simp add: in_spend_def spend_sel_def expense_entry_def in_scope_def split: budget_scope.splits)

lemma reverse_applied_entries:
  assumes ok: "ledger_ok d" and rv: "reverse_transaction u4 sess orig new (Aware t) desc idem d = Inr (res, d')" and ap: "ap_applied res"
  shows "entries d' = entries d @ txn_entries new d'" "accounts d' = accounts d" "new \<noteq> orig"
    "\<forall>e \<in> set (txn_entries new d'). le_time e = t \<and> le_tenant e = sess"
    "\<forall>e \<in> set (txn_entries orig d). le_tenant e = sess"
proof -
  have "entries d' = entries d @ txn_entries new d' \<and> accounts d' = accounts d \<and> new \<noteq> orig
      \<and> (\<forall>e \<in> set (txn_entries new d'). le_time e = t \<and> le_tenant e = sess)
      \<and> (\<forall>e \<in> set (txn_entries orig d). le_tenant e = sess)"
    using rv
  proof (cases rule: reverse_transaction_cases)
    case (1 x t')
    let ?rows = "map (entry_row_of new) (t_entries x)"
    note vis = txn_entries_visible [OF ok 1(4)]
    have a: "entries d' = entries d @ ?rows" "new \<notin> tr_id ` set (transactions d)" "accounts d' = accounts d"
      "\<forall>r \<in> set ?rows. le_tenant r = sess"
      using 1(1) ap 1(2) by (cases rule: append_transaction_cases; simp)+
    have none: "le_txn e \<noteq> new" if "e \<in> set (entries d)" for e
      using ledger_ok_fk [OF ok that] a(2) by metis
    have new: "txn_entries new d' = ?rows"
      using none by (auto simp: txn_entries_def a(1) filter_empty_conv)
    have ne: "new \<noteq> orig" using 1(4) none by (auto simp: filter_empty_conv)
    have tm: "le_time e = t" if er: "e \<in> set ?rows" for e
    proof -
      from er obtain n where n: "n < length ?rows" "e = ?rows ! n" unfolding in_set_conv_nth by blast
      from list_all2_nthD2 [OF 1(6) n(1)] n(2) 1(5) show ?thesis by (simp add: compensates_def)
    qed
    have "\<forall>e \<in> set (txn_entries orig d). le_tenant e = sess" unfolding vis [symmetric] by simp
    then show ?thesis using a tm ne unfolding new by blast
  qed
  then show "entries d' = entries d @ txn_entries new d'" "accounts d' = accounts d" "new \<noteq> orig"
    "\<forall>e \<in> set (txn_entries new d'). le_time e = t \<and> le_tenant e = sess"
    "\<forall>e \<in> set (txn_entries orig d). le_tenant e = sess" by blast+
qed

text \<open>A reversal inside the window leaves the spend as if the original had never been posted.\<close>

lemma reversal_restores_spend:
  assumes ok: "ledger_ok d" and rv: "reverse_transaction u4 sess orig new (Aware t) desc idem d = Inr (res, d')" and ap: "ap_applied res"
    and w: "ps \<le> t" "t < pe" "\<forall>e \<in> set (txn_entries orig d). ps \<le> le_time e \<and> le_time e < pe"
  shows "scope_spend_cents sess sc sess team proj agent cur ps pe d'
    = scope_spend_cents sess sc sess team proj agent cur ps pe (d\<lparr>entries := filter (\<lambda>e. le_txn e \<noteq> orig) (entries d)\<rparr>)"
proof -
  note r = reverse_applied_entries [OF ok rv ap] and n = reverse_transaction_nets [OF ok rv ap]
  let ?I = "in_spend sess sc team proj agent cur ps pe d" and ?S = "spend_sel sess sc team proj agent cur d"
  let ?P = "\<lambda>e. ?S (le_account e) (le_team e) (le_project e) (le_agent e)"
  have I': "in_spend sess sc team proj agent cur ps pe (d\<lparr>entries := x\<rparr>) = ?I"
    "in_spend sess sc team proj agent cur ps pe d' = ?I" for x
    by (auto simp: in_spend_def expense_entry_def r(2) fun_eq_iff)
  have new: "filter ?I (txn_entries new d') = filter ?P (txn_entries new d')"
    using r(4) w by (intro filter_cong refl in_spend_sel) auto
  have old: "filter ?I (txn_entries orig d) = filter ?P (txn_entries orig d)"
    using r(5) w by (intro filter_cong refl in_spend_sel) auto
  have "total signed_cents (filter ?I (entries d))
      = total signed_cents (filter ?I (txn_entries orig d)) + total signed_cents (filter ?I (filter (\<lambda>e. le_txn e \<noteq> orig) (entries d)))"
    using total_filter_split [of signed_cents "filter ?I (entries d)" "\<lambda>e. le_txn e = orig"]
    by (simp add: txn_entries_def filter_filter conj_commute)
  then show ?thesis
    using n(1) [of ?S] unfolding scope_spend_in_spend I' by (simp add: r(1) new old)
qed

section \<open>Posting and spend\<close>

text \<open>The canonical accounts are what the resolver makes them, wherever they already exist.\<close>

definition canonical_accounts :: "u5gen \<Rightarrow> ident \<Rightarrow> string \<Rightarrow> db \<Rightarrow> bool" where
  "canonical_accounts u5 t cur d \<longleftrightarrow>
     account_id_of u5 t cur ''expense'' \<noteq> account_id_of u5 t cur ''spend_clearing''
     \<and> (\<forall>a \<in> set (accounts d).
          (acc_id a = account_id_of u5 t cur ''expense'' \<longrightarrow> acc_tenant a = t \<and> acc_type a = EXPENSE \<and> acc_currency a = cur)
        \<and> (acc_id a = account_id_of u5 t cur ''spend_clearing'' \<longrightarrow> acc_tenant a = t \<and> acc_type a = LIABILITY))"

lemma ensure_accounts_canonical:
  assumes "ensure_accounts u5 t t cur d = Inr (acc, d')" "canonical_accounts u5 t cur d"
  shows "canonical_accounts u5 t cur d'"
    "\<exists>a \<in> set (accounts d'). acc_id a = account_id_of u5 t cur ''expense''"
    "\<exists>a \<in> set (accounts d'). acc_id a = account_id_of u5 t cur ''spend_clearing''"
proof -
  let ?e = "\<lparr>acc_id = account_id_of u5 t cur ''expense'', acc_tenant = t, acc_type = EXPENSE,
        acc_currency = cur, acc_name = ''AI Spend Expense ('' @ cur @ '')''\<rparr>"
  let ?c = "\<lparr>acc_id = account_id_of u5 t cur ''spend_clearing'', acc_tenant = t, acc_type = LIABILITY,
        acc_currency = cur, acc_name = ''AI Spend Clearing ('' @ cur @ '')''\<rparr>"
  from assms(1) obtain d1 where e1: "ensure_account t ?e d = Inr d1" and e2: "ensure_account t ?c d1 = Inr d'"
    by (auto simp: ensure_accounts_def Let_def resolve_account_ids_def bindR_eq_Inr)
  note a1 = ensure_account_Inr(3) [OF e1] and a2 = ensure_account_Inr(3) [OF e2]
  have sub: "set (accounts d') \<subseteq> insert ?e (insert ?c (set (accounts d)))"
    using a1 a2 by (auto split: if_splits)
  then show "canonical_accounts u5 t cur d'"
    using assms(2) unfolding canonical_accounts_def by auto
  show "\<exists>a \<in> set (accounts d'). acc_id a = account_id_of u5 t cur ''expense''"
    "\<exists>a \<in> set (accounts d'). acc_id a = account_id_of u5 t cur ''spend_clearing''"
    using a1 a2 by (auto simp: image_iff split: if_splits)
qed

text \<open>A new usage posting adds exactly its cost to the spend of every scope and window it falls in.\<close>

lemma posting_adds_spend:
  assumes ok: "ledger_ok d" and p: "post_usage u5 r d = Inr (res, d')" and ap: "ap_applied res"
    and can: "canonical_accounts u5 (u_tenant r) (u_currency r) d"
  shows "scope_spend_cents (u_tenant r) sc (u_tenant r) team proj agent (u_currency r) ps pe d'
    = scope_spend_cents (u_tenant r) sc (u_tenant r) team proj agent (u_currency r) ps pe d
      + (if ps \<le> u_time r \<and> u_time r < pe \<and> (case sc of STENANT \<Rightarrow> True | STEAM \<Rightarrow> u_team r = team
           | SPROJECT \<Rightarrow> u_project r = proj | SAGENT \<Rightarrow> u_agent r = agent) then u_cost r else 0)"
proof -
  let ?t = "u_tenant r" and ?cur = "u_currency r"
  let ?I = "in_spend ?t sc team proj agent ?cur ps pe"
  from p obtain acc d1 x where e: "ensure_accounts u5 ?t ?t ?cur d = Inr (acc, d1)" and x: "build_transaction u5 r acc = Inr x"
    and app: "append_transaction ?t x (Some (u_event r)) None d1 = Inr (res, d')"
    by (auto simp: post_usage_def bindR_eq_Inr)
  note c = ensure_accounts_canonical [OF e can] and g = ensure_accounts_Inr [OF e] and bt = build_transaction_Inr [OF x]
  note gs = accounts_grown_simps [OF g(3)]
  have d': "accounts d' = accounts d1" "entries d' = entries d @ map (entry_row_of (t_id x)) (t_entries x)"
    using app ap by (cases rule: append_transaction_cases; simp add: gs)+
  obtain a b where ab: "map (entry_row_of (t_id x)) (t_entries x) = [a, b]" "le_dir a = DEBIT" "le_dir b = CREDIT"
    "le_account a = account_id_of u5 ?t ?cur ''expense''" "le_account b = account_id_of u5 ?t ?cur ''spend_clearing''"
    "le_amount a = u_cost r" "le_time a = u_time r" "le_tenant a = ?t"
    using bt(3) by (auto simp: two_leg_def g(2) resolve_account_ids_def)
  have at: "le_team a = u_team r" "le_project a = u_project r" "le_agent a = u_agent r"
  proof -
    have "a \<in> set (map (entry_row_of (t_id x)) (t_entries x))" by (simp add: ab(1))
    then show "le_team a = u_team r" "le_project a = u_project r" "le_agent a = u_agent r"
      using bt(4) by (auto simp: entry_row_of_def)
  qed
  have exp: "expense_entry ?t ?cur d' a" and cl: "\<not> expense_entry ?t ?cur d' b"
    using c unfolding expense_entry_def d'(1) ab list_ex_iff canonical_accounts_def by auto
  have same: "?I d' y = ?I d y" if "y \<in> set (entries d)" for y
  proof -
    obtain new where new: "accounts d1 = accounts d @ new" "\<forall>z \<in> set new. acc_id z \<notin> acc_id ` set (accounts d)"
      using g(3) by (auto simp: accounts_grown_def)
    have "le_account y \<in> acc_id ` set (accounts d)" using ok that by (auto simp: ledger_ok_def entry_ok_def)
    then have "expense_entry ?t ?cur d' y = expense_entry ?t ?cur d y"
      using new(2) by (auto simp: expense_entry_def d'(1) new(1) list_ex_iff)
    then show ?thesis by (simp add: in_spend_def)
  qed
  have "filter (?I d') (entries d') = filter (?I d) (entries d) @ filter (?I d') [a, b]"
    using same by (simp add: d'(2) ab(1) cong: filter_cong)
  moreover have "\<not> ?I d' b" using cl by (simp add: in_spend_def)
  ultimately have "filter (?I d') (entries d') = filter (?I d) (entries d) @ (if ?I d' a then [a] else [])" by simp
  moreover have "?I d' a \<longleftrightarrow> ps \<le> u_time r \<and> u_time r < pe \<and> (case sc of STENANT \<Rightarrow> True | STEAM \<Rightarrow> u_team r = team
           | SPROJECT \<Rightarrow> u_project r = proj | SAGENT \<Rightarrow> u_agent r = agent)"
    using exp ab(7,8) at by (cases sc) (simp_all add: in_spend_def in_scope_def)
  moreover have "signed_cents a = u_cost r" by (simp add: signed_cents_def ab(2,6))
  ultimately show ?thesis unfolding scope_spend_in_spend by simp
qed

section \<open>A valid event is posted\<close>

definition fresh_posting :: "u5gen \<Rightarrow> usage_record \<Rightarrow> db \<Rightarrow> bool" where
  "fresh_posting u5 r d \<longleftrightarrow>
     (let base = u_tenant r @ '':'' @ u_event r in
      (\<forall>ns n. is_uuid (u5 ns n))
      \<and> (u_tenant r, Some (u_event r)) \<notin> (\<lambda>x. (tr_tenant x, tr_idem x)) ` set (transactions d)
      \<and> u5 POSTING_NAMESPACE base \<notin> tr_id ` set (transactions d)
      \<and> u5 POSTING_NAMESPACE (base @ '':debit'') \<notin> le_id ` set (entries d)
      \<and> u5 POSTING_NAMESPACE (base @ '':credit'') \<notin> le_id ` set (entries d)
      \<and> u5 POSTING_NAMESPACE (base @ '':debit'') \<noteq> u5 POSTING_NAMESPACE (base @ '':credit'')
      \<and> canonical_accounts u5 (u_tenant r) (u_currency r) d)"

definition valid_usage :: "usage_record \<Rightarrow> bool" where
  "valid_usage r \<longleftrightarrow> is_uuid (u_tenant r) \<and> is_uuid (u_team r) \<and> is_uuid (u_project r) \<and> is_agent_id (u_agent r)
     \<and> is_uuid (u_event r) \<and> is_currency (u_currency r) \<and> is_model_name (u_model r) \<and> 0 \<le> u_cost r \<and> u_cost r \<le> MAX_USAGE_COST_CENTS"

lemma is_hex_not_space: "is_hex c \<Longrightarrow> \<not> is_space c"
  unfolding is_hex_def is_digit_def char_in_def is_space_def Let_def by presburger

lemma is_uuid_session: "is_uuid s \<Longrightarrow> tenant_session s = Inr ()"
proof -
  assume u: "is_uuid s"
  then have hx: "is_hex (last s)" and ne: "s \<noteq> []" using is_uuid_last is_uuid_length [OF u] by auto
  have "\<not> is_space (last s)" using is_hex_not_space [OF hx] .
  then have nsp: "\<exists>c \<in> set s. \<not> is_space c" using ne last_in_set by blast
  then have "dropWhile is_space s \<noteq> []" by (simp add: dropWhile_eq_Nil_conv)
  then have "\<not> is_space (hd (dropWhile is_space s))" by (rule hd_dropWhile)
  then have "\<exists>c \<in> set (rev (dropWhile is_space s)). \<not> is_space c"
    using \<open>dropWhile is_space s \<noteq> []\<close> hd_in_set by (metis set_rev)
  then have "strip s \<noteq> []" by (simp add: strip_def dropWhile_eq_Nil_conv)
  then show ?thesis using ne by (simp add: tenant_session_def)
qed

lemma ensure_accounts_ok:
  assumes "is_currency cur"
  shows "\<exists>acc d'. ensure_accounts u5 t t cur d = Inr (acc, d')"
proof -
  have "length cur = 3" using assms by (simp add: is_currency_def)
  then show ?thesis using assms by (simp add: ensure_accounts_def ensure_account_def Let_def is_name_def)
qed

lemma build_transaction_ok:
  assumes "valid_usage r" "\<And>ns n. is_uuid (u5 ns n)"
  shows "\<exists>x. build_transaction u5 r (resolve_account_ids u5 (u_tenant r) (u_currency r)) = Inr x"
proof -
  have "is_uuid (account_id_of u5 t c ro)" for t c ro using assms(2) by (simp add: account_id_of_def)
  moreover have "u_cost r \<le> MAX_MONEY_MINOR_UNITS" using assms(1) by (simp add: valid_usage_def money_bounds)
  moreover have "length (u_model r) \<le> 256" using assms(1) by (simp add: valid_usage_def is_model_name_def)
  ultimately show ?thesis using assms
    by (simp add: build_transaction_def Let_def valid_usage_def resolve_account_ids_def mk_money_def bounded_count_ok
        mk_entry_def mk_transaction_def check_balanced_ok distinct_count_def debits_def credits_def)
qed

lemma append_two_leg_ok:
  assumes ok: "ledger_ok d" and x: "t_entries x = [a, b]" "t_tenant x = t" "e_tenant a = t" "e_tenant b = t" "balanced x"
    and cur: "is_currency (currency (e_amount a))" and key: "length key \<le> 255"
    and fresh: "(t, Some key) \<notin> (\<lambda>y. (tr_tenant y, tr_idem y)) ` set (transactions d)" "t_id x \<notin> tr_id ` set (transactions d)"
      "e_id a \<notin> le_id ` set (entries d)" "e_id b \<notin> le_id ` set (entries d)" "e_id a \<noteq> e_id b"
    and rows: "entry_ok d (entry_row_of (t_id x) a)" "entry_ok d (entry_row_of (t_id x) b)"
  shows "\<exists>res d'. append_transaction t x (Some key) None d = Inr (res, d') \<and> ap_applied res"
proof -
  let ?r = "txn_row_of x (Some key) None" and ?A = "entry_row_of (t_id x) a" and ?B = "entry_row_of (t_id x) b"
  let ?d1 = "d\<lparr>transactions := transactions d @ [?r]\<rparr>"
  let ?d2 = "?d1\<lparr>entries := entries d @ [?A, ?B]\<rparr>"
  have i: "insert_txn t ?r d = Inr (Some ?d1)"
    using fresh(1,2) x(1,2) cur key by (simp add: insert_txn_def txn_row_of_def)
  have f: "foldR (insert_entry t) (map (entry_row_of (t_id x)) (t_entries x)) ?d1 = Inr ?d2"
  proof -
    have ids: "le_id ?A = e_id a" "le_id ?B = e_id b" "le_tenant ?A = t" "le_tenant ?B = t"
      using x(3,4) by (simp_all add: entry_row_of_def)
    have "insert_entry t ?A ?d1 = Inr (?d1\<lparr>entries := entries d @ [?A]\<rparr>)"
      "insert_entry t ?B (?d1\<lparr>entries := entries d @ [?A]\<rparr>) = Inr ?d2"
      using rows fresh(3-5) by (simp_all add: insert_entry_Inr ids)
    then show ?thesis by (simp add: x(1))
  qed
  have none: "le_txn e \<noteq> t_id x" if "e \<in> set (entries d)" for e
    using ledger_ok_fk [OF ok that] fresh(2) by metis
  have vis: "filter (\<lambda>e. le_txn e = t_id x \<and> le_tenant e = t) (entries ?d2) = [?A, ?B]"
    using none x(3,4) by (auto simp: filter_empty_conv entry_row_of_def)
  have fnd: "List.find (\<lambda>y. tr_id y = t_id x \<and> tr_tenant y = t) (transactions ?d2) = Some ?r"
    using fresh(2) x(2) by (simp, subst find_snoc_fresh) (auto simp: image_iff)
  have bal: "debits [a, b] = credits [a, b]" "distinct_count (\<lambda>e. currency (e_amount e)) [a, b] = 1"
    using x(1,5) by (simp_all add: balanced_def)
  have "row_debits [?A, ?B] = debits [a, b]" "row_credits [?A, ?B] = credits [a, b]"
    by (simp_all add: row_debits_def row_credits_def debits_def credits_def entry_row_of_def)
  then have "assert_txn_balanced t (t_id x) ?d2"
    unfolding assert_txn_balanced_def Let_def vis fnd using bal x
    by (simp add: distinct_count_def txn_row_of_def entry_row_of_def)
  then show ?thesis using i f by (simp add: append_transaction_def)
qed

text \<open>The first delivery of a valid event posts it.\<close>

lemma post_usage_posts:
  assumes ok: "ledger_ok d" and v: "valid_usage r" and fr: "fresh_posting u5 r d"
  shows "\<exists>res d'. post_usage u5 r d = Inr (res, d') \<and> ap_applied res"
proof -
  let ?t = "u_tenant r" and ?cur = "u_currency r"
  have can: "canonical_accounts u5 ?t ?cur d" and u5: "\<And>ns n. is_uuid (u5 ns n)"
    using fr by (simp_all add: fresh_posting_def Let_def)
  obtain acc d1 where e: "ensure_accounts u5 ?t ?t ?cur d = Inr (acc, d1)"
    using ensure_accounts_ok [of ?cur u5 ?t d] v unfolding valid_usage_def by blast
  note c = ensure_accounts_canonical [OF e can] and g = ensure_accounts_Inr [OF e]
  note gs = accounts_grown_simps [OF g(3)]
  obtain x where x: "build_transaction u5 r acc = Inr x"
    using build_transaction_ok [OF v, of u5] u5 g(2) by blast
  obtain a b where ab: "t_entries x = [a, b]" "t_tenant x = ?t" "e_tenant a = ?t" "e_tenant b = ?t" "balanced x"
    "currency (e_amount a) = ?cur" "currency (e_amount b) = ?cur" "t_id x = u5 POSTING_NAMESPACE (?t @ '':'' @ u_event r)"
    "e_id a = u5 POSTING_NAMESPACE (?t @ '':'' @ u_event r @ '':debit'')"
    "e_id b = u5 POSTING_NAMESPACE (?t @ '':'' @ u_event r @ '':credit'')"
    "e_account a = account_id_of u5 ?t ?cur ''expense''" "e_account b = account_id_of u5 ?t ?cur ''spend_clearing''"
    "e_cents a = u_cost r" "e_cents b = u_cost r"
    using x by (auto simp: build_transaction_def Let_def bindR_eq_Inr mk_transaction_Inr g(2) resolve_account_ids_def)
  have acc_in: "(?t, account_id_of u5 ?t ?cur ''expense'') \<in> (\<lambda>y. (acc_tenant y, acc_id y)) ` set (accounts d1)"
    "(?t, account_id_of u5 ?t ?cur ''spend_clearing'') \<in> (\<lambda>y. (acc_tenant y, acc_id y)) ` set (accounts d1)"
    using c unfolding canonical_accounts_def by (metis (mono_tags, lifting) imageI)+
  have cost: "0 \<le> u_cost r" "u_cost r \<le> MAX_MONEY_MINOR_UNITS" "is_currency ?cur"
    using v by (simp_all add: valid_usage_def money_bounds)
  have rows: "entry_ok d1 (entry_row_of (t_id x) a)" "entry_ok d1 (entry_row_of (t_id x) b)"
    using acc_in cost ab by (simp_all add: entry_ok_def entry_row_of_def)
  have key: "length (u_event r) \<le> 255" using v is_uuid_length [of "u_event r"] by (simp add: valid_usage_def)
  have "\<exists>res d'. append_transaction ?t x (Some (u_event r)) None d1 = Inr (res, d') \<and> ap_applied res"
    using fr ab cost
    by (intro append_two_leg_ok [OF ledger_ok_accounts [OF ok gs] ab(1-5) _ key _ _ _ _ _ rows])
      (simp_all add: fresh_posting_def Let_def gs)
  moreover have "tenant_session ?t = Inr ()" using v by (auto simp: valid_usage_def intro: is_uuid_session)
  ultimately show ?thesis using e x by (simp add: post_usage_def)
qed

text \<open>Every record that validation lets through is valid in this sense.\<close>

lemma build_usage_record_valid:
  assumes "build_usage_record pdt payload = Inr r"
  shows "valid_usage r" "u_currency r = DEFAULT_CURRENCY"
proof -
  obtain kv where kv: "payload = JObj kv" using assms by (cases payload) (simp_all add: build_usage_record_def)
  obtain cost where cost: "from_wire_cents (jget ''cost_estimate_cents'' kv) DEFAULT_CURRENCY = Inr cost"
    using assms by (cases "from_wire_cents (jget ''cost_estimate_cents'' kv) DEFAULT_CURRENCY")
      (auto simp: kv build_usage_record_def Let_def split: if_splits)
  have m: "mk_usage_record pdt (jget ''tenant_id'' kv) (jget ''team_id'' kv) (jget ''project_id'' kv)
       (jget ''agent_id'' kv) (jget ''model'' kv) (jget ''tokens_in'' kv) (jget ''tokens_out'' kv)
       (JInt (minor_units cost)) DEFAULT_CURRENCY (jget ''request_id'' kv)
       (jget ''event_id'' kv) (jget ''event_timestamp'' kv) = Inr r"
    using assms cost by (auto simp: kv build_usage_record_def Let_def split: json.splits if_splits sum.splits)
  note i = mk_usage_record_Inr [OF m]
  show "u_currency r = DEFAULT_CURRENCY" by (fact i(16))
  show "valid_usage r" using i by (simp add: valid_usage_def)
qed

lemma usage_event_valid: "usage_event x app env rq = Some r \<Longrightarrow> valid_usage r"
  by (auto simp: usage_event_def split: sum.splits bool.splits option.splits dest: build_usage_record_valid(1))

text \<open>A posting that commits is either applied or a replay.\<close>

lemma post_usage_flags: "post_usage u5 r d = Inr (res, d') \<Longrightarrow> ap_replay res = (\<not> ap_applied res)"
  using post_usage_Inr(1) by (fastforce simp: posted_def split: if_splits)

lemma serve_usage_posts:
  assumes "usage_event x app env rq = Some r" "sv_post env = NoFault" "post_usage (x_u5 x) r d = Inr (a, d')"
  shows "o_reply (serve_usage x app env rq d) = Accepted (ap_applied a) (ap_replay a) (Some (ap_txn a))"
proof -
  from assms(1) obtain p where p: "usage_authentic x app env rq = Inr True" "x_loads x (rq_body rq) = Some p"
    "build_usage_record (x_pdt x) p = Inr r"
    by (auto simp: usage_event_def usage_authentic_def split: sum.splits bool.splits option.splits)
  show ?thesis
    using ingest_usage_authentic [OF p(1,2), of d] assms(2,3) p(3) by (simp add: serve_usage_def failsafe_def run_tx_def)
qed

end
