(* ===== verification/Allocation_Admin.thy ===== *)
theory Allocation_Admin
  imports Budget_Reach
begin

text \<open>
  \<open>delta.allocation_admin\<close>: the request schemas, the store, the propose/decide service, the
  bearer check and the routes. A service call returns what it raises or answers together with
  the database it leaves, because one path commits before it raises. The text of a pydantic
  error is the parameter \<open>errtext\<close>.
\<close>

section \<open>Schemas\<close>

definition is_control :: "char \<Rightarrow> bool" where
  "is_control c \<longleftrightarrow> (of_char c :: nat) \<le> 31 \<or> (of_char c :: nat) = 127"

definition reject_control_chars :: "string \<Rightarrow> py_exc + string" where
  "reject_control_chars s = (if list_ex is_control s then Inl ValueError else Inr s)"

record target_in =
  ti_scope :: budget_scope
  ti_team :: ident
  ti_project :: ident
  ti_agent :: ident
  ti_amount :: int

definition mk_target_in :: "budget_scope \<Rightarrow> ident \<Rightarrow> ident \<Rightarrow> ident \<Rightarrow> int \<Rightarrow> py_exc + target_in" where
  "mk_target_in sc tm pj ag amount =
     (if is_uuid tm \<and> is_uuid pj \<and> is_agent_id ag \<and> 0 \<le> amount
      then Inr \<lparr>ti_scope = sc, ti_team = tm, ti_project = pj, ti_agent = ag, ti_amount = amount\<rparr>
      else Inl ValidationError)"

record create_request =
  cr_tenant :: ident
  cr_total :: int
  cr_currency :: string
  cr_period :: budget_period
  cr_targets :: "target_in list"
  cr_by :: string

definition is_actor :: "string \<Rightarrow> bool" where
  "is_actor s \<longleftrightarrow> 1 \<le> length s \<and> length s \<le> 128 \<and> is_ok (reject_control_chars s)"

definition mk_create_request ::
  "ident \<Rightarrow> int \<Rightarrow> string \<Rightarrow> budget_period \<Rightarrow> target_in list \<Rightarrow> string \<Rightarrow> py_exc + create_request" where
  "mk_create_request t tot cur pe tgs by' =
     (if is_uuid t \<and> 0 \<le> tot \<and> is_currency cur \<and> 1 \<le> length tgs \<and> length tgs \<le> 1024 \<and> is_actor by'
      then Inr \<lparr>cr_tenant = t, cr_total = tot, cr_currency = cur, cr_period = pe, cr_targets = tgs, cr_by = by'\<rparr>
      else Inl ValidationError)"

datatype approval_action = Approve | Reject

record decision_request =
  dr_tenant :: ident
  dr_action :: approval_action
  dr_actor :: string
  dr_note :: "string option"

definition mk_decision_request :: "ident \<Rightarrow> approval_action \<Rightarrow> string \<Rightarrow> string option \<Rightarrow> py_exc + decision_request" where
  "mk_decision_request t act actor note =
     (if is_uuid t \<and> is_actor actor
         \<and> (\<forall>n \<in> set_option note. length n \<le> 1024 \<and> is_ok (reject_control_chars n))
      then Inr \<lparr>dr_tenant = t, dr_action = act, dr_actor = actor, dr_note = note\<rparr>
      else Inl ValidationError)"

section \<open>Store\<close>

definition clamp_limit :: "int \<Rightarrow> nat" where
  "clamp_limit limit = nat (max 1 (min limit 500))"

text \<open>An allocation with its targets.\<close>

record alloc_record =
  rc_row :: alloc_row
  rc_targets :: "target_row list"

definition BIGINT_MAX :: int where "BIGINT_MAX = 2 ^ 63 - 1"

definition insert_target :: "u4gen \<Rightarrow> ident \<Rightarrow> ident \<Rightarrow> ident \<Rightarrow> target_in \<Rightarrow> db \<Rightarrow> py_exc + target_row \<times> db" where
  "insert_target u4 sess tenant aid t d =
     (let (tid, d1) = uuid4 u4 d;
          r = \<lparr>ta_id = tid, ta_alloc = aid, ta_tenant = tenant, ta_scope = ti_scope t, ta_team = ti_team t,
               ta_project = ti_project t, ta_agent = ti_agent t, ta_amount = ti_amount t, ta_budget = None\<rparr>
      in bindR (guardR (ti_amount t \<le> BIGINT_MAX) DataError) (\<lambda>_.
         bindR (rls_check sess tenant) (\<lambda>_.
         bindR (guardR (0 \<le> ti_amount t) IntegrityError) (\<lambda>_.
         bindR (insert_unique IntegrityError ta_id r (targets d1)) (\<lambda>rows.
         bindR (guardR ((aid, tenant) \<in> (\<lambda>a. (ar_id a, ar_tenant a)) ` set (allocs d1)) IntegrityError) (\<lambda>_.
         Inr (r, d1\<lparr>targets := rows\<rparr>)))))))"

fun insert_targets :: "u4gen \<Rightarrow> ident \<Rightarrow> ident \<Rightarrow> ident \<Rightarrow> target_in list \<Rightarrow> db \<Rightarrow> py_exc + target_row list \<times> db" where
  "insert_targets u4 sess tenant aid [] d = Inr ([], d)"
| "insert_targets u4 sess tenant aid (t # ts) d =
     bindR (insert_target u4 sess tenant aid t d) (\<lambda>(r, d1).
     bindR (insert_targets u4 sess tenant aid ts d1) (\<lambda>(rs, d2). Inr (r # rs, d2)))"

definition create_allocation ::
  "u4gen \<Rightarrow> ident \<Rightarrow> ident \<Rightarrow> int \<Rightarrow> string \<Rightarrow> budget_period \<Rightarrow> target_in list \<Rightarrow> string \<Rightarrow> instant \<Rightarrow> ident option \<Rightarrow> db
     \<Rightarrow> py_exc + alloc_record \<times> db" where
  "create_allocation u4 sess tenant tot cur pe tgs by' now given d =
     (let (aid, d1) = or_uuid4 u4 given d;
          r = \<lparr>ar_id = aid, ar_tenant = tenant, ar_total = tot, ar_currency = cur, ar_period = pe, ar_status = Requested,
               ar_by = by', ar_at = now, ar_decided_by = None, ar_decided_at = None\<rparr>
      in bindR (guardR (tot \<le> BIGINT_MAX) DataError) (\<lambda>_.
         bindR (rls_check sess tenant) (\<lambda>_.
         bindR (guardR (0 \<le> tot) IntegrityError) (\<lambda>_.
         bindR (insert_unique IntegrityError ar_id r (allocs d1)) (\<lambda>rows.
         bindR (insert_targets u4 sess tenant aid tgs (d1\<lparr>allocs := rows\<rparr>)) (\<lambda>(ts, d2).
         Inr (\<lparr>rc_row = r, rc_targets = ts\<rparr>, d2)))))))"

definition targets_of :: "ident \<Rightarrow> ident \<Rightarrow> db \<Rightarrow> target_row list" where
  "targets_of sess aid d = filter (\<lambda>t. ta_tenant t = sess \<and> ta_alloc t = aid) (targets d)"

definition get_allocation :: "ident \<Rightarrow> ident \<Rightarrow> db \<Rightarrow> alloc_record option" where
  "get_allocation sess aid d =
     map_option (\<lambda>r. \<lparr>rc_row = r, rc_targets = targets_of sess aid d\<rparr>)
       (List.find (\<lambda>a. ar_tenant a = sess \<and> ar_id a = aid) (allocs d))"

definition list_allocations :: "ident \<Rightarrow> alloc_status option \<Rightarrow> int \<Rightarrow> db \<Rightarrow> alloc_record list" where
  "list_allocations sess status limit d =
     map (\<lambda>r. \<lparr>rc_row = r, rc_targets = targets_of sess (ar_id r) d\<rparr>)
       (take (clamp_limit limit) (sort_key (\<lambda>r. - ar_at r)
         (filter (\<lambda>a. ar_tenant a = sess \<and> (\<forall>s \<in> set_option status. ar_status a = s)) (allocs d))))"

definition try_decide_allocation :: "ident \<Rightarrow> ident \<Rightarrow> alloc_status \<Rightarrow> string \<Rightarrow> instant \<Rightarrow> db \<Rightarrow> bool \<times> db" where
  "try_decide_allocation sess aid new_status by' now d =
     (let hit = (\<lambda>a. ar_tenant a = sess \<and> ar_id a = aid \<and> ar_status a = Requested) in
      (length (filter hit (allocs d)) = 1,
       d\<lparr>allocs := update_where hit
         (\<lambda>a. a\<lparr>ar_status := new_status, ar_decided_by := Some by', ar_decided_at := Some now\<rparr>) (allocs d)\<rparr>))"

definition set_target_budget_id :: "ident \<Rightarrow> ident \<Rightarrow> ident \<Rightarrow> db \<Rightarrow> db" where
  "set_target_budget_id sess tid bid d =
     d\<lparr>targets := update_where (\<lambda>t. ta_tenant t = sess \<and> ta_id t = tid) (\<lambda>t. t\<lparr>ta_budget := Some bid\<rparr>) (targets d)\<rparr>"

section \<open>Service\<close>

definition target_scope_ref :: "budget_scope \<Rightarrow> ident \<Rightarrow> ident \<Rightarrow> ident \<Rightarrow> ident \<Rightarrow> string" where
  "target_scope_ref sc tenant team proj agent =
     (case sc of STENANT \<Rightarrow> tenant | STEAM \<Rightarrow> team | SPROJECT \<Rightarrow> proj | SAGENT \<Rightarrow> agent)"

text \<open>The response model: the row with its targets' public fields, its ids checked again.\<close>

record alloc_view =
  vw_row :: alloc_row
  vw_targets :: "(budget_scope \<times> ident \<times> ident \<times> ident \<times> int \<times> ident option) list"

definition record_to_view :: "alloc_record \<Rightarrow> py_exc + alloc_view" where
  "record_to_view r =
     (if is_uuid (ar_id (rc_row r)) \<and> is_uuid (ar_tenant (rc_row r)) \<and> is_currency (ar_currency (rc_row r))
         \<and> list_all (\<lambda>t. is_uuid (ta_team t) \<and> is_uuid (ta_project t) \<and> is_agent_id (ta_agent t)) (rc_targets r)
      then Inr \<lparr>vw_row = rc_row r, vw_targets = map (\<lambda>t. (ta_scope t, ta_team t, ta_project t, ta_agent t, ta_amount t, ta_budget t))
             (rc_targets r)\<rparr>
      else Inl ValidationError)"

definition NIL_UUID :: ident where "NIL_UUID = ''00000000-0000-0000-0000-000000000000''"

definition request_allocation :: "create_request \<Rightarrow> py_exc + allocation" where
  "request_allocation req =
     bindR (mk_money (JInt (cr_total req)) (cr_currency req)) (\<lambda>tot.
     bindR (mapR (\<lambda>t. bindR (mk_money (JInt (ti_amount t)) (cr_currency req)) (\<lambda>a.
              let ref = target_scope_ref (ti_scope t) (cr_tenant req) (ti_team t) (ti_project t) (ti_agent t) in
              if is_scope_ref ref then Inr \<lparr>at_scope_ref = ref, at_amount = a\<rparr> else Inl ValidationError)) (cr_targets req)) (\<lambda>tgs.
     mk_allocation NIL_UUID (cr_tenant req) tot tgs (cr_period req)))"

definition create_allocation_request ::
  "(string \<Rightarrow> string) \<Rightarrow> u4gen \<Rightarrow> (create_request \<Rightarrow> string) \<Rightarrow> ident \<Rightarrow> create_request \<Rightarrow> instant \<Rightarrow> db
     \<Rightarrow> (py_exc + alloc_view) \<times> db" where
  "create_allocation_request sha u4 errtext sess req now d =
     (case request_allocation req of
        Inl _ \<Rightarrow>
          (let (eid, d1) = uuid4 u4 d in
           case append_history sha u4 sess (cr_tenant req) ''allocation_reconciliation'' eid ''rejected'' (cr_by req) now
                  (Some (take 1024 (errtext req))) d1 of
             Inl x \<Rightarrow> (Inl x, d)
           | Inr (_, d2) \<Rightarrow> (Inl AllocationReconciliationError, d2))
      | Inr _ \<Rightarrow>
          (case bindR (create_allocation u4 sess (cr_tenant req) (cr_total req) (cr_currency req) (cr_period req)
                  (cr_targets req) (cr_by req) now None d) (\<lambda>(rec, d1).
                bindR (append_history sha u4 sess (cr_tenant req) ''allocation'' (ar_id (rc_row rec)) ''requested'' (cr_by req) now
                  (Some (dec_nat (length (cr_targets req)) @ '' target(s), total '' @ dec_int (cr_total req) @ '' '' @ cr_currency req)) d1) (\<lambda>(_, d2).
                Inr (rec, d2))) of
             Inl x \<Rightarrow> (Inl x, d)
           | Inr (rec, d2) \<Rightarrow> (record_to_view rec, d2)))"

definition get_allocation_view :: "ident \<Rightarrow> ident \<Rightarrow> db \<Rightarrow> py_exc + alloc_view option" where
  "get_allocation_view sess aid d =
     (case get_allocation sess aid d of None \<Rightarrow> Inr None | Some r \<Rightarrow> bindR (record_to_view r) (\<lambda>v. Inr (Some v)))"

definition list_allocation_views :: "ident \<Rightarrow> alloc_status option \<Rightarrow> int \<Rightarrow> db \<Rightarrow> py_exc + alloc_view list" where
  "list_allocation_views sess status limit d = mapR record_to_view (list_allocations sess status limit d)"

fun materialize ::
  "u4gen \<Rightarrow> ident \<Rightarrow> alloc_row \<Rightarrow> instant \<Rightarrow> target_row list \<Rightarrow> db \<Rightarrow> py_exc + target_row list \<times> db" where
  "materialize u4 sess r now [] d = Inr ([], d)"
| "materialize u4 sess r now (t # ts) d =
     bindR (mk_concept (ar_tenant r) (ta_team t) (ta_project t) (ta_agent t) (ta_scope t) (ar_period r) JNull
       (JInt (ta_amount t)) (ar_currency r)) (\<lambda>c.
     bindR (create_budget u4 sess c now None None d) (\<lambda>(b, d1).
     bindR (materialize u4 sess r now ts (set_target_budget_id sess (ta_id t) (bd_id b) d1)) (\<lambda>(rs, d2).
     Inr (t\<lparr>ta_budget := Some (bd_id b)\<rparr> # rs, d2))))"

fun decided_status :: "approval_action \<Rightarrow> alloc_status" where
  "decided_status Approve = Approved"
| "decided_status Reject = Rejected"

fun status_str :: "alloc_status \<Rightarrow> string" where
  "status_str Requested = ''requested''"
| "status_str Approved = ''approved''"
| "status_str Rejected = ''rejected''"

text \<open>The body of \<open>decide_allocation\<close> up to its commit: any exception rolls it back.\<close>

definition decide_txn ::
  "(string \<Rightarrow> string) \<Rightarrow> u4gen \<Rightarrow> ident \<Rightarrow> ident \<Rightarrow> decision_request \<Rightarrow> instant \<Rightarrow> db \<Rightarrow> py_exc + alloc_record \<times> db" where
  "decide_txn sha u4 sess aid dr now d =
     (case get_allocation sess aid d of
        None \<Rightarrow> Inl AllocationNotFoundError
      | Some rec \<Rightarrow>
          if ar_tenant (rc_row rec) \<noteq> dr_tenant dr then Inl AllocationNotFoundError
          else
            (let (ok, d1) = try_decide_allocation sess aid (decided_status (dr_action dr)) (dr_actor dr) now d in
             if \<not> ok then Inl AllocationAlreadyDecidedError
             else
               bindR (if dr_action dr = Approve then materialize u4 sess (rc_row rec) now (rc_targets rec) d1
                      else Inr (rc_targets rec, d1)) (\<lambda>(ts, d2).
               bindR (append_history sha u4 sess (ar_tenant (rc_row rec)) ''allocation'' aid
                 (status_str (decided_status (dr_action dr))) (dr_actor dr) now (dr_note dr) d2) (\<lambda>(_, d3).
               Inr (\<lparr>rc_row = (rc_row rec)\<lparr>ar_status := decided_status (dr_action dr), ar_decided_by := Some (dr_actor dr),
                      ar_decided_at := Some now\<rparr>, rc_targets = ts\<rparr>, d3)))))"

definition decide_allocation ::
  "(string \<Rightarrow> string) \<Rightarrow> u4gen \<Rightarrow> ident \<Rightarrow> ident \<Rightarrow> decision_request \<Rightarrow> instant \<Rightarrow> db \<Rightarrow> (py_exc + alloc_view) \<times> db" where
  "decide_allocation sha u4 sess aid dr now d =
     (case decide_txn sha u4 sess aid dr now d of
        Inl x \<Rightarrow> (Inl x, d)
      | Inr (rec, d1) \<Rightarrow> (record_to_view rec, d1))"

section \<open>Routes\<close>

text \<open>\<open>require_admin\<close>: the exact bearer token, compared as text (non-ASCII text raises).\<close>

definition require_admin :: "string \<Rightarrow> string option \<Rightarrow> py_exc + bool" where
  "require_admin token header =
     (let h = (case header of None \<Rightarrow> [] | Some s \<Rightarrow> s) in
      if take 7 h \<noteq> ''Bearer '' then Inr False
      else if drop 7 h = [] then Inr False
      else if list_ex (\<lambda>c. 128 \<le> (of_char c :: nat)) (drop 7 h) \<or> list_ex (\<lambda>c. 128 \<le> (of_char c :: nat)) token then Inl TypeError
      else Inr (drop 7 h = token))"

definition load_admin_settings :: "environ \<Rightarrow> py_exc + string" where
  "load_admin_settings env =
     (case env ''DELTA_ADMIN_TOKEN'' of None \<Rightarrow> Inl RuntimeError | Some s \<Rightarrow> if s = [] then Inl RuntimeError else Inr s)"

definition post_allocation ::
  "(string \<Rightarrow> string) \<Rightarrow> u4gen \<Rightarrow> (create_request \<Rightarrow> string) \<Rightarrow> create_request \<Rightarrow> instant \<Rightarrow> db \<Rightarrow> (int + alloc_view) \<times> db" where
  "post_allocation sha u4 errtext req now d =
     (case tenant_session (cr_tenant req) of
        Inl _ \<Rightarrow> (Inl 500, d)
      | Inr _ \<Rightarrow>
          (case create_allocation_request sha u4 errtext (cr_tenant req) req now d of
             (Inl x, d1) \<Rightarrow> (Inl (if x = AllocationReconciliationError then 422 else 500), d1)
           | (Inr v, d1) \<Rightarrow> (Inr v, d1)))"

definition post_decision ::
  "(string \<Rightarrow> string) \<Rightarrow> u4gen \<Rightarrow> ident \<Rightarrow> decision_request \<Rightarrow> instant \<Rightarrow> db \<Rightarrow> (int + alloc_view) \<times> db" where
  "post_decision sha u4 aid dr now d =
     (case tenant_session (dr_tenant dr) of
        Inl _ \<Rightarrow> (Inl 500, d)
      | Inr _ \<Rightarrow>
          (case decide_allocation sha u4 (dr_tenant dr) aid dr now d of
             (Inl x, d1) \<Rightarrow> (Inl (if x = AllocationNotFoundError then 404
                                  else if x = AllocationAlreadyDecidedError then 409 else 500), d1)
           | (Inr v, d1) \<Rightarrow> (Inr v, d1)))"

end
