(* ===== verification/Allocation_Facts.thy ===== *)
theory Allocation_Facts
  imports Allocation_Admin
begin

text \<open>
  The allocation workflow: a proposal is stored only when its targets sum to its total and
  creates no budget; an approval creates exactly one budget per target, with the target's
  amount as its cap; a decision is taken once.
\<close>

section \<open>Proposals\<close>

lemma request_allocation_Inr:
  assumes "request_allocation req = Inr a"
  shows "total ti_amount (cr_targets req) = cr_total req" "is_currency (cr_currency req)"
    "0 \<le> cr_total req" "cr_total req \<le> MAX_MONEY_MINOR_UNITS"
    "\<forall>t \<in> set (cr_targets req). 0 \<le> ti_amount t \<and> ti_amount t \<le> MAX_MONEY_MINOR_UNITS"
proof -
  let ?f = "\<lambda>t. bindR (mk_money (JInt (ti_amount t)) (cr_currency req)) (\<lambda>m.
      let ref = target_scope_ref (ti_scope t) (cr_tenant req) (ti_team t) (ti_project t) (ti_agent t) in
      if is_scope_ref ref then Inr \<lparr>at_scope_ref = ref, at_amount = m\<rparr> else Inl ValidationError)"
  from assms obtain tot tgs where m: "mk_money (JInt (cr_total req)) (cr_currency req) = Inr tot"
    and tg: "mapR ?f (cr_targets req) = Inr tgs" and al: "mk_allocation NIL_UUID (cr_tenant req) tot tgs (cr_period req) = Inr a"
    by (auto simp: request_allocation_def bindR_eq_Inr)
  have tot: "minor_units tot = cr_total req" "is_currency (cr_currency req)" "0 \<le> cr_total req" "cr_total req \<le> MAX_MONEY_MINOR_UNITS"
    using m by auto
  then show "is_currency (cr_currency req)" "0 \<le> cr_total req" "cr_total req \<le> MAX_MONEY_MINOR_UNITS" by simp_all
  have l: "list_all2 (\<lambda>t g. minor_units (at_amount g) = ti_amount t \<and> 0 \<le> ti_amount t \<and> ti_amount t \<le> MAX_MONEY_MINOR_UNITS)
      (cr_targets req) tgs"
    by (rule list_all2_mono [OF mapR_list_all2 [OF tg]]) (auto simp: bindR_eq_Inr Let_def split: if_splits)
  then show "\<forall>t \<in> set (cr_targets req). 0 \<le> ti_amount t \<and> ti_amount t \<le> MAX_MONEY_MINOR_UNITS"
    by (induction rule: list_all2_induct) auto
  from l have "total (\<lambda>g. minor_units (at_amount g)) tgs = total ti_amount (cr_targets req)"
    by (induction rule: list_all2_induct) auto
  moreover have "total (\<lambda>g. minor_units (at_amount g)) tgs = minor_units tot"
    using al by (auto simp: mk_allocation_def reconcile_allocation_Nil total_map split: if_splits)
  ultimately show "total ti_amount (cr_targets req) = cr_total req" using tot by simp
qed

definition target_of :: "ident \<Rightarrow> ident \<Rightarrow> target_in \<Rightarrow> target_row \<Rightarrow> bool" where
  "target_of tenant aid t r \<longleftrightarrow> ta_alloc r = aid \<and> ta_tenant r = tenant \<and> ta_scope r = ti_scope t \<and> ta_team r = ti_team t
     \<and> ta_project r = ti_project t \<and> ta_agent r = ti_agent t \<and> ta_amount r = ti_amount t \<and> ta_budget r = None"

lemma insert_target_Inr:
  assumes "insert_target u4 sess tenant aid t d = Inr (r, d')"
  shows "tenant = sess" "d' = d\<lparr>uuid_ctr := Suc (uuid_ctr d), targets := targets d @ [r]\<rparr>" "target_of tenant aid t r"
    "ta_id r \<notin> ta_id ` set (targets d)"
  using assms by (auto simp: insert_target_def uuid4_def Let_def bindR_eq_Inr table_simps target_of_def)

lemma insert_targets_Inr:
  assumes "insert_targets u4 sess tenant aid ts d = Inr (rs, d')" "distinct (map ta_id (targets d))"
  shows "d' = d\<lparr>uuid_ctr := uuid_ctr d + length ts, targets := targets d @ rs\<rparr> \<and> list_all2 (target_of tenant aid) ts rs
    \<and> distinct (map ta_id (targets d @ rs))"
  using assms
proof (induction ts arbitrary: d rs d')
  case (Cons t ts)
  from Cons.prems(1) obtain r d1 rs' where i: "insert_target u4 sess tenant aid t d = Inr (r, d1)"
    and s: "insert_targets u4 sess tenant aid ts d1 = Inr (rs', d')" and rs: "rs = r # rs'"
    by (auto simp: bindR_eq_Inr)
  note t = insert_target_Inr [OF i]
  have "distinct (map ta_id (targets d1))" using Cons.prems(2) t(2,4) by simp
  from Cons.IH [OF s this] show ?case using t(2,3) rs by simp
qed simp

lemma create_allocation_Inr:
  assumes "create_allocation u4 sess tenant tot cur pe tgs by' now None d = Inr (rec, d')" "distinct (map ta_id (targets d))"
  shows "tenant = sess" "ar_id (rc_row rec) \<notin> ar_id ` set (allocs d)" "ar_total (rc_row rec) = tot" "ar_status (rc_row rec) = Requested"
    "ar_tenant (rc_row rec) = tenant"
    "d' = d\<lparr>uuid_ctr := Suc (uuid_ctr d) + length tgs, allocs := allocs d @ [rc_row rec], targets := targets d @ rc_targets rec\<rparr>"
    "list_all2 (target_of tenant (ar_id (rc_row rec))) tgs (rc_targets rec)" "distinct (map ta_id (targets d @ rc_targets rec))"
proof -
  define r where "r = \<lparr>ar_id = u4 (uuid_ctr d), ar_tenant = tenant, ar_total = tot, ar_currency = cur, ar_period = pe,
    ar_status = Requested, ar_by = by', ar_at = now, ar_decided_by = None, ar_decided_at = None\<rparr>"
  let ?d1 = "d\<lparr>uuid_ctr := Suc (uuid_ctr d), allocs := allocs d @ [r]\<rparr>"
  from assms(1) obtain ts where t: "tenant = sess" and u: "u4 (uuid_ctr d) \<notin> ar_id ` set (allocs d)"
    and i: "insert_targets u4 sess tenant (u4 (uuid_ctr d)) tgs ?d1 = Inr (ts, d')" and rec: "rec = \<lparr>rc_row = r, rc_targets = ts\<rparr>"
    by (auto simp: create_allocation_def or_uuid4_def uuid4_def Let_def bindR_eq_Inr table_simps r_def)
  have "distinct (map ta_id (targets ?d1))" using assms(2) by simp
  note it = insert_targets_Inr [OF i this]
  show "tenant = sess" by (fact t)
  show "ar_id (rc_row rec) \<notin> ar_id ` set (allocs d)" "ar_total (rc_row rec) = tot" "ar_status (rc_row rec) = Requested"
    "ar_tenant (rc_row rec) = tenant"
    using u by (simp_all add: rec r_def)
  show "d' = d\<lparr>uuid_ctr := Suc (uuid_ctr d) + length tgs, allocs := allocs d @ [rc_row rec], targets := targets d @ rc_targets rec\<rparr>"
    using it by (simp add: rec)
  show "list_all2 (target_of tenant (ar_id (rc_row rec))) tgs (rc_targets rec)" "distinct (map ta_id (targets d @ rc_targets rec))"
    using it by (simp_all add: rec r_def)
qed

section \<open>The invariant\<close>

definition target_ok :: "db \<Rightarrow> alloc_row \<Rightarrow> target_row \<Rightarrow> bool" where
  "target_ok d a t \<longleftrightarrow> ta_tenant t = ar_tenant a
     \<and> (if ar_status a = Approved
        then \<exists>b \<in> set (budgets d). ta_budget t = Some (bd_id b) \<and> bd_tenant b = ta_tenant t \<and> bd_scope b = ta_scope t
        else ta_budget t = None)"

definition alloc_targets :: "ident \<Rightarrow> db \<Rightarrow> target_row list" where
  "alloc_targets aid d = filter (\<lambda>t. ta_alloc t = aid) (targets d)"

definition alloc_ok :: "db \<Rightarrow> bool" where
  "alloc_ok d \<longleftrightarrow> distinct (map ar_id (allocs d)) \<and> distinct (map ta_id (targets d))
     \<and> ta_alloc ` set (targets d) \<subseteq> ar_id ` set (allocs d)
     \<and> (\<forall>a \<in> set (allocs d). total ta_amount (alloc_targets (ar_id a) d) = ar_total a
          \<and> (\<forall>t \<in> set (alloc_targets (ar_id a) d). target_ok d a t))"

lemma alloc_okD:
  assumes "alloc_ok d"
  shows "distinct (map ar_id (allocs d))" "distinct (map ta_id (targets d))"
    "t \<in> set (targets d) \<Longrightarrow> ta_alloc t \<in> ar_id ` set (allocs d)"
    "a \<in> set (allocs d) \<Longrightarrow> total ta_amount (alloc_targets (ar_id a) d) = ar_total a"
    "a \<in> set (allocs d) \<Longrightarrow> t \<in> set (alloc_targets (ar_id a) d) \<Longrightarrow> target_ok d a t"
  using assms unfolding alloc_ok_def by (simp_all add: image_subset_iff)

lemma target_of_total: "list_all2 (target_of tenant aid) tgs rs \<Longrightarrow> total ta_amount rs = total ti_amount tgs"
  by (induction rule: list_all2_induct) (auto simp: target_of_def)

lemma target_of_all: "list_all2 (target_of tenant aid) tgs rs \<Longrightarrow> r \<in> set rs \<Longrightarrow> ta_alloc r = aid \<and> ta_tenant r = tenant \<and> ta_budget r = None"
  by (induction rule: list_all2_induct) (auto simp: target_of_def)

lemma alloc_ok_create:
  assumes ok: "alloc_ok d" and c: "create_allocation u4 sess tenant tot cur pe tgs by' now None d = Inr (rec, d')"
    and sum: "total ti_amount tgs = tot"
  shows "alloc_ok d'"
proof -
  have dist: "distinct (map ta_id (targets d))" using ok by (simp add: alloc_ok_def)
  note i = create_allocation_Inr [OF c dist]
  let ?a = "rc_row rec"
  have fk: "ta_alloc t \<noteq> ar_id ?a" if "t \<in> set (targets d)" for t
    using alloc_okD(3) [OF ok that] i(2) by metis
  note all = target_of_all [OF i(7)]
  have new: "alloc_targets (ar_id ?a) d' = rc_targets rec"
  proof -
    have "filter (\<lambda>t. ta_alloc t = ar_id ?a) (targets d) = []" using fk by (simp add: filter_empty_conv)
    moreover have "filter (\<lambda>t. ta_alloc t = ar_id ?a) (rc_targets rec) = rc_targets rec" using all by (simp add: filter_id_conv)
    ultimately show ?thesis by (simp add: alloc_targets_def i(6))
  qed
  have old: "alloc_targets (ar_id a) d' = alloc_targets (ar_id a) d" if "a \<in> set (allocs d)" for a
  proof -
    have "ar_id a \<noteq> ar_id ?a" using i(2) that by (metis imageI)
    then have "filter (\<lambda>t. ta_alloc t = ar_id a) (rc_targets rec) = []" using all by (simp add: filter_empty_conv)
    then show ?thesis by (simp add: alloc_targets_def i(6))
  qed
  have tok: "target_ok d' a t = target_ok d a t" for a t by (simp add: target_ok_def i(6))
  have "total ta_amount (alloc_targets (ar_id a) d') = ar_total a \<and> (\<forall>t \<in> set (alloc_targets (ar_id a) d'). target_ok d' a t)"
    if "a \<in> set (allocs d')" for a
  proof (cases "a \<in> set (allocs d)")
    case True
    then show ?thesis using ok old by (simp add: alloc_ok_def tok)
  next
    case False
    then have "a = ?a" using that by (simp add: i(6))
    then show ?thesis using new all target_of_total [OF i(7)] sum i(3,4,5) by (simp add: target_ok_def)
  qed
  moreover have "ta_alloc ` set (targets d') \<subseteq> ar_id ` set (allocs d')"
    using ok all by (auto simp: i(6) alloc_ok_def)
  ultimately show ?thesis using ok i(2,8) unfolding alloc_ok_def by (simp add: i(6))
qed

lemma alloc_ok_frame:
  assumes "alloc_ok d" "allocs d' = allocs d" "targets d' = targets d" "budgets d' = budgets d"
  shows "alloc_ok d'"
  unfolding alloc_ok_def alloc_targets_def target_ok_def assms(2-4)
  by (fact assms(1) [unfolded alloc_ok_def alloc_targets_def target_ok_def])

text \<open>Proposing never touches the budgets; a refused proposal leaves only its audit row.\<close>

lemma create_allocation_request_cases:
  assumes "create_allocation_request sha u4 errtext sess req now d = (res, d')" "alloc_ok d"
  obtains (failed) x where "d' = d" "res = Inl x"
  | (refused) "res = Inl AllocationReconciliationError" "allocs d' = allocs d" "targets d' = targets d" "budgets d' = budgets d"
      "\<exists>h. history d' = history d @ [h] \<and> h_action h = ''rejected''"
  | (proposed) rec where "res = record_to_view rec" "total ti_amount (cr_targets req) = cr_total req" "cr_tenant req = sess"
      "allocs d' = allocs d @ [rc_row rec]" "targets d' = targets d @ rc_targets rec" "budgets d' = budgets d" "alloc_ok d'"
      "ar_status (rc_row rec) = Requested" "ar_total (rc_row rec) = cr_total req"
      "list_all2 (target_of sess (ar_id (rc_row rec))) (cr_targets req) (rc_targets rec)"
      "\<exists>h. history d' = history d @ [h] \<and> h_action h = ''requested''"
proof (cases "request_allocation req")
  case (Inl e)
  let ?ah = "append_history sha u4 sess (cr_tenant req) ''allocation_reconciliation'' (u4 (uuid_ctr d)) ''rejected'' (cr_by req) now
      (Some (take 1024 (errtext req))) (d\<lparr>uuid_ctr := Suc (uuid_ctr d)\<rparr>)"
  show thesis
  proof (cases ?ah)
    case (Inl x)
    then show thesis using assms(1) \<open>request_allocation req = Inl e\<close>
      by (intro failed [of x]) (simp_all add: create_allocation_request_def uuid4_def)
  next
    case (Inr p)
    obtain h d2 where p: "p = (h, d2)" by fastforce
    note ah = Inr [unfolded p]
    have "res = Inl AllocationReconciliationError" "d' = d2"
      using assms(1) \<open>request_allocation req = Inl e\<close> ah by (simp_all add: create_allocation_request_def uuid4_def)
    then show thesis using append_history_frame [OF ah] append_history_Inr [OF ah] by (intro refused) auto
  qed
next
  case (Inr a)
  let ?c = "create_allocation u4 sess (cr_tenant req) (cr_total req) (cr_currency req) (cr_period req)
                  (cr_targets req) (cr_by req) now None d"
  let ?n = "Some (dec_nat (length (cr_targets req)) @ '' target(s), total '' @ dec_int (cr_total req) @ '' '' @ cr_currency req)"
  let ?body = "bindR ?c (\<lambda>(rec, d1).
                bindR (append_history sha u4 sess (cr_tenant req) ''allocation'' (ar_id (rc_row rec)) ''requested'' (cr_by req) now ?n d1) (\<lambda>(_, d2).
                Inr (rec, d2)))"
  have e: "(case ?body of Inl x \<Rightarrow> (Inl x, d) | Inr (rec, d2) \<Rightarrow> (record_to_view rec, d2)) = (res, d')"
    using assms(1) Inr by (simp add: create_allocation_request_def)
  note r = request_allocation_Inr [OF Inr]
  show thesis
  proof (cases ?body)
    case (Inl x)
    then show thesis using e by (intro failed [of x]) simp_all
  next
    case (Inr p)
    then obtain rec d1 h d2 where c: "?c = Inr (rec, d1)" and p: "p = (rec, d2)"
      and ah: "append_history sha u4 sess (cr_tenant req) ''allocation'' (ar_id (rc_row rec)) ''requested'' (cr_by req) now ?n d1 = Inr (h, d2)"
      by (auto simp: bindR_eq_Inr)
    have res: "res = record_to_view rec" "d' = d2" using e Inr p by simp_all
    have dist: "distinct (map ta_id (targets d))" using assms(2) by (simp add: alloc_ok_def)
    note i = create_allocation_Inr [OF c dist] and fr = append_history_frame [OF ah]
    have ok1: "alloc_ok d1" by (rule alloc_ok_create [OF assms(2) c r(1)])
    have hist: "history d1 = history d" by (simp add: i(6))
    show thesis
    proof (rule proposed [of rec])
      show "alloc_ok d'" using alloc_ok_frame [OF ok1] fr res by simp
      show "\<exists>h. history d' = history d @ [h] \<and> h_action h = ''requested''"
        using append_history_Inr [OF ah] hist res by auto
    qed (use res r i fr in simp_all)
  qed
qed

section \<open>Decisions\<close>

text \<open>The budget a target is materialized into.\<close>

definition budget_of :: "alloc_row \<Rightarrow> instant \<Rightarrow> target_row \<Rightarrow> budget_def \<Rightarrow> bool" where
  "budget_of r now t b \<longleftrightarrow> bd_tenant b = ar_tenant r \<and> bd_scope b = ta_scope t \<and> bd_team b = ta_team t \<and> bd_project b = ta_project t
     \<and> bd_agent b = ta_agent t \<and> bd_period b = ar_period r \<and> bd_cost b = Some (ta_amount t) \<and> bd_tokens b = None
     \<and> bd_currency b = ar_currency r \<and> bd_created b = now"

definition link :: "ident \<Rightarrow> (ident \<times> ident) list \<Rightarrow> target_row \<Rightarrow> target_row" where
  "link sess ps t = (case map_of ps (ta_id t) of
     None \<Rightarrow> t
   | Some i \<Rightarrow> if ta_tenant t = sess then t\<lparr>ta_budget := Some i\<rparr> else t)"

lemma link_frame [simp]:
  "ta_id (link sess ps t) = ta_id t" "ta_alloc (link sess ps t) = ta_alloc t" "ta_tenant (link sess ps t) = ta_tenant t"
  "ta_amount (link sess ps t) = ta_amount t" "ta_scope (link sess ps t) = ta_scope t"
  by (simp_all add: link_def split: option.splits)

lemma link_Nil [simp]: "link sess [] = (\<lambda>t. t)"
  by (simp add: link_def fun_eq_iff)

lemma link_Cons: "i \<notin> fst ` set ps \<Longrightarrow> link sess ps (link sess [(i, b)] t) = link sess ((i, b) # ps) t"
  by (auto simp: link_def map_of_eq_None_iff [symmetric] split: option.splits)

lemma set_target_budget_id_link: "set_target_budget_id sess i b d = d\<lparr>targets := map (link sess [(i, b)]) (targets d)\<rparr>"
  unfolding set_target_budget_id_def update_where_def
  by (rule arg_cong [of _ _ "\<lambda>x. d\<lparr>targets := x\<rparr>"]) (auto simp: link_def)

lemma create_budget_Inr:
  assumes "create_budget u4 sess c now None None d = Inr (b, d')"
  shows "d' = d\<lparr>uuid_ctr := uuid_ctr d + 2, budgets := budgets d @ [b]\<rparr>" "bd_id b \<notin> bd_id ` set (budgets d)"
    "bd_tenant b = sess" "bc_tenant c = sess" "bd_scope b = bc_scope c" "bd_team b = bc_team c" "bd_project b = bc_project c" "bd_agent b = bc_agent c"
    "bd_period b = bc_period c" "bd_tokens b = bc_tokens c" "bd_cost b = bc_cost c" "bd_currency b = bc_currency c" "bd_created b = now"
  using assms by (auto simp: create_budget_def or_uuid4_def uuid4_def Let_def bindR_eq_Inr table_simps)

lemma materialize_Inr:
  assumes "materialize u4 sess r now ts d = Inr (rs, d')" "distinct (map ta_id ts)"
  shows "\<exists>bs. length bs = length ts \<and> list_all2 (budget_of r now) ts bs
    \<and> rs = map2 (\<lambda>t b. t\<lparr>ta_budget := Some (bd_id b)\<rparr>) ts bs
    \<and> d' = d\<lparr>uuid_ctr := uuid_ctr d + 2 * length ts, budgets := budgets d @ bs,
         targets := map (link sess (zip (map ta_id ts) (map bd_id bs))) (targets d)\<rparr>"
  using assms
proof (induction ts arbitrary: d rs d')
  case Nil
  then show ?case by simp
next
  case (Cons t ts)
  from Cons.prems(1) obtain c b d1 rs' where
    c: "mk_concept (ar_tenant r) (ta_team t) (ta_project t) (ta_agent t) (ta_scope t) (ar_period r) JNull (JInt (ta_amount t)) (ar_currency r) = Inr c"
    and b: "create_budget u4 sess c now None None d = Inr (b, d1)"
    and m: "materialize u4 sess r now ts (set_target_budget_id sess (ta_id t) (bd_id b) d1) = Inr (rs', d')"
    and rs: "rs = t\<lparr>ta_budget := Some (bd_id b)\<rparr> # rs'"
    by (auto simp: bindR_eq_Inr)
  note bi = create_budget_Inr [OF b]
  have bo: "budget_of r now t b"
    using c bi by (auto simp: mk_concept_def bindR_eq_Inr limit_field_Inr budget_of_def split: if_splits)
  from Cons.IH [OF m] Cons.prems(2) obtain bs where bs: "length bs = length ts" "list_all2 (budget_of r now) ts bs"
    "rs' = map2 (\<lambda>t b. t\<lparr>ta_budget := Some (bd_id b)\<rparr>) ts bs"
    and d': "d' = (set_target_budget_id sess (ta_id t) (bd_id b) d1)\<lparr>
         uuid_ctr := uuid_ctr (set_target_budget_id sess (ta_id t) (bd_id b) d1) + 2 * length ts,
         budgets := budgets (set_target_budget_id sess (ta_id t) (bd_id b) d1) @ bs,
         targets := map (link sess (zip (map ta_id ts) (map bd_id bs))) (targets (set_target_budget_id sess (ta_id t) (bd_id b) d1))\<rparr>"
    by auto
  have "ta_id t \<notin> fst ` set (zip (map ta_id ts) (map bd_id bs))"
    using Cons.prems(2) by (auto dest!: set_zip_leftD)
  from link_Cons [OF this]
  have lk: "map (link sess (zip (map ta_id ts) (map bd_id bs))) (map (link sess [(ta_id t, bd_id b)]) xs)
      = map (link sess ((ta_id t, bd_id b) # zip (map ta_id ts) (map bd_id bs))) xs" for xs
    by simp
  have "d' = d\<lparr>uuid_ctr := uuid_ctr d + 2 * length (t # ts), budgets := budgets d @ b # bs,
      targets := map (link sess ((ta_id t, bd_id b) # zip (map ta_id ts) (map bd_id bs))) (targets d)\<rparr>"
    unfolding d' set_target_budget_id_link by (simp add: bi(1) lk del: map_map)
  then show ?case using bs bo rs by (intro exI [of _ "b # bs"]) simp
qed

definition decided_row :: "decision_request \<Rightarrow> instant \<Rightarrow> alloc_row \<Rightarrow> alloc_row" where
  "decided_row dr now a = a\<lparr>ar_status := decided_status (dr_action dr), ar_decided_by := Some (dr_actor dr), ar_decided_at := Some now\<rparr>"

lemma decided_row_simps [simp]: "ar_id (decided_row dr now a) = ar_id a" "ar_tenant (decided_row dr now a) = ar_tenant a"
  "ar_total (decided_row dr now a) = ar_total a" "ar_status (decided_row dr now a) = decided_status (dr_action dr)"
  by (simp_all add: decided_row_def)

text \<open>What a decision that commits found and wrote.\<close>

lemma decide_txn_Inr:
  assumes ok: "alloc_ok d" and e: "decide_txn sha u4 sess aid dr now d = Inr (rec, d')"
  obtains a ts bs where "a \<in> set (allocs d)" "ar_id a = aid" "ar_tenant a = sess" "dr_tenant dr = sess" "ar_status a = Requested"
    "rc_row rec = decided_row dr now a"
    "ts = targets_of sess aid d" "allocs d' = update_where (\<lambda>x. x = a) (decided_row dr now) (allocs d)"
    "budgets d' = budgets d @ bs"
    "targets d' = map (link sess (zip (map ta_id ts) (map bd_id bs))) (targets d)"
    "if dr_action dr = Approve then list_all2 (budget_of a now) ts bs else bs = []"
    "\<exists>h. history d' = history d @ [h] \<and> h_action h = status_str (decided_status (dr_action dr)) \<and> h_entity h = aid"
proof -
  from e obtain g where g: "get_allocation sess aid d = Some g" by (auto simp: decide_txn_def split: option.splits)
  then obtain a where f: "List.find (\<lambda>a. ar_tenant a = sess \<and> ar_id a = aid) (allocs d) = Some a"
    and ga: "g = \<lparr>rc_row = a, rc_targets = targets_of sess aid d\<rparr>" by (auto simp: get_allocation_def)
  have a: "a \<in> set (allocs d)" "ar_tenant a = sess" "ar_id a = aid" using find_eq_Some_in [OF f] by simp_all
  have only: "x = a" if "x \<in> set (allocs d)" "ar_id x = aid" for x
    using distinct_key_unique [OF alloc_okD(1) [OF ok] that(1) a(1)] that(2) a(3) by simp
  have dt: "dr_tenant dr = sess" using e g ga a(2) by (auto simp: decide_txn_def split: if_splits)
  let ?hit = "\<lambda>x. ar_tenant x = sess \<and> ar_id x = aid \<and> ar_status x = Requested"
  obtain ok1 d1 where t: "try_decide_allocation sess aid (decided_status (dr_action dr)) (dr_actor dr) now d = (ok1, d1)" by fastforce
  have ok1: ok1 using e g ga t dt a(2) by (auto simp: decide_txn_def split: if_splits)
  have "filter ?hit (allocs d) \<noteq> []" using ok1 t by (auto simp: try_decide_allocation_def Let_def)
  then obtain x where "x \<in> set (allocs d)" "?hit x" by (auto simp: filter_empty_conv)
  with only have st: "ar_status a = Requested" by metis
  have "update_where ?hit f' (allocs d) = update_where (\<lambda>x. x = a) f' (allocs d)" for f'
    by (rule update_where_cong) (use only a st in blast)
  moreover have "(\<lambda>a. a\<lparr>ar_status := decided_status (dr_action dr), ar_decided_by := Some (dr_actor dr), ar_decided_at := Some now\<rparr>)
      = decided_row dr now" by (simp add: fun_eq_iff decided_row_def)
  ultimately have d1: "d1 = d\<lparr>allocs := update_where (\<lambda>x. x = a) (decided_row dr now) (allocs d)\<rparr>"
    using t unfolding try_decide_allocation_def Let_def by simp
  from e g ga t dt a(2) ok1 obtain ts d2 h where
    m: "(if dr_action dr = Approve then materialize u4 sess a now (targets_of sess aid d) d1 else Inr (targets_of sess aid d, d1)) = Inr (ts, d2)"
    and ah: "append_history sha u4 sess sess ''allocation'' aid (status_str (decided_status (dr_action dr))) (dr_actor dr) now (dr_note dr) d2
        = Inr (h, d')" and rec: "rc_row rec = decided_row dr now a"
    by (auto simp: decide_txn_def bindR_eq_Inr decided_row_def cong: if_cong)
  note fr = append_history_frame [OF ah] and hi = append_history_Inr [OF ah]
  have dist: "distinct (map ta_id (targets_of sess aid d))"
    using alloc_okD(2) [OF ok] by (simp add: targets_of_def distinct_map_filter)
  have "\<exists>bs. budgets d2 = budgets d @ bs \<and> allocs d2 = allocs d1 \<and> history d2 = history d
      \<and> targets d2 = map (link sess (zip (map ta_id (targets_of sess aid d)) (map bd_id bs))) (targets d)
      \<and> (if dr_action dr = Approve then list_all2 (budget_of a now) (targets_of sess aid d) bs else bs = [])"
  proof (cases "dr_action dr = Approve")
    case True
    then have mm: "materialize u4 sess a now (targets_of sess aid d) d1 = Inr (ts, d2)" using m by simp
    from materialize_Inr [OF mm dist] obtain bs where "list_all2 (budget_of a now) (targets_of sess aid d) bs"
      "d2 = d1\<lparr>uuid_ctr := uuid_ctr d1 + 2 * length (targets_of sess aid d), budgets := budgets d1 @ bs,
         targets := map (link sess (zip (map ta_id (targets_of sess aid d)) (map bd_id bs))) (targets d1)\<rparr>" by blast
    then show ?thesis using True by (intro exI [of _ bs]) (simp add: d1)
  next
    case False
    then have "d2 = d1" using m by simp
    then show ?thesis using False by (intro exI [of _ "[]"]) (simp add: d1)
  qed
  then obtain bs where bs: "budgets d2 = budgets d @ bs" "allocs d2 = allocs d1" "history d2 = history d"
    "targets d2 = map (link sess (zip (map ta_id (targets_of sess aid d)) (map bd_id bs))) (targets d)"
    "if dr_action dr = Approve then list_all2 (budget_of a now) (targets_of sess aid d) bs else bs = []" by blast
  show thesis
  proof (rule that [of a "targets_of sess aid d" bs])
    show "\<exists>h. history d' = history d @ [h] \<and> h_action h = status_str (decided_status (dr_action dr)) \<and> h_entity h = aid"
      using hi(1,8,9) bs(3) by simp
  qed (use a dt st rec bs d1 fr in simp_all)
qed

lemma decide_txn_alloc_ok:
  assumes ok: "alloc_ok d" and e: "decide_txn sha u4 sess aid dr now d = Inr (rec, d')"
  shows "alloc_ok d'"
  using ok e
proof (cases rule: decide_txn_Inr)
  case (1 a ts bs)
  let ?ps = "zip (map ta_id ts) (map bd_id bs)"
  have ten: "ta_tenant t = sess" if "t \<in> set (alloc_targets aid d)" for t
    using alloc_okD(5) [OF ok 1(1), of t] that 1(2,3) by (simp add: target_ok_def)
  have ts: "ts = alloc_targets aid d"
    unfolding 1(7) targets_of_def alloc_targets_def using ten by (intro filter_cong refl) (auto simp: alloc_targets_def)
  have ids: "map ar_id (allocs d') = map ar_id (allocs d)" by (simp add: 1(8) map_update_where_frame)
  have at: "alloc_targets i d' = map (link sess ?ps) (alloc_targets i d)" for i
    by (simp add: alloc_targets_def 1(10) filter_map comp_def)
  have other: "link sess ?ps t = t" if "t \<in> set (targets d)" "ta_alloc t \<noteq> aid" for t
  proof -
    have "ta_id t \<notin> ta_id ` set ts"
      using that distinct_key_unique [OF alloc_okD(2) [OF ok] that(1)] by (auto simp: ts alloc_targets_def)
    then have "map_of ?ps (ta_id t) = None" by (auto simp: map_of_eq_None_iff dest!: set_zip_leftD)
    then show ?thesis by (simp add: link_def)
  qed
  have mine: "target_ok d' (decided_row dr now a) (link sess ?ps t)" if t: "t \<in> set (alloc_targets aid d)" for t
  proof (cases "dr_action dr")
    case Approve
    then have l: "list_all2 (budget_of a now) ts bs" using 1(11) by simp
    then have len: "length ts = length bs" by (rule list_all2_lengthD)
    obtain n where n: "n < length ts" "ts ! n = t" using t ts by (metis in_set_conv_nth)
    have "distinct (map ta_id ts)" using alloc_okD(2) [OF ok] by (simp add: ts alloc_targets_def distinct_map_filter)
    then have "map_of ?ps (ta_id t) = Some (bd_id (bs ! n))"
      using map_of_zip_nth [of "map ta_id ts" "map bd_id bs" n] n len by simp
    moreover have "budget_of a now t (bs ! n)" using list_all2_nthD [OF l n(1)] n(2) by simp
    moreover have "bs ! n \<in> set (budgets d')" using n len by (simp add: 1(9))
    ultimately show ?thesis using Approve ten [OF t] 1(3)
      by (auto simp: target_ok_def link_def budget_of_def)
  next
    case Reject
    then have "link sess ?ps t = t" using 1(11) by (simp add: link_def)
    then show ?thesis using Reject alloc_okD(5) [OF ok 1(1), of t] t 1(2,5) by (simp add: target_ok_def)
  qed
  have "total ta_amount (alloc_targets (ar_id x) d') = ar_total x \<and> (\<forall>t \<in> set (alloc_targets (ar_id x) d'). target_ok d' x t)"
    if x: "x \<in> set (allocs d')" for x
  proof -
    have tot: "total ta_amount (map (link sess ?ps) ys) = total ta_amount ys" for ys by (simp add: total_map)
    from x consider "x = decided_row dr now a" | "x \<in> set (allocs d)" "x \<noteq> a"
      by (auto simp: 1(8) set_update_where)
    then show ?thesis
    proof cases
      case 1
      then show ?thesis using mine alloc_okD(4) [OF ok \<open>a \<in> set (allocs d)\<close>] \<open>ar_id a = aid\<close> by (auto simp: at tot)
    next
      case 2
      then have ne: "ar_id x \<noteq> aid"
        using distinct_key_unique [OF alloc_okD(1) [OF ok] 2(1) \<open>a \<in> set (allocs d)\<close>] \<open>ar_id a = aid\<close> by auto
      have "target_ok d' x t" if "t \<in> set (alloc_targets (ar_id x) d)" for t
        using alloc_okD(5) [OF ok 2(1) that] \<open>budgets d' = budgets d @ bs\<close> by (auto simp: target_ok_def split: if_splits)
      moreover have "link sess ?ps t = t" if "t \<in> set (alloc_targets (ar_id x) d)" for t
        using other that ne by (auto simp: alloc_targets_def)
      ultimately show ?thesis using alloc_okD(4) [OF ok 2(1)] by (auto simp: at tot)
    qed
  qed
  moreover have "ta_alloc ` set (targets d') \<subseteq> ar_id ` set (allocs d')"
    using alloc_okD(3) [OF ok] arg_cong [OF ids, of set] by (auto simp: 1(10))
  moreover have "map ta_id (targets d') = map ta_id (targets d)" by (simp add: 1(10))
  ultimately show ?thesis using alloc_okD(1,2) [OF ok] unfolding alloc_ok_def ids by simp
qed

text \<open>An approval spends the whole total, one cap per target.\<close>

lemma approval_materializes:
  assumes ok: "alloc_ok d" and e: "decide_txn sha u4 sess aid dr now d = Inr (rec, d')" and ap: "dr_action dr = Approve"
  shows "\<exists>bs. budgets d' = budgets d @ bs \<and> list_all2 (budget_of (rc_row rec) now) (alloc_targets aid d) bs
    \<and> total (\<lambda>b. the (bd_cost b)) bs = ar_total (rc_row rec)"
  using ok e
proof (cases rule: decide_txn_Inr)
  case (1 a ts bs)
  have "ta_tenant t = sess" if "t \<in> set (alloc_targets aid d)" for t
    using alloc_okD(5) [OF ok 1(1), of t] that 1(2,3) by (simp add: target_ok_def)
  then have ts: "ts = alloc_targets aid d"
    unfolding 1(7) targets_of_def alloc_targets_def by (intro filter_cong refl) (auto simp: alloc_targets_def)
  have l: "list_all2 (budget_of a now) (alloc_targets aid d) bs" using 1(11) ap ts by simp
  have "list_all2 (budget_of (rc_row rec) now) (alloc_targets aid d) bs"
    by (rule list_all2_mono [OF l]) (simp add: budget_of_def 1(6) decided_row_def)
  moreover have "total (\<lambda>b. the (bd_cost b)) bs = total ta_amount (alloc_targets aid d)"
    using l by (induction rule: list_all2_induct) (auto simp: budget_of_def)
  ultimately show ?thesis using 1(9) alloc_okD(4) [OF ok 1(1)] 1(2,6) by auto
qed

text \<open>A decided allocation refuses every later decision.\<close>

lemma decided_refuses:
  assumes "alloc_ok d" "a \<in> set (allocs d)" "ar_id a = aid" "ar_tenant a = sess" "ar_status a \<noteq> Requested" "dr_tenant dr = sess"
  shows "decide_allocation sha u4 sess aid dr now d = (Inl AllocationAlreadyDecidedError, d)"
proof -
  have only: "x = a" if "x \<in> set (allocs d)" "ar_id x = aid" for x
    using distinct_key_unique [OF alloc_okD(1) [OF assms(1)] that(1) assms(2)] that(2) assms(3) by simp
  have "List.find (\<lambda>x. ar_tenant x = sess \<and> ar_id x = aid) (allocs d) = Some a"
    by (rule find_unique) (use only assms(2-4) in blast)+
  then have g: "get_allocation sess aid d = Some \<lparr>rc_row = a, rc_targets = targets_of sess aid d\<rparr>"
    by (simp add: get_allocation_def)
  have "filter (\<lambda>x. ar_tenant x = sess \<and> ar_id x = aid \<and> ar_status x = Requested) (allocs d) = []"
    using only assms(5) by (auto simp: filter_empty_conv)
  then have "decide_txn sha u4 sess aid dr now d = Inl AllocationAlreadyDecidedError"
    using g assms(4,6) by (simp add: decide_txn_def try_decide_allocation_def Let_def)
  then show ?thesis by (simp add: decide_allocation_def)
qed

end
