(* ===== verification/Samples.thy ===== *)
theory Samples
  imports Spend Allocation_Facts
begin

text \<open>
  Concrete inputs on which the properties of the root theory are exercised: one tenant, one
  usage event signed under a constant digest, and databases reached by running the model.
\<close>

section \<open>Identities and parameters\<close>

definition tenant0 :: ident where "tenant0 = ''11111111-1111-4111-8111-111111111111''"
definition team0 :: ident where "team0 = ''22222222-2222-4222-8222-222222222222''"
definition project0 :: ident where "project0 = ''33333333-3333-4333-8333-333333333333''"
definition event0 :: ident where "event0 = ''44444444-4444-4444-8444-444444444444''"
definition agent0 :: ident where "agent0 = ''agent-a''"
definition now0 :: instant where "now0 = 63900000000000000"

text \<open>Ids that spell a number in the last two places of a UUID.\<close>

definition digit0 :: "nat \<Rightarrow> char" where "digit0 n = char_of (48 + n mod 10)"

definition uuid0 :: "nat \<Rightarrow> ident" where
  "uuid0 n = ''00000000-0000-4000-8000-0000000000'' @ [digit0 (n div 10), digit0 n]"

definition u5_0 :: u5gen where "u5_0 ns name = uuid0 (length name)"
definition u4_0 :: u4gen where "u4_0 n = ''00000000-0000-4000-9000-'' @ dec_nat n"
definition sha0 :: "string \<Rightarrow> string" where "sha0 s = s"
definition pystr0 :: "json \<Rightarrow> string" where "pystr0 v = ''value''"

definition pdt0 :: "json \<Rightarrow> py_datetime option" where
  "pdt0 v = (case v of JStr _ \<Rightarrow> Some (Aware now0) | _ \<Rightarrow> None)"

lemma is_hex_digit0: "is_hex (digit0 n)"
proof -
  have "n mod 10 \<le> 9" using mod_less_divisor [of 10 n] by linarith
  then show ?thesis by (simp add: digit0_def is_hex_def is_digit_def)
qed

lemma is_uuid_uuid0 [simp]: "is_uuid (uuid0 n)"
  using is_hex_digit0
  by (simp add: is_uuid_def uuid0_def uuid_template_def) (simp add: is_hex_def is_digit_def char_in_def)

lemma inj_u4_0: "inj u4_0"
  by (simp add: inj_def u4_0_def dec_nat_inj)

section \<open>Requests\<close>

definition usage_with :: "json \<Rightarrow> json" where
  "usage_with cost = JObj [(''event_type'', JStr ''usage''), (''tenant_id'', JStr tenant0), (''team_id'', JStr team0),
     (''project_id'', JStr project0), (''agent_id'', JStr agent0), (''model'', JStr ''m1''), (''tokens_in'', JInt 10),
     (''tokens_out'', JInt 20), (''latency_ms'', JInt 5), (''request_id'', JStr ''r1''), (''event_id'', JStr event0),
     (''event_timestamp'', JStr ''t''), (''cost_estimate_cents'', cost)]"

definition record0 :: usage_record where
  "record0 = \<lparr>u_tenant = tenant0, u_team = team0, u_project = project0, u_agent = agent0, u_model = ''m1'',
     u_tokens_in = 10, u_tokens_out = 20, u_cost = 250, u_currency = ''USD'', u_request = ''r1'', u_event = event0,
     u_time = now0\<rparr>"

definition externals0 :: "json \<Rightarrow> externals" where
  "externals0 payload = \<lparr>x_mac = (\<lambda>_ _. ''abcd''), x_loads = (\<lambda>_. Some payload), x_decode = (\<lambda>s. s), x_pdt = pdt0,
     x_u5 = u5_0, x_u4 = u4_0, x_sha = sha0, x_pystr = pystr0\<rparr>"

definition app0 :: app_state where
  "app0 = \<lparr>as_ingest = \<lparr>is_secret = ''s'', is_revenue_secret = ''t''\<rparr>,
     as_engine = \<lparr>es_enabled = False, es_url = ''u'', es_token = ''k'', es_max_attempts = 8, es_backoff_base = 2000000,
       es_backoff_cap = 300000000, es_warning_pcts = [80, 90]\<rparr>,
     as_kill = \<lparr>kc_enabled = False, kc_url = ''u'', kc_token = ''k'', kc_max_attempts = 8, kc_backoff_base = 2000000,
       kc_backoff_cap = 300000000, kc_max_tx = Some 200\<rparr>\<rparr>"

definition drain0 :: drain_env where
  "drain0 = \<lparr>dv_key = False, dv_snapshot = True, dv_row = (\<lambda>_. Locked)\<rparr>"

definition env0 :: serve_env where
  "env0 = \<lparr>sv_clock = 100000000, sv_post = NoFault, sv_dlq = NoFault, sv_dlq_now = now0, sv_eval_fault = None,
     sv_eval_drain = drain0, sv_eval_now = now0, sv_kill_fault = None, sv_kill_drain = drain0, sv_kill_now = now0\<rparr>"

definition request0 :: request where
  "request0 = \<lparr>rq_body = ''body'', rq_timestamp = Some ''100'', rq_signature = Some ''sha256=abcd'', rq_attempt = None\<rparr>"

lemmas sample_ids = tenant0_def team0_def project0_def event0_def agent0_def now0_def

section \<open>Evaluation\<close>

lemma usage_event0: "usage_event (externals0 (usage_with (JInt 250))) app0 env0 request0 = Some record0"
  by code_simp

lemma sample_uuids [simp]: "is_uuid tenant0" "is_uuid team0" "is_uuid project0" "is_uuid event0" "is_agent_id agent0"
  by code_simp+

lemma sample_lengths [simp]: "length tenant0 = 36" "length event0 = 36" "length team0 = 36" "length project0 = 36"
  by (simp_all add: sample_ids)

lemma sample_names [simp]: "is_model_name ''m1''" "is_currency ''USD''" "tenant_session tenant0 = Inr ()"
  by (code_simp, code_simp, simp add: is_uuid_session)

lemma undo_not_event0 [simp]: "''undo'' \<noteq> event0"
  by (simp add: event0_def)

lemma uuid0_eq [simp]: "uuid0 m = uuid0 n \<longleftrightarrow> m div 10 mod 10 = n div 10 mod 10 \<and> m mod 10 = n mod 10"
proof -
  have inj: "digit0 a = digit0 b \<longleftrightarrow> a mod 10 = b mod 10" for a b
  proof -
    have "a mod 10 < 10" "b mod 10 < 10" by simp_all
    then show ?thesis by (auto simp: digit0_def dest!: arg_cong [of _ _ "of_char :: char \<Rightarrow> nat"])
  qed
  show ?thesis by (auto simp: uuid0_def inj)
qed

lemma u5_0_length [simp]: "u5_0 ns name = uuid0 (length name)"
  by (simp add: u5_0_def)

text \<open>The ledger after the first delivery of the event.\<close>

definition leg0 :: "nat \<Rightarrow> direction \<Rightarrow> ident \<Rightarrow> entry_row" where
  "leg0 i dir acc = \<lparr>le_id = uuid0 i, le_txn = uuid0 73, le_tenant = tenant0, le_account = acc, le_dir = dir,
     le_amount = 250, le_currency = ''USD'', le_team = team0, le_project = project0, le_agent = agent0, le_time = now0\<rparr>"

definition ledger0 :: db where
  "ledger0 = empty_db\<lparr>
     accounts := [\<lparr>acc_id = uuid0 48, acc_tenant = tenant0, acc_type = EXPENSE, acc_currency = ''USD'', acc_name = ''AI Spend Expense (USD)''\<rparr>,
       \<lparr>acc_id = uuid0 55, acc_tenant = tenant0, acc_type = LIABILITY, acc_currency = ''USD'', acc_name = ''AI Spend Clearing (USD)''\<rparr>],
     transactions := [\<lparr>tr_id = uuid0 73, tr_tenant = tenant0, tr_currency = ''USD'', tr_time = now0, tr_desc = ''AI usage: m1'',
       tr_reversal_of = None, tr_idem = Some event0\<rparr>],
     entries := [leg0 79 DEBIT (uuid0 48), leg0 80 CREDIT (uuid0 55)]\<rparr>"

lemma fresh_posting0: "fresh_posting u5_0 record0 empty_db"
  by (simp add: fresh_posting_def record0_def empty_db_def canonical_accounts_def account_id_of_def)

lemma valid_usage0: "valid_usage record0"
  by (simp add: valid_usage_def record0_def money_bounds)

lemma post_usage0: "post_usage u5_0 record0 empty_db
  = Inr (\<lparr>ap_txn = uuid0 73, ap_applied = True, ap_replay = False, ap_count = 2\<rparr>, ledger0)"
  by (simp add: post_usage_def record0_def ensure_accounts_def ensure_account_def Let_def is_name_def resolve_account_ids_def
      account_id_of_def insert_nothing_def build_transaction_def mk_money_def bounded_count_ok mk_entry_def mk_transaction_def
      check_balanced_ok distinct_count_def debits_def credits_def append_transaction_def insert_txn_def txn_row_of_def
      entry_row_of_def insert_entry_def entry_ok_def assert_txn_balanced_def row_debits_def row_credits_def
      empty_db_def ledger0_def leg0_def money_bounds)

abbreviation externals250 :: externals where "externals250 \<equiv> externals0 (usage_with (JInt 250))"

lemma authentic0: "usage_authentic (externals0 p) app0 env0 request0 = Inr True"
  by code_simp

lemma build_usage_record0: "build_usage_record pdt0 (usage_with (JInt 250)) = Inr record0"
  by code_simp

lemma externals0_simps [simp]: "x_loads (externals0 p) s = Some p" "x_pdt (externals0 p) = pdt0" "x_u5 (externals0 p) = u5_0"
  "x_u4 (externals0 p) = u4_0"
  by (simp_all add: externals0_def)

lemma served_db: "serve_usage externals250 app0 env0 request0 d
  = (case post_usage u5_0 record0 d of
       Inl e \<Rightarrow> if is_transient (raised e) then \<lparr>o_reply = Retry, o_log = [], o_db = d\<rparr>
         else dead_letter_or_503 externals250 env0 \<lparr>pe_reason = UNRESOLVABLE_ACCOUNT, pe_tenant = Some tenant0,
           pe_event = Some event0, pe_type = Some ''usage''\<rparr> (usage_with (JInt 250)) 1 d
     | Inr (a, d1) \<Rightarrow> \<lparr>o_reply = Accepted (ap_applied a) (ap_replay a) (Some (ap_txn a)), o_log = [], o_db = d1\<rparr>)"
proof -
  have "as_dict (usage_with (JInt 250)) = usage_with (JInt 250)" by (simp add: as_dict_def usage_with_def)
  moreover have "parse_attempt (rq_attempt request0) = 1" by (simp add: parse_attempt_def request0_def)
  moreover have "sv_post env0 = NoFault" "\<not> es_enabled (as_engine app0)" "\<not> kc_enabled (as_kill app0)"
    "u_tenant record0 = tenant0" "u_event record0 = event0"
    by (simp_all add: env0_def app0_def record0_def)
  ultimately show ?thesis
    using ingest_usage_authentic [OF authentic0, of "usage_with (JInt 250)" "usage_with (JInt 250)" d]
    by (simp add: serve_usage_def failsafe_def build_usage_record0 run_tx_def evaluate_after_post_def evaluate_kill_switch_def
        split: sum.splits prod.splits)
qed

lemma served0: "serve_usage externals250 app0 env0 request0 empty_db
  = \<lparr>o_reply = Accepted True False (Some (uuid0 73)), o_log = [], o_db = ledger0\<rparr>"
  by (simp add: served_db post_usage0)

lemma ledger_ok_empty: "ledger_ok empty_db"
  by (simp add: ledger_ok_def empty_db_def)

lemma ledger_ok_ledger0: "ledger_ok ledger0"
  using post_usage_Inr(2) [OF post_usage0 ledger_ok_empty] .

text \<open>A reversal of the event's transaction, and the event's transaction appended once more.\<close>

lemma reverse0: "\<exists>res d'. reverse_transaction uuid0 tenant0 (uuid0 73) (uuid0 99) (Aware now0) ''undo'' (Some ''undo'') ledger0
    = Inr (res, d') \<and> ap_applied res"
  by (simp add: reverse_transaction_def Let_def ledger0_def leg0_def compensate_def mk_money_def bounded_count_ok money_bounds
      mk_entry_def mk_transaction_def check_balanced_ok distinct_count_def debits_def credits_def append_transaction_def
      insert_txn_def txn_row_of_def entry_row_of_def insert_entry_def entry_ok_def assert_txn_balanced_def row_debits_def
      row_credits_def empty_db_def)

lemma append0: "\<exists>x res d'. append_transaction tenant0 x (Some event0) None ledger0 = Inr (res, d') \<and> \<not> ap_applied res"
proof -
  let ?e = "\<lparr>e_id = uuid0 79, e_tenant = tenant0, e_account = uuid0 48, e_dir = DEBIT,
    e_amount = \<lparr>minor_units = 250, currency = ''USD''\<rparr>, e_team = team0, e_project = project0, e_agent = agent0, e_time = now0\<rparr>"
  show ?thesis
    by (rule exI [of _ "\<lparr>t_id = uuid0 73, t_tenant = tenant0, t_entries = [?e], t_time = now0, t_desc = []\<rparr>"])
      (simp add: append_transaction_def insert_txn_def txn_row_of_def ledger0_def)
qed

end
