(* ===== verification/Budget_Steady.thy ===== *)
theory Budget_Steady
  imports Spend
begin

text \<open>
  Edge triggering: within a period, and as long as the ledger does not change, a budget that
  has just been evaluated has nothing more to decide.
\<close>

lemma evaluate_budget_distinct:
  assumes ev: "evaluate_budget sha u4 st sess b now d = Inr (oc, d')" and dist: "distinct (map state_key (bstates d))"
  shows "distinct (map state_key (bstates d'))"
  using ev dist
proof (cases rule: evaluate_budget_cases)
  case (1 s d1)
  note g = get_or_create_state_Inr [OF 1(1)]
  have "distinct (map state_key (bstates d1))" using g(2,5) dist by auto
  then show ?thesis using budget_enqueue_Inr(1) [OF 1(4)] by (simp add: state_keys_update flipped_def state_key_def)
next
  case (2 s d1 P pct)
  note g = get_or_create_state_Inr [OF 2(1)]
  have "distinct (map state_key (bstates d1))" using g(2,5) dist by auto
  then show ?thesis using 2(4) by (simp add: state_keys_update state_key_def)
qed

lemma over_cap_same:
  assumes "ledger_same d d'" "period_start (bd_period b) now \<le> now'" "now' < period_end (bd_period b) now"
  shows "over_cap sess b now' d' = over_cap sess b now d"
  using period_start_mono_window [OF assms(2,3)] assms(1)
  by (simp add: over_cap_def budget_spend_def scope_spend_cents_def ledger_same_def expense_entry_def)

lemma window_label:
  assumes "period_start p now \<le> now'" "now' < period_end p now"
  shows "period_bucket_label p now' = period_bucket_label p now"
  using period_start_mono_window(1) [OF assms] by (simp add: period_bucket_label_def)

lemma evaluate_budget_again:
  assumes e1: "evaluate_budget sha u4 st sess b now d = Inr (oc, d1)" and dist: "distinct (map state_key (bstates d))"
    and w: "period_start (bd_period b) now \<le> now'" "now' < period_end (bd_period b) now"
    and same: "ledger_same d1 d2" "bstates d2 = bstates d1"
    and e2: "evaluate_budget sha u4 st sess b now' d2 = Inr (oc', d3)"
  shows "oc' \<noteq> Decided tr v"
proof -
  have dist2: "distinct (map state_key (bstates d2))" using evaluate_budget_distinct [OF e1 dist] same by simp
  have over: "over_cap sess b now' d2 = over_cap sess b now d"
    using over_cap_same [OF ledger_same_trans [OF evaluate_budget_same [OF e1] same(1)] w] .
  obtain s where s: "s \<in> set (bstates d2)" "state_key s = (sess, bd_id b, period_bucket_label (bd_period b) now')"
    "bs_state s = (if over_cap sess b now' d2 then Enforced else Under)"
    using evaluate_budget_state [OF e1 dist] same(2) over window_label [OF w] by auto
  from e2 dist2 show ?thesis
  proof (cases rule: evaluate_budget_cases)
    case (1 t d4)
    note g = get_or_create_state_Inr [OF 1(1)]
    have "bstates d4 = bstates d2" using g(1,5) s(1,2) by (metis imageI)
    then have "t = s" using distinct_key_unique [OF dist2, of t s] g(1-3) s(1,2) by simp
    then show ?thesis using 1(2) s(3) by simp
  qed blast
qed

text \<open>A budget that is over its cap and already enforced is left alone, and evaluating it cannot fail.\<close>

lemma evaluate_budget_enforced:
  assumes dist: "distinct (map state_key (bstates d))" and s: "s \<in> set (bstates d)" "bs_state s = Enforced"
    "state_key s = (sess, bd_id b, period_bucket_label (bd_period b) now)"
    and b: "bd_tenant b = sess" and over: "over_cap sess b now d"
  shows "evaluate_budget sha u4 st sess b now d = Inr (Quiet, d\<lparr>uuid_ctr := Suc (uuid_ctr d)\<rparr>)"
proof -
  have key: "state_key s \<in> state_key ` set (bstates d)" using s(1) by simp
  have "List.find (\<lambda>x. bs_tenant x = sess \<and> state_key x = state_key s) (bstates d) = Some s"
    by (rule find_unique [OF s(1)]) (use distinct_key_unique [OF dist _ s(1)] s(3) in \<open>auto simp: state_key_def\<close>)
  then have g: "get_or_create_state u4 sess (bd_tenant b) (bd_id b) (period_bucket_label (bd_period b) now) now d
      = Inr (s, d\<lparr>uuid_ctr := Suc (uuid_ctr d)\<rparr>)"
    using key s(3) b by (simp add: get_or_create_state_def uuid4_def Let_def state_key_def)
  note over' = over [unfolded over_cap_def budget_spend_def]
  then have "soft_warning_band (scope_spend_cents sess (bd_scope b) (bd_tenant b) (bd_team b) (bd_project b) (bd_agent b)
      (bd_currency b) (period_start (bd_period b) now) (period_end (bd_period b) now) d) b (es_warning_pcts st) = None"
    by (auto simp: soft_warning_band_def is_over_cost_cap_def split: option.splits)
  then show ?thesis using g s(2) over' by (simp add: evaluate_budget_def Let_def)
qed

end
