(* ===== verification/Samples_Enforcement.thy ===== *)
theory Samples_Enforcement
  imports Samples Budget_Steady
begin

text \<open>
  Concrete runs of the enforcement components: a budget that the sample event exceeds, a
  kill-switch scope that is killed, and an allocation that is approved.
\<close>

section \<open>A budget\<close>

definition budget0 :: budget_def where
  "budget0 = \<lparr>bd_id = uuid0 1, bd_tenant = tenant0, bd_scope = STENANT, bd_team = team0, bd_project = project0, bd_agent = agent0,
     bd_period = DAILY, bd_tokens = None, bd_cost = Some 100, bd_currency = ''USD'', bd_policy = uuid0 2, bd_created = now0\<rparr>"

definition budget_db0 :: db where "budget_db0 = ledger0\<lparr>budgets := [budget0]\<rparr>"

definition engine0 :: engine_settings where
  "engine0 = \<lparr>es_enabled = True, es_url = ''u'', es_token = ''k'', es_max_attempts = 8, es_backoff_base = 2000000,
       es_backoff_cap = 300000000, es_warning_pcts = [80, 90]\<rparr>"

lemma uuid0_length [simp]: "length (uuid0 n) = 36"
  by (simp add: uuid0_def)

lemma placeholder_ok: "is_compact_jws PLACEHOLDER_SIGNATURE" "16 \<le> length PLACEHOLDER_SIGNATURE"
  by code_simp+

lemma over_cap0: "over_cap tenant0 budget0 now0 budget_db0"
  using period_contains [where p = DAILY and now = now0]
  by (simp add: over_cap_def budget_spend_def is_over_cost_cap_def budget0_def scope_spend_cents_def budget_db0_def ledger0_def
      leg0_def expense_entry_def in_scope_def signed_cents_def)

lemma policy_payload0: "\<exists>p. build_policy_payload budget0 1 now0 = Inr p"
proof -
  obtain c where "to_concept budget0 = Inr c"
    by (simp add: to_concept_def budget0_def mk_concept_def limit_field_def json_limit_def bounded_count_ok money_bounds)
  then show ?thesis using payload_ok [of 1 PLACEHOLDER_SIGNATURE c _ now0] placeholder_ok
    by (auto simp: build_policy_payload_def MAX_POLICY_VERSION_def)
qed

lemma evaluate0: "\<exists>d'. evaluate_budget sha0 u4_0 engine0 tenant0 budget0 now0 budget_db0 = Inr (Decided TEnforce 1, d')"
proof -
  let ?bk = "period_bucket_label (bd_period budget0) now0"
  let ?s = "\<lparr>bs_id = u4_0 0, bs_tenant = tenant0, bs_budget = uuid0 1, bs_bucket = ?bk, bs_state = Under,
      bs_enforced_version = None, bs_version = 0, bs_warned = None, bs_updated = now0\<rparr>"
  let ?d1 = "budget_db0\<lparr>uuid_ctr := 1, bstates := [?s]\<rparr>"
  let ?d2 = "?d1\<lparr>bstates := [?s\<lparr>bs_state := Enforced, bs_version := 1, bs_updated := now0, bs_enforced_version := Some 1\<rparr>]\<rparr>"
  note over = over_cap0 [unfolded over_cap_def budget_spend_def]
  have g: "get_or_create_state u4_0 tenant0 (bd_tenant budget0) (bd_id budget0) ?bk now0 budget_db0 = Inr (?s, ?d1)"
    by (simp add: get_or_create_state_def uuid4_def Let_def budget0_def state_key_def seed_version_def insert_unique_def
        budget_db0_def ledger0_def empty_db_def)
  have t: "try_transition_to_enforced tenant0 (bd_tenant budget0) (bd_id budget0) ?bk now0 ?d1 = (Some 1, ?d2)"
    by (simp add: try_transition_to_enforced_def conditional_transition_def Let_def budget0_def bstate_hit_def state_key_def)
  obtain p where p: "build_policy_payload budget0 1 now0 = Inr p" using policy_payload0 by blast
  have "\<exists>d3. budget_enqueue sha0 u4_0 tenant0 budget0 1 TEnforce now0 ?d2 = Inr d3"
    using p
    by (simp add: budget_enqueue_def bpo_enqueue_def uuid4_def Let_def budget0_def insert_unique_def append_history_def hist_fits_def
        budget_db0_def ledger0_def empty_db_def dec_int_def dec_nat.simps scope_value.simps)
  then show ?thesis using over g t by (auto simp: evaluate_budget_def Let_def)
qed

lemma evaluate0_again:
  "\<exists>d1 oc d2. evaluate_budget sha0 u4_0 engine0 tenant0 budget0 now0 budget_db0 = Inr (Decided TEnforce 1, d1)
     \<and> evaluate_budget sha0 u4_0 engine0 tenant0 budget0 now0 d1 = Inr (oc, d2)"
proof -
  obtain d1 where e: "evaluate_budget sha0 u4_0 engine0 tenant0 budget0 now0 budget_db0 = Inr (Decided TEnforce 1, d1)"
    using evaluate0 by blast
  have dist: "distinct (map state_key (bstates budget_db0))" by (simp add: budget_db0_def ledger0_def empty_db_def)
  have over: "over_cap tenant0 budget0 now0 d1"
    using over_cap_same [OF evaluate_budget_same [OF e] period_contains] over_cap0 by simp
  have ten: "bd_tenant budget0 = tenant0" by (simp add: budget0_def)
  from evaluate_budget_state [OF e dist] over_cap0 obtain s where s: "s \<in> set (bstates d1)" "bs_state s = Enforced"
    "state_key s = (tenant0, bd_id budget0, period_bucket_label (bd_period budget0) now0)" by auto
  from evaluate_budget_enforced [OF evaluate_budget_distinct [OF e dist] s ten over] e show ?thesis by blast
qed

section \<open>A drain\<close>

definition outbox_row0 :: outbox_row where
  "outbox_row0 = \<lparr>ob_id = uuid0 5, ob_tenant = tenant0, ob_subject = uuid0 1, ob_policy = uuid0 2, ob_version = 1,
     ob_transition = TEnforce, ob_payload = [], ob_distribution = None, ob_state = Pending, ob_attempts = 7, ob_next = now0,
     ob_error = None, ob_created = now0\<rparr>"

definition response0 :: http_result where
  "response0 = Response 202 (Some (JObj [(''distribution_id'', JStr ''x'')]))"

definition drain_ok0 :: drain_env where
  "drain_ok0 = \<lparr>dv_key = True, dv_snapshot = True, dv_row = (\<lambda>_. Go (Inr []) response0)\<rparr>"

section \<open>A kill\<close>

definition kill_settings0 :: kill_settings where
  "kill_settings0 = \<lparr>kc_enabled = True, kc_url = ''u'', kc_token = ''k'', kc_max_attempts = 8, kc_backoff_base = 2000000,
     kc_backoff_cap = 300000000, kc_max_tx = Some 200\<rparr>"

lemma kill_payload_ok: "1 \<le> v \<Longrightarrow> v \<le> MAX_POLICY_VERSION \<Longrightarrow> \<exists>p. build_kill_payload tenant0 team0 project0 agent0 pid v now0 = Inr p"
  "1 \<le> v \<Longrightarrow> v \<le> MAX_POLICY_VERSION \<Longrightarrow> \<exists>p. build_clear_payload tenant0 team0 project0 agent0 pid v now0 = Inr p"
proof -
  have c: "\<exists>c. kill_switch_concept tenant0 team0 project0 agent0 a b = Inr c"
    if "0 \<le> a" "a \<le> MAX_BUDGET_TOKENS" "0 \<le> b" "b \<le> MAX_BUDGET_COST_CENTS" for a b
    using that by (simp add: kill_switch_concept_def mk_concept_def limit_field_def bounded_count_ok DEFAULT_CURRENCY_def)
  show "\<exists>p. build_kill_payload tenant0 team0 project0 agent0 pid v now0 = Inr p" if "1 \<le> v" "v \<le> MAX_POLICY_VERSION"
    using c [of 0 0] payload_ok [OF that placeholder_ok(2,1)] by (auto simp: build_kill_payload_def money_bounds)
  show "\<exists>p. build_clear_payload tenant0 team0 project0 agent0 pid v now0 = Inr p" if "1 \<le> v" "v \<le> MAX_POLICY_VERSION"
    using c [of MAX_BUDGET_TOKENS MAX_BUDGET_COST_CENTS] payload_ok [OF that placeholder_ok(2,1)]
    by (auto simp: build_clear_payload_def money_bounds)
qed

lemma kill_payloads0: "\<exists>p q. build_kill_payload tenant0 team0 project0 agent0 (uuid0 2) 1 now0 = Inr p
    \<and> build_clear_payload tenant0 team0 project0 agent0 (uuid0 2) 2 now0 = Inr q"
  using kill_payload_ok [of 1 "uuid0 2"] kill_payload_ok [of 2 "uuid0 2"] by (auto simp: MAX_POLICY_VERSION_def)

lemma u4_0_eq [simp]: "u4_0 m = u4_0 n \<longleftrightarrow> m = n"
  using inj_u4_0 by (auto dest: injD)

lemma u4_0_length [simp]: "length (u4_0 0) = 25" "length (u4_0 (Suc 0)) = 25" "length agent0 = 7"
  by code_simp+

lemmas kill_unfold = record0_def kill_settings0_def empty_db_def Let_def uuid4_def insert_unique_def ks_key_def
  try_transition_to_killed_def try_transition_to_clear_def kill_transition_def kso_enqueue_def append_history_def hist_fits_def
  dec_int_def dec_nat.simps

lemma kill_txn0: "\<exists>d d' k. kill_txn sha0 u4_0 kill_settings0 record0 now0 empty_db = Inr d \<and> kstates d = [k]
    \<and> clear_kill_switch sha0 u4_0 tenant0 tenant0 team0 project0 agent0 now0 d = Inr (True, d')"
proof -
  obtain p where p: "build_kill_payload tenant0 team0 project0 agent0 (u4_0 1) 1 now0 = Inr p"
    using kill_payload_ok(1) [of 1 "u4_0 1"] by (auto simp: MAX_POLICY_VERSION_def)
  obtain q where q: "build_clear_payload tenant0 team0 project0 agent0 (u4_0 1) 2 now0 = Inr q"
    using kill_payload_ok(2) [of 2 "u4_0 1"] by (auto simp: MAX_POLICY_VERSION_def)
  show ?thesis
    using p q
    by (simp add: kill_unfold kill_txn_def is_tenant_gated_def detect_reason_def unauthorized_reason_def anomalous_reason_def
        do_kill_def kill_get_or_create_def clear_kill_switch_def find_state_def clear_scope_def kso_key_def)
qed

lemma kill0: "\<exists>d d' k. kill_txn sha0 u4_0 kill_settings0 record0 now0 empty_db = Inr d
    \<and> kill_reach sha0 u4_0 pystr0 kill_settings0 d \<and> kstates d = [k]
    \<and> clear_kill_switch sha0 u4_0 tenant0 tenant0 team0 project0 agent0 now0 d = Inr (True, d')"
proof -
  obtain d d' k where d: "kill_txn sha0 u4_0 kill_settings0 record0 now0 empty_db = Inr d" "kstates d = [k]"
    "clear_kill_switch sha0 u4_0 tenant0 tenant0 team0 project0 agent0 now0 d = Inr (True, d')" using kill_txn0 by blast
  have "kill_reach sha0 u4_0 pystr0 kill_settings0 empty_db" by (rule kill_reach.start) (simp_all add: empty_db_def)
  from kill_reach.evaluate [OF this, of None drain0 record0 now0] d(1)
  have "kill_reach sha0 u4_0 pystr0 kill_settings0 d"
    by (simp add: evaluate_kill_switch_def kso_drain_tenant_def kill_settings0_def drain0_def)
  with d show ?thesis by blast
qed

section \<open>An audit row\<close>

definition audit_row0 :: "u4gen \<Rightarrow> hist_row" where
  "audit_row0 u = \<lparr>h_id = u 0, h_tenant = tenant0, h_type = ''budget'', h_entity = uuid0 1, h_action = ''enforce'', h_actor = ''engine'',
     h_note = None, h_created = now0, h_seq = 1, h_prev = GENESIS_HASH sha0,
     h_hash = compute_row_hash sha0 (row_hash_data tenant0 ''budget'' (uuid0 1) ''enforce'' ''engine'' None now0 (GENESIS_HASH sha0))\<rparr>"

definition audit_db0 :: "u4gen \<Rightarrow> db" where
  "audit_db0 u = empty_db\<lparr>uuid_ctr := 1, history := [audit_row0 u], hist_seq := 1\<rparr>"

lemma history0: "append_history sha0 u tenant0 tenant0 ''budget'' (uuid0 1) ''enforce'' ''engine'' now0 None empty_db
    = Inr (audit_row0 u, audit_db0 u)"
  by (simp add: append_history_def uuid4_def Let_def hist_fits_def insert_unique_def tip_hash_def tip_of_def chain_rows_def
      audit_row0_def audit_db0_def empty_db_def)

lemma history_ok_empty: "history_ok sha0 empty_db"
  by (simp add: history_ok_def empty_db_def tenant_history_def walks_def)

lemma chain_rows0: "chain_rows tenant0 tenant0 (audit_db0 u) = [audit_row0 u]"
  by (simp add: chain_rows_def audit_db0_def audit_row0_def)

section \<open>An allocation\<close>

definition proposal0 :: create_request where
  "proposal0 = \<lparr>cr_tenant = tenant0, cr_total = 500, cr_currency = ''USD'', cr_period = MONTHLY,
     cr_targets = [\<lparr>ti_scope = STEAM, ti_team = team0, ti_project = project0, ti_agent = agent0, ti_amount = 200\<rparr>,
       \<lparr>ti_scope = SAGENT, ti_team = team0, ti_project = project0, ti_agent = agent0, ti_amount = 300\<rparr>],
     cr_by = ''alice''\<rparr>"

definition target0 :: "nat \<Rightarrow> budget_scope \<Rightarrow> cents \<Rightarrow> target_row" where
  "target0 n sc amount = \<lparr>ta_id = uuid0 n, ta_alloc = uuid0 0, ta_tenant = tenant0, ta_scope = sc, ta_team = team0,
     ta_project = project0, ta_agent = agent0, ta_amount = amount, ta_budget = None\<rparr>"

definition allocated0 :: db where
  "allocated0 = empty_db\<lparr>uuid_ctr := 3,
     allocs := [\<lparr>ar_id = uuid0 0, ar_tenant = tenant0, ar_total = 500, ar_currency = ''USD'', ar_period = MONTHLY, ar_status = Requested,
       ar_by = ''alice'', ar_at = now0, ar_decided_by = None, ar_decided_at = None\<rparr>],
     targets := [target0 1 STEAM 200, target0 2 SAGENT 300]\<rparr>"

definition approval0 :: decision_request where
  "approval0 = \<lparr>dr_tenant = tenant0, dr_action = Approve, dr_actor = ''bob'', dr_note = None\<rparr>"

lemma alloc_ok_empty: "alloc_ok empty_db"
  by (simp add: alloc_ok_def empty_db_def)

lemma alloc_ok_allocated0: "alloc_ok allocated0"
  by (simp add: alloc_ok_def allocated0_def empty_db_def alloc_targets_def target0_def target_ok_def)

lemma approve0: "\<exists>rec d. decide_txn sha0 uuid0 tenant0 (uuid0 0) approval0 now0 allocated0 = Inr (rec, d) \<and> ar_total (rc_row rec) = 500"
  by (simp add: decide_txn_def get_allocation_def allocated0_def empty_db_def approval0_def try_decide_allocation_def Let_def
      targets_of_def target0_def mk_concept_def limit_field_def bounded_count_ok money_bounds create_budget_def or_uuid4_def uuid4_def
      insert_unique_def limits_ok_def set_target_budget_id_def append_history_def hist_fits_def)

end
