(* ===== verification/Sliding_Window.thy ===== *)
theory Sliding_Window
  imports Delta_Prelude "HOL-Library.Multiset"
begin

text \<open>
  The contract of a sliding-window limiter, and what it gives whatever the interleaving of its
  users: a window remembers recent admissions, so no interval of the window's length ever holds
  more admissions than the limit. An admission may be taken back (\<open>Forget\<close>).
\<close>

datatype 'm wop = Try 'm int | Forget 'm

lemma length_filter_mono: "(\<And>x. x \<in> set xs \<Longrightarrow> P x \<Longrightarrow> Q x) \<Longrightarrow> length (filter P xs) \<le> length (filter Q xs)"
  by (induction xs) (auto simp: le_SucI)

locale window_limiter =
  fixes attempt :: "'m \<Rightarrow> int \<Rightarrow> 'w \<Rightarrow> bool \<times> 'w"
    and forget :: "'m \<Rightarrow> 'w \<Rightarrow> 'w"
    and recorded :: "'w \<Rightarrow> ('m \<times> int) list"
    and may_try :: "'m \<Rightarrow> 'w \<Rightarrow> bool" and may_forget :: "'m \<Rightarrow> 'w \<Rightarrow> bool"
    and width :: int and limit :: nat
  assumes admits_within: "may_try m w \<Longrightarrow> attempt m now w = (True, w') \<Longrightarrow>
      length (filter (\<lambda>p. now - width < snd p) (recorded w')) \<le> limit"
    and remembers: "may_try m w \<Longrightarrow> attempt m now w = (b, w') \<Longrightarrow>
      mset (filter (\<lambda>p. now - width < snd p) (recorded w)) + (if b then {#(m, now)#} else {#})
        \<subseteq># mset (filter (\<lambda>p. now - width < snd p) (recorded w'))"
    and forgets_only: "may_forget m w \<Longrightarrow> mset (filter (\<lambda>p. fst p \<noteq> m) (recorded w)) \<subseteq># mset (recorded (forget m w))"
begin

text \<open>A run of operations, with the log of the admissions that were not taken back.\<close>

fun wstep :: "'m wop \<Rightarrow> 'w \<times> ('m \<times> int) list \<Rightarrow> 'w \<times> ('m \<times> int) list" where
  "wstep (Try m now) (w, log) = (let (b, w') = attempt m now w in (w', if b then log @ [(m, now)] else log))"
| "wstep (Forget m) (w, log) = (forget m w, filter (\<lambda>p. fst p \<noteq> m) log)"

fun legal :: "int \<Rightarrow> 'm wop list \<Rightarrow> 'w \<times> ('m \<times> int) list \<Rightarrow> bool" where
  "legal T [] s = True"
| "legal T (Try m now # ops) s = (T \<le> now \<and> may_try m (fst s) \<and> legal now ops (wstep (Try m now) s))"
| "legal T (Forget m # ops) s = (may_forget m (fst s) \<and> legal T ops (wstep (Forget m) s))"

definition run :: "'m wop list \<Rightarrow> 'w \<times> ('m \<times> int) list \<Rightarrow> 'w \<times> ('m \<times> int) list" where
  "run ops s = foldl (\<lambda>s op. wstep op s) s ops"

definition window_ok :: "int \<Rightarrow> 'w \<times> ('m \<times> int) list \<Rightarrow> bool" where
  "window_ok T s \<longleftrightarrow> (\<forall>p \<in> set (snd s). snd p \<le> T)
     \<and> mset (filter (\<lambda>p. T - width < snd p) (snd s)) \<subseteq># mset (filter (\<lambda>p. T - width < snd p) (recorded (fst s)))
     \<and> (\<forall>a. length (filter (\<lambda>p. a < snd p \<and> snd p \<le> a + width) (snd s)) \<le> limit)"

lemma filter_mset_later:
  fixes xs ys :: "('m \<times> int) list"
  assumes "mset (filter (\<lambda>p. T - width < snd p) xs) \<subseteq># mset (filter (\<lambda>p. T - width < snd p) ys)" "T \<le> now"
  shows "mset (filter (\<lambda>p. now - width < snd p) xs) \<subseteq># mset (filter (\<lambda>p. now - width < snd p) ys)"
proof -
  have f: "mset (filter (\<lambda>p. now - width < snd p) zs) = filter_mset (\<lambda>p. now - width < snd p) (mset (filter (\<lambda>p. T - width < snd p) zs))"
    for zs :: "('m \<times> int) list"
    using assms(2) by (auto simp: filter_filter_mset intro!: filter_mset_cong)
  show ?thesis using multiset_filter_mono [OF assms(1), of "\<lambda>p. now - width < snd p"] unfolding f [of xs] f [of ys] .
qed

lemma window_ok_try:
  assumes ok: "window_ok T (w, log)" and T: "T \<le> now" and m: "may_try m w" and e: "attempt m now w = (b, w')"
  shows "window_ok now (w', if b then log @ [(m, now)] else log)"
proof -
  let ?log = "if b then log @ [(m, now)] else log" and ?r = "\<lambda>p. now - width < snd p"
  have le: "\<forall>p \<in> set log. snd p \<le> now" using ok T by (auto simp: window_ok_def)
  have "mset (filter ?r log) \<subseteq># mset (filter ?r (recorded w))"
    by (rule filter_mset_later [OF _ T]) (use ok in \<open>simp add: window_ok_def\<close>)
  then have "mset (filter ?r log) + (if b then {#(m, now)#} else {#}) \<subseteq># mset (filter ?r (recorded w'))"
    using subset_mset.trans [OF _ remembers [OF m e]] by (simp add: subset_mset.add_right_mono)
  moreover have "mset (filter ?r ?log) \<subseteq># mset (filter ?r log) + (if b then {#(m, now)#} else {#})" by simp
  ultimately have sub: "mset (filter ?r ?log) \<subseteq># mset (filter ?r (recorded w'))" by (rule subset_mset.trans [rotated])
  have "length (filter (\<lambda>p. a < snd p \<and> snd p \<le> a + width) ?log) \<le> limit" for a
  proof (cases "b \<and> a < now \<and> now \<le> a + width")
    case True
    have "length (filter (\<lambda>p. a < snd p \<and> snd p \<le> a + width) ?log) \<le> length (filter ?r ?log)"
      using True by (intro length_filter_mono) auto
    also have "\<dots> \<le> length (filter ?r (recorded w'))" using size_mset_mono [OF sub] by (simp only: size_mset)
    also have "\<dots> \<le> limit" using admits_within [OF m, of now w'] e True by simp
    finally show ?thesis .
  next
    case False
    then show ?thesis using ok by (auto simp: window_ok_def)
  qed
  then show ?thesis using le sub by (auto simp: window_ok_def)
qed

lemma window_ok_forget:
  assumes ok: "window_ok T (w, log)" and m: "may_forget m w"
  shows "window_ok T (forget m w, filter (\<lambda>p. fst p \<noteq> m) log)"
proof -
  let ?r = "\<lambda>p. T - width < snd p" and ?k = "\<lambda>p. fst p \<noteq> m"
  have "mset (filter ?k (filter ?r log)) \<subseteq># mset (filter ?k (filter ?r (recorded w)))"
    using multiset_filter_mono [of "mset (filter ?r log)" "mset (filter ?r (recorded w))" ?k] ok
    by (simp add: window_ok_def filter_filter_mset)
  also have "\<dots> = mset (filter ?r (filter ?k (recorded w)))" by (simp add: filter_filter conj_commute)
  also have "\<dots> \<subseteq># mset (filter ?r (recorded (forget m w)))"
    using multiset_filter_mono [OF forgets_only [OF m], of ?r] by (simp add: filter_filter_mset)
  finally have "mset (filter ?r (filter ?k log)) \<subseteq># mset (filter ?r (recorded (forget m w)))"
    by (simp add: filter_filter conj_commute)
  moreover have "length (filter (\<lambda>p. a < snd p \<and> snd p \<le> a + width) (filter ?k log)) \<le> limit" for a
  proof -
    have "length (filter (\<lambda>p. a < snd p \<and> snd p \<le> a + width) (filter ?k log))
        \<le> length (filter (\<lambda>p. a < snd p \<and> snd p \<le> a + width) log)"
      by (simp add: filter_filter) (rule length_filter_mono, simp)
    also have "\<dots> \<le> limit" using ok by (simp add: window_ok_def)
    finally show ?thesis .
  qed
  ultimately show ?thesis using ok by (auto simp: window_ok_def)
qed

text \<open>No interval of the window's width holds more than \<open>limit\<close> admissions.\<close>

lemma run_within:
  assumes "legal T ops s" "window_ok T s"
  shows "length (filter (\<lambda>p. a < snd p \<and> snd p \<le> a + width) (snd (run ops s))) \<le> limit"
  using assms
proof (induction T ops s rule: legal.induct)
  case (1 T s)
  then show ?case by (simp add: run_def window_ok_def)
next
  case (2 T m now ops s)
  obtain w log b w' where s: "s = (w, log)" and e: "attempt m now w = (b, w')" by (metis surj_pair)
  have "window_ok now (wstep (Try m now) s)" using window_ok_try [of T w log now m b w'] 2(2,3) s e by simp
  then show ?case using 2 by (simp add: run_def)
next
  case (3 T m ops s)
  obtain w log where s: "s = (w, log)" by (metis surj_pair)
  have "window_ok T (wstep (Forget m) s)" using window_ok_forget 3(2,3) s by simp
  then show ?case using 3 by (simp add: run_def)
qed

end

end
