(* ===== verification/Sentinel_Limiter.thy ===== *)
theory Sentinel_Limiter
  imports Sliding_Window
begin

text \<open>
  \<open>gateway.middleware.rate_limit\<close> of Sentinel: the Redis admission with its three tiers and its
  stream counter, the in-process limiter it falls back to, the team-limit cache and the release
  of a stream slot. Clocks are integers: milliseconds for Redis scores, microseconds for the
  process's monotonic clock. Redis is the record \<open>redis\<close> of sorted sets (with the time each
  key expires) and counters; one MULTI/EXEC block or one command is one atomic step.
\<close>

section \<open>Settings\<close>

record limit_settings =
  ls_rpm :: int
  ls_burst :: int
  ls_max_streams :: int

section \<open>The in-process limiter\<close>

text \<open>The module's dictionaries: the deques of admission times and the stream counters.\<close>

record local_state =
  lw_key :: "string \<Rightarrow> int list option"
  lw_tenant :: "string \<Rightarrow> int list option"
  lw_streams :: "string \<Rightarrow> int option"

abbreviation us :: int where "us \<equiv> 1000000"

definition evict_old_entries :: "int \<Rightarrow> int list \<Rightarrow> int list" where
  "evict_old_entries now w = dropWhile (\<lambda>t. t < now - 60 * us) w"

definition prune_empty_windows :: "int \<Rightarrow> local_state \<Rightarrow> local_state" where
  "prune_empty_windows now s =
     (let prune = (\<lambda>m k. case m k of None \<Rightarrow> None
            | Some w \<Rightarrow> (let w' = evict_old_entries now w in if w' = [] then None else Some w')) in
      s\<lparr>lw_key := prune (lw_key s), lw_tenant := prune (lw_tenant s)\<rparr>)"

definition window_of :: "(string \<Rightarrow> int list option) \<Rightarrow> string \<Rightarrow> int list" where
  "window_of m k = (case m k of None \<Rightarrow> [] | Some w \<Rightarrow> w)"

text \<open>A check answers with the limit, what remains and the reset time, or refuses with the
  seconds to wait. \<open>now'\<close> is the second reading of the clock, by the pruning.\<close>

datatype verdict = Admitted int int int | Limited int

definition over_window :: "limit_settings \<Rightarrow> int \<Rightarrow> int list \<Rightarrow> bool" where
  "over_window st now w \<longleftrightarrow> int (length w) \<ge> ls_rpm st
     \<or> int (length (filter (\<lambda>t. t \<ge> now - us) w)) \<ge> ls_burst st"

definition legacy_check_rate_limit ::
  "limit_settings \<Rightarrow> string \<Rightarrow> string \<Rightarrow> bool \<Rightarrow> int \<Rightarrow> int \<Rightarrow> int \<Rightarrow> local_state \<Rightarrow> verdict \<times> local_state" where
  "legacy_check_rate_limit st vk tenant is_stream now now' epoch s =
     (let kw = evict_old_entries now (window_of (lw_key s) vk);
          tw = evict_old_entries now (window_of (lw_tenant s) tenant);
          s1 = s\<lparr>lw_key := (lw_key s)(vk \<mapsto> kw), lw_tenant := (lw_tenant s)(tenant \<mapsto> tw)\<rparr> in
      if over_window st now kw \<or> over_window st now tw then
        (let oldest = min (if kw = [] then now else hd kw) (if tw = [] then now else hd tw) in
         (Limited (max 1 ((60 * us - (now - oldest)) div us + 1)), s1))
      else
        (let streams = (case lw_streams s1 tenant of None \<Rightarrow> 0 | Some n \<Rightarrow> n) in
         if is_stream \<and> streams \<ge> ls_max_streams st then (Limited 5, s1)
         else
           (let s2 = (if is_stream then s1\<lparr>lw_streams := (lw_streams s1)(tenant \<mapsto> streams + 1)\<rparr> else s1);
                s3 = s2\<lparr>lw_key := (lw_key s2)(vk \<mapsto> kw @ [now]), lw_tenant := (lw_tenant s2)(tenant \<mapsto> tw @ [now])\<rparr>;
                s4 = prune_empty_windows now' s3 in
            (Admitted (ls_rpm st) (max 0 (ls_rpm st - int (length (evict_old_entries now' (kw @ [now]))))) (epoch + 60), s4))))"

section \<open>Redis\<close>

type_synonym zset = "(string \<times> int) list"

record redis =
  rd_zsets :: "string \<Rightarrow> (zset \<times> int) option" \<comment> \<open>members with scores, and when the key expires\<close>
  rd_counters :: "string \<Rightarrow> int option"

definition zget :: "int \<Rightarrow> string \<Rightarrow> redis \<Rightarrow> zset" where
  "zget now key r = (case rd_zsets r key of None \<Rightarrow> [] | Some (z, e) \<Rightarrow> if e \<le> now then [] else z)"

definition WINDOW_MS :: int where "WINDOW_MS = 60000"
definition BURST_MS :: int where "BURST_MS = 1000"
definition EXPIRE_S :: int where "EXPIRE_S = 61"

definition zmember :: "int \<Rightarrow> string \<Rightarrow> string" where
  "zmember now uid = dec_int now @ '':'' @ uid"

text \<open>The pipeline on one sorted set: evict, add, count twice.\<close>

definition admit_zset :: "int \<Rightarrow> int \<Rightarrow> string \<Rightarrow> int \<Rightarrow> zset \<Rightarrow> bool \<times> zset" where
  "admit_zset rpm burst member now z =
     (let z1 = filter (\<lambda>p. \<not> snd p \<le> now - WINDOW_MS) z;
          z2 = filter (\<lambda>p. fst p \<noteq> member) z1 @ [(member, now)];
          rpm_count = int (length z2);
          burst_count = int (length (filter (\<lambda>p. now - BURST_MS \<le> snd p \<and> snd p \<le> now) z2)) in
      (rpm_count \<le> rpm \<and> burst_count \<le> burst, z2))"

definition redis_admit_tier :: "int \<Rightarrow> string \<Rightarrow> string \<Rightarrow> int \<Rightarrow> int \<Rightarrow> redis \<Rightarrow> (bool \<times> string) \<times> redis" where
  "redis_admit_tier now uid key rpm burst r =
     (let (ok, z) = admit_zset rpm burst (zmember now uid) now (zget now key r) in
      ((ok, zmember now uid), r\<lparr>rd_zsets := (rd_zsets r)(key \<mapsto> (z, now + 1000 * EXPIRE_S))\<rparr>))"

definition zrem :: "string \<Rightarrow> zset \<Rightarrow> zset" where
  "zrem member z = filter (\<lambda>p. fst p \<noteq> member) z"

definition redis_zrem :: "string \<times> string \<Rightarrow> redis \<Rightarrow> redis" where
  "redis_zrem km r = (case rd_zsets r (fst km) of
     None \<Rightarrow> r
   | Some (z, e) \<Rightarrow> r\<lparr>rd_zsets := (rd_zsets r)(fst km \<mapsto> (zrem (snd km) z, e))\<rparr>)"

text \<open>The compensating removals; a failing one is logged and skipped.\<close>

fun compensate_members :: "(string \<times> string \<Rightarrow> bool) \<Rightarrow> (string \<times> string) list \<Rightarrow> redis \<Rightarrow> redis" where
  "compensate_members lost [] r = r"
| "compensate_members lost (km # kms) r = compensate_members lost kms (if lost km then r else redis_zrem km r)"

section \<open>Team limits\<close>

text \<open>The cache of \<open>team_rpm_limit\<close> by tenant and team, with expiry; a lookup in the database may
  fail with a connectivity error, which is not cached.\<close>

type_synonym team_cache = "string \<times> string \<Rightarrow> (int option \<times> int) option"

definition team_rpm_limit_cached :: "int \<Rightarrow> string \<times> string \<Rightarrow> team_cache \<Rightarrow> int option option \<times> team_cache" where
  "team_rpm_limit_cached mt k c =
     (case c k of
        None \<Rightarrow> (None, c)
      | Some (limit, expiry) \<Rightarrow> if mt > expiry then (None, c(k := None)) else (Some limit, c))"

definition team_rpm_limit :: "int \<Rightarrow> int \<Rightarrow> int option option \<Rightarrow> string \<times> string \<Rightarrow> team_cache \<Rightarrow> int option \<times> team_cache" where
  "team_rpm_limit mt mt' db k c =
     (case team_rpm_limit_cached mt k c of
        (Some limit, c1) \<Rightarrow> (limit, c1)
      | (None, c1) \<Rightarrow>
          (case db of
             None \<Rightarrow> (None, c1)
           | Some limit \<Rightarrow> (limit, c1(k \<mapsto> (limit, mt' + 60 * us)))))"

text \<open>The synchronous read of the cache alone, and the direct entry into it.\<close>

definition get_team_rpm_limit :: "int \<Rightarrow> string \<times> string \<Rightarrow> team_cache \<Rightarrow> int option \<times> team_cache" where
  "get_team_rpm_limit mt k c = (case team_rpm_limit_cached mt k c of (None, c1) \<Rightarrow> (None, c1) | (Some limit, c1) \<Rightarrow> (limit, c1))"

definition set_team_rpm_limit :: "int \<Rightarrow> string \<times> string \<Rightarrow> int option \<Rightarrow> team_cache \<Rightarrow> team_cache" where
  "set_team_rpm_limit mt k limit c = c(k \<mapsto> (limit, mt + 60 * us))"

section \<open>The admission\<close>

record rl_request =
  rq_vk :: string
  rq_tenant :: string
  rq_team :: "string option"
  rq_stream :: bool

text \<open>The environment of one admission: the clock at each step, the ids drawn, the answer of the
  database, and which Redis command fails with a connection or timeout error (named by its
  class), before or after it took effect. A lost compensation is \<open>re_lost\<close>.\<close>

datatype cmd_fault = Works | Fails_before string | Fails_after string

record rl_env =
  re_ms :: "nat \<Rightarrow> int"
  re_uid :: "nat \<Rightarrow> string"
  re_cmd :: "nat \<Rightarrow> cmd_fault"
  re_lost :: "string \<times> string \<Rightarrow> bool"
  re_mono :: int
  re_mono' :: int
  re_db :: "int option option"
  re_zcount_fails :: "nat \<Rightarrow> bool"
  re_epoch :: int

definition vk_key :: "rl_request \<Rightarrow> string" where "vk_key q = ''sentinel:rl:vk:'' @ rq_vk q"
definition tenant_key :: "rl_request \<Rightarrow> string" where "tenant_key q = ''sentinel:rl:tenant:'' @ rq_tenant q"
definition team_key :: "rl_request \<Rightarrow> string \<Rightarrow> string" where "team_key q team = ''sentinel:rl:team:'' @ rq_tenant q @ '':'' @ team"
definition stream_key :: "string \<Rightarrow> string" where "stream_key tenant = ''sentinel:rl:streams:'' @ tenant"

text \<open>One Redis step under its fault: \<open>Inl\<close> is the connection error.\<close>

definition faulty :: "cmd_fault \<Rightarrow> ('a \<times> redis) \<Rightarrow> redis \<Rightarrow> (string + 'a) \<times> redis" where
  "faulty f res r = (case f of Works \<Rightarrow> (Inr (fst res), snd res) | Fails_before e \<Rightarrow> (Inl e, r) | Fails_after e \<Rightarrow> (Inl e, snd res))"

definition counter :: "string \<Rightarrow> redis \<Rightarrow> int" where
  "counter k r = (case rd_counters r k of None \<Rightarrow> 0 | Some n \<Rightarrow> n)"

definition incrby :: "int \<Rightarrow> string \<Rightarrow> redis \<Rightarrow> int \<times> redis" where
  "incrby n k r = (counter k r + n, r\<lparr>rd_counters := (rd_counters r)(k \<mapsto> counter k r + n)\<rparr>)"

text \<open>The commands on a tenant's stream counter, and the cap.\<close>

definition slot_incr :: "string \<Rightarrow> redis \<Rightarrow> int \<times> redis" where "slot_incr tenant r = incrby 1 (stream_key tenant) r"
definition slot_decr :: "string \<Rightarrow> redis \<Rightarrow> int \<times> redis" where "slot_decr tenant r = incrby (- 1) (stream_key tenant) r"
definition slot_over :: "limit_settings \<Rightarrow> int \<Rightarrow> bool" where "slot_over st current \<longleftrightarrow> current > ls_max_streams st"

definition zcount :: "int \<Rightarrow> string \<Rightarrow> redis \<Rightarrow> int" where
  "zcount now key r = int (length (filter (\<lambda>p. now - WINDOW_MS \<le> snd p \<and> snd p \<le> now) (zget now key r)))"

definition remaining_after :: "limit_settings \<Rightarrow> rl_request \<Rightarrow> rl_env \<Rightarrow> int option \<Rightarrow> redis \<Rightarrow> int" where
  "remaining_after st q env team_rpm r =
     (let now = re_ms env 4;
          rem_vk = max 0 (ls_rpm st - (if re_zcount_fails env 0 then 0 else zcount now (vk_key q) r)) in
      case (team_rpm, rq_team q) of
        (Some lim, Some team) \<Rightarrow>
          min rem_vk (max 0 (lim - (if re_zcount_fails env 1 then 0 else zcount now (team_key q team) r)))
      | _ \<Rightarrow> rem_vk)"

text \<open>What follows the team tier: the tenant tier, the stream counter and the answer.
  \<open>Inl\<close> means a connection error that the caller turns into the fallback.\<close>

definition finish_admission ::
  "limit_settings \<Rightarrow> rl_request \<Rightarrow> rl_env \<Rightarrow> int option \<Rightarrow> (string \<times> string) list \<Rightarrow> redis \<Rightarrow> (string + verdict) \<times> redis" where
  "finish_admission st q env team_rpm held r =
     (case faulty (re_cmd env 2) (redis_admit_tier (re_ms env 2) (re_uid env 2) (tenant_key q) (ls_rpm st) (ls_burst st) r) r of
        (Inl u, r1) \<Rightarrow> (Inl u, r1)
      | (Inr (ok, member), r1) \<Rightarrow>
          if \<not> ok then (Inr (Limited 60), compensate_members (re_lost env) held r1)
          else
            (let held' = held @ [(tenant_key q, member)];
                 done_ok = (\<lambda>x. (Inr (Admitted (ls_rpm st) (remaining_after st q env team_rpm x) (re_epoch env + 60)), x)) in
             if rq_stream q then
               (case faulty (re_cmd env 3) (slot_incr (rq_tenant q) r1) r1 of
                  (Inl u, r2) \<Rightarrow> (Inl u, r2)
                | (Inr current, r2) \<Rightarrow>
                    if slot_over st current then
                      (case faulty (re_cmd env 4) (slot_decr (rq_tenant q) r2) r2 of
                         (Inl u, r3) \<Rightarrow> (Inl u, r3)
                       | (Inr _, r3) \<Rightarrow> (Inr (Limited 5), compensate_members (re_lost env) held' r3))
                    else done_ok r2)
             else done_ok r1))"

definition run_redis_admission ::
  "limit_settings \<Rightarrow> rl_request \<Rightarrow> rl_env \<Rightarrow> team_cache \<Rightarrow> redis \<Rightarrow> (string + verdict) \<times> team_cache \<times> redis" where
  "run_redis_admission st q env c r =
     (case faulty (re_cmd env 0) (redis_admit_tier (re_ms env 0) (re_uid env 0) (vk_key q) (ls_rpm st) (ls_burst st) r) r of
        (Inl u, r1) \<Rightarrow> (Inl u, c, r1)
      | (Inr (ok, member), r1) \<Rightarrow>
          if \<not> ok then (Inr (Limited 60), c, r1)
          else
            (let held = [(vk_key q, member)] in
             case rq_team q of
               None \<Rightarrow> (case finish_admission st q env None held r1 of (v, r2) \<Rightarrow> (v, c, r2))
             | Some team \<Rightarrow>
                 (case team_rpm_limit (re_mono env) (re_mono' env) (re_db env) (rq_tenant q, team) c of
                    (None, c1) \<Rightarrow> (case finish_admission st q env None held r1 of (v, r2) \<Rightarrow> (v, c1, r2))
                  | (Some lim, c1) \<Rightarrow>
                      (case faulty (re_cmd env 1) (redis_admit_tier (re_ms env 1) (re_uid env 1) (team_key q team) lim (ls_burst st) r1) r1 of
                         (Inl u, r2) \<Rightarrow> (Inl u, c1, r2)
                       | (Inr (ok2, member2), r2) \<Rightarrow>
                           if \<not> ok2 then (Inr (Limited 60), c1, compensate_members (re_lost env) held r2)
                           else (case finish_admission st q env (Some lim) (held @ [(team_key q team, member2)]) r2 of
                                   (v, r3) \<Rightarrow> (v, c1, r3))))))"

section \<open>The entry point and the release of a slot\<close>

text \<open>The state of a worker: its own limiter and cache, the shared Redis (absent when the pool is
  not initialised), whether it considers Redis down, and the debouncing of the two audit events
  of an outage with the emissions attempted so far (event type, error class).\<close>

record limiter =
  lm_local :: local_state
  lm_cache :: team_cache
  lm_redis :: redis
  lm_pool :: bool
  lm_degraded :: bool
  lm_degraded_emitted :: bool
  lm_classes_emitted :: "string list"
  lm_events :: "(string \<times> string) list"

definition handle_redis_error :: "string \<Rightarrow> limiter \<Rightarrow> limiter" where
  "handle_redis_error cls s =
     (let s1 = s\<lparr>lm_degraded := True\<rparr>;
          s2 = (if \<not> lm_degraded_emitted s1
                then s1\<lparr>lm_degraded_emitted := True, lm_events := lm_events s1 @ [(''rate_limit_degraded'', cls)]\<rparr> else s1) in
      if cls \<notin> set (lm_classes_emitted s2)
      then s2\<lparr>lm_classes_emitted := cls # lm_classes_emitted s2, lm_events := lm_events s2 @ [(''rate_limit_redis_error'', cls)]\<rparr>
      else s2)"

definition mark_recovered :: "limiter \<Rightarrow> limiter" where
  "mark_recovered s = s\<lparr>lm_degraded_emitted := False, lm_classes_emitted := []\<rparr>"

text \<open>One turn of the background health loop; \<open>ping\<close> is the class of the ping's error, if any.\<close>

definition health_tick :: "string option \<Rightarrow> limiter \<Rightarrow> limiter" where
  "health_tick ping s =
     (case (if lm_pool s then ping else Some ''ConnectionError'') of
        None \<Rightarrow>
          if lm_degraded s
          then (let s1 = mark_recovered (s\<lparr>lm_degraded := False\<rparr>) in
                s1\<lparr>lm_events := lm_events s1 @ [(''rate_limit_recovered'', [])]\<rparr>)
          else s
      | Some cls \<Rightarrow>
          if lm_degraded s then s
          else s\<lparr>lm_degraded := True, lm_events := lm_events s @ [(''rate_limit_degraded'', cls)]\<rparr>)"

definition redis_primary_check ::
  "limit_settings \<Rightarrow> rl_request \<Rightarrow> rl_env \<Rightarrow> limiter \<Rightarrow> (string + verdict) \<times> limiter" where
  "redis_primary_check st q env s =
     (if \<not> lm_pool s then (Inl ''ConnectionError'', s)
      else case run_redis_admission st q env (lm_cache s) (lm_redis s) of
             (v, c, r) \<Rightarrow> (v, s\<lparr>lm_cache := c, lm_redis := r\<rparr>))"

definition check_rate_limit ::
  "limit_settings \<Rightarrow> rl_request \<Rightarrow> rl_env \<Rightarrow> int \<Rightarrow> int \<Rightarrow> limiter \<Rightarrow> verdict \<times> limiter" where
  "check_rate_limit st q env now now' s =
     (let fallback = (\<lambda>s. let (v, l) = legacy_check_rate_limit st (rq_vk q) (rq_tenant q) (rq_stream q) now now' (re_epoch env) (lm_local s)
                          in (v, s\<lparr>lm_local := l\<rparr>)) in
      if lm_degraded s then fallback s
      else
        (case redis_primary_check st q env s of
           (Inr v, s') \<Rightarrow> (v, s')
         | (Inl cls, s') \<Rightarrow> fallback (handle_redis_error cls s')))"

definition release_local :: "string \<Rightarrow> local_state \<Rightarrow> local_state" where
  "release_local tenant s =
     (let n = max 0 ((case lw_streams s tenant of None \<Rightarrow> 1 | Some n \<Rightarrow> n) - 1) in
      s\<lparr>lw_streams := (lw_streams s)(tenant := (if n = 0 then None else Some n))\<rparr>)"

text \<open>Leaving \<open>stream_slot\<close>: DECR, and a separate DELETE when the counter reached zero. A failing
  Redis command is logged and skipped; \<open>others\<close> is what the other workers do to Redis between
  the two commands.\<close>

definition release_slot :: "cmd_fault \<Rightarrow> cmd_fault \<Rightarrow> (redis \<Rightarrow> redis) \<Rightarrow> string \<Rightarrow> limiter \<Rightarrow> limiter" where
  "release_slot f g others tenant s =
     (if lm_degraded s \<or> \<not> lm_pool s then s\<lparr>lm_local := release_local tenant (lm_local s)\<rparr>
      else
        (case faulty f (slot_decr tenant (lm_redis s)) (lm_redis s) of
           (Inl _, r) \<Rightarrow> s\<lparr>lm_redis := r\<rparr>
         | (Inr val, r) \<Rightarrow>
             if val \<le> 0
             then (let r' = others r in
                   s\<lparr>lm_redis := snd (faulty g ((), r'\<lparr>rd_counters := (rd_counters r')(stream_key tenant := None)\<rparr>) r')\<rparr>)
             else s\<lparr>lm_redis := r\<rparr>))"

section \<open>Commands of many workers\<close>

text \<open>What concurrent requests send to Redis, command by command: the admission block of a tier
  (key, time, drawn id, limits) and a compensating removal. \<open>exec_cmd\<close> keeps the log of the
  admissions granted and not taken back (key, member, time).\<close>

datatype redis_cmd = Tier string int string int int | Zrem string string

type_synonym grant = "string \<times> string \<times> int"

fun exec_cmd :: "redis_cmd \<Rightarrow> redis \<times> grant list \<Rightarrow> redis \<times> grant list" where
  "exec_cmd (Tier key now uid rpm burst) (r, log) =
     (case redis_admit_tier now uid key rpm burst r of
        ((ok, member), r') \<Rightarrow> (r', if ok then log @ [(key, member, now)] else log))"
| "exec_cmd (Zrem key member) (r, log) =
     (redis_zrem (key, member) r, filter (\<lambda>g. (fst g, fst (snd g)) \<noteq> (key, member)) log)"

fun exec_cmds :: "redis_cmd list \<Rightarrow> redis \<times> grant list \<Rightarrow> redis \<times> grant list" where
  "exec_cmds [] s = s"
| "exec_cmds (c # cs) s = exec_cmds cs (exec_cmd c s)"

fun cmd_times :: "redis_cmd list \<Rightarrow> int list" where
  "cmd_times [] = []"
| "cmd_times (Tier key now uid rpm burst # cs) = now # cmd_times cs"
| "cmd_times (Zrem key member # cs) = cmd_times cs"

fun cmd_members :: "redis_cmd list \<Rightarrow> string list" where
  "cmd_members [] = []"
| "cmd_members (Tier key now uid rpm burst # cs) = zmember now uid # cmd_members cs"
| "cmd_members (Zrem key member # cs) = cmd_members cs"

fun cmd_limits :: "string \<Rightarrow> int \<Rightarrow> int \<Rightarrow> redis_cmd \<Rightarrow> bool" where
  "cmd_limits key rpm burst (Tier k now uid n b) \<longleftrightarrow> (k = key \<longrightarrow> n = rpm \<and> b = burst)"
| "cmd_limits key rpm burst (Zrem k member) \<longleftrightarrow> True"

end
