(* ===== verification/Limiter_Local.thy ===== *)
theory Limiter_Local
  imports Sentinel_Limiter
begin

text \<open>
  The in-process limiter against its specification: a limiter that keeps every admission for
  ever and counts the recent ones. Eviction and the pruning of empty windows cannot be
  observed, and no minute holds more admissions of a key or a tenant than the limit.
\<close>

section \<open>The specification\<close>

record admission_history =
  hs_key :: "string \<Rightarrow> int list"
  hs_tenant :: "string \<Rightarrow> int list"
  hs_streams :: "string \<Rightarrow> int"

definition recent :: "int \<Rightarrow> int list \<Rightarrow> int list" where
  "recent now h = filter (\<lambda>t. now - 60 * us \<le> t) h"

definition history_check ::
  "limit_settings \<Rightarrow> string \<Rightarrow> string \<Rightarrow> bool \<Rightarrow> int \<Rightarrow> int \<Rightarrow> int \<Rightarrow> admission_history \<Rightarrow> verdict \<times> admission_history" where
  "history_check st vk tenant is_stream now now' epoch h =
     (let kw = recent now (hs_key h vk); tw = recent now (hs_tenant h tenant) in
      if over_window st now kw \<or> over_window st now tw then
        (Limited (max 1 ((60 * us - (now - Min (set (now # kw @ tw)))) div us + 1)), h)
      else if is_stream \<and> hs_streams h tenant \<ge> ls_max_streams st then (Limited 5, h)
      else
        (Admitted (ls_rpm st) (max 0 (ls_rpm st - int (length (recent now' (hs_key h vk @ [now]))))) (epoch + 60),
         h\<lparr>hs_key := (hs_key h)(vk := hs_key h vk @ [now]), hs_tenant := (hs_tenant h)(tenant := hs_tenant h tenant @ [now]),
           hs_streams := (hs_streams h)(tenant := hs_streams h tenant + (if is_stream then 1 else 0))\<rparr>))"

text \<open>A run of the worker: checks, with the two readings of the monotonic clock, and releases.\<close>

datatype local_op = Check string string bool int int int | Release string

fun local_run :: "limit_settings \<Rightarrow> local_op list \<Rightarrow> local_state \<Rightarrow> verdict list \<times> local_state" where
  "local_run st [] s = ([], s)"
| "local_run st (Check vk tenant is_stream now now' epoch # ops) s =
     (let (v, s1) = legacy_check_rate_limit st vk tenant is_stream now now' epoch s; (vs, s2) = local_run st ops s1 in (v # vs, s2))"
| "local_run st (Release tenant # ops) s = local_run st ops (release_local tenant s)"

fun history_run :: "limit_settings \<Rightarrow> local_op list \<Rightarrow> admission_history \<Rightarrow> verdict list \<times> admission_history" where
  "history_run st [] h = ([], h)"
| "history_run st (Check vk tenant is_stream now now' epoch # ops) h =
     (let (v, h1) = history_check st vk tenant is_stream now now' epoch h; (vs, h2) = history_run st ops h1 in (v # vs, h2))"
| "history_run st (Release tenant # ops) h =
     history_run st ops (h\<lparr>hs_streams := (hs_streams h)(tenant := max 0 (hs_streams h tenant - 1))\<rparr>)"

fun op_clocks :: "local_op list \<Rightarrow> int list" where
  "op_clocks [] = []"
| "op_clocks (Check vk tenant is_stream now now' epoch # ops) = now # now' # op_clocks ops"
| "op_clocks (Release tenant # ops) = op_clocks ops"

definition no_local :: local_state where
  "no_local = \<lparr>lw_key = Map.empty, lw_tenant = Map.empty, lw_streams = Map.empty\<rparr>"

definition no_history :: admission_history where
  "no_history = \<lparr>hs_key = (\<lambda>_. []), hs_tenant = (\<lambda>_. []), hs_streams = (\<lambda>_. 0)\<rparr>"

section \<open>Windows\<close>

lemma evict_evict: "a \<le> b \<Longrightarrow> evict_old_entries b (evict_old_entries a w) = evict_old_entries b w"
  unfolding evict_old_entries_def by (induction w) auto

lemma evict_sorted: "sorted h \<Longrightarrow> evict_old_entries now h = recent now h"
  unfolding evict_old_entries_def recent_def
proof (induction h)
  case (Cons x h)
  then show ?case by (auto intro!: filter_True [symmetric])
qed simp

lemma recent_recent: "a \<le> b \<Longrightarrow> recent b (recent a h) = recent b h"
  unfolding recent_def by (induction h) auto

lemma sorted_recent: "sorted h \<Longrightarrow> sorted (recent now h)"
  by (simp add: recent_def sorted_wrt_filter)

text \<open>A window agrees with a history from time \<open>T\<close> on.\<close>

definition agrees :: "int \<Rightarrow> int list \<Rightarrow> int list \<Rightarrow> bool" where
  "agrees T w h \<longleftrightarrow> sorted h \<and> (\<forall>t \<in> set h. t \<le> T) \<and> (\<forall>now \<ge> T. evict_old_entries now w = recent now h)"

lemma agrees_later: "agrees T w h \<Longrightarrow> T \<le> T' \<Longrightarrow> agrees T' w h"
  by (fastforce simp: agrees_def)

lemma agrees_evict: "agrees T w h \<Longrightarrow> T \<le> now \<Longrightarrow> agrees now (evict_old_entries now w) h"
  unfolding agrees_def using evict_evict [of now _ w] by (metis order_trans)

lemma agrees_append:
  assumes "agrees T w h" "T \<le> now"
  shows "agrees now (evict_old_entries now w @ [now]) (h @ [now])"
proof -
  have s: "sorted h" "\<forall>t \<in> set h. t \<le> now" and e: "evict_old_entries now w = recent now h"
    using assms by (auto simp: agrees_def)
  have "evict_old_entries n (recent now h @ [now]) = recent n (h @ [now])" if "now \<le> n" for n
  proof -
    have "sorted (recent now h @ [now])" using s by (auto simp: sorted_append sorted_recent) (auto simp: recent_def)
    then have "evict_old_entries n (recent now h @ [now]) = recent n (recent now h @ [now])" by (rule evict_sorted)
    also have "\<dots> = recent n (h @ [now])" using recent_recent [OF that, of h] by (simp add: recent_def)
    finally show ?thesis .
  qed
  then show ?thesis using s unfolding agrees_def e by (auto simp: sorted_append)
qed

lemma window_of_prune [simp]:
  "window_of (lw_key (prune_empty_windows now s)) k = evict_old_entries now (window_of (lw_key s) k)"
  "window_of (lw_tenant (prune_empty_windows now s)) k = evict_old_entries now (window_of (lw_tenant s) k)"
  "lw_streams (prune_empty_windows now s) = lw_streams s"
  by (simp_all add: prune_empty_windows_def window_of_def Let_def split: option.splits)
    (auto simp: evict_old_entries_def)

lemma window_of_upd [simp]: "window_of (m(k \<mapsto> w)) k' = (if k' = k then w else window_of m k')"
  by (simp add: window_of_def)

section \<open>Refinement\<close>

definition local_rel :: "int \<Rightarrow> local_state \<Rightarrow> admission_history \<Rightarrow> bool" where
  "local_rel T s h \<longleftrightarrow> (\<forall>k. agrees T (window_of (lw_key s) k) (hs_key h k)) \<and> (\<forall>k. agrees T (window_of (lw_tenant s) k) (hs_tenant h k))
     \<and> (\<forall>k. (case lw_streams s k of None \<Rightarrow> 0 | Some n \<Rightarrow> n) = hs_streams h k)"

lemma oldest_Min:
  assumes "sorted kw" "sorted tw" "\<forall>t \<in> set kw. t \<le> now" "\<forall>t \<in> set tw. t \<le> (now::int)"
  shows "min (if kw = [] then now else hd kw) (if tw = [] then now else hd tw) = Min (set (now # kw @ tw))"
proof -
  have m: "Min (insert now (set xs)) = (if xs = [] then now else hd xs)" if "sorted xs" "\<forall>t \<in> set xs. t \<le> now" for xs
  proof (cases xs)
    case (Cons y ys)
    then show ?thesis using that by (intro Min_eqI) auto
  qed simp
  have "set (now # kw @ tw) = insert now (set kw) \<union> insert now (set tw)" by auto
  then have "Min (set (now # kw @ tw)) = min (Min (insert now (set kw))) (Min (insert now (set tw)))"
    by (simp only:) (rule Min_Un; simp)
  then show ?thesis using m assms by simp
qed

lemma check_refines:
  assumes rel: "local_rel T s h" and t: "T \<le> now" "now \<le> now'"
    and v: "legacy_check_rate_limit st vk tenant is_stream now now' epoch s = (v, s')"
    and hv: "history_check st vk tenant is_stream now now' epoch h = (hv, h')"
  shows "v = hv \<and> local_rel now' s' h'"
proof -
  let ?kw = "recent now (hs_key h vk)" and ?tw = "recent now (hs_tenant h tenant)"
  have ak: "agrees T (window_of (lw_key s) k) (hs_key h k)" and at: "agrees T (window_of (lw_tenant s) k) (hs_tenant h k)" for k
    using rel by (auto simp: local_rel_def)
  have e: "evict_old_entries now (window_of (lw_key s) vk) = ?kw" "evict_old_entries now (window_of (lw_tenant s) tenant) = ?tw"
    using ak [of vk] at [of tenant] t by (auto simp: agrees_def)
  have str: "(case lw_streams s k of None \<Rightarrow> 0 | Some n \<Rightarrow> n) = hs_streams h k" for k using rel by (simp add: local_rel_def)
  have k1: "agrees now' ?kw (hs_key h vk)" "agrees now' ?tw (hs_tenant h tenant)"
    using agrees_later [OF agrees_evict [OF ak [of vk] t(1)] t(2)] agrees_later [OF agrees_evict [OF at [of tenant] t(1)] t(2)] e by auto
  have k2: "agrees now' (evict_old_entries now' (?kw @ [now])) (hs_key h vk @ [now])"
      "agrees now' (evict_old_entries now' (?tw @ [now])) (hs_tenant h tenant @ [now])"
    using agrees_evict [OF agrees_append [OF ak [of vk] t(1)] t(2)] agrees_evict [OF agrees_append [OF at [of tenant] t(1)] t(2)] e by auto
  have k3: "agrees now' (window_of (lw_key s) k) (hs_key h k)" "agrees now' (window_of (lw_tenant s) k) (hs_tenant h k)" for k
    using agrees_later [OF ak, of now'] agrees_later [OF at, of now'] t by auto
  have k4: "agrees now' (evict_old_entries now' (window_of (lw_key s) k)) (hs_key h k)"
      "agrees now' (evict_old_entries now' (window_of (lw_tenant s) k)) (hs_tenant h k)" for k
    using agrees_evict [OF ak, of now'] agrees_evict [OF at, of now'] t by auto
  have old: "min (if ?kw = [] then now else hd ?kw) (if ?tw = [] then now else hd ?tw) = Min (set (now # ?kw @ ?tw))"
    by (rule oldest_Min; insert ak [of vk] at [of tenant] t; simp add: agrees_def sorted_recent; fastforce simp: recent_def)
  have rem: "evict_old_entries now' (?kw @ [now]) = recent now' (hs_key h vk @ [now])"
    using agrees_append [OF ak [of vk] t(1)] t(2) e by (simp add: agrees_def)
  show ?thesis
  proof (cases "over_window st now ?kw \<or> over_window st now ?tw")
    case True
    then show ?thesis using v hv e old k1 k3 str
      by (auto simp: legacy_check_rate_limit_def history_check_def local_rel_def Let_def)
  next
    case False
    show ?thesis
    proof (cases "is_stream \<and> hs_streams h tenant \<ge> ls_max_streams st")
      case True
      then show ?thesis using False v hv e k1 k3 str
        by (auto simp: legacy_check_rate_limit_def history_check_def local_rel_def Let_def)
    next
      case nocap: False
      then show ?thesis using False v hv e k2 k4 str rem
        by (auto simp: legacy_check_rate_limit_def history_check_def local_rel_def Let_def split: if_splits)
    qed
  qed
qed

lemma release_refines:
  assumes "local_rel T s h"
  shows "local_rel T (release_local tenant s) (h\<lparr>hs_streams := (hs_streams h)(tenant := max 0 (hs_streams h tenant - 1))\<rparr>)"
proof -
  have "hs_streams h tenant = 0" if "lw_streams s tenant = None" using assms that unfolding local_rel_def by (metis option.case(1))
  then show ?thesis using assms by (auto simp: local_rel_def release_local_def Let_def split: option.splits)
qed

lemma run_refines:
  assumes "local_rel T s h" "sorted (T # op_clocks ops)"
  shows "fst (local_run st ops s) = fst (history_run st ops h)"
  using assms
proof (induction st ops s arbitrary: h T rule: local_run.induct)
  case (2 st vk tenant is_stream now now' epoch ops s)
  obtain v s1 where v: "legacy_check_rate_limit st vk tenant is_stream now now' epoch s = (v, s1)" by force
  obtain hv h1 where hv: "history_check st vk tenant is_stream now now' epoch h = (hv, h1)" by force
  have c: "v = hv \<and> local_rel now' s1 h1" by (rule check_refines [OF _ _ _ v hv, of T]) (use 2(2,3) in auto)
  then have "fst (local_run st ops s1) = fst (history_run st ops h1)" using 2(1) [OF v [symmetric] refl] 2(3) by auto
  then show ?case using v hv c by (auto split: prod.splits)
next
  case (3 st tenant ops s)
  show ?case using 3(1) [OF release_refines [OF 3(2)]] 3(3) by simp
qed simp

lemma no_local_rel: "local_rel T no_local no_history"
  by (simp add: local_rel_def no_local_def no_history_def agrees_def window_of_def evict_old_entries_def recent_def)

section \<open>No minute holds more than the limit\<close>

text \<open>The history of one key, seen as a window; \<open>m\<close> says whether the rest of the check permits.\<close>

definition admit_history :: "limit_settings \<Rightarrow> bool \<Rightarrow> int \<Rightarrow> int list \<Rightarrow> bool \<times> int list" where
  "admit_history st m now h = (if m \<and> \<not> over_window st now (recent now h) then (True, h @ [now]) else (False, h))"

interpretation hw: window_limiter "admit_history st" "\<lambda>m h. h" "map (Pair True)" "\<lambda>m h. True" "\<lambda>m h. True" "60 * us" "nat (ls_rpm st)"
  for st
proof
  fix m b :: bool and now :: int and h h' :: "int list"
  have "length (filter (\<lambda>p. now - 60 * us < snd p) (map (Pair True) h)) \<le> length (recent now h)"
    unfolding recent_def filter_map length_map by (rule length_filter_mono) auto
  moreover assume "admit_history st m now h = (True, h')"
  ultimately show "length (filter (\<lambda>p. now - 60 * us < snd p) (map (Pair True) h')) \<le> nat (ls_rpm st)"
    by (auto simp: admit_history_def over_window_def split: if_splits)
next
  fix m b :: bool and now :: int and h h' :: "int list"
  assume "admit_history st m now h = (b, h')"
  then show "mset (filter (\<lambda>p. now - 60 * us < snd p) (map (Pair True) h)) + (if b then {#(m, now)#} else {#})
      \<subseteq># mset (filter (\<lambda>p. now - 60 * us < snd p) (map (Pair True) h'))"
    by (auto simp: admit_history_def split: if_splits)
qed (simp add: multiset_filter_subset)

definition history_bounded :: "limit_settings \<Rightarrow> int \<Rightarrow> admission_history \<Rightarrow> bool" where
  "history_bounded st T h \<longleftrightarrow> (\<forall>k. hw.window_ok st T (hs_key h k, map (Pair True) (hs_key h k)))
     \<and> (\<forall>k. hw.window_ok st T (hs_tenant h k, map (Pair True) (hs_tenant h k)))"

lemma admit_history_ok:
  assumes "hw.window_ok st T (w, map (Pair True) w)" "T \<le> now" "now \<le> now'"
  shows "hw.window_ok st now' (snd (admit_history st m now w), map (Pair True) (snd (admit_history st m now w)))"
proof -
  obtain b w' where e: "admit_history st m now w = (b, w')" by force
  have l: "map (Pair True) w' = (if b then map (Pair True) w @ [(m, now)] else map (Pair True) w)"
    using e by (auto simp: admit_history_def split: if_splits)
  have "hw.window_ok st now (w', map (Pair True) w')" unfolding l by (rule hw.window_ok_try [OF assms(1,2) _ e]) simp
  then show ?thesis using hw.window_ok_try [of st now w' "map (Pair True) w'" now' False False w'] assms(3) e
    by (simp add: admit_history_def)
qed

lemma check_keeps_ok:
  assumes "history_bounded st T h" "T \<le> now" "now \<le> now'"
  shows "history_bounded st now' (snd (history_check st vk tenant is_stream now now' epoch h))"
proof -
  define ok where "ok = (\<not> over_window st now (recent now (hs_key h vk)) \<and> \<not> over_window st now (recent now (hs_tenant h tenant))
      \<and> \<not> (is_stream \<and> hs_streams h tenant \<ge> ls_max_streams st))"
  let ?h = "snd (history_check st vk tenant is_stream now now' epoch h)"
  have "hs_key ?h k = snd (admit_history st (ok \<and> k = vk) now (hs_key h k))"
      "hs_tenant ?h k = snd (admit_history st (ok \<and> k = tenant) now (hs_tenant h k))" for k
    by (auto simp: history_check_def admit_history_def ok_def Let_def)
  then show ?thesis using admit_history_ok [OF _ assms(2,3)] assms(1) by (auto simp: history_bounded_def)
qed

lemma run_keeps_ok:
  assumes "history_bounded st T h" "sorted (T # op_clocks ops)"
  shows "\<exists>T'. history_bounded st T' (snd (history_run st ops h))"
  using assms
proof (induction st ops h arbitrary: T rule: history_run.induct)
  case (2 st vk tenant is_stream now now' epoch ops h)
  obtain v h1 where v: "history_check st vk tenant is_stream now now' epoch h = (v, h1)" by force
  have "history_bounded st now' h1" using check_keeps_ok [OF 2(2), of now now' vk tenant is_stream epoch] v 2(3) by simp
  then have "\<exists>T'. history_bounded st T' (snd (history_run st ops h1))" using 2(1) [OF v [symmetric] refl] 2(3) by auto
  then show ?case using v by (auto split: prod.splits)
next
  case (3 st tenant ops h)
  show ?case using 3(1) [of T] 3(2,3) by (simp add: history_bounded_def)
qed auto

lemma history_within:
  assumes "sorted (op_clocks ops)"
  shows "length (filter (\<lambda>t. a < t \<and> t \<le> a + 60 * us) (hs_key (snd (history_run st ops no_history)) k)) \<le> nat (ls_rpm st)
    \<and> length (filter (\<lambda>t. a < t \<and> t \<le> a + 60 * us) (hs_tenant (snd (history_run st ops no_history)) k)) \<le> nat (ls_rpm st)"
proof -
  define T where "T = (case op_clocks ops of [] \<Rightarrow> 0 | t # ts \<Rightarrow> t)"
  have "sorted (T # op_clocks ops)" using assms by (auto simp: T_def split: list.splits)
  moreover have "history_bounded st T no_history" unfolding history_bounded_def no_history_def hw.window_ok_def by simp
  ultimately obtain T' where "history_bounded st T' (snd (history_run st ops no_history))" using run_keeps_ok by blast
  then have "hw.window_ok st T' (hs_key (snd (history_run st ops no_history)) k, map (Pair True) (hs_key (snd (history_run st ops no_history)) k))"
    "hw.window_ok st T' (hs_tenant (snd (history_run st ops no_history)) k, map (Pair True) (hs_tenant (snd (history_run st ops no_history)) k))"
    unfolding history_bounded_def by blast+
  then show ?thesis unfolding hw.window_ok_def by (simp add: filter_map comp_def)
qed

lemma local_run_refines:
  assumes "sorted (op_clocks ops)"
  shows "fst (local_run st ops no_local) = fst (history_run st ops no_history)"
proof -
  define T where "T = (case op_clocks ops of [] \<Rightarrow> 0 | t # ts \<Rightarrow> t)"
  have "sorted (T # op_clocks ops)" using assms by (auto simp: T_def split: list.splits)
  then show ?thesis by (rule run_refines [OF no_local_rel])
qed

end
