(* ===== verification/Limiter_Streams.thy ===== *)
theory Limiter_Streams
  imports Sentinel_Limiter
begin

text \<open>
  The stream counter of a tenant in Redis, command by command: a state is Redis, the number of
  streams in progress, and the number of refused streams whose increment is still to be undone.
\<close>

type_synonym stream_state = "redis \<times> nat \<times> nat"

inductive stream_step :: "limit_settings \<Rightarrow> string \<Rightarrow> stream_state \<Rightarrow> stream_state \<Rightarrow> bool" for st tenant where
  admit: "slot_incr tenant r = (n, r') \<Longrightarrow> \<not> slot_over st n \<Longrightarrow>
    stream_step st tenant (r, held, undo) (r', Suc held, undo)"
| refuse: "slot_incr tenant r = (n, r') \<Longrightarrow> slot_over st n \<Longrightarrow>
    stream_step st tenant (r, held, undo) (r', held, Suc undo)"
| undo: "slot_decr tenant r = (n, r') \<Longrightarrow>
    stream_step st tenant (r, held, Suc undo) (r', held, undo)"
| leave: "lm_redis s = r \<Longrightarrow> \<not> lm_degraded s \<Longrightarrow> lm_pool s \<Longrightarrow> lm_redis (release_slot Works Works id tenant s) = r' \<Longrightarrow>
    stream_step st tenant (r, Suc held, undo) (r', held, undo)"

inductive streams_reach :: "limit_settings \<Rightarrow> string \<Rightarrow> stream_state \<Rightarrow> bool" for st tenant where
  start: "counter (stream_key tenant) r = 0 \<Longrightarrow> streams_reach st tenant (r, 0, 0)"
| step: "streams_reach st tenant s \<Longrightarrow> stream_step st tenant s s' \<Longrightarrow> streams_reach st tenant s'"

lemma counter_incrby: "incrby n k r = (m, r') \<Longrightarrow> m = counter k r + n \<and> counter k r' = counter k r + n"
  by (auto simp: incrby_def counter_def)

text \<open>An undisturbed release takes one off the counter, and deletes it rather than leave zero.\<close>

lemma counter_release:
  assumes "\<not> lm_degraded s" "lm_pool s"
  shows "counter (stream_key tenant) (lm_redis (release_slot Works Works id tenant s)) = max 0 (counter (stream_key tenant) (lm_redis s) - 1)"
  using assms by (auto simp: release_slot_def faulty_def slot_incr_def slot_decr_def incrby_def counter_def Let_def)

lemma streams_exact:
  assumes "streams_reach st tenant s" "0 \<le> ls_max_streams st"
  shows "counter (stream_key tenant) (fst s) = int (fst (snd s)) + int (snd (snd s)) \<and> int (fst (snd s)) \<le> ls_max_streams st"
  using assms
proof (induction rule: streams_reach.induct)
  case (step s s')
  from step(2) show ?case
  proof (cases rule: stream_step.cases)
    case (leave x r r' held undo)
    then show ?thesis using step.IH step.prems counter_release [of x tenant] by auto
  qed (use step.IH step.prems in \<open>auto simp: slot_incr_def slot_decr_def slot_over_def dest!: counter_incrby\<close>)
qed simp

lemma release_lost:
  assumes "lm_degraded s \<or> (lm_pool s \<and> f = Fails_before cls)"
  shows "lm_redis (release_slot f g others tenant s) = lm_redis s"
  using assms by (auto simp: release_slot_def faulty_def)

lemma release_race:
  assumes "\<not> lm_degraded s" "lm_pool s" "counter (stream_key tenant) (lm_redis s) = 1"
  shows "counter (stream_key tenant) (lm_redis (release_slot Works Works (\<lambda>r. snd (slot_incr tenant r)) tenant s)) = 0"
    and "fst (slot_incr tenant (snd (slot_decr tenant (lm_redis s)))) = 1"
  using assms by (auto simp: release_slot_def faulty_def slot_incr_def slot_decr_def incrby_def counter_def Let_def)

end
