(* ===== verification/Policy_Store.thy ===== *)
theory Policy_Store
  imports Usage "HOL-Library.Char_ord" "HOL-Library.List_Lexorder" "HOL-Library.Product_Lexorder"
begin

text \<open>
  Sentinel's policy tables and \<open>PolicyRepository\<close>: \<open>policies\<close> with one current row per policy,
  \<open>policy_versions\<close> with every version received, the audit events of the policy layer and the
  model inventory, with the constraints and the monotonicity trigger of migration 0004. The
  stored payload is the JSON object that \<open>json.loads\<close> reads back.
\<close>

section \<open>Tables\<close>

type_synonym jobject = "(string \<times> json) list"

record policy_row =
  po_id :: string
  po_type :: string
  po_tenant :: string
  po_team :: string
  po_project :: string
  po_agent :: string
  po_version :: int
  po_from :: instant
  po_signature :: string
  po_payload :: jobject

record version_row =
  vr_policy :: string
  vr_version :: int
  vr_type :: string
  vr_tenant :: string
  vr_team :: string
  vr_project :: string
  vr_agent :: string
  vr_from :: instant
  vr_signature :: string
  vr_payload :: jobject

record policy_event =
  pv_type :: string
  pv_tenant :: string
  pv_team :: string
  pv_project :: string
  pv_agent :: string
  pv_request :: string
  pv_action :: string
  pv_policy :: "string option"
  pv_violation :: "string option"
  pv_model :: "string option"

record inventory_row =
  iv_state :: string
  iv_retire_at :: "instant option"

record policy_db =
  pd_tenants :: "string list"
  pd_policies :: "policy_row list"
  pd_versions :: "version_row list"
  pd_events :: "policy_event list"
  pd_inventory :: "string \<times> string \<Rightarrow> inventory_row option"

section \<open>The repository\<close>

datatype policy_error = Policy_value_error | Policy_monotonicity_error | Policy_integrity_error

definition VALID_POLICY_TYPES :: "string list" where
  "VALID_POLICY_TYPES = [''budget_limit'', ''model_allowlist'', ''model_denylist'', ''code_scan'', ''data_lock'', ''model_approval'']"

definition b64url_char :: "char \<Rightarrow> bool" where
  "b64url_char c \<longleftrightarrow> (let n = (of_char c :: nat) in
     (65 \<le> n \<and> n \<le> 90) \<or> (97 \<le> n \<and> n \<le> 122) \<or> (48 \<le> n \<and> n \<le> 57) \<or> n = 95 \<or> n = 45)"

fun jws_segments :: "string \<Rightarrow> string list" where
  "jws_segments [] = [[]]"
| "jws_segments (c # s) = (if c = CHR ''.'' then [] # jws_segments s
     else case jws_segments s of [] \<Rightarrow> [[c]] | p # ps \<Rightarrow> (c # p) # ps)"

text \<open>The pattern's \<open>$\<close> also matches before a final newline.\<close>

definition jws_pattern :: "string \<Rightarrow> bool" where
  "jws_pattern s \<longleftrightarrow>
     (let t = (if s \<noteq> [] \<and> last s = char_of (10::nat) then butlast s else s); ps = jws_segments t in
      length ps = 3 \<and> list_all (\<lambda>p. p \<noteq> [] \<and> list_all b64url_char p) ps)"

definition validate_signature :: "string \<Rightarrow> policy_error + unit" where
  "validate_signature s = bindR (guardR (16 \<le> length s \<and> length s \<le> 4096) Policy_value_error)
     (\<lambda>_. guardR (jws_pattern s) Policy_value_error)"

fun max_opt :: "int list \<Rightarrow> int option" where
  "max_opt [] = None"
| "max_opt (x # xs) = (case max_opt xs of None \<Rightarrow> Some x | Some y \<Rightarrow> Some (max x y))"

definition get_max_version :: "string \<Rightarrow> policy_db \<Rightarrow> int option" where
  "get_max_version pid d = max_opt (map vr_version (filter (\<lambda>r. vr_policy r = pid) (pd_versions d)))"

definition version_fresh :: "string \<Rightarrow> int \<Rightarrow> policy_db \<Rightarrow> bool" where
  "version_fresh pid v d \<longleftrightarrow> (case get_max_version pid d of None \<Rightarrow> True | Some m \<Rightarrow> \<not> v \<le> m)"

definition upsert_policy :: "version_row \<Rightarrow> policy_db \<Rightarrow> policy_error + policy_db" where
  "upsert_policy v d =
     bindR (guardR (vr_type v \<in> set VALID_POLICY_TYPES) Policy_value_error) (\<lambda>_.
     bindR (guardR (1 \<le> vr_version v) Policy_value_error) (\<lambda>_.
     bindR (validate_signature (vr_signature v)) (\<lambda>_.
     bindR (guardR (version_fresh (vr_policy v) (vr_version v) d) Policy_monotonicity_error) (\<lambda>_.
     (let d1 = d\<lparr>pd_versions := pd_versions d @ [v]\<rparr> in
      case List.find (\<lambda>p. po_id p = vr_policy v) (pd_policies d) of
        None \<Rightarrow>
          bindR (guardR (vr_tenant v \<in> set (pd_tenants d)) Policy_integrity_error) (\<lambda>_.
          Inr (d1\<lparr>pd_policies := pd_policies d @ [\<lparr>po_id = vr_policy v, po_type = vr_type v, po_tenant = vr_tenant v,
                 po_team = vr_team v, po_project = vr_project v, po_agent = vr_agent v, po_version = vr_version v,
                 po_from = vr_from v, po_signature = vr_signature v, po_payload = vr_payload v\<rparr>]\<rparr>))
      | Some _ \<Rightarrow>
          Inr (d1\<lparr>pd_policies := update_where (\<lambda>p. po_id p = vr_policy v)
                 (\<lambda>p. p\<lparr>po_version := vr_version v, po_type := vr_type v, po_from := vr_from v,
                       po_signature := vr_signature v, po_payload := vr_payload v\<rparr>) (pd_policies d)\<rparr>))))))"

definition get_active_policies_for_scope :: "string \<Rightarrow> string \<Rightarrow> instant \<Rightarrow> policy_db \<Rightarrow> policy_row list" where
  "get_active_policies_for_scope tenant ptype now d =
     sort_key po_id (filter (\<lambda>p. po_tenant p = tenant \<and> po_type p = ptype \<and> po_from p \<le> now) (pd_policies d))"

definition get_by_id :: "string \<Rightarrow> string \<Rightarrow> policy_db \<Rightarrow> policy_row option" where
  "get_by_id pid caller d = List.find (\<lambda>p. po_id p = pid \<and> po_tenant p = caller) (pd_policies d)"

definition get_versions :: "string \<Rightarrow> policy_db \<Rightarrow> version_row list" where
  "get_versions pid d = sort_key vr_version (filter (\<lambda>v. vr_policy v = pid) (pd_versions d))"

definition list_for_tenant :: "string \<Rightarrow> int \<Rightarrow> nat \<Rightarrow> policy_db \<Rightarrow> policy_error + policy_row list" where
  "list_for_tenant tenant limit offset d =
     bindR (guardR (0 < limit) Policy_value_error) (\<lambda>_.
     Inr (take (nat (min limit 1000)) (drop offset (sort_key (\<lambda>p. (po_type p, po_id p)) (filter (\<lambda>p. po_tenant p = tenant) (pd_policies d))))))"

section \<open>Invariant\<close>

text \<open>Policies are keyed by id, each carries the highest version of its history, and the history
  of a policy is strictly increasing.\<close>

definition versions_of :: "string \<Rightarrow> policy_db \<Rightarrow> int list" where
  "versions_of pid d = map vr_version (filter (\<lambda>r. vr_policy r = pid) (pd_versions d))"

definition store_ok :: "policy_db \<Rightarrow> bool" where
  "store_ok d \<longleftrightarrow> distinct (map po_id (pd_policies d))
     \<and> (\<forall>pid. sorted_wrt (<) (versions_of pid d))
     \<and> (\<forall>p \<in> set (pd_policies d). versions_of (po_id p) d \<noteq> [] \<and> po_version p = last (versions_of (po_id p) d))
     \<and> vr_policy ` set (pd_versions d) \<subseteq> po_id ` set (pd_policies d)"

lemma max_opt_None [simp]: "max_opt xs = None \<longleftrightarrow> xs = []"
  by (cases xs) (auto split: option.splits)

lemma max_opt_Some: "max_opt xs = Some m \<Longrightarrow> m \<in> set xs \<and> (\<forall>x \<in> set xs. x \<le> m)"
  by (induction xs arbitrary: m) (auto split: option.splits simp: max_def)

lemma version_fresh_iff: "version_fresh pid v d \<longleftrightarrow> (\<forall>x \<in> set (versions_of pid d). x < v)"
  unfolding version_fresh_def get_max_version_def versions_of_def [symmetric]
  by (auto split: option.splits dest!: max_opt_Some)

lemma upsert_policy_eq_Inr:
  "upsert_policy v d = Inr d' \<longleftrightarrow>
     vr_type v \<in> set VALID_POLICY_TYPES \<and> 1 \<le> vr_version v \<and> validate_signature (vr_signature v) = Inr ()
     \<and> version_fresh (vr_policy v) (vr_version v) d
     \<and> (if vr_policy v \<in> po_id ` set (pd_policies d)
        then d' = d\<lparr>pd_versions := pd_versions d @ [v], pd_policies := update_where (\<lambda>p. po_id p = vr_policy v)
                 (\<lambda>p. p\<lparr>po_version := vr_version v, po_type := vr_type v, po_from := vr_from v,
                       po_signature := vr_signature v, po_payload := vr_payload v\<rparr>) (pd_policies d)\<rparr>
        else vr_tenant v \<in> set (pd_tenants d) \<and> d' = d\<lparr>pd_versions := pd_versions d @ [v], pd_policies := pd_policies d @
               [\<lparr>po_id = vr_policy v, po_type = vr_type v, po_tenant = vr_tenant v,
                 po_team = vr_team v, po_project = vr_project v, po_agent = vr_agent v, po_version = vr_version v,
                 po_from = vr_from v, po_signature = vr_signature v, po_payload = vr_payload v\<rparr>]\<rparr>)"
proof -
  have f: "List.find (\<lambda>p. po_id p = vr_policy v) (pd_policies d) = None \<longleftrightarrow> vr_policy v \<notin> po_id ` set (pd_policies d)"
    by (simp add: find_eq_None image_iff) metis
  show ?thesis
    by (cases "List.find (\<lambda>p. po_id p = vr_policy v) (pd_policies d)")
      (use f in \<open>auto simp: upsert_policy_def bindR_eq_Inr Let_def\<close>)
qed

lemma versions_of_append: "versions_of pid (d\<lparr>pd_versions := pd_versions d @ [v], pd_policies := ps\<rparr>)
    = versions_of pid d @ (if vr_policy v = pid then [vr_version v] else [])"
  by (simp add: versions_of_def)

lemma upsert_policy_ok:
  assumes "store_ok d" "upsert_policy v d = Inr d'"
  shows "store_ok d'"
proof -
  have fr: "\<forall>x \<in> set (versions_of (vr_policy v) d). x < vr_version v" using assms(2) by (simp add: upsert_policy_eq_Inr version_fresh_iff)
  have vo: "versions_of pid d' = versions_of pid d @ (if vr_policy v = pid then [vr_version v] else [])" for pid
    using assms(2) by (auto simp: upsert_policy_eq_Inr versions_of_append split: if_splits)
  have srt: "sorted_wrt (<) (versions_of pid d')" for pid
    using assms(1) fr unfolding vo by (auto simp: store_ok_def sorted_wrt_append)
  have vs: "pd_versions d' = pd_versions d @ [v]" using assms(2) by (auto simp: upsert_policy_eq_Inr split: if_splits)
  show ?thesis
  proof (cases "vr_policy v \<in> po_id ` set (pd_policies d)")
    case True
    then have ps: "pd_policies d' = update_where (\<lambda>p. po_id p = vr_policy v)
                 (\<lambda>p. p\<lparr>po_version := vr_version v, po_type := vr_type v, po_from := vr_from v,
                       po_signature := vr_signature v, po_payload := vr_payload v\<rparr>) (pd_policies d)"
      using assms(2) by (simp add: upsert_policy_eq_Inr)
    have ids: "map po_id (pd_policies d') = map po_id (pd_policies d)" unfolding ps by (rule map_update_where_frame) simp
    have "po_id ` set (pd_policies d') = po_id ` set (pd_policies d)" using arg_cong [OF ids, of set] by simp
    moreover have "versions_of (po_id p) d' \<noteq> [] \<and> po_version p = last (versions_of (po_id p) d')" if p: "p \<in> set (pd_policies d')" for p
    proof -
      obtain q where q: "q \<in> set (pd_policies d)" "po_id p = po_id q" "po_version p = (if po_id q = vr_policy v then vr_version v else po_version q)"
        using p unfolding ps set_update_where by fastforce
      then have "versions_of (po_id q) d \<noteq> [] \<and> po_version q = last (versions_of (po_id q) d)" using assms(1) by (simp add: store_ok_def)
      then show ?thesis using q by (auto simp: vo)
    qed
    ultimately show ?thesis using assms(1) srt True vs ids unfolding store_ok_def by auto
  next
    case False
    then have ps: "pd_policies d' = pd_policies d @ [\<lparr>po_id = vr_policy v, po_type = vr_type v, po_tenant = vr_tenant v,
                 po_team = vr_team v, po_project = vr_project v, po_agent = vr_agent v, po_version = vr_version v,
                 po_from = vr_from v, po_signature = vr_signature v, po_payload = vr_payload v\<rparr>]"
      using assms(2) by (simp add: upsert_policy_eq_Inr)
    have "versions_of (po_id p) d' \<noteq> [] \<and> po_version p = last (versions_of (po_id p) d')" if p: "p \<in> set (pd_policies d')" for p
    proof (cases "p \<in> set (pd_policies d)")
      case True
      then have "po_id p \<noteq> vr_policy v" using False by (metis imageI)
      then show ?thesis using assms(1) True unfolding vo store_ok_def by simp
    next
      case False
      then have "po_id p = vr_policy v" "po_version p = vr_version v" using p unfolding ps by simp_all
      then show ?thesis by (simp add: vo)
    qed
    moreover have "distinct (map po_id (pd_policies d'))" using assms(1) False by (simp add: store_ok_def ps)
    moreover have "vr_policy ` set (pd_versions d') \<subseteq> po_id ` set (pd_policies d')" using assms(1) unfolding store_ok_def vs ps by auto
    ultimately show ?thesis using srt by (simp add: store_ok_def)
  qed
qed

end
