(* ===== verification/Policy_Enforce.thy ===== *)
theory Policy_Enforce
  imports Policy_Store Periods Complex_Main
begin

text \<open>
  \<open>policy.enforcement\<close> and the typed views of \<open>policy.variants\<close>: scope matching with wildcards,
  specificity, the model decision with its default-deny gate, and the budget ceilings. Reading
  a time string is \<open>datetime.fromisoformat\<close>, the parameter \<open>pdt\<close>; costs are rationals, and \<open>fl\<close>
  is the rounding of a float operation.
\<close>

section \<open>Constants\<close>

definition WILDCARD_UUID :: string where "WILDCARD_UUID = ''00000000-0000-0000-0000-000000000000''"
definition WILDCARD_AGENT :: string where "WILDCARD_AGENT = ''all-agents''"
definition GATEWAY_AGENT :: string where "GATEWAY_AGENT = ''gateway-core''"

section \<open>Views\<close>

record model_view =
  mv_id :: string
  mv_tenant :: string
  mv_team :: string
  mv_project :: string
  mv_agent :: string
  mv_version :: int
  mv_models :: "string list"
  mv_until :: "string option"

text \<open>The fields pydantic reads; the closed schema of the intake has already fixed their types.\<close>

fun json_string :: "json \<Rightarrow> py_exc + string" where
  "json_string (JStr s) = Inr s"
| "json_string _ = Inl ValidationError"

fun json_strings :: "json \<Rightarrow> py_exc + string list" where
  "json_strings (JArr xs) = mapR json_string xs"
| "json_strings _ = Inl ValidationError"

fun json_int :: "json \<Rightarrow> py_exc + int" where
  "json_int (JInt i) = Inr i"
| "json_int (JFloat (PFin m e)) =
     (if e \<ge> 0 then Inr (m * 10 ^ nat e) else if 10 ^ nat (- e) dvd m then Inr (m div 10 ^ nat (- e)) else Inl ValidationError)"
| "json_int _ = Inl ValidationError"

definition json_opt :: "(json \<Rightarrow> py_exc + 'a) \<Rightarrow> json \<Rightarrow> py_exc + 'a option" where
  "json_opt f v = (if v = JNull then Inr None else bindR (f v) (\<lambda>x. Inr (Some x)))"

definition base_view :: "jobject \<Rightarrow> py_exc + model_view" where
  "base_view d =
     bindR (json_string (jget ''policy_id'' d)) (\<lambda>pid.
     bindR (json_string (jget ''tenant_id'' d)) (\<lambda>tenant.
     bindR (json_string (jget ''team_id'' d)) (\<lambda>team.
     bindR (json_string (jget ''project_id'' d)) (\<lambda>project.
     bindR (json_string (jget ''agent_id'' d)) (\<lambda>agent.
     bindR (json_int (jget ''policy_version'' d)) (\<lambda>version.
     Inr \<lparr>mv_id = pid, mv_tenant = tenant, mv_team = team, mv_project = project, mv_agent = agent,
          mv_version = version, mv_models = [], mv_until = None\<rparr>))))))"

definition allowlist_view :: "jobject \<Rightarrow> py_exc + model_view" where
  "allowlist_view d = bindR (base_view d) (\<lambda>v. bindR (json_strings (jget ''allowed_model_ids'' d)) (\<lambda>ms.
     bindR (json_opt json_string (jget ''effective_until'' d)) (\<lambda>u. Inr (v\<lparr>mv_models := ms, mv_until := u\<rparr>))))"

definition denylist_view :: "jobject \<Rightarrow> py_exc + model_view" where
  "denylist_view d = bindR (base_view d) (\<lambda>v. bindR (json_strings (jget ''denied_model_ids'' d)) (\<lambda>ms.
     bindR (json_string (jget ''reason'' d)) (\<lambda>_. Inr (v\<lparr>mv_models := ms\<rparr>))))"

definition approval_view :: "jobject \<Rightarrow> py_exc + model_view" where
  "approval_view d = bindR (base_view d) (\<lambda>v.
     bindR (if jhas ''enforcement_mode'' d then json_string (jget ''enforcement_mode'' d) else Inr ''default_deny'') (\<lambda>_. Inr v))"

section \<open>Scope matching\<close>

record request_scope =
  rs_tenant :: string
  rs_team :: string
  rs_project :: string
  rs_agent :: string

definition model_matches_scope :: "model_view \<Rightarrow> request_scope \<Rightarrow> bool" where
  "model_matches_scope v s \<longleftrightarrow> mv_tenant v = rs_tenant s
     \<and> (mv_team v = rs_team s \<or> mv_team v = WILDCARD_UUID)
     \<and> (mv_project v = rs_project s \<or> mv_project v = WILDCARD_UUID)
     \<and> (mv_agent v = rs_agent s \<or> mv_agent v = WILDCARD_AGENT)"

definition model_specificity :: "model_view \<Rightarrow> int" where
  "model_specificity v = of_bool (mv_team v \<noteq> WILDCARD_UUID) + of_bool (mv_project v \<noteq> WILDCARD_UUID)
     + of_bool (mv_agent v \<noteq> WILDCARD_AGENT)"

text \<open>The key of Python's \<open>max\<close>, which keeps the first of equal elements.\<close>

definition rank :: "model_view \<Rightarrow> int \<times> int \<times> string" where
  "rank v = (model_specificity v, mv_version v, mv_id v)"

fun max_by_rank :: "model_view \<Rightarrow> model_view list \<Rightarrow> model_view" where
  "max_by_rank best [] = best"
| "max_by_rank best (v # vs) = max_by_rank (if rank best < rank v then v else best) vs"

section \<open>Model decisions\<close>

datatype model_decision = ModelAllow "string option" | ModelDeny string string

definition resolve_model_decision :: "model_view list \<Rightarrow> model_view list \<Rightarrow> string \<Rightarrow> model_decision" where
  "resolve_model_decision allow_views deny_views model =
     (case List.find (\<lambda>v. model \<in> set (mv_models v)) deny_views of
        Some v \<Rightarrow> ModelDeny (mv_id v) ''model_denied''
      | None \<Rightarrow>
          (case allow_views of
             [] \<Rightarrow> ModelAllow None
           | v # vs \<Rightarrow>
               (let chosen = max_by_rank v vs in
                if model \<in> set (mv_models chosen) then ModelAllow (Some (mv_id chosen))
                else ModelDeny (mv_id chosen) ''model_not_in_allowlist'')))"

definition replace_z :: "string \<Rightarrow> string" where
  "replace_z s = concat (map (\<lambda>c. if c = CHR ''Z'' then ''+00:00'' else [c]) s)"

text \<open>Comparing a naive expiry with the aware \<open>now\<close> raises.\<close>

definition allowlist_active :: "(string \<Rightarrow> py_datetime option) \<Rightarrow> instant \<Rightarrow> model_view \<Rightarrow> py_exc + bool" where
  "allowlist_active pdt now v =
     (case mv_until v of
        None \<Rightarrow> Inr True
      | Some u \<Rightarrow>
          (case pdt (replace_z u) of
             None \<Rightarrow> Inr False
           | Some (Naive _) \<Rightarrow> Inl TypeError
           | Some (Aware t) \<Rightarrow> Inr (t > now)))"

text \<open>A list comprehension over rows: build the view, keep it if the condition holds.\<close>

fun collect_views :: "(jobject \<Rightarrow> py_exc + model_view) \<Rightarrow> (model_view \<Rightarrow> py_exc + bool) \<Rightarrow> policy_row list \<Rightarrow> py_exc + model_view list" where
  "collect_views view keep [] = Inr []"
| "collect_views view keep (r # rs) =
     bindR (view (po_payload r)) (\<lambda>v. bindR (keep v) (\<lambda>b. bindR (collect_views view keep rs) (\<lambda>vs.
     Inr (if b then v # vs else vs))))"

definition select_approval_policy :: "model_view list \<Rightarrow> model_view option" where
  "select_approval_policy vs = (case vs of [] \<Rightarrow> None | v # rest \<Rightarrow> Some (max_by_rank v rest))"

text \<open>The environment of an evaluation: the request's clock, the clock each query reads, and
  whether loading the inventory fails.\<close>

record eval_env =
  ee_now :: instant
  ee_deny_now :: instant
  ee_allow_now :: instant
  ee_approval_now :: instant
  ee_inventory_fails :: bool

definition approval_gate :: "eval_env \<Rightarrow> request_scope \<Rightarrow> string \<Rightarrow> policy_db \<Rightarrow> model_view \<Rightarrow> model_decision" where
  "approval_gate env scope model d approval =
     (if ee_inventory_fails env then ModelDeny (mv_id approval) ''model_not_approved''
      else
        (let row = pd_inventory d (rs_tenant scope, model);
             state = (case row of None \<Rightarrow> ''unknown'' | Some i \<Rightarrow> iv_state i) in
         if state \<noteq> ''approved'' then ModelDeny (mv_id approval) ''model_not_approved''
         else case row of
                Some i \<Rightarrow> (case iv_retire_at i of
                            Some t \<Rightarrow> if ee_now env > t then ModelDeny (mv_id approval) ''model_retired'' else ModelAllow (Some (mv_id approval))
                          | None \<Rightarrow> ModelAllow (Some (mv_id approval)))
              | None \<Rightarrow> ModelAllow (Some (mv_id approval))))"

definition evaluate_model_policies ::
  "(string \<Rightarrow> py_datetime option) \<Rightarrow> eval_env \<Rightarrow> request_scope \<Rightarrow> string \<Rightarrow> policy_db \<Rightarrow> py_exc + model_decision" where
  "evaluate_model_policies pdt env scope model d =
     (let deny_rows = get_active_policies_for_scope (rs_tenant scope) ''model_denylist'' (ee_deny_now env) d;
          allow_rows = get_active_policies_for_scope (rs_tenant scope) ''model_allowlist'' (ee_allow_now env) d;
          approval_rows = get_active_policies_for_scope (rs_tenant scope) ''model_approval'' (ee_approval_now env) d in
      bindR (collect_views denylist_view (\<lambda>v. Inr (model_matches_scope v scope)) deny_rows) (\<lambda>deny_views.
      bindR (collect_views allowlist_view
               (\<lambda>v. if model_matches_scope v scope then allowlist_active pdt (ee_now env) v else Inr False) allow_rows) (\<lambda>allow_views.
      (let decision = resolve_model_decision allow_views deny_views model in
       case decision of
         ModelDeny _ _ \<Rightarrow> Inr decision
       | ModelAllow _ \<Rightarrow>
           bindR (collect_views approval_view (\<lambda>v. Inr (model_matches_scope v scope)) approval_rows) (\<lambda>approval_views.
           case select_approval_policy approval_views of
             None \<Rightarrow> Inr decision
           | Some approval \<Rightarrow> Inr (approval_gate env scope model d approval))))))"

section \<open>Budgets\<close>

record budget_view =
  bv_id :: string
  bv_tenant :: string
  bv_team :: string
  bv_project :: string
  bv_agent :: string
  bv_period :: string
  bv_scope :: string
  bv_max_tokens :: "int option"
  bv_max_cost :: "rat option"

definition budget_matches_scope :: "budget_view \<Rightarrow> request_scope \<Rightarrow> bool" where
  "budget_matches_scope v s =
     (if bv_tenant v \<noteq> rs_tenant s then False
      else if bv_scope v \<in> {''team'', ''project'', ''agent''} \<and> bv_team v \<noteq> rs_team s then False
      else if bv_scope v \<in> {''project'', ''agent''} \<and> bv_project v \<noteq> rs_project s then False
      else if bv_scope v = ''agent'' \<and> bv_agent v \<noteq> rs_agent s then False
      else True)"

definition policy_period_start :: "string \<Rightarrow> instant \<Rightarrow> instant" where
  "policy_period_start period now =
     (let c = civil_of now in
      instant_of (if period = ''hourly'' then c\<lparr>c_minute := 0, c_second := 0, c_micro := 0\<rparr>
                  else if period = ''daily'' then c\<lparr>c_hour := 0, c_minute := 0, c_second := 0, c_micro := 0\<rparr>
                  else c\<lparr>c_day := 1, c_hour := 0, c_minute := 0, c_second := 0, c_micro := 0\<rparr>))"

text \<open>The columns of the audit log that the usage sums read.\<close>

record spend_event =
  ue_type :: string
  ue_tenant :: string
  ue_team :: string
  ue_project :: string
  ue_agent :: string
  ue_time :: instant
  ue_tokens_in :: "int option"
  ue_tokens_out :: "int option"
  ue_cost :: "rat option"

definition event_counts :: "budget_view \<Rightarrow> request_scope \<Rightarrow> instant \<Rightarrow> spend_event \<Rightarrow> bool" where
  "event_counts b s start e \<longleftrightarrow> ue_type e = ''usage'' \<and> ue_tenant e = rs_tenant s
     \<and> (bv_scope b \<in> {''team'', ''project'', ''agent''} \<longrightarrow> ue_team e = rs_team s)
     \<and> (bv_scope b \<in> {''project'', ''agent''} \<longrightarrow> ue_project e = rs_project s)
     \<and> (bv_scope b = ''agent'' \<longrightarrow> ue_agent e = rs_agent s)
     \<and> ue_time e \<ge> start"

definition row_tokens :: "spend_event \<Rightarrow> int" where
  "row_tokens e = (case (ue_tokens_in e, ue_tokens_out e) of (Some i, Some j) \<Rightarrow> i + j | _ \<Rightarrow> 0)"

definition budget_period_used :: "(rat \<Rightarrow> rat) \<Rightarrow> instant \<Rightarrow> request_scope \<Rightarrow> budget_view \<Rightarrow> spend_event list \<Rightarrow> int \<times> rat" where
  "budget_period_used fl now s b es =
     (let rows = filter (event_counts b s (policy_period_start (bv_period b) now)) es in
      (sum_list (map row_tokens rows), fl (sum_list (map (\<lambda>e. case ue_cost e of None \<Rightarrow> 0 | Some c \<Rightarrow> c) rows))))"

datatype budget_decision = BudgetOk | BudgetExceeded string string

fun evaluate_budget_against :: "(rat \<Rightarrow> rat) \<Rightarrow> (budget_view \<times> int \<times> rat) list \<Rightarrow> int \<Rightarrow> rat \<Rightarrow> budget_decision" where
  "evaluate_budget_against fl [] est_tokens est_cost = BudgetOk"
| "evaluate_budget_against fl ((b, used_tokens, used_cost) # bs) est_tokens est_cost =
     (if (case bv_max_tokens b of None \<Rightarrow> False | Some m \<Rightarrow> used_tokens + est_tokens > m)
      then BudgetExceeded (bv_id b) ''budget_tokens_exceeded''
      else if (case bv_max_cost b of None \<Rightarrow> False | Some m \<Rightarrow> fl (used_cost + est_cost) > m)
      then BudgetExceeded (bv_id b) ''budget_cost_exceeded''
      else evaluate_budget_against fl bs est_tokens est_cost)"

text \<open>The views of the active budget policies that match the scope, with what their period used.\<close>

definition float_value :: "pyfloat \<Rightarrow> py_exc + rat" where
  "float_value x = (case x of PFin m e \<Rightarrow> Inr (if e \<ge> 0 then of_int m * 10 ^ nat e else of_int m / 10 ^ nat (- e)) | _ \<Rightarrow> Inl ValidationError)"

fun json_number :: "(rat \<Rightarrow> rat) \<Rightarrow> json \<Rightarrow> py_exc + rat" where
  "json_number fl (JInt i) = Inr (fl (of_int i))"
| "json_number fl (JFloat x) = bindR (float_value x) (\<lambda>r. Inr (fl r))"
| "json_number fl _ = Inl ValidationError"

definition budget_view_of :: "(rat \<Rightarrow> rat) \<Rightarrow> jobject \<Rightarrow> py_exc + budget_view" where
  "budget_view_of fl d = bindR (base_view d) (\<lambda>v.
     bindR (json_string (jget ''period'' d)) (\<lambda>period.
     bindR (guardR (period \<in> {''hourly'', ''daily'', ''monthly''}) ValidationError) (\<lambda>_.
     bindR (json_string (jget ''scope'' d)) (\<lambda>scope.
     bindR (guardR (scope \<in> {''tenant'', ''team'', ''project'', ''agent''}) ValidationError) (\<lambda>_.
     bindR (json_opt json_int (jget ''max_tokens_per_period'' d)) (\<lambda>mt.
     bindR (json_opt (json_number fl) (jget ''max_cost_cents_per_period'' d)) (\<lambda>mc.
     Inr \<lparr>bv_id = mv_id v, bv_tenant = mv_tenant v, bv_team = mv_team v, bv_project = mv_project v, bv_agent = mv_agent v,
          bv_period = period, bv_scope = scope, bv_max_tokens = mt, bv_max_cost = mc\<rparr>)))))))"

fun collect_budgets :: "(rat \<Rightarrow> rat) \<Rightarrow> instant \<Rightarrow> request_scope \<Rightarrow> spend_event list \<Rightarrow> policy_row list \<Rightarrow> py_exc + (budget_view \<times> int \<times> rat) list" where
  "collect_budgets fl now s es [] = Inr []"
| "collect_budgets fl now s es (r # rs) =
     bindR (budget_view_of fl (po_payload r)) (\<lambda>b. bindR (collect_budgets fl now s es rs) (\<lambda>bs.
     Inr (if budget_matches_scope b s then (b, budget_period_used fl now s b es) # bs else bs)))"

definition load_active_budgets :: "(rat \<Rightarrow> rat) \<Rightarrow> instant \<Rightarrow> instant \<Rightarrow> request_scope \<Rightarrow> spend_event list \<Rightarrow> policy_db \<Rightarrow> py_exc + (budget_view \<times> int \<times> rat) list" where
  "load_active_budgets fl query_now now s es d =
     collect_budgets fl now s es (get_active_policies_for_scope (rs_tenant s) ''budget_limit'' query_now d)"

definition evaluate_budget_pre_request ::
  "(rat \<Rightarrow> rat) \<Rightarrow> instant \<Rightarrow> instant \<Rightarrow> request_scope \<Rightarrow> spend_event list \<Rightarrow> policy_db \<Rightarrow> int \<Rightarrow> rat \<Rightarrow> py_exc + budget_decision" where
  "evaluate_budget_pre_request fl query_now now s es d est_tokens est_cost =
     bindR (load_active_budgets fl query_now now s es d) (\<lambda>bs. Inr (evaluate_budget_against fl bs est_tokens est_cost))"

text \<open>The view of a payload by its policy type.\<close>

datatype policy_view = Model_view model_view | Budget_policy_view budget_view

definition parse_variant :: "(rat \<Rightarrow> rat) \<Rightarrow> jobject \<Rightarrow> py_exc + policy_view" where
  "parse_variant fl d =
     (let t = jget ''policy_type'' d in
      if t = JStr ''budget_limit'' then bindR (budget_view_of fl d) (\<lambda>v. Inr (Budget_policy_view v))
      else if t = JStr ''model_allowlist'' then bindR (allowlist_view d) (\<lambda>v. Inr (Model_view v))
      else if t = JStr ''model_denylist'' then bindR (denylist_view d) (\<lambda>v. Inr (Model_view v))
      else if t = JStr ''model_approval'' then bindR (approval_view d) (\<lambda>v. Inr (Model_view v))
      else Inl ValueError)"

end
