(* ===== verification/Policy_Decision.thy ===== *)
theory Policy_Decision
  imports Policy_Enforce
begin

text \<open>
  What a model decision means, without reference to the order of rows: the sets of views that
  apply to a request and the condition under which the model is permitted.
\<close>

section \<open>The specification\<close>

definition applying :: "string \<Rightarrow> instant \<Rightarrow> (jobject \<Rightarrow> py_exc + model_view) \<Rightarrow> request_scope \<Rightarrow> policy_db \<Rightarrow> model_view set" where
  "applying ptype now view scope d =
     {v. \<exists>r \<in> set (pd_policies d). po_tenant r = rs_tenant scope \<and> po_type r = ptype \<and> po_from r \<le> now
        \<and> view (po_payload r) = Inr v \<and> model_matches_scope v scope}"

definition deny_lists :: "eval_env \<Rightarrow> request_scope \<Rightarrow> policy_db \<Rightarrow> model_view set" where
  "deny_lists env scope d = applying ''model_denylist'' (ee_deny_now env) denylist_view scope d"

definition allow_lists :: "(string \<Rightarrow> py_datetime option) \<Rightarrow> eval_env \<Rightarrow> request_scope \<Rightarrow> policy_db \<Rightarrow> model_view set" where
  "allow_lists pdt env scope d =
     {v \<in> applying ''model_allowlist'' (ee_allow_now env) allowlist_view scope d. allowlist_active pdt (ee_now env) v = Inr True}"

definition approval_switches :: "eval_env \<Rightarrow> request_scope \<Rightarrow> policy_db \<Rightarrow> model_view set" where
  "approval_switches env scope d = applying ''model_approval'' (ee_approval_now env) approval_view scope d"

definition vetted :: "eval_env \<Rightarrow> request_scope \<Rightarrow> string \<Rightarrow> policy_db \<Rightarrow> bool" where
  "vetted env scope model d \<longleftrightarrow> \<not> ee_inventory_fails env \<and>
     (case pd_inventory d (rs_tenant scope, model) of
        None \<Rightarrow> False
      | Some i \<Rightarrow> iv_state i = ''approved'' \<and> (case iv_retire_at i of None \<Rightarrow> True | Some t \<Rightarrow> ee_now env \<le> t))"

definition model_permitted :: "(string \<Rightarrow> py_datetime option) \<Rightarrow> eval_env \<Rightarrow> request_scope \<Rightarrow> string \<Rightarrow> policy_db \<Rightarrow> bool" where
  "model_permitted pdt env scope model d \<longleftrightarrow>
     (\<forall>v \<in> deny_lists env scope d. model \<notin> set (mv_models v))
     \<and> (\<forall>v \<in> allow_lists pdt env scope d. (\<forall>w \<in> allow_lists pdt env scope d. rank w \<le> rank v) \<longrightarrow> model \<in> set (mv_models v))
     \<and> (approval_switches env scope d \<noteq> {} \<longrightarrow> vetted env scope model d)"

text \<open>The payload of a row names the row.\<close>

definition payloads_named :: "policy_db \<Rightarrow> bool" where
  "payloads_named d \<longleftrightarrow> (\<forall>p \<in> set (pd_policies d). jget ''policy_id'' (po_payload p) = JStr (po_id p))"

section \<open>Collecting and choosing\<close>

lemma set_active [simp]: "set (get_active_policies_for_scope tenant ptype now d)
    = {p \<in> set (pd_policies d). po_tenant p = tenant \<and> po_type p = ptype \<and> po_from p \<le> now}"
  by (auto simp: get_active_policies_for_scope_def)

lemma collect_views_set:
  "collect_views view keep rs = Inr vs \<Longrightarrow> set vs = {v. \<exists>r \<in> set rs. view (po_payload r) = Inr v \<and> keep v = Inr True}"
  by (induction rs arbitrary: vs) (auto simp: bindR_eq_Inr split: if_splits)

lemma max_by_rank_in: "max_by_rank v vs \<in> insert v (set vs)"
proof (induction vs arbitrary: v)
  case (Cons w ws)
  then show ?case using Cons [of w] Cons [of v] by auto
qed simp

lemma max_by_rank_max: "w \<in> insert v (set vs) \<Longrightarrow> rank w \<le> rank (max_by_rank v vs)"
proof (induction vs arbitrary: v w)
  case (Cons x xs)
  have "rank (if rank v < rank x then x else v) \<le> rank (max_by_rank v (x # xs))" using Cons.IH by simp
  moreover have "rank v \<le> rank (if rank v < rank x then x else v)" "rank x \<le> rank (if rank v < rank x then x else v)" by auto
  ultimately have "rank v \<le> rank (max_by_rank v (x # xs))" "rank x \<le> rank (max_by_rank v (x # xs))" by (meson order_trans)+
  moreover have "rank y \<le> rank (max_by_rank v (x # xs))" if "y \<in> set xs" for y using Cons.IH that by simp
  ultimately show ?case using Cons.prems by auto
qed simp

lemma resolve_allows:
  "(\<exists>p. resolve_model_decision as ds model = ModelAllow p) \<longleftrightarrow>
     (\<forall>v \<in> set ds. model \<notin> set (mv_models v)) \<and> (case as of [] \<Rightarrow> True | v # vs \<Rightarrow> model \<in> set (mv_models (max_by_rank v vs)))"
  by (auto simp: resolve_model_decision_def Let_def find_eq_None split: option.splits list.splits dest: find_eq_Some_in)

lemma approval_gate_allows: "(\<exists>p. approval_gate env scope model d a = ModelAllow p) \<longleftrightarrow> vetted env scope model d"
  by (auto simp: approval_gate_def vetted_def Let_def split: option.splits)

section \<open>Ranks are unique\<close>

lemma base_view_id: "base_view d = Inr v \<Longrightarrow> jget ''policy_id'' d = JStr (mv_id v)"
  by (cases "jget ''policy_id'' d") (auto simp: base_view_def bindR_eq_Inr)

lemma allowlist_view_id: "allowlist_view d = Inr v \<Longrightarrow> jget ''policy_id'' d = JStr (mv_id v)"
  by (auto simp: allowlist_view_def bindR_eq_Inr dest: base_view_id)

lemma allow_lists_rank_inj:
  assumes "store_ok d" "payloads_named d" "v \<in> allow_lists pdt env scope d" "w \<in> allow_lists pdt env scope d" "rank v = rank w"
  shows "v = w"
proof -
  obtain r where r: "r \<in> set (pd_policies d)" "allowlist_view (po_payload r) = Inr v"
    using assms(3) by (auto simp: allow_lists_def applying_def)
  obtain q where q: "q \<in> set (pd_policies d)" "allowlist_view (po_payload q) = Inr w"
    using assms(4) by (auto simp: allow_lists_def applying_def)
  have "po_id r = mv_id v" "po_id q = mv_id w" using r q assms(2) allowlist_view_id by (auto simp: payloads_named_def)
  then have "po_id r = po_id q" using assms(5) by (simp add: rank_def)
  then have "r = q" using distinct_key_unique [of po_id "pd_policies d" r q] assms(1) r(1) q(1) by (simp add: store_ok_def)
  then show ?thesis using r q by simp
qed

section \<open>The decision is the specification\<close>

lemma chosen_allow_list:
  assumes "store_ok d" "payloads_named d" "set (v # vs) = allow_lists pdt env scope d"
  shows "model \<in> set (mv_models (max_by_rank v vs)) \<longleftrightarrow>
    (\<forall>v \<in> allow_lists pdt env scope d. (\<forall>w \<in> allow_lists pdt env scope d. rank w \<le> rank v) \<longrightarrow> model \<in> set (mv_models v))"
proof -
  let ?c = "max_by_rank v vs"
  have c: "?c \<in> allow_lists pdt env scope d" "\<forall>w \<in> allow_lists pdt env scope d. rank w \<le> rank ?c"
    using max_by_rank_in [of v vs] max_by_rank_max [of _ v vs] assms(3) by auto
  have u: "x = ?c" if "x \<in> allow_lists pdt env scope d" "\<forall>w \<in> allow_lists pdt env scope d. rank w \<le> rank x" for x
    using allow_lists_rank_inj [OF assms(1,2) that(1) c(1)] c that by (auto intro: antisym)
  then show ?thesis using c by metis
qed

lemma evaluate_exact:
  assumes ok: "store_ok d" "payloads_named d" and e: "evaluate_model_policies pdt env scope model d = Inr dec"
  shows "(\<exists>p. dec = ModelAllow p) \<longleftrightarrow> model_permitted pdt env scope model d"
proof -
  obtain ds as where ds: "collect_views denylist_view (\<lambda>v. Inr (model_matches_scope v scope))
        (get_active_policies_for_scope (rs_tenant scope) ''model_denylist'' (ee_deny_now env) d) = Inr ds"
    and as: "collect_views allowlist_view (\<lambda>v. if model_matches_scope v scope then allowlist_active pdt (ee_now env) v else Inr False)
        (get_active_policies_for_scope (rs_tenant scope) ''model_allowlist'' (ee_allow_now env) d) = Inr as"
    using e by (auto simp: evaluate_model_policies_def bindR_eq_Inr)
  have d': "set ds = deny_lists env scope d"
    unfolding collect_views_set [OF ds] deny_lists_def applying_def by auto
  have a': "set as = allow_lists pdt env scope d"
    unfolding collect_views_set [OF as] allow_lists_def applying_def by (auto split: if_splits)
  have al: "(case as of [] \<Rightarrow> True | v # vs \<Rightarrow> model \<in> set (mv_models (max_by_rank v vs))) \<longleftrightarrow>
    (\<forall>v \<in> allow_lists pdt env scope d. (\<forall>w \<in> allow_lists pdt env scope d. rank w \<le> rank v) \<longrightarrow> model \<in> set (mv_models v))"
  proof (cases as)
    case Nil
    then show ?thesis using a' by simp
  next
    case (Cons v vs)
    then show ?thesis using chosen_allow_list [OF ok, of v vs pdt env scope model] a' by simp
  qed
  show ?thesis
  proof (cases "resolve_model_decision as ds model")
    case (ModelDeny x y)
    then have "dec = ModelDeny x y" using e ds as by (simp add: evaluate_model_policies_def)
    moreover have "\<not> model_permitted pdt env scope model d"
      using resolve_allows [of as ds model] ModelDeny al d' by (auto simp: model_permitted_def)
    ultimately show ?thesis by simp
  next
    case (ModelAllow x)
    then obtain vs where vs: "collect_views approval_view (\<lambda>v. Inr (model_matches_scope v scope))
        (get_active_policies_for_scope (rs_tenant scope) ''model_approval'' (ee_approval_now env) d) = Inr vs"
      using e ds as by (auto simp: evaluate_model_policies_def bindR_eq_Inr)
    have v': "set vs = approval_switches env scope d"
      unfolding collect_views_set [OF vs] approval_switches_def applying_def by auto
    have dec: "dec = (case select_approval_policy vs of None \<Rightarrow> ModelAllow x | Some a \<Rightarrow> approval_gate env scope model d a)"
      using e ds as vs ModelAllow by (auto simp: evaluate_model_policies_def split: option.splits)
    have "(\<exists>p. dec = ModelAllow p) \<longleftrightarrow> (approval_switches env scope d \<noteq> {} \<longrightarrow> vetted env scope model d)"
      using approval_gate_allows unfolding dec v' [symmetric] by (cases vs) (auto simp: select_approval_policy_def)
    then show ?thesis using resolve_allows [of as ds model] ModelAllow al d' by (auto simp: model_permitted_def)
  qed
qed

end
