(* ===== verification/Policy_Intake.thy ===== *)
theory Policy_Intake
  imports Policy_Decision
begin

text \<open>
  \<open>policy.intake\<close>: the pipeline that verifies, cross-checks, replay-checks and stores a signed
  policy record. Third-party and cryptographic parts are parameters: the JSON decoder, the
  JSON Schema validator, the verification of a compact JWS under the configured key (its claims,
  or nothing when it fails), SHA-256 over the canonical record and \<open>fromisoformat\<close>. The schema
  fixes the types of the fields; a value of another type raises in the model.
\<close>

section \<open>Parameters, results and events\<close>

record intake_params =
  ip_loads :: "string \<Rightarrow> json option"
  ip_schema_errors :: "jobject \<Rightarrow> string list"
  ip_key :: bool
  ip_verify :: "string \<Rightarrow> jobject option"
  ip_hash :: "jobject \<Rightarrow> string"
  ip_pdt :: "string \<Rightarrow> py_datetime option"

record intake_env =
  ie_request :: string
  ie_reject_audit_fails :: bool
  ie_append_fails :: "py_exc option"
  ie_commit_fails :: "py_exc option"

datatype raw_record = Raw_dict jobject | Raw_bytes string | Raw_str string | Raw_other

datatype intake_result = Policy_accepted string int string | RejectedSchema | RejectedSignature
  | RejectedScopeMismatch string | RejectedReplay string int int

definition SIGNED_CLAIM_FIELDS :: "string list" where
  "SIGNED_CLAIM_FIELDS = [''tenant_id'', ''team_id'', ''project_id'', ''agent_id'', ''policy_id'', ''policy_version'',
     ''effective_from'', ''policy_type'']"

definition CONTENT_HASH_CLAIM :: string where "CONTENT_HASH_CLAIM = ''policy_hash''"

definition MAX_RECORD_BYTES :: nat where "MAX_RECORD_BYTES = 1048576"

definition MODEL_DECISION_POLICY_TYPES :: "string list" where
  "MODEL_DECISION_POLICY_TYPES = [''model_allowlist'', ''model_denylist'', ''model_approval'']"

text \<open>Python's \<open>==\<close> on JSON values: numbers and booleans compare by value.\<close>

fun num_value :: "json \<Rightarrow> rat option" where
  "num_value (JBool b) = Some (of_bool b)"
| "num_value (JInt i) = Some (of_int i)"
| "num_value (JFloat x) = (case float_value x of Inr r \<Rightarrow> Some r | Inl _ \<Rightarrow> None)"
| "num_value _ = None"

definition py_eq :: "json \<Rightarrow> json \<Rightarrow> bool" where
  "py_eq a b = (case (num_value a, num_value b) of (Some x, Some y) \<Rightarrow> x = y | _ \<Rightarrow> a = b)"

fun py_int :: "json \<Rightarrow> py_exc + int" where
  "py_int (JBool b) = Inr (of_bool b)"
| "py_int v = json_int v"

section \<open>Parsing\<close>

definition json_loads :: "intake_params \<Rightarrow> string \<Rightarrow> json option" where
  "json_loads x s = (case ip_loads x s of Some JNull \<Rightarrow> None | r \<Rightarrow> r)"

definition parse_record :: "intake_params \<Rightarrow> raw_record \<Rightarrow> json option" where
  "parse_record x raw = (case raw of
     Raw_dict d \<Rightarrow> Some (JObj d)
   | Raw_bytes s \<Rightarrow> if length s > MAX_RECORD_BYTES then None else json_loads x s
   | Raw_str s \<Rightarrow> if length s > MAX_RECORD_BYTES then None else json_loads x s
   | Raw_other \<Rightarrow> None)"

definition validate_policy_record :: "intake_params \<Rightarrow> json \<Rightarrow> string list" where
  "validate_policy_record x r = (case r of JObj d \<Rightarrow> ip_schema_errors x d | _ \<Rightarrow> [''<root>: policy record must be a JSON object''])"

definition first_scope_mismatch :: "jobject \<Rightarrow> jobject \<Rightarrow> string option" where
  "first_scope_mismatch claims r = List.find (\<lambda>f. \<not> py_eq (jget f claims) (jget f r)) SIGNED_CLAIM_FIELDS"

section \<open>Audit events\<close>

type_synonym scope_ids = "string \<times> string \<times> string \<times> string"

definition system_scope :: scope_ids where
  "system_scope = (WILDCARD_UUID, WILDCARD_UUID, WILDCARD_UUID, GATEWAY_AGENT)"

definition build_policy_event :: "string \<Rightarrow> scope_ids \<Rightarrow> string \<Rightarrow> string \<Rightarrow> string option \<Rightarrow> string option \<Rightarrow> string option \<Rightarrow> policy_event" where
  "build_policy_event etype s request action policy violation model = (case s of (tenant, team, project, agent) \<Rightarrow>
     \<lparr>pv_type = etype, pv_tenant = tenant, pv_team = team, pv_project = project, pv_agent = agent, pv_request = request,
      pv_action = action, pv_policy = policy, pv_violation = violation, pv_model = model\<rparr>)"

text \<open>The scope of the verified claims; claims that are not strings make the append fail.\<close>

definition resolved_scope :: "jobject \<Rightarrow> py_exc + scope_ids" where
  "resolved_scope claims =
     bindR (json_string (jget ''tenant_id'' claims)) (\<lambda>t. bindR (json_string (jget ''team_id'' claims)) (\<lambda>m.
     bindR (json_string (jget ''project_id'' claims)) (\<lambda>p. bindR (json_string (jget ''agent_id'' claims)) (\<lambda>a. Inr (t, m, p, a)))))"

definition audit_reject :: "intake_env \<Rightarrow> string \<Rightarrow> py_exc + scope_ids \<Rightarrow> string \<Rightarrow> string option \<Rightarrow> policy_db \<Rightarrow> policy_db" where
  "audit_reject env etype s violation policy d =
     (case s of
        Inl _ \<Rightarrow> d
      | Inr ids \<Rightarrow> if ie_reject_audit_fails env then d
          else d\<lparr>pd_events := pd_events d @ [build_policy_event etype ids (ie_request env) ''blocked'' policy (Some violation) None]\<rparr>)"

section \<open>The pipeline\<close>

text \<open>Steps 6 and 7, once the record is verified: the result, the tables, and the tenant whose
  cached decisions were invalidated.\<close>

definition store_verified ::
  "intake_params \<Rightarrow> intake_env \<Rightarrow> jobject \<Rightarrow> jobject \<Rightarrow> policy_db \<Rightarrow> py_exc + (intake_result \<times> policy_db \<times> string option)" where
  "store_verified x env claims r d =
     bindR (json_string (jget ''policy_id'' claims)) (\<lambda>pid.
     bindR (py_int (jget ''policy_version'' claims)) (\<lambda>version.
     bindR (json_string (jget ''policy_type'' claims)) (\<lambda>ptype.
     if \<not> version_fresh pid version d
     then Inr (RejectedReplay pid version (the (get_max_version pid d)),
               audit_reject env ''policy_intake_rejected_replay'' (resolved_scope claims) ''replay'' (Some pid) d, None)
     else
       bindR (resolved_scope claims) (\<lambda>ids.
       bindR (json_string (jget ''effective_from'' claims)) (\<lambda>from_text.
       bindR (json_string (jget ''signature'' r)) (\<lambda>signature.
       case ip_pdt x (replace_z from_text) of
         None \<Rightarrow> Inl ValueError
       | Some (Naive _) \<Rightarrow> Inl DataError
       | Some (Aware from_time) \<Rightarrow>
           (case upsert_policy \<lparr>vr_policy = pid, vr_version = version, vr_type = ptype, vr_tenant = fst ids,
                  vr_team = fst (snd ids), vr_project = fst (snd (snd ids)), vr_agent = snd (snd (snd ids)),
                  vr_from = from_time, vr_signature = signature, vr_payload = r\<rparr> d of
              Inl Policy_integrity_error \<Rightarrow> Inl IntegrityError
            | Inl _ \<Rightarrow> Inl ValueError
            | Inr d1 \<Rightarrow>
                (case ie_append_fails env of
                   Some e \<Rightarrow> Inl e
                 | None \<Rightarrow>
                     Inr (Policy_accepted pid version ptype,
                          d1\<lparr>pd_events := pd_events d1 @ [build_policy_event ''policy_intake_accepted'' ids (ie_request env) ''logged'' (Some pid) None None]\<rparr>,
                          if ptype \<in> set MODEL_DECISION_POLICY_TYPES then Some (fst ids) else None))))))))) "

definition run_intake ::
  "intake_params \<Rightarrow> intake_env \<Rightarrow> raw_record \<Rightarrow> policy_db \<Rightarrow> py_exc + (intake_result \<times> policy_db \<times> string option)" where
  "run_intake x env raw d =
     (let reject = (\<lambda>res etype s violation. Inr (res, audit_reject env etype s violation None d, None)) in
      case parse_record x raw of
        None \<Rightarrow> reject RejectedSchema ''policy_intake_rejected_schema'' (Inr system_scope) ''schema.unparseable''
      | Some rec \<Rightarrow>
          if validate_policy_record x rec \<noteq> []
          then reject RejectedSchema ''policy_intake_rejected_schema'' (Inr system_scope) ''schema.invalid''
          else
            (case rec of
               JObj r \<Rightarrow>
                 if \<not> ip_key x
                 then reject RejectedSignature ''policy_intake_rejected_signature'' (Inr system_scope) ''signature.no_key''
                 else
                   bindR (json_string (jget ''signature'' r)) (\<lambda>signature.
                   case ip_verify x signature of
                     None \<Rightarrow> reject RejectedSignature ''policy_intake_rejected_signature'' (Inr system_scope) ''signature.invalid''
                   | Some claims \<Rightarrow>
                       if (\<exists>f \<in> set SIGNED_CLAIM_FIELDS. \<not> jhas f claims) \<or> \<not> jhas CONTENT_HASH_CLAIM claims
                       then reject (RejectedScopeMismatch ''claims_incomplete'') ''policy_intake_rejected_scope_mismatch''
                              (Inr system_scope) ''scope_mismatch.claims_incomplete''
                       else if jget ''tenant_id'' claims = JStr WILDCARD_UUID
                       then reject (RejectedScopeMismatch ''wildcard_tenant'') ''policy_intake_rejected_scope_mismatch''
                              (Inr system_scope) ''scope_mismatch.wildcard_tenant''
                       else
                         (case first_scope_mismatch claims r of
                            Some f \<Rightarrow> reject (RejectedScopeMismatch f) ''policy_intake_rejected_scope_mismatch''
                                       (resolved_scope claims) (''scope_mismatch.'' @ f)
                          | None \<Rightarrow>
                              if jget CONTENT_HASH_CLAIM claims \<noteq> JStr (ip_hash x (filter (\<lambda>kv. fst kv \<noteq> ''signature'') r))
                              then reject (RejectedScopeMismatch ''content_hash'') ''policy_intake_rejected_scope_mismatch''
                                     (resolved_scope claims) ''scope_mismatch.content_hash''
                              else store_verified x env claims r d))
             | _ \<Rightarrow> Inl TypeError))"

text \<open>The pipeline in its own transaction; the cache was invalidated before the commit.\<close>

definition intake_policy ::
  "intake_params \<Rightarrow> intake_env \<Rightarrow> raw_record \<Rightarrow> policy_db \<Rightarrow> (py_exc + intake_result) \<times> policy_db \<times> string option" where
  "intake_policy x env raw d =
     (case run_intake x env raw d of
        Inl e \<Rightarrow> (Inl e, d, None)
      | Inr (res, d', stale) \<Rightarrow> (case ie_commit_fails env of Some e \<Rightarrow> (Inl e, d, stale) | None \<Rightarrow> (Inr res, d', stale)))"

end
