(* ===== verification/Intake_Facts.thy ===== *)
theory Intake_Facts
  imports Policy_Intake
begin

text \<open>
  What the intake guarantees: only a record whose signature verifies, whose claims agree with
  its body and whose hash is signed ever changes the policies; an accepted record is never
  accepted again; and the invariants of the store are kept.
\<close>

section \<open>Verified records\<close>

definition verified :: "intake_params \<Rightarrow> raw_record \<Rightarrow> jobject \<Rightarrow> jobject \<Rightarrow> bool" where
  "verified x raw r claims \<longleftrightarrow> parse_record x raw = Some (JObj r) \<and> ip_schema_errors x r = [] \<and> ip_key x
     \<and> (\<exists>signature. jget ''signature'' r = JStr signature \<and> ip_verify x signature = Some claims)
     \<and> (\<forall>f \<in> set SIGNED_CLAIM_FIELDS. jhas f claims \<and> py_eq (jget f claims) (jget f r))
     \<and> jget ''tenant_id'' claims \<noteq> JStr WILDCARD_UUID
     \<and> jget CONTENT_HASH_CLAIM claims = JStr (ip_hash x (filter (\<lambda>kv. fst kv \<noteq> ''signature'') r))"

lemma json_string_eq_Inr: "json_string v = Inr s \<longleftrightarrow> v = JStr s"
  by (cases v) auto

lemma jget_jhas: "jget k d = JStr s \<Longrightarrow> jhas k d"
  by (auto simp: jget_def jhas_def split: option.splits dest!: map_of_SomeD intro: rev_image_eqI)

lemma audit_reject_tables [simp]:
  "pd_policies (audit_reject env etype s violation policy d) = pd_policies d"
  "pd_versions (audit_reject env etype s violation policy d) = pd_versions d"
  "pd_tenants (audit_reject env etype s violation policy d) = pd_tenants d"
  "pd_inventory (audit_reject env etype s violation policy d) = pd_inventory d"
  by (auto simp: audit_reject_def split: sum.splits)

text \<open>An outcome that only tried to append a rejection event.\<close>

definition is_reject :: "intake_env \<Rightarrow> policy_db \<Rightarrow> py_exc + (intake_result \<times> policy_db \<times> string option) \<Rightarrow> bool" where
  "is_reject env d out \<longleftrightarrow> (\<exists>res etype s violation. out = Inr (res, audit_reject env etype s violation None d, None)
     \<and> (\<forall>pid v t. res \<noteq> Policy_accepted pid v t))"

lemma is_rejectI [simp]:
  "is_reject env d (Inr (RejectedSchema, audit_reject env etype s violation None d, None))"
  "is_reject env d (Inr (RejectedSignature, audit_reject env etype s violation None d, None))"
  "is_reject env d (Inr (RejectedScopeMismatch f, audit_reject env etype s violation None d, None))"
  by (auto simp: is_reject_def)

lemma run_intake_shape:
  "(\<exists>r claims. verified x raw r claims \<and> run_intake x env raw d = store_verified x env claims r d)
    \<or> (\<exists>e. run_intake x env raw d = Inl e) \<or> is_reject env d (run_intake x env raw d)"
proof (cases "\<exists>r signature claims. parse_record x raw = Some (JObj r) \<and> ip_schema_errors x r = [] \<and> ip_key x
    \<and> jget ''signature'' r = JStr signature \<and> ip_verify x signature = Some claims")
  case True
  then obtain r signature claims where g: "parse_record x raw = Some (JObj r)" "ip_schema_errors x r = []" "ip_key x"
    "jget ''signature'' r = JStr signature" "ip_verify x signature = Some claims" by blast
  note R = run_intake_def Let_def g validate_policy_record_def
  consider (incomplete) "(\<exists>f \<in> set SIGNED_CLAIM_FIELDS. \<not> jhas f claims) \<or> \<not> jhas CONTENT_HASH_CLAIM claims"
    | (wild) "jget ''tenant_id'' claims = JStr WILDCARD_UUID"
    | (mismatch) f where "first_scope_mismatch claims r = Some f" "jget ''tenant_id'' claims \<noteq> JStr WILDCARD_UUID"
        "\<forall>f \<in> set SIGNED_CLAIM_FIELDS. jhas f claims" "jhas CONTENT_HASH_CLAIM claims"
    | (rest) "first_scope_mismatch claims r = None" "jget ''tenant_id'' claims \<noteq> JStr WILDCARD_UUID"
        "\<forall>f \<in> set SIGNED_CLAIM_FIELDS. jhas f claims" "jhas CONTENT_HASH_CLAIM claims"
    by (cases "first_scope_mismatch claims r") blast+
  then show ?thesis
  proof cases
    case rest
    show ?thesis
    proof (cases "jget CONTENT_HASH_CLAIM claims = JStr (ip_hash x (filter (\<lambda>kv. fst kv \<noteq> ''signature'') r))")
      case True
      then have "verified x raw r claims"
        using g rest by (simp add: verified_def first_scope_mismatch_def find_eq_None)
      moreover have "run_intake x env raw d = store_verified x env claims r d" using True rest by (simp add: R)
      ultimately show ?thesis by blast
    next
      case False
      then show ?thesis using rest by (simp add: R)
    qed
  qed (auto simp: R)
next
  case False
  show ?thesis
  proof (cases "\<exists>r. parse_record x raw = Some (JObj r) \<and> ip_schema_errors x r = [] \<and> ip_key x")
    case True
    then obtain r where r: "parse_record x raw = Some (JObj r)" "ip_schema_errors x r = []" "ip_key x" by blast
    show ?thesis
    proof (cases "json_string (jget ''signature'' r)")
      case (Inr signature)
      then have "ip_verify x signature = None" using False r by (cases "ip_verify x signature") (auto simp: json_string_eq_Inr)
      then show ?thesis using r Inr by (simp add: run_intake_def Let_def validate_policy_record_def)
    qed (use r in \<open>simp add: run_intake_def Let_def validate_policy_record_def\<close>)
  next
    case False
    then show ?thesis
      by (auto simp: run_intake_def Let_def validate_policy_record_def split: option.splits json.splits)
  qed
qed

lemma run_intake_verified:
  assumes "verified x raw r claims"
  shows "run_intake x env raw d = store_verified x env claims r d"
proof -
  have "first_scope_mismatch claims r = None" using assms by (simp add: verified_def first_scope_mismatch_def find_eq_None)
  then show ?thesis using assms jget_jhas [of CONTENT_HASH_CLAIM claims] unfolding run_intake_def Let_def verified_def
    by (auto simp: validate_policy_record_def)
qed

lemma run_intake_cases:
  assumes "run_intake x env raw d = Inr (res, d', stale)"
  obtains (stored) r claims where "verified x raw r claims" "store_verified x env claims r d = Inr (res, d', stale)"
  | (rejected) etype s violation where "d' = audit_reject env etype s violation None d" "stale = None"
      "\<And>pid v t. res \<noteq> Policy_accepted pid v t"
  using run_intake_shape [of x raw env d] assms by (auto simp: is_reject_def)

definition version_of_claims :: "jobject \<Rightarrow> jobject \<Rightarrow> version_row \<Rightarrow> bool" where
  "version_of_claims claims r v \<longleftrightarrow> jget ''policy_id'' claims = JStr (vr_policy v) \<and> py_int (jget ''policy_version'' claims) = Inr (vr_version v)
     \<and> jget ''policy_type'' claims = JStr (vr_type v) \<and> jget ''tenant_id'' claims = JStr (vr_tenant v) \<and> jget ''team_id'' claims = JStr (vr_team v)
     \<and> jget ''project_id'' claims = JStr (vr_project v) \<and> jget ''agent_id'' claims = JStr (vr_agent v)
     \<and> jget ''signature'' r = JStr (vr_signature v) \<and> vr_payload v = r"

lemma store_verified_cases:
  assumes "store_verified x env claims r d = Inr (res, d', stale)"
  obtains (accepted) v d1 e where "version_of_claims claims r v" "upsert_policy v d = Inr d1" "d' = d1\<lparr>pd_events := pd_events d1 @ [e]\<rparr>"
      "res = Policy_accepted (vr_policy v) (vr_version v) (vr_type v)" "stale = (if vr_type v \<in> set MODEL_DECISION_POLICY_TYPES then Some (vr_tenant v) else None)"
      "pv_type e = ''policy_intake_accepted''"
  | (replay) pid version where "jget ''policy_id'' claims = JStr pid" "py_int (jget ''policy_version'' claims) = Inr version" "\<not> version_fresh pid version d"
      "res = RejectedReplay pid version (the (get_max_version pid d))"
      "d' = audit_reject env ''policy_intake_rejected_replay'' (resolved_scope claims) ''replay'' (Some pid) d" "stale = None"
proof -
  obtain pid version ptype where b: "jget ''policy_id'' claims = JStr pid" "py_int (jget ''policy_version'' claims) = Inr version"
      "jget ''policy_type'' claims = JStr ptype"
    using assms by (auto simp: store_verified_def bindR_eq_Inr json_string_eq_Inr)
  show thesis
  proof (cases "version_fresh pid version d")
    case False
    then show thesis using assms b by (intro replay [of pid version]) (auto simp: store_verified_def)
  next
    case True
    obtain t m p a ft sg where c: "jget ''tenant_id'' claims = JStr t" "jget ''team_id'' claims = JStr m" "jget ''project_id'' claims = JStr p"
        "jget ''agent_id'' claims = JStr a" "jget ''effective_from'' claims = JStr ft" "jget ''signature'' r = JStr sg"
      using assms b True by (auto simp: store_verified_def resolved_scope_def bindR_eq_Inr json_string_eq_Inr)
    have rs: "resolved_scope claims = Inr (t, m, p, a)" using c by (simp add: resolved_scope_def)
    obtain f where f: "ip_pdt x (replace_z ft) = Some (Aware f)"
      using assms b c True rs by (auto simp: store_verified_def split: option.splits py_datetime.splits)
    define v where "v = \<lparr>vr_policy = pid, vr_version = version, vr_type = ptype, vr_tenant = t, vr_team = m, vr_project = p, vr_agent = a,
        vr_from = f, vr_signature = sg, vr_payload = r\<rparr>"
    show thesis
    proof (cases "upsert_policy v d")
      case (Inl e)
      then show thesis using assms b c f True rs by (cases e) (simp_all add: store_verified_def v_def)
    next
      case (Inr d1)
      then have "ie_append_fails env = None" using assms b c f True rs by (simp add: store_verified_def v_def split: option.splits)
      then show thesis using assms b c f True rs Inr
        by (intro accepted [of v d1 "build_policy_event ''policy_intake_accepted'' (t, m, p, a) (ie_request env) ''logged'' (Some pid) None None"])
          (auto simp: store_verified_def v_def version_of_claims_def build_policy_event_def)
    qed
  qed
qed

section \<open>Outcomes of an intake\<close>

definition unchanged_policies :: "policy_db \<Rightarrow> policy_db \<Rightarrow> bool" where
  "unchanged_policies d d' \<longleftrightarrow> pd_policies d' = pd_policies d \<and> pd_versions d' = pd_versions d
     \<and> pd_tenants d' = pd_tenants d \<and> pd_inventory d' = pd_inventory d"

lemma intake_outcome:
  assumes "intake_policy x env raw d = (res, d', stale)"
  obtains (accepted) r claims v d1 e where "verified x raw r claims" "version_of_claims claims r v" "upsert_policy v d = Inr d1"
      "d' = d1\<lparr>pd_events := pd_events d1 @ [e]\<rparr>" "pv_type e = ''policy_intake_accepted''" "res = Inr (Policy_accepted (vr_policy v) (vr_version v) (vr_type v))"
      "stale = (if vr_type v \<in> set MODEL_DECISION_POLICY_TYPES then Some (vr_tenant v) else None)"
  | (refused) "unchanged_policies d d'" "\<And>pid v t. res \<noteq> Inr (Policy_accepted pid v t)"
proof (cases "run_intake x env raw d")
  case (Inl e)
  then show thesis using assms by (intro refused) (auto simp: intake_policy_def unchanged_policies_def)
next
  case (Inr out)
  obtain res' d2 st2 where o: "out = (res', d2, st2)" by (cases out)
  show thesis
  proof (cases "ie_commit_fails env")
    case (Some e)
    then show thesis using assms Inr o by (intro refused) (auto simp: intake_policy_def unchanged_policies_def)
  next
    case None
    then have eq: "res = Inr res'" "d' = d2" "stale = st2" using assms Inr o by (auto simp: intake_policy_def)
    from Inr [unfolded o] show thesis
    proof (cases rule: run_intake_cases)
      case (stored r claims)
      from stored(2) show thesis
      proof (cases rule: store_verified_cases)
        case (accepted v d1 e)
        then show thesis using that(1) [OF stored(1) accepted(1,2)] eq by simp
      next
        case (replay pid version)
        then show thesis using eq by (intro refused) (auto simp: unchanged_policies_def)
      qed
    next
      case (rejected etype s violation)
      then show thesis using eq by (intro refused) (auto simp: unchanged_policies_def)
    qed
  qed
qed

lemma py_eq_JStr [simp]: "py_eq (JStr s) v \<longleftrightarrow> v = JStr s"
  by (auto simp: py_eq_def split: option.splits)

lemma verified_field:
  assumes "verified x raw r claims" "f \<in> set SIGNED_CLAIM_FIELDS" "jget f claims = JStr s"
  shows "jget f r = JStr s"
  using assms by (auto simp: verified_def)

lemma upsert_payloads_named:
  assumes "payloads_named d" "upsert_policy v d = Inr d'" "jget ''policy_id'' (vr_payload v) = JStr (vr_policy v)"
  shows "payloads_named d'"
proof (cases "vr_policy v \<in> po_id ` set (pd_policies d)")
  case True
  then have "pd_policies d' = update_where (\<lambda>p. po_id p = vr_policy v)
                 (\<lambda>p. p\<lparr>po_version := vr_version v, po_type := vr_type v, po_from := vr_from v,
                       po_signature := vr_signature v, po_payload := vr_payload v\<rparr>) (pd_policies d)"
    using assms(2) by (simp add: upsert_policy_eq_Inr)
  then show ?thesis using assms(1,3) by (auto simp: payloads_named_def set_update_where)
next
  case False
  then show ?thesis using assms by (auto simp: payloads_named_def upsert_policy_eq_Inr)
qed

lemma intake_keeps_store:
  assumes "store_ok d" "payloads_named d" "intake_policy x env raw d = (res, d', stale)"
  shows "store_ok d' \<and> payloads_named d'"
  using assms(3)
proof (cases rule: intake_outcome)
  case (accepted r claims v d1 e)
  have "jget ''policy_id'' (vr_payload v) = JStr (vr_policy v)"
    using verified_field [OF accepted(1), of "''policy_id''"] accepted(2) by (simp add: version_of_claims_def SIGNED_CLAIM_FIELDS_def)
  then have "payloads_named d1" by (rule upsert_payloads_named [OF assms(2) accepted(3)])
  then show ?thesis using upsert_policy_ok [OF assms(1) accepted(3)] accepted(4)
    by (simp add: store_ok_def versions_of_def payloads_named_def)
next
  case refused
  then show ?thesis using assms(1,2) by (simp add: unchanged_policies_def store_ok_def versions_of_def payloads_named_def)
qed

section \<open>Replays\<close>

fun intakes :: "intake_params \<Rightarrow> (intake_env \<times> raw_record) list \<Rightarrow> policy_db \<Rightarrow> policy_db" where
  "intakes x [] d = d"
| "intakes x ((env, raw) # ops) d = intakes x ops (fst (snd (intake_policy x env raw d)))"

lemma upsert_versions: "upsert_policy v d = Inr d' \<Longrightarrow> pd_versions d' = pd_versions d @ [v]"
  by (auto simp: upsert_policy_eq_Inr split: if_splits)

lemma upsert_current:
  assumes "upsert_policy v d = Inr d'"
  shows "\<exists>p \<in> set (pd_policies d'). po_id p = vr_policy v \<and> po_version p = vr_version v \<and> po_payload p = vr_payload v"
    and "filter (\<lambda>p. po_id p \<noteq> vr_policy v) (pd_policies d') = filter (\<lambda>p. po_id p \<noteq> vr_policy v) (pd_policies d)"
proof -
  have u: "filter (\<lambda>p. po_id p \<noteq> k) (update_where (\<lambda>p. po_id p = k) f ps) = filter (\<lambda>p. po_id p \<noteq> k) ps"
    if "\<And>p. po_id (f p) = po_id p" for k f ps using that by (induction ps) auto
  show "\<exists>p \<in> set (pd_policies d'). po_id p = vr_policy v \<and> po_version p = vr_version v \<and> po_payload p = vr_payload v"
  proof (cases "vr_policy v \<in> po_id ` set (pd_policies d)")
    case True
    then obtain p where "p \<in> set (pd_policies d)" "po_id p = vr_policy v" by force
    then have "p\<lparr>po_version := vr_version v, po_type := vr_type v, po_from := vr_from v, po_signature := vr_signature v, po_payload := vr_payload v\<rparr>
        \<in> set (pd_policies d')" using assms True by (simp add: upsert_policy_eq_Inr set_update_where)
    then show ?thesis using \<open>po_id p = vr_policy v\<close> by (intro bexI) auto
  qed (use assms in \<open>auto simp: upsert_policy_eq_Inr\<close>)
  show "filter (\<lambda>p. po_id p \<noteq> vr_policy v) (pd_policies d') = filter (\<lambda>p. po_id p \<noteq> vr_policy v) (pd_policies d)"
    using assms by (auto simp: upsert_policy_eq_Inr u split: if_splits)
qed

lemma intake_versions_grow:
  assumes "intake_policy x env raw d = (res, d', stale)"
  shows "set (pd_versions d) \<subseteq> set (pd_versions d')"
  using assms by (cases rule: intake_outcome) (auto simp: unchanged_policies_def dest!: upsert_versions)

lemma intakes_versions_grow: "set (pd_versions d) \<subseteq> set (pd_versions (intakes x ops d))"
proof (induction ops arbitrary: d)
  case (Cons op ops)
  obtain env raw where op: "op = (env, raw)" by force
  obtain res d' st where i: "intake_policy x env raw d = (res, d', st)" using prod_cases3 by blast
  show ?case using intake_versions_grow [OF i] Cons.IH [of d'] op i by auto
qed simp

lemma verified_unique:
  assumes "verified x raw r claims" "verified x raw r' claims'"
  shows "r' = r" "claims' = claims"
  using assms by (auto simp: verified_def)

lemma stale_version:
  assumes "v \<in> set (pd_versions d)" "vr_policy w = vr_policy v" "vr_version w = vr_version v"
  shows "\<not> version_fresh (vr_policy w) (vr_version w) d"
  using assms unfolding version_fresh_iff versions_of_def by force

lemma never_accepted_again:
  assumes "intake_policy x env raw d = (Inr (Policy_accepted pid n t), d', stale)"
    and "intake_policy x env' raw (intakes x ops d') = (res, d'', stale')"
  shows "unchanged_policies (intakes x ops d') d'' \<and> (\<forall>p m u. res \<noteq> Inr (Policy_accepted p m u))"
  using assms(1)
proof (cases rule: intake_outcome)
  case (accepted r claims v d1 e)
  have "v \<in> set (pd_versions d')" using upsert_versions [OF accepted(3)] accepted(4) by simp
  then have v: "v \<in> set (pd_versions (intakes x ops d'))" using intakes_versions_grow by blast
  from assms(2) show ?thesis
  proof (cases rule: intake_outcome)
    case again: (accepted r' claims' w d2 e')
    have "claims' = claims" by (rule verified_unique(2) [OF accepted(1) again(1)])
    then have "vr_policy w = vr_policy v" "vr_version w = vr_version v" using accepted(2) again(2) by (auto simp: version_of_claims_def)
    then have "\<not> version_fresh (vr_policy w) (vr_version w) (intakes x ops d')" by (rule stale_version [OF v])
    then show ?thesis using again(3) by (simp add: upsert_policy_eq_Inr)
  qed blast
qed blast

section \<open>A policy that changes its tenant\<close>

lemma rescoped_nowhere:
  assumes ok: "store_ok d" and p: "p \<in> set (pd_policies d)" "po_id p = pid" "po_tenant p \<noteq> tenant"
    and i: "intake_policy x env raw d = (Inr (Policy_accepted pid n ptype), d', stale)"
    and t: "parse_record x raw = Some (JObj r)" "jget ''tenant_id'' r = JStr tenant"
    and view: "view = denylist_view \<or> view = allowlist_view \<or> view = approval_view"
  shows "\<exists>q \<in> set (pd_policies d'). po_id q = pid \<and> po_tenant q = po_tenant p \<and> po_payload q = r
    \<and> (\<forall>v scope. view (po_payload q) = Inr v \<longrightarrow> po_tenant q = rs_tenant scope \<longrightarrow> \<not> model_matches_scope v scope)"
  using i
proof (cases rule: intake_outcome)
  case (accepted r' claims v d1 e)
  have r: "r' = r" using accepted(1) t(1) by (simp add: verified_def)
  have v: "vr_policy v = pid" "vr_payload v = r" using accepted(2,6) r by (auto simp: version_of_claims_def)
  have "pid \<in> po_id ` set (pd_policies d)" using p by auto
  then have "pd_policies d' = update_where (\<lambda>p. po_id p = pid)
                 (\<lambda>p. p\<lparr>po_version := vr_version v, po_type := vr_type v, po_from := vr_from v,
                       po_signature := vr_signature v, po_payload := r\<rparr>) (pd_policies d)"
    using accepted(3,4) v by (simp add: upsert_policy_eq_Inr)
  then have q: "p\<lparr>po_version := vr_version v, po_type := vr_type v, po_from := vr_from v, po_signature := vr_signature v, po_payload := r\<rparr>
      \<in> set (pd_policies d')" (is "?q \<in> _") using p by (auto simp: set_update_where)
  have "mv_tenant w = tenant" if "base_view r = Inr w" for w
    using that t(2) by (auto simp: base_view_def bindR_eq_Inr)
  then have "mv_tenant w = tenant" if "view r = Inr w" for w
    using that view by (auto simp: denylist_view_def allowlist_view_def approval_view_def bindR_eq_Inr)
  then show ?thesis using q p by (intro bexI [of _ ?q]) (auto simp: model_matches_scope_def)
qed blast

end
