(* ===== verification/Eval_Cache.thy ===== *)
theory Eval_Cache
  imports Policy_Enforce
begin

text \<open>
  \<open>policy.eval_cache\<close>: model decisions cached in Redis under a per-tenant version counter. A
  cached value is the JSON value whose text is stored. A fault means a connection error, a
  timeout or a missing pool: reads miss and writes are skipped. Times are milliseconds of
  Redis's clock.
\<close>

section \<open>State\<close>

record decision_cache =
  dc_versions :: "string \<Rightarrow> int option"
  dc_decisions :: "string \<Rightarrow> (json \<times> int) option" \<comment> \<open>value and expiry\<close>

text \<open>Which steps of one use of the cache fail, and what other workers do between the two reads.\<close>

record cache_env =
  ce_degraded :: bool
  ce_no_client :: bool
  ce_version_fails :: bool
  ce_decision_fails :: bool
  ce_between :: "decision_cache \<Rightarrow> decision_cache"
  ce_now :: int

section \<open>Keys and values\<close>

definition version_key :: "string \<Rightarrow> string" where
  "version_key tenant = ''sentinel:polcache:v:'' @ tenant"

definition decision_key :: "request_scope \<Rightarrow> string \<Rightarrow> int \<Rightarrow> string" where
  "decision_key scope model version = ''sentinel:polcache:d:'' @ rs_tenant scope @ '':'' @ dec_int version @ '':''
     @ rs_team scope @ '':'' @ rs_project scope @ '':'' @ rs_agent scope @ '':'' @ model"

definition encode_decision :: "model_decision \<Rightarrow> json" where
  "encode_decision dec = (case dec of
     ModelDeny pid reason \<Rightarrow> JObj [(''k'', JStr ''deny''), (''policy_id'', JStr pid), (''reason'', JStr reason)]
   | ModelAllow pid \<Rightarrow> JObj [(''k'', JStr ''allow''), (''policy_id'', case pid of None \<Rightarrow> JNull | Some p \<Rightarrow> JStr p)])"

text \<open>A value that is not an object has no \<open>get\<close>; a missing field is a miss. (Python would accept
  a field of another type; the encoder writes strings.)\<close>

definition decode_decision :: "json \<Rightarrow> py_exc + model_decision option" where
  "decode_decision v = (case v of
     JObj d \<Rightarrow>
       if jget ''k'' d = JStr ''deny''
       then (case (jget ''policy_id'' d, jget ''reason'' d) of (JStr p, JStr r) \<Rightarrow> Inr (Some (ModelDeny p r)) | _ \<Rightarrow> Inr None)
       else if jget ''k'' d = JStr ''allow''
       then (case jget ''policy_id'' d of JStr p \<Rightarrow> Inr (Some (ModelAllow (Some p))) | JNull \<Rightarrow> Inr (Some (ModelAllow None)) | _ \<Rightarrow> Inr None)
       else Inr None
   | _ \<Rightarrow> Inl AttributeError)"

section \<open>Operations\<close>

definition cached_version :: "string \<Rightarrow> decision_cache \<Rightarrow> int" where
  "cached_version tenant c = (case dc_versions c (version_key tenant) of None \<Rightarrow> 0 | Some v \<Rightarrow> v)"

definition get_cached_decision ::
  "cache_env \<Rightarrow> request_scope \<Rightarrow> string \<Rightarrow> decision_cache \<Rightarrow> (py_exc + model_decision option \<times> int) \<times> decision_cache" where
  "get_cached_decision env scope model c =
     (if ce_degraded env \<or> ce_no_client env \<or> ce_version_fails env then (Inr (None, 0), c)
      else
        (let version = cached_version (rs_tenant scope) c; c' = ce_between env c in
         if ce_decision_fails env then (Inr (None, 0), c')
         else case dc_decisions c' (decision_key scope model version) of
                None \<Rightarrow> (Inr (None, version), c')
              | Some (v, expiry) \<Rightarrow>
                  if expiry \<le> ce_now env then (Inr (None, version), c')
                  else (bindR (decode_decision v) (\<lambda>dec. Inr (dec, version)), c')))"

definition set_cached_decision ::
  "(rat \<Rightarrow> rat) \<Rightarrow> cache_env \<Rightarrow> rat \<Rightarrow> request_scope \<Rightarrow> string \<Rightarrow> model_decision \<Rightarrow> int \<Rightarrow> decision_cache \<Rightarrow> decision_cache" where
  "set_cached_decision fl env ttl scope model dec version c =
     (if ce_degraded env \<or> ttl \<le> 0 \<or> ce_no_client env \<or> ce_decision_fails env then c
      else c\<lparr>dc_decisions := (dc_decisions c)(decision_key scope model version
               \<mapsto> (encode_decision dec, ce_now env + max \<lfloor>fl (ttl * 1000)\<rfloor> 1))\<rparr>)"

definition invalidate_tenant :: "cache_env \<Rightarrow> string \<Rightarrow> decision_cache \<Rightarrow> decision_cache" where
  "invalidate_tenant env tenant c =
     (if ce_degraded env \<or> ce_no_client env \<or> ce_version_fails env then c
      else c\<lparr>dc_versions := (dc_versions c)(version_key tenant \<mapsto> cached_version tenant c + 1)\<rparr>)"

section \<open>Facts\<close>

lemma decode_encode [simp]: "decode_decision (encode_decision dec) = Inr (Some dec)"
  by (cases dec) (auto simp: encode_decision_def decode_decision_def jget_def split: option.splits)

definition plain_scope :: "request_scope \<Rightarrow> bool" where
  "plain_scope s \<longleftrightarrow> CHR '':'' \<notin> set (rs_tenant s) \<and> CHR '':'' \<notin> set (rs_team s) \<and> CHR '':'' \<notin> set (rs_project s) \<and> CHR '':'' \<notin> set (rs_agent s)"

lemma decision_key_inj:
  assumes "plain_scope s" "plain_scope t" "decision_key s m v = decision_key t n w"
  shows "s = t \<and> m = n \<and> v = w"
proof -
  have e: "rs_tenant s @ '':'' @ dec_int v @ '':'' @ rs_team s @ '':'' @ rs_project s @ '':'' @ rs_agent s @ '':'' @ m
      = rs_tenant t @ '':'' @ dec_int w @ '':'' @ rs_team t @ '':'' @ rs_project t @ '':'' @ rs_agent t @ '':'' @ n"
    using assms(3) by (simp add: decision_key_def)
  note p = assms(1,2) [unfolded plain_scope_def]
  have 1: "rs_tenant s = rs_tenant t \<and> dec_int v @ '':'' @ rs_team s @ '':'' @ rs_project s @ '':'' @ rs_agent s @ '':'' @ m
      = dec_int w @ '':'' @ rs_team t @ '':'' @ rs_project t @ '':'' @ rs_agent t @ '':'' @ n" using colon_split e p by blast
  have 2: "dec_int v = dec_int w \<and> rs_team s @ '':'' @ rs_project s @ '':'' @ rs_agent s @ '':'' @ m
      = rs_team t @ '':'' @ rs_project t @ '':'' @ rs_agent t @ '':'' @ n"
    using colon_split [OF dec_int_no_colon dec_int_no_colon conjunct2 [OF 1]] .
  have 3: "rs_team s = rs_team t \<and> rs_project s @ '':'' @ rs_agent s @ '':'' @ m = rs_project t @ '':'' @ rs_agent t @ '':'' @ n"
    using colon_split 2 p by blast
  have 4: "rs_project s = rs_project t \<and> rs_agent s @ '':'' @ m = rs_agent t @ '':'' @ n" using colon_split 3 p by blast
  have 5: "rs_agent s = rs_agent t \<and> m = n" using colon_split 4 p by blast
  show ?thesis using 1 2 3 4 5 dec_int_inj by (cases s; cases t) auto
qed

section \<open>Uses of the cache by many workers\<close>

datatype cache_op = Set_op cache_env rat request_scope string model_decision int | Invalidate_op cache_env string

fun cache_step :: "(rat \<Rightarrow> rat) \<Rightarrow> cache_op \<Rightarrow> decision_cache \<Rightarrow> decision_cache" where
  "cache_step fl (Set_op env ttl scope model dec version) c = set_cached_decision fl env ttl scope model dec version c"
| "cache_step fl (Invalidate_op env tenant) c = invalidate_tenant env tenant c"

fun cache_run :: "(rat \<Rightarrow> rat) \<Rightarrow> cache_op list \<Rightarrow> decision_cache \<Rightarrow> decision_cache" where
  "cache_run fl [] c = c"
| "cache_run fl (op # ops) c = cache_run fl ops (cache_step fl op c)"

fun op_plain :: "cache_op \<Rightarrow> bool" where
  "op_plain (Set_op env ttl scope model dec version) \<longleftrightarrow> plain_scope scope"
| "op_plain (Invalidate_op env tenant) \<longleftrightarrow> True"

definition written :: "(rat \<Rightarrow> rat) \<Rightarrow> cache_op list \<Rightarrow> request_scope \<Rightarrow> string \<Rightarrow> int \<Rightarrow> model_decision \<Rightarrow> int \<Rightarrow> bool" where
  "written fl ops scope model version dec expiry \<longleftrightarrow>
     (\<exists>env ttl. Set_op env ttl scope model dec version \<in> set ops \<and> 0 < ttl \<and> expiry = ce_now env + max \<lfloor>fl (ttl * 1000)\<rfloor> 1)"

lemma cache_run_append: "cache_run fl (xs @ ys) c = cache_run fl ys (cache_run fl xs c)"
  by (induction xs arbitrary: c) auto

lemma entry_written:
  assumes "dc_decisions c = Map.empty" "list_all op_plain ops" "dc_decisions (cache_run fl ops c) k = Some (v, expiry)"
  shows "\<exists>scope model version dec. plain_scope scope \<and> k = decision_key scope model version \<and> v = encode_decision dec
    \<and> written fl ops scope model version dec expiry"
  using assms(2,3)
proof (induction ops arbitrary: v expiry rule: rev_induct)
  case Nil
  then show ?case using assms(1) by simp
next
  case (snoc op ops)
  let ?c = "cache_run fl ops c"
  have mono: "written fl ops s m n d e \<Longrightarrow> written fl (ops @ [op]) s m n d e" for s m n d e by (auto simp: written_def)
  show ?case
  proof (cases "dc_decisions ?c k = Some (v, expiry)")
    case True
    then show ?thesis using snoc.IH [of v expiry] snoc.prems(1) mono by fastforce
  next
    case False
    then obtain env ttl scope model dec version where op: "op = Set_op env ttl scope model dec version" "0 < ttl"
        "k = decision_key scope model version" "v = encode_decision dec" "expiry = ce_now env + max \<lfloor>fl (ttl * 1000)\<rfloor> 1"
      using snoc.prems(2) by (cases op) (auto simp: cache_run_append set_cached_decision_def invalidate_tenant_def split: if_splits)
    then have "written fl (ops @ [op]) scope model version dec expiry" by (auto simp: written_def)
    then show ?thesis using op snoc.prems(1) by auto
  qed
qed

lemma served_was_computed:
  assumes c: "dc_decisions c = Map.empty" and p: "list_all op_plain (ops @ ops')" "plain_scope scope"
    and g: "get_cached_decision env scope model (cache_run fl ops c) = (Inr (Some dec, version), c')" "ce_between env = cache_run fl ops'"
  shows "\<exists>expiry. written fl (ops @ ops') scope model version dec expiry \<and> ce_now env < expiry"
proof -
  obtain v expiry where v: "dc_decisions (cache_run fl (ops @ ops') c) (decision_key scope model version) = Some (v, expiry)"
      "ce_now env < expiry" "decode_decision v = Inr (Some dec)"
    using g by (auto simp: get_cached_decision_def cache_run_append Let_def bindR_eq_Inr split: if_splits option.splits)
  obtain scope' model' version' dec' where w: "plain_scope scope'" "decision_key scope model version = decision_key scope' model' version'"
      "v = encode_decision dec'" "written fl (ops @ ops') scope' model' version' dec' expiry"
    using entry_written [OF c p(1) v(1)] by blast
  have "scope = scope' \<and> model = model' \<and> version = version'" by (rule decision_key_inj [OF p(2) w(1,2)])
  then show ?thesis using v w by auto
qed

end
