(* ===== verification/Router_Select.thy ===== *)
theory Router_Select
  imports Policy_Intake Eval_Cache
begin

text \<open>
  Sentinel's router: \<open>gateway.router.cost\<close>, the effective routing policy of a tenant, and the
  fallback loops of \<open>gateway.router.selection\<close> with their policy enforcement. Providers are what
  the environment answers: a completion, a provider error of a kind, or another exception.
  Audit events are recorded as the emissions attempted. Words are separated by the white
  space of \<open>is_space\<close>; \<open>fl\<close> rounds a float operation.
\<close>

section \<open>Cost estimates\<close>

record chat_request =
  cq_model :: string
  cq_contents :: "string list"
  cq_n :: int
  cq_max_tokens :: "int option"

fun word_count :: "bool \<Rightarrow> string \<Rightarrow> int" where
  "word_count inside [] = 0"
| "word_count inside (c # s) = (if is_space c then word_count False s else (if inside then 0 else 1) + word_count True s)"

definition COST_TABLE :: "((string \<times> string) \<times> (rat \<times> rat)) list" where
  "COST_TABLE =
    [((''openai'', ''gpt-4o-mini''), (15 / 1000, 6 / 100)),
     ((''openai'', ''gpt-4o''), (25 / 100, 1)),
     ((''openai'', ''gpt-4-turbo''), (1, 3)),
     ((''openai'', ''gpt-4''), (3, 6)),
     ((''openai'', ''gpt-3.5-turbo''), (5 / 100, 15 / 100)),
     ((''openai'', ''gpt-3.5''), (5 / 100, 15 / 100)),
     ((''anthropic'', ''claude-3-5-haiku''), (8 / 100, 4 / 10)),
     ((''anthropic'', ''claude-3-5-sonnet''), (3 / 10, 15 / 10)),
     ((''anthropic'', ''claude-3-haiku''), (25 / 1000, 125 / 1000)),
     ((''anthropic'', ''claude-3-sonnet''), (3 / 10, 15 / 10)),
     ((''anthropic'', ''claude-3-opus''), (15 / 10, 75 / 10)),
     ((''anthropic'', ''claude-opus''), (15 / 10, 75 / 10)),
     ((''anthropic'', ''claude-sonnet''), (3 / 10, 15 / 10)),
     ((''anthropic'', ''claude''), (3 / 10, 15 / 10)),
     ((''bedrock'', ''anthropic.claude-3-5-sonnet''), (3 / 10, 15 / 10)),
     ((''bedrock'', ''anthropic.claude-3-haiku''), (25 / 1000, 125 / 1000)),
     ((''bedrock'', ''anthropic.claude''), (3 / 10, 15 / 10)),
     ((''bedrock'', ''amazon.titan''), (2 / 100, 6 / 100)),
     ((''bedrock'', ''meta.llama''), (3 / 100, 6 / 100))]"

definition DEFAULT_RATE :: "rat \<times> rat" where "DEFAULT_RATE = (3, 6)"

definition starts_with :: "string \<Rightarrow> string \<Rightarrow> bool" where
  "starts_with s p \<longleftrightarrow> take (length p) s = p"

fun best_rate :: "string \<Rightarrow> string \<Rightarrow> int \<Rightarrow> (rat \<times> rat) option \<Rightarrow> ((string \<times> string) \<times> (rat \<times> rat)) list \<Rightarrow> (rat \<times> rat) option" where
  "best_rate provider model best_len best [] = best"
| "best_rate provider model best_len best (((p, prefix), rate) # rows) =
     (if p = provider \<and> starts_with model prefix \<and> int (length prefix) > best_len
      then best_rate provider model (int (length prefix)) (Some rate) rows
      else best_rate provider model best_len best rows)"

definition lookup_rate :: "string \<Rightarrow> string \<Rightarrow> rat \<times> rat" where
  "lookup_rate provider model = (case best_rate provider model (- 1) None COST_TABLE of None \<Rightarrow> DEFAULT_RATE | Some r \<Rightarrow> r)"

definition prompt_word_proxy :: "chat_request \<Rightarrow> int" where
  "prompt_word_proxy body = sum_list (map (word_count False) (cq_contents body))"

definition estimate_from_tokens :: "(rat \<Rightarrow> rat) \<Rightarrow> string \<Rightarrow> string \<Rightarrow> int \<Rightarrow> int \<Rightarrow> rat" where
  "estimate_from_tokens fl provider model tokens_in tokens_out =
     (let (in_rate, out_rate) = lookup_rate provider model in
      fl (fl (fl (of_int tokens_in / 1000) * fl in_rate) + fl (fl (of_int tokens_out / 1000) * fl out_rate)))"

definition estimate_pre_request :: "(rat \<Rightarrow> rat) \<Rightarrow> chat_request \<Rightarrow> string \<Rightarrow> string \<Rightarrow> rat" where
  "estimate_pre_request fl body provider model =
     (let prompt = prompt_word_proxy body; out = (case cq_max_tokens body of Some m \<Rightarrow> m | None \<Rightarrow> max prompt 1) in
      estimate_from_tokens fl provider model prompt out)"

section \<open>The routing policy of a tenant\<close>

record routing_policy =
  rp_allowed :: "string list"
  rp_order :: "string list"
  rp_ceiling :: "rat option"
  rp_default :: bool

record routing_row =
  rr_allowed :: string
  rr_order :: string
  rr_ceiling :: "rat option"

definition KNOWN_PROVIDERS :: "string list" where "KNOWN_PROVIDERS = [''openai'', ''anthropic'', ''bedrock'']"

fun split_commas :: "string \<Rightarrow> string list" where
  "split_commas [] = [[]]"
| "split_commas (c # s) = (if c = CHR '','' then [] # split_commas s
     else case split_commas s of [] \<Rightarrow> [[c]] | p # ps \<Rightarrow> (c # p) # ps)"

definition parse_csv :: "string \<Rightarrow> string list" where
  "parse_csv s = filter (\<lambda>t. t \<noteq> []) (map strip (split_commas s))"

definition default_policy :: routing_policy where
  "default_policy = \<lparr>rp_allowed = KNOWN_PROVIDERS, rp_order = [''openai'', ''anthropic'', ''bedrock''], rp_ceiling = None, rp_default = True\<rparr>"

text \<open>A malformed row raises \<open>RoutingPolicyValidationError\<close>, a \<open>ValueError\<close>.\<close>

definition get_for_tenant :: "(rat \<Rightarrow> rat) \<Rightarrow> routing_row option \<Rightarrow> py_exc + routing_policy" where
  "get_for_tenant fl row = (case row of
     None \<Rightarrow> Inr default_policy
   | Some r \<Rightarrow>
       (let allowed = parse_csv (rr_allowed r); order = parse_csv (rr_order r) in
        bindR (guardR (allowed \<noteq> []) ValueError) (\<lambda>_.
        bindR (guardR (set allowed \<subseteq> set KNOWN_PROVIDERS) ValueError) (\<lambda>_.
        bindR (guardR (set order \<subseteq> set allowed) ValueError) (\<lambda>_.
        Inr \<lparr>rp_allowed = allowed, rp_order = order, rp_ceiling = map_option fl (rr_ceiling r), rp_default = False\<rparr>)))))"

section \<open>Enforcement before routing\<close>

definition prompt_token_proxy :: "chat_request \<Rightarrow> int" where
  "prompt_token_proxy body =
     (let prompt = sum_list (map (word_count False) (cq_contents body));
          out = (case cq_max_tokens body of Some m \<Rightarrow> m | None \<Rightarrow> max prompt 1);
          n = max (if cq_n body = 0 then 1 else cq_n body) 1 in
      prompt + out * n)"

definition lower :: "string \<Rightarrow> string" where
  "lower s = map (\<lambda>c. let n = (of_char c :: nat) in if 65 \<le> n \<and> n \<le> 90 then char_of (n + 32) else c) s"

fun contains :: "string \<Rightarrow> string \<Rightarrow> bool" where
  "contains p [] \<longleftrightarrow> p = []"
| "contains p (c # s) \<longleftrightarrow> starts_with (c # s) p \<or> contains p s"

definition guess_provider :: "string \<Rightarrow> string" where
  "guess_provider model =
     (let m = lower model in
      if starts_with m ''claude'' \<or> contains ''anthropic'' m then ''anthropic''
      else if starts_with m ''amazon.'' \<or> starts_with m ''meta.'' \<or> starts_with m ''bedrock'' then ''bedrock''
      else ''openai'')"

text \<open>What one request reads: its databases, and how the cache and the evaluation behave.\<close>

record enforce_env =
  en_pdt :: "string \<Rightarrow> py_datetime option"
  en_fl :: "rat \<Rightarrow> rat"
  en_cache :: cache_env
  en_cache_set :: cache_env
  en_eval :: eval_env
  en_budget_query_now :: instant
  en_budget_now :: instant
  en_ttl :: rat
  en_db_fails :: "py_exc option"

type_synonym budget_lines = "(budget_view \<times> int \<times> rat) list"

definition enforce_policies_pre_request ::
  "enforce_env \<Rightarrow> request_scope \<Rightarrow> chat_request \<Rightarrow> spend_event list \<Rightarrow> policy_db \<Rightarrow> decision_cache
     \<Rightarrow> (py_exc + model_decision \<times> budget_decision \<times> budget_lines) \<times> decision_cache" where
  "enforce_policies_pre_request e scope body es d c =
     (case get_cached_decision (en_cache e) scope (cq_model body) c of
        (Inl x, c1) \<Rightarrow> (Inl x, c1)
      | (Inr (cached, version), c1) \<Rightarrow>
          (case en_db_fails e of
             Some x \<Rightarrow> (Inl x, c1)
           | None \<Rightarrow>
               (let (dec, c2) = (case cached of
                      Some m \<Rightarrow> (Inr m, c1)
                    | None \<Rightarrow> (case evaluate_model_policies (en_pdt e) (en_eval e) scope (cq_model body) d of
                                Inl x \<Rightarrow> (Inl x, c1)
                              | Inr m \<Rightarrow> (Inr m, set_cached_decision (en_fl e) (en_cache_set e) (en_ttl e) scope (cq_model body) m version c1))) in
                (bindR dec (\<lambda>m. bindR (load_active_budgets (en_fl e) (en_budget_query_now e) (en_budget_now e) scope es d) (\<lambda>budgets.
                   let n = max (if cq_n body = 0 then 1 else cq_n body) 1;
                       est_cost = en_fl e (estimate_pre_request (en_fl e) body (guess_provider (cq_model body)) (cq_model body) * of_int n) in
                   Inr (m, evaluate_budget_against (en_fl e) budgets (prompt_token_proxy body) est_cost, budgets))), c2))))"

definition policy_deny :: "model_decision \<Rightarrow> budget_decision \<Rightarrow> (string \<times> string) option" where
  "policy_deny m b = (case m of
     ModelDeny p r \<Rightarrow> Some (p, r)
   | ModelAllow _ \<Rightarrow> (case b of BudgetExceeded p r \<Rightarrow> Some (p, r) | BudgetOk \<Rightarrow> None))"

section \<open>The fallback loop\<close>

definition effective_chain :: "routing_policy \<Rightarrow> string set \<Rightarrow> int \<Rightarrow> string list" where
  "effective_chain policy available max_fallbacks =
     take (nat (1 + max_fallbacks)) (filter (\<lambda>p. p \<in> set (rp_allowed policy) \<and> p \<in> available) (rp_order policy))"

datatype error_kind = Transient | Rate_limited | Auth | Content_policy | Bad_request | Parse

definition is_retryable :: "error_kind \<Rightarrow> bool" where
  "is_retryable k \<longleftrightarrow> k \<in> {Transient, Rate_limited}"

fun reason_for_kind :: "error_kind \<Rightarrow> string" where
  "reason_for_kind Transient = ''fallback-transient''"
| "reason_for_kind Rate_limited = ''fallback-rate-limit''"
| "reason_for_kind Auth = ''provider-auth''"
| "reason_for_kind Content_policy = ''provider-content-policy''"
| "reason_for_kind Bad_request = ''provider-bad-request''"
| "reason_for_kind Parse = ''provider-parse''"

record routing_event =
  re_provider :: string
  re_reason :: string
  re_outcome :: string
  re_action :: string
  re_attempt :: nat

definition routing_event_of :: "string \<Rightarrow> string \<Rightarrow> string \<Rightarrow> string \<Rightarrow> nat \<Rightarrow> routing_event" where
  "routing_event_of p reason outcome action i = \<lparr>re_provider = p, re_reason = reason, re_outcome = outcome, re_action = action, re_attempt = i\<rparr>"

datatype 'r answer = Completed 'r | Provider_error error_kind | Crashed py_exc

datatype 'r route_outcome = Routed string 'r | Route_blocked | Route_failed | Route_raised py_exc

text \<open>The attempts' environment: whether the shared deadline has passed before attempt \<open>i\<close>, whether
  the adapter is registered, and what it answers.\<close>

record 'r attempts_env =
  ae_expired :: "nat \<Rightarrow> bool"
  ae_registered :: "nat \<Rightarrow> string \<Rightarrow> bool"
  ae_answer :: "nat \<Rightarrow> string \<Rightarrow> 'r answer"

definition cost_blocked :: "(rat \<Rightarrow> rat) \<Rightarrow> routing_policy \<Rightarrow> chat_request \<Rightarrow> string \<Rightarrow> bool" where
  "cost_blocked fl policy body p \<longleftrightarrow>
     (case rp_ceiling policy of None \<Rightarrow> False | Some limit \<Rightarrow> estimate_pre_request fl body p (cq_model body) > limit)"

definition check_allowlist_and_cost :: "(rat \<Rightarrow> rat) \<Rightarrow> routing_policy \<Rightarrow> chat_request \<Rightarrow> string \<Rightarrow> nat \<Rightarrow> routing_event option" where
  "check_allowlist_and_cost fl policy body p i =
     (if p \<notin> set (rp_allowed policy) then Some (routing_event_of p ''tenant-allowlist'' ''allowlist_denied'' ''blocked'' i)
      else if cost_blocked fl policy body p then Some (routing_event_of p ''cost-routing'' ''cost_blocked'' ''blocked'' i)
      else None)"

text \<open>The loop over the chain: the outcome, the events and the calls (attempt and provider), in order. \<open>lk\<close>
  is the kind of the latest failure.\<close>

fun walk_chain ::
  "(rat \<Rightarrow> rat) \<Rightarrow> 'r attempts_env \<Rightarrow> routing_policy \<Rightarrow> chat_request \<Rightarrow> string list \<Rightarrow> nat \<Rightarrow> error_kind option \<Rightarrow> string list
     \<Rightarrow> 'r route_outcome \<times> routing_event list \<times> (nat \<times> string) list" where
  "walk_chain fl a policy body chain i lk [] =
     (Route_failed, [routing_event_of (List.last chain) (reason_for_kind (case lk of None \<Rightarrow> Transient | Some k \<Rightarrow> k)) ''exhausted'' ''blocked'' (length chain - 1)], [])"
| "walk_chain fl a policy body chain i lk (p # ps) =
     (if ae_expired a i
      then (Route_failed, [routing_event_of (List.last chain) (reason_for_kind Transient) ''exhausted'' ''blocked'' (length chain - 1)], [])
      else case check_allowlist_and_cost fl policy body p i of
        Some ev \<Rightarrow> (Route_blocked, [ev], [])
      | None \<Rightarrow>
          if \<not> ae_registered a i p then walk_chain fl a policy body chain (Suc i) lk ps
          else
            (case ae_answer a i p of
               Completed r \<Rightarrow>
                 (Routed p r, [routing_event_of p (if rp_default policy then ''tenant-allowlist'' else ''cost-routing'') ''selected'' ''routed'' i], [(i, p)])
             | Crashed x \<Rightarrow> (Route_raised x, [], [(i, p)])
             | Provider_error k \<Rightarrow>
                 if is_retryable k \<and> i < length chain - 1
                 then (case walk_chain fl a policy body chain (Suc i) (Some k) ps of
                         (out, evs, calls) \<Rightarrow>
                           (out, routing_event_of p (reason_for_kind k) ''fallback_attempted'' ''failed_over'' i # evs, (i, p) # calls))
                 else (Route_failed, [routing_event_of p (reason_for_kind k) ''exhausted'' ''blocked'' i], [(i, p)])))"

text \<open>The events of the policy layer, and the whole of \<open>route_non_stream\<close>.\<close>

definition emit_policy_decision :: "request_scope \<Rightarrow> string \<Rightarrow> bool \<Rightarrow> string \<Rightarrow> string \<Rightarrow> string option \<Rightarrow> policy_event" where
  "emit_policy_decision s request allow pid model reason =
     build_policy_event (if allow then ''policy_decision_allow'' else ''policy_decision_deny'') (rs_tenant s, rs_team s, rs_project s, GATEWAY_AGENT)
       request (if allow then ''logged'' else ''blocked'') (Some pid) (if allow then None else reason) (Some model)"

record 'r route_result =
  ro_outcome :: "'r route_outcome"
  ro_policy_events :: "policy_event list"
  ro_events :: "routing_event list"
  ro_calls :: "(nat \<times> string) list"
  ro_cache :: decision_cache

record 'r router_env =
  ru_enforce :: enforce_env
  ru_request :: string
  ru_row :: "routing_row option"
  ru_available :: "string set"
  ru_max_fallbacks :: int
  ru_attempts :: "'r attempts_env"

definition route_non_stream ::
  "'r router_env \<Rightarrow> request_scope \<Rightarrow> chat_request \<Rightarrow> spend_event list \<Rightarrow> policy_db \<Rightarrow> decision_cache \<Rightarrow> 'r route_result" where
  "route_non_stream env scope body es d c =
     (let fl = en_fl (ru_enforce env); (enforced, c1) = enforce_policies_pre_request (ru_enforce env) scope body es d c;
          result = (\<lambda>out pol evs calls. \<lparr>ro_outcome = out, ro_policy_events = pol, ro_events = evs, ro_calls = calls, ro_cache = c1\<rparr>) in
      case enforced of
        Inl _ \<Rightarrow> result Route_failed [] [] []
      | Inr (m, b, budgets) \<Rightarrow>
          (case policy_deny m b of
             Some (pid, reason) \<Rightarrow> result Route_blocked [emit_policy_decision scope (ru_request env) False pid (cq_model body) (Some reason)] [] []
           | None \<Rightarrow>
               (let pol = (case m of ModelAllow (Some pid) \<Rightarrow> [emit_policy_decision scope (ru_request env) True pid (cq_model body) None] | _ \<Rightarrow> []) in
                case get_for_tenant fl (ru_row env) of
                  Inl x \<Rightarrow> result (Route_raised x) pol [] []
                | Inr policy \<Rightarrow>
                    (let chain = effective_chain policy (ru_available env) (ru_max_fallbacks env) in
                     if chain = [] then result Route_blocked pol [routing_event_of ''openai'' ''tenant-allowlist'' ''allowlist_denied'' ''blocked'' 0] []
                     else case walk_chain fl (ru_attempts env) policy body chain 0 None chain of
                            (out, evs, calls) \<Rightarrow> result out pol evs calls))))"

section \<open>Streaming\<close>

text \<open>A stream's answer is the lines it yields, and the exception that ends it, if any. The route
  yields them as frames, or one error frame; what it exports to the handler is set on commit.\<close>

type_synonym stream_answer = "string list \<times> py_exc option"

datatype frame = Line string | Error_frame string

record stream_export =
  sx_provider :: string
  sx_model :: string
  sx_ceiling :: "rat option"
  sx_budgets :: budget_lines

record stream_result =
  so_frames :: "frame list"
  so_raised :: "py_exc option"
  so_export :: "stream_export option"
  so_policy_events :: "policy_event list"
  so_events :: "routing_event list"
  so_calls :: "(nat \<times> string) list"
  so_cache :: decision_cache

definition route_stream ::
  "stream_answer router_env \<Rightarrow> request_scope \<Rightarrow> chat_request \<Rightarrow> spend_event list \<Rightarrow> policy_db \<Rightarrow> decision_cache \<Rightarrow> stream_result" where
  "route_stream env scope body es d c =
     (let fl = en_fl (ru_enforce env); (enforced, c1) = enforce_policies_pre_request (ru_enforce env) scope body es d c;
          result = (\<lambda>frames raised export pol evs calls. \<lparr>so_frames = frames, so_raised = raised, so_export = export,
             so_policy_events = pol, so_events = evs, so_calls = calls, so_cache = c1\<rparr>) in
      case enforced of
        Inl _ \<Rightarrow> result [Error_frame ''internal_error''] None None [] [] []
      | Inr (m, b, budgets) \<Rightarrow>
          (case policy_deny m b of
             Some (pid, reason) \<Rightarrow>
               result [Error_frame ''policy_blocked''] None None [emit_policy_decision scope (ru_request env) False pid (cq_model body) (Some reason)] [] []
           | None \<Rightarrow>
               (let pol = (case m of ModelAllow (Some pid) \<Rightarrow> [emit_policy_decision scope (ru_request env) True pid (cq_model body) None] | _ \<Rightarrow> []) in
                case get_for_tenant fl (ru_row env) of
                  Inl x \<Rightarrow> result [] (Some x) None pol [] []
                | Inr policy \<Rightarrow>
                    (let chain = effective_chain policy (ru_available env) (ru_max_fallbacks env) in
                     if chain = []
                     then result [Error_frame ''policy_blocked''] None None pol [routing_event_of ''openai'' ''tenant-allowlist'' ''allowlist_denied'' ''blocked'' 0] []
                     else case walk_chain fl (ru_attempts env) policy body chain 0 None chain of
                            (Routed p (lines, x), evs, calls) \<Rightarrow>
                              result (map Line lines) x (Some \<lparr>sx_provider = p, sx_model = cq_model body, sx_ceiling = rp_ceiling policy, sx_budgets = budgets\<rparr>) pol evs calls
                          | (Route_blocked, evs, calls) \<Rightarrow> result [Error_frame ''policy_blocked''] None None pol evs calls
                          | (Route_failed, evs, calls) \<Rightarrow> result [Error_frame ''internal_error''] None None pol evs calls
                          | (Route_raised x, evs, calls) \<Rightarrow> result [] (Some x) None pol evs calls))))"

end
