(* ===== verification/Router_Facts.thy ===== *)
theory Router_Facts
  imports Router_Select
begin

text \<open>
  What the router guarantees: only permitted providers are called, within the attempt cap, and
  only retryable failures are retried; each request ends in one terminal routing event; a
  working provider behind failing ones is reached.
\<close>

section \<open>The loop\<close>

definition call_ok :: "(rat \<Rightarrow> rat) \<Rightarrow> 'r attempts_env \<Rightarrow> routing_policy \<Rightarrow> chat_request \<Rightarrow> string list \<Rightarrow> nat \<times> string \<Rightarrow> bool" where
  "call_ok fl a policy body chain c \<longleftrightarrow> fst c < length chain \<and> chain ! fst c = snd c \<and> snd c \<in> set (rp_allowed policy)
     \<and> \<not> cost_blocked fl policy body (snd c) \<and> \<not> ae_expired a (fst c) \<and> ae_registered a (fst c) (snd c)"

definition retried :: "'r attempts_env \<Rightarrow> nat \<times> string \<Rightarrow> bool" where
  "retried a c \<longleftrightarrow> (\<exists>k. ae_answer a (fst c) (snd c) = Provider_error k \<and> is_retryable k)"

definition terminal_outcomes :: "string list" where
  "terminal_outcomes = [''selected'', ''exhausted'', ''allowlist_denied'', ''cost_blocked'']"

text \<open>The log of a finished request: fail-overs, then one terminal event, \<open>selected\<close> exactly when the
  request was routed. An exception of an adapter leaves no terminal event.\<close>

definition log_ok :: "'r route_outcome \<Rightarrow> routing_event list \<Rightarrow> bool" where
  "log_ok out evs \<longleftrightarrow>
     (case out of
        Route_raised x \<Rightarrow> \<forall>e \<in> set evs. re_outcome e = ''fallback_attempted''
      | _ \<Rightarrow> evs \<noteq> [] \<and> (\<forall>e \<in> set (butlast evs). re_outcome e = ''fallback_attempted'')
             \<and> re_outcome (last evs) \<in> set terminal_outcomes
             \<and> (re_outcome (last evs) = ''selected'' \<longleftrightarrow> (\<exists>p r. out = Routed p r)))"

lemma log_ok_Cons:
  assumes "log_ok out evs" "re_outcome e = ''fallback_attempted''"
  shows "log_ok out (e # evs)"
  using assms by (auto simp: log_ok_def split: route_outcome.splits)

lemma walk_step:
  assumes "ps = drop i chain" "ps = p # qs"
  shows "i < length chain" "chain ! i = p" "qs = drop (Suc i) chain"
  using assms by (metis drop_all linorder_not_le list.discI, metis hd_drop_conv_nth drop_all linorder_not_le list.discI list.sel(1), metis drop_Suc list.sel(3) tl_drop)

lemma walk_facts:
  assumes "walk_chain fl a policy body chain i lk ps = (out, evs, calls)" "ps = drop i chain"
  shows "list_all (\<lambda>c. call_ok fl a policy body chain c \<and> i \<le> fst c) calls \<and> sorted_wrt (<) (map fst calls)
    \<and> list_all (retried a) (butlast calls) \<and> log_ok out evs
    \<and> (\<forall>p r. out = Routed p r \<longrightarrow> calls \<noteq> [] \<and> snd (last calls) = p \<and> ae_answer a (fst (last calls)) p = Completed r)"
  using assms
proof (induction ps arbitrary: i lk out evs calls)
  case Nil
  then show ?case by (auto simp: log_ok_def terminal_outcomes_def routing_event_of_def)
next
  case (Cons p ps)
  note W = walk_step [OF Cons.prems(2) refl]
  show ?case
  proof (cases "ae_expired a i \<or> check_allowlist_and_cost fl policy body p i \<noteq> None")
    case True
    then show ?thesis using Cons.prems(1)
      by (auto simp: log_ok_def terminal_outcomes_def routing_event_of_def check_allowlist_and_cost_def split: if_splits)
  next
    case go: False
    then have perm: "p \<in> set (rp_allowed policy)" "\<not> cost_blocked fl policy body p" "\<not> ae_expired a i"
      by (auto simp: check_allowlist_and_cost_def split: if_splits)
    show ?thesis
    proof (cases "ae_registered a i p")
      case False
      then have "walk_chain fl a policy body chain (Suc i) lk ps = (out, evs, calls)" using Cons.prems(1) go by simp
      from Cons.IH [OF this W(3)] show ?thesis by (auto simp: list_all_iff)
    next
      case reg: True
      have ok: "call_ok fl a policy body chain (i, p)" using W perm reg by (simp add: call_ok_def)
      show ?thesis
      proof (cases "\<exists>k. ae_answer a i p = Provider_error k \<and> is_retryable k \<and> i < length chain - 1")
        case True
        then obtain k where k: "ae_answer a i p = Provider_error k" "is_retryable k" "i < length chain - 1" by blast
        obtain evs' calls' where r: "walk_chain fl a policy body chain (Suc i) (Some k) ps = (out, evs', calls')"
            "evs = routing_event_of p (reason_for_kind k) ''fallback_attempted'' ''failed_over'' i # evs'" "calls = (i, p) # calls'"
          using Cons.prems(1) go reg k by (auto split: prod.splits)
        note I = Cons.IH [OF r(1) W(3)]
        have "log_ok out evs" unfolding r(2) by (rule log_ok_Cons) (use I in \<open>simp_all add: routing_event_of_def\<close>)
        moreover have "retried a (i, p)" using k by (auto simp: retried_def)
        ultimately show ?thesis using I r(3) ok by (auto simp: list_all_iff)
      next
        case False
        then show ?thesis using Cons.prems(1) go reg ok
          by (auto simp: log_ok_def terminal_outcomes_def routing_event_of_def split: answer.splits if_splits)
      qed
    qed
  qed
qed

text \<open>A provider that completes is reached when all before it fail retryably.\<close>

lemma walk_reaches:
  assumes "ps = drop i chain" "i \<le> j" "j < length chain"
    and "\<And>m. i \<le> m \<Longrightarrow> m \<le> j \<Longrightarrow> \<not> ae_expired a m \<and> chain ! m \<in> set (rp_allowed policy) \<and> \<not> cost_blocked fl policy body (chain ! m) \<and> ae_registered a m (chain ! m)"
    and "\<And>m. i \<le> m \<Longrightarrow> m < j \<Longrightarrow> retried a (m, chain ! m)" and "ae_answer a j (chain ! j) = Completed r"
  shows "fst (walk_chain fl a policy body chain i lk ps) = Routed (chain ! j) r"
  using assms
proof (induction ps arbitrary: i lk)
  case Nil
  then show ?case by simp
next
  case (Cons p ps)
  note W = walk_step [OF Cons.prems(1) refl]
  have go: "\<not> ae_expired a i" "check_allowlist_and_cost fl policy body p i = None" "ae_registered a i p"
    using Cons.prems(4) [of i] Cons.prems(2) W(2) by (auto simp: check_allowlist_and_cost_def)
  show ?case
  proof (cases "i = j")
    case True
    then show ?thesis using go Cons.prems(6) W(2) by simp
  next
    case False
    then obtain k where k: "ae_answer a i p = Provider_error k" "is_retryable k" using Cons.prems(2) Cons.prems(5) [of i] W(2) by (auto simp: retried_def)
    have "fst (walk_chain fl a policy body chain (Suc i) (Some k) ps) = Routed (chain ! j) r"
      by (rule Cons.IH [OF W(3)]) (use Cons.prems False in auto)
    moreover have "i < length chain - 1" using False Cons.prems(2,3) by linarith
    ultimately show ?thesis using go k by (auto split: prod.splits)
  qed
qed

section \<open>The route\<close>

lemma chain_bound: "0 \<le> max_fallbacks \<Longrightarrow> int (length (effective_chain policy available max_fallbacks)) \<le> 1 + max_fallbacks"
  by (simp add: effective_chain_def)

lemma chain_set: "p \<in> set (effective_chain policy available max_fallbacks) \<Longrightarrow> p \<in> set (rp_allowed policy) \<and> p \<in> available"
  by (auto simp: effective_chain_def dest: in_set_takeD)

lemma sorted_bounded_length:
  assumes "sorted_wrt (<) xs" "\<forall>x \<in> set xs. x < (n::nat)"
  shows "length xs \<le> n"
proof -
  have "card (set xs) \<le> card {..<n}" using assms(2) by (intro card_mono) auto
  moreover have "distinct xs" using assms(1) by (simp add: strict_sorted_iff)
  ultimately show ?thesis by (simp add: distinct_card)
qed

text \<open>A route that got as far as calling providers.\<close>

lemma route_walked:
  assumes "ro_calls (route_non_stream env scope body es d c) \<noteq> []"
  obtains m b budgets c1 policy out evs calls where
    "enforce_policies_pre_request (ru_enforce env) scope body es d c = (Inr (m, b, budgets), c1)" "policy_deny m b = None"
    "get_for_tenant (en_fl (ru_enforce env)) (ru_row env) = Inr policy"
    "walk_chain (en_fl (ru_enforce env)) (ru_attempts env) policy body (effective_chain policy (ru_available env) (ru_max_fallbacks env)) 0 None
       (effective_chain policy (ru_available env) (ru_max_fallbacks env)) = (out, evs, calls)"
    "ro_outcome (route_non_stream env scope body es d c) = out" "ro_events (route_non_stream env scope body es d c) = evs"
    "ro_calls (route_non_stream env scope body es d c) = calls"
  using assms unfolding route_non_stream_def
  by (auto simp: Let_def split: prod.splits sum.splits option.splits if_splits)

section \<open>Enforcement through the cache\<close>

text \<open>A use of the cache that succeeds, with no other worker in between.\<close>

definition cache_works :: "cache_env \<Rightarrow> bool" where
  "cache_works env \<longleftrightarrow> \<not> ce_degraded env \<and> \<not> ce_no_client env \<and> \<not> ce_version_fails env \<and> \<not> ce_decision_fails env \<and> ce_between env = id"

lemma get_after_set:
  assumes "cache_works env" "cache_works env'" "0 < ttl" "version = cached_version (rs_tenant scope) c"
    "ce_now env' < ce_now env + max \<lfloor>fl (ttl * 1000)\<rfloor> 1"
  shows "get_cached_decision env' scope model (set_cached_decision fl env ttl scope model dec version c)
    = (Inr (Some dec, version), set_cached_decision fl env ttl scope model dec version c)"
  using assms by (simp add: get_cached_decision_def set_cached_decision_def cache_works_def cached_version_def Let_def)

lemma get_miss:
  assumes "cache_works env" "dc_decisions c (decision_key scope model (cached_version (rs_tenant scope) c)) = None"
  shows "get_cached_decision env scope model c = (Inr (None, cached_version (rs_tenant scope) c), c)"
  using assms by (simp add: get_cached_decision_def cache_works_def Let_def)

lemma enforced_from_cache:
  assumes "enforce_policies_pre_request e scope body es d c = (Inr (m, b, budgets), c')"
    and "get_cached_decision (en_cache e) scope (cq_model body) c = (Inr (Some m', version), c1)"
  shows "m = m'"
  using assms by (auto simp: enforce_policies_pre_request_def bindR_eq_Inr Let_def split: option.splits)

lemma enforced_live:
  assumes "enforce_policies_pre_request e scope body es d c = (Inr (m, b, budgets), c')"
    and "get_cached_decision (en_cache e) scope (cq_model body) c = (Inr (None, version), c1)"
  shows "evaluate_model_policies (en_pdt e) (en_eval e) scope (cq_model body) d = Inr m
    \<and> c' = set_cached_decision (en_fl e) (en_cache_set e) (en_ttl e) scope (cq_model body) m version c1"
  using assms by (auto simp: enforce_policies_pre_request_def bindR_eq_Inr Let_def split: option.splits sum.splits)

text \<open>A decision computed on the old tables, after the version was bumped but before the new
  policy is committed, is served from the cache once it is.\<close>

lemma stale_after_commit:
  assumes "cache_works (en_cache e)" "cache_works (en_cache_set e)" "cache_works (en_cache e')" "0 < en_ttl e"
    and miss: "dc_decisions c (decision_key scope (cq_model body) (cached_version (rs_tenant scope) c)) = None"
    and first: "enforce_policies_pre_request e scope body es d c = (Inr (m, b, budgets), c')"
    and soon: "ce_now (en_cache e') < ce_now (en_cache_set e) + max \<lfloor>en_fl e (en_ttl e * 1000)\<rfloor> 1"
    and second: "enforce_policies_pre_request e' scope body es' d' c' = (Inr (m', b', budgets'), c'')"
  shows "m' = m \<and> evaluate_model_policies (en_pdt e) (en_eval e) scope (cq_model body) d = Inr m"
proof -
  let ?v = "cached_version (rs_tenant scope) c"
  have L: "evaluate_model_policies (en_pdt e) (en_eval e) scope (cq_model body) d = Inr m"
      "c' = set_cached_decision (en_fl e) (en_cache_set e) (en_ttl e) scope (cq_model body) m ?v c"
    using enforced_live [OF first get_miss [OF assms(1) miss]] by auto
  have "get_cached_decision (en_cache e') scope (cq_model body) c' = (Inr (Some m, ?v), c')"
    unfolding L(2) by (rule get_after_set [where fl = "en_fl e", OF assms(2,3,4) refl soon])
  then show ?thesis using enforced_from_cache [OF second] L(1) by simp
qed

end
