(* ===== verification/Samples_Sentinel.thy ===== *)
theory Samples_Sentinel
  imports Limiter_Facts Limiter_Local Limiter_Streams Intake_Facts Router_Facts
begin

text \<open>
  Concrete Sentinel states at which the properties are instantiated: a Redis with no keys, a
  worker, signed policy records of two tenants, and a request with two providers.
\<close>

section \<open>The limiter\<close>

definition redis0 :: redis where
  "redis0 = \<lparr>rd_zsets = Map.empty, rd_counters = Map.empty\<rparr>"

definition limits0 :: limit_settings where
  "limits0 = \<lparr>ls_rpm = 2, ls_burst = 2, ls_max_streams = 1\<rparr>"

definition worker0 :: limiter where
  "worker0 = \<lparr>lm_local = no_local, lm_cache = Map.empty, lm_redis = snd (incrby 1 (stream_key ''t1'') redis0), lm_pool = True, lm_degraded = False,
     lm_degraded_emitted = False, lm_classes_emitted = [], lm_events = []\<rparr>"

section \<open>Policies\<close>

definition sig_a :: string where "sig_a = ''aaaaaa.bbbbbb.cccccc''"
definition sig_b :: string where "sig_b = ''aaaaaa.bbbbbb.dddddd''"

definition deny_record :: "string \<Rightarrow> int \<Rightarrow> string \<Rightarrow> jobject" where
  "deny_record tenant version signature =
     [(''policy_type'', JStr ''model_denylist''), (''tenant_id'', JStr tenant), (''team_id'', JStr WILDCARD_UUID),
      (''project_id'', JStr WILDCARD_UUID), (''agent_id'', JStr WILDCARD_AGENT), (''policy_id'', JStr ''p1''),
      (''policy_version'', JInt version), (''effective_from'', JStr ''x''), (''signature'', JStr signature),
      (''denied_model_ids'', JArr [JStr ''gpt-4'']), (''reason'', JStr ''r'')]"

definition claims_for :: "string \<Rightarrow> int \<Rightarrow> jobject" where
  "claims_for tenant version =
     [(''tenant_id'', JStr tenant), (''team_id'', JStr WILDCARD_UUID), (''project_id'', JStr WILDCARD_UUID), (''agent_id'', JStr WILDCARD_AGENT),
      (''policy_id'', JStr ''p1''), (''policy_version'', JInt version), (''effective_from'', JStr ''x''), (''policy_type'', JStr ''model_denylist''),
      (''policy_hash'', JStr ''h'')]"

definition intake0 :: intake_params where
  "intake0 = \<lparr>ip_loads = (\<lambda>_. None), ip_schema_errors = (\<lambda>_. []), ip_key = True,
     ip_verify = (\<lambda>s. if s = sig_a then Some (claims_for ''t1'' 1) else if s = sig_b then Some (claims_for ''t2'' 2) else None),
     ip_hash = (\<lambda>_. ''h''), ip_pdt = (\<lambda>_. Some (Aware 0))\<rparr>"

definition intake_env0 :: intake_env where
  "intake_env0 = \<lparr>ie_request = ''pol-1'', ie_reject_audit_fails = False, ie_append_fails = None, ie_commit_fails = None\<rparr>"

definition policies0 :: policy_db where
  "policies0 = \<lparr>pd_tenants = [''t1'', ''t2''], pd_policies = [], pd_versions = [], pd_events = [], pd_inventory = (\<lambda>_. None)\<rparr>"

definition row_a :: policy_row where
  "row_a = \<lparr>po_id = ''p1'', po_type = ''model_denylist'', po_tenant = ''t1'', po_team = WILDCARD_UUID, po_project = WILDCARD_UUID, po_agent = WILDCARD_AGENT,
     po_version = 1, po_from = 0, po_signature = sig_a, po_payload = deny_record ''t1'' 1 sig_a\<rparr>"

definition version_a :: version_row where
  "version_a = \<lparr>vr_policy = ''p1'', vr_version = 1, vr_type = ''model_denylist'', vr_tenant = ''t1'', vr_team = WILDCARD_UUID, vr_project = WILDCARD_UUID,
     vr_agent = WILDCARD_AGENT, vr_from = 0, vr_signature = sig_a, vr_payload = deny_record ''t1'' 1 sig_a\<rparr>"

definition version_b :: version_row where
  "version_b = \<lparr>vr_policy = ''p1'', vr_version = 2, vr_type = ''model_denylist'', vr_tenant = ''t2'', vr_team = WILDCARD_UUID, vr_project = WILDCARD_UUID,
     vr_agent = WILDCARD_AGENT, vr_from = 0, vr_signature = sig_b, vr_payload = deny_record ''t2'' 2 sig_b\<rparr>"

definition accept_event :: "string \<Rightarrow> policy_event" where
  "accept_event tenant = build_policy_event ''policy_intake_accepted'' (tenant, WILDCARD_UUID, WILDCARD_UUID, WILDCARD_AGENT) ''pol-1'' ''logged'' (Some ''p1'') None None"

definition policies1 :: policy_db where
  "policies1 = policies0\<lparr>pd_policies := [row_a], pd_versions := [version_a], pd_events := [accept_event ''t1'']\<rparr>"

definition policies2 :: policy_db where
  "policies2 = policies0\<lparr>pd_policies := [row_a\<lparr>po_version := 2, po_signature := sig_b, po_payload := deny_record ''t2'' 2 sig_b\<rparr>],
     pd_versions := [version_a, version_b], pd_events := [accept_event ''t1'', accept_event ''t2'']\<rparr>"

lemmas sentinel_samples = intake0_def intake_env0_def policies0_def policies1_def policies2_def row_a_def version_a_def version_b_def
  deny_record_def claims_for_def accept_event_def

lemma sig_ok: "validate_signature sig_a = Inr ()" "validate_signature sig_b = Inr ()" "sig_a \<noteq> sig_b" "sig_b \<noteq> sig_a"
  by code_simp+

lemma verified_a: "verified intake0 (Raw_dict (deny_record ''t1'' 1 sig_a)) (deny_record ''t1'' 1 sig_a) (claims_for ''t1'' 1)"
  by (simp add: verified_def parse_record_def intake0_def deny_record_def claims_for_def jget_def jhas_def SIGNED_CLAIM_FIELDS_def
      CONTENT_HASH_CLAIM_def py_eq_def WILDCARD_UUID_def)

lemma verified_b: "verified intake0 (Raw_dict (deny_record ''t2'' 2 sig_b)) (deny_record ''t2'' 2 sig_b) (claims_for ''t2'' 2)"
  using sig_ok by (simp add: verified_def parse_record_def intake0_def deny_record_def claims_for_def jget_def jhas_def SIGNED_CLAIM_FIELDS_def
      CONTENT_HASH_CLAIM_def py_eq_def WILDCARD_UUID_def)

text \<open>The first record is accepted into the empty tables, and the second, of another tenant but the
  same policy, after it.\<close>

lemma intake_a: "intake_policy intake0 intake_env0 (Raw_dict (deny_record ''t1'' 1 sig_a)) policies0
    = (Inr (Policy_accepted ''p1'' 1 ''model_denylist''), policies1, Some ''t1'')"
proof -
  have up: "upsert_policy version_a policies0 = Inr (policies0\<lparr>pd_versions := [version_a], pd_policies := [row_a]\<rparr>)"
    unfolding upsert_policy_eq_Inr using sig_ok
    by (simp add: version_a_def policies0_def row_a_def VALID_POLICY_TYPES_def version_fresh_def get_max_version_def)
  have "store_verified intake0 intake_env0 (claims_for ''t1'' 1) (deny_record ''t1'' 1 sig_a) policies0
      = Inr (Policy_accepted ''p1'' 1 ''model_denylist'', policies1, Some ''t1'')"
    using up by (simp add: store_verified_def resolved_scope_def jget_def version_fresh_def get_max_version_def sentinel_samples
        MODEL_DECISION_POLICY_TYPES_def)
  moreover have "run_intake intake0 intake_env0 (Raw_dict (deny_record ''t1'' 1 sig_a)) policies0
      = store_verified intake0 intake_env0 (claims_for ''t1'' 1) (deny_record ''t1'' 1 sig_a) policies0"
    by (rule run_intake_verified [OF verified_a])
  ultimately show ?thesis by (simp add: intake_policy_def intake_env0_def)
qed

lemma intake_b: "intake_policy intake0 intake_env0 (Raw_dict (deny_record ''t2'' 2 sig_b)) policies1
    = (Inr (Policy_accepted ''p1'' 2 ''model_denylist''), policies2, Some ''t2'')"
proof -
  have up: "upsert_policy version_b policies1 = Inr (policies1\<lparr>pd_versions := [version_a, version_b],
      pd_policies := [row_a\<lparr>po_version := 2, po_signature := sig_b, po_payload := deny_record ''t2'' 2 sig_b\<rparr>]\<rparr>)"
    unfolding upsert_policy_eq_Inr using sig_ok
    by (simp add: version_a_def version_b_def policies0_def policies1_def row_a_def VALID_POLICY_TYPES_def version_fresh_def get_max_version_def)
  have "store_verified intake0 intake_env0 (claims_for ''t2'' 2) (deny_record ''t2'' 2 sig_b) policies1
      = Inr (Policy_accepted ''p1'' 2 ''model_denylist'', policies2, Some ''t2'')"
    using up by (simp add: store_verified_def resolved_scope_def jget_def version_fresh_def get_max_version_def sentinel_samples
        MODEL_DECISION_POLICY_TYPES_def)
  moreover have "run_intake intake0 intake_env0 (Raw_dict (deny_record ''t2'' 2 sig_b)) policies1
      = store_verified intake0 intake_env0 (claims_for ''t2'' 2) (deny_record ''t2'' 2 sig_b) policies1"
    by (rule run_intake_verified [OF verified_b])
  ultimately show ?thesis by (simp add: intake_policy_def intake_env0_def)
qed

section \<open>Requests\<close>

definition scope_a :: request_scope where
  "scope_a = \<lparr>rs_tenant = ''t1'', rs_team = ''m1'', rs_project = ''q1'', rs_agent = ''a1''\<rparr>"

definition body_a :: chat_request where
  "body_a = \<lparr>cq_model = ''gpt-4'', cq_contents = [''hi''], cq_n = 1, cq_max_tokens = Some 10\<rparr>"

definition cache_env_at :: "int \<Rightarrow> cache_env" where
  "cache_env_at now = \<lparr>ce_degraded = False, ce_no_client = False, ce_version_fails = False, ce_decision_fails = False, ce_between = id, ce_now = now\<rparr>"

definition cache0 :: decision_cache where
  "cache0 = \<lparr>dc_versions = Map.empty, dc_decisions = Map.empty\<rparr>"

definition eval_env0 :: eval_env where
  "eval_env0 = \<lparr>ee_now = 5, ee_deny_now = 5, ee_allow_now = 5, ee_approval_now = 5, ee_inventory_fails = False\<rparr>"

definition enforce_at :: "int \<Rightarrow> enforce_env" where
  "enforce_at now = \<lparr>en_pdt = (\<lambda>_. Some (Aware 0)), en_fl = (\<lambda>x. x), en_cache = cache_env_at now, en_cache_set = cache_env_at now, en_eval = eval_env0,
     en_budget_query_now = 5, en_budget_now = 5, en_ttl = 5, en_db_fails = None\<rparr>"

definition attempts0 :: "string attempts_env" where
  "attempts0 = \<lparr>ae_expired = (\<lambda>_. False), ae_registered = (\<lambda>_ _. True),
     ae_answer = (\<lambda>i p. if p = ''openai'' then Provider_error Transient else Completed ''ok'')\<rparr>"

definition router0 :: "string router_env" where
  "router0 = \<lparr>ru_enforce = enforce_at 0, ru_request = ''r1'', ru_row = None, ru_available = {''openai'', ''anthropic''}, ru_max_fallbacks = 2, ru_attempts = attempts0\<rparr>"

lemma no_active [simp]: "get_active_policies_for_scope tenant ptype now policies0 = []"
  by (simp add: get_active_policies_for_scope_def policies0_def)

lemma active_a: "get_active_policies_for_scope ''t1'' ''model_denylist'' 5 policies1 = [row_a]"
    "get_active_policies_for_scope ''t1'' ''model_allowlist'' 5 policies1 = []" "get_active_policies_for_scope ''t1'' ''budget_limit'' 5 policies1 = []"
  by (simp_all add: get_active_policies_for_scope_def policies1_def policies0_def row_a_def)

lemma evaluate_empty: "evaluate_model_policies pdt env scope model policies0 = Inr (ModelAllow None)"
  by (simp add: evaluate_model_policies_def Let_def resolve_model_decision_def select_approval_policy_def)

lemma evaluate_denied: "evaluate_model_policies pdt eval_env0 scope_a ''gpt-4'' policies1 = Inr (ModelDeny ''p1'' ''model_denied'')"
  by (simp add: evaluate_model_policies_def Let_def scope_a_def eval_env0_def active_a row_a_def deny_record_def denylist_view_def base_view_def jget_def
      model_matches_scope_def resolve_model_decision_def WILDCARD_UUID_def WILDCARD_AGENT_def)

lemma cache_works0 [simp]: "cache_works (cache_env_at now)"
  by (simp add: cache_works_def cache_env_at_def)

lemma enforced_first:
  assumes "dc_decisions c (decision_key scope_a ''gpt-4'' (cached_version ''t1'' c)) = None"
  shows "enforce_policies_pre_request (enforce_at now) scope_a body_a [] policies0 c
    = (Inr (ModelAllow None, BudgetOk, []), set_cached_decision (\<lambda>x. x) (cache_env_at now) 5 scope_a ''gpt-4'' (ModelAllow None) (cached_version ''t1'' c) c)"
  using get_miss [OF cache_works0, of c scope_a "''gpt-4''" now] assms
  by (simp add: enforce_policies_pre_request_def enforce_at_def body_a_def scope_a_def evaluate_empty load_active_budgets_def Let_def)

lemma chain0: "effective_chain default_policy {''openai'', ''anthropic''} 2 = [''openai'', ''anthropic'']"
  by (simp add: effective_chain_def default_policy_def KNOWN_PROVIDERS_def)

lemma store_ok0: "store_ok policies0" "payloads_named policies0"
  by (simp_all add: store_ok_def policies0_def versions_of_def payloads_named_def)

lemma store_ok1: "store_ok policies1" "payloads_named policies1"
  using intake_keeps_store [OF store_ok0 intake_a] by auto

text \<open>A second request, with the deny-list committed, finds the cached decision.\<close>

lemma enforced_second:
  assumes "cache_works env" "now < ce_now env + 5000"
  shows "enforce_policies_pre_request (enforce_at now) scope_a body_a [] policies1
      (set_cached_decision (\<lambda>x. x) env 5 scope_a ''gpt-4'' dec (cached_version ''t1'' c) c)
    = (Inr (dec, BudgetOk, []), set_cached_decision (\<lambda>x. x) env 5 scope_a ''gpt-4'' dec (cached_version ''t1'' c) c)"
proof -
  have "get_cached_decision (cache_env_at now) scope_a ''gpt-4'' (set_cached_decision (\<lambda>x. x) env 5 scope_a ''gpt-4'' dec (cached_version ''t1'' c) c)
      = (Inr (Some dec, cached_version ''t1'' c), set_cached_decision (\<lambda>x. x) env 5 scope_a ''gpt-4'' dec (cached_version ''t1'' c) c)"
    by (rule get_after_set [OF assms(1) cache_works0]) (use assms(2) in \<open>simp_all add: scope_a_def cache_env_at_def\<close>)
  then show ?thesis
    by (simp add: enforce_policies_pre_request_def enforce_at_def body_a_def load_active_budgets_def active_a Let_def)
      (simp add: scope_a_def active_a)
qed

lemma routed0: "ro_calls (route_non_stream router0 scope_a body_a [] policies0 cache0) = [(0, ''openai''), (1, ''anthropic'')]"
  using enforced_first [of cache0 0]
  by (simp add: route_non_stream_def router0_def cache0_def policy_deny_def get_for_tenant_def chain0 Let_def attempts0_def
      check_allowlist_and_cost_def cost_blocked_def default_policy_def KNOWN_PROVIDERS_def is_retryable_def effective_chain_def)

end
