(* ===== verification/Further_Results.thy ===== *)
theory Further_Results
  imports Samples_Enforcement Samples_Sentinel
begin

text \<open>
  Further theorems about Delta and Sentinel, each with an instance at a concrete state: ledger
  reversals and appends, edge-triggered enforcement, drains, the kill switch, audit appends,
  periods, reconciliation, allocation proposals, revenue events, and three cases in which the
  code departs from its documentation.
\<close>

text \<open>
  Reversing a transaction inside a budget window leaves the spend of every scope as if the
  original entries had never been posted.
\<close>

theorem reversal_undoes_spend:
  assumes "ledger_ok d" and "reverse_transaction u4 sess orig new (Aware t) desc idem d = Inr (res, d')" and "ap_applied res"
    and "ps \<le> t" and "t < pe" and "list_all (\<lambda>e. ps \<le> le_time e \<and> le_time e < pe) (txn_entries orig d)"
  shows "scope_spend_cents sess sc sess team proj agent cur ps pe d'
    = scope_spend_cents sess sc sess team proj agent cur ps pe (d\<lparr>entries := filter (\<lambda>e. le_txn e \<noteq> orig) (entries d)\<rparr>)"
  using reversal_restores_spend [OF assms(1-5)] assms(6) by (simp add: list_all_iff)
theorem reversal_undoes_spend_witness:
  "\<exists>res d'. reverse_transaction uuid0 tenant0 (uuid0 73) (uuid0 99) (Aware now0) ''undo'' (Some ''undo'') ledger0 = Inr (res, d')
     \<and> ap_applied res \<and> scope_spend_cents tenant0 STENANT tenant0 [] [] [] ''USD'' now0 (now0 + 1) d' = 0"
proof -
  obtain res d' where r: "reverse_transaction uuid0 tenant0 (uuid0 73) (uuid0 99) (Aware now0) ''undo'' (Some ''undo'') ledger0
      = Inr (res, d')" "ap_applied res"
    using reverse0 by blast
  have "list_all (\<lambda>e. now0 \<le> le_time e \<and> le_time e < now0 + 1) (txn_entries (uuid0 73) ledger0)"
    by (simp add: txn_entries_def ledger0_def leg0_def)
  from reversal_undoes_spend [OF ledger_ok_ledger0 r _ _ this] r show ?thesis
    by (auto simp: scope_spend_cents_def ledger0_def leg0_def)
qed

text \<open>
  A reversal is a compensating transaction: for every choice of accounts, teams, projects and
  agents the signed amounts of the original and of the new entries add up to zero, the original
  entries stay untouched, and the ledger stays sound.
\<close>

theorem reversal_nets_to_zero:
  assumes "ledger_ok d" and "reverse_transaction u4 sess orig new ts desc idem d = Inr (res, d')" and "ap_applied res"
  shows "total signed_cents (filter (\<lambda>e. P (le_account e) (le_team e) (le_project e) (le_agent e)) (txn_entries new d'))
      + total signed_cents (filter (\<lambda>e. P (le_account e) (le_team e) (le_project e) (le_agent e)) (txn_entries orig d')) = 0
    \<and> txn_entries orig d' = txn_entries orig d \<and> ledger_ok d'"
  using reverse_transaction_nets(1) [OF assms, of P] reverse_transaction_nets(2) [OF assms] reverse_transaction_ledger_ok [OF assms(1,2)] by simp
theorem reversal_nets_to_zero_witness:
  "\<exists>res d'. reverse_transaction uuid0 tenant0 (uuid0 73) (uuid0 99) (Aware now0) ''undo'' (Some ''undo'') ledger0 = Inr (res, d')
     \<and> ledger_ok d' \<and> total signed_cents (filter (\<lambda>e. le_account e = uuid0 48) (txn_entries (uuid0 99) d')) = - 250"
proof -
  obtain res d' where r: "reverse_transaction uuid0 tenant0 (uuid0 73) (uuid0 99) (Aware now0) ''undo'' (Some ''undo'') ledger0
      = Inr (res, d')" "ap_applied res"
    using reverse0 by blast
  have "total signed_cents (filter (\<lambda>e. le_account e = uuid0 48) (txn_entries (uuid0 73) ledger0)) = 250"
    by (simp add: txn_entries_def ledger0_def leg0_def signed_cents_def)
  then show ?thesis
    using reversal_nets_to_zero [OF ledger_ok_ledger0 r, of "\<lambda>a _ _ _. a = uuid0 48"] r by auto
qed

text \<open>
  Whatever transaction a caller hands to the ledger store, balanced or not, an append that
  commits keeps the ledger sound, and it either adds that transaction with exactly its entries
  under an id and an idempotency key not used before, or changes nothing because the key is
  already taken, and its result says which.
\<close>

theorem append_adds_one_balanced_transaction:
  assumes "ledger_ok d" and "append_transaction sess x idem rv d = Inr (res, d')"
  shows "ledger_ok d' \<and>
    (if ap_applied res
     then d' = d\<lparr>transactions := transactions d @ [txn_row_of x idem rv],
            entries := entries d @ map (entry_row_of (t_id x)) (t_entries x)\<rparr>
          \<and> t_id x \<notin> tr_id ` set (transactions d) \<and> t_tenant x = sess
     else d' = d \<and> ap_replay res \<and> (t_tenant x, idem) \<in> (\<lambda>t. (tr_tenant t, tr_idem t)) ` set (transactions d))"
  using assms(2) append_transaction_ledger_ok [OF assms] by (cases rule: append_transaction_cases) auto
theorem append_adds_one_balanced_transaction_witness:
  "\<exists>x res. append_transaction tenant0 x (Some event0) None ledger0 = Inr (res, ledger0) \<and> ap_replay res \<and> ledger_ok ledger0"
proof -
  obtain x res d' where a: "append_transaction tenant0 x (Some event0) None ledger0 = Inr (res, d')" "\<not> ap_applied res"
    using append0 by blast
  then show ?thesis using append_adds_one_balanced_transaction [OF ledger_ok_ledger0 a(1)] by auto
qed

text \<open>
  Enforcement is edge-triggered: once a budget has been evaluated, evaluating it again within
  the same period on an unchanged ledger, whatever the drains did in between, queues no further
  decision.
\<close>

theorem enforcement_is_edge_triggered:
  assumes "evaluate_budget sha u4 st sess b now d = Inr (oc, d1)" and "distinct (map state_key (bstates d))"
    and "period_start (bd_period b) now \<le> now'" and "now' < period_end (bd_period b) now"
    and "ledger_same d1 d2" and "bstates d2 = bstates d1"
    and "evaluate_budget sha u4 st sess b now' d2 = Inr (oc', d3)"
  shows "boutbox d3 = boutbox d2 \<and> history d3 = history d2"
  using evaluate_budget_quiet [OF assms(7)] evaluate_budget_distinct [OF assms(1,2)] evaluate_budget_again [OF assms] assms(6)
  by simp
theorem enforcement_is_edge_triggered_witness:
  "\<exists>d1 oc d2. evaluate_budget sha0 u4_0 engine0 tenant0 budget0 now0 budget_db0 = Inr (Decided TEnforce 1, d1)
     \<and> evaluate_budget sha0 u4_0 engine0 tenant0 budget0 now0 d1 = Inr (oc, d2) \<and> boutbox d2 = boutbox d1"
proof -
  obtain d1 oc d2 where e: "evaluate_budget sha0 u4_0 engine0 tenant0 budget0 now0 budget_db0 = Inr (Decided TEnforce 1, d1)"
    "evaluate_budget sha0 u4_0 engine0 tenant0 budget0 now0 d1 = Inr (oc, d2)"
    using evaluate0_again by blast
  have "distinct (map state_key (bstates budget_db0))" by (simp add: budget_db0_def ledger0_def empty_db_def)
  from enforcement_is_edge_triggered [OF e(1) this period_contains ledger_same_refl refl e(2)] e show ?thesis by blast
qed

text \<open>
  Delivery attempts stay bounded: if every pending row has been tried fewer times than the
  configured maximum, this still holds after a drain, so a row at its limit has left the pending
  state; rows of other tenants and rows already delivered or failed are not touched.
\<close>

theorem drain_attempts_bounded:
  assumes "distinct (map ob_id (boutbox d))"
    and "list_all (\<lambda>r. 0 \<le> ob_attempts r \<and> (ob_state r = Pending \<longrightarrow> ob_attempts r < es_max_attempts st)) (boutbox d)"
  shows "list_all (\<lambda>r. 0 \<le> ob_attempts r \<and> (ob_state r = Pending \<longrightarrow> ob_attempts r < es_max_attempts st))
      (boutbox (bpo_drain_tenant pystr st env t now d))
    \<and> list_all (\<lambda>r. ob_tenant r \<noteq> t \<or> ob_state r \<noteq> Pending \<longrightarrow> r \<in> set (boutbox (bpo_drain_tenant pystr st env t now d))) (boutbox d)"
proof -
  have ok: "bpo.outbox_ok st (boutbox d)" using assms by (simp add: bpo.outbox_ok_def list_all_iff)
  show ?thesis
    using bpo.drain_ok [OF ok] bpo.drain_frame [OF ok] assms(2)
    by (auto simp: bpo_drain_tenant_def Let_def bpo.outbox_ok_def list_all_iff)
qed
theorem drain_attempts_bounded_witness:
  "list_all (\<lambda>r. ob_state r = Pending \<longrightarrow> ob_attempts r < 8)
     (boutbox (bpo_drain_tenant pystr0 engine0 drain_ok0 tenant0 now0 (budget_db0\<lparr>boutbox := [outbox_row0]\<rparr>)))"
  using drain_attempts_bounded [of "budget_db0\<lparr>boutbox := [outbox_row0]\<rparr>" engine0 pystr0 drain_ok0 tenant0 now0]
  by (auto simp: outbox_row0_def engine0_def list_all_iff)

text \<open>
  An event of an agent that is not on its tenant's allow-list, or whose cost is above the
  single-transaction ceiling, leaves its scope killed once the evaluation commits, with a kill
  decision queued under the scope's current version; this also holds when the scope was already
  killed.
\<close>

theorem offending_event_is_killed:
  assumes "kill_reach sha u4 pystr st d" and "inj_on u4 {..<uuid_ctr d'}"
    and "kill_txn sha u4 st r now d = Inr d'"
    and "is_tenant_gated (u_tenant r) (u_tenant r) d \<and> \<not> is_authorized (u_tenant r) (u_tenant r) (u_agent r) d
      \<or> (\<exists>ceiling. kc_max_tx st = Some ceiling \<and> ceiling < u_cost r)"
  shows "\<exists>k \<in> set (kstates d'). ks_key k = (u_tenant r, u_team r, u_project r, u_agent r) \<and> ks_state k = Killed
    \<and> (\<exists>o' \<in> set (policy_rows (ks_tenant k) (ks_policy k) (koutbox d')). ob_version o' = ks_version k \<and> ob_transition o' = TKill)"
proof -
  have "inj_on u4 {..<uuid_ctr d}" using ids_fresh_mono [OF assms(2) kill_txn_ctr [OF assms(3)]] .
  then have ok: "kill_ok u4 d" using kill_reach_ok [OF assms(1)] by blast
  from assms(3) show ?thesis
  proof (cases rule: kill_txn_Inr)
    case quiet
    then show ?thesis using assms(4) by (auto simp: detect_reason_def unauthorized_reason_def anomalous_reason_def split: option.splits if_splits)
  next
    case (kill reason)
    from do_kill_Inr [OF ok assms(2) kill(1)] obtain k where k: "kill_ok u4 d'" "k \<in> set (kstates d')"
      "ks_key k = (u_tenant r, u_team r, u_project r, u_agent r)" "ks_state k = Killed" by metis
    then show ?thesis using scope_ok_newest [OF kill_okD(4) [OF k(1,2)] k(4)] by blast
  qed
qed
theorem offending_event_is_killed_witness:
  "\<exists>d. kill_txn sha0 u4_0 kill_settings0 record0 now0 empty_db = Inr d
     \<and> (\<exists>k \<in> set (kstates d). ks_key k = (tenant0, team0, project0, agent0) \<and> ks_state k = Killed)"
proof -
  obtain d where d: "kill_txn sha0 u4_0 kill_settings0 record0 now0 empty_db = Inr d" using kill0 by blast
  have "inj_on u4_0 {..<uuid_ctr d}" using inj_u4_0 by (rule inj_on_subset) simp
  moreover have "kill_reach sha0 u4_0 pystr0 kill_settings0 empty_db" by (rule kill_reach.start) (simp_all add: empty_db_def)
  ultimately show ?thesis
    using offending_event_is_killed [OF _ _ d, of pystr0] d by (auto simp: kill_settings0_def record0_def)
qed

text \<open>
  Authorizing an agent puts it on the allow-list and clears exactly the scopes that were killed
  because it was unauthorized: scopes killed for a cost anomaly, scopes of other agents or
  tenants, and scopes not killed keep their rows, and the returned ids are those of the cleared
  scopes.
\<close>

theorem authorizing_clears_exactly_its_kills:
  assumes "kill_reach sha u4 pystr st d" and "inj_on u4 {..<uuid_ctr d}"
    and "authorize_agent sha u4 sess t agent now d = Inr (ids, d')"
  shows "is_authorized t t agent d'
    \<and> ids = map ks_id (filter (unauthorized_kill t agent) (kstates d))
    \<and> kstates d' = update_where (unauthorized_kill t agent) (cleared_row now) (kstates d)"
  using authorize_agent_Inr [OF kill_reach_ok [OF assms(1,2)] assms(3)] by blast
theorem authorizing_clears_exactly_its_kills_witness:
  "\<exists>ids d'. authorize_agent sha0 u4_0 tenant0 tenant0 agent0 now0 empty_db = Inr (ids, d') \<and> is_authorized tenant0 tenant0 agent0 d'"
proof -
  obtain ids d' where a: "authorize_agent sha0 u4_0 tenant0 tenant0 agent0 now0 empty_db = Inr (ids, d')"
    by (simp add: authorize_agent_def insert_nothing_def killed_scopes_for_agent_def empty_db_def Let_def)
  have "kill_reach sha0 u4_0 pystr0 kill_settings0 empty_db" by (rule kill_reach.start) (simp_all add: empty_db_def)
  from authorizing_clears_exactly_its_kills [OF this _ a] a show ?thesis by (simp add: empty_db_def)
qed

text \<open>
  Appending an audit row keeps the hash chain of every tenant valid: the invariant is kept, and
  after it verification succeeds for every tenant and has checked every row of that tenant.
\<close>

theorem audit_append_keeps_the_chain_valid:
  assumes "history_ok sha d" and "append_history sha u4 sess t ty en ac actor now note d = Inr (r, d')"
  shows "history_ok sha d' \<and> cr_valid (verify_chain sha t' t' d')
    \<and> cr_checked (verify_chain sha t' t' d') = length (chain_rows t' t' d')"
proof -
  have ok: "history_ok sha d'" by (rule append_history_ok [OF assms])
  then show ?thesis using verify_chain_ok [OF ok, of t'] verify_rows_checked by (simp add: verify_chain_def)
qed
theorem audit_append_keeps_the_chain_valid_witness:
  "\<exists>r d'. append_history sha0 u4_0 tenant0 tenant0 ''budget'' (uuid0 1) ''enforce'' ''engine'' now0 None empty_db = Inr (r, d')
     \<and> cr_valid (verify_chain sha0 tenant0 tenant0 d')"
  using audit_append_keeps_the_chain_valid [OF history_ok_empty history0, of u4_0 tenant0] history0 by blast

text \<open>
  The hourly, daily and monthly windows partition time: every instant lies in its own window,
  two instants share a window exactly when their windows start together, and, from year 0 on,
  exactly when their bucket labels are the same text.
\<close>

theorem periods_partition_time:
  assumes "0 \<le> s" and "0 \<le> t"
  shows "period_start p t \<le> t \<and> t < period_end p t
    \<and> (period_start p s \<le> t \<and> t < period_end p s \<longleftrightarrow> period_start p t = period_start p s)
    \<and> (period_bucket_label p s = period_bucket_label p t \<longleftrightarrow> period_start p s = period_start p t)"
proof -
  have "0 \<le> c_year (civil_of s)" "0 \<le> c_year (civil_of t)" using c_year_pos assms by (force intro: order_trans [of _ 1])+
  then show ?thesis using period_contains period_window_iff period_bucket_label_inj by blast
qed
theorem periods_partition_time_witness:
  "period_start MONTHLY now0 \<le> now0 \<and> now0 < period_end MONTHLY now0"
  using periods_partition_time [of now0 now0 MONTHLY] by (simp add: now0_def)

text \<open>
  The reconciliation reports flag nothing exactly for the inputs that the validating
  constructors would accept as balanced: a non-empty set of entries has an empty report if and
  only if it is balanced for some tenant, and an allocation's report is empty if and only if its
  targets share the total's currency and sum to it.
\<close>

theorem reconciliation_agrees_with_validation:
  "(reconcile_entry_set es = [] \<longleftrightarrow> (\<exists>t. is_ok (check_balanced t es)))
   \<and> (reconcile_allocation tot gs = [] \<longleftrightarrow>
        list_all (\<lambda>g. currency g = currency tot) gs \<and> total minor_units gs = minor_units tot)"
  using reconcile_entry_set_Nil reconcile_allocation_Nil by (simp add: list_all_iff)

text \<open>
  Proposing an allocation never touches the budgets. A proposal whose targets do not sum to the
  total is refused and leaves only an audit row; an accepted one is stored as requested with its
  total and one target per requested target, the targets sum to the total, and the allocation
  tables stay sound.
\<close>

theorem proposals_only_propose:
  assumes "create_allocation_request sha u4 errtext sess req now d = (res, d')" and "alloc_ok d"
  shows "budgets d' = budgets d \<and> alloc_ok d'
    \<and> (allocs d' = allocs d \<and> targets d' = targets d \<and> (\<exists>x. res = Inl x)
       \<or> (\<exists>a ts. allocs d' = allocs d @ [a] \<and> targets d' = targets d @ ts \<and> ar_status a = Requested
            \<and> ar_total a = cr_total req \<and> list_all2 (target_of sess (ar_id a)) (cr_targets req) ts
            \<and> total ti_amount (cr_targets req) = cr_total req))"
  using assms
proof (cases rule: create_allocation_request_cases)
  case (failed x)
  then show ?thesis using assms(2) by simp
next
  case refused
  then show ?thesis using alloc_ok_frame [OF assms(2)] by simp
next
  case (proposed rec)
  then show ?thesis by (auto intro!: exI [of _ "rc_row rec"])
qed
theorem proposals_only_propose_witness:
  "\<exists>res d. create_allocation_request sha0 uuid0 (\<lambda>_. []) tenant0 proposal0 now0 empty_db = (res, d) \<and> alloc_ok d \<and> budgets d = []"
proof -
  obtain res d where e: "create_allocation_request sha0 uuid0 (\<lambda>_. []) tenant0 proposal0 now0 empty_db = (res, d)" by fastforce
  then show ?thesis using proposals_only_propose [OF e alloc_ok_empty] by (simp add: empty_db_def)
qed

text \<open>
  A revenue event, valid or not, never changes a budget, an enforcement state, an outbox, an
  authorization, a kill-switch scope, an allocation or the audit history.
\<close>

theorem revenue_never_enforces:
  "enforcement_same d (o_db (serve_revenue x app env rq d))"
  by (rule serve_revenue_enforcement)

text \<open>
  Two kinds of permanently bad cost never reach the dead-letter table. A cost that is not a
  number text at all (null, a list, an object, a non-numeric string) raises outside the
  validation and is answered with 503 on every delivery, without a trace in the database; a NaN
  or infinite cost is classified as invalid, but its payload cannot be stored, so no dead letter
  is written and at best the emergency log keeps it.
\<close>

theorem some_bad_costs_are_never_dead_lettered:
  assumes "usage_authentic x app env rq = Inr True" and "x_loads x (rq_body rq) = Some (JObj kv)"
    and "jget ''event_type'' kv = JStr ''usage''" and "is_valid_tenant (jget ''tenant_id'' kv)" and "jhas ''cost_estimate_cents'' kv"
  shows "((case jget ''cost_estimate_cents'' kv of JNull \<Rightarrow> True | JArr _ \<Rightarrow> True | JObj _ \<Rightarrow> True | JStr s \<Rightarrow> parse_decimal s = None
      | _ \<Rightarrow> False) \<longrightarrow>
      serve_usage x app env rq d = \<lparr>o_reply = Retry, o_log = [], o_db = d\<rparr>)
    \<and> (jget ''cost_estimate_cents'' kv \<in> {JFloat PNan, JFloat (PInf s)} \<longrightarrow>
      dead_letters (o_db (serve_usage x app env rq d)) = dead_letters d)"
proof -
  let ?c = "jget ''cost_estimate_cents'' kv"
  have raise: "serve_usage x app env rq d = \<lparr>o_reply = Retry, o_log = [], o_db = d\<rparr>" if "(case jget ''cost_estimate_cents'' kv of JNull \<Rightarrow> True | JArr _ \<Rightarrow> True | JObj _ \<Rightarrow> True | JStr s \<Rightarrow> parse_decimal s = None
      | _ \<Rightarrow> False)"
  proof -
    have "from_wire_cents ?c DEFAULT_CURRENCY = Inl InvalidOperation" using that by (cases ?c) (auto simp: from_wire_cents_def)
    then have "build_usage_record (x_pdt x) (JObj kv) = Inl (Raised (raised InvalidOperation))"
      using assms(3-5) by (auto simp: build_usage_record_Raised)
    then show ?thesis by (rule serve_usage_raises [OF assms(1,2)])
  qed
  have keep: "dead_letters (o_db (serve_usage x app env rq d)) = dead_letters d" if c: "?c \<in> {JFloat PNan, JFloat (PInf s)}"
  proof -
    have "\<exists>e. from_wire_cents ?c DEFAULT_CURRENCY = Inl e \<and> is_value_error e" using c by (rule from_wire_cents_non_finite)
    then obtain err where "build_usage_record (x_pdt x) (JObj kv) = Inl (Permanent err)"
      using build_usage_record_permanent [OF assms(3-5)] by (auto simp: permanent_def)
    from serve_usage_permanent [OF assms(1,2) this, of d] have
      "serve_usage x app env rq d = dead_letter_or_503 x env err (JObj kv) (parse_attempt (rq_attempt rq)) d" by (simp add: as_dict_def)
    moreover have "\<not> jsonb_ok (JObj kv)" using jsonb_ok_member [OF _ assms(5)] c by auto
    ultimately show ?thesis using dead_letter_or_503_unstorable(1) by simp
  qed
  show ?thesis using raise keep by blast
qed
theorem some_bad_costs_are_never_dead_lettered_witness:
  "serve_usage (externals0 (usage_with JNull)) app0 env0 request0 empty_db = \<lparr>o_reply = Retry, o_log = [], o_db = empty_db\<rparr>
   \<and> dead_letters (o_db (serve_usage (externals0 (usage_with (JFloat PNan))) app0 env0 request0 empty_db)) = []"
proof -
  have f: "jget ''event_type'' kv = JStr ''usage'' \<and> is_valid_tenant (jget ''tenant_id'' kv) \<and> jhas ''cost_estimate_cents'' kv
      \<and> jget ''cost_estimate_cents'' kv = v" if "JObj kv = usage_with v" for kv v
    using that by (auto simp: usage_with_def jget_def jhas_def is_valid_tenant_def dollar_uuid)
  obtain kv kn where k: "JObj kv = usage_with JNull" "JObj kn = usage_with (JFloat PNan)" by (auto simp: usage_with_def)
  have d: "dead_letters empty_db = []" by (simp add: empty_db_def)
  show ?thesis
    using some_bad_costs_are_never_dead_lettered [OF authentic0, of "usage_with JNull" kv empty_db]
      some_bad_costs_are_never_dead_lettered [OF authentic0, of "usage_with (JFloat PNan)" kn empty_db]
      f [OF k(1)] f [OF k(2)] k d by simp
qed

text \<open>
  A refused attempt stays in the window of the tier that refused it. So a client that keeps
  sending at a steady pace faster than its limit allows gets no more than rpm requests admitted
  in all, however long it continues: once refused, it is refused for as long as it keeps trying.
\<close>

theorem refused_requests_starve_a_steady_client:
  assumes "rd_zsets r key = None" "0 < d" "rpm * d < WINDOW_MS" "0 \<le> rpm"
  shows "length (grants_of key (snd (exec_cmds (steady key rpm burst t d uid n) (r, [])))) \<le> nat rpm"
  by (rule steady_starves [OF assms])
theorem refused_requests_starve_a_steady_client_witness:
  "length (grants_of ''k'' (snd (exec_cmds (steady ''k'' 2 9 0 20000 (\<lambda>_. ''u'') 100) (redis0, [])))) \<le> nat 2"
  by (rule refused_requests_starve_a_steady_client) (simp_all add: redis0_def WINDOW_MS_def)

text \<open>
  A signed record that moves an existing policy to another tenant is accepted, but the policy's
  row keeps its first tenant while its payload names the new one. The row is then read only for
  the first tenant, whose requests its payload never matches: a deny-list, allow-list or
  approval policy moved this way applies to no request at all, and what the policy enforced
  before is gone.
\<close>

theorem rescoped_policy_applies_nowhere:
  assumes "store_ok d" "p \<in> set (pd_policies d)" "po_id p = pid" "po_tenant p \<noteq> tenant"
    and "intake_policy x env raw d = (Inr (Policy_accepted pid n ptype), d', stale)"
    and "parse_record x raw = Some (JObj r)" "jget ''tenant_id'' r = JStr tenant"
    and "view = denylist_view \<or> view = allowlist_view \<or> view = approval_view"
  shows "\<exists>q \<in> set (pd_policies d'). po_id q = pid \<and> po_tenant q = po_tenant p \<and> po_payload q = r
    \<and> (\<forall>v scope. view (po_payload q) = Inr v \<longrightarrow> po_tenant q = rs_tenant scope \<longrightarrow> \<not> model_matches_scope v scope)"
  by (rule rescoped_nowhere [OF assms])
theorem rescoped_policy_applies_nowhere_witness:
  "\<exists>q \<in> set (pd_policies policies2). po_tenant q = ''t1'' \<and> po_payload q = deny_record ''t2'' 2 sig_b
    \<and> (\<forall>v scope. denylist_view (po_payload q) = Inr v \<longrightarrow> po_tenant q = rs_tenant scope \<longrightarrow> \<not> model_matches_scope v scope)"
proof -
  have p: "row_a \<in> set (pd_policies policies1)" "po_id row_a = ''p1''" "po_tenant row_a \<noteq> ''t2''" by (simp_all add: policies1_def row_a_def)
  have r: "parse_record intake0 (Raw_dict (deny_record ''t2'' 2 sig_b)) = Some (JObj (deny_record ''t2'' 2 sig_b))"
    "jget ''tenant_id'' (deny_record ''t2'' 2 sig_b) = JStr ''t2''" by (simp_all add: parse_record_def deny_record_def jget_def)
  have "po_tenant row_a = ''t1''" by (simp add: row_a_def)
  then show ?thesis using rescoped_policy_applies_nowhere [OF store_ok1(1) p intake_b r, of denylist_view] by auto
qed

end
