(* ===== verification/Orch_Chain.thy ===== *)
theory Orch_Chain
  imports Json_Text Hash_Chain Money "HOL-Library.List_Lexorder" "HOL-Library.Char_ord"
begin

text \<open>
  The common part of the Orchestrator's hash-chained audit tables
  (\<open>orchestrator.persistence.hash_chain\<close> and the chain functions of
  \<open>persistence.repositories\<close>): a row is a Python dict of column values, the hash is SHA-256
  of its canonical JSON (sorted keys, chosen fields, optional fields only when set), and a link
  stores the hash of the link before it. The canonical JSON determines every hashed field. The
  contract of \<open>Hash_Chain\<close> is interpreted once for all chains, over the two field lists of a
  chain.
\<close>

section \<open>Column values and their JSON text\<close>

datatype cell = CNull | CInt int | CStr string

type_synonym pydict = "(string \<times> cell) list"

definition dget :: "string \<Rightarrow> pydict \<Rightarrow> cell" where
  "dget k d = (case map_of d k of None \<Rightarrow> CNull | Some v \<Rightarrow> v)"

definition dhas :: "string \<Rightarrow> pydict \<Rightarrow> bool" where
  "dhas k d \<longleftrightarrow> k \<in> fst ` set d"

definition opt_cell :: "string option \<Rightarrow> cell" where
  "opt_cell x = (case x of None \<Rightarrow> CNull | Some s \<Rightarrow> CStr s)"

definition opt_int_cell :: "int option \<Rightarrow> cell" where
  "opt_int_cell x = (case x of None \<Rightarrow> CNull | Some i \<Rightarrow> CInt i)"

fun cell_text :: "cell \<Rightarrow> string" where
  "cell_text CNull = ''null''"
| "cell_text (CInt i) = dec_int i"
| "cell_text (CStr s) = json_str s"

definition item_text :: "string \<times> cell \<Rightarrow> string" where
  "item_text kv = json_str (fst kv) @ '':'' @ cell_text (snd kv)"

text \<open>\<open>json.dumps(d, sort_keys=True, separators=(",", ":"), ensure_ascii=False)\<close>.\<close>

definition dumps_sorted :: "pydict \<Rightarrow> string" where
  "dumps_sorted d = ''{'' @ join_comma (map item_text (sort_key fst d)) @ ''}''"

section \<open>The canonical form and the hash of a row\<close>

text \<open>The canonical fields, with \<open>None\<close> for a missing one, and the optional fields that are set.\<close>

definition hashed_items :: "string list \<Rightarrow> string list \<Rightarrow> pydict \<Rightarrow> pydict" where
  "hashed_items cfs ofs data =
     map (\<lambda>k. (k, dget k data)) cfs
     @ map (\<lambda>k. (k, dget k data)) (filter (\<lambda>k. dget k data \<noteq> CNull) ofs)"

definition canonical_over :: "string list \<Rightarrow> string list \<Rightarrow> pydict \<Rightarrow> string" where
  "canonical_over cfs ofs data = dumps_sorted (hashed_items cfs ofs data)"

record chain_link =
  cl_seq :: int
  cl_data :: pydict
  cl_hash :: string

definition cl_prev :: "chain_link \<Rightarrow> cell" where
  "cl_prev r = dget ''prev_hash'' (cl_data r)"

definition chain_tip :: "string \<Rightarrow> chain_link list \<Rightarrow> string" where
  "chain_tip genesis rows = (case rev (sort_key cl_seq rows) of [] \<Rightarrow> genesis | r # _ \<Rightarrow> cl_hash r)"

text \<open>
  The columns of a chain table: their names, their width when it is bounded, and whether they
  take NULL. PostgreSQL refuses a NUL character and a value that is too long.
\<close>

type_synonym column = "string \<times> nat option \<times> bool"

definition cell_fits :: "nat option \<Rightarrow> cell \<Rightarrow> bool" where
  "cell_fits width v = (case v of CStr s \<Rightarrow> (\<forall>n \<in> set_option width. length s \<le> n) \<and> char_of (0::nat) \<notin> set s
     | CInt i \<Rightarrow> - (2 ^ 63) \<le> i \<and> i < 2 ^ 63 | CNull \<Rightarrow> True)"

definition next_seq :: "chain_link list \<Rightarrow> int" where
  "next_seq rows = (if rows = [] then 1 else Max (set (map cl_seq rows)) + 1)"

text \<open>
  The INSERT of a link: \<open>sequence_number\<close> is the table's bigserial, drawn under the chain's
  advisory lock, so it grows from link to link; \<open>row_hash\<close> is unique.
\<close>

definition insert_link :: "column list \<Rightarrow> pydict \<Rightarrow> string \<Rightarrow> chain_link list \<Rightarrow> py_exc + chain_link list" where
  "insert_link columns row h rows =
     (if \<exists>(name, width, nullable) \<in> set columns. \<not> cell_fits width (dget name row) then Inl DataError
      else if \<exists>(name, width, nullable) \<in> set columns. \<not> nullable \<and> dget name row = CNull then Inl IntegrityError
      else if h \<in> cl_hash ` set rows then Inl IntegrityError
      else Inr (rows @ [\<lparr>cl_seq = next_seq rows, cl_data = row, cl_hash = h\<rparr>]))"

text \<open>The loop of the validators, over the columns the validator reads back.\<close>

definition row_data :: "string list \<Rightarrow> chain_link \<Rightarrow> pydict" where
  "row_data names r = map (\<lambda>k. (k, dget k (cl_data r))) names"

fun validate_links ::
  "(pydict \<Rightarrow> string \<Rightarrow> py_exc + bool) \<Rightarrow> string list \<Rightarrow> string \<Rightarrow> chain_link list \<Rightarrow> py_exc + bool" where
  "validate_links verify names expected [] = Inr True"
| "validate_links verify names expected (r # rs) =
     (if cl_prev r \<noteq> CStr expected then Inr False
      else bindR (verify (row_data names r) (cl_hash r)) (\<lambda>ok.
        if \<not> ok then Inr False else validate_links verify names (cl_hash r) rs))"

definition validate_table ::
  "(pydict \<Rightarrow> string \<Rightarrow> py_exc + bool) \<Rightarrow> string list \<Rightarrow> string \<Rightarrow> bool \<Rightarrow> chain_link list \<Rightarrow> py_exc + bool" where
  "validate_table verify names genesis bypass rows =
     (if \<not> bypass then Inl RuntimeError
      else validate_links verify names genesis (sort_key cl_seq rows))"

section \<open>The canonical text determines the fields\<close>

definition value_end :: "string \<Rightarrow> bool" where
  "value_end s \<longleftrightarrow> (\<exists>c r. s = c # r \<and> c \<in> {CHR '','', CHR ''}''})"

lemma dec_int_chars: "c \<in> set (dec_int i) \<Longrightarrow> c = CHR ''-'' \<or> is_digit c"
  using dec_nat_digits [of "nat i"] dec_nat_digits [of "nat (- i)"]
  by (auto simp: dec_int_def list_all_iff split: if_splits)

lemma dec_int_nonempty [simp]: "dec_int i \<noteq> []"
  by (simp add: dec_int_def)

lemma json_str_starts: "\<exists>r. json_str s @ x = quote # r"
  by (simp add: json_str_def)

lemma digit_not_special: "is_digit c \<Longrightarrow> c \<notin> {CHR '','', CHR ''}'', CHR ''n'', quote}"
  by (auto simp: is_digit_def quote_def)

lemma dec_int_hd: "\<exists>c r. dec_int i @ x = c # r \<and> c \<notin> {CHR ''n'', quote}"
proof (cases "dec_int i")
  case (Cons c r)
  then have "c = CHR ''-'' \<or> is_digit c" using dec_int_chars [of c i] by simp
  then show ?thesis using Cons digit_not_special [of c] by (auto simp: quote_def)
qed simp

lemma dec_int_end_inj:
  assumes "dec_int i @ x = dec_int j @ y" and "value_end x" and "value_end y"
  shows "i = j \<and> x = y"
proof -
  let ?P = "\<lambda>c. c \<notin> {CHR '','', CHR ''}''}"
  have P: "\<forall>c \<in> set (dec_int k). ?P c" for k
    using dec_int_chars [of _ k] digit_not_special by auto
  have tw: "takeWhile ?P (dec_int k @ z) = dec_int k" if "value_end z" for k z
  proof -
    have "takeWhile ?P z = []" using that by (auto simp: value_end_def)
    then show ?thesis using P [of k] by (simp add: takeWhile_append2)
  qed
  have "dec_int i = dec_int j" using tw [OF assms(2), of i] tw [OF assms(3), of j] assms(1) by metis
  then show ?thesis using assms(1) by (simp add: dec_int_inj)
qed

lemma cell_text_hd:
  "hd (cell_text a @ x) = CHR ''n'' \<longleftrightarrow> a = CNull"
  "hd (cell_text a @ x) = quote \<longleftrightarrow> (\<exists>s. a = CStr s)"
proof -
  have q: "quote \<noteq> CHR ''n''" by (simp add: quote_def)
  have i: "hd (dec_int i) \<notin> {CHR ''n'', quote}" for i using dec_int_hd [of i "[]"] by auto
  show "hd (cell_text a @ x) = CHR ''n'' \<longleftrightarrow> a = CNull" "hd (cell_text a @ x) = quote \<longleftrightarrow> (\<exists>s. a = CStr s)"
    using q i by (cases a; auto simp: json_str_def)+
qed

lemma cell_text_inj:
  assumes e: "cell_text a @ x = cell_text b @ y" and "value_end x" and "value_end y"
  shows "a = b \<and> x = y"
proof -
  have kind: "a = CNull \<longleftrightarrow> b = CNull" "(\<exists>s. a = CStr s) \<longleftrightarrow> (\<exists>s. b = CStr s)"
    using cell_text_hd [of a x] cell_text_hd [of b y] e by simp_all
  show ?thesis
  proof (cases a)
    case CNull
    then show ?thesis using kind e by simp
  next
    case (CInt i)
    then obtain j where "b = CInt j" using kind by (cases b) auto
    then show ?thesis using CInt assms dec_int_end_inj [of i x j y] by simp
  next
    case (CStr s)
    then obtain t where "b = CStr t" using kind by auto
    then show ?thesis using CStr e json_str_append_inj [of s x t y] by simp
  qed
qed

lemma item_text_inj:
  assumes "item_text a @ x = item_text b @ y" and "value_end x" and "value_end y"
  shows "a = b \<and> x = y"
proof -
  have e: "json_str (fst a) @ ('':'' @ cell_text (snd a) @ x) = json_str (fst b) @ ('':'' @ cell_text (snd b) @ y)"
    using assms(1) by (simp add: item_text_def)
  from json_str_append_inj [OF e] have "fst a = fst b" "cell_text (snd a) @ x = cell_text (snd b) @ y" by auto
  with cell_text_inj assms(2,3) show ?thesis by (metis prod.expand)
qed

lemma item_text_start: "item_text a @ x \<noteq> CHR ''}'' # y"
  by (simp add: item_text_def json_str_def quote_def)

lemma join_items_tail:
  "join_comma (map item_text (a # as)) @ ''}''
     = item_text a @ (if as = [] then ''}'' else '','' @ join_comma (map item_text as) @ ''}'')"
  by (cases as) auto

lemma join_items_inj:
  "join_comma (map item_text as) @ ''}'' = join_comma (map item_text bs) @ ''}'' \<Longrightarrow> as = bs"
proof (induction as arbitrary: bs)
  case Nil
  show ?case
  proof (cases bs)
    case (Cons b bs')
    then show ?thesis using Nil item_text_start [of b] join_items_tail [of b bs'] by (auto split: if_splits)
  qed simp
next
  case (Cons a as)
  have ve: "value_end (if zs = [] then ''}'' else '','' @ join_comma (map item_text zs) @ ''}'')" for zs
    by (simp add: value_end_def)
  show ?case
  proof (cases bs)
    case Nil
    then show ?thesis using Cons.prems item_text_start [of a] join_items_tail [of a as] by (auto split: if_splits)
  next
    case (Cons b bs')
    from Cons.prems [unfolded Cons join_items_tail]
    have "a = b \<and> (if as = [] then ''}'' else '','' @ join_comma (map item_text as) @ ''}'')
        = (if bs' = [] then ''}'' else '','' @ join_comma (map item_text bs') @ ''}'')"
      by (rule item_text_inj) (rule ve)+
    then show ?thesis using Cons.IH [of bs'] Cons by (auto split: if_splits)
  qed
qed

lemma dumps_sorted_inj: "dumps_sorted a = dumps_sorted b \<Longrightarrow> set a = set b"
proof -
  assume "dumps_sorted a = dumps_sorted b"
  then have "sort_key fst a = sort_key fst b" by (intro join_items_inj) (simp add: dumps_sorted_def)
  then show ?thesis by (metis set_sort)
qed

text \<open>Fields that a chain may hash are distinct, so the canonical text fixes each of them.\<close>

lemma hashed_items_values:
  assumes d: "distinct (cfs @ ofs)"
    and e: "set (hashed_items cfs ofs x) = set (hashed_items cfs ofs y)"
    and k: "k \<in> set cfs \<or> k \<in> set ofs"
  shows "dget k x = dget k y"
proof -
  have mem: "(k, v) \<in> set (hashed_items cfs ofs z)
      \<longleftrightarrow> v = dget k z \<and> (k \<in> set cfs \<or> v \<noteq> CNull)" for v z
    using k d by (auto simp: hashed_items_def)
  show ?thesis
  proof (cases "k \<in> set cfs")
    case True
    then show ?thesis using mem [of "dget k x" x] mem [of "dget k x" y] e by auto
  next
    case False
    then show ?thesis
      using mem [of "dget k x" x] mem [of "dget k x" y] mem [of "dget k y" x] mem [of "dget k y" y] e
      by (cases "dget k x = CNull"; cases "dget k y = CNull") auto
  qed
qed

lemma canonical_over_inj:
  assumes "distinct (cfs @ ofs)" and "canonical_over cfs ofs x = canonical_over cfs ofs y"
    and "k \<in> set cfs \<or> k \<in> set ofs"
  shows "dget k x = dget k y"
  using assms hashed_items_values dumps_sorted_inj unfolding canonical_over_def by blast

lemma canonical_over_cong:
  assumes "\<And>k. k \<in> set cfs \<or> k \<in> set ofs \<Longrightarrow> dget k x = dget k y"
  shows "canonical_over cfs ofs x = canonical_over cfs ofs y"
proof -
  have "filter (\<lambda>k. dget k x \<noteq> CNull) ofs = filter (\<lambda>k. dget k y \<noteq> CNull) ofs"
    using assms by (intro filter_cong) auto
  then have "hashed_items cfs ofs x = hashed_items cfs ofs y"
    using assms by (simp add: hashed_items_def)
  then show ?thesis by (simp add: canonical_over_def)
qed

section \<open>The chain contract\<close>

text \<open>What a link binds besides its predecessor: every other field the chain hashes.\<close>

definition bound_fields :: "string list \<Rightarrow> string list \<Rightarrow> string list" where
  "bound_fields cfs ofs = filter (\<lambda>k. k \<noteq> ''prev_hash'') (cfs @ ofs)"

definition bound_content :: "string list \<Rightarrow> string list \<Rightarrow> chain_link \<Rightarrow> pydict" where
  "bound_content cfs ofs r = map (\<lambda>k. (k, dget k (cl_data r))) (bound_fields cfs ofs)"

definition link_digest :: "(string \<Rightarrow> string) \<Rightarrow> string list \<Rightarrow> string list \<Rightarrow> pydict \<Rightarrow> cell \<Rightarrow> cell" where
  "link_digest sha cfs ofs c p = CStr (sha (canonical_over cfs ofs ((''prev_hash'', p) # c)))"

definition link_hash :: "chain_link \<Rightarrow> cell" where
  "link_hash r = CStr (cl_hash r)"

fun link_walk :: "(string \<Rightarrow> string) \<Rightarrow> string list \<Rightarrow> string list \<Rightarrow> cell \<Rightarrow> chain_link list \<Rightarrow> bool" where
  "link_walk sha cfs ofs p [] = True"
| "link_walk sha cfs ofs p (r # rs) \<longleftrightarrow> cl_prev r = p
     \<and> link_digest sha cfs ofs (bound_content cfs ofs r) (cl_prev r) = link_hash r
     \<and> link_walk sha cfs ofs (link_hash r) rs"

definition link_tip :: "cell \<Rightarrow> chain_link list \<Rightarrow> cell" where
  "link_tip p rs = (if rs = [] then p else link_hash (last rs))"

interpretation links: chained_log "bound_content cfs ofs" cl_prev link_hash "link_digest sha cfs ofs"
  "link_walk sha cfs ofs" link_tip for sha cfs ofs
  by unfold_locales (simp_all add: link_tip_def)

text \<open>The invariant of a chain table: links in sequence order that walk from the genesis hash.\<close>

definition chain_ok :: "(string \<Rightarrow> string) \<Rightarrow> string list \<Rightarrow> string list \<Rightarrow> string \<Rightarrow> chain_link list \<Rightarrow> bool" where
  "chain_ok sha cfs ofs genesis rows \<longleftrightarrow> sorted_wrt (<) (map cl_seq rows)
     \<and> link_walk sha cfs ofs (CStr genesis) rows"

lemma dget_Cons [simp]: "dget k ((k', v) # d) = (if k = k' then v else dget k d)"
  by (simp add: dget_def)

lemma dget_Nil [simp]: "dget k [] = CNull"
  by (simp add: dget_def)

lemma dget_map: "dget k (map (\<lambda>j. (j, f j)) ks) = (if k \<in> set ks then f k else CNull)"
  by (induction ks) auto

lemma sort_by_seq:
  assumes "sorted_wrt (<) (map cl_seq rows)"
  shows "sort_key cl_seq rows = rows"
  using assms by (simp add: sort_key_id_if_sorted strict_sorted_imp_sorted)

lemma chain_tip_sorted:
  assumes "sorted_wrt (<) (map cl_seq rows)"
  shows "CStr (chain_tip g rows) = link_tip (CStr g) rows"
  using sort_by_seq [OF assms]
  by (cases rows rule: rev_cases) (simp_all add: chain_tip_def link_tip_def link_hash_def)

lemma next_seq_greater: "r \<in> set rows \<Longrightarrow> cl_seq r < next_seq rows"
  by (auto simp: next_seq_def intro!: zle_add1_eq_le [THEN iffD2] Max_ge)

lemma insert_link_Inr:
  assumes "insert_link columns row h rows = Inr rows'"
  shows "rows' = rows @ [\<lparr>cl_seq = next_seq rows, cl_data = row, cl_hash = h\<rparr>]"
  using assms by (auto simp: insert_link_def split: if_splits)

text \<open>
  The laws of one chain: its hashed fields are distinct and contain \<open>prev_hash\<close>, and its
  validator reads back all of them.
\<close>

locale audit_chain =
  fixes sha :: "string \<Rightarrow> string" and cfs ofs names :: "string list" and genesis :: string
    and verify :: "pydict \<Rightarrow> string \<Rightarrow> py_exc + bool"
  assumes distinct_fields: "distinct (cfs @ ofs)"
    and prev_hashed: "''prev_hash'' \<in> set cfs"
    and reads_all: "set cfs \<union> set ofs \<subseteq> set names"
    and verify_law: "\<And>r h. verify (row_data names r) h = Inr (sha (canonical_over cfs ofs (row_data names r)) = h)"
begin

lemma canonical_row_data:
  "canonical_over cfs ofs (row_data names r) = canonical_over cfs ofs (cl_data r)"
  using reads_all by (intro canonical_over_cong) (auto simp: row_data_def dget_map)

lemma canonical_bound:
  "canonical_over cfs ofs ((''prev_hash'', cl_prev r) # bound_content cfs ofs r) = canonical_over cfs ofs (cl_data r)"
proof (intro canonical_over_cong)
  fix k
  assume "k \<in> set cfs \<or> k \<in> set ofs"
  then show "dget k ((''prev_hash'', cl_prev r) # bound_content cfs ofs r) = dget k (cl_data r)"
  proof (cases "k = ''prev_hash''")
    case False
    with \<open>k \<in> set cfs \<or> k \<in> set ofs\<close> have "k \<in> set (bound_fields cfs ofs)" by (auto simp: bound_fields_def)
    with False show ?thesis by (simp only: dget_Cons bound_content_def dget_map if_True if_False)
  qed (simp add: cl_prev_def)
qed

lemma verify_link: "verify (row_data names r) (cl_hash r)
    = Inr (link_digest sha cfs ofs (bound_content cfs ofs r) (cl_prev r) = link_hash r)"
  by (simp add: verify_law canonical_row_data link_digest_def canonical_bound link_hash_def)

lemma validate_links_walk: "validate_links verify names e rs = Inr (link_walk sha cfs ofs (CStr e) rs)"
  by (induction rs arbitrary: e) (simp_all add: verify_link link_hash_def)

text \<open>A table that keeps the invariant validates, and an append keeps it.\<close>

lemma validates: "chain_ok sha cfs ofs genesis rows \<Longrightarrow> validate_table verify names genesis True rows = Inr True"
  by (simp add: chain_ok_def validate_table_def sort_by_seq validate_links_walk)

lemma validates_iff: "sorted_wrt (<) (map cl_seq rows) \<Longrightarrow>
    validate_table verify names genesis True rows = Inr True \<longleftrightarrow> chain_ok sha cfs ofs genesis rows"
  by (simp add: chain_ok_def validate_table_def sort_by_seq validate_links_walk)

lemma append_ok:
  assumes ok: "chain_ok sha cfs ofs genesis rows"
    and prev: "dget ''prev_hash'' row = CStr (chain_tip genesis rows)"
    and ins: "insert_link columns row (sha (canonical_over cfs ofs row)) rows = Inr rows'"
  shows "chain_ok sha cfs ofs genesis rows'"
proof -
  let ?r = "\<lparr>cl_seq = next_seq rows, cl_data = row, cl_hash = sha (canonical_over cfs ofs row)\<rparr>"
  have s: "sorted_wrt (<) (map cl_seq rows)" using ok by (simp add: chain_ok_def)
  have "link_walk sha cfs ofs (CStr genesis) (rows @ [?r])"
    using ok prev canonical_bound [of ?r]
    by (intro links.walk_extend) (auto simp: chain_ok_def cl_prev_def chain_tip_sorted [OF s] link_hash_def link_digest_def)
  then show ?thesis
    using insert_link_Inr [OF ins] s next_seq_greater by (auto simp: chain_ok_def sorted_wrt_append)
qed

text \<open>
  Tamper evidence: two tables that both validate, with equally many links and the same newest
  hash, agree on every hashed column of every link, unless two of their links show a collision
  of SHA-256.
\<close>

definition collision :: "chain_link \<Rightarrow> chain_link \<Rightarrow> bool" where
  "collision r s \<longleftrightarrow> canonical_over cfs ofs (cl_data r) \<noteq> canonical_over cfs ofs (cl_data s)
     \<and> sha (canonical_over cfs ofs (cl_data r)) = sha (canonical_over cfs ofs (cl_data s))"

lemma collide_collision: "links.collide cfs ofs sha r s \<Longrightarrow> collision r s"
proof -
  assume c: "links.collide cfs ofs sha r s"
  have "canonical_over cfs ofs (cl_data r) \<noteq> canonical_over cfs ofs (cl_data s)"
  proof
    assume e: "canonical_over cfs ofs (cl_data r) = canonical_over cfs ofs (cl_data s)"
    have "dget k (cl_data r) = dget k (cl_data s)" if "k \<in> set cfs \<or> k \<in> set ofs" for k
      using canonical_over_inj [OF distinct_fields e that] .
    then have "bound_content cfs ofs r = bound_content cfs ofs s" "cl_prev r = cl_prev s"
      using prev_hashed by (auto simp: bound_content_def bound_fields_def cl_prev_def)
    then show False using c by (simp add: links.collide_def)
  qed
  then show ?thesis using c by (simp add: collision_def links.collide_def link_digest_def canonical_bound)
qed

lemma tamper_evident:
  assumes "chain_ok sha cfs ofs genesis rows" and "chain_ok sha cfs ofs genesis rows'"
    and "length rows = length rows'" and "chain_tip genesis rows = chain_tip genesis rows'"
  shows "map (bound_content cfs ofs) rows = map (bound_content cfs ofs) rows'
    \<or> (\<exists>r \<in> set rows. \<exists>s \<in> set rows'. collision r s)"
  using links.walk_determined [of sha cfs ofs "CStr genesis" rows rows'] assms collide_collision
    chain_tip_sorted [of rows genesis] chain_tip_sorted [of rows' genesis]
  by (fastforce simp: chain_ok_def)

end

end
