(* ===== verification/Orch_Audit.thy ===== *)
theory Orch_Audit
  imports Orch_Chain
begin

text \<open>
  The eleven audit chains of the Orchestrator, one block each in the order of
  \<open>persistence/hash_chain.py\<close>: the genesis value, the field lists, the canonical JSON, the
  row hash and its check, then the table's columns and the three chain functions of
  \<open>persistence/repositories.py\<close> (tip, append, validate). SHA-256 as hex is the parameter
  \<open>sha\<close>; \<open>bypass\<close> says whether the session's role bypasses row-level security. Every
  chain interprets \<open>audit_chain\<close>.
\<close>

section \<open>Ingest\<close>

definition INGEST_GENESIS_HASH :: "(string \<Rightarrow> string) \<Rightarrow> string" where
  "INGEST_GENESIS_HASH sha = sha ''anoryx-orchestrator:ingest-audit:genesis:v1''"

definition INGEST_CANONICAL_FIELDS :: "string list" where
  "INGEST_CANONICAL_FIELDS = [''event_id'', ''event_type'', ''event_timestamp'', ''request_id'', ''tenant_id'', ''team_id'',
     ''project_id'', ''agent_id'', ''envelope_id'', ''idempotency_key'', ''source_product'', ''disposition'', ''prev_hash'']"

definition INGEST_OPTIONAL_FIELDS :: "string list" where
  "INGEST_OPTIONAL_FIELDS = [''dlq_reason'', ''dlq_id'']"

definition ingest_canonical_json :: "pydict \<Rightarrow> string" where
  "ingest_canonical_json data = canonical_over INGEST_CANONICAL_FIELDS INGEST_OPTIONAL_FIELDS data"

definition ingest_compute_row_hash :: "(string \<Rightarrow> string) \<Rightarrow> pydict \<Rightarrow> py_exc + string" where
  "ingest_compute_row_hash sha data =
     (if \<not> dhas ''prev_hash'' data then Inl ValueError
      else if \<not> dhas ''event_timestamp'' data then Inl ValueError
      else Inr (sha (ingest_canonical_json data)))"

definition ingest_verify_row_hash :: "(string \<Rightarrow> string) \<Rightarrow> pydict \<Rightarrow> string \<Rightarrow> py_exc + bool" where
  "ingest_verify_row_hash sha data stored = bindR (ingest_compute_row_hash sha data) (\<lambda>h. Inr (h = stored))"

definition ingest_columns :: "column list" where
  "ingest_columns = [(''event_id'', Some 64, True), (''event_timestamp'', Some 64, True), (''request_id'', Some 64, True),
     (''tenant_id'', Some 64, True), (''team_id'', Some 64, True), (''project_id'', Some 64, True), (''agent_id'', Some 64, True),
     (''event_type'', Some 64, False), (''envelope_id'', Some 64, False), (''idempotency_key'', Some 128, False),
     (''source_product'', Some 32, False), (''disposition'', Some 16, False), (''dlq_reason'', Some 32, True),
     (''dlq_id'', Some 64, True), (''prev_hash'', Some 64, False)]"

text \<open>The check \<open>ck_ial_accepted_attribution\<close>: an accepted link is fully attributed.\<close>

definition accepted_attribution :: "pydict \<Rightarrow> bool" where
  "accepted_attribution row \<longleftrightarrow> dget ''disposition'' row \<noteq> CStr ''accepted''
     \<or> list_all (\<lambda>k. dget k row \<noteq> CNull) [''event_id'', ''event_timestamp'', ''request_id'', ''tenant_id'', ''team_id'',
         ''project_id'', ''agent_id'']"

definition chain_tip_hash :: "(string \<Rightarrow> string) \<Rightarrow> chain_link list \<Rightarrow> string" where
  "chain_tip_hash sha rows = chain_tip (INGEST_GENESIS_HASH sha) rows"

text \<open>The keys an append copies from its \<open>fields\<close> argument; a missing one raises.\<close>

definition INGEST_LINK_FIELDS :: "string list" where
  "INGEST_LINK_FIELDS = [''event_id'', ''event_type'', ''event_timestamp'', ''request_id'', ''tenant_id'', ''team_id'',
     ''project_id'', ''agent_id'', ''envelope_id'', ''idempotency_key'', ''source_product'']"

definition append_audit_link ::
  "(string \<Rightarrow> string) \<Rightarrow> pydict \<Rightarrow> string \<Rightarrow> string option \<Rightarrow> string option \<Rightarrow> chain_link list
     \<Rightarrow> py_exc + string \<times> chain_link list" where
  "append_audit_link sha flds disposition dlq_reason dlq_id rows =
     (let prev_hash = chain_tip_hash sha rows in
      if \<exists>k \<in> set INGEST_LINK_FIELDS. \<not> dhas k flds then Inl KeyError
      else
        let row = map (\<lambda>k. (k, dget k flds)) INGEST_LINK_FIELDS
               @ [(''disposition'', CStr disposition), (''dlq_reason'', opt_cell dlq_reason), (''dlq_id'', opt_cell dlq_id),
                  (''prev_hash'', CStr prev_hash)] in
        bindR (ingest_compute_row_hash sha row) (\<lambda>row_hash.
        bindR (insert_link ingest_columns row row_hash rows) (\<lambda>rows'.
        if \<not> accepted_attribution row then Inl IntegrityError else Inr (row_hash, rows'))))"

definition INGEST_ROW_DATA :: "string list" where
  "INGEST_ROW_DATA = [''event_id'', ''event_type'', ''event_timestamp'', ''request_id'', ''tenant_id'', ''team_id'',
     ''project_id'', ''agent_id'', ''envelope_id'', ''idempotency_key'', ''source_product'', ''disposition'', ''dlq_reason'',
     ''dlq_id'', ''prev_hash'']"

definition validate_chain :: "(string \<Rightarrow> string) \<Rightarrow> bool \<Rightarrow> chain_link list \<Rightarrow> py_exc + bool" where
  "validate_chain sha bypass rows =
     validate_table (ingest_verify_row_hash sha) INGEST_ROW_DATA (INGEST_GENESIS_HASH sha) bypass rows"

lemma dhas_row_data: "dhas k (row_data names r) \<longleftrightarrow> k \<in> set names"
  by (auto simp: dhas_def row_data_def image_iff)

interpretation ingest_chain: audit_chain sha INGEST_CANONICAL_FIELDS INGEST_OPTIONAL_FIELDS INGEST_ROW_DATA
  "INGEST_GENESIS_HASH sha" "ingest_verify_row_hash sha" for sha
  by unfold_locales
    (simp_all add: INGEST_CANONICAL_FIELDS_def INGEST_OPTIONAL_FIELDS_def INGEST_ROW_DATA_def ingest_verify_row_hash_def
      ingest_compute_row_hash_def ingest_canonical_json_def dhas_row_data)

lemma append_audit_link_ok:
  assumes "chain_ok sha INGEST_CANONICAL_FIELDS INGEST_OPTIONAL_FIELDS (INGEST_GENESIS_HASH sha) rows"
    and "append_audit_link sha flds disposition dlq_reason dlq_id rows = Inr (h, rows')"
  shows "chain_ok sha INGEST_CANONICAL_FIELDS INGEST_OPTIONAL_FIELDS (INGEST_GENESIS_HASH sha) rows'"
  using assms(2)
  by (auto simp: append_audit_link_def Let_def bindR_eq_Inr ingest_compute_row_hash_def ingest_canonical_json_def
      chain_tip_hash_def INGEST_LINK_FIELDS_def split: if_splits elim!: ingest_chain.append_ok [OF assms(1), rotated])

section \<open>Distribution\<close>

definition DISTRIBUTION_GENESIS_HASH :: "(string \<Rightarrow> string) \<Rightarrow> string" where
  "DISTRIBUTION_GENESIS_HASH sha = sha ''anoryx-orchestrator:distribution-audit:genesis:v1''"

definition DISTRIBUTION_CANONICAL_FIELDS :: "string list" where
  "DISTRIBUTION_CANONICAL_FIELDS =
     [''distribution_id'', ''policy_id'', ''tenant_id'', ''policy_type'', ''disposition'', ''prev_hash'']"

definition DISTRIBUTION_OPTIONAL_FIELDS :: "string list" where
  "DISTRIBUTION_OPTIONAL_FIELDS = [''sentinel_id'', ''error_reason'']"

definition canonical_distribution_json :: "pydict \<Rightarrow> string" where
  "canonical_distribution_json data = canonical_over DISTRIBUTION_CANONICAL_FIELDS DISTRIBUTION_OPTIONAL_FIELDS data"

definition compute_distribution_row_hash :: "(string \<Rightarrow> string) \<Rightarrow> pydict \<Rightarrow> py_exc + string" where
  "compute_distribution_row_hash sha data =
     (if \<not> dhas ''prev_hash'' data then Inl ValueError else Inr (sha (canonical_distribution_json data)))"

definition verify_distribution_row_hash :: "(string \<Rightarrow> string) \<Rightarrow> pydict \<Rightarrow> string \<Rightarrow> py_exc + bool" where
  "verify_distribution_row_hash sha data stored = bindR (compute_distribution_row_hash sha data) (\<lambda>h. Inr (h = stored))"

definition distribution_columns :: "column list" where
  "distribution_columns =
     [(''distribution_id'', Some 64, False), (''policy_id'', Some 64, False), (''tenant_id'', Some 64, True), (''policy_type'', Some 32, False), (''disposition'', Some 16, False), (''sentinel_id'', Some 128, True), (''error_reason'', None, True), (''prev_hash'', Some 64, False)]"

definition distribution_chain_tip_hash :: "(string \<Rightarrow> string) \<Rightarrow> chain_link list \<Rightarrow> string" where
  "distribution_chain_tip_hash sha rows = chain_tip (DISTRIBUTION_GENESIS_HASH sha) rows"

definition DISTRIBUTION_COMMON_FIELDS :: "string list" where
  "DISTRIBUTION_COMMON_FIELDS = [''distribution_id'', ''policy_id'', ''tenant_id'', ''policy_type'']"

definition append_distribution_audit_link ::
  "(string \<Rightarrow> string) \<Rightarrow> pydict \<Rightarrow> string \<Rightarrow> string option \<Rightarrow> string option \<Rightarrow> chain_link list
     \<Rightarrow> py_exc + string \<times> chain_link list" where
  "append_distribution_audit_link sha flds disposition sentinel_id error_reason rows =
     (let prev_hash = distribution_chain_tip_hash sha rows in
      if \<exists>k \<in> set DISTRIBUTION_COMMON_FIELDS. \<not> dhas k flds then Inl KeyError
      else
        let row = map (\<lambda>k. (k, dget k flds)) DISTRIBUTION_COMMON_FIELDS
               @ [(''disposition'', CStr disposition), (''sentinel_id'', opt_cell sentinel_id),
                  (''error_reason'', opt_cell error_reason), (''prev_hash'', CStr prev_hash)] in
        bindR (compute_distribution_row_hash sha row) (\<lambda>row_hash.
        bindR (insert_link distribution_columns row row_hash rows) (\<lambda>rows'. Inr (row_hash, rows'))))"

definition DISTRIBUTION_ROW_DATA :: "string list" where
  "DISTRIBUTION_ROW_DATA =
     [''distribution_id'', ''policy_id'', ''tenant_id'', ''policy_type'', ''disposition'', ''sentinel_id'', ''error_reason'', ''prev_hash'']"

definition validate_distribution_chain :: "(string \<Rightarrow> string) \<Rightarrow> bool \<Rightarrow> chain_link list \<Rightarrow> py_exc + bool" where
  "validate_distribution_chain sha bypass rows =
     validate_table (verify_distribution_row_hash sha) DISTRIBUTION_ROW_DATA (DISTRIBUTION_GENESIS_HASH sha) bypass rows"

interpretation distribution_chain: audit_chain sha DISTRIBUTION_CANONICAL_FIELDS DISTRIBUTION_OPTIONAL_FIELDS DISTRIBUTION_ROW_DATA
  "DISTRIBUTION_GENESIS_HASH sha" "verify_distribution_row_hash sha" for sha
  by unfold_locales
    (simp_all add: DISTRIBUTION_CANONICAL_FIELDS_def DISTRIBUTION_OPTIONAL_FIELDS_def DISTRIBUTION_ROW_DATA_def verify_distribution_row_hash_def
      compute_distribution_row_hash_def canonical_distribution_json_def dhas_row_data)

lemma append_distribution_audit_link_ok:
  assumes "chain_ok sha DISTRIBUTION_CANONICAL_FIELDS DISTRIBUTION_OPTIONAL_FIELDS (DISTRIBUTION_GENESIS_HASH sha) rows"
    and "append_distribution_audit_link sha flds disposition sentinel_id error_reason rows = Inr (h, rows')"
  shows "chain_ok sha DISTRIBUTION_CANONICAL_FIELDS DISTRIBUTION_OPTIONAL_FIELDS (DISTRIBUTION_GENESIS_HASH sha) rows'"
  using assms(2)
  by (auto simp: append_distribution_audit_link_def Let_def bindR_eq_Inr compute_distribution_row_hash_def canonical_distribution_json_def
      distribution_chain_tip_hash_def DISTRIBUTION_COMMON_FIELDS_def split: if_splits elim!: distribution_chain.append_ok [OF assms(1), rotated])

section \<open>Registry\<close>

definition REGISTRY_GENESIS_HASH :: "(string \<Rightarrow> string) \<Rightarrow> string" where
  "REGISTRY_GENESIS_HASH sha = sha ''anoryx-orchestrator:registry-audit:genesis:v1''"

definition REGISTRY_CANONICAL_FIELDS :: "string list" where
  "REGISTRY_CANONICAL_FIELDS =
     [''sentinel_id'', ''action'', ''disposition'', ''prev_hash'']"

definition REGISTRY_OPTIONAL_FIELDS :: "string list" where
  "REGISTRY_OPTIONAL_FIELDS = [''endpoint'', ''capabilities'', ''error_reason'']"

definition canonical_registry_json :: "pydict \<Rightarrow> string" where
  "canonical_registry_json data = canonical_over REGISTRY_CANONICAL_FIELDS REGISTRY_OPTIONAL_FIELDS data"

definition compute_registry_row_hash :: "(string \<Rightarrow> string) \<Rightarrow> pydict \<Rightarrow> py_exc + string" where
  "compute_registry_row_hash sha data =
     (if \<not> dhas ''prev_hash'' data then Inl ValueError else Inr (sha (canonical_registry_json data)))"

definition verify_registry_row_hash :: "(string \<Rightarrow> string) \<Rightarrow> pydict \<Rightarrow> string \<Rightarrow> py_exc + bool" where
  "verify_registry_row_hash sha data stored = bindR (compute_registry_row_hash sha data) (\<lambda>h. Inr (h = stored))"

definition registry_columns :: "column list" where
  "registry_columns =
     [(''sentinel_id'', Some 128, False), (''action'', Some 16, False), (''disposition'', Some 16, False), (''endpoint'', None, True), (''capabilities'', None, True), (''error_reason'', None, True), (''prev_hash'', Some 64, False)]"

definition registry_chain_tip_hash :: "(string \<Rightarrow> string) \<Rightarrow> chain_link list \<Rightarrow> string" where
  "registry_chain_tip_hash sha rows = chain_tip (REGISTRY_GENESIS_HASH sha) rows"

definition append_registry_audit_link ::
  "(string \<Rightarrow> string) \<Rightarrow> string \<Rightarrow> string \<Rightarrow> string \<Rightarrow> string option \<Rightarrow> string option \<Rightarrow> string option \<Rightarrow> chain_link list
     \<Rightarrow> py_exc + string \<times> chain_link list" where
  "append_registry_audit_link sha sentinel_id action disposition endpoint capabilities error_reason rows =
     (let prev_hash = registry_chain_tip_hash sha rows;
          row = [(''sentinel_id'', CStr sentinel_id), (''action'', CStr action), (''disposition'', CStr disposition), (''endpoint'', opt_cell endpoint), (''capabilities'', opt_cell capabilities), (''error_reason'', opt_cell error_reason),
                 (''prev_hash'', CStr prev_hash)] in
      bindR (compute_registry_row_hash sha row) (\<lambda>row_hash.
      bindR (insert_link registry_columns row row_hash rows) (\<lambda>rows'.
        Inr (row_hash, rows'))))"

definition REGISTRY_ROW_DATA :: "string list" where
  "REGISTRY_ROW_DATA =
     [''sentinel_id'', ''action'', ''disposition'', ''endpoint'', ''capabilities'', ''error_reason'', ''prev_hash'']"

definition validate_registry_chain :: "(string \<Rightarrow> string) \<Rightarrow> bool \<Rightarrow> chain_link list \<Rightarrow> py_exc + bool" where
  "validate_registry_chain sha bypass rows =
     validate_table (verify_registry_row_hash sha) REGISTRY_ROW_DATA (REGISTRY_GENESIS_HASH sha) bypass rows"

interpretation registry_chain: audit_chain sha REGISTRY_CANONICAL_FIELDS REGISTRY_OPTIONAL_FIELDS REGISTRY_ROW_DATA
  "REGISTRY_GENESIS_HASH sha" "verify_registry_row_hash sha" for sha
  by unfold_locales
    (simp_all add: REGISTRY_CANONICAL_FIELDS_def REGISTRY_OPTIONAL_FIELDS_def REGISTRY_ROW_DATA_def verify_registry_row_hash_def
      compute_registry_row_hash_def canonical_registry_json_def dhas_row_data)

lemma append_registry_audit_link_ok:
  assumes "chain_ok sha REGISTRY_CANONICAL_FIELDS REGISTRY_OPTIONAL_FIELDS (REGISTRY_GENESIS_HASH sha) rows"
    and "append_registry_audit_link sha sentinel_id action disposition endpoint capabilities error_reason rows = Inr (h, rows')"
  shows "chain_ok sha REGISTRY_CANONICAL_FIELDS REGISTRY_OPTIONAL_FIELDS (REGISTRY_GENESIS_HASH sha) rows'"
  using assms(2)
  by (auto simp: append_registry_audit_link_def Let_def bindR_eq_Inr compute_registry_row_hash_def canonical_registry_json_def
      registry_chain_tip_hash_def split: if_splits elim!: registry_chain.append_ok [OF assms(1), rotated])

section \<open>Relay\<close>

definition RELAY_GENESIS_HASH :: "(string \<Rightarrow> string) \<Rightarrow> string" where
  "RELAY_GENESIS_HASH sha = sha ''anoryx-orchestrator:relay-audit:genesis:v1''"

definition RELAY_CANONICAL_FIELDS :: "string list" where
  "RELAY_CANONICAL_FIELDS =
     [''tenant_id'', ''source_product'', ''sentinel_id'', ''target_path'', ''disposition'', ''prev_hash'']"

definition RELAY_OPTIONAL_FIELDS :: "string list" where
  "RELAY_OPTIONAL_FIELDS = [''status_code'', ''content_hash'', ''error_reason'']"

definition canonical_relay_json :: "pydict \<Rightarrow> string" where
  "canonical_relay_json data = canonical_over RELAY_CANONICAL_FIELDS RELAY_OPTIONAL_FIELDS data"

definition compute_relay_row_hash :: "(string \<Rightarrow> string) \<Rightarrow> pydict \<Rightarrow> py_exc + string" where
  "compute_relay_row_hash sha data =
     (if \<not> dhas ''prev_hash'' data then Inl ValueError else Inr (sha (canonical_relay_json data)))"

definition verify_relay_row_hash :: "(string \<Rightarrow> string) \<Rightarrow> pydict \<Rightarrow> string \<Rightarrow> py_exc + bool" where
  "verify_relay_row_hash sha data stored = bindR (compute_relay_row_hash sha data) (\<lambda>h. Inr (h = stored))"

definition relay_columns :: "column list" where
  "relay_columns =
     [(''tenant_id'', Some 64, False), (''source_product'', Some 16, False), (''sentinel_id'', Some 128, False), (''target_path'', Some 256, False), (''disposition'', Some 16, False), (''status_code'', None, True), (''content_hash'', Some 64, True), (''error_reason'', None, True), (''prev_hash'', Some 64, False)]"

definition relay_chain_tip_hash :: "(string \<Rightarrow> string) \<Rightarrow> chain_link list \<Rightarrow> string" where
  "relay_chain_tip_hash sha rows = chain_tip (RELAY_GENESIS_HASH sha) rows"

definition append_relay_audit_link ::
  "(string \<Rightarrow> string) \<Rightarrow> string \<Rightarrow> string \<Rightarrow> string \<Rightarrow> string \<Rightarrow> string \<Rightarrow> int option \<Rightarrow> string option \<Rightarrow> string option \<Rightarrow> chain_link list
     \<Rightarrow> py_exc + string \<times> chain_link list" where
  "append_relay_audit_link sha tenant_id source_product sentinel_id target_path disposition status_code content_hash error_reason rows =
     (let prev_hash = relay_chain_tip_hash sha rows;
          row = [(''tenant_id'', CStr tenant_id), (''source_product'', CStr source_product), (''sentinel_id'', CStr sentinel_id), (''target_path'', CStr target_path), (''disposition'', CStr disposition), (''status_code'', opt_int_cell status_code), (''content_hash'', opt_cell content_hash), (''error_reason'', opt_cell error_reason),
                 (''prev_hash'', CStr prev_hash)] in
      bindR (compute_relay_row_hash sha row) (\<lambda>row_hash.
      bindR (insert_link relay_columns row row_hash rows) (\<lambda>rows'.
        Inr (row_hash, rows'))))"

definition RELAY_ROW_DATA :: "string list" where
  "RELAY_ROW_DATA =
     [''tenant_id'', ''source_product'', ''sentinel_id'', ''target_path'', ''disposition'', ''status_code'', ''content_hash'', ''error_reason'', ''prev_hash'']"

definition validate_relay_chain :: "(string \<Rightarrow> string) \<Rightarrow> bool \<Rightarrow> chain_link list \<Rightarrow> py_exc + bool" where
  "validate_relay_chain sha bypass rows =
     validate_table (verify_relay_row_hash sha) RELAY_ROW_DATA (RELAY_GENESIS_HASH sha) bypass rows"

interpretation relay_chain: audit_chain sha RELAY_CANONICAL_FIELDS RELAY_OPTIONAL_FIELDS RELAY_ROW_DATA
  "RELAY_GENESIS_HASH sha" "verify_relay_row_hash sha" for sha
  by unfold_locales
    (simp_all add: RELAY_CANONICAL_FIELDS_def RELAY_OPTIONAL_FIELDS_def RELAY_ROW_DATA_def verify_relay_row_hash_def
      compute_relay_row_hash_def canonical_relay_json_def dhas_row_data)

lemma append_relay_audit_link_ok:
  assumes "chain_ok sha RELAY_CANONICAL_FIELDS RELAY_OPTIONAL_FIELDS (RELAY_GENESIS_HASH sha) rows"
    and "append_relay_audit_link sha tenant_id source_product sentinel_id target_path disposition status_code content_hash error_reason rows = Inr (h, rows')"
  shows "chain_ok sha RELAY_CANONICAL_FIELDS RELAY_OPTIONAL_FIELDS (RELAY_GENESIS_HASH sha) rows'"
  using assms(2)
  by (auto simp: append_relay_audit_link_def Let_def bindR_eq_Inr compute_relay_row_hash_def canonical_relay_json_def
      relay_chain_tip_hash_def split: if_splits elim!: relay_chain.append_ok [OF assms(1), rotated])

section \<open>Identity\<close>

definition IDENTITY_GENESIS_HASH :: "(string \<Rightarrow> string) \<Rightarrow> string" where
  "IDENTITY_GENESIS_HASH sha = sha ''anoryx-orchestrator:identity-audit:genesis:v1''"

definition IDENTITY_CANONICAL_FIELDS :: "string list" where
  "IDENTITY_CANONICAL_FIELDS =
     [''tenant_id'', ''source_product'', ''principal_type'', ''principal_id'', ''action'', ''idempotency_key'', ''disposition'', ''prev_hash'']"

definition IDENTITY_OPTIONAL_FIELDS :: "string list" where
  "IDENTITY_OPTIONAL_FIELDS = [''target'']"

definition canonical_identity_json :: "pydict \<Rightarrow> string" where
  "canonical_identity_json data = canonical_over IDENTITY_CANONICAL_FIELDS IDENTITY_OPTIONAL_FIELDS data"

definition compute_identity_row_hash :: "(string \<Rightarrow> string) \<Rightarrow> pydict \<Rightarrow> py_exc + string" where
  "compute_identity_row_hash sha data =
     (if \<not> dhas ''prev_hash'' data then Inl ValueError else Inr (sha (canonical_identity_json data)))"

definition verify_identity_row_hash :: "(string \<Rightarrow> string) \<Rightarrow> pydict \<Rightarrow> string \<Rightarrow> py_exc + bool" where
  "verify_identity_row_hash sha data stored = bindR (compute_identity_row_hash sha data) (\<lambda>h. Inr (h = stored))"

definition identity_columns :: "column list" where
  "identity_columns =
     [(''tenant_id'', Some 64, False), (''source_product'', Some 16, False), (''principal_type'', Some 32, False), (''principal_id'', Some 256, False), (''action'', Some 64, False), (''idempotency_key'', Some 128, False), (''disposition'', Some 16, False), (''target'', Some 256, True), (''prev_hash'', Some 64, False)]"

definition identity_chain_tip_hash :: "(string \<Rightarrow> string) \<Rightarrow> chain_link list \<Rightarrow> string" where
  "identity_chain_tip_hash sha rows = chain_tip (IDENTITY_GENESIS_HASH sha) rows"

definition append_identity_audit_link ::
  "(string \<Rightarrow> string) \<Rightarrow> string \<Rightarrow> string \<Rightarrow> string \<Rightarrow> string \<Rightarrow> string \<Rightarrow> string \<Rightarrow> string \<Rightarrow> string option \<Rightarrow> chain_link list
     \<Rightarrow> py_exc + string \<times> chain_link list" where
  "append_identity_audit_link sha tenant_id source_product principal_type principal_id action idempotency_key disposition target rows =
     (let prev_hash = identity_chain_tip_hash sha rows;
          row = [(''tenant_id'', CStr tenant_id), (''source_product'', CStr source_product), (''principal_type'', CStr principal_type), (''principal_id'', CStr principal_id), (''action'', CStr action), (''idempotency_key'', CStr idempotency_key), (''disposition'', CStr disposition), (''target'', opt_cell target),
                 (''prev_hash'', CStr prev_hash)] in
      bindR (compute_identity_row_hash sha row) (\<lambda>row_hash.
      bindR (insert_link identity_columns row row_hash rows) (\<lambda>rows'.
        Inr (row_hash, rows'))))"

definition IDENTITY_ROW_DATA :: "string list" where
  "IDENTITY_ROW_DATA =
     [''tenant_id'', ''source_product'', ''principal_type'', ''principal_id'', ''action'', ''idempotency_key'', ''disposition'', ''target'', ''prev_hash'']"

definition validate_identity_chain :: "(string \<Rightarrow> string) \<Rightarrow> bool \<Rightarrow> chain_link list \<Rightarrow> py_exc + bool" where
  "validate_identity_chain sha bypass rows =
     validate_table (verify_identity_row_hash sha) IDENTITY_ROW_DATA (IDENTITY_GENESIS_HASH sha) bypass rows"

interpretation identity_chain: audit_chain sha IDENTITY_CANONICAL_FIELDS IDENTITY_OPTIONAL_FIELDS IDENTITY_ROW_DATA
  "IDENTITY_GENESIS_HASH sha" "verify_identity_row_hash sha" for sha
  by unfold_locales
    (simp_all add: IDENTITY_CANONICAL_FIELDS_def IDENTITY_OPTIONAL_FIELDS_def IDENTITY_ROW_DATA_def verify_identity_row_hash_def
      compute_identity_row_hash_def canonical_identity_json_def dhas_row_data)

lemma append_identity_audit_link_ok:
  assumes "chain_ok sha IDENTITY_CANONICAL_FIELDS IDENTITY_OPTIONAL_FIELDS (IDENTITY_GENESIS_HASH sha) rows"
    and "append_identity_audit_link sha tenant_id source_product principal_type principal_id action idempotency_key disposition target rows = Inr (h, rows')"
  shows "chain_ok sha IDENTITY_CANONICAL_FIELDS IDENTITY_OPTIONAL_FIELDS (IDENTITY_GENESIS_HASH sha) rows'"
  using assms(2)
  by (auto simp: append_identity_audit_link_def Let_def bindR_eq_Inr compute_identity_row_hash_def canonical_identity_json_def
      identity_chain_tip_hash_def split: if_splits elim!: identity_chain.append_ok [OF assms(1), rotated])

section \<open>Automation\<close>

definition AUTOMATION_GENESIS_HASH :: "(string \<Rightarrow> string) \<Rightarrow> string" where
  "AUTOMATION_GENESIS_HASH sha = sha ''anoryx-orchestrator:automation-audit:genesis:v1''"

definition AUTOMATION_CANONICAL_FIELDS :: "string list" where
  "AUTOMATION_CANONICAL_FIELDS =
     [''rule_id'', ''tenant_id'', ''triggering_event_id'', ''action_type'', ''disposition'', ''prev_hash'']"

definition AUTOMATION_OPTIONAL_FIELDS :: "string list" where
  "AUTOMATION_OPTIONAL_FIELDS = [''error_reason'']"

definition canonical_automation_json :: "pydict \<Rightarrow> string" where
  "canonical_automation_json data = canonical_over AUTOMATION_CANONICAL_FIELDS AUTOMATION_OPTIONAL_FIELDS data"

definition compute_automation_row_hash :: "(string \<Rightarrow> string) \<Rightarrow> pydict \<Rightarrow> py_exc + string" where
  "compute_automation_row_hash sha data =
     (if \<not> dhas ''prev_hash'' data then Inl ValueError else Inr (sha (canonical_automation_json data)))"

definition verify_automation_row_hash :: "(string \<Rightarrow> string) \<Rightarrow> pydict \<Rightarrow> string \<Rightarrow> py_exc + bool" where
  "verify_automation_row_hash sha data stored = bindR (compute_automation_row_hash sha data) (\<lambda>h. Inr (h = stored))"

definition automation_columns :: "column list" where
  "automation_columns =
     [(''rule_id'', Some 64, False), (''tenant_id'', Some 64, False), (''triggering_event_id'', Some 64, False), (''action_type'', Some 32, False), (''disposition'', Some 16, False), (''error_reason'', Some 64, True), (''prev_hash'', Some 64, False)]"

definition automation_chain_tip_hash :: "(string \<Rightarrow> string) \<Rightarrow> chain_link list \<Rightarrow> string" where
  "automation_chain_tip_hash sha rows = chain_tip (AUTOMATION_GENESIS_HASH sha) rows"

definition append_automation_audit_link ::
  "(string \<Rightarrow> string) \<Rightarrow> string \<Rightarrow> string \<Rightarrow> string \<Rightarrow> string \<Rightarrow> string \<Rightarrow> string option \<Rightarrow> chain_link list
     \<Rightarrow> py_exc + string \<times> chain_link list" where
  "append_automation_audit_link sha rule_id tenant_id triggering_event_id action_type disposition error_reason rows =
     (let prev_hash = automation_chain_tip_hash sha rows;
          row = [(''rule_id'', CStr rule_id), (''tenant_id'', CStr tenant_id), (''triggering_event_id'', CStr triggering_event_id), (''action_type'', CStr action_type), (''disposition'', CStr disposition), (''error_reason'', opt_cell error_reason),
                 (''prev_hash'', CStr prev_hash)] in
      bindR (compute_automation_row_hash sha row) (\<lambda>row_hash.
      bindR (insert_link automation_columns row row_hash rows) (\<lambda>rows'.
        if (CStr rule_id, CStr triggering_event_id)
             \<in> (\<lambda>r. (dget ''rule_id'' (cl_data r), dget ''triggering_event_id'' (cl_data r))) ` set rows
        then Inl IntegrityError else Inr (row_hash, rows'))))"

definition AUTOMATION_ROW_DATA :: "string list" where
  "AUTOMATION_ROW_DATA =
     [''rule_id'', ''tenant_id'', ''triggering_event_id'', ''action_type'', ''disposition'', ''error_reason'', ''prev_hash'']"

definition validate_automation_chain :: "(string \<Rightarrow> string) \<Rightarrow> bool \<Rightarrow> chain_link list \<Rightarrow> py_exc + bool" where
  "validate_automation_chain sha bypass rows =
     validate_table (verify_automation_row_hash sha) AUTOMATION_ROW_DATA (AUTOMATION_GENESIS_HASH sha) bypass rows"

interpretation automation_chain: audit_chain sha AUTOMATION_CANONICAL_FIELDS AUTOMATION_OPTIONAL_FIELDS AUTOMATION_ROW_DATA
  "AUTOMATION_GENESIS_HASH sha" "verify_automation_row_hash sha" for sha
  by unfold_locales
    (simp_all add: AUTOMATION_CANONICAL_FIELDS_def AUTOMATION_OPTIONAL_FIELDS_def AUTOMATION_ROW_DATA_def verify_automation_row_hash_def
      compute_automation_row_hash_def canonical_automation_json_def dhas_row_data)

lemma append_automation_audit_link_ok:
  assumes "chain_ok sha AUTOMATION_CANONICAL_FIELDS AUTOMATION_OPTIONAL_FIELDS (AUTOMATION_GENESIS_HASH sha) rows"
    and "append_automation_audit_link sha rule_id tenant_id triggering_event_id action_type disposition error_reason rows = Inr (h, rows')"
  shows "chain_ok sha AUTOMATION_CANONICAL_FIELDS AUTOMATION_OPTIONAL_FIELDS (AUTOMATION_GENESIS_HASH sha) rows'"
  using assms(2)
  by (auto simp: append_automation_audit_link_def Let_def bindR_eq_Inr compute_automation_row_hash_def canonical_automation_json_def
      automation_chain_tip_hash_def split: if_splits elim!: automation_chain.append_ok [OF assms(1), rotated])

section \<open>Messaging\<close>

definition MESSAGING_GENESIS_HASH :: "(string \<Rightarrow> string) \<Rightarrow> string" where
  "MESSAGING_GENESIS_HASH sha = sha ''anoryx-orchestrator:messaging-audit:genesis:v1''"

definition MESSAGING_CANONICAL_FIELDS :: "string list" where
  "MESSAGING_CANONICAL_FIELDS =
     [''tenant_id'', ''sender_agent_id'', ''recipient_agent_id'', ''message_type'', ''idempotency_key'', ''disposition'', ''prev_hash'']"

definition canonical_messaging_json :: "pydict \<Rightarrow> string" where
  "canonical_messaging_json data = canonical_over MESSAGING_CANONICAL_FIELDS [] data"

definition compute_messaging_row_hash :: "(string \<Rightarrow> string) \<Rightarrow> pydict \<Rightarrow> py_exc + string" where
  "compute_messaging_row_hash sha data =
     (if \<not> dhas ''prev_hash'' data then Inl ValueError else Inr (sha (canonical_messaging_json data)))"

definition verify_messaging_row_hash :: "(string \<Rightarrow> string) \<Rightarrow> pydict \<Rightarrow> string \<Rightarrow> py_exc + bool" where
  "verify_messaging_row_hash sha data stored = bindR (compute_messaging_row_hash sha data) (\<lambda>h. Inr (h = stored))"

definition messaging_columns :: "column list" where
  "messaging_columns =
     [(''tenant_id'', Some 64, False), (''sender_agent_id'', Some 64, False), (''recipient_agent_id'', Some 64, False), (''message_type'', Some 64, False), (''idempotency_key'', Some 128, False), (''disposition'', Some 16, False), (''prev_hash'', Some 64, False)]"

definition messaging_chain_tip_hash :: "(string \<Rightarrow> string) \<Rightarrow> chain_link list \<Rightarrow> string" where
  "messaging_chain_tip_hash sha rows = chain_tip (MESSAGING_GENESIS_HASH sha) rows"

definition append_messaging_audit_link ::
  "(string \<Rightarrow> string) \<Rightarrow> string \<Rightarrow> string \<Rightarrow> string \<Rightarrow> string \<Rightarrow> string \<Rightarrow> string \<Rightarrow> chain_link list
     \<Rightarrow> py_exc + string \<times> chain_link list" where
  "append_messaging_audit_link sha tenant_id sender_agent_id recipient_agent_id message_type idempotency_key disposition rows =
     (let prev_hash = messaging_chain_tip_hash sha rows;
          row = [(''tenant_id'', CStr tenant_id), (''sender_agent_id'', CStr sender_agent_id), (''recipient_agent_id'', CStr recipient_agent_id), (''message_type'', CStr message_type), (''idempotency_key'', CStr idempotency_key), (''disposition'', CStr disposition),
                 (''prev_hash'', CStr prev_hash)] in
      bindR (compute_messaging_row_hash sha row) (\<lambda>row_hash.
      bindR (insert_link messaging_columns row row_hash rows) (\<lambda>rows'.
        Inr (row_hash, rows'))))"

definition MESSAGING_ROW_DATA :: "string list" where
  "MESSAGING_ROW_DATA =
     [''tenant_id'', ''sender_agent_id'', ''recipient_agent_id'', ''message_type'', ''idempotency_key'', ''disposition'', ''prev_hash'']"

definition validate_messaging_chain :: "(string \<Rightarrow> string) \<Rightarrow> bool \<Rightarrow> chain_link list \<Rightarrow> py_exc + bool" where
  "validate_messaging_chain sha bypass rows =
     validate_table (verify_messaging_row_hash sha) MESSAGING_ROW_DATA (MESSAGING_GENESIS_HASH sha) bypass rows"

interpretation messaging_chain: audit_chain sha MESSAGING_CANONICAL_FIELDS "[]" MESSAGING_ROW_DATA
  "MESSAGING_GENESIS_HASH sha" "verify_messaging_row_hash sha" for sha
  by unfold_locales
    (simp_all add: MESSAGING_CANONICAL_FIELDS_def MESSAGING_ROW_DATA_def verify_messaging_row_hash_def
      compute_messaging_row_hash_def canonical_messaging_json_def dhas_row_data)

lemma append_messaging_audit_link_ok:
  assumes "chain_ok sha MESSAGING_CANONICAL_FIELDS [] (MESSAGING_GENESIS_HASH sha) rows"
    and "append_messaging_audit_link sha tenant_id sender_agent_id recipient_agent_id message_type idempotency_key disposition rows = Inr (h, rows')"
  shows "chain_ok sha MESSAGING_CANONICAL_FIELDS [] (MESSAGING_GENESIS_HASH sha) rows'"
  using assms(2)
  by (auto simp: append_messaging_audit_link_def Let_def bindR_eq_Inr compute_messaging_row_hash_def canonical_messaging_json_def
      messaging_chain_tip_hash_def split: if_splits elim!: messaging_chain.append_ok [OF assms(1), rotated])

section \<open>State\<close>

definition STATE_GENESIS_HASH :: "(string \<Rightarrow> string) \<Rightarrow> string" where
  "STATE_GENESIS_HASH sha = sha ''anoryx-orchestrator:state-audit:genesis:v1''"

definition STATE_CANONICAL_FIELDS :: "string list" where
  "STATE_CANONICAL_FIELDS =
     [''tenant_id'', ''state_key'', ''version'', ''disposition'', ''prev_hash'']"

definition STATE_OPTIONAL_FIELDS :: "string list" where
  "STATE_OPTIONAL_FIELDS = [''updated_by_agent_id'']"

definition canonical_state_json :: "pydict \<Rightarrow> string" where
  "canonical_state_json data = canonical_over STATE_CANONICAL_FIELDS STATE_OPTIONAL_FIELDS data"

definition compute_state_row_hash :: "(string \<Rightarrow> string) \<Rightarrow> pydict \<Rightarrow> py_exc + string" where
  "compute_state_row_hash sha data =
     (if \<not> dhas ''prev_hash'' data then Inl ValueError else Inr (sha (canonical_state_json data)))"

definition verify_state_row_hash :: "(string \<Rightarrow> string) \<Rightarrow> pydict \<Rightarrow> string \<Rightarrow> py_exc + bool" where
  "verify_state_row_hash sha data stored = bindR (compute_state_row_hash sha data) (\<lambda>h. Inr (h = stored))"

definition state_columns :: "column list" where
  "state_columns =
     [(''tenant_id'', Some 64, False), (''state_key'', Some 256, False), (''version'', None, False), (''updated_by_agent_id'', Some 64, True), (''disposition'', Some 16, False), (''prev_hash'', Some 64, False)]"

definition state_chain_tip_hash :: "(string \<Rightarrow> string) \<Rightarrow> chain_link list \<Rightarrow> string" where
  "state_chain_tip_hash sha rows = chain_tip (STATE_GENESIS_HASH sha) rows"

definition append_state_audit_link ::
  "(string \<Rightarrow> string) \<Rightarrow> string \<Rightarrow> string \<Rightarrow> int \<Rightarrow> string \<Rightarrow> string option \<Rightarrow> chain_link list
     \<Rightarrow> py_exc + string \<times> chain_link list" where
  "append_state_audit_link sha tenant_id state_key version disposition updated_by_agent_id rows =
     (let prev_hash = state_chain_tip_hash sha rows;
          row = [(''tenant_id'', CStr tenant_id), (''state_key'', CStr state_key), (''version'', CInt version), (''updated_by_agent_id'', opt_cell updated_by_agent_id), (''disposition'', CStr disposition),
                 (''prev_hash'', CStr prev_hash)] in
      bindR (compute_state_row_hash sha row) (\<lambda>row_hash.
      bindR (insert_link state_columns row row_hash rows) (\<lambda>rows'.
        Inr (row_hash, rows'))))"

definition STATE_ROW_DATA :: "string list" where
  "STATE_ROW_DATA =
     [''tenant_id'', ''state_key'', ''version'', ''updated_by_agent_id'', ''disposition'', ''prev_hash'']"

definition validate_state_chain :: "(string \<Rightarrow> string) \<Rightarrow> bool \<Rightarrow> chain_link list \<Rightarrow> py_exc + bool" where
  "validate_state_chain sha bypass rows =
     validate_table (verify_state_row_hash sha) STATE_ROW_DATA (STATE_GENESIS_HASH sha) bypass rows"

interpretation state_chain: audit_chain sha STATE_CANONICAL_FIELDS STATE_OPTIONAL_FIELDS STATE_ROW_DATA
  "STATE_GENESIS_HASH sha" "verify_state_row_hash sha" for sha
  by unfold_locales
    (simp_all add: STATE_CANONICAL_FIELDS_def STATE_OPTIONAL_FIELDS_def STATE_ROW_DATA_def verify_state_row_hash_def
      compute_state_row_hash_def canonical_state_json_def dhas_row_data)

lemma append_state_audit_link_ok:
  assumes "chain_ok sha STATE_CANONICAL_FIELDS STATE_OPTIONAL_FIELDS (STATE_GENESIS_HASH sha) rows"
    and "append_state_audit_link sha tenant_id state_key version disposition updated_by_agent_id rows = Inr (h, rows')"
  shows "chain_ok sha STATE_CANONICAL_FIELDS STATE_OPTIONAL_FIELDS (STATE_GENESIS_HASH sha) rows'"
  using assms(2)
  by (auto simp: append_state_audit_link_def Let_def bindR_eq_Inr compute_state_row_hash_def canonical_state_json_def
      state_chain_tip_hash_def split: if_splits elim!: state_chain.append_ok [OF assms(1), rotated])

section \<open>External gateway\<close>

definition EXTERNAL_GATEWAY_GENESIS_HASH :: "(string \<Rightarrow> string) \<Rightarrow> string" where
  "EXTERNAL_GATEWAY_GENESIS_HASH sha = sha ''anoryx-orchestrator:external-gateway-audit:genesis:v1''"

definition EXTERNAL_GATEWAY_CANONICAL_FIELDS :: "string list" where
  "EXTERNAL_GATEWAY_CANONICAL_FIELDS =
     [''tenant_id'', ''key_id'', ''route'', ''outcome'', ''prev_hash'']"

definition canonical_external_gateway_json :: "pydict \<Rightarrow> string" where
  "canonical_external_gateway_json data = canonical_over EXTERNAL_GATEWAY_CANONICAL_FIELDS [] data"

definition compute_external_gateway_row_hash :: "(string \<Rightarrow> string) \<Rightarrow> pydict \<Rightarrow> py_exc + string" where
  "compute_external_gateway_row_hash sha data =
     (if \<not> dhas ''prev_hash'' data then Inl ValueError else Inr (sha (canonical_external_gateway_json data)))"

definition verify_external_gateway_row_hash :: "(string \<Rightarrow> string) \<Rightarrow> pydict \<Rightarrow> string \<Rightarrow> py_exc + bool" where
  "verify_external_gateway_row_hash sha data stored = bindR (compute_external_gateway_row_hash sha data) (\<lambda>h. Inr (h = stored))"

definition external_gateway_columns :: "column list" where
  "external_gateway_columns =
     [(''tenant_id'', Some 64, False), (''key_id'', Some 64, False), (''route'', Some 128, False), (''outcome'', Some 16, False), (''prev_hash'', Some 64, False)]"

definition external_gateway_chain_tip_hash :: "(string \<Rightarrow> string) \<Rightarrow> chain_link list \<Rightarrow> string" where
  "external_gateway_chain_tip_hash sha rows = chain_tip (EXTERNAL_GATEWAY_GENESIS_HASH sha) rows"

definition append_external_gateway_audit_link ::
  "(string \<Rightarrow> string) \<Rightarrow> string \<Rightarrow> string \<Rightarrow> string \<Rightarrow> string \<Rightarrow> chain_link list
     \<Rightarrow> py_exc + string \<times> chain_link list" where
  "append_external_gateway_audit_link sha tenant_id key_id route outcome rows =
     (let prev_hash = external_gateway_chain_tip_hash sha rows;
          row = [(''tenant_id'', CStr tenant_id), (''key_id'', CStr key_id), (''route'', CStr route), (''outcome'', CStr outcome),
                 (''prev_hash'', CStr prev_hash)] in
      bindR (compute_external_gateway_row_hash sha row) (\<lambda>row_hash.
      bindR (insert_link external_gateway_columns row row_hash rows) (\<lambda>rows'.
        Inr (row_hash, rows'))))"

definition EXTERNAL_GATEWAY_ROW_DATA :: "string list" where
  "EXTERNAL_GATEWAY_ROW_DATA =
     [''tenant_id'', ''key_id'', ''route'', ''outcome'', ''prev_hash'']"

definition validate_external_gateway_chain :: "(string \<Rightarrow> string) \<Rightarrow> bool \<Rightarrow> chain_link list \<Rightarrow> py_exc + bool" where
  "validate_external_gateway_chain sha bypass rows =
     validate_table (verify_external_gateway_row_hash sha) EXTERNAL_GATEWAY_ROW_DATA (EXTERNAL_GATEWAY_GENESIS_HASH sha) bypass rows"

interpretation external_gateway_chain: audit_chain sha EXTERNAL_GATEWAY_CANONICAL_FIELDS "[]" EXTERNAL_GATEWAY_ROW_DATA
  "EXTERNAL_GATEWAY_GENESIS_HASH sha" "verify_external_gateway_row_hash sha" for sha
  by unfold_locales
    (simp_all add: EXTERNAL_GATEWAY_CANONICAL_FIELDS_def EXTERNAL_GATEWAY_ROW_DATA_def verify_external_gateway_row_hash_def
      compute_external_gateway_row_hash_def canonical_external_gateway_json_def dhas_row_data)

lemma append_external_gateway_audit_link_ok:
  assumes "chain_ok sha EXTERNAL_GATEWAY_CANONICAL_FIELDS [] (EXTERNAL_GATEWAY_GENESIS_HASH sha) rows"
    and "append_external_gateway_audit_link sha tenant_id key_id route outcome rows = Inr (h, rows')"
  shows "chain_ok sha EXTERNAL_GATEWAY_CANONICAL_FIELDS [] (EXTERNAL_GATEWAY_GENESIS_HASH sha) rows'"
  using assms(2)
  by (auto simp: append_external_gateway_audit_link_def Let_def bindR_eq_Inr compute_external_gateway_row_hash_def canonical_external_gateway_json_def
      external_gateway_chain_tip_hash_def split: if_splits elim!: external_gateway_chain.append_ok [OF assms(1), rotated])

section \<open>Rollback\<close>

definition ROLLBACK_GENESIS_HASH :: "(string \<Rightarrow> string) \<Rightarrow> string" where
  "ROLLBACK_GENESIS_HASH sha = sha ''anoryx-orchestrator:distribution-rollback-audit:genesis:v1''"

definition ROLLBACK_CANONICAL_FIELDS :: "string list" where
  "ROLLBACK_CANONICAL_FIELDS =
     [''tenant_id'', ''policy_id'', ''source_distribution_id'', ''superseded_distribution_id'', ''new_distribution_id'', ''prev_hash'']"

definition canonical_rollback_json :: "pydict \<Rightarrow> string" where
  "canonical_rollback_json data = canonical_over ROLLBACK_CANONICAL_FIELDS [] data"

definition compute_rollback_row_hash :: "(string \<Rightarrow> string) \<Rightarrow> pydict \<Rightarrow> py_exc + string" where
  "compute_rollback_row_hash sha data =
     (if \<not> dhas ''prev_hash'' data then Inl ValueError else Inr (sha (canonical_rollback_json data)))"

definition verify_rollback_row_hash :: "(string \<Rightarrow> string) \<Rightarrow> pydict \<Rightarrow> string \<Rightarrow> py_exc + bool" where
  "verify_rollback_row_hash sha data stored = bindR (compute_rollback_row_hash sha data) (\<lambda>h. Inr (h = stored))"

definition rollback_columns :: "column list" where
  "rollback_columns =
     [(''tenant_id'', Some 64, False), (''policy_id'', Some 64, False), (''source_distribution_id'', Some 64, False), (''superseded_distribution_id'', Some 64, False), (''new_distribution_id'', Some 64, False), (''prev_hash'', Some 64, False)]"

definition rollback_chain_tip_hash :: "(string \<Rightarrow> string) \<Rightarrow> chain_link list \<Rightarrow> string" where
  "rollback_chain_tip_hash sha rows = chain_tip (ROLLBACK_GENESIS_HASH sha) rows"

definition append_rollback_audit_link ::
  "(string \<Rightarrow> string) \<Rightarrow> string \<Rightarrow> string \<Rightarrow> string \<Rightarrow> string \<Rightarrow> string \<Rightarrow> chain_link list
     \<Rightarrow> py_exc + string \<times> chain_link list" where
  "append_rollback_audit_link sha tenant_id policy_id source_distribution_id superseded_distribution_id new_distribution_id rows =
     (let prev_hash = rollback_chain_tip_hash sha rows;
          row = [(''tenant_id'', CStr tenant_id), (''policy_id'', CStr policy_id), (''source_distribution_id'', CStr source_distribution_id), (''superseded_distribution_id'', CStr superseded_distribution_id), (''new_distribution_id'', CStr new_distribution_id),
                 (''prev_hash'', CStr prev_hash)] in
      bindR (compute_rollback_row_hash sha row) (\<lambda>row_hash.
      bindR (insert_link rollback_columns row row_hash rows) (\<lambda>rows'.
        Inr (row_hash, rows'))))"

definition ROLLBACK_ROW_DATA :: "string list" where
  "ROLLBACK_ROW_DATA =
     [''tenant_id'', ''policy_id'', ''source_distribution_id'', ''superseded_distribution_id'', ''new_distribution_id'', ''prev_hash'']"

definition validate_rollback_chain :: "(string \<Rightarrow> string) \<Rightarrow> bool \<Rightarrow> chain_link list \<Rightarrow> py_exc + bool" where
  "validate_rollback_chain sha bypass rows =
     validate_table (verify_rollback_row_hash sha) ROLLBACK_ROW_DATA (ROLLBACK_GENESIS_HASH sha) bypass rows"

interpretation rollback_chain: audit_chain sha ROLLBACK_CANONICAL_FIELDS "[]" ROLLBACK_ROW_DATA
  "ROLLBACK_GENESIS_HASH sha" "verify_rollback_row_hash sha" for sha
  by unfold_locales
    (simp_all add: ROLLBACK_CANONICAL_FIELDS_def ROLLBACK_ROW_DATA_def verify_rollback_row_hash_def
      compute_rollback_row_hash_def canonical_rollback_json_def dhas_row_data)

lemma append_rollback_audit_link_ok:
  assumes "chain_ok sha ROLLBACK_CANONICAL_FIELDS [] (ROLLBACK_GENESIS_HASH sha) rows"
    and "append_rollback_audit_link sha tenant_id policy_id source_distribution_id superseded_distribution_id new_distribution_id rows = Inr (h, rows')"
  shows "chain_ok sha ROLLBACK_CANONICAL_FIELDS [] (ROLLBACK_GENESIS_HASH sha) rows'"
  using assms(2)
  by (auto simp: append_rollback_audit_link_def Let_def bindR_eq_Inr compute_rollback_row_hash_def canonical_rollback_json_def
      rollback_chain_tip_hash_def split: if_splits elim!: rollback_chain.append_ok [OF assms(1), rotated])

section \<open>Safety\<close>

definition SAFETY_GENESIS_HASH :: "(string \<Rightarrow> string) \<Rightarrow> string" where
  "SAFETY_GENESIS_HASH sha = sha ''anoryx-orchestrator:safety-audit:genesis:v1''"

definition SAFETY_CANONICAL_FIELDS :: "string list" where
  "SAFETY_CANONICAL_FIELDS =
     [''tenant_id'', ''source_product'', ''category'', ''outcome'', ''idempotency_key'', ''disposition'', ''prev_hash'']"

definition SAFETY_OPTIONAL_FIELDS :: "string list" where
  "SAFETY_OPTIONAL_FIELDS = [''target'']"

definition canonical_safety_json :: "pydict \<Rightarrow> string" where
  "canonical_safety_json data = canonical_over SAFETY_CANONICAL_FIELDS SAFETY_OPTIONAL_FIELDS data"

definition compute_safety_row_hash :: "(string \<Rightarrow> string) \<Rightarrow> pydict \<Rightarrow> py_exc + string" where
  "compute_safety_row_hash sha data =
     (if \<not> dhas ''prev_hash'' data then Inl ValueError else Inr (sha (canonical_safety_json data)))"

definition verify_safety_row_hash :: "(string \<Rightarrow> string) \<Rightarrow> pydict \<Rightarrow> string \<Rightarrow> py_exc + bool" where
  "verify_safety_row_hash sha data stored = bindR (compute_safety_row_hash sha data) (\<lambda>h. Inr (h = stored))"

definition safety_columns :: "column list" where
  "safety_columns =
     [(''tenant_id'', Some 64, False), (''source_product'', Some 16, False), (''category'', Some 16, False), (''outcome'', Some 16, False), (''idempotency_key'', Some 128, False), (''disposition'', Some 16, False), (''target'', Some 256, True), (''prev_hash'', Some 64, False)]"

definition safety_chain_tip_hash :: "(string \<Rightarrow> string) \<Rightarrow> chain_link list \<Rightarrow> string" where
  "safety_chain_tip_hash sha rows = chain_tip (SAFETY_GENESIS_HASH sha) rows"

definition append_safety_audit_link ::
  "(string \<Rightarrow> string) \<Rightarrow> string \<Rightarrow> string \<Rightarrow> string \<Rightarrow> string \<Rightarrow> string \<Rightarrow> string \<Rightarrow> string option \<Rightarrow> chain_link list
     \<Rightarrow> py_exc + string \<times> chain_link list" where
  "append_safety_audit_link sha tenant_id source_product category outcome idempotency_key disposition target rows =
     (let prev_hash = safety_chain_tip_hash sha rows;
          row = [(''tenant_id'', CStr tenant_id), (''source_product'', CStr source_product), (''category'', CStr category), (''outcome'', CStr outcome), (''idempotency_key'', CStr idempotency_key), (''disposition'', CStr disposition), (''target'', opt_cell target),
                 (''prev_hash'', CStr prev_hash)] in
      bindR (compute_safety_row_hash sha row) (\<lambda>row_hash.
      bindR (insert_link safety_columns row row_hash rows) (\<lambda>rows'.
        Inr (row_hash, rows'))))"

definition SAFETY_ROW_DATA :: "string list" where
  "SAFETY_ROW_DATA =
     [''tenant_id'', ''source_product'', ''category'', ''outcome'', ''idempotency_key'', ''disposition'', ''target'', ''prev_hash'']"

definition validate_safety_chain :: "(string \<Rightarrow> string) \<Rightarrow> bool \<Rightarrow> chain_link list \<Rightarrow> py_exc + bool" where
  "validate_safety_chain sha bypass rows =
     validate_table (verify_safety_row_hash sha) SAFETY_ROW_DATA (SAFETY_GENESIS_HASH sha) bypass rows"

interpretation safety_chain: audit_chain sha SAFETY_CANONICAL_FIELDS SAFETY_OPTIONAL_FIELDS SAFETY_ROW_DATA
  "SAFETY_GENESIS_HASH sha" "verify_safety_row_hash sha" for sha
  by unfold_locales
    (simp_all add: SAFETY_CANONICAL_FIELDS_def SAFETY_OPTIONAL_FIELDS_def SAFETY_ROW_DATA_def verify_safety_row_hash_def
      compute_safety_row_hash_def canonical_safety_json_def dhas_row_data)

lemma append_safety_audit_link_ok:
  assumes "chain_ok sha SAFETY_CANONICAL_FIELDS SAFETY_OPTIONAL_FIELDS (SAFETY_GENESIS_HASH sha) rows"
    and "append_safety_audit_link sha tenant_id source_product category outcome idempotency_key disposition target rows = Inr (h, rows')"
  shows "chain_ok sha SAFETY_CANONICAL_FIELDS SAFETY_OPTIONAL_FIELDS (SAFETY_GENESIS_HASH sha) rows'"
  using assms(2)
  by (auto simp: append_safety_audit_link_def Let_def bindR_eq_Inr compute_safety_row_hash_def canonical_safety_json_def
      safety_chain_tip_hash_def split: if_splits elim!: safety_chain.append_ok [OF assms(1), rotated])

end
