(* ===== verification/Json_Dumps.thy ===== *)
theory Json_Dumps
  imports Orch_Chain
begin

text \<open>
  \<open>json.dumps\<close> of an arbitrary value with \<open>separators=(",", ":")\<close> and
  \<open>ensure_ascii=False\<close>, with or without \<open>sort_keys\<close>, as the Orchestrator prints policies,
  events and messages before it hashes or forwards them. A float is printed as \<open>repr\<close> does it:
  the shortest digits, in fixed notation while the decimal point lies between -4 and 16 places
  from the first digit. (Negative zero is not told apart from zero.)
\<close>

definition zeros :: "nat \<Rightarrow> string" where
  "zeros n = replicate n (CHR ''0'')"

definition exponent_text :: "int \<Rightarrow> string" where
  "exponent_text x = (if x < 0 then ''e-'' else ''e+'') @ (if \<bar>x\<bar> < 10 then ''0'' else []) @ dec_int \<bar>x\<bar>"

text \<open>The digits \<open>ds\<close> with the decimal point \<open>p\<close> places after their start.\<close>

definition place_point :: "string \<Rightarrow> int \<Rightarrow> string" where
  "place_point ds p =
     (let n = int (length ds) in
      if - 4 < p \<and> p \<le> 16 then
        (if p \<le> 0 then ''0.'' @ zeros (nat (- p)) @ ds
         else if n \<le> p then ds @ zeros (nat (p - n)) @ ''.0''
         else take (nat p) ds @ ''.'' @ drop (nat p) ds)
      else take 1 ds @ (if n = 1 then [] else ''.'' @ drop 1 ds) @ exponent_text (p - 1))"

text \<open>\<open>m * 10 ^ e\<close> without the trailing zeros of \<open>m\<close>.\<close>

function strip_zeros :: "int \<Rightarrow> int \<Rightarrow> int \<times> int" where
  "strip_zeros m e = (if m = 0 then (0, 0) else if m mod 10 = 0 then strip_zeros (m div 10) (e + 1) else (m, e))"
  by pat_completeness auto

termination
  by (relation "measure (\<lambda>(m, e). nat \<bar>m\<bar>)") auto

declare strip_zeros.simps [simp del]

fun float_repr :: "pyfloat \<Rightarrow> string" where
  "float_repr PNan = ''NaN''"
| "float_repr (PInf neg) = (if neg then ''-Infinity'' else ''Infinity'')"
| "float_repr (PFin m e) =
     (let (m', e') = strip_zeros m e; ds = dec_int \<bar>m'\<bar> in
      (if m' < 0 then ''-'' else []) @ (if m' = 0 then ''0.0'' else place_point ds (int (length ds) + e')))"

fun json_dumps :: "bool \<Rightarrow> json \<Rightarrow> string" where
  "json_dumps srt JNull = ''null''"
| "json_dumps srt (JBool b) = (if b then ''true'' else ''false'')"
| "json_dumps srt (JInt i) = dec_int i"
| "json_dumps srt (JFloat x) = float_repr x"
| "json_dumps srt (JStr s) = json_str s"
| "json_dumps srt (JArr vs) = ''['' @ join_comma (map (json_dumps srt) vs) @ '']''"
| "json_dumps srt (JObj kvs) =
     (let items = map (\<lambda>(k, v). (k, json_str k @ '':'' @ json_dumps srt v)) kvs in
      ''{'' @ join_comma (map snd (if srt then sort_key fst items else items)) @ ''}'')"

end
