(* ===== verification/Orch_Store.thy ===== *)
theory Orch_Store
  imports Schema Orch_Audit Json_Dumps Ingest
begin

text \<open>
  The Orchestrator's database (\<open>orchestrator.persistence.models\<close> and the migrations): one
  record whose fields are the tables, each the list of its rows in insertion order, with the
  eleven audit chains in a record of their own. A handler runs several transactions; each may
  be rolled back with an exception or committed with its acknowledgement lost, and other
  requests may commit between two of them. Server-set times are passed as arguments; ids from
  \<open>uuid.uuid4()\<close> come from a generator applied to a counter, as in \<open>Schema\<close>.
\<close>

section \<open>Rows\<close>

text \<open>\<open>sequence_number\<close> columns are bigserials. The numbers of an event envelope are kept as the JSON
  numbers they arrive as.\<close>

record ingest_event =
  ev_seq :: int
  ev_envelope :: string
  ev_key :: string
  ev_source :: string
  ev_source_sequence :: json
  ev_schema_version :: json
  ev_occurred_at :: string
  ev_correlation :: string
  ev_causation :: "string option"
  ev_common :: pydict
  ev_payload :: json
  ev_content_hash :: string

record forward_row =
  fo_id :: ident
  fo_tenant :: ident
  fo_event :: string
  fo_key :: string
  fo_status :: string
  fo_created :: instant
  fo_attempts :: int
  fo_last_attempt :: "instant option"
  fo_last_error :: "string option"

record orch_dlq_row =
  dq_id :: ident
  dq_envelope :: json
  dq_reason :: string
  dq_attempts :: int
  dq_first_failed_at :: string
  dq_event_type :: string
  dq_source :: string
  dq_sequence :: json
  dq_tenant :: cell

record distribution_row =
  ds_id :: ident
  ds_policy :: ident
  ds_version :: json
  ds_tenant :: ident
  ds_type :: string
  ds_state :: string
  ds_record :: json
  ds_content_hash :: string
  ds_created :: instant

record target_dist_row =
  dt_id :: ident
  dt_distribution :: ident
  dt_tenant :: ident
  dt_sentinel :: ident
  dt_state :: string
  dt_attempts :: int
  dt_max_attempts :: int
  dt_last_error :: "string option"
  dt_next_attempt :: "instant option"
  dt_distributed :: "instant option"
  dt_updated :: instant

record sentinel_row =
  sr_id :: ident
  sr_endpoint :: string
  sr_peer_auth_ref :: string
  sr_capabilities :: "string list"
  sr_health :: string
  sr_failures :: int
  sr_checked :: "instant option"
  sr_healthy :: "instant option"
  sr_enabled :: bool
  sr_created :: instant
  sr_updated :: instant

record agent_message =
  am_seq :: int
  am_tenant :: ident
  am_sender :: "ident \<times> ident \<times> ident"
  am_recipient :: "ident \<times> ident \<times> ident"
  am_type :: string
  am_body :: json
  am_key :: string
  am_created :: instant

record state_row =
  st_tenant :: ident
  st_key :: string
  st_value :: json
  st_version :: int
  st_updated_at :: instant
  st_updated_by :: "string option"

record automation_rule =
  rl_id :: ident
  rl_tenant :: ident
  rl_name :: string
  rl_enabled :: bool
  rl_event_type :: string
  rl_source :: "string option"
  rl_conditions :: "(string \<times> json) list"
  rl_action :: string
  rl_config :: "(string \<times> json) list"
  rl_created :: instant
  rl_updated :: instant

record side_event =
  sd_seq :: int
  sd_tenant :: ident
  sd_source :: string
  sd_fields :: pydict
  sd_key :: string
  sd_occurred :: instant
  sd_received :: instant

record api_key =
  tk_id :: ident
  tk_tenant :: ident
  tk_hash :: string
  tk_label :: string
  tk_scopes :: "string list"
  tk_status :: string
  tk_limit :: int
  tk_created :: instant
  tk_revoked :: "instant option"

record rate_counter =
  ct_key :: ident
  ct_window :: instant
  ct_count :: int

section \<open>The database\<close>

record orch_chains =
  ingest_audit_log :: "chain_link list"
  distribution_audit_log :: "chain_link list"
  sentinel_registry_audit_log :: "chain_link list"
  relay_audit_log :: "chain_link list"
  identity_audit_log :: "chain_link list"
  automation_executions :: "chain_link list"
  agent_messaging_audit_log :: "chain_link list"
  agent_state_audit_log :: "chain_link list"
  external_gateway_audit_log :: "chain_link list"
  distribution_rollbacks :: "chain_link list"
  safety_audit_log :: "chain_link list"

record orch_db =
  ingest_events :: "ingest_event list"
  forward_outbox :: "forward_row list"
  dead_letter_queue :: "orch_dlq_row list"
  policy_distributions :: "distribution_row list"
  policy_distribution_targets :: "target_dist_row list"
  sentinel_registry :: "sentinel_row list"
  agent_messages :: "agent_message list"
  agent_state :: "state_row list"
  automation_rules :: "automation_rule list"
  identity_events :: "side_event list"
  safety_events :: "side_event list"
  third_party_api_keys :: "api_key list"
  rate_limit_counters :: "rate_counter list"
  chains :: orch_chains
  uuid_next :: nat

definition fresh_uuid :: "u4gen \<Rightarrow> orch_db \<Rightarrow> ident \<times> orch_db" where
  "fresh_uuid u4 d = (u4 (uuid_next d), d\<lparr>uuid_next := Suc (uuid_next d)\<rparr>)"

lemma fresh_uuid_eq [simp]: "fresh_uuid u4 d = (u4 (uuid_next d), d\<lparr>uuid_next := Suc (uuid_next d)\<rparr>)"
  by (simp add: fresh_uuid_def)

section \<open>Transactions\<close>

datatype txn_fault = Txn_ok | Txn_abort py_exc | Txn_unacked py_exc

definition run_txn :: "txn_fault \<Rightarrow> ('s \<Rightarrow> py_exc + 'a \<times> 's) \<Rightarrow> 's \<Rightarrow> (py_exc + 'a) \<times> 's" where
  "run_txn fault m s =
     (case fault of
        Txn_abort e \<Rightarrow> (Inl e, s)
      | Txn_ok \<Rightarrow> (case m s of Inl e \<Rightarrow> (Inl e, s) | Inr (a, s') \<Rightarrow> (Inr a, s'))
      | Txn_unacked e \<Rightarrow> (case m s of Inl x \<Rightarrow> (Inl x, s) | Inr (a, s') \<Rightarrow> (Inl e, s')))"

lemma run_txn_cases:
  assumes "run_txn fault m s = (y, s')"
  obtains (failed) e where "y = Inl e" "s' = s" "fault = Txn_abort e \<or> m s = Inl e"
  | (committed) a where "m s = Inr (a, s')" "y = Inr a"
  | (unacked) a e where "m s = Inr (a, s')" "fault = Txn_unacked e" "y = Inl e"
  using assms by (auto simp: run_txn_def split: txn_fault.splits sum.splits prod.splits)

text \<open>What a transaction keeps when it succeeds, it keeps in every outcome.\<close>

lemma run_txn_preserves:
  assumes "run_txn fault m s = (y, s')" and "\<And>a t. m s = Inr (a, t) \<Longrightarrow> P t" and "P s"
  shows "P s'"
  using assms(1) by (cases rule: run_txn_cases) (use assms(2,3) in auto)

text \<open>The next value of a bigserial column.\<close>

definition next_serial :: "('r \<Rightarrow> int) \<Rightarrow> 'r list \<Rightarrow> int" where
  "next_serial num rows = (if rows = [] then 1 else Max (set (map num rows)) + 1)"

lemma next_serial_greater: "r \<in> set rows \<Longrightarrow> num r < next_serial num rows"
  by (cases rows) (auto simp: next_serial_def less_Suc_eq_le Max_ge_iff intro: zle_add1_eq_le [THEN iffD2] Max_ge)

text \<open>Text that a bounded text column stores.\<close>

definition varchar_ok :: "nat \<Rightarrow> string \<Rightarrow> bool" where
  "varchar_ok n s \<longleftrightarrow> length s \<le> n \<and> no_nul s"

section \<open>The chains stay valid\<close>

definition chains_ok :: "(string \<Rightarrow> string) \<Rightarrow> orch_chains \<Rightarrow> bool" where
  "chains_ok sha c \<longleftrightarrow>
     chain_ok sha INGEST_CANONICAL_FIELDS INGEST_OPTIONAL_FIELDS (INGEST_GENESIS_HASH sha) (ingest_audit_log c)
   \<and> chain_ok sha DISTRIBUTION_CANONICAL_FIELDS DISTRIBUTION_OPTIONAL_FIELDS (DISTRIBUTION_GENESIS_HASH sha) (distribution_audit_log c)
   \<and> chain_ok sha REGISTRY_CANONICAL_FIELDS REGISTRY_OPTIONAL_FIELDS (REGISTRY_GENESIS_HASH sha) (sentinel_registry_audit_log c)
   \<and> chain_ok sha RELAY_CANONICAL_FIELDS RELAY_OPTIONAL_FIELDS (RELAY_GENESIS_HASH sha) (relay_audit_log c)
   \<and> chain_ok sha IDENTITY_CANONICAL_FIELDS IDENTITY_OPTIONAL_FIELDS (IDENTITY_GENESIS_HASH sha) (identity_audit_log c)
   \<and> chain_ok sha AUTOMATION_CANONICAL_FIELDS AUTOMATION_OPTIONAL_FIELDS (AUTOMATION_GENESIS_HASH sha) (automation_executions c)
   \<and> chain_ok sha MESSAGING_CANONICAL_FIELDS [] (MESSAGING_GENESIS_HASH sha) (agent_messaging_audit_log c)
   \<and> chain_ok sha STATE_CANONICAL_FIELDS STATE_OPTIONAL_FIELDS (STATE_GENESIS_HASH sha) (agent_state_audit_log c)
   \<and> chain_ok sha EXTERNAL_GATEWAY_CANONICAL_FIELDS [] (EXTERNAL_GATEWAY_GENESIS_HASH sha) (external_gateway_audit_log c)
   \<and> chain_ok sha ROLLBACK_CANONICAL_FIELDS [] (ROLLBACK_GENESIS_HASH sha) (distribution_rollbacks c)
   \<and> chain_ok sha SAFETY_CANONICAL_FIELDS SAFETY_OPTIONAL_FIELDS (SAFETY_GENESIS_HASH sha) (safety_audit_log c)"

text \<open>Every append keeps every chain valid.\<close>

lemma chains_ok_append:
  assumes "chains_ok sha c"
  shows
    "\<And>flds disposition dlq_reason dlq_id. append_audit_link sha flds disposition dlq_reason dlq_id (ingest_audit_log c) = Inr (h, rows) \<Longrightarrow> chains_ok sha (c\<lparr>ingest_audit_log := rows\<rparr>)"
    "\<And>flds disposition sentinel_id error_reason. append_distribution_audit_link sha flds disposition sentinel_id error_reason (distribution_audit_log c) = Inr (h, rows) \<Longrightarrow> chains_ok sha (c\<lparr>distribution_audit_log := rows\<rparr>)"
    "\<And>sentinel_id action disposition endpoint capabilities error_reason. append_registry_audit_link sha sentinel_id action disposition endpoint capabilities error_reason (sentinel_registry_audit_log c) = Inr (h, rows) \<Longrightarrow> chains_ok sha (c\<lparr>sentinel_registry_audit_log := rows\<rparr>)"
    "\<And>tenant_id source_product sentinel_id target_path disposition status_code content_hash error_reason. append_relay_audit_link sha tenant_id source_product sentinel_id target_path disposition status_code content_hash error_reason (relay_audit_log c) = Inr (h, rows) \<Longrightarrow> chains_ok sha (c\<lparr>relay_audit_log := rows\<rparr>)"
    "\<And>tenant_id source_product principal_type principal_id action idempotency_key disposition target. append_identity_audit_link sha tenant_id source_product principal_type principal_id action idempotency_key disposition target (identity_audit_log c) = Inr (h, rows) \<Longrightarrow> chains_ok sha (c\<lparr>identity_audit_log := rows\<rparr>)"
    "\<And>rule_id tenant_id triggering_event_id action_type disposition error_reason. append_automation_audit_link sha rule_id tenant_id triggering_event_id action_type disposition error_reason (automation_executions c) = Inr (h, rows) \<Longrightarrow> chains_ok sha (c\<lparr>automation_executions := rows\<rparr>)"
    "\<And>tenant_id sender_agent_id recipient_agent_id message_type idempotency_key disposition. append_messaging_audit_link sha tenant_id sender_agent_id recipient_agent_id message_type idempotency_key disposition (agent_messaging_audit_log c) = Inr (h, rows) \<Longrightarrow> chains_ok sha (c\<lparr>agent_messaging_audit_log := rows\<rparr>)"
    "\<And>tenant_id state_key version disposition updated_by_agent_id. append_state_audit_link sha tenant_id state_key version disposition updated_by_agent_id (agent_state_audit_log c) = Inr (h, rows) \<Longrightarrow> chains_ok sha (c\<lparr>agent_state_audit_log := rows\<rparr>)"
    "\<And>tenant_id key_id route outcome. append_external_gateway_audit_link sha tenant_id key_id route outcome (external_gateway_audit_log c) = Inr (h, rows) \<Longrightarrow> chains_ok sha (c\<lparr>external_gateway_audit_log := rows\<rparr>)"
    "\<And>tenant_id policy_id source_distribution_id superseded_distribution_id new_distribution_id. append_rollback_audit_link sha tenant_id policy_id source_distribution_id superseded_distribution_id new_distribution_id (distribution_rollbacks c) = Inr (h, rows) \<Longrightarrow> chains_ok sha (c\<lparr>distribution_rollbacks := rows\<rparr>)"
    "\<And>tenant_id source_product category outcome idempotency_key disposition target. append_safety_audit_link sha tenant_id source_product category outcome idempotency_key disposition target (safety_audit_log c) = Inr (h, rows) \<Longrightarrow> chains_ok sha (c\<lparr>safety_audit_log := rows\<rparr>)"
  using assms unfolding chains_ok_def
  by (auto intro: append_audit_link_ok append_distribution_audit_link_ok append_registry_audit_link_ok append_relay_audit_link_ok append_identity_audit_link_ok append_automation_audit_link_ok append_messaging_audit_link_ok append_state_audit_link_ok append_external_gateway_audit_link_ok append_rollback_audit_link_ok append_safety_audit_link_ok)

text \<open>On valid chains every validator answers True.\<close>

lemma chains_ok_validate:
  assumes "chains_ok sha c"
  shows "validate_chain sha True (ingest_audit_log c) = Inr True"
    "validate_distribution_chain sha True (distribution_audit_log c) = Inr True"
    "validate_registry_chain sha True (sentinel_registry_audit_log c) = Inr True"
    "validate_relay_chain sha True (relay_audit_log c) = Inr True"
    "validate_identity_chain sha True (identity_audit_log c) = Inr True"
    "validate_automation_chain sha True (automation_executions c) = Inr True"
    "validate_messaging_chain sha True (agent_messaging_audit_log c) = Inr True"
    "validate_state_chain sha True (agent_state_audit_log c) = Inr True"
    "validate_external_gateway_chain sha True (external_gateway_audit_log c) = Inr True"
    "validate_rollback_chain sha True (distribution_rollbacks c) = Inr True"
    "validate_safety_chain sha True (safety_audit_log c) = Inr True"
  using assms unfolding chains_ok_def validate_chain_def validate_distribution_chain_def validate_registry_chain_def validate_relay_chain_def validate_identity_chain_def validate_automation_chain_def validate_messaging_chain_def validate_state_chain_def validate_external_gateway_chain_def validate_rollback_chain_def validate_safety_chain_def
  by (blast intro: ingest_chain.validates distribution_chain.validates registry_chain.validates relay_chain.validates identity_chain.validates automation_chain.validates messaging_chain.validates state_chain.validates external_gateway_chain.validates rollback_chain.validates safety_chain.validates)+

end
