(* ===== verification/Orch_Ingest.thy ===== *)
theory Orch_Ingest
  imports Orch_Store "HOL-Library.Sublist"
begin

text \<open>
  The Orchestrator's ingest seam (\<open>orchestrator.ingest\<close>, \<open>pipeline\<close>,
  \<open>hmac_verify\<close>, \<open>schema_validation\<close>, \<open>boundary\<close>): signature check, structural
  validation, the consumer obligations, deduplication and persistence, dead letters, and the
  handler. The validator of \<open>events.schema.json\<close>, the format checks of the JSON Schema
  library, the JSON decoder, HMAC and SHA-256 are parameters. Between two transactions of a
  request other requests may commit (\<open>ig_race\<close>, \<open>ig_race2\<close>); a transaction may fail or lose
  its acknowledgement.
\<close>

section \<open>Settings and externals\<close>

record orch_ingest_settings =
  oi_secret :: string
  oi_tolerance :: int
  oi_versions :: "int list"
  oi_peer :: string

definition SUPPORTED_SCHEMA_VERSIONS :: "int list" where "SUPPORTED_SCHEMA_VERSIONS = [1]"
definition INGEST_PEER_SOURCE_PRODUCT :: string where "INGEST_PEER_SOURCE_PRODUCT = ''sentinel''"

definition get_ingest_settings :: "environ \<Rightarrow> py_exc + orch_ingest_settings" where
  "get_ingest_settings env =
     (let secret = (case env ''ORCH_INGEST_HMAC_SECRET'' of None \<Rightarrow> [] | Some s \<Rightarrow> s) in
      if secret = [] then Inl RuntimeError
      else Inr \<lparr>oi_secret = secret, oi_tolerance = HMAC_TOLERANCE_SECONDS,
                oi_versions = SUPPORTED_SCHEMA_VERSIONS, oi_peer = INGEST_PEER_SOURCE_PRODUCT\<rparr>)"

record orch_ext =
  xo_mac :: "string \<Rightarrow> string \<Rightarrow> string"
  xo_sha :: "string \<Rightarrow> string"
  xo_loads :: "string \<Rightarrow> json option"
  xo_uuid_format :: "string \<Rightarrow> bool"
  xo_datetime_format :: "string \<Rightarrow> bool"
  xo_event_valid :: "json \<Rightarrow> bool"
  xo_policy_valid :: "json \<Rightarrow> bool"
  xo_u4 :: u4gen

section \<open>Signatures\<close>

datatype hmac_outcome = HMAC_OK | UNAUTHENTICATED | REJECTED

definition SIG_HEX_LEN :: nat where "SIG_HEX_LEN = 64"
definition HEXDIGITS :: string where "HEXDIGITS = ''0123456789abcdefABCDEF''"

definition verify_ingest_signature ::
  "(string \<Rightarrow> string \<Rightarrow> string) \<Rightarrow> string \<Rightarrow> string \<Rightarrow> string option \<Rightarrow> string option \<Rightarrow> int \<Rightarrow> int
     \<Rightarrow> py_exc + hmac_outcome \<times> string" where
  "verify_ingest_signature mac secret raw_body signature_header timestamp_header tolerance now =
     (case signature_header of
        None \<Rightarrow> Inr (UNAUTHENTICATED, ''signature_missing'')
      | Some sg \<Rightarrow>
     if sg = [] \<or> \<not> prefix SIGNATURE_PREFIX sg then Inr (UNAUTHENTICATED, ''signature_missing'')
     else (case timestamp_header of
        None \<Rightarrow> Inr (UNAUTHENTICATED, ''timestamp_missing'')
      | Some th \<Rightarrow>
     if th = [] then Inr (UNAUTHENTICATED, ''timestamp_missing'')
     else (case parse_int th of
        None \<Rightarrow> Inr (UNAUTHENTICATED, ''timestamp_malformed'')
      | Some ts \<Rightarrow>
     let provided = drop (length SIGNATURE_PREFIX) sg in
     if provided = [] then Inr (UNAUTHENTICATED, ''signature_missing'')
     else if length provided \<noteq> SIG_HEX_LEN \<or> \<not> list_all (\<lambda>c. c \<in> set HEXDIGITS) provided
       then Inr (UNAUTHENTICATED, ''signature_malformed'')
     else if \<bar>ts\<bar> \<ge> 2 ^ 1024 - 2 ^ 970 then Inl OverflowError
     else if \<bar>now - ts * us_per_second\<bar> > tolerance * us_per_second then Inr (REJECTED, ''timestamp_out_of_window'')
     else if mac secret (dec_int ts @ ''.'' @ raw_body) \<noteq> provided then Inr (REJECTED, ''signature_invalid'')
     else Inr (HMAC_OK, ''ok''))))"

section \<open>Structural validation\<close>

text \<open>The value of a JSON Schema integer: an integer, or a float without fraction.\<close>

fun schema_integer :: "json \<Rightarrow> int option" where
  "schema_integer (JInt i) = Some i"
| "schema_integer (JFloat (PFin m e)) =
     (if 0 \<le> e then Some (m * 10 ^ nat e)
      else if m mod (10 ^ nat (- e)) = 0 then Some (m div (10 ^ nat (- e))) else None)"
| "schema_integer _ = None"

definition int_between :: "int \<Rightarrow> int \<Rightarrow> json \<Rightarrow> bool" where
  "int_between lo hi v = (case schema_integer v of None \<Rightarrow> False | Some i \<Rightarrow> lo \<le> i \<and> i \<le> hi)"

fun str_with :: "(string \<Rightarrow> bool) \<Rightarrow> nat \<Rightarrow> json \<Rightarrow> bool" where
  "str_with p n (JStr s) = (p s \<and> length s \<le> n)"
| "str_with p n _ = False"

text \<open>A pattern that ends in \<open>$\<close> also matches before a final newline.\<close>

definition dollar_end :: "(string \<Rightarrow> bool) \<Rightarrow> string \<Rightarrow> bool" where
  "dollar_end p s \<longleftrightarrow> p s \<or> (s \<noteq> [] \<and> last s = CHR 0x0A \<and> p (butlast s))"

definition slug_char :: "char \<Rightarrow> bool" where
  "slug_char c \<longleftrightarrow> is_digit c \<or> (CHR ''a'' \<le> c \<and> c \<le> CHR ''z'')"

fun slug_tail :: "bool \<Rightarrow> string \<Rightarrow> bool" where
  "slug_tail started [] = started"
| "slug_tail started (c # cs) =
     (if slug_char c then slug_tail True cs else if c = CHR ''_'' \<and> started then slug_tail False cs else False)"

definition event_type_pattern :: "string \<Rightarrow> bool" where
  "event_type_pattern = dollar_end (slug_tail False)"

definition key_char :: "char \<Rightarrow> bool" where
  "key_char c \<longleftrightarrow> is_digit c \<or> (CHR ''a'' \<le> c \<and> c \<le> CHR ''z'') \<or> (CHR ''A'' \<le> c \<and> c \<le> CHR ''Z'')
     \<or> c \<in> set ''._:-''"

definition key_pattern :: "string \<Rightarrow> bool" where
  "key_pattern = dollar_end (\<lambda>s. s \<noteq> [] \<and> length s \<le> 128 \<and> list_all key_char s)"

definition SOURCE_PRODUCTS :: "string list" where
  "SOURCE_PRODUCTS = [''sentinel'', ''orchestrator'', ''delta'', ''rendly'']"

definition ENVELOPE_REQUIRED :: "string list" where
  "ENVELOPE_REQUIRED = [''schema_version'', ''envelope_id'', ''event_type'', ''source_product'', ''occurred_at'',
     ''idempotency_key'', ''sequence'', ''correlation_id'', ''payload'']"

definition is_object :: "json \<Rightarrow> bool" where
  "is_object v = (case v of JObj _ \<Rightarrow> True | _ \<Rightarrow> False)"

text \<open>No errors against the shallow copy of \<open>event-envelope.schema.json\<close> (the payload is any object).\<close>

definition envelope_property :: "orch_ext \<Rightarrow> string \<Rightarrow> json \<Rightarrow> bool" where
  "envelope_property x k v =
     (if k = ''schema_version'' then int_between 1 1000 v
      else if k = ''envelope_id'' then str_with (xo_uuid_format x) 64 v
      else if k = ''event_type'' then str_with event_type_pattern 64 v
      else if k = ''source_product'' then v \<in> JStr ` set SOURCE_PRODUCTS
      else if k = ''occurred_at'' then str_with (xo_datetime_format x) 64 v
      else if k = ''idempotency_key'' \<or> k = ''correlation_id'' \<or> k = ''causation_id'' then str_with key_pattern 128 v
      else if k = ''sequence'' then int_between 0 9007199254740991 v
      else if k = ''payload'' then is_object v
      else False)"

definition envelope_valid :: "orch_ext \<Rightarrow> (string \<times> json) list \<Rightarrow> bool" where
  "envelope_valid x env \<longleftrightarrow> list_all (\<lambda>k. jhas k env) ENVELOPE_REQUIRED \<and> list_all (\<lambda>(k, v). envelope_property x k v) env"

fun contains_nul :: "json \<Rightarrow> bool" where
  "contains_nul (JStr s) = (\<not> no_nul s)"
| "contains_nul (JObj kvs) = list_ex (\<lambda>(k, v). \<not> no_nul k \<or> contains_nul v) kvs"
| "contains_nul (JArr vs) = list_ex contains_nul vs"
| "contains_nul _ = False"

section \<open>Rows from an envelope\<close>

definition UNKNOWN_SCHEMA_VERSION :: string where "UNKNOWN_SCHEMA_VERSION = ''unknown_schema_version''"
definition PAYLOAD_SCHEMA_INVALID :: string where "PAYLOAD_SCHEMA_INVALID = ''payload_schema_invalid''"
definition SOURCE_IDENTITY_MISMATCH :: string where "SOURCE_IDENTITY_MISMATCH = ''source_identity_mismatch''"
definition IDEMPOTENCY_CONFLICT :: string where "IDEMPOTENCY_CONFLICT = ''idempotency_conflict''"
definition ACCEPTED :: string where "ACCEPTED = ''accepted''"
definition DEDUPED :: string where "DEDUPED = ''deduped''"
definition DEAD_LETTERED :: string where "DEAD_LETTERED = ''dead_lettered''"

lemmas reason_defs = UNKNOWN_SCHEMA_VERSION_def PAYLOAD_SCHEMA_INVALID_def SOURCE_IDENTITY_MISMATCH_def
  IDEMPOTENCY_CONFLICT_def ACCEPTED_def DEDUPED_def DEAD_LETTERED_def

definition COMMON_FIELDS :: "string list" where
  "COMMON_FIELDS = [''event_id'', ''event_type'', ''event_timestamp'', ''request_id'', ''tenant_id'', ''team_id'',
     ''project_id'', ''agent_id'']"

definition COMMON_FIELD_MAXLEN :: nat where "COMMON_FIELD_MAXLEN = 64"

definition projected :: "json \<Rightarrow> cell" where
  "projected v = (case v of JStr s \<Rightarrow> if length s \<le> COMMON_FIELD_MAXLEN \<and> no_nul s then CStr s else CNull | _ \<Rightarrow> CNull)"

definition extract_common :: "json \<Rightarrow> pydict" where
  "extract_common payload =
     (case payload of
        JObj kvs \<Rightarrow> map (\<lambda>f. (f, projected (jget f kvs))) COMMON_FIELDS
      | _ \<Rightarrow> map (\<lambda>f. (f, CNull)) COMMON_FIELDS)"

text \<open>Column values of the validated string fields of an envelope.\<close>

definition jstring :: "json \<Rightarrow> string" where
  "jstring v = (case v of JStr s \<Rightarrow> s | _ \<Rightarrow> [])"

definition dict_set :: "string \<Rightarrow> cell \<Rightarrow> pydict \<Rightarrow> pydict" where
  "dict_set k v d = (if dhas k d then map (\<lambda>(j, w). (j, if j = k then v else w)) d else d @ [(k, v)])"

definition chain_fields :: "(string \<times> json) list \<Rightarrow> json \<Rightarrow> pydict" where
  "chain_fields env payload =
     dict_set ''source_product'' (CStr (jstring (jget ''source_product'' env)))
       (dict_set ''idempotency_key'' (CStr (jstring (jget ''idempotency_key'' env)))
         (dict_set ''envelope_id'' (CStr (jstring (jget ''envelope_id'' env)))
           (dict_set ''event_type'' (CStr (jstring (jget ''event_type'' env))) (extract_common payload))))"

definition content_hash :: "(string \<Rightarrow> string) \<Rightarrow> json \<Rightarrow> string" where
  "content_hash sha payload = sha (json_dumps True payload)"

section \<open>Reads and writes\<close>

definition ev_tenant :: "ingest_event \<Rightarrow> cell" where
  "ev_tenant r = dget ''tenant_id'' (ev_common r)"

definition tenant_event_content_hash :: "ident \<Rightarrow> string \<Rightarrow> orch_db \<Rightarrow> string option" where
  "tenant_event_content_hash sess key d =
     map_option ev_content_hash (List.find (\<lambda>r. ev_tenant r = CStr sess \<and> ev_key r = key) (ingest_events d))"

definition privileged_event_content_hash :: "string \<Rightarrow> orch_db \<Rightarrow> string option" where
  "privileged_event_content_hash key d = map_option ev_content_hash (List.find (\<lambda>r. ev_key r = key) (ingest_events d))"

definition insert_ingest_event :: "ident \<Rightarrow> ingest_event \<Rightarrow> orch_db \<Rightarrow> py_exc + orch_db" where
  "insert_ingest_event sess r d =
     bindR (guardR (varchar_ok 64 (ev_envelope r) \<and> varchar_ok 128 (ev_key r) \<and> varchar_ok 32 (ev_source r)
       \<and> varchar_ok 64 (ev_occurred_at r) \<and> varchar_ok 128 (ev_correlation r)
       \<and> (\<forall>c \<in> set_option (ev_causation r). varchar_ok 128 c) \<and> list_all (\<lambda>(k, v). cell_fits (Some 64) v) (ev_common r)
       \<and> jsonb_ok (ev_payload r) \<and> varchar_ok 64 (ev_content_hash r)) DataError) (\<lambda>_.
     bindR (guardR (ev_tenant r = CStr sess) ProgrammingError) (\<lambda>_.
     bindR (guardR (list_all (\<lambda>(k, v). v \<noteq> CNull) (ev_common r)) IntegrityError) (\<lambda>_.
     bindR (insert_unique IntegrityError ev_envelope r (ingest_events d)) (\<lambda>_.
     bindR (insert_unique IntegrityError ev_key (r\<lparr>ev_seq := next_serial ev_seq (ingest_events d)\<rparr>) (ingest_events d)) (\<lambda>rows.
     Inr (d\<lparr>ingest_events := rows\<rparr>))))))"

definition insert_forward_outbox ::
  "ident \<Rightarrow> ident \<Rightarrow> ident \<Rightarrow> string \<Rightarrow> string \<Rightarrow> instant \<Rightarrow> orch_db \<Rightarrow> py_exc + orch_db" where
  "insert_forward_outbox sess outbox_id tenant_id event_id key now d =
     bindR (guardR (varchar_ok 64 outbox_id \<and> varchar_ok 64 tenant_id \<and> varchar_ok 64 event_id \<and> varchar_ok 128 key)
       DataError) (\<lambda>_.
     bindR (rls_check sess tenant_id) (\<lambda>_.
     bindR (insert_unique IntegrityError fo_id
       \<lparr>fo_id = outbox_id, fo_tenant = tenant_id, fo_event = event_id, fo_key = key, fo_status = ''pending'',
        fo_created = now, fo_attempts = 0, fo_last_attempt = None, fo_last_error = None\<rparr> (forward_outbox d)) (\<lambda>rows.
     Inr (d\<lparr>forward_outbox := rows\<rparr>))))"

definition insert_dead_letter :: "orch_dlq_row \<Rightarrow> orch_db \<Rightarrow> py_exc + orch_db" where
  "insert_dead_letter r d =
     bindR (guardR (varchar_ok 64 (dq_id r) \<and> jsonb_ok (dq_envelope r) \<and> varchar_ok 32 (dq_reason r)
       \<and> varchar_ok 64 (dq_event_type r) \<and> varchar_ok 32 (dq_source r) \<and> cell_fits (Some 64) (dq_tenant r)) DataError) (\<lambda>_.
     bindR (guardR (0 \<le> dq_attempts r \<and> dq_attempts r \<le> 1000) IntegrityError) (\<lambda>_.
     bindR (insert_unique IntegrityError dq_id r (dead_letter_queue d)) (\<lambda>rows.
     Inr (d\<lparr>dead_letter_queue := rows\<rparr>))))"

text \<open>The append to the ingest chain as a transaction on the database.\<close>

definition append_ingest_link ::
  "orch_ext \<Rightarrow> pydict \<Rightarrow> string \<Rightarrow> string option \<Rightarrow> string option \<Rightarrow> orch_db \<Rightarrow> py_exc + unit \<times> orch_db" where
  "append_ingest_link x flds disposition dlq_reason dlq_id d =
     bindR (append_audit_link (xo_sha x) flds disposition dlq_reason dlq_id (ingest_audit_log (chains d))) (\<lambda>(_, rows).
     Inr ((), d\<lparr>chains := (chains d)\<lparr>ingest_audit_log := rows\<rparr>\<rparr>))"

section \<open>The pipeline\<close>

record ingest_result =
  ir_disposition :: string
  ir_event :: string
  ir_reason :: "string option"
  ir_dlq :: "ident option"

record ingest_env =
  ig_clock :: int
  ig_lookup :: "py_exc option"
  ig_race :: "orch_db \<Rightarrow> orch_db"
  ig_persist :: txn_fault
  ig_now :: instant
  ig_recheck :: "py_exc option"
  ig_race2 :: "orch_db \<Rightarrow> orch_db"
  ig_record :: txn_fault
  ig_utcnow_z :: string

definition pipeline_dead_letter ::
  "orch_ext \<Rightarrow> ingest_env \<Rightarrow> (string \<times> json) list \<Rightarrow> json \<Rightarrow> string \<Rightarrow> orch_db \<Rightarrow> (py_exc + ingest_result) \<times> orch_db" where
  "pipeline_dead_letter x env envelope payload reason d =
     (let (dlq_id, d1) = fresh_uuid (xo_u4 x) d;
          row = \<lparr>dq_id = dlq_id, dq_envelope = JObj envelope, dq_reason = reason, dq_attempts = 1,
                 dq_first_failed_at = ig_utcnow_z env, dq_event_type = jstring (jget ''event_type'' envelope),
                 dq_source = jstring (jget ''source_product'' envelope), dq_sequence = jget ''sequence'' envelope,
                 dq_tenant = dget ''tenant_id'' (extract_common payload)\<rparr>
      in case run_txn (ig_record env)
             (\<lambda>s. bindR (insert_dead_letter row s)
                (append_ingest_link x (chain_fields envelope payload) DEAD_LETTERED (Some reason) (Some dlq_id)))
             (ig_race2 env d1) of
           (Inl e, d2) \<Rightarrow> (Inl e, d2)
         | (Inr _, d2) \<Rightarrow>
             (Inr \<lparr>ir_disposition = DEAD_LETTERED, ir_event = jstring (jget ''idempotency_key'' envelope),
                   ir_reason = Some reason, ir_dlq = Some dlq_id\<rparr>, d2))"

definition persist_or_dedup ::
  "ingest_env \<Rightarrow> ident \<Rightarrow> string \<Rightarrow> string \<Rightarrow> ingest_event \<Rightarrow> ident \<Rightarrow> string \<Rightarrow> orch_db \<Rightarrow> (py_exc + string) \<times> orch_db" where
  "persist_or_dedup env tenant_id key hash event_row outbox_id event_id d =
     (case tenant_session tenant_id of
        Inl e \<Rightarrow> (Inl e, d)
      | Inr _ \<Rightarrow>
     (case ig_lookup env of
        Some e \<Rightarrow> (Inl e, d)
      | None \<Rightarrow>
     (case tenant_event_content_hash tenant_id key d of
        Some existing \<Rightarrow> (Inr (if existing = hash then DEDUPED else IDEMPOTENCY_CONFLICT), d)
      | None \<Rightarrow>
     (case run_txn (ig_persist env)
             (\<lambda>s. bindR (insert_ingest_event tenant_id event_row s) (\<lambda>s1.
                  bindR (insert_forward_outbox tenant_id outbox_id tenant_id event_id key (ig_now env) s1) (\<lambda>s2.
                  Inr ((), s2)))) (ig_race env d) of
        (Inr _, d1) \<Rightarrow> (Inr ACCEPTED, d1)
      | (Inl e, d1) \<Rightarrow>
          if e \<noteq> IntegrityError then (Inl e, d1)
          else (case ig_recheck env of
                  Some e' \<Rightarrow> (Inl e', d1)
                | None \<Rightarrow> (Inr (if privileged_event_content_hash key d1 = Some hash then DEDUPED
                                else IDEMPOTENCY_CONFLICT), d1))))))"

text \<open>\<open>payload["tenant_id"]\<close> as the argument of \<open>get_tenant_session\<close>.\<close>

fun tenant_argument :: "json \<Rightarrow> py_exc + ident" where
  "tenant_argument (JStr t) = Inr t"
| "tenant_argument JNull = Inl RuntimeError"
| "tenant_argument _ = Inl AttributeError"

text \<open>Step 6 of the pipeline: the row, the deduplication, and the accepted link.\<close>

definition event_row :: "orch_ext \<Rightarrow> (string \<times> json) list \<Rightarrow> json \<Rightarrow> ingest_event" where
  "event_row x envelope payload =
     \<lparr>ev_seq = 0, ev_envelope = jstring (jget ''envelope_id'' envelope),
      ev_key = jstring (jget ''idempotency_key'' envelope), ev_source = jstring (jget ''source_product'' envelope),
      ev_source_sequence = jget ''sequence'' envelope, ev_schema_version = jget ''schema_version'' envelope,
      ev_occurred_at = jstring (jget ''occurred_at'' envelope),
      ev_correlation = jstring (jget ''correlation_id'' envelope),
      ev_causation = (case jget ''causation_id'' envelope of JStr s \<Rightarrow> Some s | _ \<Rightarrow> None),
      ev_common = extract_common payload, ev_payload = payload, ev_content_hash = content_hash (xo_sha x) payload\<rparr>"

definition record_envelope ::
  "orch_ext \<Rightarrow> ingest_env \<Rightarrow> (string \<times> json) list \<Rightarrow> json \<Rightarrow> ident \<Rightarrow> string \<Rightarrow> orch_db \<Rightarrow> (py_exc + ingest_result) \<times> orch_db" where
  "record_envelope x env envelope payload tenant_id event_id d =
     (let echo = jstring (jget ''idempotency_key'' envelope);
          (outbox_id, d1) = fresh_uuid (xo_u4 x) d in
      case persist_or_dedup env tenant_id echo (content_hash (xo_sha x) payload) (event_row x envelope payload)
             outbox_id event_id d1 of
        (Inl e, d2) \<Rightarrow> (Inl e, d2)
      | (Inr disposition, d2) \<Rightarrow>
          if disposition = DEDUPED
          then (Inr \<lparr>ir_disposition = DEDUPED, ir_event = echo, ir_reason = None, ir_dlq = None\<rparr>, d2)
          else if disposition = IDEMPOTENCY_CONFLICT
          then pipeline_dead_letter x env envelope payload IDEMPOTENCY_CONFLICT d2
          else (case run_txn (ig_record env) (append_ingest_link x (chain_fields envelope payload) ACCEPTED None None)
                       (ig_race2 env d2) of
                  (Inl e, d3) \<Rightarrow> (Inl e, d3)
                | (Inr _, d3) \<Rightarrow>
                    (Inr \<lparr>ir_disposition = ACCEPTED, ir_event = echo, ir_reason = None, ir_dlq = None\<rparr>, d3)))"

definition process_envelope ::
  "orch_ext \<Rightarrow> orch_ingest_settings \<Rightarrow> ingest_env \<Rightarrow> (string \<times> json) list \<Rightarrow> orch_db \<Rightarrow> (py_exc + ingest_result) \<times> orch_db" where
  "process_envelope x st env envelope d =
     (let payload = jget ''payload'' envelope;
          p = (case payload of JObj kvs \<Rightarrow> kvs | _ \<Rightarrow> []) in
      if schema_integer (jget ''schema_version'' envelope) \<notin> Some ` set (oi_versions st)
      then pipeline_dead_letter x env envelope payload UNKNOWN_SCHEMA_VERSION d
      else if \<not> xo_event_valid x payload then pipeline_dead_letter x env envelope payload PAYLOAD_SCHEMA_INVALID d
      else if jget ''source_product'' envelope \<noteq> JStr (oi_peer st)
      then pipeline_dead_letter x env envelope payload SOURCE_IDENTITY_MISMATCH d
      else if jget ''event_type'' envelope \<noteq> jget ''event_type'' p
      then pipeline_dead_letter x env envelope payload PAYLOAD_SCHEMA_INVALID d
      else if jget ''idempotency_key'' envelope \<noteq> jget ''event_id'' p
      then pipeline_dead_letter x env envelope payload PAYLOAD_SCHEMA_INVALID d
      else if \<not> jhas ''tenant_id'' p then (Inl KeyError, d)
      else (case tenant_argument (jget ''tenant_id'' p) of
        Inl e \<Rightarrow> (Inl e, d)
      | Inr tenant_id \<Rightarrow> record_envelope x env envelope payload tenant_id (jstring (jget ''event_id'' p)) d))"

section \<open>The handler\<close>

record orch_request =
  oq_body :: string
  oq_signature :: "string option"
  oq_timestamp :: "string option"

text \<open>A response: an error with its status and code, or the 202 with the echoed event id.\<close>

datatype ingest_reply = Ingest_error int string | Ingest_accepted string

text \<open>What the handler leaves behind: the reply, the event scheduled for the automation rules, the database.\<close>

record ingest_outcome =
  io_reply :: ingest_reply
  io_scheduled :: "(ident \<times> (string \<times> json) list) option"
  io_db :: orch_db

definition ingest_reject :: "int \<Rightarrow> string \<Rightarrow> orch_db \<Rightarrow> ingest_outcome" where
  "ingest_reject status code d = \<lparr>io_reply = Ingest_error status code, io_scheduled = None, io_db = d\<rparr>"

definition orch_ingest_event ::
  "orch_ext \<Rightarrow> orch_ingest_settings \<Rightarrow> ingest_env \<Rightarrow> orch_request \<Rightarrow> orch_db \<Rightarrow> (py_exc \<times> orch_db) + ingest_outcome" where
  "orch_ingest_event x st env rq d =
     (case verify_ingest_signature (xo_mac x) (oi_secret st) (oq_body rq) (oq_signature rq) (oq_timestamp rq)
             (oi_tolerance st) (ig_clock env) of
        Inl e \<Rightarrow> Inl (e, d)
      | Inr (outcome, _) \<Rightarrow>
     if outcome = UNAUTHENTICATED then Inr (ingest_reject 401 ''unauthorized'' d)
     else if outcome = REJECTED then Inr (ingest_reject 403 ''signature_invalid'' d)
     else (case xo_loads x (oq_body rq) of
        None \<Rightarrow> Inr (ingest_reject 422 ''schema_invalid'' d)
      | Some (JObj envelope) \<Rightarrow>
          if \<not> envelope_valid x envelope then Inr (ingest_reject 422 ''schema_invalid'' d)
          else if contains_nul (JObj envelope) then Inr (ingest_reject 422 ''schema_invalid'' d)
          else (case process_envelope x st env envelope d of
                  (Inl e, d1) \<Rightarrow> Inl (e, d1)
                | (Inr res, d1) \<Rightarrow>
                    Inr \<lparr>io_reply = Ingest_accepted (ir_event res),
                         io_scheduled = (if ir_disposition res = ACCEPTED
                           then Some (ir_event res, case jget ''payload'' envelope of JObj kvs \<Rightarrow> kvs | _ \<Rightarrow> []) else None),
                         io_db = d1\<rparr>)
      | Some _ \<Rightarrow> Inr (ingest_reject 422 ''schema_invalid'' d)))"

text \<open>The application's catch-all answers an unhandled exception with 503.\<close>

definition serve_ingest :: "orch_ext \<Rightarrow> orch_ingest_settings \<Rightarrow> ingest_env \<Rightarrow> orch_request \<Rightarrow> orch_db \<Rightarrow> ingest_outcome" where
  "serve_ingest x st env rq d =
     (case orch_ingest_event x st env rq d of Inl (e, d1) \<Rightarrow> ingest_reject 503 ''ingest_unavailable'' d1 | Inr out \<Rightarrow> out)"

end
