(* ===== verification/Orch_Ingest_Facts.thy ===== *)
theory Orch_Ingest_Facts
  imports Orch_Ingest
begin

text \<open>
  What serving an event does to the Orchestrator's database: the tables only grow, the keys stay
  unique, every stored event has its forward-outbox row, the audit chains stay valid, and a 202
  is only answered for a recorded event.
\<close>

section \<open>What the writes do\<close>

lemma insert_ingest_event_Inr:
  assumes "insert_ingest_event sess r d = Inr d'"
  shows "d' = d\<lparr>ingest_events := ingest_events d @ [r\<lparr>ev_seq := next_serial ev_seq (ingest_events d)\<rparr>]\<rparr>"
    "ev_key r \<notin> ev_key ` set (ingest_events d)" "ev_envelope r \<notin> ev_envelope ` set (ingest_events d)"
    "ev_tenant r = CStr sess"
  using assms by (auto simp: insert_ingest_event_def bindR_eq_Inr table_simps)

lemma insert_forward_outbox_Inr:
  assumes "insert_forward_outbox sess i t e k now d = Inr d'"
  shows "\<exists>r. d' = d\<lparr>forward_outbox := forward_outbox d @ [r]\<rparr> \<and> fo_key r = k \<and> fo_tenant r = t \<and> fo_status r = ''pending''
    \<and> fo_attempts r = 0 \<and> fo_id r \<notin> fo_id ` set (forward_outbox d)"
  using assms by (auto simp: insert_forward_outbox_def bindR_eq_Inr table_simps)

lemma insert_dead_letter_Inr:
  "insert_dead_letter r d = Inr d' \<Longrightarrow> d' = d\<lparr>dead_letter_queue := dead_letter_queue d @ [r]\<rparr>"
  by (auto simp: insert_dead_letter_def bindR_eq_Inr table_simps)

text \<open>A link of the ingest chain that records what became of the event \<open>key\<close>.\<close>

definition records_event :: "string \<Rightarrow> string \<Rightarrow> string option \<Rightarrow> chain_link \<Rightarrow> bool" where
  "records_event key disposition dlq_id l \<longleftrightarrow> dget ''idempotency_key'' (cl_data l) = CStr key
     \<and> dget ''disposition'' (cl_data l) = CStr disposition \<and> dget ''dlq_id'' (cl_data l) = opt_cell dlq_id"

lemma dget_dict_set [simp]: "dget k (dict_set j v d) = (if k = j then v else dget k d)"
proof -
  have "map_of (map (\<lambda>(i, w). (i, if i = j then v else w)) d) k = (if k = j then map_option (\<lambda>_. v) (map_of d j) else map_of d k)"
    by (induction d) auto
  moreover have "map_of d j = None \<longleftrightarrow> \<not> dhas j d" by (simp add: dhas_def map_of_eq_None_iff)
  ultimately show ?thesis
    by (auto simp: dict_set_def dget_def map_add_def dhas_def split: option.splits)
qed

lemma chain_fields_key: "dget ''idempotency_key'' (chain_fields env p) = CStr (jstring (jget ''idempotency_key'' env))"
  by (simp add: chain_fields_def)

lemma append_audit_link_Inr:
  assumes "append_audit_link sha flds disposition reason dlq rows = Inr (h, rows')"
  obtains l where "rows' = rows @ [l]" "dget ''disposition'' (cl_data l) = CStr disposition"
    "dget ''dlq_id'' (cl_data l) = opt_cell dlq" "\<And>k. k \<in> set INGEST_LINK_FIELDS \<Longrightarrow> dget k (cl_data l) = dget k flds"
proof -
  let ?row = "map (\<lambda>k. (k, dget k flds)) INGEST_LINK_FIELDS @ [(''disposition'', CStr disposition), (''dlq_reason'', opt_cell reason),
    (''dlq_id'', opt_cell dlq), (''prev_hash'', CStr (chain_tip_hash sha rows))]"
  have "insert_link ingest_columns ?row h rows = Inr rows'"
    using assms by (auto simp: append_audit_link_def Let_def bindR_eq_Inr split: if_splits)
  then obtain l where l: "rows' = rows @ [l]" "cl_data l = ?row" by (auto simp: insert_link_def split: if_splits)
  show thesis by (rule that [OF l(1)]) (simp_all add: l(2) dget_def INGEST_LINK_FIELDS_def, auto)
qed

lemma append_ingest_link_Inr:
  assumes "append_ingest_link x (chain_fields env p) disposition reason dlq d = Inr (u, d')"
  obtains l where "d' = d\<lparr>chains := (chains d)\<lparr>ingest_audit_log := ingest_audit_log (chains d) @ [l]\<rparr>\<rparr>"
    "records_event (jstring (jget ''idempotency_key'' env)) disposition dlq l"
    "chains_ok (xo_sha x) (chains d) \<Longrightarrow> chains_ok (xo_sha x) (chains d')"
proof -
  from assms obtain h rows where a: "append_audit_link (xo_sha x) (chain_fields env p) disposition reason dlq
      (ingest_audit_log (chains d)) = Inr (h, rows)"
    and d': "d' = d\<lparr>chains := (chains d)\<lparr>ingest_audit_log := rows\<rparr>\<rparr>"
    by (auto simp: append_ingest_link_def bindR_eq_Inr)
  from a obtain l where l: "rows = ingest_audit_log (chains d) @ [l]" "dget ''disposition'' (cl_data l) = CStr disposition"
    "dget ''dlq_id'' (cl_data l) = opt_cell dlq" "\<And>k. k \<in> set INGEST_LINK_FIELDS \<Longrightarrow> dget k (cl_data l) = dget k (chain_fields env p)"
    by (rule append_audit_link_Inr) blast
  have "records_event (jstring (jget ''idempotency_key'' env)) disposition dlq l"
    using l(2,3) l(4) [of "''idempotency_key''"] by (simp add: records_event_def chain_fields_key INGEST_LINK_FIELDS_def)
  moreover have "chains_ok (xo_sha x) (chains d')" if "chains_ok (xo_sha x) (chains d)"
    using chains_ok_append(1) [OF that a] by (simp add: d')
  ultimately show thesis using d' l(1) by (intro that) simp_all
qed

lemma dispositions_distinct [simp]:
  "ACCEPTED \<noteq> DEDUPED" "ACCEPTED \<noteq> IDEMPOTENCY_CONFLICT" "DEDUPED \<noteq> IDEMPOTENCY_CONFLICT" "ACCEPTED \<noteq> DEAD_LETTERED"
  "DEDUPED \<noteq> ACCEPTED" "IDEMPOTENCY_CONFLICT \<noteq> ACCEPTED" "IDEMPOTENCY_CONFLICT \<noteq> DEDUPED" "DEAD_LETTERED \<noteq> ACCEPTED"
  "DEDUPED \<noteq> DEAD_LETTERED" "DEAD_LETTERED \<noteq> DEDUPED"
  by (simp_all add: reason_defs)

section \<open>Growth and the invariant\<close>

definition ingest_grows :: "orch_db \<Rightarrow> orch_db \<Rightarrow> bool" where
  "ingest_grows d d' \<longleftrightarrow> prefix (ingest_events d) (ingest_events d') \<and> prefix (dead_letter_queue d) (dead_letter_queue d')
     \<and> prefix (ingest_audit_log (chains d)) (ingest_audit_log (chains d'))"

lemma ingest_grows_refl [simp]: "ingest_grows d d"
  by (simp add: ingest_grows_def)

lemma ingest_grows_trans [trans]: "ingest_grows a b \<Longrightarrow> ingest_grows b c \<Longrightarrow> ingest_grows a c"
  unfolding ingest_grows_def by (meson prefix_order.trans)

text \<open>Keys and envelopes are unique, and every event has its own row in the forward outbox.\<close>

definition ingest_inv :: "(string \<Rightarrow> string) \<Rightarrow> orch_db \<Rightarrow> bool" where
  "ingest_inv sha d \<longleftrightarrow> chains_ok sha (chains d) \<and> distinct (map ev_key (ingest_events d))
     \<and> distinct (map ev_envelope (ingest_events d)) \<and> distinct (map fo_id (forward_outbox d))
     \<and> map fo_key (forward_outbox d) = map ev_key (ingest_events d)"

lemma ingest_inv_keys:
  "ingest_inv sha d \<Longrightarrow> distinct (map ev_key (ingest_events d))"
  "ingest_inv sha d \<Longrightarrow> chains_ok sha (chains d)"
  by (simp_all add: ingest_inv_def)

text \<open>What other requests may do in between: they keep the invariant and only add rows.\<close>

definition well_behaved :: "(string \<Rightarrow> string) \<Rightarrow> (orch_db \<Rightarrow> orch_db) \<Rightarrow> bool" where
  "well_behaved sha f \<longleftrightarrow> (\<forall>d. ingest_grows d (f d) \<and> (ingest_inv sha d \<longrightarrow> ingest_inv sha (f d)))"

definition calm :: "orch_ext \<Rightarrow> ingest_env \<Rightarrow> bool" where
  "calm x env \<longleftrightarrow> well_behaved (xo_sha x) (ig_race env) \<and> well_behaved (xo_sha x) (ig_race2 env)"

lemma calmD:
  assumes "calm x env"
  shows "ingest_grows d (ig_race env d)" "ingest_grows d (ig_race2 env d)"
    "ingest_inv (xo_sha x) d \<Longrightarrow> ingest_inv (xo_sha x) (ig_race env d)"
    "ingest_inv (xo_sha x) d \<Longrightarrow> ingest_inv (xo_sha x) (ig_race2 env d)"
  using assms by (simp_all add: calm_def well_behaved_def)

text \<open>A step that is known to be good: it grows the tables and keeps the invariant.\<close>

definition good_step :: "(string \<Rightarrow> string) \<Rightarrow> orch_db \<Rightarrow> orch_db \<Rightarrow> bool" where
  "good_step sha d d' \<longleftrightarrow> ingest_grows d d' \<and> (ingest_inv sha d \<longrightarrow> ingest_inv sha d')"

lemma good_step_refl [simp]: "good_step sha d d"
  by (simp add: good_step_def)

lemma good_step_uuid [simp]:
  "good_step sha (d\<lparr>uuid_next := n\<rparr>) d' = good_step sha d d'"
  by (simp add: good_step_def ingest_grows_def ingest_inv_def)

lemma good_step_trans: "good_step sha a b \<Longrightarrow> good_step sha b c \<Longrightarrow> good_step sha a c"
  unfolding good_step_def using ingest_grows_trans by blast

lemma calm_good: "calm x env \<Longrightarrow> good_step (xo_sha x) d (ig_race env d)" "calm x env \<Longrightarrow> good_step (xo_sha x) d (ig_race2 env d)"
  by (simp_all add: good_step_def calmD)

lemma good_step_persist:
  assumes "insert_ingest_event sess r d = Inr d1" "insert_forward_outbox sess i t e (ev_key r) now d1 = Inr d2"
  shows "good_step sha d d2"
proof -
  note i = insert_ingest_event_Inr [OF assms(1)]
  from insert_forward_outbox_Inr [OF assms(2)] obtain f where
    f: "d2 = d1\<lparr>forward_outbox := forward_outbox d1 @ [f]\<rparr>" "fo_key f = ev_key r" "fo_id f \<notin> fo_id ` set (forward_outbox d1)"
    by blast
  show ?thesis using i f by (auto simp: good_step_def ingest_grows_def ingest_inv_def)
qed

lemma good_step_link:
  assumes "append_ingest_link x (chain_fields env p) disposition reason dlq d = Inr (u, d')"
  shows "good_step (xo_sha x) d d'"
  using assms by (rule append_ingest_link_Inr) (auto simp: good_step_def ingest_grows_def ingest_inv_def)

lemma good_step_dead_letter:
  assumes "insert_dead_letter r d = Inr d1"
  shows "good_step sha d d1"
  using insert_dead_letter_Inr [OF assms] by (auto simp: good_step_def ingest_grows_def ingest_inv_def)

section \<open>The pipeline\<close>

lemma pipeline_dead_letter_facts:
  assumes "pipeline_dead_letter x env envelope payload reason d = (res, d')" "calm x env"
  shows "good_step (xo_sha x) d d'"
    "res = Inr r \<Longrightarrow> ir_disposition r = DEAD_LETTERED \<and> ir_event r = jstring (jget ''idempotency_key'' envelope)
       \<and> (\<exists>q \<in> set (dead_letter_queue d'). dq_envelope q = JObj envelope \<and> dq_reason q = reason
            \<and> (\<exists>l \<in> set (ingest_audit_log (chains d')). records_event (ir_event r) DEAD_LETTERED (Some (dq_id q)) l))"
    "ingest_events d' = ingest_events (ig_race2 env (d\<lparr>uuid_next := Suc (uuid_next d)\<rparr>))"
proof -
  let ?d1 = "d\<lparr>uuid_next := Suc (uuid_next d)\<rparr>" and ?i = "xo_u4 x (uuid_next d)"
  define row where "row = \<lparr>dq_id = ?i, dq_envelope = JObj envelope, dq_reason = reason, dq_attempts = 1,
    dq_first_failed_at = ig_utcnow_z env, dq_event_type = jstring (jget ''event_type'' envelope),
    dq_source = jstring (jget ''source_product'' envelope), dq_sequence = jget ''sequence'' envelope,
    dq_tenant = dget ''tenant_id'' (extract_common payload)\<rparr>"
  let ?m = "\<lambda>s. bindR (insert_dead_letter row s)
     (append_ingest_link x (chain_fields envelope payload) DEAD_LETTERED (Some reason) (Some ?i))"
  obtain y d2 where y: "run_txn (ig_record env) ?m (ig_race2 env ?d1) = (y, d2)" by fastforce
  have r: "res = (case y of Inl e \<Rightarrow> Inl e | Inr _ \<Rightarrow> Inr \<lparr>ir_disposition = DEAD_LETTERED,
      ir_event = jstring (jget ''idempotency_key'' envelope), ir_reason = Some reason, ir_dlq = Some ?i\<rparr>)" "d' = d2"
    using assms(1) y by (auto simp: pipeline_dead_letter_def row_def Let_def split: sum.splits)
  have base: "good_step (xo_sha x) d (ig_race2 env ?d1)" using calm_good(2) [OF assms(2), of ?d1] by simp
  have m: "good_step (xo_sha x) s t \<and> ingest_events t = ingest_events s \<and> row \<in> set (dead_letter_queue t)
      \<and> (\<exists>l \<in> set (ingest_audit_log (chains t)). records_event (jstring (jget ''idempotency_key'' envelope)) DEAD_LETTERED (Some ?i) l)"
    if "?m s = Inr (u, t)" for s t u
  proof -
    from that obtain s1 where s1: "insert_dead_letter row s = Inr s1"
      and l: "append_ingest_link x (chain_fields envelope payload) DEAD_LETTERED (Some reason) (Some ?i) s1 = Inr (u, t)"
      by (auto simp: bindR_eq_Inr)
    from l obtain k where k: "t = s1\<lparr>chains := (chains s1)\<lparr>ingest_audit_log := ingest_audit_log (chains s1) @ [k]\<rparr>\<rparr>"
      "records_event (jstring (jget ''idempotency_key'' envelope)) DEAD_LETTERED (Some ?i) k" by (rule append_ingest_link_Inr)
    show ?thesis using insert_dead_letter_Inr [OF s1] k good_step_trans [OF good_step_dead_letter [OF s1] good_step_link [OF l]]
      by auto
  qed
  show "good_step (xo_sha x) d d'"
    unfolding r(2) using y by (rule run_txn_preserves) (use m base good_step_trans in blast)+
  show "ingest_events d' = ingest_events (ig_race2 env ?d1)"
    unfolding r(2) using y by (rule run_txn_preserves) (use m in auto)
  show "ir_disposition r = DEAD_LETTERED \<and> ir_event r = jstring (jget ''idempotency_key'' envelope)
       \<and> (\<exists>q \<in> set (dead_letter_queue d'). dq_envelope q = JObj envelope \<and> dq_reason q = reason
            \<and> (\<exists>l \<in> set (ingest_audit_log (chains d')). records_event (ir_event r) DEAD_LETTERED (Some (dq_id q)) l))"
    if "res = Inr r"
    using y
  proof (cases rule: run_txn_cases)
    case (committed a)
    have "row \<in> set (dead_letter_queue d')" "dq_envelope row = JObj envelope" "dq_reason row = reason" "dq_id row = ?i"
      using m [OF committed(1)] r(2) by (auto simp: row_def)
    moreover from m [OF committed(1)] obtain l where "l \<in> set (ingest_audit_log (chains d'))"
      "records_event (jstring (jget ''idempotency_key'' envelope)) DEAD_LETTERED (Some ?i) l" using r(2) by blast
    ultimately show ?thesis using that r(1) committed(2) by (auto intro!: bexI [of _ row] bexI [of _ l])
  qed (use that r in auto)
qed

lemma find_event_key: "List.find P xs = Some r \<Longrightarrow> r \<in> set xs \<and> P r"
  by (auto simp: find_Some_iff)

lemma prefix_in: "prefix xs ys \<Longrightarrow> r \<in> set xs \<Longrightarrow> r \<in> set ys"
  by (auto dest: set_mono_prefix)

lemma persist_or_dedup_facts:
  assumes "persist_or_dedup env t (ev_key r) h r i e d = (res, d')" "calm x env" "ev_content_hash r = h"
  shows "good_step (xo_sha x) d d'"
    "res \<in> {Inr ACCEPTED, Inr DEDUPED} \<Longrightarrow> \<exists>q \<in> set (ingest_events d'). ev_key q = ev_key r \<and> ev_content_hash q = h"
    "res = Inr c \<Longrightarrow> c \<in> {ACCEPTED, DEDUPED, IDEMPOTENCY_CONFLICT}"
proof -
  let ?m = "\<lambda>s. bindR (insert_ingest_event t r s) (\<lambda>s1. bindR (insert_forward_outbox t i t e (ev_key r) (ig_now env) s1) (\<lambda>s2. Inr ((), s2)))"
  obtain y d1 where y: "run_txn (ig_persist env) ?m (ig_race env d) = (y, d1)" by fastforce
  have m: "good_step (xo_sha x) s s' \<and> r\<lparr>ev_seq := next_serial ev_seq (ingest_events s)\<rparr> \<in> set (ingest_events s')"
    if "?m s = Inr (u, s')" for s s' u
  proof -
    from that obtain s1 where s1: "insert_ingest_event t r s = Inr s1"
      "insert_forward_outbox t i t e (ev_key r) (ig_now env) s1 = Inr s'" by (auto simp: bindR_eq_Inr)
    show ?thesis using good_step_persist [OF s1] insert_ingest_event_Inr(1) [OF s1(1)] insert_forward_outbox_Inr [OF s1(2)] by auto
  qed
  have g: "good_step (xo_sha x) d d1"
    using y by (rule run_txn_preserves) (use m calm_good(1) [OF assms(2), of d] good_step_trans in blast)+
  have eq: "(res, d') = (case tenant_session t of Inl e \<Rightarrow> (Inl e, d) | Inr _ \<Rightarrow>
      (case ig_lookup env of Some e \<Rightarrow> (Inl e, d) | None \<Rightarrow>
      (case tenant_event_content_hash t (ev_key r) d of
         Some existing \<Rightarrow> (Inr (if existing = h then DEDUPED else IDEMPOTENCY_CONFLICT), d)
       | None \<Rightarrow> (case y of Inr _ \<Rightarrow> (Inr ACCEPTED, d1) | Inl e \<Rightarrow> if e \<noteq> IntegrityError then (Inl e, d1) else
           (case ig_recheck env of Some e' \<Rightarrow> (Inl e', d1)
            | None \<Rightarrow> (Inr (if privileged_event_content_hash (ev_key r) d1 = Some h then DEDUPED else IDEMPOTENCY_CONFLICT), d1))))))"
    using assms(1) unfolding persist_or_dedup_def y prod.case by (rule sym)
  then have "d' = d \<or> d' = d1" by (simp split: sum.splits option.splits if_splits)
  then show "good_step (xo_sha x) d d'" using g by auto
  show "c \<in> {ACCEPTED, DEDUPED, IDEMPOTENCY_CONFLICT}" if "res = Inr c"
    using eq that by (simp split: sum.splits option.splits if_splits)
  show "\<exists>q \<in> set (ingest_events d'). ev_key q = ev_key r \<and> ev_content_hash q = h" if "res \<in> {Inr ACCEPTED, Inr DEDUPED}"
  proof -
    have "tenant_event_content_hash t (ev_key r) d = Some h \<and> d' = d \<or> (\<exists>u. y = Inr u) \<and> d' = d1
      \<or> privileged_event_content_hash (ev_key r) d1 = Some h \<and> d' = d1"
      using eq that by (elim insertE emptyE) (simp_all split: sum.splits option.splits if_splits)
    then consider (old) "tenant_event_content_hash t (ev_key r) d = Some h" "d' = d"
      | (new) u where "y = Inr u" "d' = d1"
      | (race) "privileged_event_content_hash (ev_key r) d1 = Some h" "d' = d1"
      by blast
    then show ?thesis
    proof cases
      case old
      then show ?thesis by (auto simp: tenant_event_content_hash_def dest!: find_event_key)
    next
      case new
      from y show ?thesis
      proof (cases rule: run_txn_cases)
        case (committed a)
        then show ?thesis using m [OF committed(1)] assms(3) new
          by (intro bexI [of _ "r\<lparr>ev_seq := next_serial ev_seq (ingest_events (ig_race env d))\<rparr>"]) simp_all
      qed (use new in auto)
    next
      case race
      then show ?thesis by (auto simp: privileged_event_content_hash_def dest!: find_event_key)
    qed
  qed
qed

text \<open>The outcome of the pipeline for one envelope: where the event is recorded.\<close>

definition event_stored :: "orch_ext \<Rightarrow> (string \<times> json) list \<Rightarrow> orch_db \<Rightarrow> bool" where
  "event_stored x envelope d \<longleftrightarrow> (\<exists>r \<in> set (ingest_events d). ev_key r = jstring (jget ''idempotency_key'' envelope)
     \<and> ev_content_hash r = content_hash (xo_sha x) (jget ''payload'' envelope))"

definition event_dead_lettered :: "(string \<times> json) list \<Rightarrow> orch_db \<Rightarrow> bool" where
  "event_dead_lettered envelope d \<longleftrightarrow> (\<exists>q \<in> set (dead_letter_queue d). dq_envelope q = JObj envelope
     \<and> (\<exists>l \<in> set (ingest_audit_log (chains d)).
          records_event (jstring (jget ''idempotency_key'' envelope)) DEAD_LETTERED (Some (dq_id q)) l))"

definition event_audited :: "(string \<times> json) list \<Rightarrow> orch_db \<Rightarrow> bool" where
  "event_audited envelope d \<longleftrightarrow> (\<exists>l \<in> set (ingest_audit_log (chains d)).
     records_event (jstring (jget ''idempotency_key'' envelope)) ACCEPTED None l)"

lemma event_stored_grows: "event_stored x envelope d \<Longrightarrow> good_step sha d d' \<Longrightarrow> event_stored x envelope d'"
  unfolding event_stored_def good_step_def ingest_grows_def by (meson prefix_in)

lemma event_row_simps [simp]:
  "ev_key (event_row x envelope p) = jstring (jget ''idempotency_key'' envelope)"
  "ev_content_hash (event_row x envelope p) = content_hash (xo_sha x) p"
  by (simp_all add: event_row_def)

lemma record_envelope_facts:
  assumes "record_envelope x env envelope (jget ''payload'' envelope) t e d = (res, d')" "calm x env"
  shows "good_step (xo_sha x) d d'"
    "res = Inr r \<Longrightarrow> ir_event r = jstring (jget ''idempotency_key'' envelope)
       \<and> (if ir_disposition r = DEAD_LETTERED then event_dead_lettered envelope d' else event_stored x envelope d')
       \<and> (ir_disposition r = ACCEPTED \<longrightarrow> event_audited envelope d')"
proof -
  let ?key = "jstring (jget ''idempotency_key'' envelope)" and ?p = "jget ''payload'' envelope"
  let ?d1 = "d\<lparr>uuid_next := Suc (uuid_next d)\<rparr>"
  let ?link = "append_ingest_link x (chain_fields envelope ?p) ACCEPTED None None"
  obtain y d2 where y: "persist_or_dedup env t ?key (content_hash (xo_sha x) ?p) (event_row x envelope ?p)
      (xo_u4 x (uuid_next d)) e ?d1 = (y, d2)" by fastforce
  note p = persist_or_dedup_facts [where r = "event_row x envelope ?p", unfolded event_row_simps, OF y assms(2) refl]
  have g: "good_step (xo_sha x) d d2" using p(1) by simp
  obtain z d3 where z: "run_txn (ig_record env) ?link (ig_race2 env d2) = (z, d3)" by fastforce
  have g2: "good_step (xo_sha x) d2 (ig_race2 env d2)" by (rule calm_good(2) [OF assms(2)])
  have g3: "good_step (xo_sha x) d2 d3"
    using z by (rule run_txn_preserves) (use g2 good_step_trans good_step_link in blast)+
  consider (err) e where "y = Inl e" "res = Inl e" "d' = d2"
    | (dup) "y = Inr DEDUPED" "res = Inr \<lparr>ir_disposition = DEDUPED, ir_event = ?key, ir_reason = None, ir_dlq = None\<rparr>" "d' = d2"
    | (conflict) "pipeline_dead_letter x env envelope ?p IDEMPOTENCY_CONFLICT d2 = (res, d')"
    | (new) "y = Inr ACCEPTED" "res = (case z of Inl e \<Rightarrow> Inl e | Inr _ \<Rightarrow> Inr \<lparr>ir_disposition = ACCEPTED, ir_event = ?key,
        ir_reason = None, ir_dlq = None\<rparr>)" "d' = d3"
  proof (cases y)
    case (Inl a)
    then show thesis using assms(1) y by (intro err [of a]) (auto simp: record_envelope_def Let_def)
  next
    case (Inr c)
    with p(3) have "c \<in> {ACCEPTED, DEDUPED, IDEMPOTENCY_CONFLICT}" by simp
    then consider "c = ACCEPTED" | "c = DEDUPED" | "c = IDEMPOTENCY_CONFLICT" by blast
    then show thesis
    proof cases
      case 1
      then show thesis using assms(1) y z Inr by (intro new) (auto simp: record_envelope_def Let_def split: sum.splits)
    next
      case 2
      then show thesis using assms(1) y Inr by (intro dup) (auto simp: record_envelope_def Let_def)
    next
      case 3
      then show thesis using assms(1) y Inr by (intro conflict) (simp add: record_envelope_def Let_def)
    qed
  qed
  then have "good_step (xo_sha x) d d' \<and> (\<forall>r. res = Inr r \<longrightarrow> ir_event r = ?key
       \<and> (if ir_disposition r = DEAD_LETTERED then event_dead_lettered envelope d' else event_stored x envelope d')
       \<and> (ir_disposition r = ACCEPTED \<longrightarrow> event_audited envelope d'))"
  proof cases
    case err
    then show ?thesis using g by simp
  next
    case dup
    then show ?thesis using g p(2) by (auto simp: event_stored_def)
  next
    case conflict
    note f = pipeline_dead_letter_facts [OF conflict assms(2)]
    have "good_step (xo_sha x) d d'" using g f(1) by (rule good_step_trans)
    moreover have "ir_event r = ?key \<and> ir_disposition r = DEAD_LETTERED \<and> event_dead_lettered envelope d'" if "res = Inr r" for r
      using f(2) [OF that] unfolding event_dead_lettered_def by metis
    ultimately show ?thesis by simp
  next
    case new
    have st: "event_stored x envelope d2" using p(2) new by (auto simp: event_stored_def)
    have "good_step (xo_sha x) d d3" using g g3 by (rule good_step_trans)
    moreover have "event_stored x envelope d3" using st g3 by (rule event_stored_grows)
    moreover have "event_audited envelope d3" if "z = Inr u" for u
      using z
    proof (cases rule: run_txn_cases)
      case (committed a)
      from committed(1) show ?thesis by (rule append_ingest_link_Inr) (auto simp: event_audited_def)
    qed (use that in simp_all)
    ultimately show ?thesis using new by (auto split: sum.splits)
  qed
  then show "good_step (xo_sha x) d d'"
    "res = Inr r \<Longrightarrow> ir_event r = ?key
       \<and> (if ir_disposition r = DEAD_LETTERED then event_dead_lettered envelope d' else event_stored x envelope d')
       \<and> (ir_disposition r = ACCEPTED \<longrightarrow> event_audited envelope d')"
    by blast+
qed

lemma process_envelope_cases:
  assumes "process_envelope x st env envelope d = (res, d')"
  obtains (dead) reason where "pipeline_dead_letter x env envelope (jget ''payload'' envelope) reason d = (res, d')"
  | (raised) e where "res = Inl e" "d' = d"
  | (recorded) t e where "record_envelope x env envelope (jget ''payload'' envelope) t e d = (res, d')"
  using assms unfolding process_envelope_def Let_def by (auto split: if_splits sum.splits)

lemma process_envelope_facts:
  assumes "process_envelope x st env envelope d = (res, d')" "calm x env"
  shows "good_step (xo_sha x) d d'"
    "res = Inr r \<Longrightarrow> ir_event r = jstring (jget ''idempotency_key'' envelope)
       \<and> (if ir_disposition r = DEAD_LETTERED then event_dead_lettered envelope d' else event_stored x envelope d')
       \<and> (ir_disposition r = ACCEPTED \<longrightarrow> event_audited envelope d')"
proof -
  have "good_step (xo_sha x) d d' \<and> (\<forall>r. res = Inr r \<longrightarrow> ir_event r = jstring (jget ''idempotency_key'' envelope)
       \<and> (if ir_disposition r = DEAD_LETTERED then event_dead_lettered envelope d' else event_stored x envelope d')
       \<and> (ir_disposition r = ACCEPTED \<longrightarrow> event_audited envelope d'))"
    using assms(1)
  proof (cases rule: process_envelope_cases)
    case (dead reason)
    note f = pipeline_dead_letter_facts [OF dead assms(2)]
    have "ir_event r = jstring (jget ''idempotency_key'' envelope) \<and> ir_disposition r = DEAD_LETTERED \<and> event_dead_lettered envelope d'"
      if "res = Inr r" for r using f(2) [OF that] unfolding event_dead_lettered_def by metis
    then show ?thesis using f(1) by simp
  next
    case (recorded t e)
    then show ?thesis using record_envelope_facts [OF recorded assms(2)] by blast
  qed simp
  then show "good_step (xo_sha x) d d'"
    "res = Inr r \<Longrightarrow> ir_event r = jstring (jget ''idempotency_key'' envelope)
       \<and> (if ir_disposition r = DEAD_LETTERED then event_dead_lettered envelope d' else event_stored x envelope d')
       \<and> (ir_disposition r = ACCEPTED \<longrightarrow> event_audited envelope d')"
    by blast+
qed

section \<open>The handler\<close>

text \<open>The envelope of an authentic, well-formed request.\<close>

definition request_envelope :: "orch_ext \<Rightarrow> orch_ingest_settings \<Rightarrow> ingest_env \<Rightarrow> orch_request \<Rightarrow> (string \<times> json) list option" where
  "request_envelope x st env rq =
     (case verify_ingest_signature (xo_mac x) (oi_secret st) (oq_body rq) (oq_signature rq) (oq_timestamp rq)
             (oi_tolerance st) (ig_clock env) of
        Inr (HMAC_OK, _) \<Rightarrow>
          (case xo_loads x (oq_body rq) of
             Some (JObj envelope) \<Rightarrow> if envelope_valid x envelope \<and> \<not> contains_nul (JObj envelope) then Some envelope else None
           | _ \<Rightarrow> None)
      | _ \<Rightarrow> None)"

lemma serve_ingest_None:
  assumes "request_envelope x st env rq = None"
  shows "\<exists>n c. serve_ingest x st env rq d = ingest_reject n c d"
  using assms unfolding serve_ingest_def orch_ingest_event_def request_envelope_def
  by (auto split: sum.splits prod.splits hmac_outcome.splits option.splits json.splits if_splits)

lemma serve_ingest_Some:
  assumes "request_envelope x st env rq = Some envelope" "process_envelope x st env envelope d = (res, d')"
  shows "serve_ingest x st env rq d = (case res of
      Inl e \<Rightarrow> ingest_reject 503 ''ingest_unavailable'' d'
    | Inr r \<Rightarrow> \<lparr>io_reply = Ingest_accepted (ir_event r),
                io_scheduled = (if ir_disposition r = ACCEPTED
                  then Some (ir_event r, case jget ''payload'' envelope of JObj kvs \<Rightarrow> kvs | _ \<Rightarrow> []) else None),
                io_db = d'\<rparr>)"
proof -
  let ?v = "verify_ingest_signature (xo_mac x) (oi_secret st) (oq_body rq) (oq_signature rq) (oq_timestamp rq)
    (oi_tolerance st) (ig_clock env)"
  obtain c where v: "?v = Inr (HMAC_OK, c)"
    using assms(1) by (auto simp: request_envelope_def split: sum.splits prod.splits hmac_outcome.splits)
  moreover have "xo_loads x (oq_body rq) = Some (JObj envelope)" "envelope_valid x envelope" "\<not> contains_nul (JObj envelope)"
    using assms(1) v by (auto simp: request_envelope_def split: option.splits json.splits if_splits)
  ultimately show ?thesis using assms(2) by (simp add: serve_ingest_def orch_ingest_event_def split: sum.splits)
qed

lemma serve_ingest_good:
  assumes "calm x env"
  shows "good_step (xo_sha x) d (io_db (serve_ingest x st env rq d))"
proof (cases "request_envelope x st env rq")
  case None
  then show ?thesis using serve_ingest_None [OF None, of d] by (auto simp: ingest_reject_def)
next
  case (Some envelope)
  obtain res d' where p: "process_envelope x st env envelope d = (res, d')" by fastforce
  show ?thesis using serve_ingest_Some [OF Some p] process_envelope_facts(1) [OF p assms]
    by (simp add: ingest_reject_def split: sum.splits)
qed

lemma serve_ingest_durable:
  assumes "io_reply (serve_ingest x st env rq d) = Ingest_accepted k" "calm x env"
  obtains envelope where "request_envelope x st env rq = Some envelope" "k = jstring (jget ''idempotency_key'' envelope)"
    "event_stored x envelope (io_db (serve_ingest x st env rq d)) \<or> event_dead_lettered envelope (io_db (serve_ingest x st env rq d))"
    "io_scheduled (serve_ingest x st env rq d) \<noteq> None \<Longrightarrow>
       event_stored x envelope (io_db (serve_ingest x st env rq d)) \<and> event_audited envelope (io_db (serve_ingest x st env rq d))"
proof (cases "request_envelope x st env rq")
  case None
  then show thesis using serve_ingest_None [OF None, of d] assms(1) by (auto simp: ingest_reject_def)
next
  case (Some envelope)
  obtain res d' where p: "process_envelope x st env envelope d = (res, d')" by fastforce
  note s = serve_ingest_Some [OF Some p]
  from assms(1) s obtain r where r: "res = Inr r" by (cases res) (simp_all add: ingest_reject_def)
  note f = process_envelope_facts(2) [OF p assms(2) r]
  show thesis by (rule that [OF Some]) (use assms(1) s r f in \<open>auto split: if_splits\<close>)
qed

section \<open>A fault between the commit and the audit link\<close>

text \<open>Which way an envelope goes does not depend on the database or the environment.\<close>

lemma process_envelope_route:
  "(\<exists>reason. \<forall>env d. process_envelope x st env envelope d = pipeline_dead_letter x env envelope (jget ''payload'' envelope) reason d)
   \<or> (\<exists>e. \<forall>env d. process_envelope x st env envelope d = (Inl e, d))
   \<or> (\<exists>t e. \<forall>env d. process_envelope x st env envelope d = record_envelope x env envelope (jget ''payload'' envelope) t e d)"
proof -
  let ?p = "case jget ''payload'' envelope of JObj kvs \<Rightarrow> kvs | _ \<Rightarrow> []"
  note [simp] = process_envelope_def Let_def
  consider "schema_integer (jget ''schema_version'' envelope) \<notin> Some ` set (oi_versions st)"
    | "\<not> xo_event_valid x (jget ''payload'' envelope)" | "jget ''source_product'' envelope \<noteq> JStr (oi_peer st)"
    | "jget ''event_type'' envelope \<noteq> jget ''event_type'' ?p" | "jget ''idempotency_key'' envelope \<noteq> jget ''event_id'' ?p"
    | (pass) "schema_integer (jget ''schema_version'' envelope) \<in> Some ` set (oi_versions st)" "xo_event_valid x (jget ''payload'' envelope)"
      "jget ''source_product'' envelope = JStr (oi_peer st)" "jget ''event_type'' envelope = jget ''event_type'' ?p"
      "jget ''idempotency_key'' envelope = jget ''event_id'' ?p" by argo
  then show ?thesis
  proof cases
    case pass
    then show ?thesis
      by (cases "jhas ''tenant_id'' ?p"; cases "tenant_argument (jget ''tenant_id'' ?p)") (simp_all, blast+)
  qed (simp, blast)+
qed

lemma persist_accepted_found:
  assumes "persist_or_dedup env t (ev_key r) h r i e d = (Inr ACCEPTED, d')" "ev_content_hash r = h"
  shows "tenant_event_content_hash t (ev_key r) d' = Some h" "tenant_session t = Inr ()" "chains d' = chains (ig_race env d)"
    "ig_lookup env = None"
proof -
  let ?m = "\<lambda>s. bindR (insert_ingest_event t r s) (\<lambda>s1. bindR (insert_forward_outbox t i t e (ev_key r) (ig_now env) s1) (\<lambda>s2. Inr ((), s2)))"
  show ts: "tenant_session t = Inr ()" "ig_lookup env = None"
    using assms(1) by (auto simp: persist_or_dedup_def split: sum.splits option.splits)
  have n: "tenant_event_content_hash t (ev_key r) d = None"
    using assms(1) ts by (auto simp: persist_or_dedup_def split: option.splits if_splits)
  obtain y d1 where y: "run_txn (ig_persist env) ?m (ig_race env d) = (y, d1)" by fastforce
  have "y = Inr ()" "d' = d1"
    using assms(1) ts n y by (auto simp: persist_or_dedup_def split: sum.splits option.splits if_splits)
  with y have "?m (ig_race env d) = Inr ((), d')" by (cases rule: run_txn_cases) auto
  then obtain s1 where s1: "insert_ingest_event t r (ig_race env d) = Inr s1"
    "insert_forward_outbox t i t e (ev_key r) (ig_now env) s1 = Inr d'" by (auto simp: bindR_eq_Inr)
  note q = insert_ingest_event_Inr [OF s1(1)]
  from insert_forward_outbox_Inr [OF s1(2)] q(1) have d': "ingest_events d' = ingest_events (ig_race env d)
      @ [r\<lparr>ev_seq := next_serial ev_seq (ingest_events (ig_race env d))\<rparr>]" "chains d' = chains (ig_race env d)" by auto
  then show "chains d' = chains (ig_race env d)" by simp
  have "List.find (\<lambda>q. ev_tenant q = CStr t \<and> ev_key q = ev_key r) (ingest_events (ig_race env d)) = None"
    using q(2) unfolding find_None_iff by (metis imageI)
  then have "List.find (\<lambda>q. ev_tenant q = CStr t \<and> ev_key q = ev_key r) (ingest_events d')
      = Some (r\<lparr>ev_seq := next_serial ev_seq (ingest_events (ig_race env d))\<rparr>)"
    using q(4) unfolding d' find_append by (simp add: ev_tenant_def)
  then show "tenant_event_content_hash t (ev_key r) d' = Some h"
    using assms(2) by (simp add: tenant_event_content_hash_def)
qed

lemma record_envelope_accepted:
  assumes "record_envelope x env envelope p t e d = (Inr r, d')" "ir_disposition r = ACCEPTED" "ig_race env = id" "ig_race2 env = id"
  obtains d2 where "\<And>f. record_envelope x (env\<lparr>ig_record := Txn_abort f\<rparr>) envelope p t e d = (Inl f, d2)"
    "tenant_event_content_hash t (jstring (jget ''idempotency_key'' envelope)) d2 = Some (content_hash (xo_sha x) p)"
    "tenant_session t = Inr ()" "chains d2 = chains d"
proof -
  let ?key = "jstring (jget ''idempotency_key'' envelope)" and ?d1 = "d\<lparr>uuid_next := Suc (uuid_next d)\<rparr>"
  obtain y d2 where y: "persist_or_dedup env t ?key (content_hash (xo_sha x) p) (event_row x envelope p)
      (xo_u4 x (uuid_next d)) e ?d1 = (y, d2)" by fastforce
  have dl: "ir_disposition q = DEAD_LETTERED" if "pipeline_dead_letter x env envelope p reason s = (Inr q, s')" for reason s s' q
    using that by (auto simp: pipeline_dead_letter_def Let_def split: prod.splits sum.splits)
  have "y = Inr ACCEPTED"
  proof (cases y)
    case (Inl a)
    then show ?thesis using assms(1) y by (simp add: record_envelope_def Let_def)
  next
    case (Inr c)
    have "c \<in> {ACCEPTED, DEDUPED, IDEMPOTENCY_CONFLICT}"
      using y Inr by (auto simp: persist_or_dedup_def split: sum.splits option.splits if_splits prod.splits)
    then show ?thesis using assms(1,2) y Inr dl by (auto simp: record_envelope_def Let_def)
  qed
  note acc = persist_accepted_found [where r = "event_row x envelope p", unfolded event_row_simps, OF y [unfolded this] refl]
  have p: "persist_or_dedup (env\<lparr>ig_record := f\<rparr>) = persist_or_dedup env" for f
    by (intro ext) (auto simp: persist_or_dedup_def split: sum.split option.split prod.split)
  show thesis
    by (rule that [of d2]) (use acc y \<open>y = Inr ACCEPTED\<close> assms(3,4) in \<open>simp_all add: record_envelope_def Let_def p run_txn_def\<close>)
qed

lemma tenant_event_content_hash_uuid [simp]:
  "tenant_event_content_hash t k (d\<lparr>uuid_next := n\<rparr>) = tenant_event_content_hash t k d"
  by (simp add: tenant_event_content_hash_def)

lemma redelivery_is_silent:
  assumes "tenant_event_content_hash t (jstring (jget ''idempotency_key'' envelope)) d = Some (content_hash (xo_sha x) p)"
    "tenant_session t = Inr ()" "ig_lookup env = None"
  shows "record_envelope x env envelope p t e d =
    (Inr \<lparr>ir_disposition = DEDUPED, ir_event = jstring (jget ''idempotency_key'' envelope), ir_reason = None, ir_dlq = None\<rparr>,
     d\<lparr>uuid_next := Suc (uuid_next d)\<rparr>)"
  using assms by (simp add: record_envelope_def Let_def persist_or_dedup_def)

lemma serve_ingest_lost_link:
  assumes "io_scheduled (serve_ingest x st env rq d) \<noteq> None" "ig_race env = id" "ig_race2 env = id"
    and "request_envelope x st env2 rq = request_envelope x st env rq" "ig_lookup env2 = None"
    and out1: "out1 = serve_ingest x st (env\<lparr>ig_record := Txn_abort f\<rparr>) rq d"
    and out2: "out2 = serve_ingest x st env2 rq (io_db out1)"
  obtains envelope where "request_envelope x st env rq = Some envelope"
    "io_reply out1 = Ingest_error 503 ''ingest_unavailable''" "event_stored x envelope (io_db out1)"
    "io_reply out2 = Ingest_accepted (jstring (jget ''idempotency_key'' envelope))" "io_scheduled out2 = None"
    "chains (io_db out1) = chains d" "chains (io_db out2) = chains d"
proof -
  let ?p = "\<lambda>en. jget ''payload'' en"
  obtain envelope where en: "request_envelope x st env rq = Some envelope"
    using assms(1) serve_ingest_None [of x st env rq d] by (cases "request_envelope x st env rq") (auto simp: ingest_reject_def)
  let ?key = "jstring (jget ''idempotency_key'' envelope)"
  obtain res d' where p: "process_envelope x st env envelope d = (res, d')" by fastforce
  note s = serve_ingest_Some [OF en p]
  from assms(1) s obtain r where r: "res = Inr r" "ir_disposition r = ACCEPTED"
    by (cases res) (simp_all add: ingest_reject_def split: if_splits)
  have ndl: "ir_disposition q = DEAD_LETTERED" if "pipeline_dead_letter x env envelope (?p envelope) reason d = (Inr q, s')" for reason s' q
    using that by (auto simp: pipeline_dead_letter_def Let_def split: prod.splits sum.splits)
  from process_envelope_route [of x st envelope] p r ndl obtain t e where
    rt: "\<And>env d. process_envelope x st env envelope d = record_envelope x env envelope (?p envelope) t e d" by fastforce
  obtain d2 where d2: "record_envelope x (env\<lparr>ig_record := Txn_abort f\<rparr>) envelope (?p envelope) t e d = (Inl f, d2)"
    "tenant_event_content_hash t ?key d2 = Some (content_hash (xo_sha x) (?p envelope))"
    "tenant_session t = Inr ()" "chains d2 = chains d"
    using p [unfolded rt r(1)] r(2) assms(2,3) by (rule record_envelope_accepted) blast
  have en1: "request_envelope x st (env\<lparr>ig_record := Txn_abort f\<rparr>) rq = Some envelope" using en by (simp add: request_envelope_def)
  have en2: "request_envelope x st env2 rq = Some envelope" using assms(4) en by simp
  have o1: "out1 = ingest_reject 503 ''ingest_unavailable'' d2"
    unfolding out1 using serve_ingest_Some [OF en1] d2(1) rt by simp
  have "process_envelope x st env2 envelope d2 = (Inr \<lparr>ir_disposition = DEDUPED, ir_event = ?key, ir_reason = None, ir_dlq = None\<rparr>,
      d2\<lparr>uuid_next := Suc (uuid_next d2)\<rparr>)" unfolding rt by (rule redelivery_is_silent [OF d2(2,3) assms(5)])
  note o2 = serve_ingest_Some [OF en2 this]
  have "event_stored x envelope d2"
    using d2(2) by (auto simp: event_stored_def tenant_event_content_hash_def dest!: find_event_key)
  then show thesis using o1 o2 d2(4) en out2 by (intro that [OF en]) (simp_all add: ingest_reject_def)
qed

end
