(* ===== verification/Orch_Dispatch.thy ===== *)
theory Orch_Dispatch
  imports Orch_Ingest_Facts Ingest_Serve "HOL-Library.Product_Lexorder"
begin

text \<open>
  The drain that forwards accepted usage events to Delta (\<open>orchestrator.dispatch\<close>): the
  signer, the selection of pending outbox rows joined to their events, one attempt per row with
  its outcome recorded in a transaction of its own, and the loop. The receiver is a parameter:
  posting a request changes a state of type \<open>'w\<close> and gives a status code or a transport
  error. Another drain may have changed the row in between (\<open>dn_race\<close>).
\<close>

section \<open>Signing\<close>

record delta_headers =
  dh_timestamp :: string
  dh_signature :: string
  dh_attempt :: string

definition dispatch_secret :: "environ \<Rightarrow> py_exc + string" where
  "dispatch_secret env = (case env ''DELTA_INGEST_HMAC_SECRET'' of
     Some raw \<Rightarrow> if raw = [] then Inl RuntimeError else Inr raw
   | None \<Rightarrow> Inl RuntimeError)"

text \<open>The clock is in microseconds; \<open>int(time.time())\<close> drops the fraction.\<close>

definition sign_delta :: "(string \<Rightarrow> string \<Rightarrow> string) \<Rightarrow> environ \<Rightarrow> string \<Rightarrow> int \<Rightarrow> int \<Rightarrow> py_exc + delta_headers" where
  "sign_delta mac env body attempt clock =
     (let ts_str = dec_int (clock div us_per_second) in
      bindR (dispatch_secret env) (\<lambda>secret.
      Inr \<lparr>dh_timestamp = ts_str, dh_signature = ''sha256='' @ mac secret (ts_str @ ''.'' @ body),
           dh_attempt = dec_int attempt\<rparr>))"

definition delta_request :: "string \<Rightarrow> delta_headers \<Rightarrow> request" where
  "delta_request body h = \<lparr>rq_body = body, rq_timestamp = Some (dh_timestamp h), rq_signature = Some (dh_signature h),
     rq_attempt = Some (dh_attempt h)\<rparr>"

section \<open>Reading and recording\<close>

record pending_row =
  pw_id :: ident
  pw_key :: string
  pw_attempts :: int
  pw_event :: "(string \<times> json) option"

text \<open>The LEFT JOIN on the unique key, oldest first. \<open>jsonb\<close> is what a JSONB column gives back for a value.\<close>

definition select_pending :: "(json \<Rightarrow> json) \<Rightarrow> nat \<Rightarrow> orch_db \<Rightarrow> pending_row list" where
  "select_pending jsonb limit d =
     map (\<lambda>fo. \<lparr>pw_id = fo_id fo, pw_key = fo_key fo, pw_attempts = fo_attempts fo,
                pw_event = map_option (\<lambda>ie. (case dget ''event_type'' (ev_common ie) of CStr s \<Rightarrow> s | _ \<Rightarrow> [],
                                             jsonb (ev_payload ie)))
                  (List.find (\<lambda>ie. ev_key ie = fo_key fo) (ingest_events d))\<rparr>)
       (take limit (sort_key (\<lambda>fo. (fo_created fo, fo_id fo)) (filter (\<lambda>fo. fo_status fo = ''pending'') (forward_outbox d))))"

definition apply_outcome ::
  "ident \<Rightarrow> string \<Rightarrow> int \<Rightarrow> instant option \<Rightarrow> string option \<Rightarrow> orch_db \<Rightarrow> orch_db" where
  "apply_outcome row_id status attempts ts err d =
     d\<lparr>forward_outbox := update_where (\<lambda>r. fo_id r = row_id \<and> fo_status r = ''pending'')
        (\<lambda>r. r\<lparr>fo_status := status, fo_attempts := attempts, fo_last_attempt := ts, fo_last_error := err\<rparr>)
        (forward_outbox d)\<rparr>"

record drain_params =
  dn_env :: environ
  dn_mac :: "string \<Rightarrow> string \<Rightarrow> string"
  dn_jsonb :: "json \<Rightarrow> json"
  dn_limit :: nat
  dn_max_attempts :: int
  dn_clock :: int
  dn_now :: instant
  dn_race :: "ident \<Rightarrow> orch_db \<Rightarrow> orch_db"
  dn_fault :: "ident \<Rightarrow> txn_fault"

definition apply_row ::
  "drain_params \<Rightarrow> ident \<Rightarrow> string \<Rightarrow> int \<Rightarrow> instant option \<Rightarrow> string option \<Rightarrow> orch_db \<Rightarrow> (py_exc + unit) \<times> orch_db" where
  "apply_row p row_id status attempts ts err d =
     run_txn (dn_fault p row_id) (\<lambda>s. Inr ((), apply_outcome row_id status attempts ts err s)) (dn_race p row_id d)"

definition MAX_ERROR_LEN :: nat where "MAX_ERROR_LEN = 500"

definition record_transient ::
  "drain_params \<Rightarrow> ident \<Rightarrow> int \<Rightarrow> string \<Rightarrow> orch_db \<Rightarrow> (py_exc + string) \<times> orch_db" where
  "record_transient p row_id attempt short_error d =
     (let (status, outcome) = (if attempt \<ge> dn_max_attempts p then (''failed'', ''failed'') else (''pending'', ''retried'')) in
      case apply_row p row_id status attempt (Some (dn_now p)) (Some (take MAX_ERROR_LEN short_error)) d of
        (Inl e, d1) \<Rightarrow> (Inl e, d1)
      | (Inr _, d1) \<Rightarrow> (Inr outcome, d1))"

text \<open>An attempt at one row: the outcome or the exception, and both states.\<close>

definition record_then :: "string \<Rightarrow> (py_exc + unit) \<times> orch_db \<Rightarrow> (py_exc + string) \<times> orch_db" where
  "record_then outcome r = (case r of (Inl e, d1) \<Rightarrow> (Inl e, d1) | (Inr _, d1) \<Rightarrow> (Inr outcome, d1))"

definition dispatch_row ::
  "drain_params \<Rightarrow> (request \<Rightarrow> 'w \<Rightarrow> (string + int) \<times> 'w) \<Rightarrow> pending_row \<Rightarrow> orch_db \<times> 'w \<Rightarrow> (py_exc + string) \<times> orch_db \<times> 'w" where
  "dispatch_row p post row s =
     (let (d, w) = s; current = pw_attempts row in
      case pw_event row of
        None \<Rightarrow> (let (r, d1) = record_then ''skipped'' (apply_row p (pw_id row) ''skipped'' current None None d) in (r, d1, w))
      | Some (event_type, payload) \<Rightarrow>
          if event_type \<noteq> ''usage''
          then (let (r, d1) = record_then ''skipped'' (apply_row p (pw_id row) ''skipped'' current None None d) in (r, d1, w))
          else
            (let body = json_dumps False payload; attempt = current + 1 in
             case sign_delta (dn_mac p) (dn_env p) body attempt (dn_clock p) of
               Inl e \<Rightarrow> (Inl e, d, w)
             | Inr headers \<Rightarrow>
                 (case post (delta_request body headers) w of
                    (Inl exc_name, w1) \<Rightarrow>
                      (let (r, d1) = record_transient p (pw_id row) attempt exc_name d in (r, d1, w1))
                  | (Inr code, w1) \<Rightarrow>
                      (let (r, d1) =
                         (if 200 \<le> code \<and> code < 300
                          then record_then ''forwarded'' (apply_row p (pw_id row) ''forwarded'' current (Some (dn_now p)) None d)
                          else if 400 \<le> code \<and> code < 500
                          then record_then ''failed'' (apply_row p (pw_id row) ''failed'' current (Some (dn_now p))
                                 (Some (''delta '' @ dec_int code)) d)
                          else record_transient p (pw_id row) attempt (''delta '' @ dec_int code) d)
                       in (r, d1, w1)))))"

record dispatch_summary =
  dy_forwarded :: int
  dy_failed :: int
  dy_retried :: int
  dy_skipped :: int
  dy_scanned :: int

definition count_outcome :: "string \<Rightarrow> dispatch_summary \<Rightarrow> dispatch_summary" where
  "count_outcome outcome y =
     (if outcome = ''forwarded'' then y\<lparr>dy_forwarded := dy_forwarded y + 1\<rparr>
      else if outcome = ''failed'' then y\<lparr>dy_failed := dy_failed y + 1\<rparr>
      else if outcome = ''retried'' then y\<lparr>dy_retried := dy_retried y + 1\<rparr>
      else y\<lparr>dy_skipped := dy_skipped y + 1\<rparr>)"

fun dispatch_rows ::
  "drain_params \<Rightarrow> (request \<Rightarrow> 'w \<Rightarrow> (string + int) \<times> 'w) \<Rightarrow> pending_row list \<Rightarrow> dispatch_summary \<Rightarrow> orch_db \<times> 'w
     \<Rightarrow> (py_exc + dispatch_summary) \<times> orch_db \<times> 'w" where
  "dispatch_rows p post [] y s = (Inr y, s)"
| "dispatch_rows p post (row # rows) y s =
     (case dispatch_row p post row s of
        (Inl e, s1) \<Rightarrow> (Inl e, s1)
      | (Inr outcome, s1) \<Rightarrow> dispatch_rows p post rows (count_outcome outcome y) s1)"

definition dispatch_pending ::
  "drain_params \<Rightarrow> (request \<Rightarrow> 'w \<Rightarrow> (string + int) \<times> 'w) \<Rightarrow> orch_db \<times> 'w \<Rightarrow> (py_exc + dispatch_summary) \<times> orch_db \<times> 'w" where
  "dispatch_pending p post s =
     (let rows = select_pending (dn_jsonb p) (dn_limit p) (fst s) in
      dispatch_rows p post rows
        \<lparr>dy_forwarded = 0, dy_failed = 0, dy_retried = 0, dy_skipped = 0, dy_scanned = int (length rows)\<rparr> s)"

section \<open>Posting to Delta\<close>

text \<open>The receiver of the deployment: Delta's usage route. A request may not arrive, and its answer may be
  lost; either way the client sees a transport error.\<close>

datatype net_fate = Answered | Answer_lost string | Unsent string

definition post_to_delta ::
  "externals \<Rightarrow> app_state \<Rightarrow> (request \<Rightarrow> serve_env) \<Rightarrow> (request \<Rightarrow> net_fate) \<Rightarrow> request \<Rightarrow> db \<Rightarrow> (string + int) \<times> db" where
  "post_to_delta x app senv fate rq d =
     (let out = serve_usage x app (senv rq) rq d in
      case fate rq of
        Answered \<Rightarrow> (Inr (status_code (o_reply out)), o_db out)
      | Answer_lost exc_name \<Rightarrow> (Inl exc_name, o_db out)
      | Unsent exc_name \<Rightarrow> (Inl exc_name, d))"

end
