(* ===== verification/Orch_Dispatch_Facts.thy ===== *)
theory Orch_Dispatch_Facts
  imports Orch_Dispatch
begin

text \<open>
  What a drain achieves: Delta accepts the signatures it makes, a row marked forwarded is posted in
  Delta's ledger once, every row settles within \<open>max_attempts\<close> drains whatever Delta and the
  network do, and a clock skew loses the events.
\<close>

section \<open>Signatures\<close>

lemma dec_nat_length: "n < 10 ^ Suc k \<Longrightarrow> length (dec_nat n) \<le> Suc k"
proof (induction k arbitrary: n)
  case 0
  then show ?case by (simp add: dec_nat.simps [of n])
next
  case (Suc k)
  show ?case
  proof (cases "n < 10")
    case False
    have "n div 10 < 10 ^ Suc k" using Suc.prems by (simp add: less_mult_imp_div_less)
    then show ?thesis using Suc.IH [of "n div 10"] False by (simp add: dec_nat.simps [of n])
  qed (simp add: dec_nat.simps [of n])
qed

lemma int_digits_all: "list_all is_digit s \<Longrightarrow> s \<noteq> [] \<or> b \<Longrightarrow> int_digits b s = Some s"
proof (induction s arbitrary: b)
  case (Cons c s)
  then show ?case by (cases s) (auto simp: list_all_iff)
qed simp

lemma digit_not_space: "is_digit c \<Longrightarrow> \<not> is_space c"
  by (auto simp: is_digit_def is_space_def Let_def)

lemma strip_no_space: "s \<noteq> [] \<Longrightarrow> \<not> is_space (hd s) \<Longrightarrow> \<not> is_space (last s) \<Longrightarrow> strip s = s"
  by (cases s rule: rev_cases) (auto simp: strip_def dropWhile_append hd_append neq_Nil_conv split: if_splits)

lemma parse_int_dec_nat:
  assumes "length (dec_nat n) \<le> 4300"
  shows "parse_int (dec_nat n) = Some (int n)"
proof -
  have d: "list_all is_digit (dec_nat n)" by (rule dec_nat_digits)
  then have "is_digit (hd (dec_nat n))" "is_digit (last (dec_nat n))" by (auto simp: list_all_iff)
  moreover from this(1) have "split_sign (dec_nat n) = (False, dec_nat n)"
    by (cases "dec_nat n") (auto simp: split_sign_def is_digit_def)
  ultimately show ?thesis
    using assms d by (simp add: parse_int_def strip_no_space digit_not_space int_digits_all signed_def)
qed

lemma dec_nat_ascii: "is_ascii (dec_nat n)"
  using dec_nat_digits [of n] by (auto simp: is_ascii_def list_all_iff is_digit_def)

lemma timestamp_parses:
  assumes "0 \<le> ts" "ts < 10 ^ 13"
  shows "parse_int (dec_int ts) = Some ts" "is_ascii (dec_int ts)" "dec_int ts \<noteq> []" "\<bar>ts\<bar> < 2 ^ 1024 - 2 ^ 970"
proof -
  have "nat ts < 10 ^ Suc 12" using assms by (simp add: nat_less_iff)
  from dec_nat_length [OF this] show "parse_int (dec_int ts) = Some ts"
    using parse_int_dec_nat [of "nat ts"] assms(1) by (simp add: dec_int_def)
  show "is_ascii (dec_int ts)" "dec_int ts \<noteq> []" using assms(1) dec_nat_ascii by (simp_all add: dec_int_def)
  have "(10::int) ^ 13 < 2 ^ 1024 - 2 ^ 970" by simp
  then show "\<bar>ts\<bar> < 2 ^ 1024 - 2 ^ 970" using assms by linarith
qed

lemma sign_delta_Inr:
  assumes "sign_delta mac env body attempt clock = Inr h"
  obtains secret where "dispatch_secret env = Inr secret" "dh_timestamp h = dec_int (clock div us_per_second)"
    "dh_signature h = ''sha256='' @ mac secret (dec_int (clock div us_per_second) @ ''.'' @ body)"
  using assms by (auto simp: sign_delta_def Let_def bindR_eq_Inr)

lemma dispatched_verify:
  assumes "sign_delta mac env body attempt clock = Inr h" "dispatch_secret env = Inr secret"
    and "\<And>m. is_ascii (mac secret m)" "0 \<le> clock" "clock < 10 ^ 19"
  shows "verify_signature mac secret (rq_timestamp (delta_request body h)) (rq_signature (delta_request body h)) body now
    = Inr (\<bar>now - clock div us_per_second * us_per_second\<bar> \<le> HMAC_TOLERANCE_SECONDS * us_per_second)"
proof -
  from assms(1,2) have h: "dh_timestamp h = dec_int (clock div us_per_second)"
    "dh_signature h = ''sha256='' @ mac secret (dec_int (clock div us_per_second) @ ''.'' @ body)"
    by (auto elim!: sign_delta_Inr)
  have "0 \<le> clock div us_per_second" "clock div us_per_second < 10 ^ 13"
    using assms(4,5) by (auto simp: pos_imp_zdiv_nonneg_iff div_less_iff_less_mult)
  note t = timestamp_parses [OF this]
  show ?thesis
    using t assms(3) by (auto simp: verify_signature_def delta_request_def h Let_def SIGNATURE_PREFIX_def expected_signature_def
        simp del: power_numeral)
qed

section \<open>One row\<close>

text \<open>Whatever happens, an attempt changes nothing but columns of the row it is about, and only while that row is
  pending.\<close>

definition touches_row :: "drain_params \<Rightarrow> ident \<Rightarrow> orch_db \<Rightarrow> orch_db \<Rightarrow> bool" where
  "touches_row p i d d' \<longleftrightarrow> (\<exists>f. d' = d\<lparr>forward_outbox := update_where (\<lambda>r. fo_id r = i \<and> fo_status r = ''pending'') f (forward_outbox d)\<rparr>
     \<and> (\<forall>r. fo_id (f r) = fo_id r \<and> fo_key (f r) = fo_key r \<and> fo_tenant (f r) = fo_tenant r \<and> fo_event (f r) = fo_event r))"

lemma update_where_id [simp]: "update_where P (\<lambda>r. r) rows = rows"
  by (induction rows) simp_all

lemma touches_row_refl: "touches_row p i d d"
  unfolding touches_row_def by (intro exI [of _ "\<lambda>r. r"]) simp

lemma apply_row_cases:
  assumes "apply_row p i status n ts err d = (y, d')" "dn_race p i d = d"
  obtains (aborted) e where "y = Inl e" "d' = d" "dn_fault p i \<noteq> Txn_ok"
  | (applied) "d' = apply_outcome i status n ts err d" "y = Inr () \<or> (\<exists>e. y = Inl e \<and> dn_fault p i = Txn_unacked e)"
  using assms unfolding apply_row_def by (auto elim!: run_txn_cases)

lemma apply_outcome_touches: "touches_row p i d (apply_outcome i status n ts err d)"
  unfolding touches_row_def apply_outcome_def
  by (intro exI [of _ "\<lambda>r. r\<lparr>fo_status := status, fo_attempts := n, fo_last_attempt := ts, fo_last_error := err\<rparr>"]) simp

lemma apply_row_touches:
  assumes "apply_row p i status n ts err d = (y, d')" "dn_race p i d = d"
  shows "touches_row p i d d'"
  using assms by (cases rule: apply_row_cases) (auto intro: touches_row_refl apply_outcome_touches)

lemma record_then_snd [simp]: "snd (record_then c r) = snd r" "fst (record_then c (Inr (), d)) = Inr c"
  by (auto simp: record_then_def split: prod.splits sum.splits)

lemma record_transient_eq:
  "record_transient p i n err d = record_then (if n \<ge> dn_max_attempts p then ''failed'' else ''retried'')
     (apply_row p i (if n \<ge> dn_max_attempts p then ''failed'' else ''pending'') n (Some (dn_now p)) (Some (take MAX_ERROR_LEN err)) d)"
  by (auto simp: record_transient_def record_then_def split: prod.splits sum.splits)

text \<open>The shape of an attempt: nothing happens before the POST fails to be signed; otherwise one outcome is recorded.\<close>

definition outcome_ok :: "drain_params \<Rightarrow> pending_row \<Rightarrow> string \<Rightarrow> int \<Rightarrow> bool" where
  "outcome_ok p row status n \<longleftrightarrow> status \<in> {''skipped'', ''forwarded'', ''failed''}
     \<or> status = ''pending'' \<and> n = pw_attempts row + 1 \<and> n < dn_max_attempts p"

lemma dispatch_row_cases:
  assumes "dispatch_row p post row (d, w) = (y, d', w')"
  obtains (unsigned) e where "y = Inl e" "d' = d" "w' = w" "dispatch_secret (dn_env p) = Inl e"
  | (attempt) status n ts err c where "(y, d') = record_then c (apply_row p (pw_id row) status n ts err d)" "outcome_ok p row status n"
      "status = ''forwarded'' \<Longrightarrow> \<exists>payload h code. pw_event row = Some (''usage'', payload)
         \<and> sign_delta (dn_mac p) (dn_env p) (json_dumps False payload) (pw_attempts row + 1) (dn_clock p) = Inr h
         \<and> post (delta_request (json_dumps False payload) h) w = (Inr code, w') \<and> 200 \<le> code \<and> code < 300"
      "w' = w \<or> (\<exists>rq r. post rq w = (r, w'))"
proof (cases "\<exists>payload. pw_event row = Some (''usage'', payload)")
  case False
  then have "(y, d') = record_then ''skipped'' (apply_row p (pw_id row) ''skipped'' (pw_attempts row) None None d)" "w' = w"
    using assms by (auto simp: dispatch_row_def Let_def split: option.splits prod.splits if_splits)
  then show thesis by (intro attempt) (auto simp: outcome_ok_def)
next
  case True
  then obtain payload where u: "pw_event row = Some (''usage'', payload)" by blast
  let ?body = "json_dumps False payload"
  show thesis
  proof (cases "sign_delta (dn_mac p) (dn_env p) ?body (pw_attempts row + 1) (dn_clock p)")
    case (Inl e)
    then have "dispatch_secret (dn_env p) = Inl e" by (auto simp: sign_delta_def Let_def bindR_eq_Inl)
    then show thesis using assms u Inl by (intro unsigned [of e]) (auto simp: dispatch_row_def Let_def)
  next
    case (Inr h)
    obtain r w1 where po: "post (delta_request ?body h) w = (r, w1)" by fastforce
    show thesis
    proof (cases r)
      case (Inl a)
      then have e: "(y, d') = record_transient p (pw_id row) (pw_attempts row + 1) a d" "w' = w1"
        using assms u Inr po by (auto simp: dispatch_row_def Let_def split: prod.splits)
      show thesis
        by (rule attempt [OF e(1) [unfolded record_transient_eq]]) (use e(2) po in \<open>auto simp: outcome_ok_def split: if_splits\<close>)
    next
      case r: (Inr code)
      note po = po [unfolded r]
      have w': "w' = w1" using assms u Inr po by (auto simp: dispatch_row_def Let_def split: prod.splits if_splits)
      consider "200 \<le> code \<and> code < 300" | "\<not> (200 \<le> code \<and> code < 300)" "400 \<le> code \<and> code < 500"
        | "\<not> (200 \<le> code \<and> code < 300)" "\<not> (400 \<le> code \<and> code < 500)" by blast
      then show thesis
      proof cases
        case 1
        then have "(y, d') = record_then ''forwarded'' (apply_row p (pw_id row) ''forwarded'' (pw_attempts row) (Some (dn_now p)) None d)"
          using assms u Inr po by (auto simp: dispatch_row_def Let_def split: prod.splits)
        then show thesis by (rule attempt) (use u Inr po w' 1 in \<open>auto simp: outcome_ok_def\<close>)
      next
        case 2
        then have "(y, d') = record_then ''failed'' (apply_row p (pw_id row) ''failed'' (pw_attempts row) (Some (dn_now p))
            (Some (''delta '' @ dec_int code)) d)"
          using assms u Inr po by (auto simp: dispatch_row_def Let_def split: prod.splits)
        then show thesis by (rule attempt) (use po w' in \<open>auto simp: outcome_ok_def split: if_splits\<close>)
      next
        case 3
        then have "(y, d') = record_transient p (pw_id row) (pw_attempts row + 1) (''delta '' @ dec_int code) d"
          using assms u Inr po by (auto simp: dispatch_row_def Let_def split: prod.splits)
        then show thesis unfolding record_transient_eq
          by (rule attempt) (use po w' in \<open>auto simp: outcome_ok_def split: if_splits\<close>)
      qed
    qed
  qed
qed

text \<open>The race-free drain: nobody else changes the rows meanwhile.\<close>

definition alone :: "drain_params \<Rightarrow> bool" where
  "alone p \<longleftrightarrow> (\<forall>i d. dn_race p i d = d)"

lemma dispatch_row_touches:
  assumes "dispatch_row p post row (d, w) = (y, d', w')" "alone p"
  shows "touches_row p (pw_id row) d d'"
  using assms(1)
proof (cases rule: dispatch_row_cases)
  case (attempt status n ts err c)
  have "d' = snd (apply_row p (pw_id row) status n ts err d)" using arg_cong [OF attempt(1), of snd] by simp
  then show ?thesis using apply_row_touches [of p "pw_id row" status n ts err d] assms(2)
    by (cases "apply_row p (pw_id row) status n ts err d") (simp add: alone_def)
qed (auto intro: touches_row_refl)

lemma touches_row_frame:
  assumes "touches_row p i d d'"
  shows "ingest_events d' = ingest_events d" "chains d' = chains d" "map fo_id (forward_outbox d') = map fo_id (forward_outbox d)"
    "map fo_key (forward_outbox d') = map fo_key (forward_outbox d)"
    "\<And>r. r \<in> set (forward_outbox d) \<Longrightarrow> fo_status r \<noteq> ''pending'' \<or> fo_id r \<noteq> i \<Longrightarrow> r \<in> set (forward_outbox d')"
    "\<And>r. r \<in> set (forward_outbox d') \<Longrightarrow> fo_id r \<noteq> i \<Longrightarrow> r \<in> set (forward_outbox d)"
  using assms by (auto simp: touches_row_def set_update_where intro!: map_update_where_frame)

section \<open>Forwarded events are in Delta's ledger\<close>

text \<open>The usage record Delta reads from what the drain sends for an outbox row.\<close>

definition forwarded_record :: "(json \<Rightarrow> json) \<Rightarrow> externals \<Rightarrow> ingest_event list \<Rightarrow> string \<Rightarrow> usage_record option" where
  "forwarded_record jsonb x events key =
     (case List.find (\<lambda>ie. ev_key ie = key) events of
        None \<Rightarrow> None
      | Some ie \<Rightarrow>
          (case x_loads x (json_dumps False (jsonb (ev_payload ie))) of
             None \<Rightarrow> None
           | Some v \<Rightarrow> (case build_usage_record (x_pdt x) v of Inl _ \<Rightarrow> None | Inr r \<Rightarrow> Some r)))"

definition forwarded_posted :: "(json \<Rightarrow> json) \<Rightarrow> externals \<Rightarrow> orch_db \<Rightarrow> db \<Rightarrow> bool" where
  "forwarded_posted jsonb x d w \<longleftrightarrow> (\<forall>fo \<in> set (forward_outbox d). fo_status fo = ''forwarded'' \<longrightarrow>
     (\<exists>r. forwarded_record jsonb x (ingest_events d) (fo_key fo) = Some r \<and> posted_count (u_tenant r) (u_event r) w = 1))"

lemma post_to_delta_grows:
  assumes "post_to_delta x app senv fate rq w = (r, w')"
  shows "grows w w'" "ledger_ok w \<Longrightarrow> ledger_ok w'"
  using assms serve_usage_ledger [of w x app "senv rq" rq]
  by (auto simp: post_to_delta_def Let_def split: net_fate.splits)

lemma status_200: "200 \<le> status_code rep \<Longrightarrow> status_code rep < 300 \<Longrightarrow> \<exists>a b i. rep = Accepted a b i"
  by (cases rep) auto

lemma forwarded_posted_mono:
  assumes "forwarded_posted jsonb x d w" "grows w w'" "ledger_ok w'"
  shows "forwarded_posted jsonb x d w'"
proof -
  have "posted_count t k w = 1 \<Longrightarrow> posted_count t k w' = 1" for t k
    using posted_count_mono [OF assms(2), of t k] posted_count_le_1 [OF assms(3), of t k] by simp
  then show ?thesis using assms(1) by (force simp: forwarded_posted_def)
qed

text \<open>A pending row as it was selected: its key and its event.\<close>

definition selected_from :: "(json \<Rightarrow> json) \<Rightarrow> orch_db \<Rightarrow> pending_row \<Rightarrow> bool" where
  "selected_from jsonb d row \<longleftrightarrow> (pw_id row, pw_key row) \<in> set (zip (map fo_id (forward_outbox d)) (map fo_key (forward_outbox d)))
     \<and> pw_event row = map_option (\<lambda>ie. (case dget ''event_type'' (ev_common ie) of CStr s \<Rightarrow> s | _ \<Rightarrow> [], jsonb (ev_payload ie)))
          (List.find (\<lambda>ie. ev_key ie = pw_key row) (ingest_events d))"

lemma selected_fromD:
  assumes "selected_from jsonb d row" "distinct (map fo_id (forward_outbox d))" "fo \<in> set (forward_outbox d)" "fo_id fo = pw_id row"
  shows "fo_key fo = pw_key row"
  using assms by (auto simp: selected_from_def set_zip in_set_conv_nth distinct_conv_nth) metis

lemma select_pending_selected: "row \<in> set (select_pending jsonb n d) \<Longrightarrow> selected_from jsonb d row"
  by (auto simp: select_pending_def selected_from_def zip_map_map zip_same_conv_map dest!: in_set_takeD)

lemma dispatch_row_posted:
  assumes "dispatch_row p (post_to_delta x app senv fate) row (d, w) = (y, d', w')" "alone p"
    and "selected_from (dn_jsonb p) d row" "distinct (map fo_id (forward_outbox d))"
    and "forwarded_posted (dn_jsonb p) x d w" "ledger_ok w"
  shows "forwarded_posted (dn_jsonb p) x d' w'" "ledger_ok w'"
proof -
  have "ledger_ok w' \<and> forwarded_posted (dn_jsonb p) x d' w'"
    using assms(1)
  proof (cases rule: dispatch_row_cases)
    case (unsigned e)
    then show ?thesis using assms(5,6) by simp
  next
    case (attempt status n ts err c)
    have w': "grows w w'" "ledger_ok w'" using attempt(4) assms(6) post_to_delta_grows by auto
    have base: "forwarded_posted (dn_jsonb p) x d w'" by (rule forwarded_posted_mono [OF assms(5) w'])
    obtain z d1 where z: "apply_row p (pw_id row) status n ts err d = (z, d1)" by fastforce
    have d1: "d' = d1" using arg_cong [OF attempt(1), of snd] z by simp
    have "dn_race p (pw_id row) d = d" using assms(2) by (simp add: alone_def)
    with z show ?thesis
    proof (cases rule: apply_row_cases)
      case (aborted e)
      then show ?thesis using base w' d1 by simp
    next
      case applied
      have "\<exists>r. forwarded_record (dn_jsonb p) x (ingest_events d) (pw_key row) = Some r \<and> posted_count (u_tenant r) (u_event r) w' = 1"
        if st: "status = ''forwarded''"
      proof -
        from attempt(3) [OF st] obtain payload h code where ev: "pw_event row = Some (''usage'', payload)"
          and po: "post_to_delta x app senv fate (delta_request (json_dumps False payload) h) w = (Inr code, w')"
          and code: "200 \<le> code" "code < 300" by blast
        let ?rq = "delta_request (json_dumps False payload) h"
        from po have out: "code = status_code (o_reply (serve_usage x app (senv ?rq) ?rq w))" "w' = o_db (serve_usage x app (senv ?rq) ?rq w)"
          by (auto simp: post_to_delta_def Let_def split: net_fate.splits)
        from status_200 code obtain a b i where "o_reply (serve_usage x app (senv ?rq) ?rq w) = Accepted a b i" unfolding out(1) by blast
        from serve_usage_accepted_once [OF this assms(6)] obtain r where r: "usage_event x app (senv ?rq) ?rq = Some r"
          "posted_count (u_tenant r) (u_event r) w' = 1" unfolding out(2) by blast
        from assms(3) ev obtain ie where "List.find (\<lambda>ie. ev_key ie = pw_key row) (ingest_events d) = Some ie"
          "payload = dn_jsonb p (ev_payload ie)"
          by (cases "List.find (\<lambda>ie. ev_key ie = pw_key row) (ingest_events d)") (auto simp: selected_from_def)
        with r(1) have "forwarded_record (dn_jsonb p) x (ingest_events d) (pw_key row) = Some r"
          by (auto simp: forwarded_record_def usage_event_def delta_request_def split: sum.splits bool.splits option.splits)
        then show ?thesis using r(2) by blast
      qed
      then have "forwarded_posted (dn_jsonb p) x d' w'"
        using base selected_fromD [OF assms(3,4)] unfolding d1 applied(1) forwarded_posted_def apply_outcome_def
        by (auto simp: set_update_where)
      then show ?thesis using w' by simp
    qed
  qed
  then show "forwarded_posted (dn_jsonb p) x d' w'" "ledger_ok w'" by blast+
qed

lemma selected_from_touches: "touches_row p i d d' \<Longrightarrow> selected_from jsonb d' row = selected_from jsonb d row"
  unfolding selected_from_def by (simp add: touches_row_frame)

lemma dispatch_rows_posted:
  assumes "dispatch_rows p (post_to_delta x app senv fate) rows y (d, w) = (res, d', w')" "alone p"
    and "\<forall>row \<in> set rows. selected_from (dn_jsonb p) d row" "distinct (map fo_id (forward_outbox d))"
    and "forwarded_posted (dn_jsonb p) x d w" "ledger_ok w"
  shows "forwarded_posted (dn_jsonb p) x d' w' \<and> ledger_ok w'"
  using assms
proof (induction rows arbitrary: y d w)
  case Nil
  then show ?case by simp
next
  case (Cons row rows)
  obtain z d1 w1 where z: "dispatch_row p (post_to_delta x app senv fate) row (d, w) = (z, d1, w1)" by (metis prod_cases3)
  have sel: "selected_from (dn_jsonb p) d row" using Cons.prems(3) by simp
  note step = dispatch_row_posted [OF z Cons.prems(2) sel Cons.prems(4-6)]
  note t = dispatch_row_touches [OF z Cons.prems(2)]
  show ?case
  proof (cases z)
    case (Inl e)
    then show ?thesis using Cons.prems(1) z step by simp
  next
    case (Inr c)
    have "dispatch_rows p (post_to_delta x app senv fate) rows (count_outcome c y) (d1, w1) = (res, d', w')"
      using Cons.prems(1) z Inr by simp
    then show ?thesis
      using Cons.prems(2-4) step t by (intro Cons.IH) (auto simp: selected_from_touches touches_row_frame(3))
  qed
qed

lemma dispatch_pending_posted:
  assumes "dispatch_pending p (post_to_delta x app senv fate) (d, w) = (res, d', w')" "alone p"
    and "distinct (map fo_id (forward_outbox d))" "forwarded_posted (dn_jsonb p) x d w" "ledger_ok w"
  shows "forwarded_posted (dn_jsonb p) x d' w'" "ledger_ok w'"
  using dispatch_rows_posted [OF assms(1) [unfolded dispatch_pending_def Let_def] assms(2) _ assms(3-5)]
  by (auto dest: select_pending_selected)

text \<open>A drain is a well-behaved neighbour of the ingest handler.\<close>

lemma touches_row_ingest: "touches_row p i d d' \<Longrightarrow> good_step sha d d'"
  using touches_row_frame [of p i d d'] by (auto simp: touches_row_def good_step_def ingest_grows_def ingest_inv_def)

section \<open>Every row settles\<close>

text \<open>A drain without database faults.\<close>

definition undisturbed :: "drain_params \<Rightarrow> bool" where
  "undisturbed p \<longleftrightarrow> alone p \<and> (\<forall>i. dn_fault p i = Txn_ok) \<and> (\<exists>secret. dispatch_secret (dn_env p) = Inr secret)"

lemma dispatch_row_undisturbed:
  assumes "dispatch_row p post row (d, w) = (y, d', w')" "undisturbed p"
  obtains status n ts err c where "y = Inr c" "d' = apply_outcome (pw_id row) status n ts err d" "outcome_ok p row status n"
  using assms(1)
proof (cases rule: dispatch_row_cases)
  case (unsigned e)
  then show thesis using assms(2) by (auto simp: undisturbed_def)
next
  case (attempt status n ts err c)
  have "apply_row p (pw_id row) status n ts err d = (Inr (), apply_outcome (pw_id row) status n ts err d)"
    using assms(2) by (simp add: apply_row_def run_txn_def undisturbed_def alone_def)
  then show thesis using attempt(1,2) by (intro that) (auto simp: record_then_def)
qed

definition attempted :: "drain_params \<Rightarrow> orch_db \<Rightarrow> forward_row \<Rightarrow> bool" where
  "attempted p d fo' \<longleftrightarrow> (\<exists>fo \<in> set (forward_outbox d). fo_id fo = fo_id fo' \<and> fo_status fo = ''pending''
     \<and> fo_attempts fo' = fo_attempts fo + 1 \<and> fo_attempts fo' < dn_max_attempts p)"

lemma dispatch_rows_settle:
  assumes "dispatch_rows p post rows y (d, w) = (res, d', w')" "undisturbed p"
    and "distinct (map pw_id rows)" "distinct (map fo_id (forward_outbox d))"
    and "\<forall>row \<in> set rows. \<forall>fo \<in> set (forward_outbox d). fo_id fo = pw_id row \<longrightarrow> fo_attempts fo = pw_attempts row"
  shows "(\<exists>y'. res = Inr y') \<and> map fo_id (forward_outbox d') = map fo_id (forward_outbox d)
    \<and> (\<forall>fo' \<in> set (forward_outbox d'). fo_status fo' = ''pending'' \<longrightarrow>
         (if fo_id fo' \<in> pw_id ` set rows then attempted p d fo' else fo' \<in> set (forward_outbox d)))"
  using assms
proof (induction rows arbitrary: y d w)
  case Nil
  then show ?case by auto
next
  case (Cons row rows)
  obtain z d1 w1 where z: "dispatch_row p post row (d, w) = (z, d1, w1)" by (metis prod_cases3)
  obtain status n ts err c where o: "z = Inr c" "d1 = apply_outcome (pw_id row) status n ts err d" "outcome_ok p row status n"
    using z Cons.prems(2) by (rule dispatch_row_undisturbed)
  let ?f = "\<lambda>r. r\<lparr>fo_status := status, fo_attempts := n, fo_last_attempt := ts, fo_last_error := err\<rparr>"
  have fo1: "forward_outbox d1 = update_where (\<lambda>r. fo_id r = pw_id row \<and> fo_status r = ''pending'') ?f (forward_outbox d)"
    unfolding o(2) apply_outcome_def by simp
  have ids: "map fo_id (forward_outbox d1) = map fo_id (forward_outbox d)" unfolding fo1 by (rule map_update_where_frame) simp
  have rest: "dispatch_rows p post rows (count_outcome c y) (d1, w1) = (res, d', w')" using Cons.prems(1) z o(1) by simp
  have old: "fo \<in> set (forward_outbox d)" if "fo \<in> set (forward_outbox d1)" "fo_id fo \<noteq> pw_id row" for fo
    using that unfolding fo1 by (auto simp: set_update_where)
  have new: "attempted p d fo" if "fo \<in> set (forward_outbox d1)" "fo_id fo = pw_id row" "fo_status fo = ''pending''" for fo
    using that o(3) Cons.prems(5) unfolding fo1 by (auto simp: set_update_where outcome_ok_def attempted_def)
  have "(\<exists>y'. res = Inr y') \<and> map fo_id (forward_outbox d') = map fo_id (forward_outbox d1)
    \<and> (\<forall>fo' \<in> set (forward_outbox d'). fo_status fo' = ''pending'' \<longrightarrow>
         (if fo_id fo' \<in> pw_id ` set rows then attempted p d1 fo' else fo' \<in> set (forward_outbox d1)))"
    using Cons.prems(2,3) rest
  proof (intro Cons.IH)
    show "distinct (map fo_id (forward_outbox d1))" using Cons.prems(4) ids by simp
    show "\<forall>r\<in>set rows. \<forall>fo\<in>set (forward_outbox d1). fo_id fo = pw_id r \<longrightarrow> fo_attempts fo = pw_attempts r"
      using Cons.prems(3,5) old by (metis distinct.simps(2) image_eqI list.set_map list.simps(9) list.set_intros(2))
  qed simp_all
  then have ok: "\<exists>y'. res = Inr y'" and ids': "map fo_id (forward_outbox d') = map fo_id (forward_outbox d1)"
    and ih: "\<And>fo'. fo' \<in> set (forward_outbox d') \<Longrightarrow> fo_status fo' = ''pending'' \<Longrightarrow>
         (if fo_id fo' \<in> pw_id ` set rows then attempted p d1 fo' else fo' \<in> set (forward_outbox d1))" by blast+
  have later: "attempted p d fo'" if "attempted p d1 fo'" "fo_id fo' \<noteq> pw_id row" for fo'
    using that old unfolding attempted_def by metis
  have fresh: "pw_id row \<notin> pw_id ` set rows" using Cons.prems(3) by simp
  have "if fo_id fo' \<in> pw_id ` set (row # rows) then attempted p d fo' else fo' \<in> set (forward_outbox d)"
    if f: "fo' \<in> set (forward_outbox d')" "fo_status fo' = ''pending''" for fo'
  proof (cases "fo_id fo' = pw_id row")
    case True
    then show ?thesis using ih [OF f] new f(2) fresh by simp
  next
    case False
    then show ?thesis using ih [OF f] later old by auto
  qed
  then show ?case using ok ids' ids by simp
qed

lemma select_pending_all:
  assumes "length (forward_outbox d) \<le> n" "distinct (map fo_id (forward_outbox d))"
  shows "distinct (map pw_id (select_pending jsonb n d))"
    "\<And>fo. fo \<in> set (forward_outbox d) \<Longrightarrow> fo_status fo = ''pending'' \<Longrightarrow> fo_id fo \<in> pw_id ` set (select_pending jsonb n d)"
    "\<forall>row \<in> set (select_pending jsonb n d). \<forall>fo \<in> set (forward_outbox d). fo_id fo = pw_id row \<longrightarrow> fo_attempts fo = pw_attempts row"
proof -
  let ?s = "sort_key (\<lambda>fo. (fo_created fo, fo_id fo)) (filter (\<lambda>fo. fo_status fo = ''pending'') (forward_outbox d))"
  have len: "length ?s \<le> n" using assms(1) length_filter_le [of "\<lambda>fo. fo_status fo = ''pending''" "forward_outbox d"]
    by (simp only: length_sort)
  have ids: "map pw_id (select_pending jsonb n d) = map fo_id ?s" using len by (simp add: select_pending_def comp_def)
  have "distinct ?s" using assms(2) by (simp add: distinct_map)
  moreover have inj: "inj_on fo_id (set (forward_outbox d))" using assms(2) by (simp add: distinct_map)
  ultimately show "distinct (map pw_id (select_pending jsonb n d))"
    unfolding ids by (auto simp: distinct_map intro: inj_on_subset)
  show "fo_id fo \<in> pw_id ` set (select_pending jsonb n d)" if "fo \<in> set (forward_outbox d)" "fo_status fo = ''pending''" for fo
  proof -
    have "fo_id fo \<in> set (map fo_id ?s)" using that by simp
    then show ?thesis unfolding ids [symmetric] by simp
  qed
  show "\<forall>row \<in> set (select_pending jsonb n d). \<forall>fo \<in> set (forward_outbox d). fo_id fo = pw_id row \<longrightarrow> fo_attempts fo = pw_attempts row"
    using inj len by (auto simp: select_pending_def inj_on_def)
qed

lemma dispatch_pending_settle:
  assumes "dispatch_pending p post (d, w) = (res, d', w')" "undisturbed p" "distinct (map fo_id (forward_outbox d))"
    and "length (forward_outbox d) \<le> dn_limit p"
  shows "\<exists>y. res = Inr y" "map fo_id (forward_outbox d') = map fo_id (forward_outbox d)"
    "\<And>fo'. fo' \<in> set (forward_outbox d') \<Longrightarrow> fo_status fo' = ''pending'' \<Longrightarrow> attempted p d fo'"
proof -
  note sp = select_pending_all [OF assms(4,3), where jsonb = "dn_jsonb p"]
  note s = dispatch_rows_settle [OF assms(1) [unfolded dispatch_pending_def Let_def fst_conv] assms(2) sp(1) assms(3) sp(3)]
  show "\<exists>y. res = Inr y" "map fo_id (forward_outbox d') = map fo_id (forward_outbox d)" using s by blast+
  show "attempted p d fo'" if f: "fo' \<in> set (forward_outbox d')" "fo_status fo' = ''pending''" for fo'
    using s f sp(2) by (metis (no_types, lifting))
qed

text \<open>Repeated drains; the receiver may behave differently each time.\<close>

fun drains :: "drain_params \<Rightarrow> (request \<Rightarrow> 'w \<Rightarrow> (string + int) \<times> 'w) list \<Rightarrow> orch_db \<times> 'w \<Rightarrow> orch_db \<times> 'w" where
  "drains p [] s = s"
| "drains p (post # posts) s = drains p posts (snd (dispatch_pending p post s))"

lemma drains_settle:
  assumes "undisturbed p" "distinct (map fo_id (forward_outbox d))" "length (forward_outbox d) \<le> dn_limit p"
    and "\<forall>fo \<in> set (forward_outbox d). fo_status fo = ''pending'' \<longrightarrow> dn_max_attempts p - int (length posts) \<le> fo_attempts fo"
    and "posts = [] \<longrightarrow> (\<forall>fo \<in> set (forward_outbox d). fo_status fo = ''pending'' \<longrightarrow> fo_attempts fo < dn_max_attempts p)"
  shows "\<forall>fo \<in> set (forward_outbox (fst (drains p posts (d, w)))). fo_status fo \<noteq> ''pending''"
  using assms
proof (induction posts arbitrary: d w)
  case Nil
  then show ?case by force
next
  case (Cons post posts)
  obtain res d1 w1 where z: "dispatch_pending p post (d, w) = (res, d1, w1)" by (metis prod_cases3)
  note st = dispatch_pending_settle [OF z Cons.prems(1-3)]
  have len: "length (forward_outbox d1) = length (forward_outbox d)" using st(2) by (metis length_map)
  have a: "dn_max_attempts p - int (length posts) \<le> fo_attempts fo \<and> fo_attempts fo < dn_max_attempts p"
    if f: "fo \<in> set (forward_outbox d1)" "fo_status fo = ''pending''" for fo
  proof -
    from st(3) [OF f] obtain q where "q \<in> set (forward_outbox d)" "fo_status q = ''pending''" "fo_attempts fo = fo_attempts q + 1"
      "fo_attempts fo < dn_max_attempts p" by (auto simp: attempted_def)
    with Cons.prems(4) show ?thesis by fastforce
  qed
  have "\<forall>fo \<in> set (forward_outbox (fst (drains p posts (d1, w1)))). fo_status fo \<noteq> ''pending''"
    by (rule Cons.IH) (use Cons.prems(1-3) st(2) len a in auto)
  then show ?case using z by simp
qed

section \<open>Clock skew\<close>

text \<open>A sender whose clock is further from Delta's than the tolerance is refused with 401, which the drain takes for a
  permanent rejection.\<close>

lemma skewed_post:
  assumes "sign_delta (x_mac x) env body attempt clock = Inr h" "dispatch_secret env = Inr (is_secret (as_ingest app))"
    and "\<And>m. is_ascii (x_mac x (is_secret (as_ingest app)) m)" "0 \<le> clock" "clock < 10 ^ 19"
    and "\<bar>sv_clock (senv (delta_request body h)) - clock div us_per_second * us_per_second\<bar> > HMAC_TOLERANCE_SECONDS * us_per_second"
  shows "post_to_delta x app senv (\<lambda>_. Answered) (delta_request body h) w = (Inr 401, w)"
proof -
  have "rq_body (delta_request body h) = body" by (simp add: delta_request_def)
  then have "verify_signature (x_mac x) (is_secret (as_ingest app)) (rq_timestamp (delta_request body h))
      (rq_signature (delta_request body h)) (rq_body (delta_request body h)) (sv_clock (senv (delta_request body h))) = Inr False"
    using dispatched_verify [OF assms(1,2,3,4,5), of "sv_clock (senv (delta_request body h))"] assms(6) by simp
  then show ?thesis by (simp add: post_to_delta_def serve_usage_def ingest_usage_def failsafe_def)
qed

lemma dec_int_401: "dec_int 401 = ''401''"
  by code_simp

lemma skewed_rows:
  assumes "dispatch_rows p (post_to_delta x app senv (\<lambda>_. Answered)) rows y (d, w) = (res, d', w')" "undisturbed p"
    and "dn_mac p = x_mac x" "dispatch_secret (dn_env p) = Inr (is_secret (as_ingest app))"
    and "\<And>m. is_ascii (x_mac x (is_secret (as_ingest app)) m)" "0 \<le> dn_clock p" "dn_clock p < 10 ^ 19"
    and "\<And>rq. \<bar>sv_clock (senv rq) - dn_clock p div us_per_second * us_per_second\<bar> > HMAC_TOLERANCE_SECONDS * us_per_second"
    and "distinct (map pw_id rows)"
  shows "w' = w" "\<And>fo. fo \<in> set (forward_outbox d) \<Longrightarrow> fo_status fo = ''pending'' \<Longrightarrow>
      (\<exists>row \<in> set rows. pw_id row = fo_id fo \<and> (\<exists>payload. pw_event row = Some (''usage'', payload))) \<Longrightarrow>
      \<exists>fo' \<in> set (forward_outbox d'). fo_id fo' = fo_id fo \<and> fo_key fo' = fo_key fo \<and> fo_status fo' = ''failed'' \<and> fo_last_error fo' = Some ''delta 401''"
proof -
  let ?post = "post_to_delta x app senv (\<lambda>_. Answered)"
  let ?lost = "\<lambda>rows d d'. \<forall>fo \<in> set (forward_outbox d). fo_status fo = ''pending'' \<longrightarrow>
      (\<exists>row \<in> set rows. pw_id row = fo_id fo \<and> (\<exists>payload. pw_event row = Some (''usage'', payload))) \<longrightarrow>
      (\<exists>fo' \<in> set (forward_outbox d'). fo_id fo' = fo_id fo \<and> fo_key fo' = fo_key fo \<and> fo_status fo' = ''failed'' \<and> fo_last_error fo' = Some ''delta 401'')"
  have keep: "r \<in> set (forward_outbox d') " if "dispatch_rows p ?post rows y (d, w) = (res, d', w')" "r \<in> set (forward_outbox d)"
    "fo_status r \<noteq> ''pending'' \<or> fo_id r \<notin> pw_id ` set rows" for rows y d w r
    using that
  proof (induction rows arbitrary: y d w)
    case (Cons row rows)
    obtain z d1 w1 where z: "dispatch_row p ?post row (d, w) = (z, d1, w1)" by (metis prod_cases3)
    have "alone p" using assms(2) by (simp add: undisturbed_def)
    from touches_row_frame(5) [OF dispatch_row_touches [OF z this]] Cons.prems(2,3) have "r \<in> set (forward_outbox d1)" by auto
    then show ?case using Cons z by (cases z) auto
  qed simp
  have "w' = w \<and> ?lost rows d d'" using assms(1,9)
  proof (induction rows arbitrary: y d)
    case (Cons row rows)
    obtain z d1 w1 where z: "dispatch_row p ?post row (d, w) = (z, d1, w1)" by (metis prod_cases3)
    obtain c where c: "z = Inr c" using z assms(2) by (rule dispatch_row_undisturbed) blast
    have rest: "dispatch_rows p ?post rows (count_outcome c y) (d1, w1) = (res, d', w')" using Cons.prems(1) z c by simp
    have usage: "w1 = w \<and> d1 = apply_outcome (pw_id row) ''failed'' (pw_attempts row) (Some (dn_now p)) (Some ''delta 401'') d"
      if "pw_event row = Some (''usage'', payload)" for payload
    proof -
      let ?b = "json_dumps False payload"
      obtain h where h: "sign_delta (dn_mac p) (dn_env p) ?b (pw_attempts row + 1) (dn_clock p) = Inr h"
        using assms(4) by (simp add: sign_delta_def Let_def)
      have "?post (delta_request ?b h) w = (Inr 401, w)"
        using skewed_post [OF h [unfolded assms(3)] assms(4,5,6,7)] assms(8) by blast
      then show ?thesis
        using z that h assms(2) by (auto simp: dispatch_row_def Let_def record_then_def apply_row_def run_txn_def undisturbed_def alone_def
            dec_int_401)
    qed
    have w1: "w1 = w"
      using z usage by (cases "\<exists>payload. pw_event row = Some (''usage'', payload)")
        (auto simp: dispatch_row_def Let_def split: option.splits prod.splits if_splits)
    have ih: "w' = w \<and> ?lost rows d1 d'" using Cons.IH [OF rest [unfolded w1]] Cons.prems(2) by simp
    have "alone p" using assms(2) by (simp add: undisturbed_def)
    note fr = touches_row_frame(5) [OF dispatch_row_touches [OF z this]]
    have "\<exists>fo' \<in> set (forward_outbox d'). fo_id fo' = fo_id fo \<and> fo_key fo' = fo_key fo \<and> fo_status fo' = ''failed'' \<and> fo_last_error fo' = Some ''delta 401''"
      if f: "fo \<in> set (forward_outbox d)" "fo_status fo = ''pending''" "row' \<in> set (row # rows)" "pw_id row' = fo_id fo"
        "pw_event row' = Some (''usage'', payload)" for fo row' payload
    proof (cases "row' = row")
      case True
      let ?g = "fo\<lparr>fo_status := ''failed'', fo_attempts := pw_attempts row, fo_last_attempt := Some (dn_now p), fo_last_error := Some ''delta 401''\<rparr>"
      have "?g \<in> set (forward_outbox d1)"
        using usage f True by (auto simp: apply_outcome_def set_update_where)
      then have "?g \<in> set (forward_outbox d')" using keep [OF rest] by simp
      then show ?thesis by (intro bexI [of _ ?g]) simp_all
    next
      case False
      then have r: "row' \<in> set rows" using f(3) by simp
      then have "fo_id fo \<noteq> pw_id row" using f(4) Cons.prems(2) by (metis distinct.simps(2) image_eqI list.set_map list.simps(9))
      then have "fo \<in> set (forward_outbox d1)" using fr f(1) by blast
      then show ?thesis using ih f r by blast
    qed
    then show ?case using ih by blast
  qed auto
  then show "w' = w" "\<And>fo. fo \<in> set (forward_outbox d) \<Longrightarrow> fo_status fo = ''pending'' \<Longrightarrow>
      (\<exists>row \<in> set rows. pw_id row = fo_id fo \<and> (\<exists>payload. pw_event row = Some (''usage'', payload))) \<Longrightarrow>
      \<exists>fo' \<in> set (forward_outbox d'). fo_id fo' = fo_id fo \<and> fo_key fo' = fo_key fo \<and> fo_status fo' = ''failed'' \<and> fo_last_error fo' = Some ''delta 401''"
    by blast+
qed

end
