(* ===== verification/Orch_Http.thy ===== *)
theory Orch_Http
  imports Orch_Ingest
begin

text \<open>
  What the Orchestrator's routers share: responses, the application's catch-all handler, reading
  a JSON body, bearer tokens (\<open>orchestrator.security\<close> and the operator and peer checks of the
  routers), and the readers of environment variables in \<open>orchestrator.config\<close>. A response is its
  status and its JSON body; the free-text message and the server-generated request id of an error
  are left out.
\<close>

section \<open>Responses\<close>

record http_response =
  hr_status :: int
  hr_body :: "(string \<times> json) list"

definition http_error :: "int \<Rightarrow> string \<Rightarrow> http_response" where
  "http_error status code = \<lparr>hr_status = status, hr_body = [(''error'', JObj [(''code'', JStr code)])]\<rparr>"

definition http_ok :: "int \<Rightarrow> (string \<times> json) list \<Rightarrow> http_response" where
  "http_ok status body = \<lparr>hr_status = status, hr_body = body\<rparr>"

lemma http_status [simp]: "hr_status (http_error s c) = s" "hr_status (http_ok s b) = s" "hr_body (http_ok s b) = b"
  by (simp_all add: http_error_def http_ok_def)

text \<open>An unhandled exception is answered with 503; what was committed stays.\<close>

definition fail_safe :: "(py_exc + http_response) \<times> 's \<Rightarrow> http_response \<times> 's" where
  "fail_safe r = (case r of (Inl e, s) \<Rightarrow> (http_error 503 ''service_unavailable'', s) | (Inr resp, s) \<Rightarrow> (resp, s))"

section \<open>Bodies\<close>

text \<open>\<open>_parse_body\<close>: a JSON object without NUL characters. (A body nested too deeply for the decoder counts as
  undecodable.)\<close>

definition parse_body :: "(string \<Rightarrow> json option) \<Rightarrow> string \<Rightarrow> http_response + (string \<times> json) list" where
  "parse_body loads raw =
     (case loads raw of
        Some (JObj kvs) \<Rightarrow> if contains_nul (JObj kvs) then Inl (http_error 422 ''schema_invalid'') else Inr kvs
      | _ \<Rightarrow> Inl (http_error 422 ''schema_invalid''))"

definition only_keys :: "string list \<Rightarrow> (string \<times> json) list \<Rightarrow> bool" where
  "only_keys ks body \<longleftrightarrow> list_all (\<lambda>kv. fst kv \<in> set ks) body"

definition has_keys :: "string list \<Rightarrow> (string \<times> json) list \<Rightarrow> bool" where
  "has_keys ks body \<longleftrightarrow> list_all (\<lambda>k. jhas k body) ks"

text \<open>A non-empty string of bounded length.\<close>

fun text_field :: "nat \<Rightarrow> json \<Rightarrow> bool" where
  "text_field n (JStr s) = (s \<noteq> [] \<and> length s \<le> n)"
| "text_field n _ = False"

lemma text_field_iff: "text_field n v \<longleftrightarrow> (\<exists>s. v = JStr s \<and> s \<noteq> [] \<and> length s \<le> n)"
  by (cases v) auto

fun nonempty_text :: "json \<Rightarrow> bool" where
  "nonempty_text (JStr s) = (s \<noteq> [])"
| "nonempty_text _ = False"

section \<open>Tokens\<close>

definition BEARER_PREFIX :: string where "BEARER_PREFIX = ''Bearer ''"

text \<open>\<open>hmac.compare_digest\<close> on strings raises unless both are ASCII.\<close>

definition compare_digest :: "string \<Rightarrow> string \<Rightarrow> py_exc + bool" where
  "compare_digest a b = (if \<not> is_ascii a \<or> \<not> is_ascii b then Inl TypeError else Inr (a = b))"

definition require_bearer :: "string option \<Rightarrow> string option \<Rightarrow> py_exc + http_response option" where
  "require_bearer expected authorization =
     (let header = (case authorization of None \<Rightarrow> [] | Some h \<Rightarrow> h); presented = drop (length BEARER_PREFIX) header in
      if \<not> prefix BEARER_PREFIX header then Inr (Some (http_error 401 ''unauthorized''))
      else if presented = [] then Inr (Some (http_error 401 ''unauthorized''))
      else case expected of
        None \<Rightarrow> Inr (Some (http_error 401 ''unauthorized''))
      | Some token \<Rightarrow> bindR (compare_digest presented token) (\<lambda>same.
          Inr (if same then None else Some (http_error 403 ''forbidden''))))"

record query_token =
  qt_tenant :: ident
  qt_hash :: string
  qt_enabled :: bool

definition resolve_principal_tenant :: "query_token list \<Rightarrow> string \<Rightarrow> ident option" where
  "resolve_principal_tenant tokens h = map_option qt_tenant (List.find (\<lambda>t. qt_hash t = h \<and> qt_enabled t) tokens)"

text \<open>\<open>None\<close> is \<open>PrincipalAuthError\<close>, which the application answers with 401.\<close>

definition require_tenant_principal :: "(string \<Rightarrow> string) \<Rightarrow> query_token list \<Rightarrow> string option \<Rightarrow> ident option" where
  "require_tenant_principal sha tokens authorization =
     (case authorization of
        None \<Rightarrow> None
      | Some h \<Rightarrow>
          (let presented = drop (length BEARER_PREFIX) h in
           if h = [] \<or> \<not> prefix BEARER_PREFIX h then None
           else if presented = [] then None
           else resolve_principal_tenant tokens (sha presented)))"

text \<open>A route that depends on a tenant principal.\<close>

definition with_principal ::
  "(string \<Rightarrow> string) \<Rightarrow> query_token list \<Rightarrow> string option \<Rightarrow> (ident \<Rightarrow> 's \<Rightarrow> (py_exc + http_response) \<times> 's) \<Rightarrow> 's \<Rightarrow> http_response \<times> 's" where
  "with_principal sha tokens authorization handler s =
     (case require_tenant_principal sha tokens authorization of
        None \<Rightarrow> (http_error 401 ''unauthorized'', s)
      | Some caller \<Rightarrow> fail_safe (handler caller s))"

text \<open>\<open>_resolve_source\<close> of the relay, identity and safety seams: every configured token is compared, the last
  match counts.\<close>

fun match_source :: "string \<Rightarrow> (string \<times> string) list \<Rightarrow> string option \<Rightarrow> py_exc + string option" where
  "match_source presented [] matched = Inr matched"
| "match_source presented ((product, token) # tokens) matched =
     bindR (compare_digest presented token) (\<lambda>same. match_source presented tokens (if same then Some product else matched))"

definition resolve_source :: "(string \<times> string) list \<Rightarrow> string option \<Rightarrow> py_exc + string option" where
  "resolve_source tokens authorization =
     (let header = (case authorization of None \<Rightarrow> [] | Some h \<Rightarrow> h); presented = drop (length BEARER_PREFIX) header in
      if \<not> prefix BEARER_PREFIX header then Inr None
      else if presented = [] then Inr None
      else match_source presented tokens None)"

section \<open>Environment variables\<close>

definition env_text :: "environ \<Rightarrow> string \<Rightarrow> string" where
  "env_text env name = (case env name of None \<Rightarrow> [] | Some s \<Rightarrow> s)"

definition optional_token :: "environ \<Rightarrow> string \<Rightarrow> string option" where
  "optional_token env name = (let raw = env_text env name in if raw = [] then None else Some raw)"

definition env_int :: "environ \<Rightarrow> string \<Rightarrow> int \<Rightarrow> int \<Rightarrow> py_exc + int" where
  "env_int env name dflt minimum =
     (let raw = strip (env_text env name) in
      if raw = [] then Inr dflt
      else case parse_int raw of None \<Rightarrow> Inl RuntimeError | Some v \<Rightarrow> if v < minimum then Inl RuntimeError else Inr v)"

definition env_bool :: "environ \<Rightarrow> string \<Rightarrow> bool" where
  "env_bool env name \<longleftrightarrow> map to_lower (strip (env_text env name)) \<in> {''1'', ''true'', ''on'', ''yes''}"

lemma env_int_bound: "env_int env name dflt minimum = Inr v \<Longrightarrow> minimum \<le> dflt \<Longrightarrow> minimum \<le> v"
  by (auto simp: env_int_def Let_def split: if_splits option.splits)

end
