(* ===== verification/Orch_Messaging.thy ===== *)
theory Orch_Messaging
  imports Orch_Http
begin

text \<open>
  The agent mailbox and the shared state store (\<open>orchestrator.messaging\<close> and its functions of
  \<open>persistence.repositories\<close>): sending with deduplication and a per-tenant cap, polling an inbox
  page by page, and compare-and-swap writes of versioned keys. The size of a serialized body is
  the parameter \<open>dsize\<close>. The advisory lock of the cap is held until the commit, so sends of one
  tenant commit in the order of their sequence numbers.
\<close>

section \<open>Settings\<close>

record messaging_settings =
  ms_max_body :: int
  ms_max_value :: int
  ms_max_page :: int
  ms_max_messages :: int
  ms_max_keys :: int

definition get_messaging_settings :: "environ \<Rightarrow> py_exc + messaging_settings" where
  "get_messaging_settings env =
     bindR (env_int env ''ORCH_MESSAGING_MAX_BODY_BYTES'' 16384 1) (\<lambda>a.
     bindR (env_int env ''ORCH_MESSAGING_MAX_STATE_VALUE_BYTES'' 16384 1) (\<lambda>b.
     bindR (env_int env ''ORCH_MESSAGING_MAX_INBOX_PAGE_SIZE'' 200 1) (\<lambda>c.
     bindR (env_int env ''ORCH_MESSAGING_MAX_MESSAGES_PER_TENANT'' 100000 1) (\<lambda>m.
     bindR (env_int env ''ORCH_MESSAGING_MAX_STATE_KEYS_PER_TENANT'' 10000 1) (\<lambda>k.
     Inr \<lparr>ms_max_body = a, ms_max_value = b, ms_max_page = c, ms_max_messages = m, ms_max_keys = k\<rparr>)))))"

section \<open>The mailbox tables\<close>

definition find_message :: "ident \<Rightarrow> string \<Rightarrow> orch_db \<Rightarrow> agent_message option" where
  "find_message sess key d = List.find (\<lambda>m. am_tenant m = sess \<and> am_key m = key) (agent_messages d)"

definition count_agent_messages :: "ident \<Rightarrow> orch_db \<Rightarrow> int" where
  "count_agent_messages sess d = int (length (filter (\<lambda>m. am_tenant m = sess) (agent_messages d)))"

definition insert_agent_message :: "ident \<Rightarrow> agent_message \<Rightarrow> orch_db \<Rightarrow> py_exc + agent_message \<times> orch_db" where
  "insert_agent_message sess m d =
     (let r = m\<lparr>am_seq := next_serial am_seq (agent_messages d)\<rparr> in
      bindR (guardR (jsonb_ok (am_body m) \<and> varchar_ok 64 (am_tenant m) \<and> varchar_ok 64 (am_type m) \<and> varchar_ok 128 (am_key m)
        \<and> (case (am_sender m, am_recipient m) of ((a, b, c), (a', b', c')) \<Rightarrow> list_all (varchar_ok 64) [a, b, c, a', b', c']))
        DataError) (\<lambda>_.
      bindR (rls_check sess (am_tenant m)) (\<lambda>_.
      bindR (guardR (is_object (am_body m)) IntegrityError) (\<lambda>_.
      bindR (insert_unique IntegrityError (\<lambda>x. (am_tenant x, am_key x)) r (agent_messages d)) (\<lambda>rows.
      Inr (r, d\<lparr>agent_messages := rows\<rparr>))))))"

definition list_inbox_messages ::
  "ident \<Rightarrow> ident \<times> ident \<times> ident \<Rightarrow> int option \<Rightarrow> nat \<Rightarrow> orch_db \<Rightarrow> agent_message list \<times> int option" where
  "list_inbox_messages sess recipient since limit d =
     (let matching = filter (\<lambda>m. am_tenant m = sess \<and> am_recipient m = recipient
            \<and> (\<forall>s \<in> set_option since. s < am_seq m)) (agent_messages d);
          rows = take (limit + 1) (sort_key am_seq matching) in
      if length rows > limit then (take limit rows, Some (am_seq (rows ! (limit - 1)))) else (rows, None))"

section \<open>Sending\<close>

definition SEND_IDS :: "string list" where
  "SEND_IDS = [''sender_team_id'', ''sender_project_id'', ''sender_agent_id'', ''recipient_team_id'', ''recipient_project_id'',
     ''recipient_agent_id'']"

definition SEND_KEYS :: "string list" where
  "SEND_KEYS = SEND_IDS @ [''message_type'', ''body'', ''idempotency_key'']"

definition validate_send_body :: "(json \<Rightarrow> int) \<Rightarrow> messaging_settings \<Rightarrow> (string \<times> json) list \<Rightarrow> string option" where
  "validate_send_body dsize st body =
     (if \<not> only_keys SEND_KEYS body then Some ''schema_invalid''
      else if \<not> has_keys SEND_KEYS body then Some ''schema_invalid''
      else if \<not> list_all (\<lambda>f. text_field 64 (jget f body)) SEND_IDS then Some ''schema_invalid''
      else if \<not> text_field 64 (jget ''message_type'' body) then Some ''schema_invalid''
      else if \<not> text_field 128 (jget ''idempotency_key'' body) then Some ''schema_invalid''
      else if \<not> is_object (jget ''body'' body) then Some ''schema_invalid''
      else if dsize (jget ''body'' body) > ms_max_body st then Some ''body_too_large''
      else None)"

record messaging_env =
  mg_read :: "py_exc option"
  mg_race :: "orch_db \<Rightarrow> orch_db"
  mg_write :: txn_fault
  mg_now :: instant
  mg_race2 :: "orch_db \<Rightarrow> orch_db"
  mg_reread :: "py_exc option"
  mg_audit :: txn_fault

definition message_row :: "ident \<Rightarrow> (string \<times> json) list \<Rightarrow> instant \<Rightarrow> agent_message" where
  "message_row caller body now =
     \<lparr>am_seq = 0, am_tenant = caller,
      am_sender = (jstring (jget ''sender_team_id'' body), jstring (jget ''sender_project_id'' body),
                   jstring (jget ''sender_agent_id'' body)),
      am_recipient = (jstring (jget ''recipient_team_id'' body), jstring (jget ''recipient_project_id'' body),
                      jstring (jget ''recipient_agent_id'' body)),
      am_type = jstring (jget ''message_type'' body), am_body = jget ''body'' body,
      am_key = jstring (jget ''idempotency_key'' body), am_created = now\<rparr>"

text \<open>The tenant part of a send: the stored row and its disposition, or the 422 of the cap.\<close>

definition store_message ::
  "messaging_settings \<Rightarrow> messaging_env \<Rightarrow> ident \<Rightarrow> agent_message \<Rightarrow> orch_db
     \<Rightarrow> (py_exc + http_response + agent_message \<times> string) \<times> orch_db" where
  "store_message st env caller m d =
     (case tenant_session caller of Inl e \<Rightarrow> (Inl e, d) | Inr _ \<Rightarrow>
      case mg_read env of Some e \<Rightarrow> (Inl e, d) | None \<Rightarrow>
      case find_message caller (am_key m) d of
        Some old \<Rightarrow> (Inr (Inr (old, ''deduped'')), d)
      | None \<Rightarrow>
          (let d1 = mg_race env d in
           if count_agent_messages caller d1 \<ge> ms_max_messages st
           then (Inr (Inl (http_error 422 ''message_limit_exceeded'')), d1)
           else case run_txn (mg_write env) (insert_agent_message caller m) d1 of
             (Inr r, d2) \<Rightarrow> (Inr (Inr (r, ''sent'')), d2)
           | (Inl e, d2) \<Rightarrow>
               if e \<noteq> IntegrityError then (Inl e, d2)
               else (case mg_reread env of
                       Some e' \<Rightarrow> (Inl e', d2)
                     | None \<Rightarrow> (case find_message caller (am_key m) d2 of
                         Some old \<Rightarrow> (Inr (Inr (old, ''deduped'')), d2)
                       | None \<Rightarrow> (Inl RuntimeError, d2)))))"

definition append_messaging ::
  "orch_ext \<Rightarrow> agent_message \<Rightarrow> string \<Rightarrow> orch_db \<Rightarrow> py_exc + unit \<times> orch_db" where
  "append_messaging x m disposition d =
     bindR (append_messaging_audit_link (xo_sha x) (am_tenant m) (snd (snd (am_sender m))) (snd (snd (am_recipient m)))
       (am_type m) (am_key m) disposition (agent_messaging_audit_log (chains d))) (\<lambda>(_, rows).
     Inr ((), d\<lparr>chains := (chains d)\<lparr>agent_messaging_audit_log := rows\<rparr>\<rparr>))"

definition send_message ::
  "orch_ext \<Rightarrow> (json \<Rightarrow> int) \<Rightarrow> messaging_settings \<Rightarrow> messaging_env \<Rightarrow> ident \<Rightarrow> string \<Rightarrow> orch_db \<Rightarrow> (py_exc + http_response) \<times> orch_db" where
  "send_message x dsize st env caller raw d =
     (case parse_body (xo_loads x) raw of
        Inl resp \<Rightarrow> (Inr resp, d)
      | Inr body \<Rightarrow>
          (case validate_send_body dsize st body of
             Some code \<Rightarrow> (Inr (http_error 422 code), d)
           | None \<Rightarrow>
               (let m = message_row caller body (mg_now env) in
                case store_message st env caller m d of
                  (Inl e, d1) \<Rightarrow> (Inl e, d1)
                | (Inr (Inl resp), d1) \<Rightarrow> (Inr resp, d1)
                | (Inr (Inr (r, disposition)), d1) \<Rightarrow>
                    (case run_txn (mg_audit env) (append_messaging x m disposition) (mg_race2 env d1) of
                       (Inl e, d2) \<Rightarrow> (Inl e, d2)
                     | (Inr _, d2) \<Rightarrow>
                         (Inr (http_ok 202 [(''sequence_number'', JInt (am_seq r)), (''created_at'', JStr (isoformat (am_created r))),
                                            (''disposition'', JStr disposition)]), d2)))))"

section \<open>Polling\<close>

definition message_body :: "agent_message \<Rightarrow> json" where
  "message_body m = (case (am_sender m, am_recipient m) of ((st, sp, sa), (rt, rp, ra)) \<Rightarrow>
     JObj [(''sequence_number'', JInt (am_seq m)), (''tenant_id'', JStr (am_tenant m)), (''sender_team_id'', JStr st),
       (''sender_project_id'', JStr sp), (''sender_agent_id'', JStr sa), (''recipient_team_id'', JStr rt),
       (''recipient_project_id'', JStr rp), (''recipient_agent_id'', JStr ra), (''message_type'', JStr (am_type m)),
       (''body'', am_body m), (''idempotency_key'', JStr (am_key m)), (''created_at'', JStr (isoformat (am_created m)))])"

definition inbox_limit :: "messaging_settings \<Rightarrow> int option \<Rightarrow> int" where
  "inbox_limit st limit =
     (let ceiling = ms_max_page st in
      case limit of None \<Rightarrow> min 50 ceiling | Some l \<Rightarrow> if l < 1 then 1 else if l > ceiling then ceiling else l)"

text \<open>The framework answers 422 for a path segment over 64 characters or a negative \<open>since_sequence\<close>.\<close>

definition get_inbox ::
  "messaging_settings \<Rightarrow> messaging_env \<Rightarrow> ident \<Rightarrow> ident \<times> ident \<times> ident \<Rightarrow> int option \<Rightarrow> int option \<Rightarrow> orch_db
     \<Rightarrow> (py_exc + http_response) \<times> orch_db" where
  "get_inbox st env caller recipient since limit d =
     (case recipient of (team, project, agent) \<Rightarrow>
      if \<not> list_all (\<lambda>s. length s \<le> 64) [team, project, agent] then (Inr (http_error 422 ''validation_error''), d)
      else if \<exists>s \<in> set_option since. s < 0 then (Inr (http_error 422 ''validation_error''), d)
      else if \<exists>s \<in> set_option since. \<not> (- (2 ^ 63) \<le> s \<and> s \<le> 2 ^ 63 - 1) then (Inr (http_error 422 ''schema_invalid''), d)
      else case tenant_session caller of Inl e \<Rightarrow> (Inl e, d) | Inr _ \<Rightarrow>
      case mg_read env of Some e \<Rightarrow> (Inl e, d) | None \<Rightarrow>
      if \<not> list_all no_nul [team, project, agent] then (Inl DataError, d)
      else (let (rows, next) = list_inbox_messages caller recipient since (nat (inbox_limit st limit)) d in
        (Inr (http_ok 200 [(''data'', JArr (map message_body rows)),
                           (''next_since_sequence'', case next of None \<Rightarrow> JNull | Some n \<Rightarrow> JInt n)]), d)))"

section \<open>The state store\<close>

definition get_agent_state :: "ident \<Rightarrow> string \<Rightarrow> orch_db \<Rightarrow> state_row option" where
  "get_agent_state sess key d = List.find (\<lambda>r. st_tenant r = sess \<and> st_key r = key) (agent_state d)"

definition count_agent_state_keys :: "ident \<Rightarrow> orch_db \<Rightarrow> int" where
  "count_agent_state_keys sess d = int (length (filter (\<lambda>r. st_tenant r = sess) (agent_state d)))"

definition create_agent_state_if_absent ::
  "ident \<Rightarrow> ident \<Rightarrow> string \<Rightarrow> json \<Rightarrow> string option \<Rightarrow> instant \<Rightarrow> orch_db \<Rightarrow> py_exc + state_row option \<times> orch_db" where
  "create_agent_state_if_absent sess tenant_id key val by_agent now d =
     (let r = \<lparr>st_tenant = tenant_id, st_key = key, st_value = val, st_version = 1, st_updated_at = now, st_updated_by = by_agent\<rparr> in
      bindR (guardR (varchar_ok 64 tenant_id \<and> varchar_ok 256 key \<and> jsonb_ok val \<and> (\<forall>s \<in> set_option by_agent. varchar_ok 64 s))
        DataError) (\<lambda>_.
      bindR (rls_check sess tenant_id) (\<lambda>_.
      bindR (guardR (is_object val) IntegrityError) (\<lambda>_.
      case insert_nothing (\<lambda>q. (st_tenant q, st_key q)) r (agent_state d) of
        (False, _) \<Rightarrow> Inr (None, d)
      | (True, rows) \<Rightarrow> Inr (Some r, d\<lparr>agent_state := rows\<rparr>)))))"

definition update_agent_state_cas ::
  "ident \<Rightarrow> string \<Rightarrow> int \<Rightarrow> json \<Rightarrow> string option \<Rightarrow> instant \<Rightarrow> orch_db \<Rightarrow> py_exc + state_row option \<times> orch_db" where
  "update_agent_state_cas sess key expected val by_agent now d =
     (let hit = (\<lambda>r. st_tenant r = sess \<and> st_key r = key \<and> st_version r = expected);
          bump = (\<lambda>r. r\<lparr>st_value := val, st_version := st_version r + 1, st_updated_at := now, st_updated_by := by_agent\<rparr>) in
      bindR (guardR (\<bar>expected\<bar> < 2 ^ 63 \<and> no_nul key \<and> jsonb_ok val \<and> (\<forall>s \<in> set_option by_agent. varchar_ok 64 s)) DataError) (\<lambda>_.
      case List.find hit (agent_state d) of
        None \<Rightarrow> Inr (None, d)
      | Some r \<Rightarrow>
          bindR (guardR (is_object val) IntegrityError) (\<lambda>_.
          bindR (guardR (st_version r + 1 < 2 ^ 63) DataError) (\<lambda>_.
          Inr (Some (bump r), d\<lparr>agent_state := update_where hit bump (agent_state d)\<rparr>)))))"

definition validate_state_body :: "(json \<Rightarrow> int) \<Rightarrow> messaging_settings \<Rightarrow> (string \<times> json) list \<Rightarrow> string option" where
  "validate_state_body dsize st body =
     (if \<not> only_keys [''expected_version'', ''value'', ''updated_by_agent_id''] body then Some ''schema_invalid''
      else if \<not> has_keys [''expected_version'', ''value''] body then Some ''schema_invalid''
      else if (case jget ''expected_version'' body of JNull \<Rightarrow> False | JInt v \<Rightarrow> v < 1 | _ \<Rightarrow> True) then Some ''schema_invalid''
      else if \<not> is_object (jget ''value'' body) then Some ''schema_invalid''
      else if dsize (jget ''value'' body) > ms_max_value st then Some ''state_value_too_large''
      else if jget ''updated_by_agent_id'' body \<noteq> JNull \<and> \<not> text_field 64 (jget ''updated_by_agent_id'' body)
      then Some ''schema_invalid''
      else None)"

definition http_conflict :: "string \<Rightarrow> int option \<Rightarrow> http_response" where
  "http_conflict code version = \<lparr>hr_status = 409, hr_body = [(''error'', JObj [(''code'', JStr code)]),
     (''current_version'', case version of None \<Rightarrow> JNull | Some v \<Rightarrow> JInt v)]\<rparr>"

text \<open>The read-back of the current version after a lost race or a mismatch.\<close>

definition read_conflict ::
  "messaging_env \<Rightarrow> string \<Rightarrow> ident \<Rightarrow> string \<Rightarrow> orch_db \<Rightarrow> (py_exc + http_response + state_row \<times> string) \<times> orch_db" where
  "read_conflict env code caller key d =
     (case mg_reread env of
        Some e \<Rightarrow> (Inl e, d)
      | None \<Rightarrow> (Inr (Inl (http_conflict code (map_option st_version (get_agent_state caller key d)))), d))"

definition swap_state ::
  "messaging_settings \<Rightarrow> messaging_env \<Rightarrow> ident \<Rightarrow> string \<Rightarrow> int option \<Rightarrow> json \<Rightarrow> string option \<Rightarrow> orch_db
     \<Rightarrow> (py_exc + http_response + state_row \<times> string) \<times> orch_db" where
  "swap_state st env caller key expected val by_agent d =
     (case tenant_session caller of Inl e \<Rightarrow> (Inl e, d) | Inr _ \<Rightarrow>
      case mg_read env of Some e \<Rightarrow> (Inl e, d) | None \<Rightarrow>
      (case expected of
         None \<Rightarrow>
           (let d1 = mg_race env d in
            if \<not> no_nul key then (Inl DataError, d)
            else if get_agent_state caller key d = None \<and> count_agent_state_keys caller d1 \<ge> ms_max_keys st
            then (Inr (Inl (http_error 422 ''state_key_limit_exceeded'')), d1)
            else case run_txn (mg_write env) (create_agent_state_if_absent caller caller key val by_agent (mg_now env)) d1 of
              (Inl e, d2) \<Rightarrow> (Inl e, d2)
            | (Inr (Some r), d2) \<Rightarrow> (Inr (Inr (r, ''created'')), d2)
            | (Inr None, d2) \<Rightarrow> read_conflict env ''already_exists'' caller key d2)
       | Some v \<Rightarrow>
           (case run_txn (mg_write env) (update_agent_state_cas caller key v val by_agent (mg_now env)) (mg_race env d) of
              (Inl e, d2) \<Rightarrow> (Inl e, d2)
            | (Inr (Some r), d2) \<Rightarrow> (Inr (Inr (r, ''updated'')), d2)
            | (Inr None, d2) \<Rightarrow> read_conflict env ''version_conflict'' caller key d2)))"

definition append_state ::
  "orch_ext \<Rightarrow> ident \<Rightarrow> string \<Rightarrow> int \<Rightarrow> string \<Rightarrow> string option \<Rightarrow> orch_db \<Rightarrow> py_exc + unit \<times> orch_db" where
  "append_state x caller key version disposition by_agent d =
     bindR (append_state_audit_link (xo_sha x) caller key version disposition by_agent (agent_state_audit_log (chains d))) (\<lambda>(_, rows).
     Inr ((), d\<lparr>chains := (chains d)\<lparr>agent_state_audit_log := rows\<rparr>\<rparr>))"

definition write_state ::
  "orch_ext \<Rightarrow> (json \<Rightarrow> int) \<Rightarrow> messaging_settings \<Rightarrow> messaging_env \<Rightarrow> ident \<Rightarrow> string \<Rightarrow> string \<Rightarrow> orch_db
     \<Rightarrow> (py_exc + http_response) \<times> orch_db" where
  "write_state x dsize st env caller key raw d =
     (if length key > 256 then (Inr (http_error 422 ''schema_invalid''), d)
      else case parse_body (xo_loads x) raw of
        Inl resp \<Rightarrow> (Inr resp, d)
      | Inr body \<Rightarrow>
          (case validate_state_body dsize st body of
             Some code \<Rightarrow> (Inr (http_error 422 code), d)
           | None \<Rightarrow>
               (let expected = (case jget ''expected_version'' body of JInt v \<Rightarrow> Some v | _ \<Rightarrow> None);
                    by_agent = (case jget ''updated_by_agent_id'' body of JStr s \<Rightarrow> Some s | _ \<Rightarrow> None) in
                case swap_state st env caller key expected (jget ''value'' body) by_agent d of
                  (Inl e, d1) \<Rightarrow> (Inl e, d1)
                | (Inr (Inl resp), d1) \<Rightarrow> (Inr resp, d1)
                | (Inr (Inr (r, disposition)), d1) \<Rightarrow>
                    (case run_txn (mg_audit env) (append_state x caller key (st_version r) disposition by_agent) (mg_race2 env d1) of
                       (Inl e, d2) \<Rightarrow> (Inl e, d2)
                     | (Inr _, d2) \<Rightarrow>
                         (Inr (http_ok 200 [(''state_key'', JStr key), (''version'', JInt (st_version r)),
                                            (''updated_at'', JStr (isoformat (st_updated_at r)))]), d2)))))"

definition read_state :: "messaging_env \<Rightarrow> ident \<Rightarrow> string \<Rightarrow> orch_db \<Rightarrow> (py_exc + http_response) \<times> orch_db" where
  "read_state env caller key d =
     (if length key > 256 then (Inr (http_error 422 ''schema_invalid''), d)
      else case tenant_session caller of Inl e \<Rightarrow> (Inl e, d) | Inr _ \<Rightarrow>
      case mg_read env of Some e \<Rightarrow> (Inl e, d) | None \<Rightarrow>
      if \<not> no_nul key then (Inl DataError, d)
      else case get_agent_state caller key d of
        None \<Rightarrow> (Inr (http_error 404 ''not_found''), d)
      | Some r \<Rightarrow> (Inr (http_ok 200 [(''state_key'', JStr (st_key r)), (''value'', st_value r), (''version'', JInt (st_version r)),
                                       (''updated_at'', JStr (isoformat (st_updated_at r)))]), d))"

end
