(* ===== verification/Orch_Messaging_Facts.thy ===== *)
theory Orch_Messaging_Facts
  imports Orch_Messaging
begin

text \<open>
  The mailbox keeps its messages in sequence order, one per tenant and key, never more than the cap;
  a client that polls with the last sequence number it saw receives every message of its inbox once
  and in order, whatever is sent in between. The state store implements a register of versioned
  values: a write takes effect at one point, exactly when its expected version is the current one.
\<close>

section \<open>The mailbox\<close>

definition mail_ok :: "int \<Rightarrow> orch_db \<Rightarrow> bool" where
  "mail_ok cap d \<longleftrightarrow> sorted_wrt (<) (map am_seq (agent_messages d)) \<and> distinct (map (\<lambda>m. (am_tenant m, am_key m)) (agent_messages d))
     \<and> (\<forall>t. count_agent_messages t d \<le> cap)"

text \<open>Messages are only added at the end.\<close>

definition mail_grows :: "orch_db \<Rightarrow> orch_db \<Rightarrow> bool" where
  "mail_grows d d' \<longleftrightarrow> prefix (agent_messages d) (agent_messages d')"

lemma insert_agent_message_Inr:
  assumes "insert_agent_message sess m d = Inr (r, d')"
  shows "r = m\<lparr>am_seq := next_serial am_seq (agent_messages d)\<rparr>" "d' = d\<lparr>agent_messages := agent_messages d @ [r]\<rparr>"
    "am_tenant m = sess" "(am_tenant m, am_key m) \<notin> (\<lambda>x. (am_tenant x, am_key x)) ` set (agent_messages d)"
  using assms by (auto simp: insert_agent_message_def Let_def bindR_eq_Inr table_simps)

lemma insert_agent_message_ok:
  assumes "insert_agent_message sess m d = Inr (r, d')" "mail_ok cap d" "count_agent_messages sess d < cap"
  shows "mail_ok cap d'" "mail_grows d d'"
proof -
  note i = insert_agent_message_Inr [OF assms(1)]
  have "sorted_wrt (<) (map am_seq (agent_messages d'))"
    using assms(2) by (auto simp: i(1,2) mail_ok_def sorted_wrt_append next_serial_greater)
  moreover have "distinct (map (\<lambda>m. (am_tenant m, am_key m)) (agent_messages d'))"
    using assms(2) i(4) by (simp add: i(1,2) mail_ok_def)
  moreover have "count_agent_messages t d' \<le> cap" for t
    using assms(2,3) i(3) by (auto simp: i(1,2) mail_ok_def count_agent_messages_def)
  ultimately show "mail_ok cap d'" by (simp add: mail_ok_def)
  show "mail_grows d d'" by (simp add: i(2) mail_grows_def)
qed

text \<open>What other requests do while a send waits.\<close>

definition mail_calm :: "(string \<Rightarrow> string) \<Rightarrow> int \<Rightarrow> messaging_env \<Rightarrow> bool" where
  "mail_calm sha cap env \<longleftrightarrow> (\<forall>f \<in> {mg_race env, mg_race2 env}. \<forall>d. mail_grows d (f d)
     \<and> (mail_ok cap d \<longrightarrow> mail_ok cap (f d)) \<and> (chains_ok sha (chains d) \<longrightarrow> chains_ok sha (chains (f d))))"

lemma mail_grows_trans: "mail_grows a b \<Longrightarrow> mail_grows b c \<Longrightarrow> mail_grows a c"
  unfolding mail_grows_def by (rule prefix_order.trans)

lemma mail_calmD:
  assumes "mail_calm sha cap env"
  shows "mail_grows d (mg_race env d)" "mail_grows d (mg_race2 env d)"
    "mail_ok cap d \<Longrightarrow> mail_ok cap (mg_race env d)" "mail_ok cap d \<Longrightarrow> mail_ok cap (mg_race2 env d)"
    "chains_ok sha (chains d) \<Longrightarrow> chains_ok sha (chains (mg_race env d))"
    "chains_ok sha (chains d) \<Longrightarrow> chains_ok sha (chains (mg_race2 env d))"
  using assms by (auto simp: mail_calm_def)

definition mail_step :: "(string \<Rightarrow> string) \<Rightarrow> int \<Rightarrow> orch_db \<Rightarrow> orch_db \<Rightarrow> bool" where
  "mail_step sha cap d d' \<longleftrightarrow> mail_grows d d' \<and> (mail_ok cap d \<longrightarrow> mail_ok cap d') \<and> (chains_ok sha (chains d) \<longrightarrow> chains_ok sha (chains d'))"

lemma mail_step_refl [simp]: "mail_step sha cap d d"
  by (simp add: mail_step_def mail_grows_def)

lemma mail_step_trans: "mail_step sha cap a b \<Longrightarrow> mail_step sha cap b c \<Longrightarrow> mail_step sha cap a c"
  unfolding mail_step_def using mail_grows_trans by blast

lemma mail_step_race: "mail_calm sha cap env \<Longrightarrow> mail_step sha cap d (mg_race env d)" "mail_calm sha cap env \<Longrightarrow> mail_step sha cap d (mg_race2 env d)"
  by (simp_all add: mail_step_def mail_calmD)

lemma append_messaging_step:
  assumes "append_messaging x m disposition d = Inr (u, d')"
  shows "mail_step (xo_sha x) cap d d'"
  using assms by (auto simp: append_messaging_def bindR_eq_Inr mail_step_def mail_grows_def mail_ok_def count_agent_messages_def
      dest: chains_ok_append(7))

text \<open>Where a stored message ends up, and that a resend returns the message stored first.\<close>

lemma store_message_facts:
  assumes "store_message st env caller m d = (res, d')" "mail_calm sha (ms_max_messages st) env" "am_tenant m = caller"
  shows "mail_step sha (ms_max_messages st) d d'"
    "res = Inr (Inr (r, c)) \<Longrightarrow> r \<in> set (agent_messages d') \<and> am_tenant r = caller \<and> am_key r = am_key m"
    "res = Inr (Inr (r, c)) \<Longrightarrow> q \<in> set (agent_messages d) \<Longrightarrow> am_tenant q = caller \<Longrightarrow> am_key q = am_key m \<Longrightarrow> mail_ok cap d \<Longrightarrow>
       r = q \<and> d' = d"
proof -
  let ?cap = "ms_max_messages st"
  obtain y d2 where y: "run_txn (mg_write env) (insert_agent_message caller m) (mg_race env d) = (y, d2)" by fastforce
  have race: "mail_step sha ?cap d (mg_race env d)" by (rule mail_step_race [OF assms(2)])
  have fm: "r \<in> set (agent_messages s) \<and> am_tenant r = caller \<and> am_key r = am_key m" if "find_message caller (am_key m) s = Some r" for r s
    using that by (auto simp: find_message_def find_Some_iff)
  consider (early) "d' = d" "\<And>r c. res = Inr (Inr (r, c)) \<Longrightarrow> find_message caller (am_key m) d = Some r"
    | (full) "d' = mg_race env d" "\<And>r. res \<noteq> Inr (Inr r)"
    | (insert) "count_agent_messages caller (mg_race env d) < ?cap" "d' = d2" "find_message caller (am_key m) d = None"
        "\<And>r c. res = Inr (Inr (r, c)) \<Longrightarrow> y = Inr r \<or> find_message caller (am_key m) d2 = Some r"
    using assms(1) y
    by (cases "tenant_session caller"; cases "mg_read env"; cases "find_message caller (am_key m) d"; cases y; cases "mg_reread env";
        cases "find_message caller (am_key m) d2") (auto simp: store_message_def Let_def split: if_splits)
  then have "mail_step sha ?cap d d' \<and> (\<forall>r c. res = Inr (Inr (r, c)) \<longrightarrow> r \<in> set (agent_messages d') \<and> am_tenant r = caller \<and> am_key r = am_key m)
    \<and> (\<forall>r c q. res = Inr (Inr (r, c)) \<longrightarrow> q \<in> set (agent_messages d) \<longrightarrow> am_tenant q = caller \<longrightarrow> am_key q = am_key m \<longrightarrow> mail_ok cap d \<longrightarrow>
       r = q \<and> d' = d)"
  proof cases
    case early
    have "r = q" if "find_message caller (am_key m) d = Some r" "q \<in> set (agent_messages d)" "am_tenant q = caller" "am_key q = am_key m"
      "mail_ok cap d" for r q
      using that fm [OF that(1)] by (auto simp: mail_ok_def distinct_map inj_on_def)
    then show ?thesis using early fm by (metis mail_step_refl)
  next
    case full
    then show ?thesis using race by blast
  next
    case insert
    have ins: "mail_step sha ?cap (mg_race env d) s \<and> r \<in> set (agent_messages s) \<and> am_tenant r = caller \<and> am_key r = am_key m"
      if "insert_agent_message caller m (mg_race env d) = Inr (r, s)" for r s
    proof -
      note i = insert_agent_message_Inr [OF that]
      have "chains s = chains (mg_race env d)" by (simp add: i(2))
      then show ?thesis using insert_agent_message_ok [OF that _ insert(1)] i by (auto simp: mail_step_def mail_grows_def)
    qed
    have "mail_step sha ?cap d d2"
      using y by (rule run_txn_preserves) (use ins race mail_step_trans in blast)+
    moreover have "r \<in> set (agent_messages d2) \<and> am_tenant r = caller \<and> am_key r = am_key m" if "y = Inr r" for r
      using y by (cases rule: run_txn_cases) (use ins that in auto)
    moreover have "\<not> (q \<in> set (agent_messages d) \<and> am_tenant q = caller \<and> am_key q = am_key m)" for q
      using insert(3) by (auto simp: find_message_def find_None_iff)
    ultimately show ?thesis using insert fm by metis
  qed
  then show "mail_step sha ?cap d d'"
    "res = Inr (Inr (r, c)) \<Longrightarrow> r \<in> set (agent_messages d') \<and> am_tenant r = caller \<and> am_key r = am_key m"
    "res = Inr (Inr (r, c)) \<Longrightarrow> q \<in> set (agent_messages d) \<Longrightarrow> am_tenant q = caller \<Longrightarrow> am_key q = am_key m \<Longrightarrow> mail_ok cap d \<Longrightarrow>
       r = q \<and> d' = d"
    by blast+
qed

lemma message_row_simps [simp]:
  "am_tenant (message_row c b n) = c" "am_key (message_row c b n) = jstring (jget ''idempotency_key'' b)"
  by (simp_all add: message_row_def)

lemma send_message_step:
  assumes "send_message x dsize st env caller raw d = (res, d')" "mail_calm (xo_sha x) (ms_max_messages st) env"
  shows "mail_step (xo_sha x) (ms_max_messages st) d d'"
proof (cases "\<exists>body. parse_body (xo_loads x) raw = Inr body \<and> validate_send_body dsize st body = None")
  case False
  then have "d' = d" using assms(1) by (auto simp: send_message_def split: sum.splits option.splits)
  then show ?thesis by simp
next
  case True
  then obtain body where b: "parse_body (xo_loads x) raw = Inr body" "validate_send_body dsize st body = None" by blast
  let ?m = "message_row caller body (mg_now env)"
  obtain y d1 where y: "store_message st env caller ?m d = (y, d1)" by fastforce
  have s: "mail_step (xo_sha x) (ms_max_messages st) d d1" by (rule store_message_facts(1) [OF y assms(2)]) simp
  show ?thesis
  proof (cases "\<exists>r c. y = Inr (Inr (r, c))")
    case False
    then have "d' = d1" using assms(1) b y by (auto simp: send_message_def Let_def split: sum.splits prod.splits)
    then show ?thesis using s by simp
  next
    case True
    then obtain r c where y': "y = Inr (Inr (r, c))" by blast
    obtain z d2 where z: "run_txn (mg_audit env) (append_messaging x ?m c) (mg_race2 env d1) = (z, d2)" by fastforce
    have "d' = d2" using assms(1) b y y' z by (auto simp: send_message_def Let_def split: sum.splits)
    moreover have "mail_step (xo_sha x) (ms_max_messages st) d1 d2"
      using z by (rule run_txn_preserves) (use append_messaging_step mail_step_race(2) [OF assms(2)] mail_step_trans in blast)+
    ultimately show ?thesis using s mail_step_trans by blast
  qed
qed

section \<open>Polling\<close>

definition inbox :: "ident \<Rightarrow> ident \<times> ident \<times> ident \<Rightarrow> orch_db \<Rightarrow> agent_message list" where
  "inbox sess recipient d = filter (\<lambda>m. am_tenant m = sess \<and> am_recipient m = recipient) (agent_messages d)"

text \<open>A client that polls the database as it is at each poll, with the last sequence number it saw.\<close>

fun poll :: "ident \<Rightarrow> ident \<times> ident \<times> ident \<Rightarrow> int option \<Rightarrow> (nat \<times> orch_db) list \<Rightarrow> agent_message list" where
  "poll sess recipient since [] = []"
| "poll sess recipient since ((limit, d) # rest) =
     (let rows = fst (list_inbox_messages sess recipient since limit d) in
      rows @ poll sess recipient (if rows = [] then since else Some (am_seq (last rows))) rest)"

lemma sort_key_sorted: "sorted_wrt (<) (map (f :: 'a \<Rightarrow> int) xs) \<Longrightarrow> sort_key f xs = xs"
  by (rule sort_key_id_if_sorted) (rule strict_sorted_imp_sorted)

lemma sorted_wrt_filter_map: "sorted_wrt (<) (map (f :: 'a \<Rightarrow> int) xs) \<Longrightarrow> sorted_wrt (<) (map f (filter P xs))"
  by (simp add: sorted_wrt_map sorted_wrt_filter)

text \<open>In a strictly sorted list, what is above the last element of a prefix is the rest.\<close>

lemma filter_above_prefix:
  assumes "sorted_wrt (<) (map (f :: 'a \<Rightarrow> int) (xs @ ys))" "xs \<noteq> []"
  shows "filter (\<lambda>m. f (last xs) < f m) (xs @ ys) = ys"
proof -
  have "\<not> f (last xs) < f m" if "m \<in> set xs" for m
  proof -
    from assms(2) have x: "xs = butlast xs @ [last xs]" by simp
    from that have "m \<in> set (butlast xs) \<or> m = last xs" by (subst (asm) x) auto
    then show ?thesis
    proof
      assume "m \<in> set (butlast xs)"
      moreover have "sorted_wrt (<) (map f (butlast xs @ [last xs]))" using assms(1) x by (metis map_append sorted_wrt_append)
      ultimately show ?thesis by (auto simp: sorted_wrt_append)
    qed simp
  qed
  moreover have "f (last xs) < f m" if "m \<in> set ys" for m
    using assms that by (auto simp: sorted_wrt_append)
  ultimately show ?thesis by (simp add: filter_empty_conv filter_id_conv)
qed

lemma list_inbox_fst:
  assumes "sorted_wrt (<) (map am_seq (agent_messages d))" "prefix seen (inbox sess recipient d)"
    and "since = (if seen = [] then None else Some (am_seq (last seen)))"
  shows "fst (list_inbox_messages sess recipient since limit d) = take limit (drop (length seen) (inbox sess recipient d))"
proof -
  from assms(2) obtain rest where r: "inbox sess recipient d = seen @ rest" by (auto simp: prefix_def)
  have st: "sorted_wrt (<) (map am_seq (inbox sess recipient d))"
    using sorted_wrt_filter_map [OF assms(1)] by (simp add: inbox_def)
  let ?match = "filter (\<lambda>m. am_tenant m = sess \<and> am_recipient m = recipient \<and> (\<forall>s \<in> set_option since. s < am_seq m)) (agent_messages d)"
  have "?match = filter (\<lambda>m. \<forall>s \<in> set_option since. s < am_seq m) (inbox sess recipient d)"
    unfolding inbox_def filter_filter by (rule filter_cong) auto
  also have "\<dots> = rest"
  proof (cases "seen = []")
    case True
    then show ?thesis using assms(3) r by simp
  next
    case False
    then show ?thesis using filter_above_prefix [OF st [unfolded r] False] assms(3) r by simp
  qed
  finally have m: "?match = rest" .
  have "sort_key am_seq rest = rest" using st unfolding r by (intro sort_key_sorted) (simp add: sorted_wrt_append)
  then show ?thesis
    by (simp add: list_inbox_messages_def Let_def m r min_def)
qed

text \<open>The databases of successive polls: messages only get added, in sequence order.\<close>

fun mail_history :: "orch_db list \<Rightarrow> bool" where
  "mail_history [] = True"
| "mail_history [d] = sorted_wrt (<) (map am_seq (agent_messages d))"
| "mail_history (d # d' # ds) = (sorted_wrt (<) (map am_seq (agent_messages d)) \<and> mail_grows d d' \<and> mail_history (d' # ds))"

lemma inbox_grows: "mail_grows d d' \<Longrightarrow> prefix (inbox sess recipient d) (inbox sess recipient d')"
  by (auto simp: mail_grows_def inbox_def prefix_def)

lemma poll_prefix:
  assumes "mail_history (map snd polls)" "polls \<noteq> []" "prefix seen (inbox sess recipient (snd (hd polls)))"
    and "since = (if seen = [] then None else Some (am_seq (last seen)))"
  shows "prefix (seen @ poll sess recipient since polls) (inbox sess recipient (snd (last polls)))
    \<and> (length (poll sess recipient since polls) < length (poll sess recipient since (butlast polls)) + fst (last polls)
        \<longrightarrow> seen @ poll sess recipient since polls = inbox sess recipient (snd (last polls)))"
  using assms
proof (induction polls arbitrary: seen since)
  case (Cons p polls)
  obtain limit d where p: "p = (limit, d)" by fastforce
  have so: "sorted_wrt (<) (map am_seq (agent_messages d))" using Cons.prems(1) p by (cases polls) auto
  let ?rows = "take limit (drop (length seen) (inbox sess recipient d))"
  have pre: "prefix seen (inbox sess recipient d)" using Cons.prems(3) p by simp
  have rows: "fst (list_inbox_messages sess recipient since limit d) = ?rows"
    by (rule list_inbox_fst [OF so pre Cons.prems(4)])
  have seen': "prefix (seen @ ?rows) (inbox sess recipient d)"
    using pre by (auto simp: prefix_def take_is_prefix) (metis append_take_drop_id)
  have since': "(if ?rows = [] then since else Some (am_seq (last ?rows)))
      = (if seen @ ?rows = [] then None else Some (am_seq (last (seen @ ?rows))))"
    using Cons.prems(4) by (auto simp: last_append)
  show ?case
  proof (cases polls)
    case Nil
    have "seen @ ?rows = inbox sess recipient d" if "length ?rows < limit"
      using that pre by (auto simp: prefix_def)
    then show ?thesis using seen' rows p Nil by (simp add: Let_def)
  next
    case (Cons q qs)
    have h: "mail_history (map snd polls)" "mail_grows d (snd q)" using Cons.prems(1) p Cons by auto
    have "prefix (seen @ ?rows) (inbox sess recipient (snd (hd polls)))"
      using prefix_order.trans [OF seen' inbox_grows [OF h(2)]] Cons by simp
    from Cons.IH [OF h(1) _ this since'] Cons show ?thesis using rows p by (simp add: Let_def)
  qed
qed simp

section \<open>The state store is a versioned register\<close>

text \<open>The specification: a map from tenant and key to a version and a value, and one operation that writes when the
  expected version is the current one (\<open>None\<close> for an absent key).\<close>

type_synonym register = "ident \<times> string \<rightharpoonup> int \<times> json"

datatype reg_answer = Reg_written int | Reg_conflict "int option"

definition reg_write :: "ident \<Rightarrow> string \<Rightarrow> int option \<Rightarrow> json \<Rightarrow> register \<Rightarrow> reg_answer \<times> register" where
  "reg_write t k expected v R =
     (if map_option fst (R (t, k)) = expected
      then let n = (case expected of None \<Rightarrow> 1 | Some i \<Rightarrow> i + 1) in (Reg_written n, R((t, k) \<mapsto> (n, v)))
      else (Reg_conflict (map_option fst (R (t, k))), R))"

definition state_abs :: "orch_db \<Rightarrow> register" where
  "state_abs d = (\<lambda>(t, k). map_option (\<lambda>r. (st_version r, st_value r)) (get_agent_state t k d))"

definition state_ok :: "orch_db \<Rightarrow> bool" where
  "state_ok d \<longleftrightarrow> distinct (map (\<lambda>r. (st_tenant r, st_key r)) (agent_state d)) \<and> (\<forall>r \<in> set (agent_state d). 1 \<le> st_version r)"

lemma state_abs_same: "agent_state d' = agent_state d \<Longrightarrow> state_abs d' = state_abs d"
  by (auto simp: state_abs_def get_agent_state_def)

lemma get_agent_state_Some: "get_agent_state t k d = Some r \<Longrightarrow> r \<in> set (agent_state d) \<and> st_tenant r = t \<and> st_key r = k"
  by (auto simp: get_agent_state_def find_Some_iff)

lemma state_unique:
  assumes "state_ok d" "r \<in> set (agent_state d)" "q \<in> set (agent_state d)" "st_tenant r = st_tenant q" "st_key r = st_key q"
  shows "r = q"
  using assms by (auto simp: state_ok_def distinct_map inj_on_def)

lemma create_refines:
  assumes "create_agent_state_if_absent t t k v a now d = Inr (res, d')" "state_ok d"
  shows "case res of
      Some r \<Rightarrow> reg_write t k None v (state_abs d) = (Reg_written (st_version r), state_abs d')
    | None \<Rightarrow> d' = d \<and> get_agent_state t k d \<noteq> None" "state_ok d'"
proof -
  let ?r = "\<lparr>st_tenant = t, st_key = k, st_value = v, st_version = 1, st_updated_at = now, st_updated_by = a\<rparr>"
  let ?key = "\<lambda>q. (st_tenant q, st_key q)"
  have c: "(if (t, k) \<in> ?key ` set (agent_state d) then (None, d) else (Some ?r, d\<lparr>agent_state := agent_state d @ [?r]\<rparr>)) = (res, d')"
    using assms(1) by (auto simp: create_agent_state_if_absent_def Let_def bindR_eq_Inr insert_nothing_def split: if_splits)
  have absent: "(t, k) \<in> ?key ` set (agent_state d) \<longleftrightarrow> get_agent_state t k d \<noteq> None"
    by (auto simp: get_agent_state_def find_None_iff image_iff)
  have "state_abs (d\<lparr>agent_state := agent_state d @ [?r]\<rparr>) = (state_abs d)((t, k) \<mapsto> (1, v))" if "get_agent_state t k d = None"
  proof (rule ext)
    fix tk :: "ident \<times> string"
    show "state_abs (d\<lparr>agent_state := agent_state d @ [?r]\<rparr>) tk = ((state_abs d)((t, k) \<mapsto> (1, v))) tk"
      using that by (cases tk) (auto simp: state_abs_def get_agent_state_def find_append split: option.splits)
  qed
  then show "case res of
      Some r \<Rightarrow> reg_write t k None v (state_abs d) = (Reg_written (st_version r), state_abs d')
    | None \<Rightarrow> d' = d \<and> get_agent_state t k d \<noteq> None"
    using c absent by (auto simp: reg_write_def state_abs_def split: if_splits)
  show "state_ok d'" using c assms(2) by (auto simp: state_ok_def split: if_splits)
qed

lemma cas_refines:
  assumes "update_agent_state_cas t k n v a now d = Inr (res, d')" "state_ok d"
  shows "case res of
      Some r \<Rightarrow> reg_write t k (Some n) v (state_abs d) = (Reg_written (st_version r), state_abs d')
    | None \<Rightarrow> d' = d \<and> map_option st_version (get_agent_state t k d) \<noteq> Some n" "state_ok d'"
proof -
  let ?hit = "\<lambda>r. st_tenant r = t \<and> st_key r = k \<and> st_version r = n"
  let ?bump = "\<lambda>r. r\<lparr>st_value := v, st_version := st_version r + 1, st_updated_at := now, st_updated_by := a\<rparr>"
  show "case res of
    Some r \<Rightarrow> reg_write t k (Some n) v (state_abs d) = (Reg_written (st_version r), state_abs d')
  | None \<Rightarrow> d' = d \<and> map_option st_version (get_agent_state t k d) \<noteq> Some n"
  proof (cases "List.find ?hit (agent_state d)")
    case None
    then have "res = None" "d' = d" using assms(1) by (auto simp: update_agent_state_cas_def Let_def bindR_eq_Inr)
    moreover have "map_option st_version (get_agent_state t k d) \<noteq> Some n"
      using None get_agent_state_Some [of t k d] by (auto simp: find_None_iff)
    ultimately show ?thesis by simp
  next
    case (Some r)
    then have r: "r \<in> set (agent_state d)" "st_tenant r = t" "st_key r = k" "st_version r = n" by (auto simp: find_Some_iff)
    have e: "res = Some (?bump r)" "d' = d\<lparr>agent_state := update_where ?hit ?bump (agent_state d)\<rparr>"
      using assms(1) Some by (auto simp: update_agent_state_cas_def Let_def bindR_eq_Inr)
    have g: "get_agent_state t k d = Some r"
    proof (cases "get_agent_state t k d")
      case None
      then show ?thesis using r by (auto simp: get_agent_state_def find_None_iff)
    next
      case (Some q)
      then show ?thesis using get_agent_state_Some [OF Some] state_unique [OF assms(2), of q r] r by simp
    qed
    have u: "q = r" if "q \<in> set (agent_state d)" "?hit q" for q using state_unique [OF assms(2) that(1) r(1)] that r by simp
    have "get_agent_state t' k' d' = (if (t', k') = (t, k) then Some (?bump r) else get_agent_state t' k' d)" for t' k'
    proof -
      have upd: "List.find (\<lambda>q. st_tenant q = t' \<and> st_key q = k') (update_where ?hit ?bump rows)
          = map_option (\<lambda>q. if ?hit q then ?bump q else q) (List.find (\<lambda>q. st_tenant q = t' \<and> st_key q = k') rows)" for rows
        by (induction rows) auto
      show ?thesis
      proof (cases "(t', k') = (t, k)")
        case True
        then show ?thesis using g r upd [of "agent_state d"] by (simp add: get_agent_state_def e(2))
      next
        case False
        then have "\<not> ?hit q" if "get_agent_state t' k' d = Some q" for q using get_agent_state_Some [OF that] by auto
        then show ?thesis using False upd [of "agent_state d"]
          by (cases "List.find (\<lambda>q. st_tenant q = t' \<and> st_key q = k') (agent_state d)") (auto simp: get_agent_state_def e(2))
      qed
    qed
    then have "state_abs d' = (state_abs d)((t, k) \<mapsto> (n + 1, v))"
      using r by (auto simp: state_abs_def fun_eq_iff)
    then show ?thesis using e(1) g r by (simp add: reg_write_def state_abs_def Let_def)
  qed
  have "map (\<lambda>r. (st_tenant r, st_key r)) (update_where ?hit ?bump (agent_state d)) = map (\<lambda>r. (st_tenant r, st_key r)) (agent_state d)"
    by (rule map_update_where_frame) simp
  moreover have "1 \<le> st_version r" if "r \<in> set (update_where ?hit ?bump (agent_state d))" for r
    using that assms(2) by (auto simp: set_update_where state_ok_def)
  ultimately show "state_ok d'"
    using assms by (auto simp: state_ok_def update_agent_state_cas_def Let_def bindR_eq_Inr split: option.splits)
qed

lemma reg_write_conflict:
  "map_option st_version (get_agent_state t k d) \<noteq> expected \<Longrightarrow>
    fst (reg_write t k expected v (state_abs d)) = Reg_conflict (map_option st_version (get_agent_state t k d))"
  by (simp add: reg_write_def state_abs_def option.map_comp comp_def)

text \<open>A write reaches the register at most once, at the point where its transaction runs; an answer that is not an error
  is the register's answer at that point.\<close>

lemma swap_state_refines:
  assumes "swap_state st env t k expected v a d = (res, d')" "state_ok (mg_race env d)"
  shows "case res of
      Inr (Inr (r, c)) \<Rightarrow> reg_write t k expected v (state_abs (mg_race env d)) = (Reg_written (st_version r), state_abs d')
    | Inr (Inl resp) \<Rightarrow> state_abs d' = state_abs (mg_race env d)
        \<and> (\<forall>code n. resp = http_conflict code n \<longrightarrow> fst (reg_write t k expected v (state_abs (mg_race env d))) = Reg_conflict n)
    | Inl e \<Rightarrow> state_abs d' \<in> {state_abs d, state_abs (mg_race env d), snd (reg_write t k expected v (state_abs (mg_race env d)))}"
    "state_ok d \<Longrightarrow> state_ok d'"
proof -
  let ?R = "state_abs (mg_race env d)"
  let ?m = "case expected of None \<Rightarrow> create_agent_state_if_absent t t k v a (mg_now env)
    | Some n \<Rightarrow> update_agent_state_cas t k n v a (mg_now env)"
  obtain y d2 where y: "run_txn (mg_write env) ?m (mg_race env d) = (y, d2)" by fastforce
  have m: "(case q of Some r \<Rightarrow> reg_write t k expected v ?R = (Reg_written (st_version r), state_abs s)
      | None \<Rightarrow> s = mg_race env d \<and> fst (reg_write t k expected v ?R) = Reg_conflict (map_option st_version (get_agent_state t k s))) \<and> state_ok s"
    if "?m (mg_race env d) = Inr (q, s)" for q s
  proof (cases expected)
    case None
    note c = create_refines [OF that [unfolded None option.case] assms(2)]
    show ?thesis using c reg_write_conflict [of t k "mg_race env d" None v] unfolding None by (cases q) auto
  next
    case (Some n)
    note c = cas_refines [OF that [unfolded Some option.case] assms(2)]
    show ?thesis using c reg_write_conflict [of t k "mg_race env d" "Some n" v] unfolding Some by (cases q) auto
  qed
  have d2: "state_ok d2 \<and> state_abs d2 \<in> {?R, snd (reg_write t k expected v ?R)}"
    using y by (rule run_txn_preserves) (use m assms(2) in \<open>fastforce split: option.splits\<close>)+
  have yq: "(case q of Some r \<Rightarrow> reg_write t k expected v ?R = (Reg_written (st_version r), state_abs d2)
      | None \<Rightarrow> d2 = mg_race env d \<and> fst (reg_write t k expected v ?R) = Reg_conflict (map_option st_version (get_agent_state t k d2)))"
    if "y = Inr q" for q
    using y by (cases rule: run_txn_cases) (use m that in auto)
  have cases: "(\<exists>e. res = Inl e \<and> d' = d)
    \<or> res = Inr (Inl (http_error 422 ''state_key_limit_exceeded'')) \<and> d' = mg_race env d
    \<or> d' = d2 \<and> (case y of Inl e \<Rightarrow> res = Inl e | Inr (Some r) \<Rightarrow> \<exists>c. res = Inr (Inr (r, c))
        | Inr None \<Rightarrow> \<exists>code. (res, d') = read_conflict env code t k d2)"
    using assms(1) y
    by (cases "tenant_session t"; cases "mg_read env"; cases expected)
      (auto simp: swap_state_def Let_def read_conflict_def split: if_splits sum.splits option.splits prod.splits)
  then have "state_ok d' \<or> d' = d" using d2 assms(2) by auto
  then show "state_ok d \<Longrightarrow> state_ok d'" by blast
  from cases show "case res of
      Inr (Inr (r, c)) \<Rightarrow> reg_write t k expected v ?R = (Reg_written (st_version r), state_abs d')
    | Inr (Inl resp) \<Rightarrow> state_abs d' = ?R
        \<and> (\<forall>code n. resp = http_conflict code n \<longrightarrow> fst (reg_write t k expected v ?R) = Reg_conflict n)
    | Inl e \<Rightarrow> state_abs d' \<in> {state_abs d, ?R, snd (reg_write t k expected v ?R)}"
  proof (elim disjE exE conjE)
    assume ran: "d' = d2" "case y of Inl e \<Rightarrow> res = Inl e | Inr (Some r) \<Rightarrow> \<exists>c. res = Inr (Inr (r, c))
        | Inr None \<Rightarrow> \<exists>code. (res, d') = read_conflict env code t k d2"
    show ?thesis
    proof (cases y)
      case (Inl e)
      then show ?thesis using ran d2 by auto
    next
      case (Inr q)
      show ?thesis
      proof (cases q)
        case None
        have cj: "http_conflict code n = http_conflict code' n' \<Longrightarrow> n = n'" for code n code' n'
          by (auto simp: http_conflict_def split: option.splits)
        from yq [OF Inr] None ran Inr show ?thesis
          by (cases "mg_reread env") (auto simp: read_conflict_def dest!: cj)
      next
        case (Some r)
        then show ?thesis using yq [OF Inr] ran Inr by auto
      qed
    qed
  qed (auto simp: http_error_def http_conflict_def)
qed

lemma append_state_same: "append_state x t k n c a d = Inr (u, d') \<Longrightarrow> agent_state d' = agent_state d"
  by (auto simp: append_state_def bindR_eq_Inr)

text \<open>The answers of a write that reached the store.\<close>

lemma swap_state_resp:
  assumes "swap_state st env t k expected v a d = (Inr (Inl resp), d')"
  shows "resp = http_error 422 ''state_key_limit_exceeded'' \<or> (\<exists>code n. resp = http_conflict code n)"
  using assms
  by (cases "tenant_session t"; cases "mg_read env"; cases expected)
    (auto simp: swap_state_def Let_def read_conflict_def split: if_splits sum.splits option.splits prod.splits)

lemma write_state_refines:
  assumes "write_state x dsize st env t k raw d = (Inr resp, d')" "parse_body (xo_loads x) raw = Inr body"
    and "validate_state_body dsize st body = None" "length k \<le> 256" "state_ok (mg_race env d)" "mg_race2 env = id"
    and R: "R = state_abs (mg_race env d)" and ex: "expected = (case jget ''expected_version'' body of JInt v \<Rightarrow> Some v | _ \<Rightarrow> None)"
  obtains (written) n where "hr_status resp = 200" "reg_write t k expected (jget ''value'' body) R = (Reg_written n, state_abs d')"
      "jget ''version'' (hr_body resp) = JInt n"
  | (conflict) n where "hr_status resp = 409" "reg_write t k expected (jget ''value'' body) R = (Reg_conflict n, state_abs d')"
      "jget ''current_version'' (hr_body resp) = (case n of None \<Rightarrow> JNull | Some i \<Rightarrow> JInt i)"
  | (full) "hr_status resp = 422" "state_abs d' = R"
proof -
  let ?a = "case jget ''updated_by_agent_id'' body of JStr s \<Rightarrow> Some s | _ \<Rightarrow> None"
  obtain y d1 where y: "swap_state st env t k expected (jget ''value'' body) ?a d = (y, d1)" by fastforce
  note ref = swap_state_refines(1) [OF y assms(5), folded R]
  have w: "write_state x dsize st env t k raw d = (case (y, d1) of
        (Inl e, d1) \<Rightarrow> (Inl e, d1)
      | (Inr (Inl resp), d1) \<Rightarrow> (Inr resp, d1)
      | (Inr (Inr (r, c)), d1) \<Rightarrow>
          (case run_txn (mg_audit env) (append_state x t k (st_version r) c ?a) (mg_race2 env d1) of
             (Inl e, d2) \<Rightarrow> (Inl e, d2)
           | (Inr _, d2) \<Rightarrow> (Inr (http_ok 200 [(''state_key'', JStr k), (''version'', JInt (st_version r)),
                (''updated_at'', JStr (isoformat (st_updated_at r)))]), d2)))"
    using assms(2-4) y unfolding write_state_def ex by simp
  show thesis
  proof (cases y)
    case (Inl e)
    then show thesis using w assms(1) by simp
  next
    case (Inr z)
    show thesis
    proof (cases z)
      case (Inl r)
      then have r: "r = resp" "d1 = d'" using w assms(1) Inr by auto
      from swap_state_resp [OF y [unfolded Inr Inl]] show thesis
      proof
        assume "r = http_error 422 ''state_key_limit_exceeded''"
        then show thesis using ref Inr Inl r by (intro full) auto
      next
        assume "\<exists>code n. r = http_conflict code n"
        then obtain code n where c: "r = http_conflict code n" by blast
        then have "fst (reg_write t k expected (jget ''value'' body) R) = Reg_conflict n" "state_abs d' = R" using ref Inr Inl r by auto
        then have "reg_write t k expected (jget ''value'' body) R = (Reg_conflict n, state_abs d')"
          by (auto simp: reg_write_def Let_def split: if_splits)
        then show thesis using c r by (intro conflict) (auto simp: http_conflict_def jget_def)
      qed
    next
      case z: (Inr q)
      obtain r c where q: "q = (r, c)" by fastforce
      obtain u d2 where u: "run_txn (mg_audit env) (append_state x t k (st_version r) c ?a) d1 = (u, d2)" by fastforce
      have "agent_state d2 = agent_state d1"
        using u by (rule run_txn_preserves) (auto dest: append_state_same)
      then have a: "state_abs d2 = state_abs d1" by (rule state_abs_same)
      from w assms(1,6) Inr z q u have "d' = d2" "resp = http_ok 200 [(''state_key'', JStr k), (''version'', JInt (st_version r)),
                (''updated_at'', JStr (isoformat (st_updated_at r)))]" by (cases u; auto)+
      then show thesis using ref Inr z q a by (intro written) (auto simp: jget_def)
    qed
  qed
qed

lemma write_state_ok:
  assumes "write_state x dsize st env t k raw d = (res, d')" "\<And>f s. f \<in> {mg_race env, mg_race2 env} \<Longrightarrow> state_ok s \<Longrightarrow> state_ok (f s)" "state_ok d"
  shows "state_ok d'"
proof -
  have ap: "state_ok s'" if "run_txn f (append_state x t k n c a) s = (z, s')" "state_ok s" for f n c a s z s'
    using that(1) by (rule run_txn_preserves) (use that(2) append_state_same in \<open>auto simp: state_ok_def\<close>)
  have sw: "state_ok s'" if "swap_state st env t k e v a d = (z, s')" for e v a z s'
    by (rule swap_state_refines(2) [OF that]) (use assms(2,3) in auto)
  have r2: "state_ok (mg_race2 env s)" if "state_ok s" for s using assms(2) that by simp
  show ?thesis
    using assms(1) assms(3) unfolding write_state_def Let_def
    by (auto split: if_splits sum.splits option.splits prod.splits dest!: sw dest: ap [OF _ r2])
qed

end
