(* ===== verification/Orch_Distribution.thy ===== *)
theory Orch_Distribution
  imports Orch_Http
begin

text \<open>
  Policy distribution (\<open>orchestrator.distribution\<close>, the rollback of \<open>command_center\<close>, and
  their functions of \<open>persistence.repositories\<close>): submitting a signed policy, the engine that
  pushes it to every target with bounded retries and aggregates the outcome, the status read, and
  the rollback that submits the previous record again. The HTTP client is a parameter that posts a
  record to a URL and changes a state of type \<open>'w\<close>; \<open>hash\<close> is the content hash of a record.
  The delays between attempts and the timeouts only pass time and are left out, with their two
  settings.
\<close>

section \<open>Settings and rows\<close>

record distribution_settings =
  dg_service_token :: "string option"
  dg_admin_token :: "string option"
  dg_targets :: "(string \<times> string) list"
  dg_intake_path :: string
  dg_max_attempts :: int

text \<open>\<open>ORCH_DISTRIBUTION_TARGETS\<close>, a JSON object of strings.\<close>

definition distribution_targets :: "(string \<Rightarrow> json option) \<Rightarrow> environ \<Rightarrow> py_exc + (string \<times> string) list" where
  "distribution_targets loads env =
     (let raw = strip (env_text env ''ORCH_DISTRIBUTION_TARGETS'') in
      if raw = [] then Inr []
      else case loads raw of
        Some (JObj kvs) \<Rightarrow>
          if list_all (\<lambda>kv. case snd kv of JStr _ \<Rightarrow> True | _ \<Rightarrow> False) kvs
          then Inr (map (\<lambda>kv. (fst kv, jstring (snd kv))) kvs) else Inl RuntimeError
      | _ \<Rightarrow> Inl RuntimeError)"

definition get_distribution_settings :: "(string \<Rightarrow> json option) \<Rightarrow> environ \<Rightarrow> py_exc + distribution_settings" where
  "get_distribution_settings loads env =
     bindR (distribution_targets loads env) (\<lambda>targets.
     bindR (env_int env ''ORCH_DISTRIBUTION_MAX_ATTEMPTS'' 3 1) (\<lambda>attempts.
     let path = strip (env_text env ''ORCH_SENTINEL_INTAKE_PATH'') in
     Inr \<lparr>dg_service_token = optional_token env ''ORCH_SERVICE_TOKEN'', dg_admin_token = optional_token env ''SENTINEL_ADMIN_TOKEN'',
          dg_targets = targets, dg_intake_path = (if path = [] then ''/admin/policies/intake'' else path),
          dg_max_attempts = attempts\<rparr>))"

definition POLICY_TYPES :: "string list" where
  "POLICY_TYPES = [''budget_limit'', ''model_allowlist'', ''model_approval'', ''model_denylist'', ''code_scan'', ''data_lock'']"

definition insert_policy_distribution :: "ident \<Rightarrow> distribution_row \<Rightarrow> orch_db \<Rightarrow> py_exc + orch_db" where
  "insert_policy_distribution sess r d =
     bindR (guardR (varchar_ok 64 (ds_id r) \<and> varchar_ok 64 (ds_policy r) \<and> varchar_ok 64 (ds_tenant r)
       \<and> varchar_ok 32 (ds_type r) \<and> jsonb_ok (ds_record r)) DataError) (\<lambda>_.
     bindR (rls_check sess (ds_tenant r)) (\<lambda>_.
     bindR (guardR (ds_type r \<in> set POLICY_TYPES) IntegrityError) (\<lambda>_.
     bindR (insert_unique IntegrityError ds_id r (policy_distributions d)) (\<lambda>rows.
     Inr (d\<lparr>policy_distributions := rows\<rparr>)))))"

definition insert_distribution_target :: "ident \<Rightarrow> target_dist_row \<Rightarrow> orch_db \<Rightarrow> py_exc + orch_db" where
  "insert_distribution_target sess r d =
     bindR (guardR (varchar_ok 64 (dt_id r) \<and> varchar_ok 128 (dt_sentinel r) \<and> dt_max_attempts r < 2 ^ 31) DataError) (\<lambda>_.
     bindR (rls_check sess (dt_tenant r)) (\<lambda>_.
     bindR (guardR (0 \<le> dt_attempts r \<and> 1 \<le> dt_max_attempts r) IntegrityError) (\<lambda>_.
     bindR (insert_unique IntegrityError dt_id r (policy_distribution_targets d)) (\<lambda>_.
     bindR (insert_unique IntegrityError (\<lambda>t. (dt_distribution t, dt_sentinel t)) r (policy_distribution_targets d)) (\<lambda>rows.
     bindR (guardR (dt_distribution r \<in> ds_id ` set (policy_distributions d)) IntegrityError) (\<lambda>_.
     Inr (d\<lparr>policy_distribution_targets := rows\<rparr>)))))))"

definition update_target_state ::
  "ident \<Rightarrow> ident \<Rightarrow> string \<Rightarrow> int option \<Rightarrow> string option \<Rightarrow> instant option \<Rightarrow> instant option \<Rightarrow> instant \<Rightarrow> orch_db \<Rightarrow> orch_db" where
  "update_target_state sess target_id state attempts err distributed next_at now d =
     d\<lparr>policy_distribution_targets := update_where (\<lambda>t. dt_tenant t = sess \<and> dt_id t = target_id)
        (\<lambda>t. t\<lparr>dt_state := state, dt_updated := now,
               dt_attempts := (case attempts of None \<Rightarrow> dt_attempts t | Some n \<Rightarrow> n),
               dt_last_error := (case err of None \<Rightarrow> dt_last_error t | Some e \<Rightarrow> Some e),
               dt_distributed := (case distributed of None \<Rightarrow> dt_distributed t | Some x \<Rightarrow> Some x),
               dt_next_attempt := (case next_at of None \<Rightarrow> dt_next_attempt t | Some x \<Rightarrow> Some x)\<rparr>)
        (policy_distribution_targets d)\<rparr>"

definition update_distribution_state :: "ident \<Rightarrow> ident \<Rightarrow> string \<Rightarrow> orch_db \<Rightarrow> orch_db" where
  "update_distribution_state sess distribution_id state d =
     d\<lparr>policy_distributions := update_where (\<lambda>r. ds_tenant r = sess \<and> ds_id r = distribution_id) (\<lambda>r. r\<lparr>ds_state := state\<rparr>)
        (policy_distributions d)\<rparr>"

definition get_distribution :: "ident option \<Rightarrow> ident \<Rightarrow> orch_db \<Rightarrow> distribution_row option" where
  "get_distribution sess distribution_id d =
     List.find (\<lambda>r. ds_id r = distribution_id \<and> (\<forall>t \<in> set_option sess. ds_tenant r = t)) (policy_distributions d)"

definition list_distribution_targets :: "ident \<Rightarrow> ident \<Rightarrow> orch_db \<Rightarrow> target_dist_row list" where
  "list_distribution_targets sess distribution_id d =
     sort_key dt_id (filter (\<lambda>t. dt_tenant t = sess \<and> dt_distribution t = distribution_id) (policy_distribution_targets d))"

definition list_recent_distributions_for_policy :: "ident \<Rightarrow> ident \<Rightarrow> nat \<Rightarrow> orch_db \<Rightarrow> distribution_row list" where
  "list_recent_distributions_for_policy sess policy_id limit d =
     take limit (sort_key (\<lambda>r. - ds_created r)
       (filter (\<lambda>r. ds_tenant r = sess \<and> ds_policy r = policy_id) (policy_distributions d)))"

definition append_distribution ::
  "orch_ext \<Rightarrow> ident \<times> ident \<times> ident \<times> string \<Rightarrow> string \<Rightarrow> string option \<Rightarrow> string option \<Rightarrow> orch_db \<Rightarrow> py_exc + unit \<times> orch_db" where
  "append_distribution x meta disposition sentinel_id err d =
     (case meta of (distribution_id, policy_id, tenant_id, policy_type) \<Rightarrow>
      bindR (append_distribution_audit_link (xo_sha x)
        [(''distribution_id'', CStr distribution_id), (''policy_id'', CStr policy_id), (''tenant_id'', CStr tenant_id),
         (''policy_type'', CStr policy_type)] disposition sentinel_id err (distribution_audit_log (chains d))) (\<lambda>(_, rows).
      Inr ((), d\<lparr>chains := (chains d)\<lparr>distribution_audit_log := rows\<rparr>\<rparr>)))"

section \<open>Persisting a distribution\<close>

record dist_request =
  dz_policy :: ident
  dz_version :: json
  dz_tenant :: ident
  dz_type :: string
  dz_record :: json
  dz_hash :: string
  dz_targets :: "(ident \<times> int) list"

fun insert_distribution_targets :: "orch_ext \<Rightarrow> ident \<Rightarrow> ident \<Rightarrow> instant \<Rightarrow> (ident \<times> int) list \<Rightarrow> orch_db \<Rightarrow> py_exc + orch_db" where
  "insert_distribution_targets x tenant_id distribution_id now [] d = Inr d"
| "insert_distribution_targets x tenant_id distribution_id now ((sentinel_id, attempts) # rest) d =
     (let (target_id, d1) = fresh_uuid (xo_u4 x) d in
      bindR (insert_distribution_target tenant_id
        \<lparr>dt_id = target_id, dt_distribution = distribution_id, dt_tenant = tenant_id, dt_sentinel = sentinel_id,
         dt_state = ''pending'', dt_attempts = 0, dt_max_attempts = attempts, dt_last_error = None, dt_next_attempt = None,
         dt_distributed = None, dt_updated = now\<rparr> d1) (\<lambda>d2.
      insert_distribution_targets x tenant_id distribution_id now rest d2))"

definition persist_distribution :: "orch_ext \<Rightarrow> ident \<Rightarrow> dist_request \<Rightarrow> instant \<Rightarrow> orch_db \<Rightarrow> py_exc + unit \<times> orch_db" where
  "persist_distribution x distribution_id q now d =
     bindR (insert_policy_distribution (dz_tenant q)
       \<lparr>ds_id = distribution_id, ds_policy = dz_policy q, ds_version = dz_version q, ds_tenant = dz_tenant q, ds_type = dz_type q,
        ds_state = ''pending'', ds_record = dz_record q, ds_content_hash = dz_hash q, ds_created = now\<rparr> d) (\<lambda>d1.
     bindR (insert_distribution_targets x (dz_tenant q) distribution_id now (dz_targets q) d1) (\<lambda>d2. Inr ((), d2)))"

section \<open>The engine\<close>

definition aggregate_state :: "string list \<Rightarrow> string" where
  "aggregate_state states =
     (let distributed = length (filter (\<lambda>s. s = ''distributed'') states) in
      if distributed \<noteq> 0 \<and> distributed = length states then ''distributed''
      else if distributed \<noteq> 0 then ''partial'' else ''failed'')"

datatype post_result = Post_status int | Post_transport | Post_raised py_exc

datatype attempt_result = Delivered_at int | Gave_up int string | Attempt_raised py_exc

text \<open>The retry loop: \<open>n\<close> attempts are left, \<open>attempt\<close> were made, the last one ended with \<open>err\<close>.\<close>

fun intake_attempts :: "('w \<Rightarrow> post_result \<times> 'w) \<Rightarrow> nat \<Rightarrow> int \<Rightarrow> string \<Rightarrow> 'w \<Rightarrow> attempt_result \<times> 'w" where
  "intake_attempts post 0 attempt err w = (Gave_up attempt err, w)"
| "intake_attempts post (Suc n) attempt err w =
     (case post w of
        (Post_raised e, w1) \<Rightarrow> (Attempt_raised e, w1)
      | (Post_transport, w1) \<Rightarrow> intake_attempts post n (attempt + 1) ''connect_error'' w1
      | (Post_status status, w1) \<Rightarrow>
          if 200 \<le> status \<and> status < 300 then (Delivered_at (attempt + 1), w1)
          else if status = 429 \<or> status \<ge> 500
          then intake_attempts post n (attempt + 1) (''http_'' @ dec_int status) w1
          else (Gave_up (attempt + 1) (''http_'' @ dec_int status), w1))"

record drive_env =
  de_read :: "py_exc option"
  de_write :: "ident \<Rightarrow> txn_fault"
  de_audit :: "ident \<Rightarrow> txn_fault"
  de_now :: instant
  de_final :: txn_fault
  de_final_audit :: txn_fault

text \<open>One target settled: the tenant write, then the audit link.\<close>

definition settle_target ::
  "orch_ext \<Rightarrow> drive_env \<Rightarrow> ident \<times> ident \<times> ident \<times> string \<Rightarrow> target_dist_row \<Rightarrow> string \<Rightarrow> int \<Rightarrow> string option \<Rightarrow> orch_db
     \<Rightarrow> (py_exc + string) \<times> orch_db" where
  "settle_target x env meta target state attempts err d =
     (case run_txn (de_write env (dt_id target)) (\<lambda>s. Inr ((), update_target_state (fst (snd (snd meta))) (dt_id target) state
             (Some attempts) err (if state = ''distributed'' then Some (de_now env) else None) None (de_now env) s)) d of
        (Inl e, d1) \<Rightarrow> (Inl e, d1)
      | (Inr _, d1) \<Rightarrow>
          (case run_txn (de_audit env (dt_id target)) (append_distribution x meta state (Some (dt_sentinel target)) err) d1 of
             (Inl e, d2) \<Rightarrow> (Inl e, d2)
           | (Inr _, d2) \<Rightarrow> (Inr state, d2)))"

fun rstrip_slash :: "string \<Rightarrow> string" where
  "rstrip_slash s = rev (dropWhile (\<lambda>c. c = CHR ''/'') (rev s))"

definition target_url :: "distribution_settings \<Rightarrow> string \<Rightarrow> string" where
  "target_url st base = rstrip_slash base @ dg_intake_path st"

definition distribute_to_target ::
  "orch_ext \<Rightarrow> distribution_settings \<Rightarrow> drive_env \<Rightarrow> (string \<Rightarrow> string \<Rightarrow> json \<Rightarrow> 'w \<Rightarrow> post_result \<times> 'w)
     \<Rightarrow> ident \<times> ident \<times> ident \<times> string \<Rightarrow> json \<Rightarrow> target_dist_row \<Rightarrow> orch_db \<times> 'w \<Rightarrow> (py_exc + string) \<times> orch_db \<times> 'w" where
  "distribute_to_target x st env post meta rec target s =
     (let (d, w) = s in
      case map_of (dg_targets st) (dt_sentinel target) of
        None \<Rightarrow> (let (r, d1) = settle_target x env meta target ''failed'' 0 (Some ''unknown_target'') d in (r, d1, w))
      | Some base \<Rightarrow>
          (case dg_admin_token st of
             None \<Rightarrow> (let (r, d1) = settle_target x env meta target ''failed'' 0 (Some ''no_admin_token'') d in (r, d1, w))
           | Some token \<Rightarrow>
               (case intake_attempts (post (target_url st base) token rec) (nat (dg_max_attempts st)) 0 ''unknown_error'' w of
                  (Attempt_raised e, w1) \<Rightarrow> (Inl e, d, w1)
                | (Delivered_at n, w1) \<Rightarrow> (let (r, d1) = settle_target x env meta target ''distributed'' n None d in (r, d1, w1))
                | (Gave_up n err, w1) \<Rightarrow> (let (r, d1) = settle_target x env meta target ''failed'' n (Some err) d in (r, d1, w1)))))"

definition DB_CONNECTIVITY_ERRORS :: "py_exc list" where
  "DB_CONNECTIVITY_ERRORS = [OperationalError, InterfaceError, SATimeoutError, OSError, TimeoutError, ConnectionError]"

fun fan_out ::
  "orch_ext \<Rightarrow> distribution_settings \<Rightarrow> drive_env \<Rightarrow> (string \<Rightarrow> string \<Rightarrow> json \<Rightarrow> 'w \<Rightarrow> post_result \<times> 'w)
     \<Rightarrow> ident \<times> ident \<times> ident \<times> string \<Rightarrow> json \<Rightarrow> target_dist_row list \<Rightarrow> orch_db \<times> 'w \<Rightarrow> (py_exc + unit) \<times> orch_db \<times> 'w" where
  "fan_out x st env post meta rec [] s = (Inr (), s)"
| "fan_out x st env post meta rec (t # ts) s =
     (case distribute_to_target x st env post meta rec t s of
        (Inl e, s1) \<Rightarrow> if e \<in> set DB_CONNECTIVITY_ERRORS then fan_out x st env post meta rec ts s1 else (Inl e, s1)
      | (Inr _, s1) \<Rightarrow> fan_out x st env post meta rec ts s1)"

text \<open>The last two transactions: the parent's aggregate state and its audit link.\<close>

definition finish_distribution ::
  "orch_ext \<Rightarrow> drive_env \<Rightarrow> ident \<times> ident \<times> ident \<times> string \<Rightarrow> orch_db \<Rightarrow> (py_exc + unit) \<times> orch_db" where
  "finish_distribution x env meta d =
     (case meta of (distribution_id, _, tenant_id, _) \<Rightarrow>
      let aggregate = aggregate_state (map dt_state (list_distribution_targets tenant_id distribution_id d)) in
      case run_txn (de_final env) (\<lambda>s. Inr ((), update_distribution_state tenant_id distribution_id aggregate s)) d of
        (Inl e, d1) \<Rightarrow> (Inl e, d1)
      | (Inr _, d1) \<Rightarrow> run_txn (de_final_audit env) (append_distribution x meta aggregate None None) d1)"

definition drive_distribution ::
  "orch_ext \<Rightarrow> distribution_settings \<Rightarrow> drive_env \<Rightarrow> (string \<Rightarrow> string \<Rightarrow> json \<Rightarrow> 'w \<Rightarrow> post_result \<times> 'w)
     \<Rightarrow> ident \<Rightarrow> ident \<Rightarrow> orch_db \<times> 'w \<Rightarrow> (py_exc + unit) \<times> orch_db \<times> 'w" where
  "drive_distribution x st env post distribution_id tenant_id s =
     (let (d, w) = s in
      case tenant_session tenant_id of Inl e \<Rightarrow> (Inl e, s) | Inr _ \<Rightarrow>
      case de_read env of Some e \<Rightarrow> (Inl e, s) | None \<Rightarrow>
      case get_distribution (Some tenant_id) distribution_id d of
        None \<Rightarrow> (Inr (), s)
      | Some dist \<Rightarrow>
          (let meta = (distribution_id, ds_policy dist, tenant_id, ds_type dist) in
           case fan_out x st env post meta (ds_record dist) (list_distribution_targets tenant_id distribution_id d) s of
             (Inl e, s1) \<Rightarrow> (Inl e, s1)
           | (Inr _, (d1, w1)) \<Rightarrow> (let (r, d2) = finish_distribution x env meta d1 in (r, d2, w1))))"

section \<open>Submitting\<close>

definition sentinel_id_char :: "char \<Rightarrow> bool" where
  "sentinel_id_char c \<longleftrightarrow> is_digit c \<or> (CHR ''a'' \<le> c \<and> c \<le> CHR ''z'') \<or> (CHR ''A'' \<le> c \<and> c \<le> CHR ''Z'') \<or> c \<in> set ''._-''"

definition sentinel_id_pattern :: "string \<Rightarrow> bool" where
  "sentinel_id_pattern = dollar_end (\<lambda>s. s \<noteq> [] \<and> length s \<le> 128 \<and> list_all sentinel_id_char s)"

fun target_entry_ok :: "json \<Rightarrow> bool" where
  "target_entry_ok (JObj kvs) = (only_keys [''sentinel_id''] kvs
     \<and> (case jget ''sentinel_id'' kvs of JStr s \<Rightarrow> sentinel_id_pattern s | _ \<Rightarrow> False))"
| "target_entry_ok _ = False"

definition request_structure_error :: "(string \<times> json) list \<Rightarrow> string option" where
  "request_structure_error body =
     (if \<not> only_keys [''policy'', ''targets'', ''sign_on_behalf''] body then Some ''schema_invalid''
      else if \<not> is_object (jget ''policy'' body) then Some ''schema_invalid''
      else if jhas ''sign_on_behalf'' body \<and> jget ''sign_on_behalf'' body \<noteq> JBool False then Some ''sign_on_behalf_disabled''
      else if jhas ''targets'' body
      then (case jget ''targets'' body of
              JArr ts \<Rightarrow> if length ts > 256 then Some ''schema_invalid''
                         else if \<not> list_all target_entry_ok ts then Some ''schema_invalid'' else None
            | _ \<Rightarrow> Some ''schema_invalid'')
      else None)"

definition resolve_target_ids :: "(string \<times> json) list \<Rightarrow> distribution_settings \<Rightarrow> ident list" where
  "resolve_target_ids body st =
     rev (remdups (rev (if jhas ''targets'' body
       then (case jget ''targets'' body of
               JArr ts \<Rightarrow> map (\<lambda>t. case t of JObj kvs \<Rightarrow> jstring (jget ''sentinel_id'' kvs) | _ \<Rightarrow> []) ts | _ \<Rightarrow> [])
       else map fst (dg_targets st))))"

record submit_env =
  sb_persist :: txn_fault
  sb_audit :: txn_fault
  sb_now :: instant

text \<open>The persist and audit transactions shared by a submission, a rollback and a coordinated push.\<close>

definition record_submission ::
  "orch_ext \<Rightarrow> submit_env \<Rightarrow> dist_request \<Rightarrow> (ident \<Rightarrow> orch_db \<Rightarrow> py_exc + unit \<times> orch_db) \<Rightarrow> orch_db \<Rightarrow> (py_exc + ident) \<times> orch_db" where
  "record_submission x env q extra_audit d =
     (case tenant_session (dz_tenant q) of Inl e \<Rightarrow> (Inl e, d) | Inr _ \<Rightarrow>
      let (distribution_id, d0) = fresh_uuid (xo_u4 x) d in
      case run_txn (sb_persist env) (persist_distribution x distribution_id q (sb_now env)) d0 of
        (Inl e, d1) \<Rightarrow> (Inl e, d1)
      | (Inr _, d1) \<Rightarrow>
          (case run_txn (sb_audit env) (\<lambda>s. bindR (append_distribution x (distribution_id, dz_policy q, dz_tenant q, dz_type q)
                  ''submitted'' None None s) (\<lambda>(_, s1). extra_audit distribution_id s1)) d1 of
             (Inl e, d2) \<Rightarrow> (Inl e, d2)
           | (Inr _, d2) \<Rightarrow> (Inr distribution_id, d2)))"

fun column_text :: "json \<Rightarrow> py_exc + string" where
  "column_text (JStr s) = Inr s"
| "column_text _ = Inl DataError"

text \<open>The response, and the distribution scheduled for the engine.\<close>

definition submit_distribution ::
  "orch_ext \<Rightarrow> (json \<Rightarrow> string) \<Rightarrow> distribution_settings \<Rightarrow> submit_env \<Rightarrow> string option \<Rightarrow> string \<Rightarrow> orch_db
     \<Rightarrow> (py_exc + http_response \<times> (ident \<times> ident) option) \<times> orch_db" where
  "submit_distribution x hash st env authorization raw d =
     (let reject = (\<lambda>status code. (Inr (http_error status code, None), d)) in
      case require_bearer (dg_service_token st) authorization of
        Inl e \<Rightarrow> (Inl e, d)
      | Inr (Some resp) \<Rightarrow> (Inr (resp, None), d)
      | Inr None \<Rightarrow>
     (case xo_loads x raw of
        Some (JObj body) \<Rightarrow>
          (case request_structure_error body of
             Some code \<Rightarrow> reject 422 code
           | None \<Rightarrow>
               (let policy = jget ''policy'' body; p = (case policy of JObj kvs \<Rightarrow> kvs | _ \<Rightarrow> []) in
                if \<not> xo_policy_valid x policy then reject 422 ''policy_schema_invalid''
                else if contains_nul policy then reject 422 ''schema_invalid''
                else if \<not> has_keys [''tenant_id'', ''policy_id'', ''policy_version'', ''policy_type''] p then (Inl KeyError, d)
                else
                  (case bindR (tenant_argument (jget ''tenant_id'' p)) (\<lambda>t. bindR (column_text (jget ''policy_id'' p)) (\<lambda>i.
                          bindR (column_text (jget ''policy_type'' p)) (\<lambda>ty. Inr (t, i, ty)))) of
                     Inl e \<Rightarrow> (Inl e, d)
                   | Inr (tenant_id, policy_id, policy_type) \<Rightarrow>
                       (case record_submission x env
                               \<lparr>dz_policy = policy_id, dz_version = jget ''policy_version'' p, dz_tenant = tenant_id,
                                dz_type = policy_type, dz_record = policy, dz_hash = hash policy,
                                dz_targets = map (\<lambda>i. (i, dg_max_attempts st)) (resolve_target_ids body st)\<rparr>
                               (\<lambda>_ s. Inr ((), s)) d of
                          (Inl e, d1) \<Rightarrow> (Inl e, d1)
                        | (Inr distribution_id, d1) \<Rightarrow>
                            (Inr (http_ok 202 [(''distribution_id'', JStr distribution_id), (''policy_id'', JStr policy_id),
                                               (''state'', JStr ''pending'')], Some (distribution_id, tenant_id)), d1)))))
      | _ \<Rightarrow> reject 422 ''schema_invalid''))"

section \<open>Status\<close>

definition target_status :: "target_dist_row \<Rightarrow> json" where
  "target_status t = JObj ([(''sentinel_id'', JStr (dt_sentinel t)), (''state'', JStr (dt_state t))]
     @ (case dt_distributed t of
          Some at \<Rightarrow> [(''last_attempt_at'', JStr (isoformat at))]
        | None \<Rightarrow> if dt_attempts t > 0 \<or> dt_state t \<noteq> ''pending''
                  then [(''last_attempt_at'', JStr (isoformat (dt_updated t)))] else []))"

definition distribution_status_body :: "distribution_row \<Rightarrow> target_dist_row list \<Rightarrow> (string \<times> json) list" where
  "distribution_status_body r ts =
     [(''distribution_id'', JStr (ds_id r)), (''policy_id'', JStr (ds_policy r)), (''state'', JStr (ds_state r)),
      (''created_at'', JStr (isoformat (ds_created r))), (''targets'', JArr (map target_status ts))]"

definition get_distribution_status ::
  "distribution_settings \<Rightarrow> py_exc option \<Rightarrow> string option \<Rightarrow> ident \<Rightarrow> orch_db \<Rightarrow> py_exc + http_response" where
  "get_distribution_status st read authorization distribution_id d =
     (case require_bearer (dg_service_token st) authorization of
        Inl e \<Rightarrow> Inl e
      | Inr (Some resp) \<Rightarrow> Inr resp
      | Inr None \<Rightarrow>
     case read of Some e \<Rightarrow> Inl e | None \<Rightarrow>
     if \<not> no_nul distribution_id then Inl DataError
     else case get_distribution None distribution_id d of
        None \<Rightarrow> Inr (http_error 404 ''not_found'')
      | Some meta \<Rightarrow>
          bindR (tenant_session (ds_tenant meta)) (\<lambda>_.
          case get_distribution (Some (ds_tenant meta)) distribution_id d of
            None \<Rightarrow> Inr (http_error 404 ''not_found'')
          | Some r \<Rightarrow> Inr (http_ok 200 (distribution_status_body r (list_distribution_targets (ds_tenant meta) distribution_id d)))))"

section \<open>Rollback\<close>

definition validate_rollback_body :: "(string \<times> json) list \<Rightarrow> string option" where
  "validate_rollback_body body =
     (if \<not> only_keys [''tenant_id'', ''policy_id''] body then Some ''schema_invalid''
      else if \<not> has_keys [''tenant_id'', ''policy_id''] body then Some ''schema_invalid''
      else if \<not> text_field 64 (jget ''tenant_id'' body) then Some ''schema_invalid''
      else if \<not> text_field 64 (jget ''policy_id'' body) then Some ''schema_invalid''
      else None)"

definition append_rollback ::
  "orch_ext \<Rightarrow> ident \<Rightarrow> ident \<Rightarrow> ident \<Rightarrow> ident \<Rightarrow> ident \<Rightarrow> orch_db \<Rightarrow> py_exc + unit \<times> orch_db" where
  "append_rollback x tenant_id policy_id source superseded new_id d =
     bindR (append_rollback_audit_link (xo_sha x) tenant_id policy_id source superseded new_id (distribution_rollbacks (chains d)))
       (\<lambda>(_, rows). Inr ((), d\<lparr>chains := (chains d)\<lparr>distribution_rollbacks := rows\<rparr>\<rparr>))"

definition rollback_policy_distribution ::
  "orch_ext \<Rightarrow> string option \<Rightarrow> submit_env \<Rightarrow> string option \<Rightarrow> string \<Rightarrow> orch_db
     \<Rightarrow> (py_exc + http_response \<times> (ident \<times> ident) option) \<times> orch_db" where
  "rollback_policy_distribution x admin_token env authorization raw d =
     (case require_bearer admin_token authorization of
        Inl e \<Rightarrow> (Inl e, d)
      | Inr (Some resp) \<Rightarrow> (Inr (resp, None), d)
      | Inr None \<Rightarrow>
     (case parse_body (xo_loads x) raw of
        Inl resp \<Rightarrow> (Inr (resp, None), d)
      | Inr body \<Rightarrow>
     (case validate_rollback_body body of
        Some code \<Rightarrow> (Inr (http_error 422 code, None), d)
      | None \<Rightarrow>
          (let tenant_id = jstring (jget ''tenant_id'' body); policy_id = jstring (jget ''policy_id'' body) in
           case tenant_session tenant_id of Inl e \<Rightarrow> (Inl e, d) | Inr _ \<Rightarrow>
           (case list_recent_distributions_for_policy tenant_id policy_id 2 d of
              current # previous # _ \<Rightarrow>
                (case record_submission x env
                        \<lparr>dz_policy = policy_id, dz_version = ds_version previous, dz_tenant = tenant_id, dz_type = ds_type previous,
                         dz_record = ds_record previous, dz_hash = ds_content_hash previous,
                         dz_targets = map (\<lambda>t. (dt_sentinel t, dt_max_attempts t)) (list_distribution_targets tenant_id (ds_id previous) d)\<rparr>
                        (\<lambda>new_id. append_rollback x tenant_id policy_id (ds_id previous) (ds_id current) new_id) d of
                   (Inl e, d1) \<Rightarrow> (Inl e, d1)
                 | (Inr new_id, d1) \<Rightarrow>
                     (Inr (http_ok 202 [(''distribution_id'', JStr new_id), (''policy_id'', JStr policy_id), (''state'', JStr ''pending''),
                             (''rolled_back_to_distribution_id'', JStr (ds_id previous)),
                             (''superseded_distribution_id'', JStr (ds_id current))], Some (new_id, tenant_id)), d1))
            | _ \<Rightarrow> (Inr (http_error 409 ''nothing_to_roll_back_to'', None), d))))))"

end
