(* ===== verification/Orch_Registry.thy ===== *)
theory Orch_Registry
  imports Orch_Distribution
begin

text \<open>
  The Sentinel registry (\<open>orchestrator.coordination\<close> and its functions of
  \<open>persistence.repositories\<close>): the validation of endpoints, the operator's routes, the health
  cycle and the coordinated push over the healthy and capable Sentinels. Splitting a URL, reading
  an address literal with its flags and resolving a name are parameters; so are the HTTP calls,
  which change a state of type \<open>'w\<close>. The time limit of a probe is left out.
\<close>

section \<open>Settings\<close>

text \<open>Settings that are fractions of seconds (time limits, backoff) are left out, with the errors of reading them.\<close>

text \<open>The reader shared by the token maps of the relay, identity and safety seams.\<close>

definition source_tokens :: "(string \<Rightarrow> json option) \<Rightarrow> string list \<Rightarrow> environ \<Rightarrow> string \<Rightarrow> py_exc + (string \<times> string) list" where
  "source_tokens loads known env name =
     (let raw = strip (env_text env name) in
      if raw = [] then Inr []
      else case loads raw of
        Some (JObj kvs) \<Rightarrow>
          if \<not> list_all (\<lambda>kv. nonempty_text (snd kv)) kvs then Inl RuntimeError
          else if \<not> list_all (\<lambda>kv. fst kv \<in> set known) kvs then Inl RuntimeError
          else Inr (map (\<lambda>kv. (fst kv, jstring (snd kv))) kvs)
      | _ \<Rightarrow> Inl RuntimeError)"

record relay_settings =
  rs_tokens :: "(string \<times> string) list"
  rs_paths :: "string list"
  rs_max_body :: int

definition KNOWN_RELAY_SOURCE_PRODUCTS :: "string list" where "KNOWN_RELAY_SOURCE_PRODUCTS = [''delta'', ''rendly'']"

definition DEFAULT_RELAY_ALLOWED_PATHS :: "string list" where
  "DEFAULT_RELAY_ALLOWED_PATHS = [''/v1/chat/completions'', ''/v1/completions'', ''/v1/models'']"

fun comma_parts :: "string \<Rightarrow> string list" where
  "comma_parts [] = [[]]"
| "comma_parts (c # s) = (if c = CHR '','' then [] # comma_parts s
     else case comma_parts s of [] \<Rightarrow> [[c]] | p # ps \<Rightarrow> (c # p) # ps)"

definition relay_allowed_paths :: "environ \<Rightarrow> py_exc + string list" where
  "relay_allowed_paths env =
     (let raw = strip (env_text env ''ORCH_RELAY_ALLOWED_PATHS'');
          paths = map strip (filter (\<lambda>p. strip p \<noteq> []) (comma_parts raw)) in
      if raw = [] then Inr DEFAULT_RELAY_ALLOWED_PATHS
      else if paths = [] then Inr DEFAULT_RELAY_ALLOWED_PATHS
      else if \<not> list_all (prefix ''/'') paths then Inl RuntimeError
      else Inr paths)"

definition get_relay_settings :: "(string \<Rightarrow> json option) \<Rightarrow> environ \<Rightarrow> py_exc + relay_settings" where
  "get_relay_settings loads env =
     bindR (source_tokens loads KNOWN_RELAY_SOURCE_PRODUCTS env ''ORCH_RELAY_SOURCE_TOKENS'') (\<lambda>tokens.
     bindR (relay_allowed_paths env) (\<lambda>paths.
     bindR (env_int env ''ORCH_RELAY_MAX_BODY_BYTES'' 1048576 1) (\<lambda>n.
     Inr \<lparr>rs_tokens = tokens, rs_paths = paths, rs_max_body = n\<rparr>)))"

record coordination_settings =
  co_admin_token :: "string option"
  co_allowlist :: "string list"
  co_allow_http :: bool
  co_health_path :: string
  co_staleness :: int
  co_threshold :: int
  co_distribution :: distribution_settings
  co_relay :: relay_settings

definition endpoint_allowlist :: "environ \<Rightarrow> string list" where
  "endpoint_allowlist env = map (\<lambda>e. map to_lower (strip e))
     (filter (\<lambda>e. strip e \<noteq> []) (comma_parts (env_text env ''ORCH_REGISTRY_ENDPOINT_ALLOWLIST'')))"

definition get_coordination_settings :: "(string \<Rightarrow> json option) \<Rightarrow> environ \<Rightarrow> py_exc + coordination_settings" where
  "get_coordination_settings loads env =
     (let given = strip (env_text env ''ORCH_SENTINEL_HEALTH_PATH'');
          path = (if given = [] then ''/healthz'' else given);
          health_path = (if prefix ''/'' path then path else ''/'' @ path) in
      bindR (env_int env ''ORCH_HEALTH_STALENESS_SECONDS'' 300 0) (\<lambda>staleness.
      bindR (env_int env ''ORCH_HEALTH_UNREACHABLE_THRESHOLD'' 3 1) (\<lambda>threshold.
      bindR (get_distribution_settings loads env) (\<lambda>distribution.
      bindR (get_relay_settings loads env) (\<lambda>relay.
      Inr \<lparr>co_admin_token = optional_token env ''ORCH_ADMIN_TOKEN'', co_allowlist = endpoint_allowlist env,
           co_allow_http = env_bool env ''ORCH_REGISTRY_ALLOW_HTTP'', co_health_path = health_path,
           co_staleness = staleness, co_threshold = threshold, co_distribution = distribution, co_relay = relay\<rparr>)))))"

section \<open>Endpoints\<close>

record url_parts =
  up_scheme :: string
  up_username :: "string option"
  up_password :: "string option"
  up_fragment :: string
  up_hostname :: "string option"
  up_port :: "int option option"

text \<open>The flags of an address object; \<open>up_port\<close> is \<open>None\<close> when reading the port raises.\<close>

record ip_info =
  ip_private :: bool
  ip_loopback :: bool
  ip_link_local :: bool
  ip_multicast :: bool
  ip_reserved :: bool
  ip_unspecified :: bool

datatype dns_answer = Dns_addrs "string list" | Dns_failed | Dns_raised py_exc

record url_ext =
  ux_urlsplit :: "string \<Rightarrow> url_parts option"
  ux_ip :: "string \<Rightarrow> ip_info option"

datatype reg_error = Reg_validation string | Reg_endpoint string | Reg_conflict | Reg_not_found | Reg_raised py_exc

definition is_blocked_ip :: "ip_info \<Rightarrow> bool" where
  "is_blocked_ip ip \<longleftrightarrow> ip_private ip \<or> ip_loopback ip \<or> ip_link_local ip \<or> ip_multicast ip \<or> ip_reserved ip \<or> ip_unspecified ip"

definition resolve_ips :: "url_ext \<Rightarrow> (string \<Rightarrow> dns_answer) \<Rightarrow> string \<Rightarrow> reg_error + ip_info list" where
  "resolve_ips u dns host =
     (case ux_ip u host of
        Some ip \<Rightarrow> Inr [ip]
      | None \<Rightarrow>
          (case dns host of
             Dns_failed \<Rightarrow> Inl (Reg_endpoint ''dns_resolution_failed'')
           | Dns_raised e \<Rightarrow> Inl (Reg_raised e)
           | Dns_addrs candidates \<Rightarrow>
               (let ips = List.map_filter (ux_ip u) candidates in
                if ips = [] then Inl (Reg_endpoint ''dns_resolution_failed'') else Inr ips)))"

definition validate_endpoint :: "url_ext \<Rightarrow> (string \<Rightarrow> dns_answer) \<Rightarrow> string list \<Rightarrow> bool \<Rightarrow> string \<Rightarrow> reg_error + string" where
  "validate_endpoint u dns allowlist allow_http url =
     (let raw = strip url in
      if raw = [] then Inl (Reg_endpoint ''empty_endpoint'')
      else case ux_urlsplit u raw of
        None \<Rightarrow> Inl (Reg_endpoint ''malformed_url'')
      | Some parts \<Rightarrow>
          (let scheme = map to_lower (up_scheme parts) in
           if scheme \<notin> {''https'', ''http''} then Inl (Reg_endpoint ''scheme_not_allowed'')
           else if up_username parts \<notin> {None, Some []} \<or> up_password parts \<notin> {None, Some []}
           then Inl (Reg_endpoint ''embedded_credentials'')
           else if up_fragment parts \<noteq> [] then Inl (Reg_endpoint ''fragment_not_allowed'')
           else if up_hostname parts \<in> {None, Some []} then Inl (Reg_endpoint ''missing_host'')
           else case up_port parts of
             None \<Rightarrow> Inl (Reg_endpoint ''malformed_url'')
           | Some port \<Rightarrow>
               (let host = map to_lower (the (up_hostname parts));
                    allowlisted = (host \<in> set allowlist
                      \<or> (case port of None \<Rightarrow> False | Some p \<Rightarrow> (host @ '':'' @ dec_int p) \<in> set allowlist)) in
                if scheme = ''http'' \<and> \<not> (allow_http \<and> allowlisted) then Inl (Reg_endpoint ''http_not_allowed'')
                else bindR (resolve_ips u dns host) (\<lambda>ips.
                  if \<exists>ip \<in> set ips. is_blocked_ip ip \<and> \<not> allowlisted then Inl (Reg_endpoint ''blocked_private_ip'')
                  else Inr raw))))"

section \<open>The table\<close>

definition HEALTH_STATES :: "string list" where
  "HEALTH_STATES = [''unknown'', ''healthy'', ''degraded'', ''unreachable'']"

definition get_sentinel :: "ident \<Rightarrow> orch_db \<Rightarrow> sentinel_row option" where
  "get_sentinel sentinel_id d = List.find (\<lambda>r. sr_id r = sentinel_id) (sentinel_registry d)"

definition list_sentinels :: "orch_db \<Rightarrow> sentinel_row list" where
  "list_sentinels d = sort_key sr_id (sentinel_registry d)"

definition insert_sentinel :: "sentinel_row \<Rightarrow> orch_db \<Rightarrow> py_exc + orch_db" where
  "insert_sentinel r d =
     bindR (guardR (varchar_ok 128 (sr_id r) \<and> varchar_ok 128 (sr_peer_auth_ref r) \<and> no_nul (sr_endpoint r)) DataError) (\<lambda>_.
     bindR (guardR (sr_health r \<in> set HEALTH_STATES \<and> 0 \<le> sr_failures r) IntegrityError) (\<lambda>_.
     bindR (insert_unique IntegrityError sr_id r (sentinel_registry d)) (\<lambda>rows.
     Inr (d\<lparr>sentinel_registry := rows\<rparr>))))"

record sentinel_change =
  sc_endpoint :: "string option"
  sc_capabilities :: "string list option"
  sc_peer_auth_ref :: "string option"
  sc_enabled :: "bool option"

definition update_sentinel :: "ident \<Rightarrow> sentinel_change \<Rightarrow> instant \<Rightarrow> orch_db \<Rightarrow> orch_db" where
  "update_sentinel sentinel_id v now d = d\<lparr>sentinel_registry := update_where (\<lambda>r. sr_id r = sentinel_id)
     (\<lambda>r. r\<lparr>sr_endpoint := (case sc_endpoint v of None \<Rightarrow> sr_endpoint r | Some e \<Rightarrow> e),
            sr_capabilities := (case sc_capabilities v of None \<Rightarrow> sr_capabilities r | Some c \<Rightarrow> c),
            sr_peer_auth_ref := (case sc_peer_auth_ref v of None \<Rightarrow> sr_peer_auth_ref r | Some p \<Rightarrow> p),
            sr_enabled := (case sc_enabled v of None \<Rightarrow> sr_enabled r | Some b \<Rightarrow> b), sr_updated := now\<rparr>)
     (sentinel_registry d)\<rparr>"

definition update_sentinel_health :: "ident \<Rightarrow> string \<Rightarrow> int \<Rightarrow> instant \<Rightarrow> instant option \<Rightarrow> orch_db \<Rightarrow> py_exc + unit \<times> orch_db" where
  "update_sentinel_health sentinel_id status failures checked healthy d =
     bindR (guardR (failures < 2 ^ 31 \<or> get_sentinel sentinel_id d = None) DataError) (\<lambda>_.
     Inr ((), d\<lparr>sentinel_registry := update_where (\<lambda>r. sr_id r = sentinel_id)
       (\<lambda>r. r\<lparr>sr_health := status, sr_failures := failures, sr_checked := Some checked, sr_updated := checked,
              sr_healthy := (case healthy of None \<Rightarrow> sr_healthy r | Some t \<Rightarrow> Some t)\<rparr>)
       (sentinel_registry d)\<rparr>))"

definition delete_sentinel :: "ident \<Rightarrow> orch_db \<Rightarrow> orch_db" where
  "delete_sentinel sentinel_id d = d\<lparr>sentinel_registry := filter (\<lambda>r. sr_id r \<noteq> sentinel_id) (sentinel_registry d)\<rparr>"

definition canon_capabilities :: "string list \<Rightarrow> string" where
  "canon_capabilities caps = json_dumps False (JArr (map JStr caps))"

definition append_registry ::
  "orch_ext \<Rightarrow> ident \<Rightarrow> string \<Rightarrow> string \<Rightarrow> string option \<Rightarrow> string list option \<Rightarrow> string option \<Rightarrow> orch_db \<Rightarrow> py_exc + unit \<times> orch_db" where
  "append_registry x sentinel_id action disposition endpoint capabilities err d =
     bindR (append_registry_audit_link (xo_sha x) sentinel_id action disposition endpoint (map_option canon_capabilities capabilities) err
       (sentinel_registry_audit_log (chains d))) (\<lambda>(_, rows).
     Inr ((), d\<lparr>chains := (chains d)\<lparr>sentinel_registry_audit_log := rows\<rparr>\<rparr>))"

section \<open>Registering, modifying and deregistering\<close>

definition KNOWN_POLICY_TYPES :: "string list" where
  "KNOWN_POLICY_TYPES = [''budget_limit'', ''model_allowlist'', ''model_approval'', ''model_denylist'', ''code_scan'', ''data_lock'']"

fun validate_sentinel_id :: "json \<Rightarrow> reg_error + ident" where
  "validate_sentinel_id (JStr s) = (if sentinel_id_pattern s then Inr s else Inl (Reg_validation ''invalid_sentinel_id''))"
| "validate_sentinel_id _ = Inl (Reg_validation ''invalid_sentinel_id'')"

fun validate_capabilities :: "json \<Rightarrow> reg_error + string list" where
  "validate_capabilities (JArr caps) =
     (if caps = [] \<or> \<not> list_all (\<lambda>c. c \<in> JStr ` set KNOWN_POLICY_TYPES) caps then Inl (Reg_validation ''invalid_capabilities'')
      else Inr (rev (remdups (rev (map jstring caps)))))"
| "validate_capabilities _ = Inl (Reg_validation ''invalid_capabilities'')"

fun validate_peer_auth_ref :: "json \<Rightarrow> reg_error + string" where
  "validate_peer_auth_ref JNull = Inr ''global''"
| "validate_peer_auth_ref v = (if text_field 128 v then Inr (jstring v) else Inl (Reg_validation ''invalid_peer_auth_ref''))"

record reg_env =
  re_dns :: "string \<Rightarrow> dns_answer"
  re_audit :: txn_fault
  re_write :: txn_fault
  re_read :: "py_exc option"
  re_now :: instant

text \<open>A transaction of the registry: a check that may raise, then the writes.\<close>

definition reg_txn :: "txn_fault \<Rightarrow> reg_error option \<Rightarrow> (orch_db \<Rightarrow> py_exc + unit \<times> orch_db) \<Rightarrow> orch_db \<Rightarrow> (reg_error + unit) \<times> orch_db" where
  "reg_txn fault refused m d =
     (case (fault, refused) of
        (Txn_abort e, _) \<Rightarrow> (Inl (Reg_raised e), d)
      | (_, Some e) \<Rightarrow> (Inl e, d)
      | (_, None) \<Rightarrow> (case run_txn fault m d of (Inl e, d') \<Rightarrow> (Inl (Reg_raised e), d') | (Inr _, d') \<Rightarrow> (Inr (), d')))"

text \<open>A rejected endpoint is recorded before the error is raised again.\<close>

definition audit_rejected ::
  "orch_ext \<Rightarrow> reg_env \<Rightarrow> ident \<Rightarrow> string \<Rightarrow> string \<Rightarrow> string list option \<Rightarrow> reg_error \<Rightarrow> orch_db \<Rightarrow> reg_error \<times> orch_db" where
  "audit_rejected x env sentinel_id action endpoint capabilities err d =
     (case err of
        Reg_endpoint reason \<Rightarrow>
          (case run_txn (re_audit env) (append_registry x sentinel_id action ''rejected'' (Some endpoint) capabilities (Some reason)) d of
             (Inl e, d') \<Rightarrow> (Reg_raised e, d')
           | (Inr _, d') \<Rightarrow> (err, d'))
      | _ \<Rightarrow> (err, d))"

definition refetch :: "reg_env \<Rightarrow> ident \<Rightarrow> orch_db \<Rightarrow> reg_error + sentinel_row" where
  "refetch env sentinel_id d =
     (case re_read env of
        Some e \<Rightarrow> Inl (Reg_raised e)
      | None \<Rightarrow> (case get_sentinel sentinel_id d of None \<Rightarrow> Inl (Reg_raised RuntimeError) | Some r \<Rightarrow> Inr r))"

definition register_sentinel ::
  "orch_ext \<Rightarrow> url_ext \<Rightarrow> coordination_settings \<Rightarrow> reg_env \<Rightarrow> json \<Rightarrow> json \<Rightarrow> json \<Rightarrow> json \<Rightarrow> orch_db \<Rightarrow> (reg_error + sentinel_row) \<times> orch_db" where
  "register_sentinel x u st env sentinel_id endpoint capabilities peer_auth_ref d =
     (case bindR (validate_sentinel_id sentinel_id) (\<lambda>sid. bindR (validate_capabilities capabilities) (\<lambda>caps.
           bindR (validate_peer_auth_ref peer_auth_ref) (\<lambda>ref.
           case endpoint of JStr ep \<Rightarrow> Inr (sid, caps, ref, ep) | _ \<Rightarrow> Inl (Reg_validation ''invalid_endpoint'')))) of
        Inl e \<Rightarrow> (Inl e, d)
      | Inr (sid, caps, ref, ep) \<Rightarrow>
          (case validate_endpoint u (re_dns env) (co_allowlist st) (co_allow_http st) ep of
             Inl err \<Rightarrow> (let (e, d') = audit_rejected x env sid ''register'' ep (Some caps) err d in (Inl e, d'))
           | Inr normalized \<Rightarrow>
               (case reg_txn (re_write env) (if get_sentinel sid d \<noteq> None then Some Reg_conflict else None)
                       (\<lambda>s. bindR (insert_sentinel
                            \<lparr>sr_id = sid, sr_endpoint = normalized, sr_peer_auth_ref = ref, sr_capabilities = caps, sr_health = ''unknown'',
                             sr_failures = 0, sr_checked = None, sr_healthy = None, sr_enabled = True, sr_created = re_now env,
                             sr_updated = re_now env\<rparr> s) (\<lambda>s1.
                          append_registry x sid ''register'' ''accepted'' (Some normalized) (Some caps) None s1)) d of
                  (Inl e, d') \<Rightarrow> (Inl e, d')
                | (Inr _, d') \<Rightarrow> (refetch env sid d', d'))))"

definition opt_field :: "(json \<Rightarrow> reg_error + 'a) \<Rightarrow> json \<Rightarrow> reg_error + 'a option" where
  "opt_field f v = (if v = JNull then Inr None else bindR (f v) (\<lambda>a. Inr (Some a)))"

fun bool_field :: "json \<Rightarrow> reg_error + bool" where
  "bool_field (JBool b) = Inr b"
| "bool_field _ = Inl (Reg_validation ''invalid_enabled'')"

definition change_action :: "sentinel_change \<Rightarrow> string" where
  "change_action v =
     (if sc_endpoint v = None \<and> sc_capabilities v = None \<and> sc_peer_auth_ref v = None
      then (if sc_enabled v = Some True then ''enable'' else ''disable'') else ''modify'')"

definition modify_sentinel ::
  "orch_ext \<Rightarrow> url_ext \<Rightarrow> coordination_settings \<Rightarrow> reg_env \<Rightarrow> ident \<Rightarrow> json \<Rightarrow> json \<Rightarrow> json \<Rightarrow> json \<Rightarrow> orch_db
     \<Rightarrow> (reg_error + sentinel_row) \<times> orch_db" where
  "modify_sentinel x u st env sentinel_id endpoint capabilities peer_auth_ref enabled d =
     (case (case endpoint of JNull \<Rightarrow> Inr None
            | JStr ep \<Rightarrow> bindR (validate_endpoint u (re_dns env) (co_allowlist st) (co_allow_http st) ep) (\<lambda>n. Inr (Some n))
            | _ \<Rightarrow> Inl (Reg_validation ''invalid_endpoint'')) of
        Inl err \<Rightarrow> (let (e, d') = audit_rejected x env sentinel_id ''modify'' (jstring endpoint) None err d in (Inl e, d'))
      | Inr ep \<Rightarrow>
          (case bindR (opt_field validate_capabilities capabilities) (\<lambda>caps. bindR (opt_field validate_peer_auth_ref peer_auth_ref) (\<lambda>ref.
                bindR (opt_field bool_field enabled) (\<lambda>en.
                Inr \<lparr>sc_endpoint = ep, sc_capabilities = caps, sc_peer_auth_ref = ref, sc_enabled = en\<rparr>))) of
             Inl e \<Rightarrow> (Inl e, d)
           | Inr v \<Rightarrow>
               if v = \<lparr>sc_endpoint = None, sc_capabilities = None, sc_peer_auth_ref = None, sc_enabled = None\<rparr>
               then (Inl (Reg_validation ''empty_modification''), d)
               else
                 (case reg_txn (re_write env) (if get_sentinel sentinel_id d = None then Some Reg_not_found else None)
                         (\<lambda>s. append_registry x sentinel_id (change_action v) ''accepted'' (sc_endpoint v) (sc_capabilities v) None
                                (update_sentinel sentinel_id v (re_now env) s)) d of
                    (Inl e, d') \<Rightarrow> (Inl e, d')
                  | (Inr _, d') \<Rightarrow> (refetch env sentinel_id d', d'))))"

definition deregister_sentinel :: "orch_ext \<Rightarrow> reg_env \<Rightarrow> ident \<Rightarrow> orch_db \<Rightarrow> (reg_error + unit) \<times> orch_db" where
  "deregister_sentinel x env sentinel_id d =
     (let existing = get_sentinel sentinel_id d in
      reg_txn (re_write env) (if existing = None then Some Reg_not_found else None)
        (\<lambda>s. append_registry x sentinel_id ''deregister'' ''accepted'' (map_option sr_endpoint existing) None None (delete_sentinel sentinel_id s)) d)"

section \<open>Health\<close>

definition effective_health_status :: "int \<Rightarrow> instant \<Rightarrow> sentinel_row \<Rightarrow> string" where
  "effective_health_status staleness now r =
     (if sr_health r \<noteq> ''healthy'' \<or> staleness \<le> 0 then sr_health r
      else case sr_checked r of
        None \<Rightarrow> ''degraded''
      | Some t \<Rightarrow> if now - t > staleness * 1000000 then ''degraded'' else ''healthy'')"

datatype probe_answer = Probe_status int | Probe_transport | Probe_raised py_exc

record probe_result =
  pr_status :: string
  pr_failures :: int
  pr_healthy :: "instant option"
  pr_reason :: "string option"

definition probe_one ::
  "url_ext \<Rightarrow> coordination_settings \<Rightarrow> (string \<Rightarrow> dns_answer) \<Rightarrow> instant \<Rightarrow> (string \<Rightarrow> 'w \<Rightarrow> probe_answer \<times> 'w) \<Rightarrow> sentinel_row \<Rightarrow> 'w
     \<Rightarrow> (py_exc + probe_result) \<times> 'w" where
  "probe_one u st dns now get r w =
     (let failures = sr_failures r + 1 in
      case validate_endpoint u dns (co_allowlist st) (co_allow_http st) (sr_endpoint r) of
        Inl (Reg_endpoint reason) \<Rightarrow>
          (Inr \<lparr>pr_status = ''unreachable'', pr_failures = failures, pr_healthy = None, pr_reason = Some (''invalid_endpoint:'' @ reason)\<rparr>, w)
      | Inl (Reg_raised e) \<Rightarrow> (Inl e, w)
      | Inl _ \<Rightarrow> (Inl RuntimeError, w)
      | Inr validated \<Rightarrow>
          (case get (rstrip_slash validated @ co_health_path st) w of
             (Probe_raised e, w1) \<Rightarrow> (Inl e, w1)
           | (Probe_transport, w1) \<Rightarrow>
               (Inr \<lparr>pr_status = (if failures \<ge> co_threshold st then ''unreachable'' else ''degraded''), pr_failures = failures,
                     pr_healthy = None, pr_reason = Some ''connect_error''\<rparr>, w1)
           | (Probe_status status, w1) \<Rightarrow>
               if 200 \<le> status \<and> status < 300
               then (Inr \<lparr>pr_status = ''healthy'', pr_failures = 0, pr_healthy = Some now, pr_reason = None\<rparr>, w1)
               else (Inr \<lparr>pr_status = ''degraded'', pr_failures = failures, pr_healthy = None,
                         pr_reason = Some (''http_'' @ dec_int status)\<rparr>, w1)))"

record health_env =
  hv_read :: "py_exc option"
  hv_dns :: "ident \<Rightarrow> string \<Rightarrow> dns_answer"
  hv_probed :: "ident \<Rightarrow> instant"
  hv_checked :: "ident \<Rightarrow> instant"
  hv_write :: "ident \<Rightarrow> txn_fault"

type_synonym health_report = "ident \<times> string \<times> string \<times> int \<times> string option"

fun poll_sentinels ::
  "url_ext \<Rightarrow> coordination_settings \<Rightarrow> health_env \<Rightarrow> (string \<Rightarrow> 'w \<Rightarrow> probe_answer \<times> 'w) \<Rightarrow> sentinel_row list \<Rightarrow> orch_db \<times> 'w
     \<Rightarrow> (py_exc + health_report list) \<times> orch_db \<times> 'w" where
  "poll_sentinels u st env get [] s = (Inr [], s)"
| "poll_sentinels u st env get (r # rs) (d, w) =
     (if \<not> sr_enabled r
      then (let (y, s) = poll_sentinels u st env get rs (d, w) in
            (bindR y (\<lambda>reports. Inr ((sr_id r, sr_health r, sr_health r, sr_failures r, Some ''disabled'') # reports)), s))
      else
        (case probe_one u st (hv_dns env (sr_id r)) (hv_probed env (sr_id r)) get r w of
           (Inl e, w1) \<Rightarrow> (Inl e, d, w1)
         | (Inr p, w1) \<Rightarrow>
             (case run_txn (hv_write env (sr_id r)) (update_sentinel_health (sr_id r) (pr_status p) (pr_failures p)
                     (hv_checked env (sr_id r)) (pr_healthy p)) d of
                (Inl e, d1) \<Rightarrow> (Inl e, d1, w1)
              | (Inr _, d1) \<Rightarrow>
                  (let (y, s) = poll_sentinels u st env get rs (d1, w1) in
                   (bindR y (\<lambda>reports. Inr ((sr_id r, sr_health r, pr_status p, pr_failures p, pr_reason p) # reports)), s)))))"

definition run_health_cycle ::
  "url_ext \<Rightarrow> coordination_settings \<Rightarrow> health_env \<Rightarrow> (string \<Rightarrow> 'w \<Rightarrow> probe_answer \<times> 'w) \<Rightarrow> orch_db \<times> 'w
     \<Rightarrow> (py_exc + health_report list) \<times> orch_db \<times> 'w" where
  "run_health_cycle u st env get s =
     (case hv_read env of Some e \<Rightarrow> (Inl e, s) | None \<Rightarrow> poll_sentinels u st env get (list_sentinels (fst s)) s)"

section \<open>The coordinated push\<close>

fun select_targets ::
  "url_ext \<Rightarrow> coordination_settings \<Rightarrow> (ident \<Rightarrow> string \<Rightarrow> dns_answer) \<Rightarrow> instant \<Rightarrow> string \<Rightarrow> sentinel_row list
     \<Rightarrow> py_exc + (ident \<times> string) list \<times> (ident \<times> string) list" where
  "select_targets u st dns now policy_type [] = Inr ([], [])"
| "select_targets u st dns now policy_type (r # rs) =
     (let skip = (\<lambda>reason. bindR (select_targets u st dns now policy_type rs) (\<lambda>(selected, skipped). Inr (selected, (sr_id r, reason) # skipped))) in
      if \<not> sr_enabled r then skip ''disabled''
      else if effective_health_status (co_staleness st) now r \<noteq> ''healthy'' then skip ''unhealthy''
      else if policy_type \<notin> set (sr_capabilities r) then skip ''incapable''
      else case validate_endpoint u (dns (sr_id r)) (co_allowlist st) (co_allow_http st) (sr_endpoint r) of
        Inl (Reg_endpoint _) \<Rightarrow> skip ''invalid_endpoint''
      | Inl (Reg_raised e) \<Rightarrow> Inl e
      | Inl _ \<Rightarrow> Inl RuntimeError
      | Inr _ \<Rightarrow> bindR (select_targets u st dns now policy_type rs) (\<lambda>(selected, skipped). Inr ((sr_id r, sr_endpoint r) # selected, skipped)))"

record push_env =
  pe_read :: "py_exc option"
  pe_dns :: "ident \<Rightarrow> string \<Rightarrow> dns_answer"
  pe_now :: instant
  pe_submit :: submit_env
  pe_drive :: drive_env
  pe_readback :: "py_exc option"

definition push_report :: "ident \<Rightarrow> ident \<Rightarrow> (ident \<times> string) list \<Rightarrow> ident \<Rightarrow> orch_db \<Rightarrow> (string \<times> json) list" where
  "push_report distribution_id policy_id skipped tenant_id d =
     [(''distribution_id'', JStr distribution_id), (''policy_id'', JStr policy_id),
      (''state'', JStr (case get_distribution (Some tenant_id) distribution_id d of None \<Rightarrow> ''failed'' | Some r \<Rightarrow> ds_state r)),
      (''targets'', JArr (map (\<lambda>t. JObj [(''sentinel_id'', JStr (dt_sentinel t)), (''state'', JStr (dt_state t))])
            (list_distribution_targets tenant_id distribution_id d)
          @ map (\<lambda>(i, reason). JObj [(''sentinel_id'', JStr i), (''state'', JStr ''skipped''), (''reason'', JStr reason)]) skipped)),
      (''skipped'', JArr (map (\<lambda>(i, reason). JObj [(''sentinel_id'', JStr i), (''reason'', JStr reason)]) skipped))]"

definition coordinate_push ::
  "orch_ext \<Rightarrow> url_ext \<Rightarrow> (json \<Rightarrow> string) \<Rightarrow> coordination_settings \<Rightarrow> push_env
     \<Rightarrow> (string \<Rightarrow> string \<Rightarrow> json \<Rightarrow> 'w \<Rightarrow> post_result \<times> 'w) \<Rightarrow> (string \<times> json) list \<Rightarrow> ident \<Rightarrow> orch_db \<times> 'w
     \<Rightarrow> (py_exc + (string \<times> json) list) \<times> orch_db \<times> 'w" where
  "coordinate_push x u hash st env post policy tenant_id s =
     (let (d, w) = s in
      case bindR (column_text (jget ''policy_id'' policy)) (\<lambda>i. bindR (column_text (jget ''policy_type'' policy)) (\<lambda>ty.
           case pe_read env of Some e \<Rightarrow> Inl e | None \<Rightarrow>
           bindR (select_targets u st (pe_dns env) (pe_now env) ty (list_sentinels d)) (\<lambda>sel. Inr (i, ty, sel)))) of
        Inl e \<Rightarrow> (Inl e, s)
      | Inr (policy_id, policy_type, selected, skipped) \<Rightarrow>
          (let dist_settings = (co_distribution st)\<lparr>dg_targets := selected\<rparr> in
           case record_submission x (pe_submit env)
                  \<lparr>dz_policy = policy_id, dz_version = jget ''policy_version'' policy, dz_tenant = tenant_id, dz_type = policy_type,
                   dz_record = JObj policy, dz_hash = hash (JObj policy),
                   dz_targets = map (\<lambda>t. (fst t, dg_max_attempts dist_settings)) selected\<rparr> (\<lambda>_ s. Inr ((), s)) d of
             (Inl e, d1) \<Rightarrow> (Inl e, d1, w)
           | (Inr distribution_id, d1) \<Rightarrow>
               (case drive_distribution x dist_settings (pe_drive env) post distribution_id tenant_id (d1, w) of
                  (Inl e, s2) \<Rightarrow> (Inl e, s2)
                | (Inr _, (d2, w2)) \<Rightarrow>
                    (case pe_readback env of
                       Some e \<Rightarrow> (Inl e, d2, w2)
                     | None \<Rightarrow> (Inr (push_report distribution_id policy_id skipped tenant_id d2), d2, w2)))))"

section \<open>The routes\<close>

definition MAX_BODY_BYTES :: nat where "MAX_BODY_BYTES = 65536"

definition parse_object_body :: "(string \<Rightarrow> json option) \<Rightarrow> string \<Rightarrow> http_response + (string \<times> json) list" where
  "parse_object_body loads raw =
     (if length raw > MAX_BODY_BYTES then Inl (http_error 413 ''request_too_large'') else parse_body loads raw)"

definition opt_time :: "instant option \<Rightarrow> json" where
  "opt_time t = (case t of None \<Rightarrow> JNull | Some i \<Rightarrow> JStr (isoformat i))"

definition serialize_sentinel :: "sentinel_row \<Rightarrow> (string \<times> json) list" where
  "serialize_sentinel r =
     [(''sentinel_id'', JStr (sr_id r)), (''endpoint'', JStr (sr_endpoint r)), (''peer_auth_ref'', JStr (sr_peer_auth_ref r)),
      (''capabilities'', JArr (map JStr (sr_capabilities r))), (''health_status'', JStr (sr_health r)),
      (''consecutive_failures'', JInt (sr_failures r)), (''last_checked_at'', opt_time (sr_checked r)),
      (''last_healthy_at'', opt_time (sr_healthy r)), (''enabled'', JBool (sr_enabled r)),
      (''created_at'', JStr (isoformat (sr_created r))), (''updated_at'', JStr (isoformat (sr_updated r)))]"

fun map_registry_error :: "reg_error \<Rightarrow> py_exc + http_response" where
  "map_registry_error (Reg_validation reason) = Inr (http_error 422 reason)"
| "map_registry_error (Reg_endpoint reason) = Inr (http_error 422 reason)"
| "map_registry_error Reg_conflict = Inr (http_error 409 ''already_registered'')"
| "map_registry_error Reg_not_found = Inr (http_error 404 ''not_found'')"
| "map_registry_error (Reg_raised e) = Inl e"

text \<open>The operator's token, then the handler.\<close>

definition operator_route ::
  "coordination_settings \<Rightarrow> string option \<Rightarrow> ('s \<Rightarrow> (py_exc + http_response) \<times> 's) \<Rightarrow> 's \<Rightarrow> (py_exc + http_response) \<times> 's" where
  "operator_route st authorization handler s =
     (case require_bearer (co_admin_token st) authorization of
        Inl e \<Rightarrow> (Inl e, s)
      | Inr (Some resp) \<Rightarrow> (Inr resp, s)
      | Inr None \<Rightarrow> handler s)"

definition with_body ::
  "orch_ext \<Rightarrow> string list \<Rightarrow> string \<Rightarrow> ((string \<times> json) list \<Rightarrow> 's \<Rightarrow> (py_exc + http_response) \<times> 's) \<Rightarrow> 's \<Rightarrow> (py_exc + http_response) \<times> 's" where
  "with_body x ks raw handler s =
     (case parse_object_body (xo_loads x) raw of
        Inl resp \<Rightarrow> (Inr resp, s)
      | Inr body \<Rightarrow> if \<not> only_keys ks body then (Inr (http_error 422 ''schema_invalid''), s) else handler body s)"

definition register_route ::
  "orch_ext \<Rightarrow> url_ext \<Rightarrow> coordination_settings \<Rightarrow> reg_env \<Rightarrow> string option \<Rightarrow> string \<Rightarrow> orch_db \<Rightarrow> (py_exc + http_response) \<times> orch_db" where
  "register_route x u st env authorization raw =
     operator_route st authorization (with_body x [''sentinel_id'', ''endpoint'', ''capabilities'', ''peer_auth_ref''] raw (\<lambda>body d.
       case register_sentinel x u st env (jget ''sentinel_id'' body) (jget ''endpoint'' body) (jget ''capabilities'' body)
              (jget ''peer_auth_ref'' body) d of
         (Inl e, d') \<Rightarrow> (map_registry_error e, d')
       | (Inr r, d') \<Rightarrow> (Inr (http_ok 201 (serialize_sentinel r)), d')))"

definition list_registered :: "coordination_settings \<Rightarrow> py_exc option \<Rightarrow> string option \<Rightarrow> orch_db \<Rightarrow> (py_exc + http_response) \<times> orch_db" where
  "list_registered st read authorization =
     operator_route st authorization (\<lambda>d. case read of Some e \<Rightarrow> (Inl e, d)
       | None \<Rightarrow> (Inr (http_ok 200 [(''sentinels'', JArr (map (\<lambda>r. JObj (serialize_sentinel r)) (list_sentinels d)))]), d))"

definition read_one :: "coordination_settings \<Rightarrow> py_exc option \<Rightarrow> string option \<Rightarrow> ident \<Rightarrow> orch_db \<Rightarrow> (py_exc + http_response) \<times> orch_db" where
  "read_one st read authorization sentinel_id =
     operator_route st authorization (\<lambda>d. case read of Some e \<Rightarrow> (Inl e, d)
       | None \<Rightarrow> if \<not> no_nul sentinel_id then (Inl DataError, d)
           else (case get_sentinel sentinel_id d of
             None \<Rightarrow> (Inr (http_error 404 ''not_found''), d)
           | Some r \<Rightarrow> (Inr (http_ok 200 (serialize_sentinel r)), d)))"

definition modify_route ::
  "orch_ext \<Rightarrow> url_ext \<Rightarrow> coordination_settings \<Rightarrow> reg_env \<Rightarrow> string option \<Rightarrow> ident \<Rightarrow> string \<Rightarrow> orch_db \<Rightarrow> (py_exc + http_response) \<times> orch_db" where
  "modify_route x u st env authorization sentinel_id raw =
     operator_route st authorization (with_body x [''endpoint'', ''capabilities'', ''peer_auth_ref'', ''enabled''] raw (\<lambda>body d.
       case modify_sentinel x u st env sentinel_id (jget ''endpoint'' body) (jget ''capabilities'' body) (jget ''peer_auth_ref'' body)
              (jget ''enabled'' body) d of
         (Inl e, d') \<Rightarrow> (map_registry_error e, d')
       | (Inr r, d') \<Rightarrow> (Inr (http_ok 200 (serialize_sentinel r)), d')))"

definition deregister_route ::
  "orch_ext \<Rightarrow> coordination_settings \<Rightarrow> reg_env \<Rightarrow> string option \<Rightarrow> ident \<Rightarrow> orch_db \<Rightarrow> (py_exc + http_response) \<times> orch_db" where
  "deregister_route x st env authorization sentinel_id =
     operator_route st authorization (\<lambda>d. case deregister_sentinel x env sentinel_id d of
         (Inl e, d') \<Rightarrow> (map_registry_error e, d')
       | (Inr _, d') \<Rightarrow> (Inr (http_ok 200 [(''sentinel_id'', JStr sentinel_id), (''deregistered'', JBool True)]), d'))"

definition health_report_body :: "health_report \<Rightarrow> json" where
  "health_report_body r = (case r of (i, previous, status, failures, reason) \<Rightarrow>
     JObj ([(''sentinel_id'', JStr i), (''previous_status'', JStr previous), (''status'', JStr status), (''consecutive_failures'', JInt failures)]
       @ (case reason of None \<Rightarrow> [] | Some t \<Rightarrow> [(''reason'', JStr t)])))"

definition health_check ::
  "url_ext \<Rightarrow> coordination_settings \<Rightarrow> health_env \<Rightarrow> (string \<Rightarrow> 'w \<Rightarrow> probe_answer \<times> 'w) \<Rightarrow> string option \<Rightarrow> orch_db \<times> 'w
     \<Rightarrow> (py_exc + http_response) \<times> orch_db \<times> 'w" where
  "health_check u st env get authorization =
     operator_route st authorization (\<lambda>s. let (y, s') = run_health_cycle u st env get s in
       (bindR y (\<lambda>reports. Inr (http_ok 200 [(''results'', JArr (map health_report_body reports))])), s'))"

definition coordinate ::
  "orch_ext \<Rightarrow> url_ext \<Rightarrow> (json \<Rightarrow> string) \<Rightarrow> coordination_settings \<Rightarrow> push_env
     \<Rightarrow> (string \<Rightarrow> string \<Rightarrow> json \<Rightarrow> 'w \<Rightarrow> post_result \<times> 'w) \<Rightarrow> string option \<Rightarrow> string \<Rightarrow> orch_db \<times> 'w
     \<Rightarrow> (py_exc + http_response) \<times> orch_db \<times> 'w" where
  "coordinate x u hash st env post authorization raw =
     operator_route st authorization (with_body x [''policy''] raw (\<lambda>body s.
       case jget ''policy'' body of
         JObj policy \<Rightarrow>
           if \<not> xo_policy_valid x (JObj policy) then (Inr (http_error 422 ''policy_schema_invalid''), s)
           else if \<not> has_keys [''tenant_id'', ''policy_id'', ''policy_version'', ''policy_type''] policy then (Inl KeyError, s)
           else (case tenant_argument (jget ''tenant_id'' policy) of
             Inl e \<Rightarrow> (Inl e, s)
           | Inr tenant_id \<Rightarrow>
               (let (y, s') = coordinate_push x u hash st env post policy tenant_id s in
                (bindR y (\<lambda>report. Inr (http_ok 202 report)), s')))
       | _ \<Rightarrow> (Inr (http_error 422 ''schema_invalid''), s)))"

end
