(* ===== verification/Orch_Automation.thy ===== *)
theory Orch_Automation
  imports Orch_Distribution Policy_Intake
begin

text \<open>
  Automation (\<open>orchestrator.automation\<close> and its functions of \<open>persistence.repositories\<close>): the
  matcher, the engine that evaluates a tenant's rules against an accepted event and drives a
  distribution again, and the tenant's routes. The event types of the locked schema (\<open>known\<close>) and
  the size of a serialized object (\<open>dsize\<close>) are parameters; cursors arrive decoded.
\<close>

section \<open>Settings\<close>

record automation_settings =
  au_enabled :: bool
  au_max_rules :: int

definition get_automation_settings :: "environ \<Rightarrow> py_exc + automation_settings" where
  "get_automation_settings env =
     bindR (env_int env ''ORCH_AUTOMATION_MAX_RULES_PER_TENANT'' 20 1) (\<lambda>m.
     Inr \<lparr>au_enabled = env_bool env ''ORCH_AUTOMATION_ENABLED'', au_max_rules = m\<rparr>)"

section \<open>The matcher\<close>

fun is_scalar :: "json \<Rightarrow> bool" where
  "is_scalar (JStr _) = True"
| "is_scalar (JInt _) = True"
| "is_scalar (JFloat _) = True"
| "is_scalar (JBool _) = True"
| "is_scalar _ = False"

fun is_bool :: "json \<Rightarrow> bool" where
  "is_bool (JBool _) = True"
| "is_bool _ = False"

definition condition_holds :: "(string \<times> json) list \<Rightarrow> string \<times> json \<Rightarrow> bool" where
  "condition_holds payload c =
     (let (key, expected) = c; actual = jget key payload in
      is_scalar expected \<and> jhas key payload \<and> is_scalar actual \<and> is_bool actual = is_bool expected \<and> py_eq actual expected)"

definition rule_matches :: "automation_rule \<Rightarrow> string \<Rightarrow> string \<Rightarrow> (string \<times> json) list \<Rightarrow> bool" where
  "rule_matches r event_type source payload \<longleftrightarrow>
     rl_event_type r = event_type \<and> (rl_source r = None \<or> rl_source r = Some source)
     \<and> list_all (condition_holds payload) (rl_conditions r)"

section \<open>The tables\<close>

definition IDENTITY_SOURCE_PRODUCTS :: "string list" where
  "IDENTITY_SOURCE_PRODUCTS = [''sentinel'', ''delta'', ''rendly'']"

definition insert_automation_rule :: "ident \<Rightarrow> automation_rule \<Rightarrow> orch_db \<Rightarrow> py_exc + orch_db" where
  "insert_automation_rule sess r d =
     bindR (guardR (varchar_ok 64 (rl_id r) \<and> varchar_ok 64 (rl_tenant r) \<and> varchar_ok 128 (rl_name r) \<and> varchar_ok 64 (rl_event_type r)
       \<and> jsonb_ok (JObj (rl_conditions r)) \<and> jsonb_ok (JObj (rl_config r))) DataError) (\<lambda>_.
     bindR (rls_check sess (rl_tenant r)) (\<lambda>_.
     bindR (guardR (rl_action r = ''redistribute_policy'' \<and> (\<forall>s \<in> set_option (rl_source r). s \<in> set IDENTITY_SOURCE_PRODUCTS)
       \<and> list_all (\<lambda>kv. is_scalar (snd kv) \<or> snd kv = JNull) (rl_conditions r)) IntegrityError) (\<lambda>_.
     bindR (insert_unique IntegrityError rl_id r (automation_rules d)) (\<lambda>_.
     bindR (insert_unique IntegrityError (\<lambda>x. (rl_tenant x, rl_name x)) r (automation_rules d)) (\<lambda>rows.
     Inr (d\<lparr>automation_rules := rows\<rparr>))))))"

definition count_automation_rules :: "ident \<Rightarrow> orch_db \<Rightarrow> int" where
  "count_automation_rules sess d = int (length (filter (\<lambda>r. rl_tenant r = sess) (automation_rules d)))"

definition get_automation_rule :: "ident \<Rightarrow> ident \<Rightarrow> orch_db \<Rightarrow> automation_rule option" where
  "get_automation_rule sess rule_id d = List.find (\<lambda>r. rl_tenant r = sess \<and> rl_id r = rule_id) (automation_rules d)"

definition list_automation_rules ::
  "ident \<Rightarrow> nat \<Rightarrow> (instant \<times> ident) option \<Rightarrow> orch_db \<Rightarrow> automation_rule list \<times> (instant \<times> ident) option" where
  "list_automation_rules sess limit cursor d =
     (let key = (\<lambda>r. (rl_created r, rl_id r));
          rows = take (limit + 1) (sort_key key (filter (\<lambda>r. rl_tenant r = sess \<and> (\<forall>c \<in> set_option cursor. c < key r)) (automation_rules d))) in
      if length rows > limit then (take limit rows, Some (key (rows ! (limit - 1)))) else (rows, None))"

definition update_automation_rule_enabled :: "ident \<Rightarrow> ident \<Rightarrow> bool \<Rightarrow> instant \<Rightarrow> orch_db \<Rightarrow> nat \<times> orch_db" where
  "update_automation_rule_enabled sess rule_id enabled now d =
     (let hit = (\<lambda>r. rl_tenant r = sess \<and> rl_id r = rule_id) in
      (length (filter hit (automation_rules d)),
       d\<lparr>automation_rules := update_where hit (\<lambda>r. r\<lparr>rl_enabled := enabled, rl_updated := now\<rparr>) (automation_rules d)\<rparr>))"

definition delete_automation_rule :: "ident \<Rightarrow> ident \<Rightarrow> orch_db \<Rightarrow> nat \<times> orch_db" where
  "delete_automation_rule sess rule_id d =
     (let hit = (\<lambda>r. rl_tenant r = sess \<and> rl_id r = rule_id) in
      (length (filter hit (automation_rules d)), d\<lparr>automation_rules := filter (\<lambda>r. \<not> hit r) (automation_rules d)\<rparr>))"

definition list_enabled_automation_rules :: "ident \<Rightarrow> string \<Rightarrow> orch_db \<Rightarrow> automation_rule list" where
  "list_enabled_automation_rules tenant_id event_type d =
     filter (\<lambda>r. rl_tenant r = tenant_id \<and> rl_enabled r \<and> rl_event_type r = event_type) (automation_rules d)"

definition list_automation_executions :: "ident \<Rightarrow> nat \<Rightarrow> int option \<Rightarrow> orch_db \<Rightarrow> chain_link list \<times> int option" where
  "list_automation_executions sess limit cursor d =
     (let rows = take (limit + 1) (sort_key cl_seq (filter (\<lambda>r. dget ''tenant_id'' (cl_data r) = CStr sess
            \<and> (\<forall>c \<in> set_option cursor. c < cl_seq r)) (automation_executions (chains d)))) in
      if length rows > limit then (take limit rows, Some (cl_seq (rows ! (limit - 1)))) else (rows, None))"

definition append_automation ::
  "orch_ext \<Rightarrow> ident \<Rightarrow> ident \<Rightarrow> ident \<Rightarrow> string \<Rightarrow> string \<Rightarrow> string option \<Rightarrow> orch_db \<Rightarrow> py_exc + unit \<times> orch_db" where
  "append_automation x rule_id tenant_id event_id action disposition err d =
     bindR (append_automation_audit_link (xo_sha x) rule_id tenant_id event_id action disposition err (automation_executions (chains d)))
       (\<lambda>(_, rows). Inr ((), d\<lparr>chains := (chains d)\<lparr>automation_executions := rows\<rparr>\<rparr>))"

section \<open>The engine\<close>

record rule_env =
  ru_load :: "py_exc option"
  ru_drive :: "ident \<Rightarrow> drive_env"
  ru_audit :: "ident \<Rightarrow> txn_fault"
  ru_record :: "ident \<Rightarrow> txn_fault"

definition REDISTRIBUTE_POLICY :: string where "REDISTRIBUTE_POLICY = ''redistribute_policy''"

definition execute_rule ::
  "orch_ext \<Rightarrow> distribution_settings \<Rightarrow> rule_env \<Rightarrow> (string \<Rightarrow> string \<Rightarrow> json \<Rightarrow> 'w \<Rightarrow> post_result \<times> 'w)
     \<Rightarrow> ident \<Rightarrow> ident \<Rightarrow> automation_rule \<Rightarrow> orch_db \<times> 'w \<Rightarrow> (py_exc + unit) \<times> orch_db \<times> 'w" where
  "execute_rule x st env post tenant_id event_id r s =
     (let (disposition, err, d1, w1) =
        (if rl_action r = REDISTRIBUTE_POLICY
         then (case jget ''distribution_id'' (rl_config r) of
             JStr distribution_id \<Rightarrow>
               (case drive_distribution x st (ru_drive env (rl_id r)) post distribution_id tenant_id s of
                  (Inr _, (d1, w1)) \<Rightarrow> (''executed'', None, d1, w1)
                | (Inl _, (d1, w1)) \<Rightarrow> (''failed'', Some ''redistribute_policy_error'', d1, w1))
           | _ \<Rightarrow> (''executed'', None, fst s, snd s))
         else (''failed'', Some ''unknown_action_type'', fst s, snd s)) in
      case run_txn (ru_audit env (rl_id r)) (append_automation x (rl_id r) tenant_id event_id (rl_action r) disposition err) d1 of
        (Inr _, d2) \<Rightarrow> (Inr (), d2, w1)
      | (Inl e, d2) \<Rightarrow> if e = IntegrityError \<or> e \<in> set DB_CONNECTIVITY_ERRORS then (Inr (), d2, w1) else (Inl e, d2, w1))"

definition record_unexpected_failure :: "orch_ext \<Rightarrow> rule_env \<Rightarrow> ident \<Rightarrow> ident \<Rightarrow> automation_rule \<Rightarrow> orch_db \<Rightarrow> orch_db" where
  "record_unexpected_failure x env tenant_id event_id r d =
     snd (run_txn (ru_record env (rl_id r)) (append_automation x (rl_id r) tenant_id event_id
        (if rl_action r = [] then REDISTRIBUTE_POLICY else rl_action r) ''failed'' (Some ''unexpected_error'')) d)"

fun run_rules ::
  "orch_ext \<Rightarrow> distribution_settings \<Rightarrow> rule_env \<Rightarrow> (string \<Rightarrow> string \<Rightarrow> json \<Rightarrow> 'w \<Rightarrow> post_result \<times> 'w)
     \<Rightarrow> ident \<Rightarrow> ident \<Rightarrow> automation_rule list \<Rightarrow> orch_db \<times> 'w \<Rightarrow> orch_db \<times> 'w" where
  "run_rules x st env post tenant_id event_id [] s = s"
| "run_rules x st env post tenant_id event_id (r # rs) s =
     run_rules x st env post tenant_id event_id rs
       (case execute_rule x st env post tenant_id event_id r s of
          (Inr _, s1) \<Rightarrow> s1
        | (Inl _, (d1, w1)) \<Rightarrow> (record_unexpected_failure x env tenant_id event_id r d1, w1))"

definition evaluate_and_execute ::
  "orch_ext \<Rightarrow> automation_settings \<Rightarrow> distribution_settings \<Rightarrow> rule_env \<Rightarrow> (string \<Rightarrow> string \<Rightarrow> json \<Rightarrow> 'w \<Rightarrow> post_result \<times> 'w)
     \<Rightarrow> ident \<Rightarrow> ident \<Rightarrow> string \<Rightarrow> string \<Rightarrow> (string \<times> json) list \<Rightarrow> orch_db \<times> 'w \<Rightarrow> (py_exc + unit) \<times> orch_db \<times> 'w" where
  "evaluate_and_execute x au st env post tenant_id event_id event_type source payload s =
     (if \<not> au_enabled au then (Inr (), s)
      else case tenant_session tenant_id of Inl e \<Rightarrow> (Inl e, s) | Inr _ \<Rightarrow>
      case ru_load env of
        Some e \<Rightarrow> (if e \<in> set DB_CONNECTIVITY_ERRORS then Inr () else Inl e, s)
      | None \<Rightarrow>
          (let rules = list_enabled_automation_rules tenant_id event_type (fst s) in
           (Inr (), run_rules x st env post tenant_id event_id (filter (\<lambda>r. rule_matches r event_type source payload) rules) s)))"

section \<open>The routes\<close>

definition RULE_KEYS :: "string list" where
  "RULE_KEYS = [''name'', ''trigger_event_type'', ''trigger_source_product'', ''trigger_conditions'', ''action_type'', ''action_config'', ''enabled'']"

definition jget_or :: "string \<Rightarrow> json \<Rightarrow> (string \<times> json) list \<Rightarrow> json" where
  "jget_or k dflt body = (if jhas k body then jget k body else dflt)"

text \<open>An action type that is an array or an object cannot be looked up in a set: \<open>TypeError\<close>.\<close>

definition validate_create_body :: "string list \<Rightarrow> (json \<Rightarrow> nat) \<Rightarrow> (string \<times> json) list \<Rightarrow> py_exc + string option" where
  "validate_create_body known dsize body =
     (let conditions = jget_or ''trigger_conditions'' (JObj []) body; source = jget ''trigger_source_product'' body;
          action = jget ''action_type'' body in
      if \<not> only_keys RULE_KEYS body then Inr (Some ''schema_invalid'')
      else if \<not> text_field 128 (jget ''name'' body) then Inr (Some ''schema_invalid'')
      else if \<not> text_field 64 (jget ''trigger_event_type'' body) then Inr (Some ''schema_invalid'')
      else if jstring (jget ''trigger_event_type'' body) \<notin> set known then Inr (Some ''unknown_event_type'')
      else if source \<noteq> JNull \<and> source \<notin> JStr ` set IDENTITY_SOURCE_PRODUCTS then Inr (Some ''unknown_source_product'')
      else case conditions of
        JObj kvs \<Rightarrow>
          if length kvs > 20 then Inr (Some ''trigger_conditions_too_large'')
          else if \<not> list_all (\<lambda>kv. is_scalar (snd kv)) kvs then Inr (Some ''schema_invalid'')
          else if dsize conditions > 4096 then Inr (Some ''trigger_conditions_too_large'')
          else (case action of JArr _ \<Rightarrow> Inl TypeError | JObj _ \<Rightarrow> Inl TypeError | _ \<Rightarrow>
            if action \<noteq> JStr REDISTRIBUTE_POLICY then Inr (Some ''unknown_action_type'')
            else case jget ''action_config'' body of
              JObj config \<Rightarrow>
                if \<not> only_keys [''distribution_id''] config \<or> \<not> has_keys [''distribution_id''] config then Inr (Some ''schema_invalid'')
                else if \<not> nonempty_text (jget ''distribution_id'' config) then Inr (Some ''schema_invalid'')
                else if \<not> is_bool (jget_or ''enabled'' (JBool True) body) then Inr (Some ''schema_invalid'') else Inr None
            | _ \<Rightarrow> Inr (Some ''schema_invalid''))
      | _ \<Rightarrow> Inr (Some ''schema_invalid''))"

fun jobj :: "json \<Rightarrow> (string \<times> json) list" where
  "jobj (JObj kvs) = kvs"
| "jobj _ = []"

definition rule_body :: "automation_rule \<Rightarrow> (string \<times> json) list" where
  "rule_body r =
     [(''id'', JStr (rl_id r)), (''tenant_id'', JStr (rl_tenant r)), (''name'', JStr (rl_name r)), (''enabled'', JBool (rl_enabled r)),
      (''trigger_event_type'', JStr (rl_event_type r)), (''trigger_conditions'', JObj (rl_conditions r)),
      (''action_type'', JStr (rl_action r)), (''action_config'', JObj (rl_config r)),
      (''created_at'', JStr (isoformat (rl_created r))), (''updated_at'', JStr (isoformat (rl_updated r)))]
     @ (case rl_source r of None \<Rightarrow> [] | Some p \<Rightarrow> [(''trigger_source_product'', JStr p)])"

record route_env =
  ro_read :: "py_exc option"
  ro_write :: txn_fault
  ro_reread :: "py_exc option"
  ro_now :: instant

definition new_rule :: "ident \<Rightarrow> (string \<times> json) list \<Rightarrow> ident \<Rightarrow> instant \<Rightarrow> automation_rule" where
  "new_rule caller body rule_id now =
     \<lparr>rl_id = rule_id, rl_tenant = caller, rl_name = jstring (jget ''name'' body),
      rl_enabled = (jget_or ''enabled'' (JBool True) body = JBool True), rl_event_type = jstring (jget ''trigger_event_type'' body),
      rl_source = (case jget ''trigger_source_product'' body of JStr p \<Rightarrow> Some p | _ \<Rightarrow> None),
      rl_conditions = jobj (jget ''trigger_conditions'' body), rl_action = jstring (jget ''action_type'' body),
      rl_config = jobj (jget ''action_config'' body), rl_created = now, rl_updated = now\<rparr>"

text \<open>The tenant's transaction of a creation. A rule id is \<open>rule-\<close> and the hexadecimal digits of a fresh UUID.\<close>

definition create_rule_txn :: "orch_ext \<Rightarrow> automation_settings \<Rightarrow> route_env \<Rightarrow> ident \<Rightarrow> (string \<times> json) list \<Rightarrow> orch_db
     \<Rightarrow> (py_exc + http_response) \<times> orch_db" where
  "create_rule_txn x au env caller body d =
     (if get_distribution (Some caller) (jstring (jget ''distribution_id'' (jobj (jget ''action_config'' body)))) d = None
      then (Inr (http_error 422 ''distribution_not_found''), d)
      else if count_automation_rules caller d \<ge> au_max_rules au then (Inr (http_error 422 ''rule_limit_exceeded''), d)
      else
        (let (fresh, d0) = fresh_uuid (xo_u4 x) d;
             r = new_rule caller body (''rule-'' @ filter (\<lambda>c. c \<noteq> CHR ''-'') fresh) (ro_now env) in
         case insert_automation_rule caller r d0 of
           Inl e \<Rightarrow> if e = IntegrityError then (Inr (http_error 409 ''duplicate_name''), d0) else (Inl e, d0)
         | Inr d1 \<Rightarrow> (case run_txn (ro_write env) (\<lambda>_. Inr ((), d1)) d0 of
             (Inl e, d2) \<Rightarrow> (Inl e, d2)
           | (Inr _, d2) \<Rightarrow> (Inr (http_ok 201 (rule_body r)), d2))))"

definition create_automation_rule ::
  "orch_ext \<Rightarrow> automation_settings \<Rightarrow> string list \<Rightarrow> (json \<Rightarrow> nat) \<Rightarrow> route_env \<Rightarrow> string \<Rightarrow> ident \<Rightarrow> orch_db \<Rightarrow> (py_exc + http_response) \<times> orch_db" where
  "create_automation_rule x au known dsize env raw caller d =
     (case parse_body (xo_loads x) raw of
        Inl resp \<Rightarrow> (Inr resp, d)
      | Inr body \<Rightarrow>
          (case validate_create_body known dsize body of
             Inl e \<Rightarrow> (Inl e, d)
           | Inr (Some code) \<Rightarrow> (Inr (http_error 422 code), d)
           | Inr None \<Rightarrow>
               (case tenant_session caller of Inl e \<Rightarrow> (Inl e, d) | Inr _ \<Rightarrow>
                case ro_read env of Some e \<Rightarrow> (Inl e, d) | None \<Rightarrow> create_rule_txn x au env caller body d)))"

definition clamp_page :: "int option \<Rightarrow> int" where
  "clamp_page raw = (case raw of None \<Rightarrow> 50 | Some n \<Rightarrow> if n < 1 then 1 else if n > 200 then 200 else n)"

definition list_rules :: "route_env \<Rightarrow> int option \<Rightarrow> (instant \<times> ident) option \<Rightarrow> ident \<Rightarrow> orch_db
     \<Rightarrow> (py_exc + automation_rule list \<times> (instant \<times> ident) option) \<times> orch_db" where
  "list_rules env limit cursor caller d =
     (case tenant_session caller of Inl e \<Rightarrow> (Inl e, d) | Inr _ \<Rightarrow>
      case ro_read env of Some e \<Rightarrow> (Inl e, d)
      | None \<Rightarrow> (Inr (list_automation_rules caller (nat (clamp_page limit)) cursor d), d))"

definition get_rule :: "route_env \<Rightarrow> ident \<Rightarrow> ident \<Rightarrow> orch_db \<Rightarrow> (py_exc + http_response) \<times> orch_db" where
  "get_rule env rule_id caller d =
     (case tenant_session caller of Inl e \<Rightarrow> (Inl e, d) | Inr _ \<Rightarrow>
      case ro_read env of Some e \<Rightarrow> (Inl e, d)
      | None \<Rightarrow> if \<not> no_nul rule_id then (Inl DataError, d)
          else (case get_automation_rule caller rule_id d of
            None \<Rightarrow> (Inr (http_error 404 ''not_found''), d)
          | Some r \<Rightarrow> (Inr (http_ok 200 (rule_body r)), d)))"

definition patch_rule :: "orch_ext \<Rightarrow> route_env \<Rightarrow> ident \<Rightarrow> string \<Rightarrow> ident \<Rightarrow> orch_db \<Rightarrow> (py_exc + http_response) \<times> orch_db" where
  "patch_rule x env rule_id raw caller d =
     (case xo_loads x raw of
        Some (JObj body) \<Rightarrow>
          if \<not> only_keys [''enabled''] body \<or> \<not> is_bool (jget ''enabled'' body) then (Inr (http_error 422 ''schema_invalid''), d)
          else (case tenant_session caller of Inl e \<Rightarrow> (Inl e, d) | Inr _ \<Rightarrow>
            if \<not> no_nul rule_id then (Inl DataError, d)
            else (let (rowcount, d1) = update_automation_rule_enabled caller rule_id (jget ''enabled'' body = JBool True) (ro_now env) d in
              if rowcount = 0 then (Inr (http_error 404 ''not_found''), d)
              else (case run_txn (ro_write env) (\<lambda>_. Inr ((), d1)) d of
                (Inl e, d2) \<Rightarrow> (Inl e, d2)
              | (Inr _, d2) \<Rightarrow> (case ro_reread env of Some e \<Rightarrow> (Inl e, d2)
                  | None \<Rightarrow> (case get_automation_rule caller rule_id d2 of
                      None \<Rightarrow> (Inl TypeError, d2)
                    | Some r \<Rightarrow> (Inr (http_ok 200 (rule_body r)), d2))))))
      | _ \<Rightarrow> (Inr (http_error 422 ''schema_invalid''), d))"

definition delete_rule :: "route_env \<Rightarrow> ident \<Rightarrow> ident \<Rightarrow> orch_db \<Rightarrow> (py_exc + http_response) \<times> orch_db" where
  "delete_rule env rule_id caller d =
     (case tenant_session caller of Inl e \<Rightarrow> (Inl e, d) | Inr _ \<Rightarrow>
      if \<not> no_nul rule_id then (Inl DataError, d)
      else (let (rowcount, d1) = delete_automation_rule caller rule_id d in
        if rowcount = 0 then (Inr (http_error 404 ''not_found''), d)
        else (case run_txn (ro_write env) (\<lambda>_. Inr ((), d1)) d of
          (Inl e, d2) \<Rightarrow> (Inl e, d2)
        | (Inr _, d2) \<Rightarrow> (Inr (http_ok 204 []), d2))))"

definition list_executions :: "route_env \<Rightarrow> int option \<Rightarrow> int option \<Rightarrow> ident \<Rightarrow> orch_db \<Rightarrow> (py_exc + chain_link list \<times> int option) \<times> orch_db" where
  "list_executions env limit cursor caller d =
     (case tenant_session caller of Inl e \<Rightarrow> (Inl e, d) | Inr _ \<Rightarrow>
      case ro_read env of Some e \<Rightarrow> (Inl e, d)
      | None \<Rightarrow> (Inr (list_automation_executions caller (nat (clamp_page limit)) cursor d), d))"

end
