(* ===== verification/Orch_Gateway.thy ===== *)
theory Orch_Gateway
  imports Orch_Registry Orch_Automation
begin

text \<open>
  The tenant's event query (\<open>orchestrator.query\<close>) and the gateway for third parties
  (\<open>orchestrator.external_gateway\<close>), with their functions of \<open>persistence.repositories\<close>: issuing
  and revoking keys, and the rate-limited, audited read of a tenant's events. The database's order
  of text (\<open>tle\<close>) and the secret part of a new key (\<open>token\<close>) are parameters; a cursor arrives as
  the result of its decoding.
\<close>

section \<open>Reading events\<close>

datatype seq_cursor = No_cursor | Bad_cursor | Cursor_at int

record event_filters =
  ef_tenant :: "string option"
  ef_team :: "string option"
  ef_agent :: "string option"
  ef_type :: "string option"
  ef_since :: "string option"
  ef_until :: "string option"

definition no_filters :: event_filters where
  "no_filters = \<lparr>ef_tenant = None, ef_team = None, ef_agent = None, ef_type = None, ef_since = None, ef_until = None\<rparr>"

definition column_is :: "string \<Rightarrow> string option \<Rightarrow> ingest_event \<Rightarrow> bool" where
  "column_is col v r \<longleftrightarrow> (\<forall>s \<in> set_option v. dget col (ev_common r) = CStr s)"

fun text_at_least :: "(string \<Rightarrow> string \<Rightarrow> bool) \<Rightarrow> string \<Rightarrow> cell \<Rightarrow> bool" where
  "text_at_least tle s (CStr t) = tle s t"
| "text_at_least tle s _ = False"

fun text_below :: "(string \<Rightarrow> string \<Rightarrow> bool) \<Rightarrow> string \<Rightarrow> cell \<Rightarrow> bool" where
  "text_below tle s (CStr t) = (tle t s \<and> t \<noteq> s)"
| "text_below tle s _ = False"

definition list_events ::
  "(string \<Rightarrow> string \<Rightarrow> bool) \<Rightarrow> ident \<Rightarrow> event_filters \<Rightarrow> nat \<Rightarrow> int option \<Rightarrow> orch_db \<Rightarrow> ingest_event list \<times> int option" where
  "list_events tle sess f limit cursor d =
     (let hit = (\<lambda>r. ev_tenant r = CStr sess \<and> (\<forall>c \<in> set_option cursor. c < ev_seq r)
            \<and> column_is ''tenant_id'' (ef_tenant f) r \<and> column_is ''team_id'' (ef_team f) r \<and> column_is ''agent_id'' (ef_agent f) r
            \<and> column_is ''event_type'' (ef_type f) r
            \<and> (\<forall>s \<in> set_option (ef_since f). text_at_least tle s (dget ''event_timestamp'' (ev_common r)))
            \<and> (\<forall>s \<in> set_option (ef_until f). text_below tle s (dget ''event_timestamp'' (ev_common r))));
          rows = take (limit + 1) (sort_key ev_seq (filter hit (ingest_events d))) in
      if length rows > limit then (take limit rows, Some (ev_seq (rows ! (limit - 1)))) else (rows, None))"

text \<open>The columns of a response, and the cursor before its encoding.\<close>

definition event_metadata_body :: "ingest_event \<Rightarrow> pydict" where
  "event_metadata_body r = map (\<lambda>k. (k, dget k (ev_common r)))
     [''event_id'', ''event_type'', ''event_timestamp'', ''tenant_id'', ''team_id'', ''project_id'', ''agent_id'']
     @ (if dget ''request_id'' (ev_common r) = CNull then [] else [(''request_id'', dget ''request_id'' (ev_common r))])"

datatype event_page = Page "pydict list" "int option" | Refused http_response

definition read_page :: "(string \<Rightarrow> string \<Rightarrow> bool) \<Rightarrow> py_exc option \<Rightarrow> ident \<Rightarrow> event_filters \<Rightarrow> int \<Rightarrow> int option \<Rightarrow> orch_db \<Rightarrow> py_exc + event_page" where
  "read_page tle read caller f limit cursor d =
     bindR (tenant_session caller) (\<lambda>_.
     case read of Some e \<Rightarrow> Inl e
     | None \<Rightarrow> (let (rows, next) = list_events tle caller f (nat limit) cursor d in Inr (Page (map event_metadata_body rows) next)))"

fun cursor_value :: "seq_cursor \<Rightarrow> int option" where
  "cursor_value (Cursor_at n) = Some n"
| "cursor_value _ = None"

definition query_events ::
  "(string \<Rightarrow> string \<Rightarrow> bool) \<Rightarrow> py_exc option \<Rightarrow> event_filters \<Rightarrow> int option \<Rightarrow> seq_cursor \<Rightarrow> ident \<Rightarrow> orch_db \<Rightarrow> py_exc + event_page" where
  "query_events tle read f limit cursor caller d =
     (if \<exists>t \<in> set_option (ef_tenant f). map to_lower t \<noteq> map to_lower caller then Inr (Refused (http_error 403 ''forbidden''))
      else if cursor = Bad_cursor then Inr (Refused (http_error 422 ''schema_invalid''))
      else read_page tle read caller f (clamp_page limit) (cursor_value cursor) d)"

section \<open>Keys\<close>

record gateway_settings =
  gw_enabled :: bool
  gw_default_limit :: int
  gw_max_limit :: int
  gw_max_keys :: int

definition get_external_gateway_settings :: "environ \<Rightarrow> py_exc + gateway_settings" where
  "get_external_gateway_settings env =
     bindR (env_int env ''ORCH_EXTERNAL_GATEWAY_DEFAULT_RATE_LIMIT_PER_MINUTE'' 60 1) (\<lambda>a.
     bindR (env_int env ''ORCH_EXTERNAL_GATEWAY_MAX_RATE_LIMIT_PER_MINUTE'' 6000 1) (\<lambda>b.
     bindR (env_int env ''ORCH_EXTERNAL_GATEWAY_MAX_KEYS_PER_TENANT'' 20 1) (\<lambda>c.
     Inr \<lparr>gw_enabled = env_bool env ''ORCH_EXTERNAL_GATEWAY_ENABLED'', gw_default_limit = a, gw_max_limit = b, gw_max_keys = c\<rparr>)))"

definition insert_third_party_api_key :: "api_key \<Rightarrow> orch_db \<Rightarrow> py_exc + api_key \<times> orch_db" where
  "insert_third_party_api_key k d =
     bindR (guardR (varchar_ok 64 (tk_id k) \<and> varchar_ok 64 (tk_tenant k) \<and> varchar_ok 64 (tk_hash k) \<and> varchar_ok 128 (tk_label k)
       \<and> tk_limit k < 2 ^ 31) DataError) (\<lambda>_.
     bindR (guardR (tk_status k \<in> {''active'', ''revoked''} \<and> 1 \<le> tk_limit k) IntegrityError) (\<lambda>_.
     bindR (insert_unique IntegrityError tk_id k (third_party_api_keys d)) (\<lambda>_.
     bindR (insert_unique IntegrityError tk_hash k (third_party_api_keys d)) (\<lambda>rows.
     Inr (k, d\<lparr>third_party_api_keys := rows\<rparr>)))))"

definition get_third_party_api_key_by_hash :: "string \<Rightarrow> orch_db \<Rightarrow> api_key option" where
  "get_third_party_api_key_by_hash h d = List.find (\<lambda>k. tk_hash k = h) (third_party_api_keys d)"

definition list_third_party_api_keys :: "ident option \<Rightarrow> orch_db \<Rightarrow> api_key list" where
  "list_third_party_api_keys tenant d =
     sort_key (\<lambda>k. - tk_created k) (filter (\<lambda>k. \<forall>t \<in> set_option tenant. tk_tenant k = t) (third_party_api_keys d))"

definition revoke_third_party_api_key :: "ident \<Rightarrow> instant \<Rightarrow> orch_db \<Rightarrow> api_key option \<times> orch_db" where
  "revoke_third_party_api_key key_id now d =
     (let d' = d\<lparr>third_party_api_keys := update_where (\<lambda>k. tk_id k = key_id)
            (\<lambda>k. k\<lparr>tk_status := ''revoked'', tk_revoked := Some now\<rparr>) (third_party_api_keys d)\<rparr> in
      (List.find (\<lambda>k. tk_id k = key_id) (third_party_api_keys d'), d'))"

definition count_third_party_api_keys :: "ident \<Rightarrow> orch_db \<Rightarrow> int" where
  "count_third_party_api_keys tenant d = int (length (filter (\<lambda>k. tk_tenant k = tenant) (third_party_api_keys d)))"

definition KNOWN_SCOPES :: "string list" where "KNOWN_SCOPES = [''events:read'']"

definition validate_issue_body :: "gateway_settings \<Rightarrow> (string \<times> json) list \<Rightarrow> string option" where
  "validate_issue_body gw body =
     (if \<not> only_keys [''tenant_id'', ''label'', ''scopes'', ''rate_limit_per_minute''] body then Some ''schema_invalid''
      else if \<not> has_keys [''tenant_id'', ''label'', ''scopes''] body then Some ''schema_invalid''
      else if \<not> text_field 64 (jget ''tenant_id'' body) then Some ''schema_invalid''
      else if \<not> text_field 128 (jget ''label'' body) then Some ''schema_invalid''
      else (case jget ''scopes'' body of
        JArr ss \<Rightarrow>
          if ss = [] \<or> \<not> list_all (\<lambda>s. s \<in> JStr ` set KNOWN_SCOPES) ss then Some ''schema_invalid''
          else (case jget ''rate_limit_per_minute'' body of
              JNull \<Rightarrow> None
            | JInt n \<Rightarrow> if 1 \<le> n \<and> n \<le> gw_max_limit gw then None else Some ''schema_invalid''
            | _ \<Rightarrow> Some ''schema_invalid'')
      | _ \<Rightarrow> Some ''schema_invalid''))"

definition key_metadata_body :: "api_key \<Rightarrow> (string \<times> json) list" where
  "key_metadata_body k =
     [(''key_id'', JStr (tk_id k)), (''tenant_id'', JStr (tk_tenant k)), (''label'', JStr (tk_label k)),
      (''scopes'', JArr (map JStr (tk_scopes k))), (''status'', JStr (tk_status k)), (''rate_limit_per_minute'', JInt (tk_limit k)),
      (''created_at'', JStr (isoformat (tk_created k))), (''revoked_at'', opt_time (tk_revoked k))]"

definition KEY_SECRET_PREFIX :: string where "KEY_SECRET_PREFIX = ''eak_''"

definition new_key :: "orch_ext \<Rightarrow> gateway_settings \<Rightarrow> (string \<times> json) list \<Rightarrow> string \<Rightarrow> string \<Rightarrow> instant \<Rightarrow> api_key" where
  "new_key x gw body uuid plaintext now =
     \<lparr>tk_id = ''extkey-'' @ filter (\<lambda>c. c \<noteq> CHR ''-'') uuid, tk_tenant = jstring (jget ''tenant_id'' body), tk_hash = xo_sha x plaintext,
      tk_label = jstring (jget ''label'' body),
      tk_scopes = sort (remdups (case jget ''scopes'' body of JArr ss \<Rightarrow> map jstring ss | _ \<Rightarrow> [])), tk_status = ''active'',
      tk_limit = (case jget ''rate_limit_per_minute'' body of JInt n \<Rightarrow> n | _ \<Rightarrow> gw_default_limit gw), tk_created = now, tk_revoked = None\<rparr>"

definition issue_external_key ::
  "orch_ext \<Rightarrow> coordination_settings \<Rightarrow> gateway_settings \<Rightarrow> (nat \<Rightarrow> string) \<Rightarrow> route_env \<Rightarrow> string option \<Rightarrow> string \<Rightarrow> orch_db
     \<Rightarrow> (py_exc + http_response) \<times> orch_db" where
  "issue_external_key x st gw token env authorization raw =
     operator_route st authorization (\<lambda>d.
       case parse_body (xo_loads x) raw of
         Inl resp \<Rightarrow> (Inr resp, d)
       | Inr body \<Rightarrow>
           (case validate_issue_body gw body of
              Some code \<Rightarrow> (Inr (http_error 422 code), d)
            | None \<Rightarrow>
                (let plaintext = KEY_SECRET_PREFIX @ token (uuid_next d); (uuid, d0) = fresh_uuid (xo_u4 x) d;
                     k = new_key x gw body uuid plaintext (ro_now env) in
                 case ro_read env of Some e \<Rightarrow> (Inl e, d0) | None \<Rightarrow>
                 if count_third_party_api_keys (tk_tenant k) d0 \<ge> gw_max_keys gw then (Inr (http_error 422 ''key_limit_exceeded''), d0)
                 else (case run_txn (ro_write env) (insert_third_party_api_key k) d0 of
                   (Inl e, d1) \<Rightarrow> (Inl e, d1)
                 | (Inr inserted, d1) \<Rightarrow> (Inr (http_ok 201 (key_metadata_body inserted @ [(''api_key'', JStr plaintext)])), d1)))))"

definition list_external_keys :: "coordination_settings \<Rightarrow> route_env \<Rightarrow> string option \<Rightarrow> ident option \<Rightarrow> orch_db \<Rightarrow> (py_exc + http_response) \<times> orch_db" where
  "list_external_keys st env authorization tenant =
     operator_route st authorization (\<lambda>d. case ro_read env of Some e \<Rightarrow> (Inl e, d)
       | None \<Rightarrow> (Inr (http_ok 200 [(''data'', JArr (map (\<lambda>k. JObj (key_metadata_body k)) (list_third_party_api_keys tenant d)))]), d))"

definition revoke_external_key :: "coordination_settings \<Rightarrow> route_env \<Rightarrow> string option \<Rightarrow> ident \<Rightarrow> orch_db \<Rightarrow> (py_exc + http_response) \<times> orch_db" where
  "revoke_external_key st env authorization key_id =
     operator_route st authorization (\<lambda>d.
       case run_txn (ro_write env) (\<lambda>s. if \<not> no_nul key_id then Inl DataError else Inr (revoke_third_party_api_key key_id (ro_now env) s)) d of
         (Inl e, d1) \<Rightarrow> (Inl e, d1)
       | (Inr None, d1) \<Rightarrow> (Inr (http_error 404 ''not_found''), d1)
       | (Inr (Some k), d1) \<Rightarrow> (Inr (http_ok 200 (key_metadata_body k)), d1))"

section \<open>The gated read\<close>

definition EVENTS_ROUTE :: string where "EVENTS_ROUTE = ''GET /v1/external/events''"

definition require_third_party_api_key :: "orch_ext \<Rightarrow> string option \<Rightarrow> orch_db \<Rightarrow> api_key option" where
  "require_third_party_api_key x header d =
     (case header of
        None \<Rightarrow> None
      | Some key \<Rightarrow> if strip key = [] then None else get_third_party_api_key_by_hash (xo_sha x key) d)"

definition append_gateway :: "orch_ext \<Rightarrow> api_key \<Rightarrow> string \<Rightarrow> orch_db \<Rightarrow> py_exc + unit \<times> orch_db" where
  "append_gateway x k outcome d =
     bindR (append_external_gateway_audit_link (xo_sha x) (tk_tenant k) (tk_id k) EVENTS_ROUTE outcome (external_gateway_audit_log (chains d)))
       (\<lambda>(_, rows). Inr ((), d\<lparr>chains := (chains d)\<lparr>external_gateway_audit_log := rows\<rparr>\<rparr>))"

definition minute_window :: "instant \<Rightarrow> instant" where
  "minute_window now = now div 60000000 * 60000000"

definition increment_external_gateway_rate_limit :: "ident \<Rightarrow> instant \<Rightarrow> orch_db \<Rightarrow> py_exc + int \<times> orch_db" where
  "increment_external_gateway_rate_limit key_id window d =
     (case List.find (\<lambda>c. ct_key c = key_id \<and> ct_window c = window) (rate_limit_counters d) of
        None \<Rightarrow> Inr (1, d\<lparr>rate_limit_counters := rate_limit_counters d @ [\<lparr>ct_key = key_id, ct_window = window, ct_count = 1\<rparr>]\<rparr>)
      | Some c \<Rightarrow> if ct_count c + 1 \<ge> 2 ^ 31 then Inl DataError
          else Inr (ct_count c + 1, d\<lparr>rate_limit_counters := update_where (\<lambda>c. ct_key c = key_id \<and> ct_window c = window)
                 (\<lambda>c. c\<lparr>ct_count := ct_count c + 1\<rparr>) (rate_limit_counters d)\<rparr>))"

record gate_env =
  ge_auth :: "py_exc option"
  ge_audit :: txn_fault
  ge_count :: txn_fault
  ge_read :: "py_exc option"
  ge_now :: instant

text \<open>An audited answer.\<close>

definition audited_answer :: "orch_ext \<Rightarrow> gate_env \<Rightarrow> api_key \<Rightarrow> string \<Rightarrow> (orch_db \<Rightarrow> py_exc + event_page) \<Rightarrow> orch_db \<Rightarrow> (py_exc + event_page) \<times> orch_db" where
  "audited_answer x env k outcome answer d =
     (case run_txn (ge_audit env) (append_gateway x k outcome) d of
        (Inl e, d1) \<Rightarrow> (Inl e, d1)
      | (Inr _, d1) \<Rightarrow> (answer d1, d1))"

definition external_query_events ::
  "orch_ext \<Rightarrow> (string \<Rightarrow> string \<Rightarrow> bool) \<Rightarrow> gateway_settings \<Rightarrow> gate_env \<Rightarrow> string option \<Rightarrow> int option \<Rightarrow> seq_cursor \<Rightarrow> orch_db
     \<Rightarrow> (py_exc + event_page) \<times> orch_db" where
  "external_query_events x tle gw env header limit cursor d =
     (let refuse = (\<lambda>status code. Inr (Refused (http_error status code))) in
      case ge_auth env of Some e \<Rightarrow> (Inl e, d) | None \<Rightarrow>
      case require_third_party_api_key x header d of
        None \<Rightarrow> (refuse 401 ''unauthorized'', d)
      | Some k \<Rightarrow>
          if \<not> gw_enabled gw then (refuse 404 ''not_found'', d)
          else if tk_status k \<noteq> ''active'' then audited_answer x env k ''revoked'' (\<lambda>_. refuse 403 ''forbidden'') d
          else if ''events:read'' \<notin> set (tk_scopes k) then audited_answer x env k ''scope_denied'' (\<lambda>_. refuse 403 ''forbidden'') d
          else if cursor = Bad_cursor then (refuse 422 ''schema_invalid'', d)
          else
            (case run_txn (ge_count env) (increment_external_gateway_rate_limit (tk_id k) (minute_window (ge_now env))) d of
               (Inl e, d1) \<Rightarrow> (Inl e, d1)
             | (Inr n, d1) \<Rightarrow>
                 if n > tk_limit k then audited_answer x env k ''rate_limited'' (\<lambda>_. refuse 429 ''rate_limited'') d1
                 else audited_answer x env k ''allowed''
                   (read_page tle (ge_read env) (tk_tenant k) no_filters (clamp_page limit) (cursor_value cursor)) d1))"

end
