(* ===== verification/Orch_Side.thy ===== *)
theory Orch_Side
  imports Orch_Gateway
begin

text \<open>
  The identity and the safety seams (\<open>orchestrator.identity\<close>, \<open>orchestrator.safety\<close> and their
  functions of \<open>persistence.repositories\<close>): a product pushes one normalized event, which is stored
  once per source and idempotency key and recorded in a chain; the tenant reads its events page by
  page. The two routers are the same but for their columns, so the push is written once over its
  seam: the middle columns with their checks, the table and the chain. Reading a time with an
  offset (\<open>aware\<close>) is a parameter; a body that the decoder gives up on with an exception the
  route does not handle is \<open>se_decode\<close>.
\<close>

section \<open>Settings\<close>

record side_settings =
  ss_tokens :: "(string \<times> string) list"
  ss_max_body :: int

definition get_identity_settings :: "(string \<Rightarrow> json option) \<Rightarrow> environ \<Rightarrow> py_exc + side_settings" where
  "get_identity_settings loads env =
     bindR (source_tokens loads IDENTITY_SOURCE_PRODUCTS env ''ORCH_IDENTITY_SOURCE_TOKENS'') (\<lambda>tokens.
     bindR (env_int env ''ORCH_IDENTITY_MAX_BODY_BYTES'' 8192 1) (\<lambda>n.
     Inr \<lparr>ss_tokens = tokens, ss_max_body = n\<rparr>))"

definition KNOWN_SAFETY_SOURCE_PRODUCTS :: "string list" where
  "KNOWN_SAFETY_SOURCE_PRODUCTS = [''sentinel'', ''delta'', ''rendly'']"

definition get_safety_settings :: "(string \<Rightarrow> json option) \<Rightarrow> environ \<Rightarrow> py_exc + side_settings" where
  "get_safety_settings loads env =
     bindR (source_tokens loads KNOWN_SAFETY_SOURCE_PRODUCTS env ''ORCH_SAFETY_SOURCE_TOKENS'') (\<lambda>tokens.
     bindR (env_int env ''ORCH_SAFETY_MAX_BODY_BYTES'' 8192 1) (\<lambda>n.
     Inr \<lparr>ss_tokens = tokens, ss_max_body = n\<rparr>))"

section \<open>Tables\<close>

text \<open>A text column, and a nullable one.\<close>

fun col_opt :: "cell \<Rightarrow> string option" where
  "col_opt (CStr s) = Some s"
| "col_opt _ = None"

definition col_text :: "cell \<Rightarrow> string" where
  "col_text c = (case col_opt c of None \<Rightarrow> [] | Some s \<Rightarrow> s)"

text \<open>INSERT ... ON CONFLICT (source_product, idempotency_key) DO NOTHING. The key does not name the tenant, and
  a conflict counts whether or not the session may see the row. \<open>widths\<close> are those of the middle columns.\<close>

definition side_key :: "side_event \<Rightarrow> string \<times> string" where
  "side_key r = (sd_source r, sd_key r)"

definition insert_side_event :: "(string \<times> nat) list \<Rightarrow> ident \<Rightarrow> side_event \<Rightarrow> side_event list \<Rightarrow> py_exc + bool \<times> side_event list" where
  "insert_side_event widths sess r rows =
     bindR (guardR (varchar_ok 64 (sd_tenant r) \<and> varchar_ok 16 (sd_source r) \<and> varchar_ok 128 (sd_key r)
       \<and> list_all (\<lambda>(k, n). cell_fits (Some n) (dget k (sd_fields r))) widths) DataError) (\<lambda>_.
     bindR (rls_check sess (sd_tenant r)) (\<lambda>_.
     Inr (insert_nothing side_key (r\<lparr>sd_seq := next_serial sd_seq rows\<rparr>) rows)))"

definition insert_identity_event :: "ident \<Rightarrow> side_event \<Rightarrow> orch_db \<Rightarrow> py_exc + bool \<times> orch_db" where
  "insert_identity_event sess r d =
     bindR (insert_side_event [(''principal_type'', 32), (''principal_id'', 256), (''action'', 64), (''target'', 256)] sess r (identity_events d))
       (\<lambda>(inserted, rows). Inr (inserted, d\<lparr>identity_events := rows\<rparr>))"

definition insert_safety_event :: "ident \<Rightarrow> side_event \<Rightarrow> orch_db \<Rightarrow> py_exc + bool \<times> orch_db" where
  "insert_safety_event sess r d =
     bindR (insert_side_event [(''category'', 16), (''outcome'', 16), (''target'', 256)] sess r (safety_events d))
       (\<lambda>(inserted, rows). Inr (inserted, d\<lparr>safety_events := rows\<rparr>))"

definition list_side_events :: "ident \<Rightarrow> (side_event \<Rightarrow> bool) \<Rightarrow> nat \<Rightarrow> int option \<Rightarrow> side_event list \<Rightarrow> side_event list \<times> int option" where
  "list_side_events sess hit limit cursor events =
     (let rows = take (limit + 1) (sort_key sd_seq
            (filter (\<lambda>r. sd_tenant r = sess \<and> (\<forall>c \<in> set_option cursor. c < sd_seq r) \<and> hit r) events)) in
      if length rows > limit then (take limit rows, Some (sd_seq (rows ! (limit - 1)))) else (rows, None))"

definition side_column_is :: "string \<Rightarrow> string option \<Rightarrow> side_event \<Rightarrow> bool" where
  "side_column_is col v r \<longleftrightarrow> (\<forall>s \<in> set_option v. dget col ((''source_product'', CStr (sd_source r)) # sd_fields r) = CStr s)"

definition list_identity_events ::
  "ident \<Rightarrow> string option \<Rightarrow> string option \<Rightarrow> string option \<Rightarrow> nat \<Rightarrow> int option \<Rightarrow> orch_db \<Rightarrow> side_event list \<times> int option" where
  "list_identity_events sess product ptype action limit cursor d =
     list_side_events sess (\<lambda>r. side_column_is ''source_product'' product r \<and> side_column_is ''principal_type'' ptype r
       \<and> side_column_is ''action'' action r) limit cursor (identity_events d)"

definition list_safety_events :: "ident \<Rightarrow> string option \<Rightarrow> string option \<Rightarrow> nat \<Rightarrow> int option \<Rightarrow> orch_db \<Rightarrow> side_event list \<times> int option" where
  "list_safety_events sess product category limit cursor d =
     list_side_events sess (\<lambda>r. side_column_is ''source_product'' product r \<and> side_column_is ''category'' category r)
       limit cursor (safety_events d)"

definition append_identity :: "orch_ext \<Rightarrow> side_event \<Rightarrow> string \<Rightarrow> orch_db \<Rightarrow> py_exc + unit \<times> orch_db" where
  "append_identity x r disposition d =
     bindR (append_identity_audit_link (xo_sha x) (sd_tenant r) (sd_source r) (col_text (dget ''principal_type'' (sd_fields r)))
       (col_text (dget ''principal_id'' (sd_fields r))) (col_text (dget ''action'' (sd_fields r))) (sd_key r) disposition
       (col_opt (dget ''target'' (sd_fields r))) (identity_audit_log (chains d))) (\<lambda>(_, rows).
     Inr ((), d\<lparr>chains := (chains d)\<lparr>identity_audit_log := rows\<rparr>\<rparr>))"

definition append_safety :: "orch_ext \<Rightarrow> side_event \<Rightarrow> string \<Rightarrow> orch_db \<Rightarrow> py_exc + unit \<times> orch_db" where
  "append_safety x r disposition d =
     bindR (append_safety_audit_link (xo_sha x) (sd_tenant r) (sd_source r) (col_text (dget ''category'' (sd_fields r)))
       (col_text (dget ''outcome'' (sd_fields r))) (sd_key r) disposition
       (col_opt (dget ''target'' (sd_fields r))) (safety_audit_log (chains d))) (\<lambda>(_, rows).
     Inr ((), d\<lparr>chains := (chains d)\<lparr>safety_audit_log := rows\<rparr>\<rparr>))"

section \<open>Pushing an event\<close>

text \<open>Membership in a set of strings; an array or an object cannot be looked up: \<open>TypeError\<close>.\<close>

fun known_member :: "string list \<Rightarrow> json \<Rightarrow> py_exc + bool" where
  "known_member known (JArr _) = Inl TypeError"
| "known_member known (JObj _) = Inl TypeError"
| "known_member known v = Inr (v \<in> JStr ` set known)"

definition KNOWN_PRINCIPAL_TYPES :: "string list" where
  "KNOWN_PRINCIPAL_TYPES = [''operator'', ''tenant_user'', ''service_account'', ''peer_credential'']"

definition identity_columns_ok :: "(string \<times> json) list \<Rightarrow> py_exc + bool" where
  "identity_columns_ok body =
     bindR (known_member KNOWN_PRINCIPAL_TYPES (jget ''principal_type'' body)) (\<lambda>known.
     Inr (known \<and> text_field 256 (jget ''principal_id'' body) \<and> text_field 64 (jget ''action'' body)))"

definition KNOWN_CATEGORIES :: "string list" where "KNOWN_CATEGORIES = [''pii'', ''injection'', ''secret'']"
definition KNOWN_OUTCOMES :: "string list" where "KNOWN_OUTCOMES = [''block'']"

definition safety_columns_ok :: "(string \<times> json) list \<Rightarrow> py_exc + bool" where
  "safety_columns_ok body =
     bindR (known_member KNOWN_CATEGORIES (jget ''category'' body)) (\<lambda>known.
     if \<not> known then Inr False else known_member KNOWN_OUTCOMES (jget ''outcome'' body))"

text \<open>A seam: the names of the middle columns and their checks, the insert and the chain.\<close>

record side_seam =
  sm_columns :: "string list"
  sm_check :: "(string \<times> json) list \<Rightarrow> py_exc + bool"
  sm_insert :: "ident \<Rightarrow> side_event \<Rightarrow> orch_db \<Rightarrow> py_exc + bool \<times> orch_db"
  sm_append :: "orch_ext \<Rightarrow> side_event \<Rightarrow> string \<Rightarrow> orch_db \<Rightarrow> py_exc + unit \<times> orch_db"

definition identity_seam :: side_seam where
  "identity_seam = \<lparr>sm_columns = [''principal_type'', ''principal_id'', ''action''], sm_check = identity_columns_ok,
     sm_insert = insert_identity_event, sm_append = append_identity\<rparr>"

definition safety_seam :: side_seam where
  "safety_seam = \<lparr>sm_columns = [''category'', ''outcome''], sm_check = safety_columns_ok,
     sm_insert = insert_safety_event, sm_append = append_safety\<rparr>"

record side_env =
  se_decode :: "py_exc option"
  se_insert :: txn_fault
  se_now :: instant
  se_race :: "orch_db \<Rightarrow> orch_db"
  se_audit :: txn_fault

fun optional_text :: "nat \<Rightarrow> json \<Rightarrow> bool" where
  "optional_text n JNull = True"
| "optional_text n (JStr s) = (length s \<le> n)"
| "optional_text n _ = False"

definition side_event_of :: "side_seam \<Rightarrow> string \<Rightarrow> (string \<times> json) list \<Rightarrow> instant \<Rightarrow> instant \<Rightarrow> side_event" where
  "side_event_of seam source body occurred now =
     \<lparr>sd_seq = 0, sd_tenant = jstring (jget ''tenant_id'' body), sd_source = source,
      sd_fields = map (\<lambda>k. (k, CStr (jstring (jget k body)))) (sm_columns seam)
        @ [(''target'', case jget ''target'' body of JStr s \<Rightarrow> CStr s | _ \<Rightarrow> CNull)],
      sd_key = jstring (jget ''idempotency_key'' body), sd_occurred = occurred, sd_received = now\<rparr>"

text \<open>The checks of a body: the event, \<open>None\<close> for the 422, or the exception.\<close>

definition read_side_event ::
  "(string \<Rightarrow> instant option) \<Rightarrow> side_seam \<Rightarrow> string \<Rightarrow> (string \<times> json) list \<Rightarrow> instant \<Rightarrow> py_exc + side_event option" where
  "read_side_event aware seam source body now =
     (if \<not> only_keys ([''tenant_id'', ''target'', ''idempotency_key'', ''occurred_at''] @ sm_columns seam) body then Inr None
      else if contains_nul (JObj body) then Inr None
      else if \<not> text_field 64 (jget ''tenant_id'' body) then Inr None
      else bindR (sm_check seam body) (\<lambda>ok.
        if \<not> ok then Inr None
        else if \<not> optional_text 256 (jget ''target'' body) then Inr None
        else if \<not> text_field 128 (jget ''idempotency_key'' body) then Inr None
        else case jget ''occurred_at'' body of
          JStr raw \<Rightarrow> Inr (map_option (\<lambda>t. side_event_of seam source body t now) (aware raw))
        | _ \<Rightarrow> Inr None))"

definition push_side_event ::
  "orch_ext \<Rightarrow> (string \<Rightarrow> instant option) \<Rightarrow> side_seam \<Rightarrow> side_settings \<Rightarrow> side_env \<Rightarrow> string option \<Rightarrow> string \<Rightarrow> orch_db
     \<Rightarrow> (py_exc + http_response) \<times> orch_db" where
  "push_side_event x aware seam st env authorization raw d =
     (case resolve_source (ss_tokens st) authorization of
        Inl e \<Rightarrow> (Inl e, d)
      | Inr None \<Rightarrow> (Inr (http_error 401 ''unauthorized''), d)
      | Inr (Some source) \<Rightarrow>
     if int (length raw) > ss_max_body st then (Inr (http_error 413 ''request_too_large''), d)
     else case se_decode env of Some e \<Rightarrow> (Inl e, d) | None \<Rightarrow>
     (case xo_loads x raw of
        Some (JObj body) \<Rightarrow>
          (case read_side_event aware seam source body (se_now env) of
             Inl e \<Rightarrow> (Inl e, d)
           | Inr None \<Rightarrow> (Inr (http_error 422 ''schema_invalid''), d)
           | Inr (Some r) \<Rightarrow>
               (case tenant_session (sd_tenant r) of
                  Inl e \<Rightarrow> (Inl e, d)
                | Inr _ \<Rightarrow>
               (case run_txn (se_insert env) (sm_insert seam (sd_tenant r) r) d of
                  (Inl e, d1) \<Rightarrow> (Inl e, d1)
                | (Inr inserted, d1) \<Rightarrow>
                    (let disposition = (if inserted then ''accepted'' else ''duplicate'') in
                     case run_txn (se_audit env) (sm_append seam x r disposition) (se_race env d1) of
                       (Inl e, d2) \<Rightarrow> (Inl e, d2)
                     | (Inr _, d2) \<Rightarrow>
                         (Inr (http_ok 202 [(''status'', JStr ''accepted''), (''disposition'', JStr disposition)]), d2)))))
      | _ \<Rightarrow> (Inr (http_error 422 ''schema_invalid''), d)))"

definition ingest_identity_event where
  "ingest_identity_event x aware = push_side_event x aware identity_seam"

definition ingest_safety_event where
  "ingest_safety_event x aware = push_side_event x aware safety_seam"

section \<open>Reading events\<close>

definition side_event_body :: "side_event \<Rightarrow> json" where
  "side_event_body r =
     JObj ([(''tenant_id'', JStr (sd_tenant r)), (''source_product'', JStr (sd_source r))]
       @ map (\<lambda>(k, v). (k, JStr (col_text v))) (filter (\<lambda>(k, v). k \<noteq> ''target'') (sd_fields r))
       @ [(''idempotency_key'', JStr (sd_key r)), (''occurred_at'', JStr (isoformat (sd_occurred r))),
          (''received_at'', JStr (isoformat (sd_received r)))]
       @ (case col_opt (dget ''target'' (sd_fields r)) of None \<Rightarrow> [] | Some t \<Rightarrow> [(''target'', JStr t)]))"

definition side_page :: "py_exc option \<Rightarrow> seq_cursor \<Rightarrow> ident \<Rightarrow> (orch_db \<Rightarrow> side_event list \<times> int option) \<Rightarrow> orch_db
     \<Rightarrow> py_exc + http_response + json list \<times> int option" where
  "side_page read cursor caller rows_of d =
     (if cursor = Bad_cursor then Inr (Inl (http_error 422 ''schema_invalid''))
      else bindR (tenant_session caller) (\<lambda>_.
        case read of Some e \<Rightarrow> Inl e | None \<Rightarrow> (let (rows, next) = rows_of d in Inr (Inr (map side_event_body rows, next)))))"

definition query_identity_events ::
  "py_exc option \<Rightarrow> string option \<Rightarrow> string option \<Rightarrow> string option \<Rightarrow> int option \<Rightarrow> seq_cursor \<Rightarrow> ident \<Rightarrow> orch_db
     \<Rightarrow> py_exc + http_response + json list \<times> int option" where
  "query_identity_events read product ptype action limit cursor caller =
     side_page read cursor caller (list_identity_events caller product ptype action (nat (clamp_page limit)) (cursor_value cursor))"

definition query_safety_events ::
  "py_exc option \<Rightarrow> string option \<Rightarrow> string option \<Rightarrow> int option \<Rightarrow> seq_cursor \<Rightarrow> ident \<Rightarrow> orch_db
     \<Rightarrow> py_exc + http_response + json list \<times> int option" where
  "query_safety_events read product category limit cursor caller =
     side_page read cursor caller (list_safety_events caller product category (nat (clamp_page limit)) (cursor_value cursor))"

definition list_recent_identity_events_admin :: "nat \<Rightarrow> orch_db \<Rightarrow> side_event list" where
  "list_recent_identity_events_admin limit d = take limit (rev (sort_key sd_seq (identity_events d)))"

end
