(* ===== verification/Orch_Sentinel.thy ===== *)
theory Orch_Sentinel
  imports Orch_Distribution Intake_Facts
begin

text \<open>
  The distribution engine against Sentinel's intake route (\<open>admin.policies\<close>): each URL is a
  Sentinel with its own policy tables. The encoding of a request body, what stands before the
  route (authentication, limits) and the fate of every request are parameters. A target counts as
  distributed only if its Sentinel stores the record; a record whose version a Sentinel stores
  already is never distributed to it again.
\<close>

section \<open>The route\<close>

definition admin_intake_policy :: "py_exc + intake_result \<Rightarrow> int" where
  "admin_intake_policy r =
     (case r of
        Inl _ \<Rightarrow> 500
      | Inr (Policy_accepted _ _ _) \<Rightarrow> 200
      | Inr RejectedSchema \<Rightarrow> 422
      | Inr RejectedSignature \<Rightarrow> 403
      | Inr (RejectedScopeMismatch _) \<Rightarrow> 409
      | Inr (RejectedReplay _ _ _) \<Rightarrow> 409)"

datatype push_fate = Push_answered | Push_answer_lost | Push_unsent | Push_raises py_exc

record sentinel_link =
  sl_params :: "string \<Rightarrow> intake_params"
  sl_wire :: "json \<Rightarrow> string"
  sl_gate :: "string \<Rightarrow> string \<Rightarrow> int option"
  sl_env :: "string \<Rightarrow> nat \<Rightarrow> intake_env"
  sl_fate :: "string \<Rightarrow> nat \<Rightarrow> push_fate"

record sentinel_world =
  sw_db :: "string \<Rightarrow> policy_db"
  sw_posts :: nat

definition serve_intake :: "sentinel_link \<Rightarrow> string \<Rightarrow> string \<Rightarrow> json \<Rightarrow> sentinel_world \<Rightarrow> int \<times> policy_db" where
  "serve_intake L url token rec w =
     (let d = sw_db w url in
      case sl_gate L url token of
        Some status \<Rightarrow> (status, d)
      | None \<Rightarrow> (let (res, d', _) = intake_policy (sl_params L url) (sl_env L url (sw_posts w)) (Raw_bytes (sl_wire L rec)) d
                 in (admin_intake_policy res, d')))"

definition post_to_sentinel :: "sentinel_link \<Rightarrow> string \<Rightarrow> string \<Rightarrow> json \<Rightarrow> sentinel_world \<Rightarrow> post_result \<times> sentinel_world" where
  "post_to_sentinel L url token rec w =
     (let (status, d') = serve_intake L url token rec w;
          kept = w\<lparr>sw_posts := Suc (sw_posts w)\<rparr>;
          served = kept\<lparr>sw_db := (sw_db w)(url := d')\<rparr> in
      case sl_fate L url (sw_posts w) of
        Push_answered \<Rightarrow> (Post_status status, served)
      | Push_answer_lost \<Rightarrow> (Post_transport, served)
      | Push_unsent \<Rightarrow> (Post_transport, kept)
      | Push_raises e \<Rightarrow> (Post_raised e, kept))"

text \<open>The decoder reads a record back from its encoding; what stands before the route never
  answers with success.\<close>

definition wire_faithful :: "sentinel_link \<Rightarrow> json \<Rightarrow> bool" where
  "wire_faithful L rec \<longleftrightarrow> (\<forall>url. ip_loads (sl_params L url) (sl_wire L rec) = Some rec)"

definition success :: "int \<Rightarrow> bool" where
  "success status \<longleftrightarrow> 200 \<le> status \<and> status < 300"

definition gates_refuse :: "sentinel_link \<Rightarrow> bool" where
  "gates_refuse L \<longleftrightarrow> (\<forall>url token status. sl_gate L url token = Some status \<longrightarrow> \<not> success status)"

section \<open>One request\<close>

text \<open>A Sentinel holds a record: it has a version with that payload and the fields of its signed claims.\<close>

definition stores :: "intake_params \<Rightarrow> policy_db \<Rightarrow> json \<Rightarrow> bool" where
  "stores x d rec \<longleftrightarrow> (\<exists>v \<in> set (pd_versions d). JObj (vr_payload v) = rec
     \<and> (\<exists>claims. ip_verify x (vr_signature v) = Some claims \<and> version_of_claims claims (vr_payload v) v))"

definition hosts_grow :: "sentinel_world \<Rightarrow> sentinel_world \<Rightarrow> bool" where
  "hosts_grow w w' \<longleftrightarrow> (\<forall>url. set (pd_versions (sw_db w url)) \<subseteq> set (pd_versions (sw_db w' url)))"

lemma hosts_grow_refl [simp]: "hosts_grow w w"
  by (simp add: hosts_grow_def)

lemma hosts_grow_trans: "hosts_grow w w' \<Longrightarrow> hosts_grow w' w'' \<Longrightarrow> hosts_grow w w''"
  by (auto simp: hosts_grow_def)

lemma stores_mono: "hosts_grow w w' \<Longrightarrow> stores x (sw_db w url) rec \<Longrightarrow> stores x (sw_db w' url) rec"
  by (auto simp: hosts_grow_def stores_def)

lemma admin_intake_success: "success (admin_intake_policy r) \<longleftrightarrow> (\<exists>p n t. r = Inr (Policy_accepted p n t))"
  by (auto simp: admin_intake_policy_def success_def split: sum.splits intake_result.splits)

lemma serve_intake_cases:
  assumes "serve_intake L url token rec w = (status, d')"
  obtains (gated) "sl_gate L url token = Some status" "d' = sw_db w url"
  | (served) res stale where "sl_gate L url token = None" "status = admin_intake_policy res"
      "intake_policy (sl_params L url) (sl_env L url (sw_posts w)) (Raw_bytes (sl_wire L rec)) (sw_db w url) = (res, d', stale)"
  using assms by (auto simp: serve_intake_def Let_def split: option.splits prod.splits)

lemma serve_intake_grows:
  assumes "serve_intake L url token rec w = (status, d')"
  shows "set (pd_versions (sw_db w url)) \<subseteq> set (pd_versions d')"
  using assms by (cases rule: serve_intake_cases) (auto dest: intake_versions_grow)

lemma post_to_sentinel_grows:
  assumes "post_to_sentinel L url token rec w = (r, w')"
  shows "hosts_grow w w'" "sw_posts w' = Suc (sw_posts w)"
proof -
  obtain status d' where s: "serve_intake L url token rec w = (status, d')" by force
  show "hosts_grow w w'" "sw_posts w' = Suc (sw_posts w)"
    using assms s serve_intake_grows [OF s] by (auto simp: post_to_sentinel_def Let_def hosts_grow_def split: push_fate.splits)
qed

lemma parse_raw_bytes: "parse_record x (Raw_bytes s) = Some v \<Longrightarrow> ip_loads x s = Some v"
  by (auto simp: parse_record_def json_loads_def split: if_splits option.splits json.splits)

text \<open>Success means that the Sentinel now stores the record.\<close>

lemma post_success_stores:
  assumes "post_to_sentinel L url token rec w = (Post_status status, w')" "success status" "gates_refuse L" "wire_faithful L rec"
  shows "stores (sl_params L url) (sw_db w' url) rec"
proof -
  obtain d' where s: "serve_intake L url token rec w = (status, d')" and w': "sw_db w' url = d'"
    using assms(1) by (auto simp: post_to_sentinel_def Let_def split: push_fate.splits prod.splits)
  from s show ?thesis
  proof (cases rule: serve_intake_cases)
    case gated
    then show ?thesis using assms(2,3) by (simp add: gates_refuse_def)
  next
    case (served res stale)
    obtain p n t where res: "res = Inr (Policy_accepted p n t)" using assms(2) served(2) by (auto simp: admin_intake_success)
    from served(3) show ?thesis
    proof (cases rule: intake_outcome)
      case (accepted r claims v d1 e)
      have "rec = JObj r" using accepted(1) assms(4) by (auto simp: verified_def wire_faithful_def dest!: parse_raw_bytes)
      moreover have "v \<in> set (pd_versions (sw_db w' url))" using accepted(4) upsert_versions [OF accepted(3)] w' by simp
      moreover have "ip_verify (sl_params L url) (vr_signature v) = Some claims" "vr_payload v = r"
        using accepted(1,2) by (auto simp: verified_def version_of_claims_def)
      ultimately show ?thesis using accepted(2) unfolding stores_def by blast
    qed (use res in blast)
  qed
qed

text \<open>The version named by the verified claims of a record is not above one that is stored.\<close>

definition superseded :: "intake_params \<Rightarrow> string \<Rightarrow> json \<Rightarrow> policy_db \<Rightarrow> bool" where
  "superseded x body rec d \<longleftrightarrow> (\<forall>r claims pid n. rec = JObj r \<longrightarrow> verified x (Raw_bytes body) r claims \<longrightarrow> jget ''policy_id'' claims = JStr pid
     \<longrightarrow> py_int (jget ''policy_version'' claims) = Inr n \<longrightarrow> (\<exists>v \<in> set (pd_versions d). vr_policy v = pid \<and> n \<le> vr_version v))"

lemma stores_superseded: "stores x d rec \<Longrightarrow> superseded x body rec d"
  by (force simp: stores_def superseded_def verified_def version_of_claims_def)

lemma superseded_mono: "superseded x body rec d \<Longrightarrow> set (pd_versions d) \<subseteq> set (pd_versions d') \<Longrightarrow> superseded x body rec d'"
  unfolding superseded_def by blast

lemma superseded_stale:
  assumes "v \<in> set (pd_versions d)" "vr_policy v = pid" "n \<le> vr_version v"
  shows "\<not> version_fresh pid n d"
  using assms unfolding version_fresh_iff versions_of_def by force

lemma superseded_refused:
  assumes "superseded x body rec d" "ip_loads x body = Some rec" "intake_policy x env (Raw_bytes body) d = (res, d', stale)"
  shows "unchanged_policies d d' \<and> (\<forall>p n t. res \<noteq> Inr (Policy_accepted p n t))"
  using assms(3)
proof (cases rule: intake_outcome)
  case (accepted r claims v d1 e)
  have "rec = JObj r" using accepted(1) assms(2) by (auto simp: verified_def dest!: parse_raw_bytes)
  then have "\<not> version_fresh (vr_policy v) (vr_version v) d"
    using assms(1) accepted(1,2) superseded_stale by (fastforce simp: superseded_def version_of_claims_def)
  then show ?thesis using accepted(3) by (simp add: upsert_policy_eq_Inr)
qed blast

definition policies_kept :: "sentinel_world \<Rightarrow> sentinel_world \<Rightarrow> bool" where
  "policies_kept w w' \<longleftrightarrow> (\<forall>url. unchanged_policies (sw_db w url) (sw_db w' url))"

lemma policies_kept_refl [simp]: "policies_kept w w"
  by (simp add: policies_kept_def unchanged_policies_def)

lemma policies_kept_trans: "policies_kept w w' \<Longrightarrow> policies_kept w' w'' \<Longrightarrow> policies_kept w w''"
  by (simp add: policies_kept_def unchanged_policies_def)

lemma post_superseded:
  assumes "post_to_sentinel L url token rec w = (r, w')" "superseded (sl_params L url) (sl_wire L rec) rec (sw_db w url)"
    "gates_refuse L" "wire_faithful L rec"
  shows "policies_kept w w'" "r = Post_status status \<Longrightarrow> \<not> success status"
proof -
  obtain status' d' where s: "serve_intake L url token rec w = (status', d')" by force
  have "unchanged_policies (sw_db w url) d' \<and> \<not> success status'"
    using s
  proof (cases rule: serve_intake_cases)
    case gated
    then show ?thesis using assms(3) by (auto simp: gates_refuse_def unchanged_policies_def)
  next
    case (served res stale)
    then show ?thesis using superseded_refused [OF assms(2) _ served(3)] assms(4) by (simp add: wire_faithful_def admin_intake_success)
  qed
  then show "policies_kept w w'" "r = Post_status status \<Longrightarrow> \<not> success status"
    using assms(1) s by (auto simp: post_to_sentinel_def Let_def policies_kept_def unchanged_policies_def split: push_fate.splits)
qed

end
