(* ===== verification/Orch_Distribution_Facts.thy ===== *)
theory Orch_Distribution_Facts
  imports Orch_Sentinel
begin

text \<open>
  What the distribution engine guarantees: the chains and keys of its tables are kept, a
  distribution's state is the honest aggregate of its targets, a target is distributed only if the
  peer at its URL holds the record, and a record that its peers refuse as stale ends as failed.
  The peer is a locale, interpreted on Sentinel's intake.
\<close>

section \<open>Rows the engine keeps\<close>

definition target_key :: "target_dist_row \<Rightarrow> ident \<times> ident \<times> ident \<times> ident" where
  "target_key t = (dt_id t, dt_distribution t, dt_sentinel t, dt_tenant t)"

definition dist_key :: "distribution_row \<Rightarrow> ident \<times> ident \<times> json" where
  "dist_key r = (ds_id r, ds_tenant r, ds_record r)"

definition same_plan :: "orch_db \<Rightarrow> orch_db \<Rightarrow> bool" where
  "same_plan d d' \<longleftrightarrow> map target_key (policy_distribution_targets d') = map target_key (policy_distribution_targets d)
     \<and> map dist_key (policy_distributions d') = map dist_key (policy_distributions d)"

lemma same_plan_refl [simp]: "same_plan d d"
  by (simp add: same_plan_def)

lemma same_plan_trans: "same_plan d d' \<Longrightarrow> same_plan d' d'' \<Longrightarrow> same_plan d d''"
  by (simp add: same_plan_def)

definition dist_ok :: "orch_db \<Rightarrow> bool" where
  "dist_ok d \<longleftrightarrow> distinct (map dt_id (policy_distribution_targets d)) \<and> distinct (map ds_id (policy_distributions d))
     \<and> dt_distribution ` set (policy_distribution_targets d) \<subseteq> ds_id ` set (policy_distributions d)"

lemma dist_ok_same_plan:
  assumes "same_plan d d'" "dist_ok d"
  shows "dist_ok d'"
proof -
  have "map dt_id (policy_distribution_targets d) = map fst (map target_key (policy_distribution_targets d))"
    "map dt_distribution (policy_distribution_targets d) = map (\<lambda>k. fst (snd k)) (map target_key (policy_distribution_targets d))"
    "map ds_id (policy_distributions d) = map fst (map dist_key (policy_distributions d))" for d
    by (simp_all add: target_key_def dist_key_def)
  moreover have "dist_ok d \<longleftrightarrow> distinct (map dt_id (policy_distribution_targets d)) \<and> distinct (map ds_id (policy_distributions d))
     \<and> set (map dt_distribution (policy_distribution_targets d)) \<subseteq> set (map ds_id (policy_distributions d))" for d
    by (simp add: dist_ok_def)
  ultimately show ?thesis using assms unfolding same_plan_def by metis
qed

lemma update_target_same_plan [simp]: "same_plan d (update_target_state sess i s a e x y now d)"
  by (simp add: same_plan_def update_target_state_def target_key_def map_update_where_frame)

lemma update_distribution_same_plan [simp]: "same_plan d (update_distribution_state sess i s d)"
  by (simp add: same_plan_def update_distribution_state_def dist_key_def map_update_where_frame)

lemma append_distribution_eq:
  assumes "append_distribution x meta disposition s e d = Inr (u, d')"
  obtains rows where "d' = d\<lparr>chains := (chains d)\<lparr>distribution_audit_log := rows\<rparr>\<rparr>"
    "chains_ok (xo_sha x) (chains d) \<Longrightarrow> chains_ok (xo_sha x) (chains d')"
proof -
  obtain a b c p h rows where m: "meta = (a, b, c, p)"
    and l: "append_distribution_audit_link (xo_sha x)
        [(''distribution_id'', CStr a), (''policy_id'', CStr b), (''tenant_id'', CStr c), (''policy_type'', CStr p)]
        disposition s e (distribution_audit_log (chains d)) = Inr (h, rows)"
    and d': "d' = d\<lparr>chains := (chains d)\<lparr>distribution_audit_log := rows\<rparr>\<rparr>"
    using assms by (auto simp: append_distribution_def bindR_eq_Inr split: prod.splits)
  show thesis by (rule that [OF d']) (use chains_ok_append(2) [OF _ l] d' in auto)
qed

text \<open>The tables an operation of this component leaves alone.\<close>

definition dist_frame :: "orch_db \<Rightarrow> orch_db \<Rightarrow> bool" where
  "dist_frame d d' \<longleftrightarrow> (\<exists>ds ts c n. d' = d\<lparr>policy_distributions := ds, policy_distribution_targets := ts, chains := c, uuid_next := n\<rparr>
     \<and> (\<exists>a b. c = (chains d)\<lparr>distribution_audit_log := a, distribution_rollbacks := b\<rparr>))"

lemma dist_frameI:
  "dist_frame d d"
  "dist_frame d (update_target_state sess i s a e x y now d)"
  "dist_frame d (update_distribution_state sess i s d)"
  "dist_frame d (d\<lparr>chains := (chains d)\<lparr>distribution_audit_log := rows\<rparr>\<rparr>)"
  "dist_frame d (d\<lparr>chains := (chains d)\<lparr>distribution_rollbacks := rows\<rparr>\<rparr>)"
  "dist_frame d (d\<lparr>policy_distributions := ds\<rparr>)"
  "dist_frame d (d\<lparr>policy_distribution_targets := ts\<rparr>)"
  "dist_frame d (d\<lparr>uuid_next := n\<rparr>)"
  by (cases d; cases "chains d"; simp add: dist_frame_def update_target_state_def update_distribution_state_def)+

lemma dist_frame_trans: "dist_frame d d' \<Longrightarrow> dist_frame d' d'' \<Longrightarrow> dist_frame d d''"
  by (cases d; cases "chains d") (auto simp: dist_frame_def)

section \<open>Settling a target\<close>

definition drive_step :: "(string \<Rightarrow> string) \<Rightarrow> orch_db \<Rightarrow> orch_db \<Rightarrow> bool" where
  "drive_step sha d d' \<longleftrightarrow> same_plan d d' \<and> dist_frame d d' \<and> (chains_ok sha (chains d) \<longrightarrow> chains_ok sha (chains d'))"

lemma drive_step_refl [simp]: "drive_step sha d d"
  by (simp add: drive_step_def dist_frameI)

lemma drive_step_trans: "drive_step sha d d' \<Longrightarrow> drive_step sha d' d'' \<Longrightarrow> drive_step sha d d''"
  unfolding drive_step_def using same_plan_trans dist_frame_trans by blast

lemma drive_step_append:
  assumes "run_txn fault (append_distribution x meta disposition s e) d = (y, d')"
  shows "drive_step (xo_sha x) d d'" "policy_distribution_targets d' = policy_distribution_targets d"
    "policy_distributions d' = policy_distributions d"
proof -
  have "drive_step (xo_sha x) d d' \<and> policy_distribution_targets d' = policy_distribution_targets d \<and> policy_distributions d' = policy_distributions d"
  proof (rule run_txn_preserves [OF assms])
    fix a t
    assume "append_distribution x meta disposition s e d = Inr (a, t)"
    then show "drive_step (xo_sha x) d t \<and> policy_distribution_targets t = policy_distribution_targets d \<and> policy_distributions t = policy_distributions d"
      by (rule append_distribution_eq) (auto simp: drive_step_def same_plan_def intro: dist_frameI)
  qed simp
  then show "drive_step (xo_sha x) d d'" "policy_distribution_targets d' = policy_distribution_targets d"
    "policy_distributions d' = policy_distributions d" by blast+
qed

lemma settle_target_cases:
  assumes "settle_target x env meta target state attempts err d = (y, d')"
  shows "drive_step (xo_sha x) d d'" "policy_distributions d' = policy_distributions d"
    "t' \<in> set (policy_distribution_targets d') \<Longrightarrow> t' \<in> set (policy_distribution_targets d) \<or> dt_id t' = dt_id target \<and> dt_state t' = state"
    "y = Inr r \<Longrightarrow> r = state"
proof -
  define P where "P s \<longleftrightarrow> drive_step (xo_sha x) d s \<and> policy_distributions s = policy_distributions d \<and>
    (\<forall>t' \<in> set (policy_distribution_targets s). t' \<in> set (policy_distribution_targets d) \<or> dt_id t' = dt_id target \<and> dt_state t' = state)" for s
  obtain y1 d1 where w: "run_txn (de_write env (dt_id target)) (\<lambda>s. Inr ((), update_target_state (fst (snd (snd meta))) (dt_id target) state
             (Some attempts) err (if state = ''distributed'' then Some (de_now env) else None) None (de_now env) s)) d = (y1, d1)" by force
  have "P d1"
  proof (rule run_txn_preserves [OF w])
    fix a t
    assume "Inr ((), update_target_state (fst (snd (snd meta))) (dt_id target) state
             (Some attempts) err (if state = ''distributed'' then Some (de_now env) else None) None (de_now env) d) = Inr (a, t)"
    then have t: "t = update_target_state (fst (snd (snd meta))) (dt_id target) state
             (Some attempts) err (if state = ''distributed'' then Some (de_now env) else None) None (de_now env) d" by simp
    have "drive_step (xo_sha x) d t" unfolding t by (simp add: drive_step_def dist_frameI) (simp add: update_target_state_def)
    then show "P t" unfolding P_def by (auto simp: t update_target_state_def set_update_where)
  qed (simp add: P_def)
  moreover have "P s" if "P d1" "run_txn f (append_distribution x meta state (Some (dt_sentinel target)) err) d1 = (y2, s)" for f y2 s
    using that(1) drive_step_append [OF that(2)] by (auto simp: P_def intro: drive_step_trans)
  ultimately have "P d' \<and> (\<forall>r. y = Inr r \<longrightarrow> r = state)"
    using assms unfolding settle_target_def w by (auto split: sum.splits prod.splits)
  then show "drive_step (xo_sha x) d d'" "policy_distributions d' = policy_distributions d"
    "t' \<in> set (policy_distribution_targets d') \<Longrightarrow> t' \<in> set (policy_distribution_targets d) \<or> dt_id t' = dt_id target \<and> dt_state t' = state"
    "y = Inr r \<Longrightarrow> r = state" by (auto simp: P_def)
qed

section \<open>The retry loop\<close>

lemma intake_attempts_inv:
  assumes "intake_attempts post n a e w = (res, w')" "P w" "\<And>w r w'. P w \<Longrightarrow> post w = (r, w') \<Longrightarrow> P w'"
  shows "P w' \<and> (\<forall>k. res = Delivered_at k \<longrightarrow> (\<exists>w0 s. P w0 \<and> post w0 = (Post_status s, w') \<and> success s))"
  using assms(1,2)
proof (induction n arbitrary: a e w)
  case (Suc n)
  obtain r w1 where p: "post w = (r, w1)" by force
  have P: "P w1" by (rule assms(3) [OF Suc.prems(2) p])
  show ?case
  proof (cases r)
    case (Post_status s)
    consider "success s" | "\<not> success s" "s = 429 \<or> s \<ge> 500" | "\<not> success s" "\<not> (s = 429 \<or> s \<ge> 500)" by blast
    then show ?thesis using Suc.prems p P Post_status Suc.IH [OF _ P]
      by cases (auto simp: success_def)
  next
    case Post_transport
    then show ?thesis using Suc.prems p Suc.IH [OF _ P] by simp
  next
    case (Post_raised e')
    then show ?thesis using Suc.prems p P by auto
  qed
qed auto

section \<open>The peer of the engine\<close>

text \<open>\<open>holds\<close>: the peer at a URL holds a record. \<open>stale\<close>: it refuses the record for good. \<open>quiet\<close>: no
  peer changed its policies.\<close>

locale intake_peer =
  fixes post :: "string \<Rightarrow> string \<Rightarrow> json \<Rightarrow> 'w \<Rightarrow> post_result \<times> 'w"
    and rec_ok :: "json \<Rightarrow> bool"
    and holds :: "string \<Rightarrow> json \<Rightarrow> 'w \<Rightarrow> bool"
    and stale :: "string \<Rightarrow> json \<Rightarrow> 'w \<Rightarrow> bool"
    and quiet :: "'w \<Rightarrow> 'w \<Rightarrow> bool"
  assumes holds_kept: "post url tok rec w = (r, w') \<Longrightarrow> holds url' rec' w \<Longrightarrow> holds url' rec' w'"
    and success_holds: "rec_ok rec \<Longrightarrow> post url tok rec w = (Post_status s, w') \<Longrightarrow> success s \<Longrightarrow> holds url rec w'"
    and stale_kept: "post url tok rec w = (r, w') \<Longrightarrow> stale url' rec' w \<Longrightarrow> stale url' rec' w'"
    and stale_refused: "rec_ok rec \<Longrightarrow> stale url rec w \<Longrightarrow> post url tok rec w = (Post_status s, w') \<Longrightarrow> \<not> success s"
    and stale_quiet: "rec_ok rec \<Longrightarrow> stale url rec w \<Longrightarrow> post url tok rec w = (r, w') \<Longrightarrow> quiet w w'"
    and quiet_refl: "quiet w w"
    and quiet_trans: "quiet w w' \<Longrightarrow> quiet w' w'' \<Longrightarrow> quiet w w''"
begin

lemma attempts_hold:
  assumes "intake_attempts (post url tok rec) n a e w = (res, w')"
  shows "holds url' rec' w \<Longrightarrow> holds url' rec' w'" "rec_ok rec \<Longrightarrow> res = Delivered_at k \<Longrightarrow> holds url rec w'"
    "stale url' rec' w \<Longrightarrow> stale url' rec' w'"
proof -
  show "holds url' rec' w'" if "holds url' rec' w"
    using intake_attempts_inv [OF assms, of "holds url' rec'"] that holds_kept by blast
  show "stale url' rec' w'" if "stale url' rec' w"
    using intake_attempts_inv [OF assms, of "stale url' rec'"] that stale_kept by blast
  show "holds url rec w'" if "rec_ok rec" "res = Delivered_at k"
    using intake_attempts_inv [OF assms, of "\<lambda>_. True"] that success_holds by blast
qed

lemma attempts_stale:
  assumes "intake_attempts (post url tok rec) n a e w = (res, w')" "rec_ok rec" "stale url rec w"
  shows "quiet w w'" "res \<noteq> Delivered_at k"
proof -
  have "(stale url rec w' \<and> quiet w w') \<and> (\<forall>k. res = Delivered_at k \<longrightarrow>
      (\<exists>w0 s. (stale url rec w0 \<and> quiet w w0) \<and> post url tok rec w0 = (Post_status s, w') \<and> success s))"
    by (rule intake_attempts_inv [OF assms(1)]) (use assms(2,3) quiet_refl quiet_trans stale_quiet stale_kept in blast)+
  then show "quiet w w'" "res \<noteq> Delivered_at k" using stale_refused [OF assms(2)] by blast+
qed

text \<open>One target: the rows that change are its own, and they are distributed only if the peer holds the record.\<close>

lemma target_outcome:
  assumes "distribute_to_target x st env post meta rec target (d, w) = (y, d', w')"
  shows "drive_step (xo_sha x) d d'" "policy_distributions d' = policy_distributions d"
    "holds url' rec' w \<Longrightarrow> holds url' rec' w'" "stale url' rec' w \<Longrightarrow> stale url' rec' w'"
    "t' \<in> set (policy_distribution_targets d') \<Longrightarrow> t' \<in> set (policy_distribution_targets d) \<or>
       dt_id t' = dt_id target \<and> (dt_state t' = ''distributed'' \<longrightarrow> rec_ok rec \<longrightarrow>
         (\<exists>base. map_of (dg_targets st) (dt_sentinel target) = Some base \<and> holds (target_url st base) rec w'))"
    and target_stale: "(\<And>base. map_of (dg_targets st) (dt_sentinel target) = Some base \<Longrightarrow> stale (target_url st base) rec w) \<Longrightarrow> rec_ok rec \<Longrightarrow>
       quiet w w' \<and> (\<forall>t' \<in> set (policy_distribution_targets d'). t' \<in> set (policy_distribution_targets d) \<or> dt_state t' \<noteq> ''distributed'')"
proof -
  consider (settled) err n where "w' = w" "settle_target x env meta target ''failed'' n err d = (y, d')"
    | (raised) base tok res where "map_of (dg_targets st) (dt_sentinel target) = Some base" "d' = d"
        "intake_attempts (post (target_url st base) tok rec) (nat (dg_max_attempts st)) 0 ''unknown_error'' w = (res, w')"
    | (failed) base tok n err where "map_of (dg_targets st) (dt_sentinel target) = Some base" "settle_target x env meta target ''failed'' n (Some err) d = (y, d')"
        "intake_attempts (post (target_url st base) tok rec) (nat (dg_max_attempts st)) 0 ''unknown_error'' w = (Gave_up n err, w')"
    | (delivered) base tok n where "map_of (dg_targets st) (dt_sentinel target) = Some base" "settle_target x env meta target ''distributed'' n None d = (y, d')"
        "intake_attempts (post (target_url st base) tok rec) (nat (dg_max_attempts st)) 0 ''unknown_error'' w = (Delivered_at n, w')"
    using assms by (auto simp: distribute_to_target_def split: option.splits prod.splits attempt_result.splits)
  note c = this
  from c show "drive_step (xo_sha x) d d'" by cases (auto dest: settle_target_cases(1))
  from c show "policy_distributions d' = policy_distributions d" by cases (auto dest: settle_target_cases(2))
  from c show "holds url' rec' w \<Longrightarrow> holds url' rec' w'" by cases (auto dest: attempts_hold(1))
  from c show "stale url' rec' w \<Longrightarrow> stale url' rec' w'" by cases (auto dest: attempts_hold(3))
  from c show "t' \<in> set (policy_distribution_targets d') \<Longrightarrow> t' \<in> set (policy_distribution_targets d) \<or>
       dt_id t' = dt_id target \<and> (dt_state t' = ''distributed'' \<longrightarrow> rec_ok rec \<longrightarrow>
         (\<exists>base. map_of (dg_targets st) (dt_sentinel target) = Some base \<and> holds (target_url st base) rec w'))"
    by cases (auto dest: settle_target_cases(3) attempts_hold(2))
  show "quiet w w' \<and> (\<forall>t' \<in> set (policy_distribution_targets d'). t' \<in> set (policy_distribution_targets d) \<or> dt_state t' \<noteq> ''distributed'')"
    if "\<And>base. map_of (dg_targets st) (dt_sentinel target) = Some base \<Longrightarrow> stale (target_url st base) rec w" "rec_ok rec"
    using c
  proof cases
    case settled
    then show ?thesis using quiet_refl by (fastforce dest: settle_target_cases(3))
  next
    case raised
    then show ?thesis using attempts_stale(1) [OF raised(3) that(2)] that(1) by blast
  next
    case failed
    then show ?thesis using attempts_stale(1) [OF failed(3) that(2)] that(1) by (fastforce dest: settle_target_cases(3))
  next
    case delivered
    then show ?thesis using attempts_stale(2) [OF delivered(3) that(2)] that(1) by blast
  qed
qed

end

section \<open>What is distributed is held\<close>

definition delivered :: "distribution_settings \<Rightarrow> (string \<Rightarrow> json \<Rightarrow> 'w \<Rightarrow> bool) \<Rightarrow> orch_db \<Rightarrow> 'w \<Rightarrow> bool" where
  "delivered st holds d w \<longleftrightarrow> (\<forall>t \<in> set (policy_distribution_targets d). dt_state t = ''distributed'' \<longrightarrow>
     (\<exists>base. map_of (dg_targets st) (dt_sentinel t) = Some base
        \<and> (\<exists>r \<in> set (policy_distributions d). ds_id r = dt_distribution t \<and> holds (target_url st base) (ds_record r) w)))"

lemma delivered_transfer:
  assumes "delivered st holds d w" "policy_distribution_targets d' = policy_distribution_targets d"
    "map dist_key (policy_distributions d') = map dist_key (policy_distributions d)"
  shows "delivered st holds d' w"
proof -
  have "set (map dist_key (policy_distributions d')) = set (map dist_key (policy_distributions d))" using assms(3) by metis
  then have img: "dist_key ` set (policy_distributions d) = dist_key ` set (policy_distributions d')" by simp
  have k: "\<exists>r' \<in> set (policy_distributions d'). ds_id r' = ds_id r \<and> ds_record r' = ds_record r" if "r \<in> set (policy_distributions d)" for r
  proof -
    have "dist_key r \<in> dist_key ` set (policy_distributions d')" using that unfolding img [symmetric] by (rule imageI)
    then show ?thesis by (auto simp: dist_key_def)
  qed
  show ?thesis unfolding delivered_def
  proof (intro ballI impI)
    fix t
    assume "t \<in> set (policy_distribution_targets d')" "dt_state t = ''distributed''"
    then obtain base r where b: "map_of (dg_targets st) (dt_sentinel t) = Some base" "r \<in> set (policy_distributions d)"
        "ds_id r = dt_distribution t" "holds (target_url st base) (ds_record r) w"
      using assms(1,2) by (auto simp: delivered_def)
    obtain r' where "r' \<in> set (policy_distributions d')" "ds_id r' = ds_id r" "ds_record r' = ds_record r" using k [OF b(2)] by blast
    then show "\<exists>base. map_of (dg_targets st) (dt_sentinel t) = Some base
        \<and> (\<exists>r \<in> set (policy_distributions d'). ds_id r = dt_distribution t \<and> holds (target_url st base) (ds_record r) w)"
      using b by auto
  qed
qed

lemma target_key_unique:
  assumes "dist_ok d" "t \<in> set (policy_distribution_targets d)" "target_key u \<in> target_key ` set (policy_distribution_targets d)" "dt_id t = dt_id u"
  shows "target_key t = target_key u"
proof -
  obtain v where v: "v \<in> set (policy_distribution_targets d)" "target_key v = target_key u" using assms(3) by force
  then have "v = t" using assms(1,2,4) by (auto simp: dist_ok_def target_key_def distinct_map inj_on_def)
  then show ?thesis using v(2) by simp
qed

lemma finish_distribution_cases:
  assumes "finish_distribution x env (i, p, tn, ty) d = (y, d')"
  shows "drive_step (xo_sha x) d d'" "policy_distribution_targets d' = policy_distribution_targets d"
    "y = Inr u \<Longrightarrow> policy_distributions d' = policy_distributions (update_distribution_state tn i
        (aggregate_state (map dt_state (list_distribution_targets tn i d))) d)"
proof -
  define a where "a = aggregate_state (map dt_state (list_distribution_targets tn i d))"
  define e where "e = update_distribution_state tn i a d"
  have e: "drive_step (xo_sha x) d e" "policy_distribution_targets e = policy_distribution_targets d"
    by (auto simp: drive_step_def e_def dist_frameI) (auto simp: update_distribution_state_def)
  obtain y1 d1 where w: "run_txn (de_final env) (\<lambda>s. Inr ((), update_distribution_state tn i a s)) d = (y1, d1)" by force
  from w have d1: "d1 = d \<and> (\<exists>e. y1 = Inl e) \<or> d1 = e"
    by (cases rule: run_txn_cases) (auto simp: e_def)
  have c: "y = y1 \<and> d' = d1 \<and> (\<exists>e. y1 = Inl e) \<or>
      (\<exists>f. run_txn f (append_distribution x (i, p, tn, ty) a None None) d1 = (y, d') \<and> d1 = e)"
    using assms w d1 by (cases y1) (auto simp: finish_distribution_def a_def)
  have "drive_step (xo_sha x) d d' \<and> policy_distribution_targets d' = policy_distribution_targets d \<and>
      (y = Inr u \<longrightarrow> policy_distributions d' = policy_distributions e)"
    using c d1 e drive_step_append [of _ x "(i, p, tn, ty)" a None None d1 y d'] by (auto intro: drive_step_trans)
  then show "drive_step (xo_sha x) d d'" "policy_distribution_targets d' = policy_distribution_targets d"
    "y = Inr u \<Longrightarrow> policy_distributions d' = policy_distributions (update_distribution_state tn i
        (aggregate_state (map dt_state (list_distribution_targets tn i d))) d)" by (auto simp: e_def a_def)
qed

lemma aggregate_state_iff:
  "aggregate_state ss = ''distributed'' \<longleftrightarrow> ss \<noteq> [] \<and> (\<forall>s \<in> set ss. s = ''distributed'')"
  "aggregate_state ss = ''partial'' \<longleftrightarrow> ''distributed'' \<in> set ss \<and> (\<exists>s \<in> set ss. s \<noteq> ''distributed'')"
  and aggregate_failed: "aggregate_state ss = ''failed'' \<longleftrightarrow> ''distributed'' \<notin> set ss"
proof -
  have "length (filter (\<lambda>s. s = ''distributed'') ss) = length ss \<longleftrightarrow> (\<forall>s \<in> set ss. s = ''distributed'')"
    using length_filter_less [of _ ss "\<lambda>s. s = ''distributed''"] by (auto dest: less_imp_neq)
  then show "aggregate_state ss = ''distributed'' \<longleftrightarrow> ss \<noteq> [] \<and> (\<forall>s \<in> set ss. s = ''distributed'')"
    "aggregate_state ss = ''partial'' \<longleftrightarrow> ''distributed'' \<in> set ss \<and> (\<exists>s \<in> set ss. s \<noteq> ''distributed'')"
    "aggregate_state ss = ''failed'' \<longleftrightarrow> ''distributed'' \<notin> set ss"
    by (cases ss; auto simp: aggregate_state_def Let_def filter_empty_conv)+
qed

lemma drive_distribution_cases:
  assumes "drive_distribution x st env post i tn (d, w) = (y, d', w')"
  obtains (idle) "d' = d" "w' = w" "isl y \<or> get_distribution (Some tn) i d = None"
  | (driven) dist y1 d1 w1 where "get_distribution (Some tn) i d = Some dist"
      "fan_out x st env post (i, ds_policy dist, tn, ds_type dist) (ds_record dist) (list_distribution_targets tn i d) (d, w) = (y1, d1, w1)"
      "isl y \<and> d' = d1 \<and> w' = w1 \<or> finish_distribution x env (i, ds_policy dist, tn, ds_type dist) d1 = (y, d') \<and> w' = w1"
proof (cases "tenant_session tn")
  case (Inl e)
  then have "Inl e = y \<and> d' = d \<and> w' = w" using assms by (simp add: drive_distribution_def)
  then show thesis by (auto intro: idle)
next
  case (Inr u)
  show thesis
  proof (cases "de_read env")
    case (Some e)
    then show thesis using assms Inr by (intro idle) (auto simp: drive_distribution_def)
  next
    case None
    show thesis
    proof (cases "get_distribution (Some tn) i d")
      case (Some dist)
      obtain y1 d1 w1 where f: "fan_out x st env post (i, ds_policy dist, tn, ds_type dist) (ds_record dist)
          (list_distribution_targets tn i d) (d, w) = (y1, d1, w1)" using prod_cases3 by blast
      show thesis using assms Inr None Some f
        by (intro driven [OF Some f]) (cases y1; auto simp: drive_distribution_def Let_def split: prod.splits)
    qed (use assms Inr None in \<open>intro idle; simp add: drive_distribution_def\<close>)
  qed
qed

context intake_peer
begin

lemma target_delivered:
  assumes "distribute_to_target x st env post meta rec target (d, w) = (y, d', w')" "rec_ok rec" "dist_ok d" "delivered st holds d w"
    "target_key target \<in> target_key ` set (policy_distribution_targets d)"
    "r \<in> set (policy_distributions d)" "ds_id r = dt_distribution target" "ds_record r = rec"
  shows "delivered st holds d' w'"
  unfolding delivered_def
proof (intro ballI impI)
  fix t
  assume t: "t \<in> set (policy_distribution_targets d')" "dt_state t = ''distributed''"
  note o = target_outcome [OF assms(1)]
  have "target_key t = target_key target" if "dt_id t = dt_id target"
  proof -
    have p: "map target_key (policy_distribution_targets d') = map target_key (policy_distribution_targets d)" "dist_ok d'"
      using o(1) dist_ok_same_plan assms(3) by (auto simp: drive_step_def same_plan_def)
    then have "target_key target \<in> target_key ` set (policy_distribution_targets d')" using assms(5) by (metis set_map)
    then show ?thesis by (rule target_key_unique [OF p(2) t(1)]) (rule that)
  qed
  then show "\<exists>base. map_of (dg_targets st) (dt_sentinel t) = Some base
        \<and> (\<exists>r \<in> set (policy_distributions d'). ds_id r = dt_distribution t \<and> holds (target_url st base) (ds_record r) w')"
    using o(2,3) o(5) [OF t(1)] t(2) assms(2,4,6,7,8) unfolding delivered_def target_key_def by (metis prod.inject)
qed

lemma fan_out_outcome:
  assumes "fan_out x st env post meta rec ts (d, w) = (y, d', w')" "rec_ok rec" "dist_ok d" "delivered st holds d w"
    "\<forall>t \<in> set ts. target_key t \<in> target_key ` set (policy_distribution_targets d) \<and> dt_distribution t = ds_id r"
    "r \<in> set (policy_distributions d)" "ds_record r = rec"
  shows "drive_step (xo_sha x) d d' \<and> policy_distributions d' = policy_distributions d \<and> delivered st holds d' w'"
  using assms
proof (induction ts arbitrary: d w)
  case (Cons t ts)
  obtain y1 d1 w1 where t: "distribute_to_target x st env post meta rec t (d, w) = (y1, d1, w1)" using prod_cases3 by blast
  note o = target_outcome [OF t]
  have d1: "delivered st holds d1 w1" by (rule target_delivered [OF t]) (use Cons.prems in auto)
  have k: "target_key ` set (policy_distribution_targets d1) = target_key ` set (policy_distribution_targets d)" "dist_ok d1"
    using o(1) dist_ok_same_plan Cons.prems(3) by (auto simp: drive_step_def same_plan_def dest!: arg_cong [where f = set])
  have "(\<exists>e. y = Inl e) \<and> d' = d1 \<and> w' = w1 \<or> fan_out x st env post meta rec ts (d1, w1) = (y, d', w')"
    using Cons.prems(1) t by (auto split: sum.splits if_splits)
  then show ?case
  proof
    assume "fan_out x st env post meta rec ts (d1, w1) = (y, d', w')"
    then have "drive_step (xo_sha x) d1 d' \<and> policy_distributions d' = policy_distributions d1 \<and> delivered st holds d' w'"
      by (rule Cons.IH) (use Cons.prems k d1 o(2) in auto)
    then show ?thesis using o(1,2) drive_step_trans by metis
  qed (use o(1,2) d1 in auto)
qed auto

lemma get_distribution_Some:
  assumes "get_distribution (Some tn) i d = Some r"
  shows "r \<in> set (policy_distributions d)" "ds_id r = i" "ds_tenant r = tn"
  using assms by (auto simp: get_distribution_def find_Some_iff)

lemma drive_outcome:
  assumes "drive_distribution x st env post i tn (d, w) = (y, d', w')" "\<forall>r \<in> set (policy_distributions d). rec_ok (ds_record r)"
    "dist_ok d" "delivered st holds d w"
  shows "drive_step (xo_sha x) d d'" "delivered st holds d' w'"
    "y = Inr u \<Longrightarrow> get_distribution (Some tn) i d = Some r \<Longrightarrow> \<exists>r' \<in> set (policy_distributions d'). ds_id r' = i
       \<and> ds_state r' = aggregate_state (map dt_state (list_distribution_targets tn i d'))"
proof -
  have "drive_step (xo_sha x) d d' \<and> delivered st holds d' w' \<and> (y = Inr u \<longrightarrow> get_distribution (Some tn) i d = Some r \<longrightarrow>
     (\<exists>r' \<in> set (policy_distributions d'). ds_id r' = i \<and> ds_state r' = aggregate_state (map dt_state (list_distribution_targets tn i d'))))"
    using assms(1)
  proof (cases rule: drive_distribution_cases)
    case idle
    then show ?thesis using assms(4) by auto
  next
    case (driven dist y1 d1 w1)
    note dist = get_distribution_Some [OF driven(1)]
    have o: "drive_step (xo_sha x) d d1 \<and> policy_distributions d1 = policy_distributions d \<and> delivered st holds d1 w1"
      by (rule fan_out_outcome [OF driven(2)]) (use assms(2,3,4) dist in \<open>auto simp: list_distribution_targets_def\<close>)
    from driven(3) show ?thesis
    proof
      assume fin: "finish_distribution x env (i, ds_policy dist, tn, ds_type dist) d1 = (y, d') \<and> w' = w1"
      note c = finish_distribution_cases [OF fin [THEN conjunct1]]
      have "delivered st holds d' w'"
        by (rule delivered_transfer [of st holds d1]) (use o fin c(1,2) in \<open>auto simp: drive_step_def same_plan_def\<close>)
      moreover have "\<exists>r' \<in> set (policy_distributions d'). ds_id r' = i \<and> ds_state r' = aggregate_state (map dt_state (list_distribution_targets tn i d'))"
        if "y = Inr u"
        using c(3) [OF that] c(2) o dist
        by (auto simp: update_distribution_state_def set_update_where list_distribution_targets_def intro!: bexI [of _ "dist\<lparr>ds_state := _\<rparr>"])
      ultimately show ?thesis using o c(1) drive_step_trans by blast
    qed (use o in auto)
  qed
  then show "drive_step (xo_sha x) d d'" "delivered st holds d' w'"
    "y = Inr u \<Longrightarrow> get_distribution (Some tn) i d = Some r \<Longrightarrow> \<exists>r' \<in> set (policy_distributions d'). ds_id r' = i
       \<and> ds_state r' = aggregate_state (map dt_state (list_distribution_targets tn i d'))" by blast+
qed

lemma fan_out_stale:
  assumes "fan_out x st env post meta rec ts (d, w) = (y, d', w')" "rec_ok rec"
    "\<forall>t \<in> set ts. \<forall>base. map_of (dg_targets st) (dt_sentinel t) = Some base \<longrightarrow> stale (target_url st base) rec w"
  shows "quiet w w' \<and> same_plan d d' \<and> policy_distributions d' = policy_distributions d \<and>
    (\<forall>t' \<in> set (policy_distribution_targets d'). t' \<in> set (policy_distribution_targets d) \<or> dt_state t' \<noteq> ''distributed'')"
  using assms
proof (induction ts arbitrary: d w)
  case (Cons t ts)
  obtain y1 d1 w1 where t: "distribute_to_target x st env post meta rec t (d, w) = (y1, d1, w1)" using prod_cases3 by blast
  note o = target_outcome(1,2,4) [OF t]
  have q: "quiet w w1 \<and> (\<forall>t' \<in> set (policy_distribution_targets d1). t' \<in> set (policy_distribution_targets d) \<or> dt_state t' \<noteq> ''distributed'')"
    by (rule target_stale [OF t]) (use Cons.prems in auto)
  have "(\<exists>e. y = Inl e) \<and> d' = d1 \<and> w' = w1 \<or> fan_out x st env post meta rec ts (d1, w1) = (y, d', w')"
    using Cons.prems(1) t by (auto split: sum.splits if_splits)
  then show ?case
  proof
    assume f: "fan_out x st env post meta rec ts (d1, w1) = (y, d', w')"
    have "quiet w1 w' \<and> same_plan d1 d' \<and> policy_distributions d' = policy_distributions d1 \<and>
      (\<forall>t' \<in> set (policy_distribution_targets d'). t' \<in> set (policy_distribution_targets d1) \<or> dt_state t' \<noteq> ''distributed'')"
      by (rule Cons.IH [OF f]) (use Cons.prems o(3) in auto)
    then show ?thesis using q o(1,2) quiet_trans [of w w1 w'] same_plan_trans [of d d1 d'] unfolding drive_step_def by auto
  qed (use o(1,2) q in \<open>auto simp: drive_step_def\<close>)
qed (auto simp: quiet_refl)

lemma drive_stale:
  assumes "drive_distribution x st env post i tn (d, w) = (y, d', w')" "get_distribution (Some tn) i d = Some row" "rec_ok (ds_record row)"
    "\<forall>t \<in> set (list_distribution_targets tn i d). dt_state t \<noteq> ''distributed''
       \<and> (\<forall>base. map_of (dg_targets st) (dt_sentinel t) = Some base \<longrightarrow> stale (target_url st base) (ds_record row) w)"
  shows "quiet w w' \<and> (\<forall>t \<in> set (list_distribution_targets tn i d'). dt_state t \<noteq> ''distributed'')
    \<and> (y = Inr u \<longrightarrow> (\<exists>r \<in> set (policy_distributions d'). ds_id r = i \<and> ds_tenant r = tn \<and> ds_state r = ''failed''))"
  using assms(1)
proof (cases rule: drive_distribution_cases)
  case idle
  then show ?thesis using assms(2,4) quiet_refl by auto
next
  case (driven row' y1 d1 w1)
  have [simp]: "row' = row" using driven(1) assms(2) by simp
  have f: "quiet w w1 \<and> same_plan d d1 \<and> policy_distributions d1 = policy_distributions d \<and>
    (\<forall>t' \<in> set (policy_distribution_targets d1). t' \<in> set (policy_distribution_targets d) \<or> dt_state t' \<noteq> ''distributed'')"
    by (rule fan_out_stale [OF driven(2)]) (use assms(3,4) in auto)
  have n: "\<forall>t \<in> set (list_distribution_targets tn i d1). dt_state t \<noteq> ''distributed''"
    using f assms(4) by (auto simp: list_distribution_targets_def)
  from driven(3) show ?thesis
  proof
    assume fin: "finish_distribution x env (i, ds_policy row', tn, ds_type row') d1 = (y, d') \<and> w' = w1"
    note c = finish_distribution_cases [OF fin [THEN conjunct1]]
    have "\<exists>r \<in> set (policy_distributions d'). ds_id r = i \<and> ds_tenant r = tn \<and> ds_state r = ''failed''" if "y = Inr u"
      using c(3) [OF that] f get_distribution_Some [OF assms(2)] aggregate_failed [of "map dt_state (list_distribution_targets tn i d1)"] n
      by (auto simp: update_distribution_state_def set_update_where image_iff intro!: bexI [of _ "row\<lparr>ds_state := _\<rparr>"])
    moreover have "list_distribution_targets tn i d' = list_distribution_targets tn i d1" using c(2) by (simp add: list_distribution_targets_def)
    ultimately show ?thesis using f n fin by simp
  qed (use f n in auto)
qed

end

section \<open>Sentinel is such a peer\<close>

interpretation sentinel_peer: intake_peer "post_to_sentinel L" "\<lambda>rec. gates_refuse L \<and> wire_faithful L rec"
  "\<lambda>url rec w. stores (sl_params L url) (sw_db w url) rec"
  "\<lambda>url rec w. superseded (sl_params L url) (sl_wire L rec) rec (sw_db w url)" policies_kept for L
proof
  show "superseded (sl_params L url') (sl_wire L rec') rec' (sw_db w' url')"
    if "post_to_sentinel L url tok rec w = (r, w')" "superseded (sl_params L url') (sl_wire L rec') rec' (sw_db w url')" for url tok rec w r w' url' rec'
    using superseded_mono [OF that(2)] post_to_sentinel_grows(1) [OF that(1)] by (simp add: hosts_grow_def)
  show "stores (sl_params L url') (sw_db w' url') rec'"
    if "post_to_sentinel L url tok rec w = (r, w')" "stores (sl_params L url') (sw_db w url') rec'" for url tok rec w r w' url' rec'
    using stores_mono [OF post_to_sentinel_grows(1) [OF that(1)] that(2)] .
qed (auto simp: post_success_stores post_superseded intro: policies_kept_trans)

section \<open>Submitting\<close>

lemma insert_distribution_targets_eq:
  assumes "insert_distribution_targets x tn i now ts d = Inr d'"
  obtains new n where "d' = d\<lparr>policy_distribution_targets := policy_distribution_targets d @ new, uuid_next := n\<rparr>"
    "map dt_sentinel new = map fst ts" "\<forall>t \<in> set new. dt_state t = ''pending'' \<and> dt_distribution t = i \<and> dt_tenant t = tn"
    "distinct (map dt_id (policy_distribution_targets d)) \<Longrightarrow> distinct (map dt_id (policy_distribution_targets d'))"
    "new \<noteq> [] \<Longrightarrow> i \<in> ds_id ` set (policy_distributions d)"
  using assms
proof (induction ts arbitrary: d thesis)
  case Nil
  show ?case by (rule Nil.prems(1) [where new = "[]" and n = "uuid_next d"]) (use Nil.prems(2) in auto)
next
  case (Cons p ts)
  obtain sid a where p: "p = (sid, a)" by force
  define t where "t = \<lparr>dt_id = xo_u4 x (uuid_next d), dt_distribution = i, dt_tenant = tn, dt_sentinel = sid,
         dt_state = ''pending'', dt_attempts = 0, dt_max_attempts = a, dt_last_error = None, dt_next_attempt = None,
         dt_distributed = None, dt_updated = now\<rparr>"
  define d1 where "d1 = d\<lparr>uuid_next := Suc (uuid_next d)\<rparr>"
  obtain d2 where i: "insert_distribution_target tn t d1 = Inr d2" and r: "insert_distribution_targets x tn i now ts d2 = Inr d'"
    using Cons.prems(2) p by (auto simp: bindR_eq_Inr t_def d1_def)
  have d2: "d2 = d1\<lparr>policy_distribution_targets := policy_distribution_targets d @ [t]\<rparr>" "dt_id t \<notin> dt_id ` set (policy_distribution_targets d)"
      "i \<in> ds_id ` set (policy_distributions d)"
    using i by (auto simp: insert_distribution_target_def bindR_eq_Inr table_simps d1_def t_def)
  from r show ?case
  proof (rule Cons.IH [rotated])
    fix new n
    assume new: "d' = d2\<lparr>policy_distribution_targets := policy_distribution_targets d2 @ new, uuid_next := n\<rparr>"
      "map dt_sentinel new = map fst ts" "\<forall>t \<in> set new. dt_state t = ''pending'' \<and> dt_distribution t = i \<and> dt_tenant t = tn"
      "distinct (map dt_id (policy_distribution_targets d2)) \<Longrightarrow> distinct (map dt_id (policy_distribution_targets d'))"
    show thesis by (rule Cons.prems(1) [where new = "t # new" and n = n]) (use new d2 p in \<open>auto simp: d1_def t_def\<close>)
  qed
qed

lemma persist_distribution_eq:
  assumes "persist_distribution x i q now d = Inr (u, d')" "dist_ok d"
  obtains row new n where "d' = d\<lparr>policy_distributions := policy_distributions d @ [row], policy_distribution_targets := policy_distribution_targets d @ new, uuid_next := n\<rparr>"
    "ds_id row = i" "ds_tenant row = dz_tenant q" "ds_record row = dz_record q" "ds_policy row = dz_policy q" "ds_state row = ''pending''"
    "map dt_sentinel new = map fst (dz_targets q)" "\<forall>t \<in> set new. dt_state t = ''pending'' \<and> dt_distribution t = i \<and> dt_tenant t = dz_tenant q"
    "i \<notin> ds_id ` set (policy_distributions d)" "dist_ok d'"
proof -
  define row where "row = \<lparr>ds_id = i, ds_policy = dz_policy q, ds_version = dz_version q, ds_tenant = dz_tenant q, ds_type = dz_type q,
        ds_state = ''pending'', ds_record = dz_record q, ds_content_hash = dz_hash q, ds_created = now\<rparr>"
  obtain d1 where a: "insert_policy_distribution (dz_tenant q) row d = Inr d1" and b: "insert_distribution_targets x (dz_tenant q) i now (dz_targets q) d1 = Inr d'"
    using assms(1) by (auto simp: persist_distribution_def bindR_eq_Inr row_def)
  have d1: "d1 = d\<lparr>policy_distributions := policy_distributions d @ [row]\<rparr>" "i \<notin> ds_id ` set (policy_distributions d)"
    using a by (auto simp: insert_policy_distribution_def bindR_eq_Inr table_simps row_def)
  from b show thesis
  proof (rule insert_distribution_targets_eq)
    fix new n
    assume n: "d' = d1\<lparr>policy_distribution_targets := policy_distribution_targets d1 @ new, uuid_next := n\<rparr>"
      "map dt_sentinel new = map fst (dz_targets q)" "\<forall>t \<in> set new. dt_state t = ''pending'' \<and> dt_distribution t = i \<and> dt_tenant t = dz_tenant q"
      "distinct (map dt_id (policy_distribution_targets d1)) \<Longrightarrow> distinct (map dt_id (policy_distribution_targets d'))"
    show thesis by (rule that [where row = row and new = new and n = n]) (use n d1 assms(2) in \<open>auto simp: row_def dist_ok_def\<close>)
  qed
qed

text \<open>What a submission keeps: the keys, the honesty of the distributed targets, the chains and the other tables.\<close>

definition submit_step :: "(string \<Rightarrow> string) \<Rightarrow> orch_db \<Rightarrow> orch_db \<Rightarrow> bool" where
  "submit_step sha d d' \<longleftrightarrow> dist_frame d d' \<and> (chains_ok sha (chains d) \<longrightarrow> chains_ok sha (chains d')) \<and> dist_ok d'
     \<and> set (policy_distributions d) \<subseteq> set (policy_distributions d')
     \<and> (\<forall>t \<in> set (policy_distribution_targets d'). t \<in> set (policy_distribution_targets d) \<or> dt_state t = ''pending'')"

lemma submit_step_refl [simp]: "dist_ok d \<Longrightarrow> submit_step sha d d"
  by (simp add: submit_step_def dist_frameI)

lemma submit_step_trans: "submit_step sha d d' \<Longrightarrow> submit_step sha d' d'' \<Longrightarrow> submit_step sha d d''"
  unfolding submit_step_def using dist_frame_trans by blast

lemma submit_step_delivered: "submit_step sha d d' \<Longrightarrow> delivered st holds d w \<Longrightarrow> delivered st holds d' w"
  unfolding submit_step_def delivered_def by fastforce

lemma submit_step_uuid: "dist_ok d \<Longrightarrow> submit_step sha d (d\<lparr>uuid_next := n\<rparr>)"
  by (simp add: submit_step_def dist_frameI dist_ok_def)

lemma persist_submit_step:
  assumes "persist_distribution x i q now d = Inr (u, d')" "dist_ok d"
  shows "submit_step sha d d'"
  using assms
proof (rule persist_distribution_eq)
  fix row new n
  assume a: "d' = d\<lparr>policy_distributions := policy_distributions d @ [row], policy_distribution_targets := policy_distribution_targets d @ new, uuid_next := n\<rparr>"
    "\<forall>t \<in> set new. dt_state t = ''pending'' \<and> dt_distribution t = i \<and> dt_tenant t = dz_tenant q" "dist_ok d'"
  have "dist_frame d d'" unfolding a(1) by (cases d; cases "chains d") (simp add: dist_frame_def)
  then show ?thesis using a by (auto simp: submit_step_def)
qed

lemma audit_submit_step:
  assumes "append_distribution x m disposition s e d = Inr (u, d')" "dist_ok d"
  shows "submit_step (xo_sha x) d d'"
  using assms(1) by (rule append_distribution_eq) (use assms(2) in \<open>auto simp: submit_step_def dist_frameI dist_ok_def\<close>)

lemma record_submission_cases:
  assumes "record_submission x env q extra d = (y, d')" "dist_ok d"
    and extra: "\<And>i s u s'. extra i s = Inr (u, s') \<Longrightarrow> dist_ok s \<Longrightarrow> submit_step (xo_sha x) s s'
      \<and> policy_distributions s' = policy_distributions s \<and> policy_distribution_targets s' = policy_distribution_targets s"
  shows "submit_step (xo_sha x) d d'"
    "y = Inr i \<Longrightarrow> \<exists>row. get_distribution (Some (dz_tenant q)) i d' = Some row \<and> ds_record row = dz_record q
       \<and> (\<forall>t \<in> set (list_distribution_targets (dz_tenant q) i d'). dt_state t = ''pending'' \<and> dt_sentinel t \<in> fst ` set (dz_targets q))"
proof -
  define i0 where "i0 = xo_u4 x (uuid_next d)"
  define d0 where "d0 = d\<lparr>uuid_next := Suc (uuid_next d)\<rparr>"
  have d0: "submit_step (xo_sha x) d d0" "dist_ok d0" using submit_step_uuid [OF assms(2)] assms(2) by (auto simp: d0_def dist_ok_def)
  define au where "au = (\<lambda>s. bindR (append_distribution x (i0, dz_policy q, dz_tenant q, dz_type q) ''submitted'' None None s) (\<lambda>(_, s1). extra i0 s1))"
  have au: "submit_step (xo_sha x) s s' \<and> policy_distributions s' = policy_distributions s \<and> policy_distribution_targets s' = policy_distribution_targets s"
    if s: "au s = Inr (u, s')" "dist_ok s" for s u s'
  proof -
    obtain v s1 where a: "append_distribution x (i0, dz_policy q, dz_tenant q, dz_type q) ''submitted'' None None s = Inr (v, s1)" "extra i0 s1 = Inr (u, s')"
      using s(1) by (auto simp: au_def bindR_eq_Inr split: prod.splits)
    have s1: "submit_step (xo_sha x) s s1" by (rule audit_submit_step [OF a(1) s(2)])
    then have "dist_ok s1" by (simp add: submit_step_def)
    from extra [OF a(2) this] s1 a(1) show ?thesis by (auto elim!: append_distribution_eq intro: submit_step_trans)
  qed
  obtain y1 d1 where p: "run_txn (sb_persist env) (persist_distribution x i0 q (sb_now env)) d0 = (y1, d1)" by force
  have d1: "submit_step (xo_sha x) d d1"
    by (rule run_txn_preserves [OF p]) (auto intro: submit_step_trans [OF d0(1)] persist_submit_step d0)
  then have ok1: "dist_ok d1" by (simp add: submit_step_def)
  obtain y2 d2 where a: "run_txn (sb_audit env) au d1 = (y2, d2)" by force
  have d2: "submit_step (xo_sha x) d d2"
    by (rule run_txn_preserves [OF a]) (use d1 au ok1 in \<open>auto intro: submit_step_trans\<close>)
  have c: "isl y \<and> d' = d \<or> isl y \<and> d' = d1 \<or> isl y \<and> d' = d2 \<or> y = Inr i0 \<and> y1 = Inr () \<and> y2 = Inr () \<and> d' = d2"
    using assms(1) p a unfolding record_submission_def Let_def fresh_uuid_eq
    by (auto simp: i0_def [symmetric] d0_def [symmetric] au_def [symmetric] split: sum.splits prod.splits)
  then show "submit_step (xo_sha x) d d'" using d1 d2 assms(2) by auto
  show "\<exists>row. get_distribution (Some (dz_tenant q)) i d' = Some row \<and> ds_record row = dz_record q
       \<and> (\<forall>t \<in> set (list_distribution_targets (dz_tenant q) i d'). dt_state t = ''pending'' \<and> dt_sentinel t \<in> fst ` set (dz_targets q))"
    if "y = Inr i"
  proof -
    have e: "i = i0" "y1 = Inr ()" "y2 = Inr ()" "d' = d2" using c that by auto
    have pe: "persist_distribution x i0 q (sb_now env) d0 = Inr ((), d1)" using p e(2) by (cases rule: run_txn_cases) auto
    have ae: "au d1 = Inr ((), d2)" using a e(3) by (cases rule: run_txn_cases) auto
    have t: "policy_distributions d' = policy_distributions d1" "policy_distribution_targets d' = policy_distribution_targets d1"
      using au [OF ae ok1] e(4) by auto
    from pe d0(2) show ?thesis
    proof (rule persist_distribution_eq)
      fix row new n
      assume r: "d1 = d0\<lparr>policy_distributions := policy_distributions d0 @ [row], policy_distribution_targets := policy_distribution_targets d0 @ new, uuid_next := n\<rparr>"
        "ds_id row = i0" "ds_tenant row = dz_tenant q" "ds_record row = dz_record q"
        "map dt_sentinel new = map fst (dz_targets q)" "\<forall>t \<in> set new. dt_state t = ''pending'' \<and> dt_distribution t = i0 \<and> dt_tenant t = dz_tenant q"
        "i0 \<notin> ds_id ` set (policy_distributions d0)"
      have "get_distribution (Some (dz_tenant q)) i d' = Some row"
        using r(1,2,3,7) t(1) e(1) by (simp add: get_distribution_def) (subst find_snoc_fresh; auto simp: image_iff)
      moreover have "t \<in> set new" if "t \<in> set (list_distribution_targets (dz_tenant q) i d')" for t
        using that r(1,7) t(2) e(1) d0(2) by (auto simp: list_distribution_targets_def dist_ok_def)
      moreover have "dt_sentinel ` set new = fst ` set (dz_targets q)" using r(5) by (metis set_map)
      ultimately show ?thesis using r(4,6) by blast
    qed
  qed
qed

section \<open>The routes\<close>

lemma submit_distribution_step:
  assumes "submit_distribution x hash st env auth raw d = (y, d')" "dist_ok d"
  shows "submit_step (xo_sha x) d d'"
proof -
  have "submit_step (xo_sha x) d d''" if "record_submission x env q (\<lambda>_ s. Inr ((), s)) d = (z, d'')" for q z d''
    by (rule record_submission_cases(1) [OF that assms(2)]) auto
  then show ?thesis using assms unfolding submit_distribution_def Let_def
    by (auto split: sum.splits option.splits json.splits if_splits prod.splits)
qed

lemma append_rollback_step:
  assumes "append_rollback x tn pid a b c d = Inr (u, d')" "dist_ok d"
  shows "submit_step (xo_sha x) d d' \<and> policy_distributions d' = policy_distributions d \<and> policy_distribution_targets d' = policy_distribution_targets d"
proof -
  obtain h rows where l: "append_rollback_audit_link (xo_sha x) tn pid a b c (distribution_rollbacks (chains d)) = Inr (h, rows)"
    and d': "d' = d\<lparr>chains := (chains d)\<lparr>distribution_rollbacks := rows\<rparr>\<rparr>"
    using assms(1) by (auto simp: append_rollback_def bindR_eq_Inr)
  show ?thesis using chains_ok_append(10) [OF _ l] assms(2) unfolding d' by (auto simp: submit_step_def dist_frameI dist_ok_def)
qed

lemma rollback_cases:
  assumes "rollback_policy_distribution x admin env auth raw d = (y, d')" "dist_ok d"
  shows "submit_step (xo_sha x) d d'"
    "y = Inr (resp, Some (i, tn)) \<Longrightarrow> \<exists>pid current previous rest row. list_recent_distributions_for_policy tn pid 2 d = current # previous # rest
       \<and> get_distribution (Some tn) i d' = Some row \<and> ds_record row = ds_record previous
       \<and> (\<forall>t \<in> set (list_distribution_targets tn i d'). dt_state t = ''pending''
            \<and> dt_sentinel t \<in> dt_sentinel ` set (list_distribution_targets tn (ds_id previous) d))"
proof -
  have "submit_step (xo_sha x) d d''" if "record_submission x env q (append_rollback x tn pid a b) d = (z, d'')" for q tn pid a b z d''
    by (rule record_submission_cases(1) [OF that assms(2) append_rollback_step])
  then show "submit_step (xo_sha x) d d'"
    using assms unfolding rollback_policy_distribution_def Let_def
    by (auto split: sum.splits option.splits list.splits prod.splits)
  assume y: "y = Inr (resp, Some (i, tn))"
  obtain pid current previous rest where l: "list_recent_distributions_for_policy tn pid 2 d = current # previous # rest"
    and s: "record_submission x env \<lparr>dz_policy = pid, dz_version = ds_version previous, dz_tenant = tn, dz_type = ds_type previous,
                         dz_record = ds_record previous, dz_hash = ds_content_hash previous,
                         dz_targets = map (\<lambda>t. (dt_sentinel t, dt_max_attempts t)) (list_distribution_targets tn (ds_id previous) d)\<rparr>
              (append_rollback x tn pid (ds_id previous) (ds_id current)) d = (Inr i, d')"
    using assms(1) y unfolding rollback_policy_distribution_def Let_def
    by (auto split: sum.splits option.splits list.splits prod.splits)
  have "\<exists>row. get_distribution (Some tn) i d' = Some row \<and> ds_record row = ds_record previous
       \<and> (\<forall>t \<in> set (list_distribution_targets tn i d'). dt_state t = ''pending''
            \<and> dt_sentinel t \<in> dt_sentinel ` set (list_distribution_targets tn (ds_id previous) d))"
    by (rule record_submission_cases(2) [OF s assms(2) _ refl, simplified image_image prod.sel list.set_map dist_request.simps])
      (rule append_rollback_step)
  then show "\<exists>pid current previous rest row. list_recent_distributions_for_policy tn pid 2 d = current # previous # rest
       \<and> get_distribution (Some tn) i d' = Some row \<and> ds_record row = ds_record previous
       \<and> (\<forall>t \<in> set (list_distribution_targets tn i d'). dt_state t = ''pending''
            \<and> dt_sentinel t \<in> dt_sentinel ` set (list_distribution_targets tn (ds_id previous) d))" using l by blast
qed

text \<open>Rolling back to a distribution that reached its Sentinels: every push of the new distribution is refused.\<close>

lemma rollback_refused:
  assumes r: "rollback_policy_distribution x admin env auth raw d = (Inr (resp, Some (i, tn)), d1)" and ok: "dist_ok d"
    and del: "delivered st (\<lambda>url rec w. stores (sl_params L url) (sw_db w url) rec) d w"
    and reached: "\<And>pid current previous rest. list_recent_distributions_for_policy tn pid 2 d = current # previous # rest \<Longrightarrow>
        \<forall>t \<in> set (list_distribution_targets tn (ds_id previous) d). dt_state t = ''distributed''"
    and g: "gates_refuse L" "\<And>r. r \<in> set (policy_distributions d1) \<Longrightarrow> wire_faithful L (ds_record r)"
    and v: "drive_distribution x st env' (post_to_sentinel L) i tn (d1, w) = (y, d2, w2)"
  shows "policies_kept w w2 \<and> (\<forall>t \<in> set (list_distribution_targets tn i d2). dt_state t \<noteq> ''distributed'')
    \<and> (y = Inr () \<longrightarrow> (\<exists>r \<in> set (policy_distributions d2). ds_id r = i \<and> ds_tenant r = tn \<and> ds_state r = ''failed''))"
proof -
  obtain pid current previous rest row where l: "list_recent_distributions_for_policy tn pid 2 d = current # previous # rest"
    and row: "get_distribution (Some tn) i d1 = Some row" "ds_record row = ds_record previous"
    and t: "\<forall>t \<in> set (list_distribution_targets tn i d1). dt_state t = ''pending''
            \<and> dt_sentinel t \<in> dt_sentinel ` set (list_distribution_targets tn (ds_id previous) d)"
    using rollback_cases(2) [OF r ok refl] by blast
  have p: "previous \<in> set (policy_distributions d)"
    using l in_set_takeD [of previous 2] unfolding list_recent_distributions_for_policy_def
    by (metis (no_types, lifting) filter_is_subset list.set_intros(1,2) set_sort subsetD)
  have "superseded (sl_params L (target_url st base)) (sl_wire L (ds_record row)) (ds_record row) (sw_db w (target_url st base))"
    if a: "t \<in> set (list_distribution_targets tn i d1)" "map_of (dg_targets st) (dt_sentinel t) = Some base" for t base
  proof -
    obtain u where u: "u \<in> set (list_distribution_targets tn (ds_id previous) d)" "dt_sentinel u = dt_sentinel t" using t a(1) by force
    have "u \<in> set (policy_distribution_targets d)" "dt_distribution u = ds_id previous" using u(1) by (auto simp: list_distribution_targets_def)
    moreover have "dt_state u = ''distributed''" using reached [OF l] u(1) by blast
    ultimately obtain r where "r \<in> set (policy_distributions d)" "ds_id r = ds_id previous"
        "stores (sl_params L (target_url st base)) (sw_db w (target_url st base)) (ds_record r)"
      using del a(2) u(2) by (fastforce simp: delivered_def)
    then have "stores (sl_params L (target_url st base)) (sw_db w (target_url st base)) (ds_record previous)"
      using distinct_key_unique [of ds_id "policy_distributions d" r previous] ok p by (auto simp: dist_ok_def)
    then show ?thesis unfolding row(2) by (rule stores_superseded)
  qed
  moreover have "row \<in> set (policy_distributions d1)" using row(1) by (auto simp: get_distribution_def find_Some_iff)
  ultimately show ?thesis
    by (intro sentinel_peer.drive_stale [OF v row(1)]) (use g t in auto)
qed

text \<open>A push that was stored but not answered: the target ends as failed although its Sentinel holds the record.\<close>

lemma lost_answer_fails:
  assumes t: "map_of (dg_targets st) (dt_sentinel target) = Some base" "dg_admin_token st = Some token" "0 < dg_max_attempts st"
    and p: "post_to_sentinel L (target_url st base) token rec w = (Post_transport, w1)"
      "stores (sl_params L (target_url st base)) (sw_db w1 (target_url st base)) rec"
    and g: "gates_refuse L" "wire_faithful L rec"
    and v: "distribute_to_target x st env (post_to_sentinel L) meta rec target (d, w) = (Inr state, d', w')"
  shows "state = ''failed'' \<and> stores (sl_params L (target_url st base)) (sw_db w' (target_url st base)) rec"
proof -
  obtain n where Suc: "nat (dg_max_attempts st) = Suc n" using t(3) by (cases "nat (dg_max_attempts st)") auto
  obtain res where a: "intake_attempts (post_to_sentinel L (target_url st base) token rec) n 1 ''connect_error'' w1 = (res, w')"
    using v t p(1) Suc by (auto simp: distribute_to_target_def split: prod.splits attempt_result.splits)
  have "stores (sl_params L (target_url st base)) (sw_db w' (target_url st base)) rec"
    by (rule sentinel_peer.attempts_hold(1) [OF a p(2)])
  moreover have "res \<noteq> Delivered_at k" for k
    by (rule sentinel_peer.attempts_stale(2) [OF a]) (use g p(2) in \<open>auto intro: stores_superseded\<close>)
  then have "state = ''failed''"
    using v t p(1) Suc a by (auto simp: distribute_to_target_def split: prod.splits attempt_result.splits dest!: settle_target_cases(4))
  ultimately show ?thesis by blast
qed

section \<open>Only the configured URLs are called\<close>

lemma distribute_to_target_keeps:
  assumes "distribute_to_target x st env post meta rec target (d, w) = (y, d', w')" "P w"
    and "\<And>base tok w r w'. base \<in> snd ` set (dg_targets st) \<Longrightarrow> P w \<Longrightarrow> post (target_url st base) tok rec w = (r, w') \<Longrightarrow> P w'"
  shows "drive_step (xo_sha x) d d' \<and> P w'"
proof -
  have "P w1" if "intake_attempts (post (target_url st base) tok rec) n 0 e w = (res, w1)" "map_of (dg_targets st) i = Some base" for base tok n e res w1 i
  proof -
    have b: "base \<in> snd ` set (dg_targets st)" using map_of_SomeD [OF that(2)] by (rule rev_image_eqI) simp
    show ?thesis using intake_attempts_inv [OF that(1), of P] assms(2) assms(3) [OF b] by blast
  qed
  then show ?thesis using assms(1,2)
    by (auto simp: distribute_to_target_def split: option.splits prod.splits attempt_result.splits dest: settle_target_cases(1))
qed

lemma fan_out_keeps:
  assumes "fan_out x st env post meta rec ts (d, w) = (y, d', w')" "P w"
    and post: "\<And>base tok w r w'. base \<in> snd ` set (dg_targets st) \<Longrightarrow> P w \<Longrightarrow> post (target_url st base) tok rec w = (r, w') \<Longrightarrow> P w'"
  shows "drive_step (xo_sha x) d d' \<and> P w'"
  using assms(1,2)
proof (induction ts arbitrary: d w)
  case (Cons t ts)
  obtain y1 d1 w1 where t: "distribute_to_target x st env post meta rec t (d, w) = (y1, d1, w1)" using prod_cases3 by blast
  have k: "drive_step (xo_sha x) d d1 \<and> P w1" by (rule distribute_to_target_keeps [where P = P, OF t Cons.prems(2)]) (rule post)
  have "d' = d1 \<and> w' = w1 \<or> fan_out x st env post meta rec ts (d1, w1) = (y, d', w')"
    using Cons.prems(1) t by (auto split: sum.splits if_splits)
  then show ?case using k Cons.IH [of d1 w1] drive_step_trans by blast
qed auto

lemma drive_distribution_keeps:
  assumes "drive_distribution x st env post i tn (d, w) = (y, d', w')" "P w"
    and "\<And>base tok rec w r w'. base \<in> snd ` set (dg_targets st) \<Longrightarrow> P w \<Longrightarrow> post (target_url st base) tok rec w = (r, w') \<Longrightarrow> P w'"
  shows "drive_step (xo_sha x) d d' \<and> P w'"
  using assms(1)
proof (cases rule: drive_distribution_cases)
  case idle
  then show ?thesis using assms(2) by simp
next
  case (driven row y1 d1 w1)
  have k: "drive_step (xo_sha x) d d1 \<and> P w1" by (rule fan_out_keeps [where P = P, OF driven(2) assms(2)]) (rule assms(3))
  from driven(3) show ?thesis using k drive_step_trans by (auto dest: finish_distribution_cases(1))
qed

end
