(* ===== verification/Orch_Registry_Facts.thy ===== *)
theory Orch_Registry_Facts
  imports Orch_Registry Orch_Distribution_Facts
begin

text \<open>
  What the registry guarantees: an endpoint passes only if it is safe at that moment, the rows stay
  well formed through every route and health cycle, a cycle calls only safe endpoints of enabled
  Sentinels, and a coordinated push reaches only enabled, freshly healthy and capable Sentinels
  with a safe endpoint.
\<close>

section \<open>Endpoints\<close>

definition denotes :: "url_ext \<Rightarrow> (string \<Rightarrow> dns_answer) \<Rightarrow> string \<Rightarrow> ip_info set" where
  "denotes u dns host =
     (case ux_ip u host of
        Some ip \<Rightarrow> {ip}
      | None \<Rightarrow> (case dns host of Dns_addrs cs \<Rightarrow> {ip. \<exists>c \<in> set cs. ux_ip u c = Some ip} | _ \<Rightarrow> {}))"

definition listed :: "string list \<Rightarrow> string \<Rightarrow> int option \<Rightarrow> bool" where
  "listed allowlist host port \<longleftrightarrow> host \<in> set allowlist \<or> (\<exists>p. port = Some p \<and> host @ '':'' @ dec_int p \<in> set allowlist)"

text \<open>A host the operator vouched for, or https to addresses that are all public.\<close>

definition endpoint_safe :: "url_ext \<Rightarrow> (string \<Rightarrow> dns_answer) \<Rightarrow> string list \<Rightarrow> bool \<Rightarrow> string \<Rightarrow> bool" where
  "endpoint_safe u dns allowlist allow_http url \<longleftrightarrow>
     (\<exists>parts h port. ux_urlsplit u (strip url) = Some parts \<and> up_hostname parts = Some h \<and> up_port parts = Some port
        \<and> (let host = map to_lower h; scheme = map to_lower (up_scheme parts) in
           (scheme = ''https'' \<or> scheme = ''http'' \<and> allow_http \<and> listed allowlist host port)
         \<and> denotes u dns host \<noteq> {}
         \<and> (listed allowlist host port \<or> (\<forall>ip \<in> denotes u dns host. \<not> is_blocked_ip ip))))"

lemma set_map_filter: "set (List.map_filter f xs) = {y. \<exists>x \<in> set xs. f x = Some y}"
  by (induction xs) (auto simp: List.map_filter_simps split: option.splits)

lemma resolve_ips_denotes: "resolve_ips u dns host = Inr ips \<Longrightarrow> set ips = denotes u dns host \<and> ips \<noteq> []"
  by (auto simp: resolve_ips_def denotes_def Let_def set_map_filter split: option.splits dns_answer.splits if_splits)

lemma validate_endpoint_safe:
  assumes "validate_endpoint u dns allowlist allow_http url = Inr raw"
  shows "raw = strip url \<and> endpoint_safe u dns allowlist allow_http url"
proof -
  obtain parts h port where p: "ux_urlsplit u (strip url) = Some parts" "up_hostname parts = Some h" "up_port parts = Some port"
    using assms by (auto simp: validate_endpoint_def Let_def split: if_splits option.splits)
  obtain ips where i: "resolve_ips u dns (map to_lower h) = Inr ips" and r: "raw = strip url"
    and b: "listed allowlist (map to_lower h) port \<or> (\<forall>ip \<in> set ips. \<not> is_blocked_ip ip)"
    using assms p by (auto simp: validate_endpoint_def Let_def listed_def bindR_eq_Inr split: if_splits option.splits)
  have "map to_lower (up_scheme parts) = ''https'' \<or> map to_lower (up_scheme parts) = ''http'' \<and> allow_http \<and> listed allowlist (map to_lower h) port"
    using assms p by (auto simp: validate_endpoint_def Let_def listed_def split: if_splits option.splits)
  then show ?thesis using p r b resolve_ips_denotes [OF i] by (auto simp: endpoint_safe_def Let_def)
qed

section \<open>Rows\<close>

definition sentinel_ok :: "sentinel_row \<Rightarrow> bool" where
  "sentinel_ok r \<longleftrightarrow> sentinel_id_pattern (sr_id r)
     \<and> sr_capabilities r \<noteq> [] \<and> distinct (sr_capabilities r) \<and> set (sr_capabilities r) \<subseteq> set KNOWN_POLICY_TYPES
     \<and> sr_health r \<in> set HEALTH_STATES \<and> 0 \<le> sr_failures r
     \<and> (sr_health r = ''healthy'' \<longrightarrow> sr_failures r = 0 \<and> sr_checked r \<noteq> None \<and> sr_healthy r \<noteq> None)
     \<and> (sr_health r = ''unknown'' \<longleftrightarrow> sr_checked r = None)
     \<and> (sr_health r \<in> {''degraded'', ''unreachable''} \<longrightarrow> 0 < sr_failures r)"

definition registry_ok :: "orch_db \<Rightarrow> bool" where
  "registry_ok d \<longleftrightarrow> distinct (map sr_id (sentinel_registry d)) \<and> (\<forall>r \<in> set (sentinel_registry d). sentinel_ok r)"

lemma validate_capabilities_ok:
  assumes "validate_capabilities v = Inr caps"
  shows "caps \<noteq> []" "distinct caps" "set caps \<subseteq> set KNOWN_POLICY_TYPES"
proof -
  obtain cs where c: "cs \<noteq> []" "list_all (\<lambda>c. c \<in> JStr ` set KNOWN_POLICY_TYPES) cs" "caps = rev (remdups (rev (map jstring cs)))"
    using assms by (cases v) (auto split: if_splits)
  then show "caps \<noteq> []" "distinct caps" by auto
  show "set caps \<subseteq> set KNOWN_POLICY_TYPES" using c(2,3) by (auto simp: list_all_iff jstring_def dest!: bspec)
qed

lemma registry_ok_change:
  assumes "registry_ok d" "sentinel_registry d' = update_where (\<lambda>r. sr_id r = i) f (sentinel_registry d)"
    "\<And>r. r \<in> set (sentinel_registry d) \<Longrightarrow> sr_id r = i \<Longrightarrow> sr_id (f r) = i \<and> sentinel_ok (f r)"
  shows "registry_ok d'"
proof -
  have "map sr_id (sentinel_registry d') = map sr_id (sentinel_registry d)"
    unfolding assms(2) by (rule map_update_where_frame) (use assms(3) in auto)
  then show ?thesis using assms by (auto simp: registry_ok_def set_update_where)
qed

section \<open>What a route keeps\<close>

definition reg_frame :: "orch_db \<Rightarrow> orch_db \<Rightarrow> bool" where
  "reg_frame d d' \<longleftrightarrow> (\<exists>rows a. d' = d\<lparr>sentinel_registry := rows, chains := (chains d)\<lparr>sentinel_registry_audit_log := a\<rparr>\<rparr>)"

lemma reg_frameI:
  "reg_frame d d"
  "reg_frame d (d\<lparr>sentinel_registry := rows\<rparr>)"
  "reg_frame d (d\<lparr>chains := (chains d)\<lparr>sentinel_registry_audit_log := a\<rparr>\<rparr>)"
  by (cases d; cases "chains d"; simp add: reg_frame_def)+

lemma reg_frame_trans: "reg_frame d d' \<Longrightarrow> reg_frame d' d'' \<Longrightarrow> reg_frame d d''"
  by (cases d; cases "chains d") (auto simp: reg_frame_def)

definition reg_step :: "(string \<Rightarrow> string) \<Rightarrow> orch_db \<Rightarrow> orch_db \<Rightarrow> bool" where
  "reg_step sha d d' \<longleftrightarrow> reg_frame d d' \<and> (registry_ok d \<longrightarrow> registry_ok d') \<and> (chains_ok sha (chains d) \<longrightarrow> chains_ok sha (chains d'))"

lemma reg_step_refl [simp]: "reg_step sha d d"
  by (simp add: reg_step_def reg_frameI)

lemma reg_step_trans: "reg_step sha d d' \<Longrightarrow> reg_step sha d' d'' \<Longrightarrow> reg_step sha d d''"
  unfolding reg_step_def using reg_frame_trans by blast

lemma reg_step_append:
  assumes "append_registry x i a p e c er d = Inr (u, d')"
  shows "reg_step (xo_sha x) d d'"
proof -
  obtain h rows where l: "append_registry_audit_link (xo_sha x) i a p e (map_option canon_capabilities c) er (sentinel_registry_audit_log (chains d)) = Inr (h, rows)"
    and d': "d' = d\<lparr>chains := (chains d)\<lparr>sentinel_registry_audit_log := rows\<rparr>\<rparr>"
    using assms by (auto simp: append_registry_def bindR_eq_Inr)
  show ?thesis using chains_ok_append(3) [OF _ l] unfolding d' by (simp add: reg_step_def reg_frameI registry_ok_def)
qed

lemma reg_step_txn:
  assumes "reg_txn fault refused m d = (y, d')" "\<And>u t. m d = Inr (u, t) \<Longrightarrow> refused = None \<Longrightarrow> reg_step sha d t"
  shows "reg_step sha d d'"
proof -
  have "reg_step sha d t" if "run_txn fault m d = (z, t)" "refused = None" for z t
    by (rule run_txn_preserves [OF that(1)]) (use assms(2) that(2) in auto)
  then show ?thesis using assms(1) by (auto simp: reg_txn_def split: txn_fault.splits option.splits sum.splits prod.splits)
qed

lemma audit_rejected_step: "audit_rejected x env i a e c er d = (z, d') \<Longrightarrow> reg_step (xo_sha x) d d'"
  by (auto simp: audit_rejected_def split: reg_error.splits prod.splits sum.splits
      dest!: run_txn_preserves [where P = "reg_step (xo_sha x) d"] intro: reg_step_append)

lemma register_sentinel_step:
  assumes "register_sentinel x u st env i e c p d = (y, d')"
  shows "reg_step (xo_sha x) d d'"
proof -
  have ins: "reg_step (xo_sha x) d t"
    if a: "bindR (insert_sentinel r d) (append_registry x i' ''register'' ''accepted'' ep (Some caps) None) = Inr (v, t)" and r: "sentinel_ok r"
    for r i' ep caps v t
  proof -
    obtain d1 where d1: "insert_sentinel r d = Inr d1" and a': "append_registry x i' ''register'' ''accepted'' ep (Some caps) None d1 = Inr (v, t)"
      using a by (auto simp: bindR_eq_Inr)
    have "d1 = d\<lparr>sentinel_registry := sentinel_registry d @ [r]\<rparr>" "sr_id r \<notin> sr_id ` set (sentinel_registry d)"
      using d1 by (auto simp: insert_sentinel_def bindR_eq_Inr table_simps)
    then have "reg_step (xo_sha x) d d1" using r by (auto simp: reg_step_def reg_frameI registry_ok_def)
    then show ?thesis using reg_step_append [OF a'] by (rule reg_step_trans)
  qed
  show ?thesis
  proof (cases "bindR (validate_sentinel_id i) (\<lambda>sid. bindR (validate_capabilities c) (\<lambda>caps.
           bindR (validate_peer_auth_ref p) (\<lambda>ref.
           case e of JStr ep \<Rightarrow> Inr (sid, caps, ref, ep) | _ \<Rightarrow> Inl (Reg_validation ''invalid_endpoint''))))")
    case (Inl er)
    then show ?thesis using assms by (simp add: register_sentinel_def)
  next
    case (Inr v)
    obtain sid caps ref ep where v: "v = (sid, caps, ref, ep)" by (cases v)
    have sid: "sentinel_id_pattern sid" using Inr v by (cases i; cases e) (auto simp: bindR_eq_Inr split: if_splits)
    have caps: "validate_capabilities c = Inr caps" using Inr v by (cases e) (auto simp: bindR_eq_Inr)
    show ?thesis
    proof (cases "validate_endpoint u (re_dns env) (co_allowlist st) (co_allow_http st) ep")
      case e': (Inl er)
      obtain z d1 where "audit_rejected x env sid ''register'' ep (Some caps) er d = (z, d1)" by force
      then show ?thesis using assms Inr v e' audit_rejected_step by (auto simp: register_sentinel_def)
    next
      case n: (Inr normalized)
      define r where "r = \<lparr>sr_id = sid, sr_endpoint = normalized, sr_peer_auth_ref = ref, sr_capabilities = caps, sr_health = ''unknown'',
                             sr_failures = 0, sr_checked = None, sr_healthy = None, sr_enabled = True, sr_created = re_now env,
                             sr_updated = re_now env\<rparr>"
      obtain z d1 where t: "reg_txn (re_write env) (if get_sentinel sid d \<noteq> None then Some Reg_conflict else None)
          (\<lambda>s. bindR (insert_sentinel r s) (append_registry x sid ''register'' ''accepted'' (Some normalized) (Some caps) None)) d = (z, d1)" by force
      have "reg_step (xo_sha x) d d1"
        by (rule reg_step_txn [OF t], rule ins, assumption)
          (use sid validate_capabilities_ok [OF caps] in \<open>simp add: r_def sentinel_ok_def HEALTH_STATES_def\<close>)
      moreover have "d' = d1" using assms Inr v n t by (auto simp: register_sentinel_def r_def split: sum.splits)
      ultimately show ?thesis by simp
    qed
  qed
qed

lemma sentinel_ok_update:
  assumes "sentinel_ok r" "c \<noteq> []" "distinct c" "set c \<subseteq> set KNOWN_POLICY_TYPES"
  shows "sentinel_ok (r\<lparr>sr_endpoint := a, sr_capabilities := c, sr_peer_auth_ref := p, sr_enabled := b, sr_updated := t\<rparr>)"
  using assms by (simp add: sentinel_ok_def)

lemma update_sentinel_ok:
  assumes "registry_ok d" "\<And>caps. sc_capabilities v = Some caps \<Longrightarrow> caps \<noteq> [] \<and> distinct caps \<and> set caps \<subseteq> set KNOWN_POLICY_TYPES"
  shows "registry_ok (update_sentinel i v now d)"
proof (rule registry_ok_change [OF assms(1)])
  show "sentinel_registry (update_sentinel i v now d) = update_where (\<lambda>r. sr_id r = i)
     (\<lambda>r. r\<lparr>sr_endpoint := (case sc_endpoint v of None \<Rightarrow> sr_endpoint r | Some e \<Rightarrow> e),
            sr_capabilities := (case sc_capabilities v of None \<Rightarrow> sr_capabilities r | Some c \<Rightarrow> c),
            sr_peer_auth_ref := (case sc_peer_auth_ref v of None \<Rightarrow> sr_peer_auth_ref r | Some p \<Rightarrow> p),
            sr_enabled := (case sc_enabled v of None \<Rightarrow> sr_enabled r | Some b \<Rightarrow> b), sr_updated := now\<rparr>) (sentinel_registry d)"
    by (simp add: update_sentinel_def)
next
  fix r
  assume r: "r \<in> set (sentinel_registry d)" "sr_id r = i"
  define c where "c = (case sc_capabilities v of None \<Rightarrow> sr_capabilities r | Some c \<Rightarrow> c)"
  have "sentinel_ok r" using assms(1) r(1) by (auto simp: registry_ok_def)
  moreover have "c \<noteq> [] \<and> distinct c \<and> set c \<subseteq> set KNOWN_POLICY_TYPES"
    using assms(2) \<open>sentinel_ok r\<close> by (auto simp: c_def sentinel_ok_def split: option.splits)
  ultimately show "sr_id (r\<lparr>sr_endpoint := (case sc_endpoint v of None \<Rightarrow> sr_endpoint r | Some e \<Rightarrow> e),
            sr_capabilities := (case sc_capabilities v of None \<Rightarrow> sr_capabilities r | Some c \<Rightarrow> c),
            sr_peer_auth_ref := (case sc_peer_auth_ref v of None \<Rightarrow> sr_peer_auth_ref r | Some p \<Rightarrow> p),
            sr_enabled := (case sc_enabled v of None \<Rightarrow> sr_enabled r | Some b \<Rightarrow> b), sr_updated := now\<rparr>) = i
     \<and> sentinel_ok (r\<lparr>sr_endpoint := (case sc_endpoint v of None \<Rightarrow> sr_endpoint r | Some e \<Rightarrow> e),
            sr_capabilities := (case sc_capabilities v of None \<Rightarrow> sr_capabilities r | Some c \<Rightarrow> c),
            sr_peer_auth_ref := (case sc_peer_auth_ref v of None \<Rightarrow> sr_peer_auth_ref r | Some p \<Rightarrow> p),
            sr_enabled := (case sc_enabled v of None \<Rightarrow> sr_enabled r | Some b \<Rightarrow> b), sr_updated := now\<rparr>)"
    using r(2) unfolding c_def [symmetric] by (simp add: sentinel_ok_update)
qed

lemma modify_sentinel_step:
  assumes "modify_sentinel x u st env i e c p en d = (y, d')"
  shows "reg_step (xo_sha x) d d'"
proof -
  define ep where "ep = (case e of JNull \<Rightarrow> Inr None
            | JStr ep \<Rightarrow> bindR (validate_endpoint u (re_dns env) (co_allowlist st) (co_allow_http st) ep) (\<lambda>n. Inr (Some n))
            | _ \<Rightarrow> Inl (Reg_validation ''invalid_endpoint''))"
  note m = assms [unfolded modify_sentinel_def, folded ep_def]
  show ?thesis
  proof (cases ep)
    case (Inl er)
    obtain z d1 where "audit_rejected x env i ''modify'' (jstring e) None er d = (z, d1)" by force
    then show ?thesis using m Inl audit_rejected_step by auto
  next
    case (Inr epv)
    show ?thesis
    proof (cases "bindR (opt_field validate_capabilities c) (\<lambda>caps. bindR (opt_field validate_peer_auth_ref p) (\<lambda>ref.
                bindR (opt_field bool_field en) (\<lambda>en.
                Inr \<lparr>sc_endpoint = epv, sc_capabilities = caps, sc_peer_auth_ref = ref, sc_enabled = en\<rparr>)))")
      case v: (Inr v)
      have caps: "caps \<noteq> [] \<and> distinct caps \<and> set caps \<subseteq> set KNOWN_POLICY_TYPES" if "sc_capabilities v = Some caps" for caps
        using v that validate_capabilities_ok [of c caps] by (auto simp: bindR_eq_Inr opt_field_def split: if_splits)
      have up: "reg_step (xo_sha x) d (update_sentinel i v (re_now env) d)"
        using update_sentinel_ok [OF _ caps] by (auto simp: reg_step_def update_sentinel_def reg_frameI)
      obtain z d1 where t: "reg_txn (re_write env) (if get_sentinel i d = None then Some Reg_not_found else None)
                         (\<lambda>s. append_registry x i (change_action v) ''accepted'' (sc_endpoint v) (sc_capabilities v) None
                                (update_sentinel i v (re_now env) s)) d = (z, d1)" by force
      have "reg_step (xo_sha x) d d1" by (rule reg_step_txn [OF t]) (rule reg_step_trans [OF up reg_step_append])
      then show ?thesis using m Inr v t by (auto split: if_splits sum.splits)
    qed (use m Inr in auto)
  qed
qed

lemma deregister_sentinel_step:
  assumes "deregister_sentinel x env i d = (y, d')"
  shows "reg_step (xo_sha x) d d'"
proof -
  have del: "reg_step (xo_sha x) d (delete_sentinel i d)"
    by (auto simp: reg_step_def delete_sentinel_def reg_frameI registry_ok_def distinct_map_filter)
  show ?thesis
    by (rule reg_step_txn [OF assms [unfolded deregister_sentinel_def Let_def]]) (rule reg_step_trans [OF del reg_step_append])
qed

section \<open>Health cycles\<close>

definition probe_ok :: "probe_result \<Rightarrow> bool" where
  "probe_ok p \<longleftrightarrow> (pr_status p = ''healthy'' \<and> pr_failures p = 0 \<and> pr_healthy p \<noteq> None)
     \<or> (pr_status p \<in> {''degraded'', ''unreachable''} \<and> 0 < pr_failures p)"

lemma probe_one_ok:
  assumes "probe_one u st dns now get r w = (Inr p, w')" "0 \<le> sr_failures r"
  shows "probe_ok p"
  using assms by (auto simp: probe_one_def probe_ok_def Let_def split: sum.splits reg_error.splits prod.splits probe_answer.splits if_splits)

lemma update_sentinel_health_step:
  assumes "update_sentinel_health i s f c h d = Inr (v, d')" "probe_ok \<lparr>pr_status = s, pr_failures = f, pr_healthy = h, pr_reason = q\<rparr>"
  shows "reg_step sha d d'"
proof -
  define g where "g r = r\<lparr>sr_health := s, sr_failures := f, sr_checked := Some c, sr_updated := c,
              sr_healthy := (case h of None \<Rightarrow> sr_healthy r | Some t \<Rightarrow> Some t)\<rparr>" for r :: sentinel_row
  have d': "d' = d\<lparr>sentinel_registry := update_where (\<lambda>r. sr_id r = i) g (sentinel_registry d)\<rparr>"
    using assms(1) by (simp add: update_sentinel_health_def bindR_eq_Inr g_def [abs_def])
  have "registry_ok d'" if ok: "registry_ok d"
  proof (rule registry_ok_change [OF ok])
    show "sentinel_registry d' = update_where (\<lambda>r. sr_id r = i) g (sentinel_registry d)" by (simp add: d')
    fix r
    assume r: "r \<in> set (sentinel_registry d)" "sr_id r = i"
    then have "sentinel_ok r" using ok by (auto simp: registry_ok_def)
    then show "sr_id (g r) = i \<and> sentinel_ok (g r)"
      using assms(2) r(2) unfolding probe_ok_def sentinel_ok_def g_def by (auto simp: HEALTH_STATES_def split: option.splits)
  qed
  then show ?thesis by (auto simp: reg_step_def d' reg_frameI)
qed

lemma health_txn_step:
  assumes "run_txn fault (update_sentinel_health i (pr_status p) (pr_failures p) c (pr_healthy p)) d = (y, d')" "probe_ok p"
  shows "reg_step sha d d'"
proof (rule run_txn_preserves [OF assms(1)])
  fix a t
  assume u: "update_sentinel_health i (pr_status p) (pr_failures p) c (pr_healthy p) d = Inr (a, t)"
  show "reg_step sha d t" by (rule update_sentinel_health_step [OF u, where q = "pr_reason p"]) (use assms(2) in \<open>simp add: probe_ok_def\<close>)
qed simp

text \<open>The calls of a cycle, with a log of the URLs called as the state of the network.\<close>

definition logged :: "(string \<Rightarrow> probe_answer) \<Rightarrow> string \<Rightarrow> string list \<Rightarrow> probe_answer \<times> string list" where
  "logged answer url urls = (answer url, urls @ [url])"

definition safe_call :: "url_ext \<Rightarrow> coordination_settings \<Rightarrow> health_env \<Rightarrow> sentinel_row list \<Rightarrow> string \<Rightarrow> bool" where
  "safe_call u st env rs url \<longleftrightarrow> (\<exists>r \<in> set rs. sr_enabled r \<and> url = rstrip_slash (strip (sr_endpoint r)) @ co_health_path st
     \<and> endpoint_safe u (hv_dns env (sr_id r)) (co_allowlist st) (co_allow_http st) (sr_endpoint r))"

lemma probe_one_calls:
  assumes "probe_one u st dns now (logged answer) r urls = (y, urls')"
  shows "urls' = urls \<or> (\<exists>url. urls' = urls @ [url] \<and> url = rstrip_slash (strip (sr_endpoint r)) @ co_health_path st
     \<and> endpoint_safe u dns (co_allowlist st) (co_allow_http st) (sr_endpoint r))"
proof (cases "validate_endpoint u dns (co_allowlist st) (co_allow_http st) (sr_endpoint r)")
  case (Inl e)
  then show ?thesis using assms by (cases e) (auto simp: probe_one_def Let_def)
next
  case (Inr v)
  then show ?thesis using assms validate_endpoint_safe [OF Inr]
    by (auto simp: probe_one_def Let_def logged_def split: probe_answer.splits if_splits)
qed

lemma poll_sentinels_outcome:
  assumes "poll_sentinels u st env (logged answer) rs (d, urls) = (y, d', urls')" "\<forall>r \<in> set rs. 0 \<le> sr_failures r"
  shows "reg_step sha d d' \<and> (\<exists>new. urls' = urls @ new \<and> length new \<le> length (filter sr_enabled rs) \<and> (\<forall>url \<in> set new. safe_call u st env rs url))"
  using assms
proof (induction rs arbitrary: d urls y)
  case (Cons r rs)
  have mono: "safe_call u st env rs url \<Longrightarrow> safe_call u st env (r # rs) url" for url by (auto simp: safe_call_def)
  show ?case
  proof (cases "sr_enabled r")
    case False
    obtain y1 where p: "poll_sentinels u st env (logged answer) rs (d, urls) = (y1, d', urls')" using Cons.prems False by (auto split: prod.splits)
    then show ?thesis using Cons.IH [OF p] Cons.prems(2) False mono by fastforce
  next
    case True
    obtain q w1 where pr: "probe_one u st (hv_dns env (sr_id r)) (hv_probed env (sr_id r)) (logged answer) r urls = (q, w1)" by force
    obtain new1 where w1: "w1 = urls @ new1" "length new1 \<le> 1" "\<forall>url \<in> set new1. safe_call u st env (r # rs) url"
      using probe_one_calls [OF pr] True by (auto simp: safe_call_def)
    show ?thesis
    proof (cases q)
      case (Inl e)
      then show ?thesis using Cons.prems True pr w1 by auto
    next
      case (Inr p)
      have ok: "probe_ok p" by (rule probe_one_ok [OF pr [unfolded Inr]]) (use Cons.prems in auto)
      obtain z d1 where t: "run_txn (hv_write env (sr_id r)) (update_sentinel_health (sr_id r) (pr_status p) (pr_failures p)
                     (hv_checked env (sr_id r)) (pr_healthy p)) d = (z, d1)" by force
      have s1: "reg_step sha d d1" by (rule health_txn_step [OF t ok])
      show ?thesis
      proof (cases z)
        case zl: (Inl e)
        then show ?thesis using Cons.prems True pr Inr t s1 w1 by auto
      next
        case zr: (Inr u')
        obtain y1 where pl: "poll_sentinels u st env (logged answer) rs (d1, w1) = (y1, d', urls')"
          using Cons.prems True pr Inr t zr by (auto split: prod.splits)
        obtain new where n: "reg_step sha d1 d'" "urls' = w1 @ new" "length new \<le> length (filter sr_enabled rs)" "\<forall>url \<in> set new. safe_call u st env rs url"
          using Cons.IH [OF pl] Cons.prems(2) by auto
        then have "urls' = urls @ (new1 @ new)" "length (new1 @ new) \<le> length (filter sr_enabled (r # rs))"
            "\<forall>url \<in> set (new1 @ new). safe_call u st env (r # rs) url"
          using w1 True mono by auto
        then show ?thesis using reg_step_trans [OF s1 n(1)] by blast
      qed
    qed
  qed
qed simp

lemma run_health_cycle_outcome:
  assumes "run_health_cycle u st env (logged answer) (d, urls) = (y, d', urls')" "registry_ok d"
  shows "reg_step sha d d' \<and> (\<exists>new. urls' = urls @ new \<and> length new \<le> length (filter sr_enabled (sentinel_registry d))
     \<and> (\<forall>url \<in> set new. safe_call u st env (sentinel_registry d) url))"
proof (cases "hv_read env")
  case None
  then have p: "poll_sentinels u st env (logged answer) (list_sentinels d) (d, urls) = (y, d', urls')"
    using assms(1) by (simp add: run_health_cycle_def)
  have "length (filter sr_enabled (list_sentinels d)) = length (filter sr_enabled (sentinel_registry d))"
    by (simp add: list_sentinels_def filter_sort)
  moreover have "safe_call u st env (list_sentinels d) = safe_call u st env (sentinel_registry d)"
    by (rule ext) (simp add: safe_call_def list_sentinels_def)
  moreover have "\<forall>r \<in> set (list_sentinels d). 0 \<le> sr_failures r" using assms(2) by (auto simp: list_sentinels_def registry_ok_def sentinel_ok_def)
  ultimately show ?thesis using poll_sentinels_outcome [OF p, of sha] by auto
qed (use assms in \<open>auto simp: run_health_cycle_def\<close>)

section \<open>Coordinated pushes\<close>

definition pushable ::
  "url_ext \<Rightarrow> coordination_settings \<Rightarrow> (ident \<Rightarrow> string \<Rightarrow> dns_answer) \<Rightarrow> instant \<Rightarrow> string \<Rightarrow> sentinel_row \<Rightarrow> bool" where
  "pushable u st dns now policy_type r \<longleftrightarrow> sr_enabled r \<and> sr_health r = ''healthy''
     \<and> (0 < co_staleness st \<longrightarrow> (\<exists>t. sr_checked r = Some t \<and> now - t \<le> co_staleness st * 1000000))
     \<and> policy_type \<in> set (sr_capabilities r)
     \<and> endpoint_safe u (dns (sr_id r)) (co_allowlist st) (co_allow_http st) (sr_endpoint r)"

lemma effective_healthy:
  "effective_health_status staleness now r = ''healthy'' \<longleftrightarrow> sr_health r = ''healthy''
     \<and> (0 < staleness \<longrightarrow> (\<exists>t. sr_checked r = Some t \<and> now - t \<le> staleness * 1000000))"
  by (auto simp: effective_health_status_def split: option.splits)

lemma select_targets_pushable:
  assumes "select_targets u st dns now ty rs = Inr (selected, skipped)"
  shows "\<forall>(i, e) \<in> set selected. \<exists>r \<in> set rs. sr_id r = i \<and> sr_endpoint r = e \<and> pushable u st dns now ty r"
    and "set (map fst selected) \<union> set (map fst skipped) = sr_id ` set rs"
proof -
  have "(\<forall>(i, e) \<in> set selected. \<exists>r \<in> set rs. sr_id r = i \<and> sr_endpoint r = e \<and> pushable u st dns now ty r)
    \<and> set (map fst selected) \<union> set (map fst skipped) = sr_id ` set rs"
    using assms
  proof (induction rs arbitrary: selected skipped)
    case (Cons r rs)
    define v where "v = validate_endpoint u (dns (sr_id r)) (co_allowlist st) (co_allow_http st) (sr_endpoint r)"
    note prems = Cons.prems [unfolded select_targets.simps Let_def, folded v_def]
    obtain sel skp where IH: "select_targets u st dns now ty rs = Inr (sel, skp)"
      using prems by (cases "select_targets u st dns now ty rs") (auto split: if_splits sum.splits reg_error.splits)
    have c: "selected = sel \<and> fst ` set skipped = insert (sr_id r) (fst ` set skp)
        \<or> selected = (sr_id r, sr_endpoint r) # sel \<and> skipped = skp \<and> sr_enabled r \<and> effective_health_status (co_staleness st) now r = ''healthy''
          \<and> ty \<in> set (sr_capabilities r) \<and> (\<exists>e. v = Inr e)"
    proof (cases v)
      case (Inl er)
      then show ?thesis using prems IH by (cases er) (simp_all split: if_splits, auto)
    next
      case (Inr e)
      then show ?thesis using prems IH by (simp split: if_splits, auto)
    qed
    from c show ?case
    proof
      assume "selected = sel \<and> fst ` set skipped = insert (sr_id r) (fst ` set skp)"
      then show ?thesis using Cons.IH [OF IH] by auto
    next
      assume a: "selected = (sr_id r, sr_endpoint r) # sel \<and> skipped = skp \<and> sr_enabled r \<and> effective_health_status (co_staleness st) now r = ''healthy''
          \<and> ty \<in> set (sr_capabilities r) \<and> (\<exists>e. v = Inr e)"
      then have "pushable u st dns now ty r"
        using validate_endpoint_safe [of u "dns (sr_id r)" "co_allowlist st" "co_allow_http st" "sr_endpoint r"]
        unfolding pushable_def v_def effective_healthy by blast
      then show ?thesis using a Cons.IH [OF IH] by auto
    qed
  qed auto
  note both = this
  show "\<forall>(i, e) \<in> set selected. \<exists>r \<in> set rs. sr_id r = i \<and> sr_endpoint r = e \<and> pushable u st dns now ty r"
    by (rule both [THEN conjunct1])
  show "set (map fst selected) \<union> set (map fst skipped) = sr_id ` set rs" by (rule both [THEN conjunct2])
qed

lemma post_to_sentinel_frame:
  "post_to_sentinel L url tok rec w = (r, w') \<Longrightarrow> url' \<noteq> url \<Longrightarrow> sw_db w' url' = sw_db w url'"
  by (auto simp: post_to_sentinel_def Let_def split: push_fate.splits prod.splits)

lemma coordinate_push_cases:
  assumes "coordinate_push x u hash st env post policy tn (d, w) = (y, d', w')"
  obtains (idle) "d' = d" "w' = w" "isl y"
  | (submitted) i ty selected skipped q z d1 where "select_targets u st (pe_dns env) (pe_now env) ty (list_sentinels d) = Inr (selected, skipped)"
      "jget ''policy_type'' policy = JStr ty" "record_submission x (pe_submit env) q (\<lambda>_ s. Inr ((), s)) d = (z, d1)" "dz_tenant q = tn" "dz_record q = JObj policy"
      "isl z \<and> d' = d1 \<and> w' = w \<and> isl y \<or> (\<exists>v. z = Inr i \<and>
        drive_distribution x ((co_distribution st)\<lparr>dg_targets := selected\<rparr>) (pe_drive env) post i tn (d1, w) = (v, d', w'))"
proof -
  show thesis
  proof (cases "bindR (column_text (jget ''policy_id'' policy)) (\<lambda>i. bindR (column_text (jget ''policy_type'' policy)) (\<lambda>ty.
           case pe_read env of Some e \<Rightarrow> Inl e | None \<Rightarrow>
           bindR (select_targets u st (pe_dns env) (pe_now env) ty (list_sentinels d)) (\<lambda>sel. Inr (i, ty, sel))))")
    case (Inl e)
    then have "Inl e = y \<and> d' = d \<and> w' = w" using assms by (simp add: coordinate_push_def)
    then show thesis by (auto intro: idle)
  next
    case (Inr v)
    obtain pid ty selected skipped where v: "v = (pid, ty, selected, skipped)" by (cases v)
    have s: "select_targets u st (pe_dns env) (pe_now env) ty (list_sentinels d) = Inr (selected, skipped)"
      "column_text (jget ''policy_type'' policy) = Inr ty"
      using Inr v by (auto simp: bindR_eq_Inr split: option.splits)
    have ty: "jget ''policy_type'' policy = JStr ty" using s(2) by (cases "jget ''policy_type'' policy") auto
    define q where "q = \<lparr>dz_policy = pid, dz_version = jget ''policy_version'' policy, dz_tenant = tn, dz_type = ty,
                   dz_record = JObj policy, dz_hash = hash (JObj policy),
                   dz_targets = map (\<lambda>t. (fst t, dg_max_attempts ((co_distribution st)\<lparr>dg_targets := selected\<rparr>))) selected\<rparr>"
    obtain z d1 where r: "record_submission x (pe_submit env) q (\<lambda>_ s. Inr ((), s)) d = (z, d1)" by force
    show thesis
    proof (cases z)
      case zl: (Inl e)
      then have "d' = d1 \<and> w' = w \<and> Inl e = y" using assms Inr v r by (simp add: coordinate_push_def q_def)
      then show thesis by (intro submitted [OF s(1) ty r]) (auto simp: q_def zl)
    next
      case zr: (Inr i)
      obtain v' d2 w2 where dr: "drive_distribution x ((co_distribution st)\<lparr>dg_targets := selected\<rparr>) (pe_drive env) post i tn (d1, w) = (v', d2, w2)"
        using prod_cases3 by blast
      then have "d' = d2 \<and> w' = w2" using assms Inr v r zr
        by (cases v') (auto simp: coordinate_push_def q_def split: option.splits)
      then show thesis using dr by (intro submitted [OF s(1) ty r]) (auto simp: q_def zr)
    qed
  qed
qed

text \<open>Only the Sentinels that may be pushed to change.\<close>

lemma coordinate_push_reaches:
  assumes "coordinate_push x u hash st env (post_to_sentinel L) policy tn (d, w) = (y, d', w')" "sw_db w' url \<noteq> sw_db w url"
  shows "\<exists>ty r. jget ''policy_type'' policy = JStr ty \<and> r \<in> set (sentinel_registry d) \<and> pushable u st (pe_dns env) (pe_now env) ty r
    \<and> url = target_url (co_distribution st) (sr_endpoint r)"
  using assms(1)
proof (cases rule: coordinate_push_cases)
  case idle
  then show ?thesis using assms(2) by simp
next
  case (submitted i ty selected skipped q z d1)
  let ?st = "(co_distribution st)\<lparr>dg_targets := selected\<rparr>"
  from submitted(6) assms(2) obtain v where dr: "drive_distribution x ?st (pe_drive env) (post_to_sentinel L) i tn (d1, w) = (v, d', w')" by auto
  have "url \<in> target_url ?st ` snd ` set selected"
  proof (rule ccontr)
    assume n: "url \<notin> target_url ?st ` snd ` set selected"
    have "sw_db w2 url = sw_db w1 url"
      if "post_to_sentinel L (target_url ?st b) tok rec w1 = (r, w2)" "b \<in> snd ` set selected" for b tok rec w1 r w2
      by (rule post_to_sentinel_frame [OF that(1)]) (use n that(2) in blast)
    then have "sw_db w' url = sw_db w url"
      by (intro drive_distribution_keeps [OF dr, where P = "\<lambda>w'. sw_db w' url = sw_db w url", THEN conjunct2]) simp_all
    then show False using assms(2) by simp
  qed
  then obtain i e where e: "(i, e) \<in> set selected" "url = target_url (co_distribution st) e" by (auto simp: target_url_def)
  then obtain r where "r \<in> set (list_sentinels d)" "sr_endpoint r = e" "pushable u st (pe_dns env) (pe_now env) ty r"
    using select_targets_pushable(1) [OF submitted(1)] by blast
  then show ?thesis using e(2) submitted(2) by (auto simp: list_sentinels_def)
qed

lemma coordinate_push_step:
  assumes "coordinate_push x u hash st env post policy tn (d, w) = (y, d', w')" "dist_ok d"
  shows "dist_frame d d' \<and> dist_ok d' \<and> (chains_ok (xo_sha x) (chains d) \<longrightarrow> chains_ok (xo_sha x) (chains d'))"
  using assms(1)
proof (cases rule: coordinate_push_cases)
  case idle
  then show ?thesis using assms(2) dist_frameI(1) by auto
next
  case (submitted i ty selected skipped q z d1)
  have s: "submit_step (xo_sha x) d d1" by (rule record_submission_cases(1) [OF submitted(3) assms(2)]) auto
  have "drive_step (xo_sha x) d1 d'" if "drive_distribution x st' env' post i tn (d1, w) = (v, d', w')" for st' env' v
    using drive_distribution_keeps [OF that, of "\<lambda>_. True"] by simp
  then have "d' = d1 \<or> drive_step (xo_sha x) d1 d'" using submitted(6) by blast
  then show ?thesis using s dist_frame_trans dist_ok_same_plan unfolding submit_step_def drive_step_def by blast
qed

end
