(* ===== verification/Orch_Automation_Facts.thy ===== *)
theory Orch_Automation_Facts
  imports Orch_Automation Orch_Distribution_Facts
begin

text \<open>
  What the automation guarantees: a rule fires only on equal values of the same JSON type, an
  evaluation records at most one execution per rule and event, changes nothing but the tenant's own
  distributions and the two audit chains, and the routes keep the rules unique, within the cap and
  bound to distributions of their own tenant.
\<close>

section \<open>Matching\<close>

lemma py_eq_same_type:
  assumes "is_scalar a" "is_scalar b" "is_bool a = is_bool b" "py_eq a b"
  shows "a = b \<or> (\<exists>q. num_value a = Some q \<and> num_value b = Some q \<and> \<not> is_bool a)"
  using assms by (cases a; cases b) (auto simp: py_eq_def split: option.splits)

section \<open>Executions\<close>

definition execution_key :: "chain_link \<Rightarrow> cell \<times> cell" where
  "execution_key r = (dget ''rule_id'' (cl_data r), dget ''triggering_event_id'' (cl_data r))"

definition executions_ok :: "orch_db \<Rightarrow> bool" where
  "executions_ok d \<longleftrightarrow> distinct (map execution_key (automation_executions (chains d)))"

definition engine_frame :: "orch_db \<Rightarrow> orch_db \<Rightarrow> bool" where
  "engine_frame d d' \<longleftrightarrow> (\<exists>ds ts a b. d' = d\<lparr>policy_distributions := ds, policy_distribution_targets := ts,
     chains := (chains d)\<lparr>distribution_audit_log := a, automation_executions := b\<rparr>\<rparr>)"

definition foreign :: "ident \<Rightarrow> orch_db \<Rightarrow> distribution_row list \<times> target_dist_row list" where
  "foreign tn d = (filter (\<lambda>r. ds_tenant r \<noteq> tn) (policy_distributions d), filter (\<lambda>t. dt_tenant t \<noteq> tn) (policy_distribution_targets d))"

text \<open>One step of the engine for a tenant.\<close>

definition engine_step :: "(string \<Rightarrow> string) \<Rightarrow> ident \<Rightarrow> orch_db \<Rightarrow> orch_db \<Rightarrow> bool" where
  "engine_step sha tn d d' \<longleftrightarrow> engine_frame d d' \<and> same_plan d d' \<and> foreign tn d' = foreign tn d
     \<and> prefix (automation_executions (chains d)) (automation_executions (chains d'))
     \<and> (executions_ok d \<longrightarrow> executions_ok d') \<and> (chains_ok sha (chains d) \<longrightarrow> chains_ok sha (chains d'))"

lemma engine_step_refl [simp]: "engine_step sha tn d d"
  by (cases d; cases "chains d") (simp add: engine_step_def engine_frame_def)

lemma engine_frame_trans: "engine_frame d d' \<Longrightarrow> engine_frame d' d'' \<Longrightarrow> engine_frame d d''"
  by (cases d; cases "chains d") (auto simp: engine_frame_def)

lemma engine_step_trans: "engine_step sha tn d d' \<Longrightarrow> engine_step sha tn d' d'' \<Longrightarrow> engine_step sha tn d d''"
  unfolding engine_step_def using engine_frame_trans same_plan_trans prefix_order.trans by metis

lemma filter_update_where_other:
  assumes "\<And>r. P r \<Longrightarrow> \<not> Q r" "\<And>r. P r \<Longrightarrow> Q (f r) = Q r"
  shows "filter Q (update_where P f rows) = filter Q rows"
  using assms by (induction rows) auto

lemma engine_step_target:
  "engine_step sha tn d (update_target_state tn i s a e x y now d)"
  "engine_step sha tn d (update_distribution_state tn i s d)"
proof -
  have "foreign tn (update_target_state tn i s a e x y now d) = foreign tn d" "foreign tn (update_distribution_state tn i s d) = foreign tn d"
    by (auto simp: foreign_def update_target_state_def update_distribution_state_def intro!: filter_update_where_other)
  then show "engine_step sha tn d (update_target_state tn i s a e x y now d)" "engine_step sha tn d (update_distribution_state tn i s d)"
    unfolding engine_step_def
    by (cases d; cases "chains d"; simp add: engine_frame_def executions_ok_def update_target_state_def update_distribution_state_def
        same_plan_def target_key_def dist_key_def map_update_where_frame)+
qed

lemma engine_step_append:
  assumes "append_distribution x meta disposition s e d = Inr (u, d')"
  shows "engine_step (xo_sha x) tn d d'"
  using assms by (rule append_distribution_eq)
    (cases d; cases "chains d"; auto simp: engine_step_def engine_frame_def same_plan_def foreign_def executions_ok_def)

lemma run_txn_engine:
  assumes "run_txn fault m d = (y, d')" "\<And>a t. m d = Inr (a, t) \<Longrightarrow> engine_step sha tn d t"
  shows "engine_step sha tn d d'"
  by (rule run_txn_preserves [OF assms(1)]) (use assms(2) in auto)

lemma settle_target_engine:
  assumes "settle_target x env (i, p, tn, ty) target state attempts err d = (y, d')"
  shows "engine_step (xo_sha x) tn d d'"
proof -
  obtain y1 d1 where w: "run_txn (de_write env (dt_id target)) (\<lambda>s. Inr ((), update_target_state tn (dt_id target) state
             (Some attempts) err (if state = ''distributed'' then Some (de_now env) else None) None (de_now env) s)) d = (y1, d1)" by force
  have s1: "engine_step (xo_sha x) tn d d1" by (rule run_txn_engine [OF w]) (auto intro: engine_step_target)
  have "engine_step (xo_sha x) tn d1 s" if "run_txn f (append_distribution x (i, p, tn, ty) state (Some (dt_sentinel target)) err) d1 = (z, s)" for f z s
    by (rule run_txn_engine [OF that engine_step_append])
  then show ?thesis using assms s1 engine_step_trans unfolding settle_target_def fst_conv snd_conv w by (auto split: sum.splits prod.splits)
qed

lemma distribute_engine:
  assumes "distribute_to_target x st env post (i, p, tn, ty) rec target (d, w) = (y, d', w')"
  shows "engine_step (xo_sha x) tn d d'"
  using assms by (auto simp: distribute_to_target_def split: option.splits prod.splits attempt_result.splits dest: settle_target_engine)

lemma fan_out_engine:
  assumes "fan_out x st env post (i, p, tn, ty) rec ts (d, w) = (y, d', w')"
  shows "engine_step (xo_sha x) tn d d'"
  using assms
proof (induction ts arbitrary: d w)
  case (Cons t ts)
  obtain y1 d1 w1 where t: "distribute_to_target x st env post (i, p, tn, ty) rec t (d, w) = (y1, d1, w1)" using prod_cases3 by blast
  have "d' = d1 \<or> fan_out x st env post (i, p, tn, ty) rec ts (d1, w1) = (y, d', w')"
    using Cons.prems t by (auto split: sum.splits if_splits)
  then show ?case using distribute_engine [OF t] Cons.IH [of d1 w1] engine_step_trans by blast
qed simp

lemma finish_engine:
  assumes "finish_distribution x env (i, p, tn, ty) d = (y, d')"
  shows "engine_step (xo_sha x) tn d d'"
proof -
  obtain y1 d1 where w: "run_txn (de_final env) (\<lambda>s. Inr ((), update_distribution_state tn i
      (aggregate_state (map dt_state (list_distribution_targets tn i d))) s)) d = (y1, d1)" by force
  have s1: "engine_step (xo_sha x) tn d d1" by (rule run_txn_engine [OF w]) (auto intro: engine_step_target)
  have "engine_step (xo_sha x) tn d1 s" if "run_txn f (append_distribution x (i, p, tn, ty) a None None) d1 = (z, s)" for f a z s
    by (rule run_txn_engine [OF that engine_step_append])
  then show ?thesis using assms s1 w engine_step_trans by (auto simp: finish_distribution_def split: sum.splits)
qed

lemma drive_engine:
  assumes "drive_distribution x st env post i tn (d, w) = (y, d', w')"
  shows "engine_step (xo_sha x) tn d d'"
  using assms
proof (cases rule: drive_distribution_cases)
  case (driven row y1 d1 w1)
  then show ?thesis using fan_out_engine [OF driven(2)] finish_engine engine_step_trans by blast
qed simp

section \<open>Running rules\<close>

lemma append_automation_cases:
  assumes "append_automation x r tn ev act disp err d = Inr (u, d')"
  shows "engine_step (xo_sha x) tn d d'" "\<exists>l \<in> set (automation_executions (chains d')). execution_key l = (CStr r, CStr ev)"
proof -
  obtain h rows where l: "append_automation_audit_link (xo_sha x) r tn ev act disp err (automation_executions (chains d)) = Inr (h, rows)"
    and d': "d' = d\<lparr>chains := (chains d)\<lparr>automation_executions := rows\<rparr>\<rparr>"
    using assms by (auto simp: append_automation_def bindR_eq_Inr)
  obtain k where rows: "rows = automation_executions (chains d) @ [k]" and k: "execution_key k = (CStr r, CStr ev)"
    and n: "(CStr r, CStr ev) \<notin> execution_key ` set (automation_executions (chains d))"
    using l by (auto simp: append_automation_audit_link_def Let_def bindR_eq_Inr execution_key_def dget_def map_add_def split: if_splits
        dest!: insert_link_Inr)
  show "\<exists>l \<in> set (automation_executions (chains d')). execution_key l = (CStr r, CStr ev)" using rows k d' by auto
  have "executions_ok d'" if "executions_ok d" using that n k rows d' by (auto simp: executions_ok_def)
  then show "engine_step (xo_sha x) tn d d'" using chains_ok_append(6) [OF _ l] rows unfolding d'
    by (cases d; cases "chains d") (auto simp: engine_step_def engine_frame_def same_plan_def foreign_def)
qed

lemma execute_rule_step:
  assumes "execute_rule x st env post tn ev r (d, w) = (y, d', w')"
  shows "engine_step (xo_sha x) tn d d'"
proof -
  have ap: "engine_step (xo_sha x) tn s s'" if "run_txn f (append_automation x (rl_id r) tn ev act disp err) s = (z, s')" for f act disp err s z s'
    by (rule run_txn_engine [OF that append_automation_cases(1)])
  have "engine_step (xo_sha x) tn d s'"
    if "drive_distribution x st e post i tn (d, w) = (v, s, w1)" "run_txn f (append_automation x (rl_id r) tn ev act disp err) s = (z, s')"
    for e i v s w1 f act disp err z s'
    using drive_engine [OF that(1)] ap [OF that(2)] by (rule engine_step_trans)
  then show ?thesis using assms ap unfolding execute_rule_def Let_def
    by (auto split: if_splits json.splits prod.splits sum.splits)
qed

lemma record_unexpected_step: "engine_step (xo_sha x) tn d (record_unexpected_failure x env tn ev r d)"
proof -
  obtain z s where t: "run_txn (ru_record env (rl_id r)) (append_automation x (rl_id r) tn ev
        (if rl_action r = [] then REDISTRIBUTE_POLICY else rl_action r) ''failed'' (Some ''unexpected_error'')) d = (z, s)" by force
  have "engine_step (xo_sha x) tn d s" by (rule run_txn_engine [OF t append_automation_cases(1)])
  then show ?thesis using t by (simp add: record_unexpected_failure_def)
qed

lemma run_rules_step:
  assumes "run_rules x st env post tn ev rs (d, w) = (d', w')"
  shows "engine_step (xo_sha x) tn d d'"
  using assms
proof (induction rs arbitrary: d w)
  case (Cons r rs)
  obtain y d1 w1 where e: "execute_rule x st env post tn ev r (d, w) = (y, d1, w1)" using prod_cases3 by blast
  define d2 where "d2 = (case y of Inr _ \<Rightarrow> d1 | Inl _ \<Rightarrow> record_unexpected_failure x env tn ev r d1)"
  have "engine_step (xo_sha x) tn d d2"
    using execute_rule_step [OF e] record_unexpected_step [of x tn d1 env ev r] engine_step_trans by (auto simp: d2_def split: sum.splits)
  moreover have "run_rules x st env post tn ev rs (d2, w1) = (d', w')" using Cons.prems e by (cases y) (auto simp: d2_def)
  ultimately show ?case using Cons.IH engine_step_trans by blast
qed simp

lemma evaluate_step:
  assumes "evaluate_and_execute x au st env post tn ev ty src payload (d, w) = (y, d', w')"
  shows "engine_step (xo_sha x) tn d d'"
  using assms run_rules_step
  by (auto simp: evaluate_and_execute_def Let_def split: if_splits sum.splits option.splits)

section \<open>Rules\<close>

definition rules_ok :: "int \<Rightarrow> orch_db \<Rightarrow> bool" where
  "rules_ok cap d \<longleftrightarrow> distinct (map rl_id (automation_rules d)) \<and> distinct (map (\<lambda>r. (rl_tenant r, rl_name r)) (automation_rules d))
     \<and> (\<forall>t. count_automation_rules t d \<le> cap)
     \<and> (\<forall>r \<in> set (automation_rules d). rl_action r = REDISTRIBUTE_POLICY
          \<and> (\<exists>q \<in> set (policy_distributions d). ds_tenant q = rl_tenant r \<and> jget ''distribution_id'' (rl_config r) = JStr (ds_id q)))"

definition rule_frame :: "orch_db \<Rightarrow> orch_db \<Rightarrow> bool" where
  "rule_frame d d' \<longleftrightarrow> (\<exists>rs n. d' = d\<lparr>automation_rules := rs, uuid_next := n\<rparr>)"

lemma rules_ok_plan:
  assumes "rules_ok cap d" "automation_rules d' = automation_rules d"
    "\<And>q. q \<in> set (policy_distributions d) \<Longrightarrow> \<exists>q' \<in> set (policy_distributions d'). ds_id q' = ds_id q \<and> ds_tenant q' = ds_tenant q"
  shows "rules_ok cap d'"
proof -
  have "\<exists>q \<in> set (policy_distributions d'). ds_tenant q = rl_tenant r \<and> jget ''distribution_id'' (rl_config r) = JStr (ds_id q)"
    if "r \<in> set (automation_rules d)" for r
    using assms(1) assms(3) that unfolding rules_ok_def by fastforce
  then show ?thesis using assms(1,2) by (simp add: rules_ok_def count_automation_rules_def)
qed

lemma create_rule_cases:
  assumes "create_rule_txn x au env caller body d = (y, d')" "validate_create_body known dsize body = Inr None"
  shows "rule_frame d d'" "rules_ok (au_max_rules au) d \<Longrightarrow> rules_ok (au_max_rules au) d'"
proof -
  define i where "i = ''rule-'' @ filter (\<lambda>c. c \<noteq> CHR ''-'') (xo_u4 x (uuid_next d))"
  define r where "r = new_rule caller body i (ro_now env)"
  define d0 where "d0 = d\<lparr>uuid_next := Suc (uuid_next d)\<rparr>"
  have c: "d' = d \<or> d' = d0 \<or> (insert_automation_rule caller r d0 = Inr d' \<and> count_automation_rules caller d < au_max_rules au
      \<and> get_distribution (Some caller) (jstring (jget ''distribution_id'' (jobj (jget ''action_config'' body)))) d \<noteq> None)"
    using assms(1) by (auto simp: create_rule_txn_def Let_def run_txn_def i_def r_def d0_def
        split: if_splits sum.splits txn_fault.splits)
  have f: "rule_frame d d" "rule_frame d d0" by (cases d; simp add: rule_frame_def d0_def)+
  have ins: "d' = d0\<lparr>automation_rules := automation_rules d @ [r]\<rparr>" "rl_id r \<notin> rl_id ` set (automation_rules d)"
      "(rl_tenant r, rl_name r) \<notin> (\<lambda>x. (rl_tenant x, rl_name x)) ` set (automation_rules d)" "rl_action r = REDISTRIBUTE_POLICY"
    if "insert_automation_rule caller r d0 = Inr d'"
    using that by (auto simp: insert_automation_rule_def bindR_eq_Inr table_simps d0_def REDISTRIBUTE_POLICY_def)
  show "rule_frame d d'" using c f ins by (cases d) (auto simp: rule_frame_def d0_def)
  assume ok: "rules_ok (au_max_rules au) d"
  have ok0: "rules_ok (au_max_rules au) d0" using ok by (simp add: rules_ok_def d0_def count_automation_rules_def)
  from c consider "d' = d \<or> d' = d0" | "insert_automation_rule caller r d0 = Inr d'" "count_automation_rules caller d < au_max_rules au"
      "get_distribution (Some caller) (jstring (jget ''distribution_id'' (jobj (jget ''action_config'' body)))) d \<noteq> None" by blast
  then show "rules_ok (au_max_rules au) d'"
  proof cases
    case 2
    obtain q where q: "q \<in> set (policy_distributions d)" "ds_tenant q = caller" "ds_id q = jstring (jget ''distribution_id'' (jobj (jget ''action_config'' body)))"
      using 2(3) by (auto simp: get_distribution_def dest!: find_eq_Some_in)
    have "nonempty_text (jget ''distribution_id'' (jobj (jget ''action_config'' body)))"
      using assms(2) by (auto simp: validate_create_body_def Let_def split: if_splits json.splits)
    then have "jget ''distribution_id'' (rl_config r) = JStr (ds_id q)"
      using q(3) by (cases "jget ''distribution_id'' (jobj (jget ''action_config'' body))") (auto simp: r_def new_rule_def jstring_def)
    moreover have "rl_tenant r = caller" by (simp add: r_def new_rule_def)
    ultimately show ?thesis using ok q ins [OF 2(1)] 2(2)
      by (fastforce simp: rules_ok_def count_automation_rules_def d0_def)
  qed (use ok ok0 in auto)
qed

end
