(* ===== verification/Orch_Gateway_Facts.thy ===== *)
theory Orch_Gateway_Facts
  imports Orch_Gateway Orch_Registry_Facts Orch_Automation_Facts
begin

text \<open>
  What the gateway guarantees: a key is served at most its limit in a minute whatever happens in
  between, keys stay unique and within the cap, a page holds only the tenant's own events. And two
  places where it does less than it says: a disabled gateway tells a valid key from an unknown one,
  and a tenant filter that differs in case returns an empty page.
\<close>

section \<open>Steps\<close>

definition gate_frame :: "orch_db \<Rightarrow> orch_db \<Rightarrow> bool" where
  "gate_frame d d' \<longleftrightarrow> (\<exists>ks cs a n. d' = d\<lparr>third_party_api_keys := ks, rate_limit_counters := cs,
     chains := (chains d)\<lparr>external_gateway_audit_log := a\<rparr>, uuid_next := n\<rparr>)"

lemma gate_frameI:
  "gate_frame d d"
  "gate_frame d (d\<lparr>third_party_api_keys := ks\<rparr>)"
  "gate_frame d (d\<lparr>rate_limit_counters := cs\<rparr>)"
  "gate_frame d (d\<lparr>uuid_next := n\<rparr>)"
  "gate_frame d (d\<lparr>chains := (chains d)\<lparr>external_gateway_audit_log := a\<rparr>\<rparr>)"
  by (cases d; cases "chains d"; simp add: gate_frame_def)+

lemma gate_frame_trans: "gate_frame d d' \<Longrightarrow> gate_frame d' d'' \<Longrightarrow> gate_frame d d''"
  by (cases d; cases "chains d") (auto simp: gate_frame_def)

definition keys_ok :: "int \<Rightarrow> orch_db \<Rightarrow> bool" where
  "keys_ok cap d \<longleftrightarrow> distinct (map tk_id (third_party_api_keys d)) \<and> distinct (map tk_hash (third_party_api_keys d))
     \<and> (\<forall>t. count_third_party_api_keys t d \<le> cap) \<and> (\<forall>k \<in> set (third_party_api_keys d). 1 \<le> tk_limit k)
     \<and> distinct (map (\<lambda>c. (ct_key c, ct_window c)) (rate_limit_counters d))"

definition gate_step :: "(string \<Rightarrow> string) \<Rightarrow> int \<Rightarrow> orch_db \<Rightarrow> orch_db \<Rightarrow> bool" where
  "gate_step sha cap d d' \<longleftrightarrow> gate_frame d d' \<and> (keys_ok cap d \<longrightarrow> keys_ok cap d') \<and> (chains_ok sha (chains d) \<longrightarrow> chains_ok sha (chains d'))"

lemma gate_step_refl [simp]: "gate_step sha cap d d"
  by (simp add: gate_step_def gate_frameI)

lemma gate_step_trans: "gate_step sha cap d d' \<Longrightarrow> gate_step sha cap d' d'' \<Longrightarrow> gate_step sha cap d d''"
  unfolding gate_step_def using gate_frame_trans by blast

lemma gate_step_txn:
  assumes "run_txn fault m d = (y, d')" "\<And>a t. m d = Inr (a, t) \<Longrightarrow> gate_step sha cap d t"
  shows "gate_step sha cap d d'"
  by (rule run_txn_preserves [OF assms(1)]) (use assms(2) in auto)

lemma append_gateway_cases:
  assumes "append_gateway x k outcome d = Inr (u, d')"
  shows "gate_step (xo_sha x) cap d d'" "third_party_api_keys d' = third_party_api_keys d" "rate_limit_counters d' = rate_limit_counters d"
    "ingest_events d' = ingest_events d"
proof -
  obtain h rows where l: "append_external_gateway_audit_link (xo_sha x) (tk_tenant k) (tk_id k) EVENTS_ROUTE outcome (external_gateway_audit_log (chains d)) = Inr (h, rows)"
    and d': "d' = d\<lparr>chains := (chains d)\<lparr>external_gateway_audit_log := rows\<rparr>\<rparr>"
    using assms by (auto simp: append_gateway_def bindR_eq_Inr)
  show "gate_step (xo_sha x) cap d d'" using chains_ok_append(9) [OF _ l] unfolding d'
    by (simp add: gate_step_def gate_frameI keys_ok_def count_third_party_api_keys_def)
qed (use assms in \<open>auto simp: append_gateway_def bindR_eq_Inr\<close>)

lemma audited_answer_cases:
  assumes "audited_answer x env k outcome answer d = (y, d')"
  shows "gate_step (xo_sha x) cap d d'" "third_party_api_keys d' = third_party_api_keys d" "rate_limit_counters d' = rate_limit_counters d"
    "ingest_events d' = ingest_events d" "isl y \<or> y = answer d'"
proof -
  obtain z d1 where t: "run_txn (ge_audit env) (append_gateway x k outcome) d = (z, d1)" by force
  then have d1: "d1 = d'" using assms by (auto simp: audited_answer_def split: sum.splits)
  show "gate_step (xo_sha x) cap d d'" unfolding d1 [symmetric] by (rule gate_step_txn [OF t]) (rule append_gateway_cases(1))
  have "third_party_api_keys d1 = third_party_api_keys d \<and> rate_limit_counters d1 = rate_limit_counters d \<and> ingest_events d1 = ingest_events d"
    by (rule run_txn_preserves [OF t]) (auto simp: append_gateway_cases)
  then show "third_party_api_keys d' = third_party_api_keys d" "rate_limit_counters d' = rate_limit_counters d" "ingest_events d' = ingest_events d"
    using d1 by simp_all
  show "isl y \<or> y = answer d'" using assms t by (auto simp: audited_answer_def split: sum.splits)
qed

section \<open>Counters\<close>

definition counter_value :: "ident \<Rightarrow> instant \<Rightarrow> orch_db \<Rightarrow> int" where
  "counter_value k m d = (case List.find (\<lambda>c. ct_key c = k \<and> ct_window c = m) (rate_limit_counters d) of None \<Rightarrow> 0 | Some c \<Rightarrow> ct_count c)"

lemma counter_value_same: "rate_limit_counters d' = rate_limit_counters d \<Longrightarrow> counter_value k m d' = counter_value k m d"
  by (simp add: counter_value_def)

lemma find_update_where_count:
  "List.find (\<lambda>c. ct_key c = k \<and> ct_window c = m) (update_where (\<lambda>c. ct_key c = k' \<and> ct_window c = m') (\<lambda>c. c\<lparr>ct_count := ct_count c + 1\<rparr>) cs)
   = map_option (\<lambda>c. if k = k' \<and> m = m' then c\<lparr>ct_count := ct_count c + 1\<rparr> else c) (List.find (\<lambda>c. ct_key c = k \<and> ct_window c = m) cs)"
  by (induction cs) auto

lemma increment_cases:
  assumes "increment_external_gateway_rate_limit k m d = Inr (n, d')"
  shows "n = counter_value k m d + 1" "counter_value k' m' d' = counter_value k' m' d + (if k' = k \<and> m' = m then 1 else 0)"
    "third_party_api_keys d' = third_party_api_keys d" "ingest_events d' = ingest_events d" "gate_step sha cap d d'"
proof -
  show "n = counter_value k m d + 1" "third_party_api_keys d' = third_party_api_keys d" "ingest_events d' = ingest_events d"
    using assms by (auto simp: increment_external_gateway_rate_limit_def counter_value_def split: option.splits if_splits)
  show "counter_value k' m' d' = counter_value k' m' d + (if k' = k \<and> m' = m then 1 else 0)"
  proof (cases "List.find (\<lambda>c. ct_key c = k \<and> ct_window c = m) (rate_limit_counters d)")
    case None
    then have "d' = d\<lparr>rate_limit_counters := rate_limit_counters d @ [\<lparr>ct_key = k, ct_window = m, ct_count = 1\<rparr>]\<rparr>"
      using assms by (simp add: increment_external_gateway_rate_limit_def)
    then show ?thesis using None by (auto simp: counter_value_def find_append split: option.splits)
  next
    case (Some c)
    then have "d' = d\<lparr>rate_limit_counters := update_where (\<lambda>c. ct_key c = k \<and> ct_window c = m) (\<lambda>c. c\<lparr>ct_count := ct_count c + 1\<rparr>) (rate_limit_counters d)\<rparr>"
      using assms by (simp add: increment_external_gateway_rate_limit_def split: if_splits)
    then show ?thesis using Some by (auto simp: counter_value_def find_update_where_count split: option.splits)
  qed
  have "distinct (map (\<lambda>c. (ct_key c, ct_window c)) (rate_limit_counters d'))" if "distinct (map (\<lambda>c. (ct_key c, ct_window c)) (rate_limit_counters d))"
    using assms that by (auto simp: increment_external_gateway_rate_limit_def map_update_where_frame find_None_iff image_iff split: option.splits if_splits)
  then show "gate_step sha cap d d'"
    using assms by (auto simp: increment_external_gateway_rate_limit_def gate_step_def gate_frameI keys_ok_def count_third_party_api_keys_def
        split: option.splits if_splits)
qed

lemma increment_txn:
  assumes "run_txn fault (increment_external_gateway_rate_limit k m) d = (y, d')"
  shows "gate_step sha cap d d'" "third_party_api_keys d' = third_party_api_keys d" "counter_value k' m' d \<le> counter_value k' m' d'"
    "ingest_events d' = ingest_events d"
    "y = Inr n \<Longrightarrow> n = counter_value k m d + 1 \<and> counter_value k m d' = n"
proof -
  have "gate_step sha cap d d' \<and> third_party_api_keys d' = third_party_api_keys d \<and> counter_value k' m' d \<le> counter_value k' m' d' \<and> ingest_events d' = ingest_events d"
    by (rule run_txn_preserves [OF assms]) (auto simp: increment_cases)
  then show "gate_step sha cap d d'" "third_party_api_keys d' = third_party_api_keys d" "counter_value k' m' d \<le> counter_value k' m' d'"
    "ingest_events d' = ingest_events d" by blast+
  show "n = counter_value k m d + 1 \<and> counter_value k m d' = n" if "y = Inr n"
    using assms that by (cases rule: run_txn_cases) (auto simp: increment_cases dest: increment_cases(1))
qed

section \<open>Reading through the gateway\<close>

lemma read_page_same:
  assumes "ingest_events d' = ingest_events d"
  shows "read_page tle rd caller f limit cursor d' = read_page tle rd caller f limit cursor d"
proof -
  have "list_events tle caller f n cursor d' = list_events tle caller f n cursor d" for n using assms by (simp add: list_events_def)
  then show ?thesis by (cases rd) (simp_all add: read_page_def)
qed

lemma external_query_outcomes:
  assumes "external_query_events x tle gw env header limit cursor d = (y, d')"
  obtains (same) "d' = d" "\<forall>rows next. y \<noteq> Inr (Page rows next)"
    | (refused) key outcome s c where "audited_answer x env key outcome (\<lambda>_. Inr (Refused (http_error s c))) d = (y, d')"
    | (failed) key :: api_key and z where "run_txn (ge_count env) (increment_external_gateway_rate_limit (tk_id key) (minute_window (ge_now env))) d = (z, d')" "isl y"
    | (limited) key n d1 s c where "run_txn (ge_count env) (increment_external_gateway_rate_limit (tk_id key) (minute_window (ge_now env))) d = (Inr n, d1)"
        "audited_answer x env key ''rate_limited'' (\<lambda>_. Inr (Refused (http_error s c))) d1 = (y, d')"
    | (allowed) key n d1 where "require_third_party_api_key x header d = Some key" "tk_status key = ''active''" "gw_enabled gw"
        "''events:read'' \<in> set (tk_scopes key)" "n \<le> tk_limit key"
        "run_txn (ge_count env) (increment_external_gateway_rate_limit (tk_id key) (minute_window (ge_now env))) d = (Inr n, d1)"
        "audited_answer x env key ''allowed'' (read_page tle (ge_read env) (tk_tenant key) no_filters (clamp_page limit) (cursor_value cursor)) d1 = (y, d')"
proof (cases "ge_auth env = None \<and> (\<exists>key. require_third_party_api_key x header d = Some key \<and> gw_enabled gw \<and> tk_status key = ''active''
    \<and> ''events:read'' \<in> set (tk_scopes key) \<and> cursor \<noteq> Bad_cursor)")
  case False
  then have "(d' = d \<and> (\<forall>rows next. y \<noteq> Inr (Page rows next)))
      \<or> (\<exists>key outcome s c. audited_answer x env key outcome (\<lambda>_. Inr (Refused (http_error s c))) d = (y, d'))"
    using assms by (auto simp: external_query_events_def Let_def split: option.splits if_splits)
  then show thesis using same refused by blast
next
  case True
  then obtain key where k: "ge_auth env = None" "require_third_party_api_key x header d = Some key" "gw_enabled gw" "tk_status key = ''active''"
    "''events:read'' \<in> set (tk_scopes key)" "cursor \<noteq> Bad_cursor" by blast
  obtain z d1 where t: "run_txn (ge_count env) (increment_external_gateway_rate_limit (tk_id key) (minute_window (ge_now env))) d = (z, d1)" by force
  show thesis
  proof (cases z)
    case (Inl e)
    then have "Inl e = y \<and> d' = d1" using assms k t by (simp add: external_query_events_def)
    then show thesis using failed [of key z] t by auto
  next
    case (Inr n)
    show thesis
    proof (cases "n > tk_limit key")
      case True
      then have "audited_answer x env key ''rate_limited'' (\<lambda>_. Inr (Refused (http_error 429 ''rate_limited''))) d1 = (y, d')"
        using assms k t Inr by (simp add: external_query_events_def)
      then show thesis using limited t Inr by blast
    next
      case False
      then have "audited_answer x env key ''allowed'' (read_page tle (ge_read env) (tk_tenant key) no_filters (clamp_page limit) (cursor_value cursor)) d1 = (y, d')"
        using assms k t Inr by (simp add: external_query_events_def)
      then show thesis using allowed [OF k(2,4,3,5)] False t Inr by auto
    qed
  qed
qed

lemma external_query_cases:
  assumes "external_query_events x tle gw env header limit cursor d = (y, d')"
  shows "gate_step (xo_sha x) cap d d'" "third_party_api_keys d' = third_party_api_keys d" "counter_value k m d \<le> counter_value k m d'"
    "y = Inr (Page rows next) \<Longrightarrow> \<exists>key. require_third_party_api_key x header d = Some key \<and> tk_status key = ''active'' \<and> gw_enabled gw
       \<and> ''events:read'' \<in> set (tk_scopes key)
       \<and> counter_value (tk_id key) (minute_window (ge_now env)) d' = counter_value (tk_id key) (minute_window (ge_now env)) d + 1
       \<and> counter_value (tk_id key) (minute_window (ge_now env)) d' \<le> tk_limit key
       \<and> Inr (Page rows next) = read_page tle (ge_read env) (tk_tenant key) no_filters (clamp_page limit) (cursor_value cursor) d"
proof -
  note c = assms
  from c show "gate_step (xo_sha x) cap d d'"
    by (cases rule: external_query_outcomes) (auto dest: audited_answer_cases(1) increment_txn(1) intro: gate_step_trans)
  from c show "third_party_api_keys d' = third_party_api_keys d"
    by (cases rule: external_query_outcomes) (auto dest!: audited_answer_cases(2) increment_txn(2))
  have m: "counter_value k m d \<le> counter_value k m s'"
    if "run_txn f (increment_external_gateway_rate_limit k1 m1) d = (z, s)" "rate_limit_counters s' = rate_limit_counters s" for f k1 m1 z s s'
    using increment_txn(3) [OF that(1)] counter_value_same [OF that(2)] by simp
  from c show "counter_value k m d \<le> counter_value k m d'"
  proof (cases rule: external_query_outcomes)
    case (refused key outcome s c)
    then show ?thesis using counter_value_same [OF audited_answer_cases(3) [OF refused]] by simp
  next
    case (failed key z)
    then show ?thesis using m [OF failed(1) refl] by simp
  next
    case (limited key n d1 s c)
    then show ?thesis using m [OF limited(1) audited_answer_cases(3) [OF limited(2)]] by simp
  next
    case (allowed key n d1)
    then show ?thesis using m [OF allowed(6) audited_answer_cases(3) [OF allowed(7)]] by simp
  qed simp
  assume y: "y = Inr (Page rows next)"
  from c show "\<exists>key. require_third_party_api_key x header d = Some key \<and> tk_status key = ''active'' \<and> gw_enabled gw
       \<and> ''events:read'' \<in> set (tk_scopes key)
       \<and> counter_value (tk_id key) (minute_window (ge_now env)) d' = counter_value (tk_id key) (minute_window (ge_now env)) d + 1
       \<and> counter_value (tk_id key) (minute_window (ge_now env)) d' \<le> tk_limit key
       \<and> Inr (Page rows next) = read_page tle (ge_read env) (tk_tenant key) no_filters (clamp_page limit) (cursor_value cursor) d"
  proof (cases rule: external_query_outcomes)
    case (allowed key n d1)
    note i = increment_txn(4,5) [OF allowed(6)] and a = audited_answer_cases(3,4,5) [OF allowed(7)]
    have "read_page tle (ge_read env) (tk_tenant key) no_filters (clamp_page limit) (cursor_value cursor) d'
        = read_page tle (ge_read env) (tk_tenant key) no_filters (clamp_page limit) (cursor_value cursor) d"
      by (rule read_page_same) (use i(1) a(2) in simp)
    then show ?thesis using allowed i(2) [OF refl] a(3) counter_value_same [OF a(1)] y by auto
  qed (use y in \<open>auto dest!: audited_answer_cases(5)\<close>)
qed

text \<open>Requests of any key, with other operations in between.\<close>

datatype gate_op = Read_events gate_env "string option" "int option" seq_cursor | Other_op "orch_db \<Rightarrow> orch_db"

fun is_page :: "py_exc + event_page \<Rightarrow> bool" where
  "is_page (Inr (Page _ _)) = True"
| "is_page _ = False"

definition served_for :: "orch_ext \<Rightarrow> ident \<Rightarrow> instant \<Rightarrow> gate_env \<Rightarrow> string option \<Rightarrow> orch_db \<Rightarrow> bool" where
  "served_for x k m env header d \<longleftrightarrow> minute_window (ge_now env) = m \<and> map_option tk_id (require_third_party_api_key x header d) = Some k"

fun served :: "orch_ext \<Rightarrow> (string \<Rightarrow> string \<Rightarrow> bool) \<Rightarrow> gateway_settings \<Rightarrow> ident \<Rightarrow> instant \<Rightarrow> gate_op list \<Rightarrow> orch_db \<Rightarrow> nat" where
  "served x tle gw k m [] d = 0"
| "served x tle gw k m (Other_op f # ops) d = served x tle gw k m ops (f d)"
| "served x tle gw k m (Read_events env header limit cursor # ops) d =
     (let (y, d') = external_query_events x tle gw env header limit cursor d in
      (if is_page y \<and> served_for x k m env header d then 1 else 0) + served x tle gw k m ops d')"

text \<open>Other operations leave the counters alone and never change the limit of the key.\<close>

definition limit_is :: "ident \<Rightarrow> int \<Rightarrow> orch_db \<Rightarrow> bool" where
  "limit_is k n d \<longleftrightarrow> (\<forall>key \<in> set (third_party_api_keys d). tk_id key = k \<longrightarrow> tk_limit key = n)"

fun harmless :: "ident \<Rightarrow> int \<Rightarrow> gate_op \<Rightarrow> bool" where
  "harmless k n (Other_op f) = (\<forall>d. rate_limit_counters (f d) = rate_limit_counters d \<and> (limit_is k n d \<longrightarrow> limit_is k n (f d)))"
| "harmless k n (Read_events _ _ _ _) = True"

lemma require_key_in: "require_third_party_api_key x header d = Some key \<Longrightarrow> key \<in> set (third_party_api_keys d)"
  by (auto simp: require_third_party_api_key_def get_third_party_api_key_by_hash_def split: option.splits if_splits dest: find_eq_Some_in)

lemma served_bounded:
  assumes "\<forall>op \<in> set ops. harmless k n op" "limit_is k n d"
  shows "int (served x tle gw k m ops d) + counter_value k m d \<le> max n (counter_value k m d)"
  using assms
proof (induction ops arbitrary: d)
  case (Cons op ops)
  show ?case
  proof (cases op)
    case (Other_op f)
    have "counter_value k m (f d) = counter_value k m d" by (rule counter_value_same) (use Cons.prems Other_op in simp)
    then show ?thesis using Cons.IH [of "f d"] Cons.prems Other_op by simp
  next
    case (Read_events env header limit cursor)
    obtain y d' where e: "external_query_events x tle gw env header limit cursor d = (y, d')" by force
    note o = external_query_cases [OF e]
    have l: "limit_is k n d'" using Cons.prems(2) o(2) by (simp add: limit_is_def)
    have IH: "int (served x tle gw k m ops d') + counter_value k m d' \<le> max n (counter_value k m d')" using Cons l by simp
    have "counter_value k m d' = counter_value k m d + 1 \<and> counter_value k m d' \<le> n" if p: "is_page y" "served_for x k m env header d"
    proof -
      obtain rows nxt where "y = Inr (Page rows nxt)" using p(1) by (cases y rule: is_page.cases) auto
      then show ?thesis using o(4) [of rows nxt] p(2) Cons.prems(2) by (auto simp: served_for_def limit_is_def dest: require_key_in)
    qed
    then show ?thesis using IH o(3) [of k m] e Read_events by auto
  qed
qed simp

section \<open>Pages\<close>

lemma list_events_rows:
  assumes "list_events tle sess f limit cursor d = (rows, nxt)"
  shows "\<forall>r \<in> set rows. r \<in> set (ingest_events d) \<and> ev_tenant r = CStr sess \<and> column_is ''tenant_id'' (ef_tenant f) r"
    "length rows \<le> limit" "nxt = None \<or> length rows = limit"
proof -
  define hits where "hits = sort_key ev_seq (filter (\<lambda>r. ev_tenant r = CStr sess \<and> (\<forall>c \<in> set_option cursor. c < ev_seq r)
            \<and> column_is ''tenant_id'' (ef_tenant f) r \<and> column_is ''team_id'' (ef_team f) r \<and> column_is ''agent_id'' (ef_agent f) r
            \<and> column_is ''event_type'' (ef_type f) r
            \<and> (\<forall>s \<in> set_option (ef_since f). text_at_least tle s (dget ''event_timestamp'' (ev_common r)))
            \<and> (\<forall>s \<in> set_option (ef_until f). text_below tle s (dget ''event_timestamp'' (ev_common r)))) (ingest_events d))"
  have c: "rows = take limit (take (limit + 1) hits) \<and> limit < length (take (limit + 1) hits)
      \<or> rows = take (limit + 1) hits \<and> length rows \<le> limit \<and> nxt = None"
    using assms by (auto simp: list_events_def Let_def hits_def [symmetric] not_less simp del: take_take length_take split: if_splits)
  then show "length rows \<le> limit" "nxt = None \<or> length rows = limit" by auto
  have "set rows \<subseteq> set hits" using c by (auto dest!: in_set_takeD)
  then show "\<forall>r \<in> set rows. r \<in> set (ingest_events d) \<and> ev_tenant r = CStr sess \<and> column_is ''tenant_id'' (ef_tenant f) r"
    by (auto simp: hits_def)
qed

text \<open>A filter with the caller's tenant in other letters passes the check and matches nothing.\<close>

lemma case_variant_empty:
  assumes "ef_tenant f = Some t" "map to_lower t = map to_lower caller" "t \<noteq> caller" "cursor \<noteq> Bad_cursor" "tenant_session caller = Inr ()"
  shows "query_events tle None f limit cursor caller d = Inr (Page [] None)"
proof -
  obtain rows nxt where l: "list_events tle caller f (nat (clamp_page limit)) (cursor_value cursor) d = (rows, nxt)" by force
  have "rows = []"
  proof (rule ccontr)
    assume "rows \<noteq> []"
    then have "hd rows \<in> set rows" by simp
    then show False using list_events_rows(1) [OF l] assms(1,3) by (fastforce simp: column_is_def ev_tenant_def)
  qed
  moreover have "nxt = None" using list_events_rows(3) [OF l] \<open>rows = []\<close> by (auto simp: clamp_page_def split: if_splits option.splits)
  ultimately show ?thesis using l assms by (simp add: query_events_def read_page_def)
qed

section \<open>Issuing and revoking\<close>

lemma operator_route_keeps:
  assumes "operator_route st auth handler s = (y, s')" "P s" "\<And>z t. handler s = (z, t) \<Longrightarrow> P t"
  shows "P s'"
  using assms by (auto simp: operator_route_def split: sum.splits option.splits)

lemma insert_key_ok:
  assumes "insert_third_party_api_key k d = Inr (r, d')" "count_third_party_api_keys (tk_tenant k) d < cap"
  shows "gate_step sha cap d d'"
proof -
  have "d' = d\<lparr>third_party_api_keys := third_party_api_keys d @ [k]\<rparr>" "tk_id k \<notin> tk_id ` set (third_party_api_keys d)"
    "tk_hash k \<notin> tk_hash ` set (third_party_api_keys d)" "1 \<le> tk_limit k"
    using assms(1) by (auto simp: insert_third_party_api_key_def bindR_eq_Inr table_simps)
  then show ?thesis using assms(2) by (auto simp: gate_step_def gate_frameI keys_ok_def count_third_party_api_keys_def)
qed

lemma issue_external_key_step:
  assumes "issue_external_key x st gw token env auth raw d = (y, d')"
  shows "gate_step sha (gw_max_keys gw) d d'"
  using assms [unfolded issue_external_key_def]
proof (rule operator_route_keeps)
  show "gate_step sha (gw_max_keys gw) d d" by simp
  fix z t
  assume h: "(case parse_body (xo_loads x) raw of
         Inl resp \<Rightarrow> (Inr resp, d)
       | Inr body \<Rightarrow>
           (case validate_issue_body gw body of
              Some code \<Rightarrow> (Inr (http_error 422 code), d)
            | None \<Rightarrow>
                (let plaintext = KEY_SECRET_PREFIX @ token (uuid_next d); (uuid, d0) = fresh_uuid (xo_u4 x) d;
                     k = new_key x gw body uuid plaintext (ro_now env) in
                 case ro_read env of Some e \<Rightarrow> (Inl e, d0) | None \<Rightarrow>
                 if count_third_party_api_keys (tk_tenant k) d0 \<ge> gw_max_keys gw then (Inr (http_error 422 ''key_limit_exceeded''), d0)
                 else (case run_txn (ro_write env) (insert_third_party_api_key k) d0 of
                   (Inl e, d1) \<Rightarrow> (Inl e, d1)
                 | (Inr inserted, d1) \<Rightarrow> (Inr (http_ok 201 (key_metadata_body inserted @ [(''api_key'', JStr plaintext)])), d1))))) = (z, t)"
  define d0 where "d0 = d\<lparr>uuid_next := Suc (uuid_next d)\<rparr>"
  have u: "gate_step sha (gw_max_keys gw) d d0" by (simp add: gate_step_def gate_frameI keys_ok_def count_third_party_api_keys_def d0_def)
  have i: "gate_step sha (gw_max_keys gw) d s" if "run_txn f (insert_third_party_api_key k) d0 = (v, s)" "count_third_party_api_keys (tk_tenant k) d0 < gw_max_keys gw" for f k v s
    using u gate_step_txn [OF that(1), of sha "gw_max_keys gw"] insert_key_ok [OF _ that(2)] gate_step_trans by blast
  show "gate_step sha (gw_max_keys gw) d t"
    using h u i by (auto simp: Let_def d0_def [symmetric] not_le split: sum.splits option.splits if_splits prod.splits)
qed

lemma revoke_external_key_step:
  assumes "revoke_external_key st env auth key_id d = (y, d')"
  shows "gate_step sha cap d d'"
  using assms [unfolded revoke_external_key_def]
proof (rule operator_route_keeps)
  fix z t
  assume h: "(case run_txn (ro_write env) (\<lambda>s. if \<not> no_nul key_id then Inl DataError else Inr (revoke_third_party_api_key key_id (ro_now env) s)) d of
         (Inl e, d1) \<Rightarrow> (Inl e, d1)
       | (Inr None, d1) \<Rightarrow> (Inr (http_error 404 ''not_found''), d1)
       | (Inr (Some k), d1) \<Rightarrow> (Inr (http_ok 200 (key_metadata_body k)), d1)) = (z, t)"
  have r: "gate_step sha cap d s" if "revoke_third_party_api_key key_id now d = (v, s)" for now v s
  proof -
    define ks where "ks = update_where (\<lambda>k. tk_id k = key_id) (\<lambda>k. k\<lparr>tk_status := ''revoked'', tk_revoked := Some now\<rparr>) (third_party_api_keys d)"
    have s: "s = d\<lparr>third_party_api_keys := ks\<rparr>" using that by (auto simp: revoke_third_party_api_key_def Let_def ks_def)
    have m: "map (\<lambda>k. (tk_id k, tk_hash k, tk_tenant k, tk_limit k)) ks = map (\<lambda>k. (tk_id k, tk_hash k, tk_tenant k, tk_limit k)) (third_party_api_keys d)"
      unfolding ks_def by (rule map_update_where_frame) simp
    have p: "map g ks = map g (third_party_api_keys d)" if "\<And>k. g k = h (tk_id k, tk_hash k, tk_tenant k, tk_limit k)" for g :: "api_key \<Rightarrow> 'b" and h
    proof -
      have "g = (\<lambda>k. h (tk_id k, tk_hash k, tk_tenant k, tk_limit k))" using that by auto
      then show ?thesis using arg_cong [OF m, of "map h"] by (simp add: comp_def)
    qed
    have l: "length (filter (\<lambda>k. tk_tenant k = t) xs) = length (filter (\<lambda>v. v = t) (map tk_tenant xs))" for t and xs :: "api_key list"
      by (simp add: filter_map comp_def)
    have "length (filter (\<lambda>k. tk_tenant k = t) ks) = length (filter (\<lambda>k. tk_tenant k = t) (third_party_api_keys d))" for t
      unfolding l by (subst p [of tk_tenant "\<lambda>(a, b, c, e). c"]) simp_all
    moreover have "map tk_id ks = map tk_id (third_party_api_keys d)" by (rule p [of tk_id fst]) simp
    moreover have "map tk_hash ks = map tk_hash (third_party_api_keys d)" by (rule p [of tk_hash "\<lambda>(a, b, c, e). b"]) simp
    moreover have "1 \<le> tk_limit k" if "k \<in> set ks" "\<forall>k \<in> set (third_party_api_keys d). 1 \<le> tk_limit k" for k
      using that by (auto simp: ks_def set_update_where)
    ultimately show ?thesis unfolding s by (auto simp: gate_step_def gate_frameI keys_ok_def count_third_party_api_keys_def)
  qed
  obtain v s where t: "run_txn (ro_write env) (\<lambda>s. if \<not> no_nul key_id then Inl DataError else Inr (revoke_third_party_api_key key_id (ro_now env) s)) d = (v, s)" by force
  have "gate_step sha cap d s" by (rule gate_step_txn [OF t]) (use r in \<open>auto split: if_splits\<close>)
  then show "gate_step sha cap d t" using h t by (auto split: sum.splits option.splits)
qed simp

end
