(* ===== verification/Orch_Side_Facts.thy ===== *)
theory Orch_Side_Facts
  imports Orch_Side Orch_Gateway_Facts
begin

text \<open>
  What the identity and the safety seams guarantee: one row per source and key, an append-only
  table, a link for every answered push, and no change outside the two tables and their chains.
  The contract of a seam is a locale, interpreted for both. The last lemma shows that the key is
  not the tenant's: a key that another tenant has used makes an event vanish with a 202.
\<close>

definition side_frame :: "orch_db \<Rightarrow> orch_db \<Rightarrow> bool" where
  "side_frame d d' \<longleftrightarrow> (\<exists>ie se a b. d' = d\<lparr>identity_events := ie, safety_events := se,
     chains := (chains d)\<lparr>identity_audit_log := a, safety_audit_log := b\<rparr>\<rparr>)"

lemma side_frameI:
  "side_frame d d"
  "side_frame d (d\<lparr>identity_events := ie\<rparr>)"
  "side_frame d (d\<lparr>safety_events := ie\<rparr>)"
  "side_frame d (d\<lparr>chains := (chains d)\<lparr>identity_audit_log := a\<rparr>\<rparr>)"
  "side_frame d (d\<lparr>chains := (chains d)\<lparr>safety_audit_log := a\<rparr>\<rparr>)"
  by (cases d; cases "chains d"; simp add: side_frame_def)+

lemma side_frame_trans: "side_frame d d' \<Longrightarrow> side_frame d' d'' \<Longrightarrow> side_frame d d''"
  unfolding side_frame_def by (elim exE) (simp, blast)

definition side_rows_ok :: "side_event list \<Rightarrow> bool" where
  "side_rows_ok rows \<longleftrightarrow> distinct (map side_key rows) \<and> sorted_wrt (<) (map sd_seq rows)"

definition side_ok :: "orch_db \<Rightarrow> bool" where
  "side_ok d \<longleftrightarrow> side_rows_ok (identity_events d) \<and> side_rows_ok (safety_events d)"

lemma side_rows_ok_insert:
  assumes "side_rows_ok rows" "side_key r \<notin> side_key ` set rows"
  shows "side_rows_ok (rows @ [r\<lparr>sd_seq := next_serial sd_seq rows\<rparr>])"
  using assms by (auto simp: side_rows_ok_def side_key_def sorted_wrt_append next_serial_greater)

definition side_link :: "side_event \<Rightarrow> string \<Rightarrow> chain_link \<Rightarrow> bool" where
  "side_link r disposition l \<longleftrightarrow> dget ''tenant_id'' (cl_data l) = CStr (sd_tenant r) \<and> dget ''source_product'' (cl_data l) = CStr (sd_source r)
     \<and> dget ''idempotency_key'' (cl_data l) = CStr (sd_key r) \<and> dget ''disposition'' (cl_data l) = CStr disposition"

section \<open>The contract of a seam\<close>

locale side_log =
  fixes seam :: side_seam and table :: "orch_db \<Rightarrow> side_event list" and log :: "orch_db \<Rightarrow> chain_link list"
  assumes insert_frame: "sm_insert seam sess r d = Inr (b, d') \<Longrightarrow> side_frame d d' \<and> chains d' = chains d"
    and insert_ok: "sm_insert seam sess r d = Inr (b, d') \<Longrightarrow> side_ok d \<Longrightarrow> side_ok d'"
    and insert_row: "sm_insert seam sess r d = Inr (b, d') \<Longrightarrow> (b \<longleftrightarrow> side_key r \<notin> side_key ` set (table d))
      \<and> table d' = table d @ (if b then [r\<lparr>sd_seq := next_serial sd_seq (table d)\<rparr>] else []) \<and> log d' = log d"
    and append_frame: "sm_append seam x r disposition d = Inr (u, d') \<Longrightarrow> side_frame d d' \<and> identity_events d' = identity_events d
      \<and> safety_events d' = safety_events d \<and> (chains_ok (xo_sha x) (chains d) \<longrightarrow> chains_ok (xo_sha x) (chains d'))"
    and append_row: "sm_append seam x r disposition d = Inr (u, d') \<Longrightarrow> table d' = table d \<and> (\<exists>l. log d' = log d @ [l] \<and> side_link r disposition l)"
begin

definition side_step :: "(string \<Rightarrow> string) \<Rightarrow> orch_db \<Rightarrow> orch_db \<Rightarrow> bool" where
  "side_step sha d d' \<longleftrightarrow> side_frame d d' \<and> (side_ok d \<longrightarrow> side_ok d') \<and> (chains_ok sha (chains d) \<longrightarrow> chains_ok sha (chains d'))
     \<and> prefix (table d) (table d')"

lemma side_step_refl: "side_step sha d d"
  by (simp add: side_step_def side_frameI(1))

lemma side_step_trans: "side_step sha d d' \<Longrightarrow> side_step sha d' d'' \<Longrightarrow> side_step sha d d''"
  unfolding side_step_def using side_frame_trans prefix_order.trans by blast

lemma insert_step: "sm_insert seam sess r d = Inr (b, d') \<Longrightarrow> side_step sha d d'"
  using insert_frame insert_ok insert_row by (auto simp: side_step_def split: if_splits)

lemma append_step: "sm_append seam x r disposition d = Inr (u, d') \<Longrightarrow> side_step (xo_sha x) d d'"
  using append_frame append_row by (auto simp: side_step_def side_ok_def)

lemma push_cases:
  assumes "push_side_event x aware seam st env auth raw d = (y, d')"
  obtains (untouched) "d' = d" "\<And>resp. y = Inr resp \<Longrightarrow> hr_status resp \<noteq> 202"
  | (unstored) r z where "run_txn (se_insert env) (sm_insert seam (sd_tenant r) r) d = (z, d')" "isl z" "isl y"
  | (stored) source body r b d1 z where "resolve_source (ss_tokens st) auth = Inr (Some source)" "xo_loads x raw = Some (JObj body)"
      "read_side_event aware seam source body (se_now env) = Inr (Some r)"
      "run_txn (se_insert env) (sm_insert seam (sd_tenant r) r) d = (Inr b, d1)"
      "run_txn (se_audit env) (sm_append seam x r (if b then ''accepted'' else ''duplicate'')) (se_race env d1) = (z, d')"
      "isl z \<and> isl y \<or> z = Inr () \<and> y = Inr (http_ok 202 [(''status'', JStr ''accepted''), (''disposition'', JStr (if b then ''accepted'' else ''duplicate''))])"
  using assms
  by (auto simp: push_side_event_def Let_def http_error_def http_ok_def split: sum.splits option.splits if_splits json.splits prod.splits)

lemma push_step:
  assumes "push_side_event x aware seam st env auth raw d = (y, d')" "\<And>s. side_step (xo_sha x) s (se_race env s)"
  shows "side_step (xo_sha x) d d'"
  using assms(1)
proof (cases rule: push_cases)
  case untouched
  then show ?thesis by (simp add: side_step_refl)
next
  case (unstored r z)
  show ?thesis using unstored(1) by (rule run_txn_preserves) (auto intro: insert_step side_step_refl)
next
  case (stored source body r b d1 z)
  have "side_step (xo_sha x) d d1" using stored(4) by (rule run_txn_preserves) (auto intro: insert_step side_step_refl)
  moreover have "side_step (xo_sha x) (se_race env d1) d'" using stored(5) by (rule run_txn_preserves) (auto intro: append_step side_step_refl)
  ultimately show ?thesis using assms(2) side_step_trans by blast
qed

text \<open>An answered push: the row of its key is there, and its link is in the chain.\<close>

lemma push_answered:
  assumes "push_side_event x aware seam st env auth raw d = (Inr resp, d')" "hr_status resp = 202" "se_race env = id"
  obtains source body r b where "resolve_source (ss_tokens st) auth = Inr (Some source)" "xo_loads x raw = Some (JObj body)"
    "read_side_event aware seam source body (se_now env) = Inr (Some r)"
    "b \<longleftrightarrow> side_key r \<notin> side_key ` set (table d)"
    "table d' = table d @ (if b then [r\<lparr>sd_seq := next_serial sd_seq (table d)\<rparr>] else [])"
    "\<exists>l. log d' = log d @ [l] \<and> side_link r (if b then ''accepted'' else ''duplicate'') l"
    "jget ''disposition'' (hr_body resp) = JStr (if b then ''accepted'' else ''duplicate'')"
  using assms(1)
proof (cases rule: push_cases)
  case untouched
  then show ?thesis using assms(2) by simp
next
  case (stored source body r b d1 z)
  have ok: "z = Inr ()" "resp = http_ok 202 [(''status'', JStr ''accepted''), (''disposition'', JStr (if b then ''accepted'' else ''duplicate''))]"
    using stored(6) by (meson sum.disc(2) sum.inject(2))+
  have i: "sm_insert seam (sd_tenant r) r d = Inr (b, d1)"
    using stored(4) by (cases rule: run_txn_cases) auto
  have a: "sm_append seam x r (if b then ''accepted'' else ''duplicate'') d1 = Inr ((), d')"
    using stored(5) ok(1) assms(3) by (cases rule: run_txn_cases) auto
  show ?thesis
    using that [OF stored(1-3)] insert_row [OF i] append_row [OF a] ok(2) by (simp add: jget_def)
qed simp

end

section \<open>Both seams\<close>

lemma append_side_Inr:
  "append_identity x r disposition d = Inr (u, d') \<Longrightarrow> \<exists>l. d' = d\<lparr>chains := (chains d)\<lparr>identity_audit_log := identity_audit_log (chains d) @ [l]\<rparr>\<rparr>
     \<and> side_link r disposition l \<and> (chains_ok (xo_sha x) (chains d) \<longrightarrow> chains_ok (xo_sha x) (chains d'))"
  "append_safety x r disposition d = Inr (u, d') \<Longrightarrow> \<exists>l. d' = d\<lparr>chains := (chains d)\<lparr>safety_audit_log := safety_audit_log (chains d) @ [l]\<rparr>\<rparr>
     \<and> side_link r disposition l \<and> (chains_ok (xo_sha x) (chains d) \<longrightarrow> chains_ok (xo_sha x) (chains d'))"
proof -
  assume a: "append_identity x r disposition d = Inr (u, d')"
  have "chains_ok (xo_sha x) (chains d) \<longrightarrow> chains_ok (xo_sha x) (chains d')"
    using a by (auto simp: append_identity_def bindR_eq_Inr dest: chains_ok_append(5))
  with a show "\<exists>l. d' = d\<lparr>chains := (chains d)\<lparr>identity_audit_log := identity_audit_log (chains d) @ [l]\<rparr>\<rparr>
     \<and> side_link r disposition l \<and> (chains_ok (xo_sha x) (chains d) \<longrightarrow> chains_ok (xo_sha x) (chains d'))"
    by (auto simp: append_identity_def append_identity_audit_link_def Let_def bindR_eq_Inr insert_link_def side_link_def dget_def split: if_splits)
next
  assume a: "append_safety x r disposition d = Inr (u, d')"
  have "chains_ok (xo_sha x) (chains d) \<longrightarrow> chains_ok (xo_sha x) (chains d')"
    using a by (auto simp: append_safety_def bindR_eq_Inr dest: chains_ok_append(11))
  with a show "\<exists>l. d' = d\<lparr>chains := (chains d)\<lparr>safety_audit_log := safety_audit_log (chains d) @ [l]\<rparr>\<rparr>
     \<and> side_link r disposition l \<and> (chains_ok (xo_sha x) (chains d) \<longrightarrow> chains_ok (xo_sha x) (chains d'))"
    by (auto simp: append_safety_def append_safety_audit_link_def Let_def bindR_eq_Inr insert_link_def side_link_def dget_def split: if_splits)
qed

lemma insert_side_Inr:
  assumes "insert_side_event widths sess r rows = Inr (b, rows')"
  shows "b \<longleftrightarrow> side_key r \<notin> side_key ` set rows" "rows' = rows @ (if b then [r\<lparr>sd_seq := next_serial sd_seq rows\<rparr>] else [])"
    "side_rows_ok rows \<Longrightarrow> side_rows_ok rows'"
  using assms side_rows_ok_insert [of rows r]
  by (auto simp: insert_side_event_def bindR_eq_Inr insert_nothing_def side_key_def split: if_splits)

interpretation identity_log: side_log identity_seam identity_events "\<lambda>d. identity_audit_log (chains d)"
proof
  fix x r disposition d u d' assume a: "sm_append identity_seam x r disposition d = Inr (u, d')"
  then have "append_identity x r disposition d = Inr (u, d')" by (simp add: identity_seam_def)
  with append_side_Inr(1) [OF this] show "side_frame d d' \<and> identity_events d' = identity_events d \<and> safety_events d' = safety_events d
      \<and> (chains_ok (xo_sha x) (chains d) \<longrightarrow> chains_ok (xo_sha x) (chains d'))"
    "identity_events d' = identity_events d \<and> (\<exists>l. identity_audit_log (chains d') = identity_audit_log (chains d) @ [l] \<and> side_link r disposition l)"
    by (auto simp: side_frameI(4))
qed (auto simp: identity_seam_def insert_identity_event_def bindR_eq_Inr side_frameI(2) side_ok_def dest: insert_side_Inr)

interpretation safety_log: side_log safety_seam safety_events "\<lambda>d. safety_audit_log (chains d)"
proof
  fix x r disposition d u d' assume a: "sm_append safety_seam x r disposition d = Inr (u, d')"
  then have "append_safety x r disposition d = Inr (u, d')" by (simp add: safety_seam_def)
  with append_side_Inr(2) [OF this] show "side_frame d d' \<and> identity_events d' = identity_events d \<and> safety_events d' = safety_events d
      \<and> (chains_ok (xo_sha x) (chains d) \<longrightarrow> chains_ok (xo_sha x) (chains d'))"
    "safety_events d' = safety_events d \<and> (\<exists>l. safety_audit_log (chains d') = safety_audit_log (chains d) @ [l] \<and> side_link r disposition l)"
    by (auto simp: side_frameI(5))
qed (auto simp: safety_seam_def insert_safety_event_def bindR_eq_Inr side_frameI(3) side_ok_def dest: insert_side_Inr)

end
