(* ===== verification/Orch_Relay.thy ===== *)
theory Orch_Relay
  imports Orch_Registry
begin

text \<open>
  The governed relay (\<open>orchestrator.relay\<close>): a product's request is sent once to a registered,
  enabled and healthy Sentinel whose endpoint passes validation again, and every outcome is
  recorded in a chain. The HTTP call is a parameter that changes a state of type \<open>'w\<close>.
\<close>

text \<open>What the call gives: a status with its body and content type, a transport error (which the code
  catches), or any other exception.\<close>

datatype relay_result = Relay_response int string string | Relay_transport | Relay_raised py_exc

datatype relay_outcome = Relayed int string string | Relay_error int string

record relay_env =
  rv_decode :: "py_exc option"
  rv_read :: "py_exc option"
  rv_now :: instant
  rv_dns :: "string \<Rightarrow> dns_answer"
  rv_audit :: txn_fault

record relay_job =
  rj_sentinel :: ident
  rj_path :: string
  rj_tenant :: ident
  rj_source :: string
  rj_body :: string
  rj_auth :: string

definition append_relay ::
  "orch_ext \<Rightarrow> relay_job \<Rightarrow> string \<Rightarrow> int option \<Rightarrow> string option \<Rightarrow> orch_db \<Rightarrow> py_exc + unit \<times> orch_db" where
  "append_relay x j disposition status err d =
     bindR (append_relay_audit_link (xo_sha x) (rj_tenant j) (rj_source j) (rj_sentinel j) (rj_path j) disposition status
       (Some (xo_sha x (rj_body j))) err (relay_audit_log (chains d))) (\<lambda>(_, rows).
     Inr ((), d\<lparr>chains := (chains d)\<lparr>relay_audit_log := rows\<rparr>\<rparr>))"

text \<open>The link is written, then the outcome is returned or raised.\<close>

definition relay_audit ::
  "orch_ext \<Rightarrow> relay_env \<Rightarrow> relay_job \<Rightarrow> string \<Rightarrow> int option \<Rightarrow> string option \<Rightarrow> relay_outcome \<Rightarrow> orch_db \<times> 'w
     \<Rightarrow> (py_exc + relay_outcome) \<times> orch_db \<times> 'w" where
  "relay_audit x env j disposition status err outcome s =
     (case run_txn (rv_audit env) (append_relay x j disposition status err) (fst s) of
        (Inl e, d') \<Rightarrow> (Inl e, d', snd s)
      | (Inr _, d') \<Rightarrow> (Inr outcome, d', snd s))"

definition relay_blocked ::
  "orch_ext \<Rightarrow> relay_env \<Rightarrow> relay_job \<Rightarrow> string \<Rightarrow> orch_db \<times> 'w \<Rightarrow> (py_exc + relay_outcome) \<times> orch_db \<times> 'w" where
  "relay_blocked x env j reason = relay_audit x env j ''blocked'' None (Some reason) (Relay_error 503 reason)"

definition relay_request ::
  "orch_ext \<Rightarrow> url_ext \<Rightarrow> coordination_settings \<Rightarrow> relay_env \<Rightarrow> (string \<Rightarrow> string \<Rightarrow> string \<Rightarrow> 'w \<Rightarrow> relay_result \<times> 'w)
     \<Rightarrow> relay_job \<Rightarrow> orch_db \<times> 'w \<Rightarrow> (py_exc + relay_outcome) \<times> orch_db \<times> 'w" where
  "relay_request x u st env post j s =
     (case rv_read env of Some e \<Rightarrow> (Inl e, s) | None \<Rightarrow>
      (case get_sentinel (rj_sentinel j) (fst s) of
         None \<Rightarrow> relay_blocked x env j ''unknown_target'' s
       | Some r \<Rightarrow>
      if \<not> sr_enabled r then relay_blocked x env j ''target_disabled'' s
      else (let health = effective_health_status (co_staleness st) (rv_now env) r in
      if health \<noteq> ''healthy'' then relay_blocked x env j (''target_'' @ health) s
      else (case validate_endpoint u (rv_dns env) (co_allowlist st) (co_allow_http st) (sr_endpoint r) of
         Inl (Reg_endpoint reason) \<Rightarrow> relay_blocked x env j (''invalid_endpoint:'' @ reason) s
       | Inl (Reg_raised e) \<Rightarrow> (Inl e, s)
       | Inl _ \<Rightarrow> (Inl RuntimeError, s)
       | Inr validated \<Rightarrow>
           (case post (rstrip_slash validated @ rj_path j) (BEARER_PREFIX @ rj_auth j) (rj_body j) (snd s) of
              (Relay_raised e, w1) \<Rightarrow> (Inl e, fst s, w1)
            | (Relay_transport, w1) \<Rightarrow>
                relay_audit x env j ''failed'' None (Some ''connect_error'') (Relay_error 502 ''connect_error'') (fst s, w1)
            | (Relay_response status body content_type, w1) \<Rightarrow>
                relay_audit x env j ''forwarded'' (Some status) None (Relayed status body content_type) (fst s, w1))))))"

text \<open>The checks of a body: the job, or the status and code of the error.\<close>

definition relay_job_of ::
  "relay_settings \<Rightarrow> string \<Rightarrow> string \<Rightarrow> (string \<times> json) list \<Rightarrow> (int \<times> string) + relay_job" where
  "relay_job_of rs source auth body =
     (if \<not> only_keys [''tenant_id'', ''sentinel_id'', ''target_path'', ''payload''] body then Inl (422, ''schema_invalid'')
      else if contains_nul (JObj body) then Inl (422, ''schema_invalid'')
      else if \<not> nonempty_text (jget ''tenant_id'' body) then Inl (422, ''schema_invalid'')
      else if \<not> nonempty_text (jget ''sentinel_id'' body) then Inl (422, ''schema_invalid'')
      else if jget ''target_path'' body \<notin> JStr ` set (rs_paths rs) then Inl (422, ''path_not_allowed'')
      else case jget ''payload'' body of
        JObj payload \<Rightarrow>
          if jget ''stream'' payload = JBool True then Inl (422, ''streaming_not_supported'')
          else Inr \<lparr>rj_sentinel = jstring (jget ''sentinel_id'' body), rj_path = jstring (jget ''target_path'' body),
                    rj_tenant = jstring (jget ''tenant_id'' body), rj_source = source, rj_body = json_dumps False (JObj payload),
                    rj_auth = auth\<rparr>
      | _ \<Rightarrow> Inl (422, ''schema_invalid''))"

definition relay_dispatch ::
  "orch_ext \<Rightarrow> url_ext \<Rightarrow> coordination_settings \<Rightarrow> relay_env \<Rightarrow> (string \<Rightarrow> string \<Rightarrow> string \<Rightarrow> 'w \<Rightarrow> relay_result \<times> 'w)
     \<Rightarrow> string option \<Rightarrow> string option \<Rightarrow> string \<Rightarrow> orch_db \<times> 'w \<Rightarrow> (py_exc + relay_outcome) \<times> orch_db \<times> 'w" where
  "relay_dispatch x u st env post authorization sentinel_auth raw s =
     (case resolve_source (rs_tokens (co_relay st)) authorization of
        Inl e \<Rightarrow> (Inl e, s)
      | Inr None \<Rightarrow> (Inr (Relay_error 401 ''unauthorized''), s)
      | Inr (Some source) \<Rightarrow>
     if sentinel_auth \<in> {None, Some []} then (Inr (Relay_error 401 ''unauthorized''), s)
     else if int (length raw) > rs_max_body (co_relay st) then (Inr (Relay_error 413 ''request_too_large''), s)
     else case rv_decode env of Some e \<Rightarrow> (Inl e, s) | None \<Rightarrow>
     (case xo_loads x raw of
        Some (JObj body) \<Rightarrow>
          (case relay_job_of (co_relay st) source (the sentinel_auth) body of
             Inl (status, code) \<Rightarrow> (Inr (Relay_error status code), s)
           | Inr j \<Rightarrow> relay_request x u st env post j s)
      | _ \<Rightarrow> (Inr (Relay_error 422 ''schema_invalid''), s)))"

end
