(* ===== verification/Orch_Relay_Facts.thy ===== *)
theory Orch_Relay_Facts
  imports Orch_Relay Orch_Registry_Facts
begin

text \<open>
  What the relay guarantees: at most one call per request, only to a registered, enabled and
  freshly healthy Sentinel whose endpoint is safe, only below an allowed path and for a source
  whose token was presented; every answer has its link in the chain; nothing else changes.
\<close>

definition relay_frame :: "orch_db \<Rightarrow> orch_db \<Rightarrow> bool" where
  "relay_frame d d' \<longleftrightarrow> (\<exists>a. d' = d\<lparr>chains := (chains d)\<lparr>relay_audit_log := a\<rparr>\<rparr>)"

lemma relay_frame_refl [simp]: "relay_frame d d"
  by (cases d; cases "chains d"; simp add: relay_frame_def)

definition relayable :: "url_ext \<Rightarrow> coordination_settings \<Rightarrow> (string \<Rightarrow> dns_answer) \<Rightarrow> instant \<Rightarrow> sentinel_row \<Rightarrow> bool" where
  "relayable u st dns now r \<longleftrightarrow> sr_enabled r \<and> sr_health r = ''healthy''
     \<and> (0 < co_staleness st \<longrightarrow> (\<exists>t. sr_checked r = Some t \<and> now - t \<le> co_staleness st * 1000000))
     \<and> endpoint_safe u dns (co_allowlist st) (co_allow_http st) (sr_endpoint r)"

definition relay_link :: "orch_ext \<Rightarrow> relay_job \<Rightarrow> string \<Rightarrow> int option \<Rightarrow> chain_link \<Rightarrow> bool" where
  "relay_link x j disposition status l \<longleftrightarrow> dget ''tenant_id'' (cl_data l) = CStr (rj_tenant j) \<and> dget ''sentinel_id'' (cl_data l) = CStr (rj_sentinel j)
     \<and> dget ''source_product'' (cl_data l) = CStr (rj_source j) \<and> dget ''target_path'' (cl_data l) = CStr (rj_path j)
     \<and> dget ''disposition'' (cl_data l) = CStr disposition \<and> dget ''status_code'' (cl_data l) = opt_int_cell status
     \<and> dget ''content_hash'' (cl_data l) = CStr (xo_sha x (rj_body j))"

lemma append_relay_ok:
  "append_relay x j disposition status err d = Inr (u, d') \<Longrightarrow> chains_ok (xo_sha x) (chains d) \<Longrightarrow> chains_ok (xo_sha x) (chains d')"
  by (auto simp: append_relay_def bindR_eq_Inr dest: chains_ok_append(4))

lemma append_relay_Inr:
  assumes "append_relay x j disposition status err d = Inr (u, d')"
  shows "\<exists>l. d' = d\<lparr>chains := (chains d)\<lparr>relay_audit_log := relay_audit_log (chains d) @ [l]\<rparr>\<rparr> \<and> relay_link x j disposition status l"
  using assms
  by (auto simp: append_relay_def append_relay_audit_link_def Let_def bindR_eq_Inr insert_link_def relay_link_def dget_def opt_cell_def
      split: if_splits)

definition relay_step :: "(string \<Rightarrow> string) \<Rightarrow> orch_db \<Rightarrow> orch_db \<Rightarrow> bool" where
  "relay_step sha d d' \<longleftrightarrow> relay_frame d d' \<and> (chains_ok sha (chains d) \<longrightarrow> chains_ok sha (chains d'))"

lemma relay_step_refl [simp]: "relay_step sha d d"
  by (simp add: relay_step_def)

lemma relay_audit_cases:
  assumes "relay_audit x env j disposition status err outcome s = (y, d', w')"
  shows "w' = snd s" "relay_step (xo_sha x) (fst s) d'"
    "y = Inr out \<Longrightarrow> out = outcome \<and> (\<exists>l. relay_audit_log (chains d') = relay_audit_log (chains (fst s)) @ [l] \<and> relay_link x j disposition status l)"
proof -
  obtain z d1 where z: "run_txn (rv_audit env) (append_relay x j disposition status err) (fst s) = (z, d1)" by fastforce
  have e: "d' = d1" "w' = snd s" "y = (case z of Inl e \<Rightarrow> Inl e | Inr _ \<Rightarrow> Inr outcome)"
    using assms z by (auto simp: relay_audit_def split: sum.splits)
  show "w' = snd s" by (fact e)
  show "relay_step (xo_sha x) (fst s) d'" unfolding e(1)
    using z by (rule run_txn_preserves) (auto simp: relay_step_def relay_frame_def dest: append_relay_Inr append_relay_ok)
  show "out = outcome \<and> (\<exists>l. relay_audit_log (chains d') = relay_audit_log (chains (fst s)) @ [l] \<and> relay_link x j disposition status l)"
    if "y = Inr out"
    using z that e by (cases rule: run_txn_cases) (auto dest!: append_relay_Inr)
qed

text \<open>The link that belongs to an outcome.\<close>

fun outcome_link :: "orch_ext \<Rightarrow> relay_job \<Rightarrow> relay_outcome \<Rightarrow> chain_link \<Rightarrow> bool" where
  "outcome_link x j (Relayed status _ _) l = relay_link x j ''forwarded'' (Some status) l"
| "outcome_link x j (Relay_error n _) l = relay_link x j (if n = 502 then ''failed'' else ''blocked'') None l"

lemma relay_audit_outcome:
  assumes "relay_audit x env j disposition status err outcome (d, w) = (y, d', w')"
    "\<And>l. relay_link x j disposition status l \<Longrightarrow> outcome_link x j outcome l"
  shows "relay_step (xo_sha x) d d' \<and> w' = w
      \<and> (\<forall>out. y = Inr out \<longrightarrow> (\<exists>l. relay_audit_log (chains d') = relay_audit_log (chains d) @ [l] \<and> outcome_link x j out l))"
  using relay_audit_cases(1,2) [OF assms(1)] relay_audit_cases(3) [OF assms(1)] assms(2) by auto

lemma relay_request_cases:
  assumes "relay_request x u st env post j (d, w) = (y, d', w')"
  shows "relay_step (xo_sha x) d d'"
    "w' = w \<or> (\<exists>r \<in> set (sentinel_registry d). sr_id r = rj_sentinel j \<and> relayable u st (rv_dns env) (rv_now env) r
       \<and> (\<exists>res. post (rstrip_slash (strip (sr_endpoint r)) @ rj_path j) (BEARER_PREFIX @ rj_auth j) (rj_body j) w = (res, w')))"
    "y = Inr out \<Longrightarrow> \<exists>l. relay_audit_log (chains d') = relay_audit_log (chains d) @ [l] \<and> outcome_link x j out l"
proof -
  have blocked: "relay_step (xo_sha x) d d' \<and> w' = w
      \<and> (\<forall>out. y = Inr out \<longrightarrow> (\<exists>l. relay_audit_log (chains d') = relay_audit_log (chains d) @ [l] \<and> outcome_link x j out l))"
    if "relay_blocked x env j reason (d, w) = (y, d', w')" for reason
    using relay_audit_outcome [OF that [unfolded relay_blocked_def]] by simp
  consider (raised) e where "y = Inl e" "d' = d" "w' = w"
    | (blocked) reason where "relay_blocked x env j reason (d, w) = (y, d', w')"
    | (called) r validated res w1 where "get_sentinel (rj_sentinel j) d = Some r" "sr_enabled r"
        "effective_health_status (co_staleness st) (rv_now env) r = ''healthy''"
        "validate_endpoint u (rv_dns env) (co_allowlist st) (co_allow_http st) (sr_endpoint r) = Inr validated"
        "post (rstrip_slash validated @ rj_path j) (BEARER_PREFIX @ rj_auth j) (rj_body j) w = (res, w1)"
        "(case res of Relay_raised e \<Rightarrow> (Inl e, d, w1)
          | Relay_transport \<Rightarrow> relay_audit x env j ''failed'' None (Some ''connect_error'') (Relay_error 502 ''connect_error'') (d, w1)
          | Relay_response status body ct \<Rightarrow> relay_audit x env j ''forwarded'' (Some status) None (Relayed status body ct) (d, w1)) = (y, d', w')"
    using assms
    by (cases "rv_read env"; cases "get_sentinel (rj_sentinel j) d")
       (auto simp: relay_request_def Let_def split: if_splits sum.splits reg_error.splits prod.splits relay_result.splits)
  then have "relay_step (xo_sha x) d d' \<and> (w' = w \<or> (\<exists>r \<in> set (sentinel_registry d). sr_id r = rj_sentinel j \<and> relayable u st (rv_dns env) (rv_now env) r
       \<and> (\<exists>res. post (rstrip_slash (strip (sr_endpoint r)) @ rj_path j) (BEARER_PREFIX @ rj_auth j) (rj_body j) w = (res, w'))))
     \<and> (\<forall>out. y = Inr out \<longrightarrow> (\<exists>l. relay_audit_log (chains d') = relay_audit_log (chains d) @ [l] \<and> outcome_link x j out l))"
  proof cases
    case (called r validated res w1)
    have v: "validated = strip (sr_endpoint r)" "endpoint_safe u (rv_dns env) (co_allowlist st) (co_allow_http st) (sr_endpoint r)"
      using validate_endpoint_safe [OF called(4)] by auto
    have r: "r \<in> set (sentinel_registry d)" "sr_id r = rj_sentinel j"
      using called(1) by (auto simp: get_sentinel_def find_Some_iff)
    have "relayable u st (rv_dns env) (rv_now env) r"
      using called(2,3) v(2) by (simp add: relayable_def effective_healthy)
    moreover have "relay_step (xo_sha x) d d' \<and> w' = w1
        \<and> (\<forall>out. y = Inr out \<longrightarrow> (\<exists>l. relay_audit_log (chains d') = relay_audit_log (chains d) @ [l] \<and> outcome_link x j out l))"
      using called(6) by (cases res) (auto dest!: relay_audit_outcome)
    ultimately show ?thesis using r called(5) v(1) by blast
  qed (use blocked in auto)
  then show "relay_step (xo_sha x) d d'"
    "w' = w \<or> (\<exists>r \<in> set (sentinel_registry d). sr_id r = rj_sentinel j \<and> relayable u st (rv_dns env) (rv_now env) r
       \<and> (\<exists>res. post (rstrip_slash (strip (sr_endpoint r)) @ rj_path j) (BEARER_PREFIX @ rj_auth j) (rj_body j) w = (res, w')))"
    "y = Inr out \<Longrightarrow> \<exists>l. relay_audit_log (chains d') = relay_audit_log (chains d) @ [l] \<and> outcome_link x j out l" by blast+
qed

section \<open>The route\<close>

lemma match_source_in:
  "match_source presented tokens matched = Inr (Some p) \<Longrightarrow> (p, presented) \<in> set tokens \<or> matched = Some p"
proof (induction tokens arbitrary: matched)
  case (Cons t tokens)
  obtain product token where t: "t = (product, token)" by fastforce
  obtain b where "compare_digest presented token = Inr b" "match_source presented tokens (if b then Some product else matched) = Inr (Some p)"
    using Cons.prems by (auto simp: t bindR_eq_Inr)
  then show ?case using Cons.IH [of "if b then Some product else matched"]
    by (auto simp: t compare_digest_def split: if_splits)
qed simp

lemma resolve_source_in:
  assumes "resolve_source tokens auth = Inr (Some p)"
  shows "\<exists>presented. auth = Some (BEARER_PREFIX @ presented) \<and> (p, presented) \<in> set tokens"
  using assms match_source_in
  by (fastforce simp: resolve_source_def Let_def prefix_def BEARER_PREFIX_def split: if_splits option.splits)

lemma relay_dispatch_cases:
  assumes "relay_dispatch x u st env post auth sauth raw (d, w) = (y, d', w')"
  obtains (refused) "d' = d" "w' = w" "\<And>s b c. y \<noteq> Inr (Relayed s b c)"
  | (sent) source presented body j where "auth = Some (BEARER_PREFIX @ presented)" "(source, presented) \<in> set (rs_tokens (co_relay st))"
      "xo_loads x raw = Some (JObj body)" "relay_job_of (co_relay st) source (the sauth) body = Inr j"
      "relay_request x u st env post j (d, w) = (y, d', w')"
proof -
  consider "d' = d" "w' = w" "\<And>s b c. y \<noteq> Inr (Relayed s b c)"
    | source body j where "resolve_source (rs_tokens (co_relay st)) auth = Inr (Some source)" "xo_loads x raw = Some (JObj body)"
        "relay_job_of (co_relay st) source (the sauth) body = Inr j" "relay_request x u st env post j (d, w) = (y, d', w')"
    using assms by (auto simp: relay_dispatch_def split: sum.splits option.splits if_splits json.splits prod.splits)
  then show ?thesis using that resolve_source_in by cases metis+
qed

lemma relay_job_facts:
  assumes "relay_job_of rs source auth body = Inr j"
  shows "rj_source j = source" "rj_path j \<in> set (rs_paths rs)" "\<exists>payload. jget ''payload'' body = JObj payload \<and> rj_body j = json_dumps False (JObj payload)"
    "rj_auth j = auth"
  using assms by (auto simp: relay_job_of_def jstring_def split: if_splits json.splits)

text \<open>The one call that a request may cause.\<close>

lemma relay_call:
  assumes "relay_dispatch x u st env post auth sauth raw (d, w) = (y, d', w')" "w' \<noteq> w"
  obtains presented and j :: relay_job and r res where "auth = Some (BEARER_PREFIX @ presented)" "(rj_source j, presented) \<in> set (rs_tokens (co_relay st))"
    "rj_path j \<in> set (rs_paths (co_relay st))" "r \<in> set (sentinel_registry d)" "sr_id r = rj_sentinel j"
    "relayable u st (rv_dns env) (rv_now env) r"
    "post (rstrip_slash (strip (sr_endpoint r)) @ rj_path j) (BEARER_PREFIX @ the sauth) (rj_body j) w = (res, w')"
  using assms(1)
proof (cases rule: relay_dispatch_cases)
  case refused
  then show ?thesis using assms(2) by simp
next
  case (sent source presented body j)
  note job = relay_job_facts [OF sent(4)]
  obtain r res where "r \<in> set (sentinel_registry d)" "sr_id r = rj_sentinel j" "relayable u st (rv_dns env) (rv_now env) r"
    "post (rstrip_slash (strip (sr_endpoint r)) @ rj_path j) (BEARER_PREFIX @ rj_auth j) (rj_body j) w = (res, w')"
    using relay_request_cases(2) [OF sent(5)] assms(2) by blast
  then show ?thesis using that [of presented j r res] sent(1,2) job(1,2,4) by simp
qed

lemma relay_logged:
  assumes "relay_dispatch x u st env post auth sauth raw (d, w) = (y, d', w')"
  shows "relay_frame d d'"
    "y = Inr (Relayed status body ct) \<Longrightarrow> \<exists>j l. rj_path j \<in> set (rs_paths (co_relay st))
      \<and> relay_audit_log (chains d') = relay_audit_log (chains d) @ [l] \<and> relay_link x j ''forwarded'' (Some status) l"
proof -
  have "relay_frame d d' \<and> (y = Inr (Relayed status body ct) \<longrightarrow> (\<exists>j l. rj_path j \<in> set (rs_paths (co_relay st))
      \<and> relay_audit_log (chains d') = relay_audit_log (chains d) @ [l] \<and> relay_link x j ''forwarded'' (Some status) l))"
    using assms
  proof (cases rule: relay_dispatch_cases)
    case (sent source presented b j)
    then show ?thesis using relay_request_cases(1,3) [OF sent(5)] relay_job_facts(2) [OF sent(4)] by (fastforce simp: relay_step_def)
  qed simp
  then show "relay_frame d d'" "y = Inr (Relayed status body ct) \<Longrightarrow> \<exists>j l. rj_path j \<in> set (rs_paths (co_relay st))
      \<and> relay_audit_log (chains d') = relay_audit_log (chains d) @ [l] \<and> relay_link x j ''forwarded'' (Some status) l" by blast+
qed

end
