(* ===== verification/Orch_System.thy ===== *)
theory Orch_System
  imports Orch_Dispatch_Facts Orch_Messaging_Facts Orch_Side_Facts Orch_Relay_Facts
begin

text \<open>
  The Orchestrator as one system: every handler and background task that writes is a step of a
  transition relation on the database and the outside world, and the invariants of the components
  hold together in every reachable state. Each request is one step here; what its own
  transactions allow to interleave is treated with the components.
\<close>

section \<open>Frames of the remaining handlers\<close>

definition ingest_frame :: "orch_db \<Rightarrow> orch_db \<Rightarrow> bool" where
  "ingest_frame d d' \<longleftrightarrow> (\<exists>es fs qs a n. d' = d\<lparr>ingest_events := es, forward_outbox := fs, dead_letter_queue := qs,
     chains := (chains d)\<lparr>ingest_audit_log := a\<rparr>, uuid_next := n\<rparr>
     \<and> (\<forall>r \<in> set fs. r \<in> set (forward_outbox d) \<or> fo_status r = ''pending''))"

lemma ingest_frameI:
  "ingest_frame d d"
  "ingest_frame d (d\<lparr>uuid_next := n\<rparr>)"
  "fo_status r = ''pending'' \<Longrightarrow> ingest_frame d (d\<lparr>ingest_events := es, forward_outbox := forward_outbox d @ [r]\<rparr>)"
  "ingest_frame d (d\<lparr>chains := (chains d)\<lparr>ingest_audit_log := a\<rparr>\<rparr>)"
  "ingest_frame d (d\<lparr>uuid_next := n, dead_letter_queue := qs, chains := (chains d)\<lparr>ingest_audit_log := a\<rparr>\<rparr>)"
  by (cases d; cases "chains d"; simp add: ingest_frame_def)+

lemma ingest_frame_trans: "ingest_frame d d' \<Longrightarrow> ingest_frame d' d'' \<Longrightarrow> ingest_frame d d''"
  unfolding ingest_frame_def by (elim exE conjE, hypsubst) (simp, blast)

lemma pipeline_dead_letter_frame:
  assumes "pipeline_dead_letter x env envelope payload reason d = (res, d')" "ig_race2 env = id"
  shows "ingest_frame d d'"
proof -
  define m where "m = (\<lambda>s. bindR (insert_dead_letter
      \<lparr>dq_id = xo_u4 x (uuid_next d), dq_envelope = JObj envelope, dq_reason = reason, dq_attempts = 1,
       dq_first_failed_at = ig_utcnow_z env, dq_event_type = jstring (jget ''event_type'' envelope),
       dq_source = jstring (jget ''source_product'' envelope), dq_sequence = jget ''sequence'' envelope,
       dq_tenant = dget ''tenant_id'' (extract_common payload)\<rparr> s)
      (append_ingest_link x (chain_fields envelope payload) DEAD_LETTERED (Some reason) (Some (xo_u4 x (uuid_next d)))))"
  obtain y d2 where y: "run_txn (ig_record env) m (d\<lparr>uuid_next := Suc (uuid_next d)\<rparr>) = (y, d2)" by fastforce
  have "d' = d2" using assms y by (auto simp: pipeline_dead_letter_def m_def Let_def split: sum.splits)
  moreover have "ingest_frame d d2"
    using y by (rule run_txn_preserves)
      (auto simp: m_def bindR_eq_Inr dest!: insert_dead_letter_Inr elim!: append_ingest_link_Inr intro: ingest_frameI)
  ultimately show ?thesis by simp
qed

lemma persist_or_dedup_frame:
  assumes "persist_or_dedup env t k h r i e d = (res, d')" "ig_race env = id"
  shows "ingest_frame d d'"
proof -
  define m where "m = (\<lambda>s. bindR (insert_ingest_event t r s) (\<lambda>s1. bindR (insert_forward_outbox t i t e k (ig_now env) s1) (\<lambda>s2. Inr ((), s2))))"
  obtain y d2 where y: "run_txn (ig_persist env) m d = (y, d2)" by fastforce
  have "d' = d \<or> d' = d2"
    using assms y by (auto simp: persist_or_dedup_def m_def split: sum.splits option.splits if_splits)
  moreover have "ingest_frame d d2"
    using y by (rule run_txn_preserves)
      (auto simp: m_def bindR_eq_Inr dest!: insert_ingest_event_Inr(1) insert_forward_outbox_Inr intro: ingest_frameI)
  ultimately show ?thesis using ingest_frameI(1) by blast
qed

lemma record_envelope_frame:
  assumes "record_envelope x env envelope p t e d = (res, d')" "ig_race env = id" "ig_race2 env = id"
  shows "ingest_frame d d'"
proof -
  let ?d1 = "d\<lparr>uuid_next := Suc (uuid_next d)\<rparr>"
  obtain y d2 where y: "persist_or_dedup env t (jstring (jget ''idempotency_key'' envelope)) (content_hash (xo_sha x) p) (event_row x envelope p)
      (xo_u4 x (uuid_next d)) e ?d1 = (y, d2)" by fastforce
  have f: "ingest_frame d d2"
    by (rule ingest_frame_trans [OF ingest_frameI(2) persist_or_dedup_frame [OF y assms(2)]])
  have ap: "ingest_frame s s'" if "run_txn f (append_ingest_link x (chain_fields envelope p) c None None) s = (z, s')" for f c s z s'
    using that by (rule run_txn_preserves) (auto elim!: append_ingest_link_Inr intro: ingest_frameI)
  obtain z d3 where z: "run_txn (ig_record env) (append_ingest_link x (chain_fields envelope p) ACCEPTED None None) d2 = (z, d3)" by fastforce
  have "d' = d2 \<or> d' = d3 \<or> pipeline_dead_letter x env envelope p IDEMPOTENCY_CONFLICT d2 = (res, d')"
    using assms y z by (auto simp: record_envelope_def Let_def split: sum.splits if_splits)
  then show ?thesis using f ap [OF z] pipeline_dead_letter_frame [OF _ assms(3)] ingest_frame_trans by blast
qed

lemma serve_ingest_frame:
  assumes "ig_race env = id" "ig_race2 env = id"
  shows "ingest_frame d (io_db (serve_ingest x st env rq d))"
proof (cases "request_envelope x st env rq")
  case None
  then show ?thesis using serve_ingest_None [OF None, of d] by (auto simp: ingest_reject_def ingest_frameI)
next
  case (Some envelope)
  obtain res d' where p: "process_envelope x st env envelope d = (res, d')" by fastforce
  have "ingest_frame d d'"
    using p by (cases rule: process_envelope_cases)
      (use assms in \<open>auto intro: ingest_frameI pipeline_dead_letter_frame record_envelope_frame\<close>)
  then show ?thesis using serve_ingest_Some [OF Some p] by (simp add: ingest_reject_def split: sum.splits)
qed

definition outbox_frame :: "orch_db \<Rightarrow> orch_db \<Rightarrow> bool" where
  "outbox_frame d d' \<longleftrightarrow> (\<exists>fs. d' = d\<lparr>forward_outbox := fs\<rparr> \<and> map fo_id fs = map fo_id (forward_outbox d) \<and> map fo_key fs = map fo_key (forward_outbox d))"

lemma outbox_frame_refl [simp]: "outbox_frame d d"
  by (cases d) (simp add: outbox_frame_def)

lemma outbox_frame_trans: "outbox_frame d d' \<Longrightarrow> outbox_frame d' d'' \<Longrightarrow> outbox_frame d d''"
  by (auto simp: outbox_frame_def)

lemma touches_outbox: "touches_row p i d d' \<Longrightarrow> outbox_frame d d'"
  using touches_row_frame(3,4) [of p i d d'] by (auto simp: touches_row_def outbox_frame_def)

lemma dispatch_rows_frame:
  assumes "dispatch_rows p post rows y (d, w) = (res, d', w')" "alone p"
  shows "outbox_frame d d'"
  using assms(1)
proof (induction rows arbitrary: y d w)
  case (Cons row rows)
  obtain z d1 w1 where z: "dispatch_row p post row (d, w) = (z, d1, w1)" by (metis prod.exhaust)
  have f: "outbox_frame d d1" by (rule touches_outbox [OF dispatch_row_touches [OF z assms(2)]])
  have "d' = d1 \<or> (\<exists>y1. dispatch_rows p post rows y1 (d1, w1) = (res, d', w'))"
    using Cons.prems z by (auto split: sum.splits)
  then show ?case using f Cons.IH outbox_frame_trans by blast
qed simp

lemma dispatch_pending_frame:
  assumes "dispatch_pending p post (d, w) = (res, d', w')" "alone p"
  shows "outbox_frame d d'"
  using assms dispatch_rows_frame by (fastforce simp: dispatch_pending_def Let_def)

definition mail_frame :: "orch_db \<Rightarrow> orch_db \<Rightarrow> bool" where
  "mail_frame d d' \<longleftrightarrow> (\<exists>ms a. d' = d\<lparr>agent_messages := ms, chains := (chains d)\<lparr>agent_messaging_audit_log := a\<rparr>\<rparr>)"

lemma mail_frameI:
  "mail_frame d d"
  "mail_frame d (d\<lparr>agent_messages := ms\<rparr>)"
  "mail_frame d (d\<lparr>chains := (chains d)\<lparr>agent_messaging_audit_log := a\<rparr>\<rparr>)"
  by (cases d; cases "chains d"; simp add: mail_frame_def)+

lemma mail_frame_trans: "mail_frame d d' \<Longrightarrow> mail_frame d' d'' \<Longrightarrow> mail_frame d d''"
  unfolding mail_frame_def by (elim exE) (simp, blast)

lemma send_message_frame:
  assumes "send_message x dsize st env caller raw d = (res, d')" "mg_race env = id" "mg_race2 env = id"
  shows "mail_frame d d'"
proof -
  have ins: "mail_frame s s'" if "run_txn f (insert_agent_message caller m) s = (z, s')" for f m s z s'
    using that by (rule run_txn_preserves) (auto dest!: insert_agent_message_Inr(2) intro: mail_frameI)
  have ap: "mail_frame s s'" if "run_txn f (append_messaging x m c) s = (z, s')" for f m c s z s'
    using that by (rule run_txn_preserves) (auto simp: append_messaging_def bindR_eq_Inr intro: mail_frameI)
  have st: "mail_frame d s'" if "store_message st env caller m d = (z, s')" for m z s'
    using that assms(2) unfolding store_message_def Let_def
    by (auto split: sum.splits option.splits if_splits prod.splits dest!: ins intro: mail_frameI(1))
  show ?thesis
    using assms(1,3) unfolding send_message_def Let_def
    by (auto split: sum.splits option.splits prod.splits dest!: st ap intro: mail_frameI(1) mail_frame_trans)
qed

definition state_frame :: "orch_db \<Rightarrow> orch_db \<Rightarrow> bool" where
  "state_frame d d' \<longleftrightarrow> (\<exists>ss a. d' = d\<lparr>agent_state := ss, chains := (chains d)\<lparr>agent_state_audit_log := a\<rparr>\<rparr>)"

lemma state_frameI:
  "state_frame d d"
  "state_frame d (d\<lparr>agent_state := ss\<rparr>)"
  "state_frame d (d\<lparr>chains := (chains d)\<lparr>agent_state_audit_log := a\<rparr>\<rparr>)"
  by (cases d; cases "chains d"; simp add: state_frame_def)+

lemma state_frame_trans: "state_frame d d' \<Longrightarrow> state_frame d' d'' \<Longrightarrow> state_frame d d''"
  unfolding state_frame_def by (elim exE) (simp, blast)

definition state_step :: "(string \<Rightarrow> string) \<Rightarrow> orch_db \<Rightarrow> orch_db \<Rightarrow> bool" where
  "state_step sha d d' \<longleftrightarrow> state_frame d d' \<and> (chains_ok sha (chains d) \<longrightarrow> chains_ok sha (chains d'))"

lemma state_step_trans: "state_step sha d d' \<Longrightarrow> state_step sha d' d'' \<Longrightarrow> state_step sha d d''"
  using state_frame_trans by (auto simp: state_step_def)

lemma write_state_step:
  assumes "write_state x dsize st env t k raw d = (res, d')" "mg_race env = id" "mg_race2 env = id"
  shows "state_step (xo_sha x) d d'"
proof -
  have refl: "state_step sha s s" for sha s by (simp add: state_step_def state_frameI(1))
  have new: "state_step sha s s'" if "run_txn f (create_agent_state_if_absent t t k v a now) s = (z, s')" for sha f v a now s z s'
    using that by (rule run_txn_preserves)
      (auto simp: create_agent_state_if_absent_def Let_def bindR_eq_Inr state_step_def split: prod.splits bool.splits intro: state_frameI)
  have cas: "state_step sha s s'" if "run_txn f (update_agent_state_cas t k n v a now) s = (z, s')" for sha f n v a now s z s'
    using that by (rule run_txn_preserves)
      (auto simp: update_agent_state_cas_def Let_def bindR_eq_Inr state_step_def split: option.splits intro: state_frameI)
  have ap: "state_step (xo_sha x) s s'" if "run_txn f (append_state x t k n c a) s = (z, s')" for f n c a s z s'
    using that by (rule run_txn_preserves)
      (auto simp: append_state_def bindR_eq_Inr state_step_def dest: chains_ok_append(8) intro: state_frameI)
  have sw: "state_step (xo_sha x) d s'" if "swap_state st env t k e v a d = (z, s')" for e v a z s'
    using that assms(2) unfolding swap_state_def Let_def read_conflict_def
    by (auto split: sum.splits option.splits if_splits prod.splits dest!: new [of _ _ _ _ _ _ _ "xo_sha x"] cas [of _ _ _ _ _ _ _ _ "xo_sha x"] intro: refl)
  show ?thesis
    using assms(1,3) unfolding write_state_def Let_def
    by (auto split: sum.splits option.splits if_splits prod.splits dest!: sw ap intro: refl state_step_trans)
qed

section \<open>Rules\<close>

definition rule_step :: "int \<Rightarrow> orch_db \<Rightarrow> orch_db \<Rightarrow> bool" where
  "rule_step cap d d' \<longleftrightarrow> rule_frame d d' \<and> (rules_ok cap d \<longrightarrow> rules_ok cap d')"

lemma rule_frameI: "rule_frame d d" "rule_frame d (d\<lparr>automation_rules := rs\<rparr>)"
  by (cases d; simp add: rule_frame_def)+

lemma rule_step_refl [simp]: "rule_step cap d d"
  by (simp add: rule_step_def rule_frameI)

lemma rule_step_enable: "rule_step cap d (snd (update_automation_rule_enabled t i b now d))"
proof -
  let ?f = "\<lambda>r. if rl_tenant r = t \<and> rl_id r = i then r\<lparr>rl_enabled := b, rl_updated := now\<rparr> else r"
  have e: "snd (update_automation_rule_enabled t i b now d) = d\<lparr>automation_rules := map ?f (automation_rules d)\<rparr>"
    by (simp add: update_automation_rule_enabled_def update_where_def)
  have k: "rl_id (?f r) = rl_id r" "rl_tenant (?f r) = rl_tenant r" "rl_name (?f r) = rl_name r" "rl_action (?f r) = rl_action r"
    "rl_config (?f r) = rl_config r" for r by auto
  show ?thesis unfolding e
    by (auto simp: rule_step_def rule_frameI rules_ok_def count_automation_rules_def filter_map comp_def k)
qed

lemma rule_step_delete: "rule_step cap d (snd (delete_automation_rule t i d))"
proof -
  let ?rows = "filter (\<lambda>r. \<not> (rl_tenant r = t \<and> rl_id r = i)) (automation_rules d)"
  have e: "snd (delete_automation_rule t i d) = d\<lparr>automation_rules := ?rows\<rparr>"
    by (simp add: delete_automation_rule_def)
  have "length (filter P ?rows) \<le> length (filter P (automation_rules d))" for P
    using length_filter_le [of "\<lambda>r. \<not> (rl_tenant r = t \<and> rl_id r = i)" "filter P (automation_rules d)"]
    by (simp add: conj_commute)
  then have c: "count_automation_rules u (d\<lparr>automation_rules := ?rows\<rparr>) \<le> count_automation_rules u d" for u
    by (simp add: count_automation_rules_def)
  have "rules_ok cap (d\<lparr>automation_rules := ?rows\<rparr>)" if "rules_ok cap d"
    using that order_trans [OF c] by (auto simp: rules_ok_def distinct_map_filter)
  then show ?thesis unfolding e rule_step_def by (simp add: rule_frameI)
qed

lemma create_automation_rule_step:
  assumes "create_automation_rule x au known dsize env raw caller d = (y, d')"
  shows "rule_step (au_max_rules au) d d'"
proof -
  have "rule_step (au_max_rules au) d d'" if "create_rule_txn x au env caller body d = (y, d')" "validate_create_body known dsize body = Inr None" for body
    using create_rule_cases [OF that] by (simp add: rule_step_def)
  then show ?thesis using assms
    by (auto simp: create_automation_rule_def split: sum.splits option.splits)
qed

lemma patch_rule_step:
  assumes "patch_rule x env i raw caller d = (y, d')"
  shows "rule_step cap d d'"
proof -
  have t: "rule_step cap d s'"
    if "update_automation_rule_enabled caller i b now d = (n, s)" "run_txn f (\<lambda>_. Inr ((), s)) d = (z, s')" for f b now n s z s'
    using that(2) by (rule run_txn_preserves) (use rule_step_enable [of cap d caller i b now] that(1) in auto)
  show ?thesis using assms unfolding patch_rule_def Let_def
    by (auto split: option.splits json.splits if_splits sum.splits prod.splits intro: t)
qed

lemma delete_rule_step:
  assumes "delete_rule env i caller d = (y, d')"
  shows "rule_step cap d d'"
proof -
  have t: "rule_step cap d s'"
    if "delete_automation_rule caller i d = (n, s)" "run_txn f (\<lambda>_. Inr ((), s)) d = (z, s')" for f n s z s'
    using that(2) by (rule run_txn_preserves) (use rule_step_delete [of cap d caller i] that(1) in auto)
  show ?thesis using assms unfolding delete_rule_def Let_def
    by (auto split: if_splits sum.splits prod.splits intro: t)
qed

section \<open>The fleet\<close>

lemma poll_sentinels_step:
  assumes "poll_sentinels u st env get rs (d, w) = (y, d', w')" "\<forall>r \<in> set rs. 0 \<le> sr_failures r"
  shows "reg_step sha d d'"
  using assms
proof (induction rs arbitrary: d w y)
  case (Cons r rs)
  obtain q w1 where pr: "probe_one u st (hv_dns env (sr_id r)) (hv_probed env (sr_id r)) get r w = (q, w1)" by force
  have t: "reg_step sha d s'" if "q = Inr p" "run_txn (hv_write env (sr_id r)) (update_sentinel_health (sr_id r) (pr_status p) (pr_failures p)
      (hv_checked env (sr_id r)) (pr_healthy p)) d = (z, s')" for p z s'
    by (rule health_txn_step [OF that(2) probe_one_ok [OF pr [unfolded that(1)]]]) (use Cons.prems in auto)
  have later: "reg_step sha s d'" if "poll_sentinels u st env get rs (s, v) = (y1, d', w')" for s v y1
    using Cons.IH [OF that] Cons.prems(2) by simp
  show ?case
  proof (cases q)
    case (Inl e)
    then show ?thesis using Cons.prems(1) pr by (auto split: if_splits prod.splits intro: later)
  next
    case (Inr p)
    obtain z d1 where z: "run_txn (hv_write env (sr_id r)) (update_sentinel_health (sr_id r) (pr_status p) (pr_failures p)
      (hv_checked env (sr_id r)) (pr_healthy p)) d = (z, d1)" by fastforce
    show ?thesis using Cons.prems(1) pr z Inr t [OF Inr z]
      by (cases z) (auto split: if_splits prod.splits intro: later reg_step_trans)
  qed
qed simp

lemma route_keeps:
  assumes "operator_route st auth (with_body x ks raw handler) s = (y, s')" "P s" "\<And>body z t. handler body s = (z, t) \<Longrightarrow> P t"
  shows "P s'"
  using assms by (auto simp: operator_route_def with_body_def split: sum.splits option.splits if_splits)

lemma registry_route_step:
  "register_route x u st env auth raw d = (y, d') \<Longrightarrow> reg_step (xo_sha x) d d'"
  "modify_route x u st env auth i raw d = (y, d') \<Longrightarrow> reg_step (xo_sha x) d d'"
  "deregister_route x st env auth i d = (y, d') \<Longrightarrow> reg_step (xo_sha x) d d'"
proof -
  assume "register_route x u st env auth raw d = (y, d')"
  from this [unfolded register_route_def] show "reg_step (xo_sha x) d d'"
    by (rule route_keeps) (auto split: prod.splits sum.splits intro: register_sentinel_step)
next
  assume "modify_route x u st env auth i raw d = (y, d')"
  from this [unfolded modify_route_def] show "reg_step (xo_sha x) d d'"
    by (rule route_keeps) (auto split: prod.splits sum.splits intro: modify_sentinel_step)
next
  assume "deregister_route x st env auth i d = (y, d')"
  from this [unfolded deregister_route_def] show "reg_step (xo_sha x) d d'"
    by (rule operator_route_keeps) (auto split: prod.splits sum.splits intro: deregister_sentinel_step)
qed

lemma health_check_step:
  assumes "health_check u st env get auth (d, w) = (y, d', w')" "registry_ok d"
  shows "reg_step sha d d'"
proof -
  have "reg_step sha d (fst (d', w'))"
    using assms(1) [unfolded health_check_def]
  proof (rule operator_route_keeps)
    fix z t assume "(let (y, s') = run_health_cycle u st env get (d, w) in
       (bindR y (\<lambda>reports. Inr (http_ok 200 [(''results'', JArr (map health_report_body reports))])), s')) = (z, t)"
    then obtain y1 where "run_health_cycle u st env get (d, w) = (y1, t)" by (auto split: prod.splits)
    then show "reg_step sha d (fst t)"
      using poll_sentinels_step [of u st env get "list_sentinels d" d w y1 "fst t" "snd t" sha] assms(2)
      by (auto simp: run_health_cycle_def list_sentinels_def registry_ok_def sentinel_ok_def split: option.splits)
  qed simp
  then show ?thesis by simp
qed

section \<open>The invariant\<close>

record orch_config =
  oc_ext :: orch_ext
  oc_url :: url_ext
  oc_ingest :: orch_ingest_settings
  oc_automation :: automation_settings
  oc_coordination :: coordination_settings
  oc_messaging :: messaging_settings
  oc_gateway :: gateway_settings
  oc_identity :: side_settings
  oc_safety :: side_settings

definition orch_inv :: "orch_config \<Rightarrow> orch_db \<Rightarrow> bool" where
  "orch_inv c d \<longleftrightarrow> ingest_inv (xo_sha (oc_ext c)) d \<and> dist_ok d \<and> registry_ok d \<and> executions_ok d
     \<and> rules_ok (au_max_rules (oc_automation c)) d \<and> keys_ok (gw_max_keys (oc_gateway c)) d
     \<and> mail_ok (ms_max_messages (oc_messaging c)) d \<and> state_ok d \<and> side_ok d"

lemma orch_invD: "orch_inv c d \<Longrightarrow> chains_ok (xo_sha (oc_ext c)) (chains d)" "orch_inv c d \<Longrightarrow> dist_ok d" "orch_inv c d \<Longrightarrow> registry_ok d"
  by (auto simp: orch_inv_def ingest_inv_def)

text \<open>What the other components read of the database.\<close>

lemmas table_views = ingest_inv_def dist_ok_def registry_ok_def executions_ok_def mail_ok_def count_agent_messages_def
  state_ok_def side_ok_def keys_ok_def count_third_party_api_keys_def rules_ok_def count_automation_rules_def

lemma gate_keeps: "gate_step (xo_sha (oc_ext c)) (gw_max_keys (oc_gateway c)) d d' \<Longrightarrow> orch_inv c d \<Longrightarrow> orch_inv c d'"
  unfolding gate_step_def gate_frame_def
  by (elim conjE exE, hypsubst) (simp add: orch_inv_def ingest_inv_def dist_ok_def registry_ok_def executions_ok_def mail_ok_def
      count_agent_messages_def state_ok_def side_ok_def rules_ok_def count_automation_rules_def)

lemma reg_keeps: "reg_step (xo_sha (oc_ext c)) d d' \<Longrightarrow> orch_inv c d \<Longrightarrow> orch_inv c d'"
  unfolding reg_step_def reg_frame_def
  by (elim conjE exE, hypsubst) (simp add: orch_inv_def ingest_inv_def dist_ok_def executions_ok_def mail_ok_def keys_ok_def
      count_third_party_api_keys_def count_agent_messages_def state_ok_def side_ok_def rules_ok_def count_automation_rules_def)

lemma rule_keeps: "rule_step (au_max_rules (oc_automation c)) d d' \<Longrightarrow> orch_inv c d \<Longrightarrow> orch_inv c d'"
  unfolding rule_step_def rule_frame_def
  by (elim conjE exE, hypsubst) (simp add: orch_inv_def ingest_inv_def dist_ok_def registry_ok_def executions_ok_def mail_ok_def
      count_agent_messages_def state_ok_def side_ok_def keys_ok_def count_third_party_api_keys_def)

lemma side_keeps:
  "side_frame d d' \<Longrightarrow> side_ok d \<longrightarrow> side_ok d' \<Longrightarrow> chains_ok (xo_sha (oc_ext c)) (chains d) \<longrightarrow> chains_ok (xo_sha (oc_ext c)) (chains d')
     \<Longrightarrow> orch_inv c d \<Longrightarrow> orch_inv c d'"
  unfolding side_frame_def
  by (elim conjE exE, hypsubst) (simp add: orch_inv_def ingest_inv_def dist_ok_def registry_ok_def executions_ok_def mail_ok_def
      count_agent_messages_def state_ok_def rules_ok_def count_automation_rules_def keys_ok_def count_third_party_api_keys_def)

lemma relay_keeps: "relay_step (xo_sha (oc_ext c)) d d' \<Longrightarrow> orch_inv c d \<Longrightarrow> orch_inv c d'"
  unfolding relay_step_def relay_frame_def
  by (elim conjE exE, hypsubst) (simp add: orch_inv_def table_views)

lemma state_keeps: "state_step (xo_sha (oc_ext c)) d d' \<Longrightarrow> state_ok d' \<Longrightarrow> orch_inv c d \<Longrightarrow> orch_inv c d'"
  unfolding state_step_def state_frame_def
  by (elim conjE exE, hypsubst) (simp add: orch_inv_def ingest_inv_def dist_ok_def registry_ok_def executions_ok_def mail_ok_def
      count_agent_messages_def side_ok_def rules_ok_def count_automation_rules_def keys_ok_def count_third_party_api_keys_def)

lemma mail_keeps:
  "mail_frame d d' \<Longrightarrow> mail_step (xo_sha (oc_ext c)) (ms_max_messages (oc_messaging c)) d d' \<Longrightarrow> orch_inv c d \<Longrightarrow> orch_inv c d'"
  unfolding mail_step_def mail_frame_def
  by (elim conjE exE, hypsubst) (simp add: orch_inv_def ingest_inv_def dist_ok_def registry_ok_def executions_ok_def
      state_ok_def side_ok_def rules_ok_def count_automation_rules_def keys_ok_def count_third_party_api_keys_def)

lemma ingest_keeps:
  assumes "ingest_frame d d'" "good_step (xo_sha (oc_ext c)) d d'" "orch_inv c d"
  shows "orch_inv c d'"
  using assms unfolding good_step_def ingest_frame_def
  by (elim conjE exE, hypsubst) (simp add: orch_inv_def dist_ok_def registry_ok_def executions_ok_def mail_ok_def count_agent_messages_def
      state_ok_def side_ok_def rules_ok_def count_automation_rules_def keys_ok_def count_third_party_api_keys_def)

lemma outbox_keeps: "outbox_frame d d' \<Longrightarrow> orch_inv c d \<Longrightarrow> orch_inv c d'"
  unfolding outbox_frame_def by (elim conjE exE, hypsubst) (simp add: orch_inv_def table_views)

text \<open>Distributions are never removed and keep their tenant, so the rules that name them stay valid.\<close>

definition dists_kept :: "orch_db \<Rightarrow> orch_db \<Rightarrow> bool" where
  "dists_kept d d' \<longleftrightarrow> (\<lambda>r. (ds_id r, ds_tenant r)) ` set (policy_distributions d) \<subseteq> (\<lambda>r. (ds_id r, ds_tenant r)) ` set (policy_distributions d')"

lemma dists_kept_plan: "same_plan d d' \<Longrightarrow> dists_kept d d'"
proof -
  assume "same_plan d d'"
  then have "map dist_key (policy_distributions d') = map dist_key (policy_distributions d)" by (simp add: same_plan_def)
  then have "map ((\<lambda>(i, t, _). (i, t)) \<circ> dist_key) (policy_distributions d') = map ((\<lambda>(i, t, _). (i, t)) \<circ> dist_key) (policy_distributions d)"
    by (metis list.map_comp)
  then have "map (\<lambda>r. (ds_id r, ds_tenant r)) (policy_distributions d') = map (\<lambda>r. (ds_id r, ds_tenant r)) (policy_distributions d)"
    by (simp add: comp_def dist_key_def)
  then show ?thesis by (simp only: dists_kept_def set_map [symmetric] subset_refl)
qed

lemma dists_kept_submit: "submit_step sha d d' \<Longrightarrow> dists_kept d d'"
  by (auto simp: submit_step_def dists_kept_def)

lemma rules_kept: "rules_ok cap d \<Longrightarrow> automation_rules d' = automation_rules d \<Longrightarrow> dists_kept d d' \<Longrightarrow> rules_ok cap d'"
  by (rule rules_ok_plan) (auto simp: dists_kept_def dest!: subsetD)

lemma dist_keeps:
  assumes "dist_frame d d'" "dist_ok d'" "dists_kept d d'"
    "chains_ok (xo_sha (oc_ext c)) (chains d) \<longrightarrow> chains_ok (xo_sha (oc_ext c)) (chains d')" "orch_inv c d"
  shows "orch_inv c d'"
proof -
  have "rules_ok (au_max_rules (oc_automation c)) d'"
    by (rule rules_kept [of _ d]) (use assms in \<open>auto simp: orch_inv_def dist_frame_def\<close>)
  then show ?thesis using assms(1,2,4,5) unfolding dist_frame_def
    by (elim conjE exE, hypsubst) (simp add: orch_inv_def ingest_inv_def registry_ok_def executions_ok_def mail_ok_def
        count_agent_messages_def state_ok_def side_ok_def keys_ok_def count_third_party_api_keys_def)
qed

lemma submit_keeps: "submit_step (xo_sha (oc_ext c)) d d' \<Longrightarrow> orch_inv c d \<Longrightarrow> orch_inv c d'"
  using dist_keeps [of d d' c] dists_kept_submit unfolding submit_step_def by blast

lemma drive_keeps: "drive_step (xo_sha (oc_ext c)) d d' \<Longrightarrow> orch_inv c d \<Longrightarrow> orch_inv c d'"
  unfolding drive_step_def using dist_keeps dists_kept_plan dist_ok_same_plan orch_invD(2) by blast

lemma engine_keeps:
  assumes "engine_step (xo_sha (oc_ext c)) tn d d'" "orch_inv c d"
  shows "orch_inv c d'"
proof -
  have p: "same_plan d d'" using assms(1) by (simp add: engine_step_def)
  have "rules_ok (au_max_rules (oc_automation c)) d'"
    by (rule rules_kept [of _ d, OF _ _ dists_kept_plan [OF p]]) (use assms in \<open>auto simp: orch_inv_def engine_step_def engine_frame_def\<close>)
  moreover have "dist_ok d'" using dist_ok_same_plan [OF p] assms(2) by (simp add: orch_inv_def)
  ultimately show ?thesis using assms unfolding engine_step_def engine_frame_def
    by (elim conjE exE, hypsubst) (simp add: orch_inv_def ingest_inv_def registry_ok_def mail_ok_def
        count_agent_messages_def state_ok_def side_ok_def keys_ok_def count_third_party_api_keys_def)
qed

section \<open>Steps and reachable states\<close>

text \<open>
  One step per handler or background task that writes. Requests, answers of the network and
  faults of the database are arbitrary. An evaluation of rules and a drive of a distribution may
  start at any time, which covers the tasks that the handlers schedule.
\<close>

inductive orch_step :: "orch_config \<Rightarrow> orch_db \<times> 'w \<Rightarrow> orch_db \<times> 'w \<Rightarrow> bool" for c where
  Ingest_step: "ig_race env = id \<Longrightarrow> ig_race2 env = id \<Longrightarrow> orch_step c (d, w) (io_db (serve_ingest (oc_ext c) (oc_ingest c) env rq d), w)"
| Dispatch_step: "alone p \<Longrightarrow> dispatch_pending p post (d, w) = (res, d', w') \<Longrightarrow> orch_step c (d, w) (d', w')"
| Submit_step: "submit_distribution (oc_ext c) hash (co_distribution (oc_coordination c)) sub auth raw d = (y, d') \<Longrightarrow> orch_step c (d, w) (d', w)"
| Drive_step: "drive_distribution (oc_ext c) (co_distribution (oc_coordination c)) drv push i tn (d, w) = (z, d', w') \<Longrightarrow> orch_step c (d, w) (d', w')"
| Rollback_step: "rollback_policy_distribution (oc_ext c) admin sub auth raw d = (y, d') \<Longrightarrow> orch_step c (d, w) (d', w)"
| Register_step: "register_route (oc_ext c) (oc_url c) (oc_coordination c) reg auth raw d = (h, d') \<Longrightarrow> orch_step c (d, w) (d', w)"
| Modify_step: "modify_route (oc_ext c) (oc_url c) (oc_coordination c) reg auth i raw d = (h, d') \<Longrightarrow> orch_step c (d, w) (d', w)"
| Deregister_step: "deregister_route (oc_ext c) (oc_coordination c) reg auth i d = (h, d') \<Longrightarrow> orch_step c (d, w) (d', w)"
| Health_step: "health_check (oc_url c) (oc_coordination c) hv get auth (d, w) = (h, d', w') \<Longrightarrow> orch_step c (d, w) (d', w')"
| Coordinate_step: "coordinate (oc_ext c) (oc_url c) hash (oc_coordination c) cenv push auth raw (d, w) = (h, d', w') \<Longrightarrow> orch_step c (d, w) (d', w')"
| Automation_step: "evaluate_and_execute (oc_ext c) (oc_automation c) (co_distribution (oc_coordination c)) rules push tn ev ty src payload (d, w) = (z, d', w')
    \<Longrightarrow> orch_step c (d, w) (d', w')"
| Create_rule_step: "create_automation_rule (oc_ext c) (oc_automation c) known dsize ro raw caller d = (h, d') \<Longrightarrow> orch_step c (d, w) (d', w)"
| Patch_rule_step: "patch_rule (oc_ext c) ro i raw caller d = (h, d') \<Longrightarrow> orch_step c (d, w) (d', w)"
| Delete_rule_step: "delete_rule ro i caller d = (h, d') \<Longrightarrow> orch_step c (d, w) (d', w)"
| Send_step: "mg_race mg = id \<Longrightarrow> mg_race2 mg = id \<Longrightarrow> send_message (oc_ext c) dlen (oc_messaging c) mg caller raw d = (h, d') \<Longrightarrow> orch_step c (d, w) (d', w)"
| Write_state_step: "mg_race mg = id \<Longrightarrow> mg_race2 mg = id \<Longrightarrow> write_state (oc_ext c) dlen (oc_messaging c) mg caller k raw d = (h, d') \<Longrightarrow> orch_step c (d, w) (d', w)"
| External_step: "external_query_events (oc_ext c) tle (oc_gateway c) ge header limit cursor d = (page, d') \<Longrightarrow> orch_step c (d, w) (d', w)"
| Issue_key_step: "issue_external_key (oc_ext c) (oc_coordination c) (oc_gateway c) token ro auth raw d = (h, d') \<Longrightarrow> orch_step c (d, w) (d', w)"
| Revoke_key_step: "revoke_external_key (oc_coordination c) ro auth i d = (h, d') \<Longrightarrow> orch_step c (d, w) (d', w)"
| Identity_step: "se_race se = id \<Longrightarrow> ingest_identity_event (oc_ext c) aware (oc_identity c) se auth raw d = (h, d') \<Longrightarrow> orch_step c (d, w) (d', w)"
| Safety_step: "se_race se = id \<Longrightarrow> ingest_safety_event (oc_ext c) aware (oc_safety c) se auth raw d = (h, d') \<Longrightarrow> orch_step c (d, w) (d', w)"
| Relay_step: "relay_dispatch (oc_ext c) (oc_url c) (oc_coordination c) rv send auth sauth raw (d, w) = (out, d', w') \<Longrightarrow> orch_step c (d, w) (d', w')"

inductive orch_reach :: "orch_config \<Rightarrow> orch_db \<times> 'w \<Rightarrow> orch_db \<times> 'w \<Rightarrow> bool" for c s where
  reach_refl: "orch_reach c s s"
| reach_step: "orch_reach c s t \<Longrightarrow> orch_step c t t' \<Longrightarrow> orch_reach c s t'"

lemma coordinate_push_keeps:
  assumes "coordinate_push (oc_ext c) u hash st env post policy tn (d, w) = (y, d', w')" "orch_inv c d"
  shows "orch_inv c d'"
  using assms(1)
proof (cases rule: coordinate_push_cases)
  case (submitted i ty selected skipped q z d1)
  have s: "submit_step (xo_sha (oc_ext c)) d d1"
    by (rule record_submission_cases(1) [OF submitted(3) orch_invD(2) [OF assms(2)]]) auto
  have "orch_inv c d1" by (rule submit_keeps [OF s assms(2)])
  moreover have "drive_step (xo_sha (oc_ext c)) d1 d'"
    if "drive_distribution (oc_ext c) ((co_distribution st)\<lparr>dg_targets := selected\<rparr>) (pe_drive env) post i tn (d1, w) = (v, d', w')" for v
    using drive_distribution_keeps [OF that, of "\<lambda>_. True"] by simp
  ultimately show ?thesis using submitted(6) drive_keeps by blast
qed (use assms(2) in simp)

lemma coordinate_keeps:
  assumes "coordinate (oc_ext c) u hash st env post auth raw (d, w) = (y, d', w')" "orch_inv c d"
  shows "orch_inv c d'"
proof -
  have "orch_inv c (fst (d', w'))"
    using assms(1) [unfolded coordinate_def]
    by (rule route_keeps)
       (use assms(2) in \<open>auto split: json.splits if_splits sum.splits prod.splits intro: coordinate_push_keeps\<close>)
  then show ?thesis by simp
qed

lemma relay_dispatch_step:
  assumes "relay_dispatch x u st env post auth sauth raw (d, w) = (y, d', w')"
  shows "relay_step (xo_sha x) d d'"
  using assms by (cases rule: relay_dispatch_cases) (auto dest: relay_request_cases(1))

lemma orch_step_inv:
  assumes "orch_step c s s'" "orch_inv c (fst s)"
  shows "orch_inv c (fst s')"
  using assms
proof (induction rule: orch_step.induct)
  case (Ingest_step env d w rq)
  have "calm (oc_ext c) env" using Ingest_step by (simp add: calm_def well_behaved_def)
  then show ?case using Ingest_step ingest_keeps [OF serve_ingest_frame serve_ingest_good] by simp
next
  case (Send_step mg dlen caller raw d h d' w)
  have "mail_calm (xo_sha (oc_ext c)) (ms_max_messages (oc_messaging c)) mg"
    using Send_step by (simp add: mail_calm_def mail_grows_def)
  then show ?case using Send_step mail_keeps [OF send_message_frame send_message_step] by simp
next
  case (Write_state_step mg dlen caller k raw d h d' w)
  have "state_ok d'" by (rule write_state_ok [OF Write_state_step(3)]) (use Write_state_step in \<open>auto simp: orch_inv_def\<close>)
  then show ?case using Write_state_step state_keeps [OF write_state_step] by simp
next
  case (Drive_step drv push i tn d w z d' w')
  then show ?case using drive_distribution_keeps [OF Drive_step(1), of "\<lambda>_. True"] drive_keeps by simp
next
  case (Identity_step se aware auth raw d h d' w)
  have "identity_log.side_step (xo_sha (oc_ext c)) d d'"
    using Identity_step(2) unfolding ingest_identity_event_def
    by (rule identity_log.push_step) (simp add: Identity_step(1) identity_log.side_step_refl)
  then show ?case using Identity_step(3) side_keeps unfolding identity_log.side_step_def by auto
next
  case (Safety_step se aware auth raw d h d' w)
  have "safety_log.side_step (xo_sha (oc_ext c)) d d'"
    using Safety_step(2) unfolding ingest_safety_event_def
    by (rule safety_log.push_step) (simp add: Safety_step(1) safety_log.side_step_refl)
  then show ?case using Safety_step(3) side_keeps unfolding safety_log.side_step_def by auto
qed (auto dest: orch_invD(2,3) intro: outbox_keeps [OF dispatch_pending_frame] submit_keeps [OF submit_distribution_step] submit_keeps [OF rollback_cases(1)]
    reg_keeps [OF registry_route_step(1)] reg_keeps [OF registry_route_step(2)] reg_keeps [OF registry_route_step(3)] reg_keeps [OF health_check_step]
    coordinate_keeps engine_keeps [OF evaluate_step] rule_keeps [OF create_automation_rule_step] rule_keeps [OF patch_rule_step]
    rule_keeps [OF delete_rule_step] gate_keeps [OF external_query_cases(1)] gate_keeps [OF issue_external_key_step]
    gate_keeps [OF revoke_external_key_step] relay_keeps [OF relay_dispatch_step])

lemma orch_reach_inv:
  assumes "orch_reach c s s'" "orch_inv c (fst s)"
  shows "orch_inv c (fst s')"
  using assms by (induction rule: orch_reach.induct) (auto intro: orch_step_inv)

end
