(* ===== verification/Orch_Forward.thy ===== *)
theory Orch_Forward
  imports Orch_System
begin

text \<open>
  The path of a usage event through both products: the Orchestrator receives it, keeps it in its
  outbox, and drains the outbox to the ingest of Delta. Receiving and draining alternate freely,
  with faults in both databases and requests or answers lost on the way.
\<close>

datatype forward_op =
  Receive ingest_env orch_request
| Drain drain_params "request \<Rightarrow> serve_env" "request \<Rightarrow> net_fate"

fun forward_op_ok :: "(json \<Rightarrow> json) \<Rightarrow> forward_op \<Rightarrow> bool" where
  "forward_op_ok jsonb (Receive env rq) = (ig_race env = id \<and> ig_race2 env = id)"
| "forward_op_ok jsonb (Drain p senv fate) = (alone p \<and> dn_jsonb p = jsonb)"

fun forward_run ::
  "orch_ext \<Rightarrow> orch_ingest_settings \<Rightarrow> externals \<Rightarrow> app_state \<Rightarrow> forward_op list \<Rightarrow> orch_db \<times> db \<Rightarrow> orch_db \<times> db" where
  "forward_run xo st x app [] s = s"
| "forward_run xo st x app (Receive env rq # ops) (d, w) = forward_run xo st x app ops (io_db (serve_ingest xo st env rq d), w)"
| "forward_run xo st x app (Drain p senv fate # ops) s = forward_run xo st x app ops (snd (dispatch_pending p (post_to_delta x app senv fate) s))"

lemma forwarded_record_grows:
  assumes "forwarded_record jsonb x es k = Some r" "prefix es es'"
  shows "forwarded_record jsonb x es' k = Some r"
proof -
  obtain zs where z: "es' = es @ zs" using assms(2) by (auto simp: prefix_def)
  obtain ie where ie: "List.find (\<lambda>ie. ev_key ie = k) es = Some ie" using assms(1) by (auto simp: forwarded_record_def split: option.splits)
  then have "List.find (\<lambda>ie. ev_key ie = k) es' = Some ie" unfolding z by (simp add: find_append)
  then show ?thesis using assms(1) ie by (simp add: forwarded_record_def)
qed

lemma receive_posted:
  assumes "forwarded_posted jsonb x d w" "ig_race env = id" "ig_race2 env = id"
  shows "forwarded_posted jsonb x (io_db (serve_ingest xo st env rq d)) w"
proof -
  let ?d = "io_db (serve_ingest xo st env rq d)"
  have "calm xo env" using assms by (simp add: calm_def well_behaved_def)
  then have g: "prefix (ingest_events d) (ingest_events ?d)" using serve_ingest_good [of xo env d st rq] by (simp add: good_step_def ingest_grows_def)
  have f: "r \<in> set (forward_outbox d) \<or> fo_status r = ''pending''" if "r \<in> set (forward_outbox ?d)" for r
    using serve_ingest_frame [OF assms(2,3), of d xo st rq] that by (auto simp: ingest_frame_def)
  show ?thesis unfolding forwarded_posted_def
  proof (intro ballI impI)
    fix fo assume fo: "fo \<in> set (forward_outbox ?d)" "fo_status fo = ''forwarded''"
    then have "fo \<in> set (forward_outbox d)" using f [OF fo(1)] by auto
    then show "\<exists>r. forwarded_record jsonb x (ingest_events ?d) (fo_key fo) = Some r \<and> posted_count (u_tenant r) (u_event r) w = 1"
      using assms(1) fo(2) forwarded_record_grows [OF _ g] unfolding forwarded_posted_def by blast
  qed
qed

lemma receive_inv:
  assumes "ingest_inv (xo_sha xo) d" "ig_race env = id" "ig_race2 env = id"
  shows "ingest_inv (xo_sha xo) (io_db (serve_ingest xo st env rq d))"
  using serve_ingest_good [of xo env d st rq] assms by (simp add: calm_def well_behaved_def good_step_def)

lemma drain_inv:
  assumes "dispatch_pending p post (d, w) = (res, d', w')" "alone p" "ingest_inv sha d"
  shows "ingest_inv sha d'"
  using dispatch_pending_frame [OF assms(1,2)] assms(3) by (auto simp: outbox_frame_def ingest_inv_def)

lemma forward_run_posted:
  assumes "forward_run xo st x app ops (d, w) = (d', w')" "\<forall>op \<in> set ops. forward_op_ok jsonb op"
    and "ingest_inv (xo_sha xo) d" "forwarded_posted jsonb x d w" "ledger_ok w"
  shows "ingest_inv (xo_sha xo) d' \<and> forwarded_posted jsonb x d' w' \<and> ledger_ok w'"
  using assms
proof (induction ops arbitrary: d w)
  case (Cons op ops)
  show ?case
  proof (cases op)
    case (Receive env rq)
    then show ?thesis using Cons.prems Cons.IH receive_posted receive_inv by (simp add: Receive)
  next
    case (Drain p senv fate)
    obtain res d1 w1 where e: "dispatch_pending p (post_to_delta x app senv fate) (d, w) = (res, d1, w1)" by (metis prod.exhaust)
    have p: "alone p" "dn_jsonb p = jsonb" using Cons.prems(2) Drain by auto
    have "distinct (map fo_id (forward_outbox d))" using Cons.prems(3) by (simp add: ingest_inv_def)
    note q = dispatch_pending_posted [OF e p(1) this _ Cons.prems(5), unfolded p(2), OF Cons.prems(4)]
    show ?thesis
      using Cons.IH [of d1 w1] Cons.prems q drain_inv [OF e p(1) Cons.prems(3)] Drain e by simp
  qed
qed simp

end
