(* ===== verification/Samples_Orchestrator.thy ===== *)
theory Samples_Orchestrator
  imports Samples Samples_Sentinel Orch_Forward
begin

text \<open>
  Concrete Orchestrator states at which the properties are instantiated: one usage event on its
  way from Sentinel to Delta. The digest is a constant, so that a chain holds one link here.
\<close>

section \<open>One event\<close>

definition digest0 :: string where "digest0 = replicate 64 (CHR ''a'')"

definition envelope0 :: "(string \<times> json) list" where
  "envelope0 = [(''schema_version'', JInt 1), (''envelope_id'', JStr ''e1''), (''event_type'', JStr ''usage''), (''source_product'', JStr ''sentinel''),
     (''occurred_at'', JStr ''t''), (''idempotency_key'', JStr event0), (''sequence'', JInt 1), (''correlation_id'', JStr ''c1''),
     (''payload'', usage_with (JInt 250))]"

definition orch_x0 :: orch_ext where
  "orch_x0 = \<lparr>xo_mac = (\<lambda>_ _. digest0), xo_sha = (\<lambda>_. digest0),
     xo_loads = (\<lambda>raw. if raw = ''event'' then Some (JObj envelope0) else None),
     xo_uuid_format = (\<lambda>_. True), xo_datetime_format = (\<lambda>_. True), xo_event_valid = (\<lambda>_. True), xo_policy_valid = (\<lambda>_. True), xo_u4 = u4_0\<rparr>"

definition orch_st0 :: orch_ingest_settings where
  "orch_st0 = \<lparr>oi_secret = ''s'', oi_tolerance = 300, oi_versions = [1], oi_peer = ''sentinel''\<rparr>"

definition ingest_env0 :: ingest_env where
  "ingest_env0 = \<lparr>ig_clock = 0, ig_lookup = None, ig_race = id, ig_persist = Txn_ok, ig_now = now0, ig_recheck = None, ig_race2 = id,
     ig_record = Txn_ok, ig_utcnow_z = ''z''\<rparr>"

definition orch_rq0 :: orch_request where
  "orch_rq0 = \<lparr>oq_body = ''event'', oq_signature = Some (''sha256='' @ digest0), oq_timestamp = Some ''0''\<rparr>"

text \<open>The tables as the migrations leave them.\<close>

definition no_chains :: orch_chains where
  "no_chains = \<lparr>ingest_audit_log = [], distribution_audit_log = [], sentinel_registry_audit_log = [], relay_audit_log = [], identity_audit_log = [],
     automation_executions = [], agent_messaging_audit_log = [], agent_state_audit_log = [], external_gateway_audit_log = [],
     distribution_rollbacks = [], safety_audit_log = []\<rparr>"

definition orch_db0 :: orch_db where
  "orch_db0 = \<lparr>ingest_events = [], forward_outbox = [], dead_letter_queue = [], policy_distributions = [], policy_distribution_targets = [],
     sentinel_registry = [], agent_messages = [], agent_state = [], automation_rules = [], identity_events = [], safety_events = [],
     third_party_api_keys = [], rate_limit_counters = [], chains = no_chains, uuid_next = 0\<rparr>"

abbreviation orch_out0 :: ingest_outcome where "orch_out0 \<equiv> serve_ingest orch_x0 orch_st0 ingest_env0 orch_rq0 orch_db0"

lemma ingest_calm0: "ig_race ingest_env0 = id" "ig_race2 ingest_env0 = id" "calm orch_x0 ingest_env0"
  by (simp_all add: ingest_env0_def calm_def well_behaved_def)

lemma verified0: "verify_ingest_signature (xo_mac orch_x0) (oi_secret orch_st0) (oq_body orch_rq0) (oq_signature orch_rq0) (oq_timestamp orch_rq0)
    (oi_tolerance orch_st0) (ig_clock ingest_env0) = Inr (HMAC_OK, ''ok'')"
  by code_simp

lemma loads0: "xo_loads orch_x0 (oq_body orch_rq0) = Some (JObj envelope0)"
  by (simp add: orch_x0_def orch_rq0_def)

lemma envelope_ok0: "envelope_valid orch_x0 envelope0" 
  by code_simp

lemma no_nul0: "\<not> contains_nul (JObj envelope0)"
  by code_simp

lemma sha0_const: "xo_sha orch_x0 = (\<lambda>_. digest0)"
  by (simp add: orch_x0_def)

definition event_row0 :: ingest_event where
  "event_row0 = \<lparr>ev_seq = 0, ev_envelope = ''e1'', ev_key = event0, ev_source = ''sentinel'', ev_source_sequence = JInt 1, ev_schema_version = JInt 1,
     ev_occurred_at = ''t'', ev_correlation = ''c1'', ev_causation = None, ev_common = extract_common (usage_with (JInt 250)),
     ev_payload = usage_with (JInt 250), ev_content_hash = digest0\<rparr>"

lemma event_row0: "event_row orch_x0 envelope0 (usage_with (JInt 250)) = event_row0"
  by (simp add: event_row_def event_row0_def envelope0_def jget_def jstring_def content_hash_def sha0_const)

lemma persisted0: "persist_or_dedup ingest_env0 tenant0 event0 digest0 event_row0 (u4_0 0) event0 (orch_db0\<lparr>uuid_next := 1\<rparr>)
    = (Inr ACCEPTED, orch_db0\<lparr>uuid_next := 1, ingest_events := [event_row0\<lparr>ev_seq := 1\<rparr>],
        forward_outbox := [\<lparr>fo_id = u4_0 0, fo_tenant = tenant0, fo_event = event0, fo_key = event0, fo_status = ''pending'',
        fo_created = now0, fo_attempts = 0, fo_last_attempt = None, fo_last_error = None\<rparr>]\<rparr>)"
  by code_simp

definition link_fields0 :: pydict where
  "link_fields0 = [(''event_id'', CStr event0), (''event_type'', CStr ''usage''), (''event_timestamp'', CStr ''t''), (''request_id'', CStr ''r1''),
     (''tenant_id'', CStr tenant0), (''team_id'', CStr team0), (''project_id'', CStr project0), (''agent_id'', CStr agent0), (''envelope_id'', CStr ''e1''),
     (''idempotency_key'', CStr event0), (''source_product'', CStr ''sentinel'')]"

lemma link_fields0: "chain_fields envelope0 (usage_with (JInt 250)) = link_fields0"
  by code_simp

lemma short0: "length digest0 = 64" "no_nul digest0"
  by code_simp+

definition link_row0 :: pydict where
  "link_row0 = link_fields0 @ [(''disposition'', CStr ACCEPTED), (''dlq_reason'', CNull), (''dlq_id'', CNull), (''prev_hash'', CStr digest0)]"

lemma link_row0_ok: "insert_link ingest_columns link_row0 digest0 [] = Inr [\<lparr>cl_seq = 1, cl_data = link_row0, cl_hash = digest0\<rparr>]"
    "accepted_attribution link_row0"
  by code_simp+

lemma linked0: "append_audit_link (\<lambda>_. digest0) link_fields0 ACCEPTED None None [] = Inr (digest0, [\<lparr>cl_seq = 1, cl_data = link_row0, cl_hash = digest0\<rparr>])"
proof -
  have f: "map (\<lambda>k. (k, dget k link_fields0)) INGEST_LINK_FIELDS = link_fields0" "\<forall>k \<in> set INGEST_LINK_FIELDS. dhas k link_fields0"
    by code_simp+
  have h: "chain_tip_hash (\<lambda>_. digest0) [] = digest0" by (simp add: chain_tip_hash_def chain_tip_def INGEST_GENESIS_HASH_def)
  have r: "ingest_compute_row_hash (\<lambda>_. digest0) link_row0 = Inr digest0"
    by (simp add: ingest_compute_row_hash_def link_row0_def link_fields0_def dhas_def)
  show ?thesis using f h r link_row0_ok
    by (simp add: append_audit_link_def link_row0_def opt_cell_def)
qed

definition forward_row0 :: forward_row where
  "forward_row0 = \<lparr>fo_id = u4_0 0, fo_tenant = tenant0, fo_event = event0, fo_key = event0, fo_status = ''pending'',
     fo_created = now0, fo_attempts = 0, fo_last_attempt = None, fo_last_error = None\<rparr>"

definition orch_db1 :: orch_db where
  "orch_db1 = orch_db0\<lparr>uuid_next := 1, ingest_events := [event_row0\<lparr>ev_seq := 1\<rparr>], forward_outbox := [forward_row0],
     chains := no_chains\<lparr>ingest_audit_log := [\<lparr>cl_seq = 1, cl_data = link_row0, cl_hash = digest0\<rparr>]\<rparr>\<rparr>"

lemma payload0 [simp]: "jget ''payload'' envelope0 = usage_with (JInt 250)" "jget ''idempotency_key'' envelope0 = JStr event0"
  "jget ''schema_version'' envelope0 = JInt 1" "jget ''source_product'' envelope0 = JStr ''sentinel''" "jget ''event_type'' envelope0 = JStr ''usage''"
  by (simp_all add: envelope0_def jget_def)

lemma record0_accepted: "record_envelope orch_x0 ingest_env0 envelope0 (usage_with (JInt 250)) tenant0 event0 orch_db0
  = (Inr \<lparr>ir_disposition = ACCEPTED, ir_event = event0, ir_reason = None, ir_dlq = None\<rparr>, orch_db1)"
proof -
  have "content_hash (xo_sha orch_x0) (usage_with (JInt 250)) = digest0" "xo_u4 orch_x0 = u4_0" "uuid_next orch_db0 = 0"
    by (simp_all add: content_hash_def sha0_const orch_x0_def orch_db0_def)
  then show ?thesis using persisted0
    by (simp add: record_envelope_def event_row0 jstring_def append_ingest_link_def link_fields0 sha0_const linked0 run_txn_def ingest_env0_def
        orch_db1_def orch_db0_def no_chains_def forward_row0_def)
qed

lemma process0: "process_envelope orch_x0 orch_st0 ingest_env0 envelope0 orch_db0
  = (Inr \<lparr>ir_disposition = ACCEPTED, ir_event = event0, ir_reason = None, ir_dlq = None\<rparr>, orch_db1)"
proof -
  obtain kvs where p: "usage_with (JInt 250) = JObj kvs" by (simp add: usage_with_def)
  have k: "jget ''event_type'' kvs = JStr ''usage''" "jget ''event_id'' kvs = JStr event0" "jget ''tenant_id'' kvs = JStr tenant0" "jhas ''tenant_id'' kvs"
    using p by (auto simp: usage_with_def jget_def jhas_def)
  show ?thesis using k record0_accepted
    by (simp add: process_envelope_def p orch_st0_def orch_x0_def [THEN arg_cong, of xo_event_valid] jstring_def)
qed

lemma request_envelope0: "request_envelope orch_x0 orch_st0 ingest_env0 orch_rq0 = Some envelope0"
  using verified0 loads0 envelope_ok0 no_nul0 by (simp add: request_envelope_def)

lemma received0: "orch_out0 = \<lparr>io_reply = Ingest_accepted event0,
    io_scheduled = Some (event0, case usage_with (JInt 250) of JObj kvs \<Rightarrow> kvs | _ \<Rightarrow> []), io_db = orch_db1\<rparr>"
  using serve_ingest_Some [OF request_envelope0 process0] by simp

section \<open>The system\<close>

definition distribution_st0 :: distribution_settings where
  "distribution_st0 = \<lparr>dg_service_token = Some ''t'', dg_admin_token = Some ''t'', dg_targets = [(''s1'', ''https://s1'')],
     dg_intake_path = ''/intake'', dg_max_attempts = 3\<rparr>"

definition coordination_st0 :: coordination_settings where
  "coordination_st0 = \<lparr>co_admin_token = Some ''t'', co_allowlist = [], co_allow_http = False, co_health_path = ''/health'', co_staleness = 60,
     co_threshold = 3, co_distribution = distribution_st0,
     co_relay = \<lparr>rs_tokens = [(''delta'', ''k'')], rs_paths = DEFAULT_RELAY_ALLOWED_PATHS, rs_max_body = 1000\<rparr>\<rparr>"

definition messaging_st0 :: messaging_settings where
  "messaging_st0 = \<lparr>ms_max_body = 100, ms_max_value = 100, ms_max_page = 50, ms_max_messages = 10, ms_max_keys = 10\<rparr>"

definition gateway_st0 :: gateway_settings where
  "gateway_st0 = \<lparr>gw_enabled = True, gw_default_limit = 60, gw_max_limit = 6000, gw_max_keys = 20\<rparr>"

definition side_st0 :: side_settings where
  "side_st0 = \<lparr>ss_tokens = [(''delta'', ''k'')], ss_max_body = 1000\<rparr>"

definition orch_c0 :: orch_config where
  "orch_c0 = \<lparr>oc_ext = orch_x0, oc_url = \<lparr>ux_urlsplit = (\<lambda>_. None), ux_ip = (\<lambda>_. None)\<rparr>, oc_ingest = orch_st0,
     oc_automation = \<lparr>au_enabled = True, au_max_rules = 20\<rparr>, oc_coordination = coordination_st0, oc_messaging = messaging_st0,
     oc_gateway = gateway_st0, oc_identity = side_st0, oc_safety = side_st0\<rparr>"

lemma orch_inv0: "orch_inv orch_c0 orch_db0"
  by (simp add: orch_inv_def table_views chains_ok_def chain_ok_def orch_db0_def no_chains_def orch_c0_def messaging_st0_def gateway_st0_def side_rows_ok_def)

lemma reached0: "orch_reach orch_c0 (orch_db0, w) (orch_db1, w)"
proof -
  have "orch_step orch_c0 (orch_db0, w) (io_db orch_out0, w)"
    using Ingest_step [of ingest_env0 orch_c0 orch_db0 w orch_rq0] ingest_calm0 by (simp add: orch_c0_def)
  then show ?thesis using reach_step [OF reach_refl] received0 by simp
qed

section \<open>A drain to Delta\<close>

definition drain_p0 :: drain_params where
  "drain_p0 = \<lparr>dn_env = (\<lambda>_. Some ''s''), dn_mac = (\<lambda>_ _. ''abcd''), dn_jsonb = id, dn_limit = 10, dn_max_attempts = 3, dn_clock = 100000000,
     dn_now = now0, dn_race = (\<lambda>_ d. d), dn_fault = (\<lambda>_. Txn_ok)\<rparr>"

lemma dispatch_secret0: "dispatch_secret (dn_env drain_p0) = Inr ''s''"
  by (simp add: dispatch_secret_def drain_p0_def)

lemma served_dispatch0:
  assumes "sign_delta (dn_mac drain_p0) (dn_env drain_p0) body attempt (dn_clock drain_p0) = Inr h"
  shows "o_reply (serve_usage externals250 app0 env0 (delta_request body h) empty_db) = Accepted True False (Some (uuid0 73))"
proof -
  have s: "sign_delta (\<lambda>_ _. ''abcd'') (dn_env drain_p0) body attempt 100000000 = Inr h" using assms by (simp add: drain_p0_def)
  have a: "is_ascii ''abcd''" by (simp add: is_ascii_def)
  have v: "usage_authentic externals250 app0 env0 (delta_request body h) = Inr True"
    using dispatched_verify [OF s dispatch_secret0 a, of "sv_clock env0"]
    by (simp add: usage_authentic_def externals0_def app0_def env0_def HMAC_TOLERANCE_SECONDS_def delta_request_def)
  have e: "sv_post env0 = NoFault" "\<not> es_enabled (as_engine app0)" "\<not> kc_enabled (as_kill app0)" by (simp_all add: env0_def app0_def)
  show ?thesis
    using ingest_usage_authentic [OF v, of "usage_with (JInt 250)" empty_db] e post_usage0
    by (simp add: serve_usage_def failsafe_def build_usage_record0 run_tx_def evaluate_after_post_def evaluate_kill_switch_def)
qed

lemma select0: "select_pending id 10 orch_db1 = [\<lparr>pw_id = u4_0 0, pw_key = event0, pw_attempts = 0, pw_event = Some (''usage'', usage_with (JInt 250))\<rparr>]"
proof -
  have "dget ''event_type'' (extract_common (usage_with (JInt 250))) = CStr ''usage''" by code_simp
  then show ?thesis by (simp add: select_pending_def orch_db1_def forward_row0_def event_row0_def)
qed

lemma drained0: "\<exists>y w'. dispatch_pending drain_p0 (post_to_delta externals250 app0 (\<lambda>_. env0) (\<lambda>_. Answered)) (orch_db1, empty_db)
    = (Inr y, orch_db1\<lparr>forward_outbox := [forward_row0\<lparr>fo_status := ''forwarded'', fo_last_attempt := Some now0\<rparr>]\<rparr>, w')"
proof -
  obtain h where h: "sign_delta (dn_mac drain_p0) (dn_env drain_p0) (json_dumps False (usage_with (JInt 250))) 1 (dn_clock drain_p0) = Inr h"
    using dispatch_secret0 by (simp add: sign_delta_def Let_def)
  have p: "post_to_delta externals250 app0 (\<lambda>_. env0) (\<lambda>_. Answered) (delta_request (json_dumps False (usage_with (JInt 250))) h) empty_db
      = (Inr 200, o_db (serve_usage externals250 app0 env0 (delta_request (json_dumps False (usage_with (JInt 250))) h) empty_db))"
    using served_dispatch0 [OF h] by (simp add: post_to_delta_def Let_def)
  have r: "apply_row drain_p0 (u4_0 0) ''forwarded'' 0 (Some (dn_now drain_p0)) None orch_db1
      = (Inr (), orch_db1\<lparr>forward_outbox := [forward_row0\<lparr>fo_status := ''forwarded'', fo_last_attempt := Some now0\<rparr>]\<rparr>)"
    by (simp add: apply_row_def run_txn_def apply_outcome_def update_where_def orch_db1_def forward_row0_def drain_p0_def)
  have "dn_jsonb drain_p0 = id" "dn_limit drain_p0 = 10" by (simp_all add: drain_p0_def)
  then show ?thesis using h p r select0
    by (simp add: dispatch_pending_def dispatch_row_def record_then_def Let_def del: json_dumps.simps)
qed

lemma forwarded_record0: "forwarded_record id externals250 [event_row0\<lparr>ev_seq := 1\<rparr>] event0 = Some record0"
  using build_usage_record0 by (simp add: forwarded_record_def event_row0_def)

end
