(* ===== verification/Orch_Histories.thy ===== *)
theory Orch_Histories
  imports Orch_Forward
begin

text \<open>
  Two properties of histories: an inbox that is read again and again while the system runs, and
  policies that are submitted, pushed and rolled back while the fleet answers or fails.
\<close>

section \<open>Reading an inbox\<close>

lemma frame_mail:
  "ingest_frame d d' \<Longrightarrow> agent_messages d' = agent_messages d"
  "outbox_frame d d' \<Longrightarrow> agent_messages d' = agent_messages d"
  "dist_frame d d' \<Longrightarrow> agent_messages d' = agent_messages d"
  "reg_frame d d' \<Longrightarrow> agent_messages d' = agent_messages d"
  "engine_frame d d' \<Longrightarrow> agent_messages d' = agent_messages d"
  "rule_frame d d' \<Longrightarrow> agent_messages d' = agent_messages d"
  "state_frame d d' \<Longrightarrow> agent_messages d' = agent_messages d"
  "gate_frame d d' \<Longrightarrow> agent_messages d' = agent_messages d"
  "side_frame d d' \<Longrightarrow> agent_messages d' = agent_messages d"
  "relay_frame d d' \<Longrightarrow> agent_messages d' = agent_messages d"
  by (auto simp: ingest_frame_def outbox_frame_def dist_frame_def reg_frame_def engine_frame_def rule_frame_def state_frame_def gate_frame_def
      side_frame_def relay_frame_def)

lemma step_mail:
  "submit_step sha d d' \<Longrightarrow> mail_grows d d'"
  "drive_step sha d d' \<Longrightarrow> mail_grows d d'"
  "engine_step sha tn d d' \<Longrightarrow> mail_grows d d'"
  "state_step sha d d' \<Longrightarrow> mail_grows d d'"
  using frame_mail(3,5,7) by (auto simp: submit_step_def drive_step_def engine_step_def state_step_def mail_grows_def)

lemma coordinate_mail:
  assumes "coordinate x u hash st env post auth raw (d, w) = (y, d', w')" "dist_ok d"
  shows "agent_messages d' = agent_messages d"
proof -
  have push: "agent_messages (fst t) = agent_messages d" if "coordinate_push x u hash st env post policy tn (d, w) = (z, t)" for policy tn z t
    using coordinate_push_step [of x u hash st env post policy tn d w z "fst t" "snd t"] that assms(2) frame_mail(3) by simp
  have "agent_messages (fst (d', w')) = agent_messages d"
    using assms(1) [unfolded coordinate_def]
    by (rule route_keeps) (auto split: json.splits if_splits sum.splits prod.splits dest: push)
  then show ?thesis by simp
qed

lemma orch_step_mail:
  assumes "orch_step c s s'" "orch_inv c (fst s)"
  shows "mail_grows (fst s) (fst s')"
  using assms
proof (induction rule: orch_step.induct)
  case (Ingest_step env d w rq)
  then show ?case using frame_mail(1) [OF serve_ingest_frame] by (simp add: mail_grows_def)
next
  case (Dispatch_step p post d w res d' w')
  then show ?case using frame_mail(2) [OF dispatch_pending_frame [OF Dispatch_step(2,1)]] by (simp add: mail_grows_def)
next
  case (Submit_step hash sub auth raw d y d' w)
  then show ?case using step_mail(1) [OF submit_distribution_step [OF Submit_step(1) orch_invD(2)]] by simp
next
  case (Drive_step drv push i tn d w z d' w')
  then show ?case using drive_distribution_keeps [OF Drive_step(1), of "\<lambda>_. True"] step_mail(2) by simp
next
  case (Rollback_step admin sub auth raw d y d' w)
  then show ?case using step_mail(1) [OF rollback_cases(1) [OF Rollback_step(1) orch_invD(2)]] by simp
next
  case (Coordinate_step hash cenv push auth raw d w h d' w')
  then show ?case using coordinate_mail orch_invD(2) by (fastforce simp: mail_grows_def)
next
  case (Automation_step rules push tn ev ty src payload d w z d' w')
  then show ?case using step_mail(3) [OF evaluate_step] by simp
next
  case (Send_step mg dlen caller raw d h d' w)
  have "mail_calm (xo_sha (oc_ext c)) (ms_max_messages (oc_messaging c)) mg" using Send_step by (simp add: mail_calm_def mail_grows_def)
  then show ?case using send_message_step [OF Send_step(3)] by (simp add: mail_step_def)
next
  case (Write_state_step mg dlen caller k raw d h d' w)
  then show ?case using step_mail(4) [OF write_state_step [OF Write_state_step(3,1,2)]] by simp
next
  case (Identity_step se aware auth raw d h d' w)
  have "identity_log.side_step (xo_sha (oc_ext c)) d d'"
    using Identity_step(2) unfolding ingest_identity_event_def
    by (rule identity_log.push_step) (simp add: Identity_step(1) identity_log.side_step_refl)
  then show ?case using frame_mail(9) [of d d'] by (simp add: identity_log.side_step_def mail_grows_def)
next
  case (Safety_step se aware auth raw d h d' w)
  have "safety_log.side_step (xo_sha (oc_ext c)) d d'"
    using Safety_step(2) unfolding ingest_safety_event_def
    by (rule safety_log.push_step) (simp add: Safety_step(1) safety_log.side_step_refl)
  then show ?case using frame_mail(9) [of d d'] by (simp add: safety_log.side_step_def mail_grows_def)
qed (auto simp: mail_grows_def reg_step_def rule_step_def gate_step_def relay_step_def orch_invD
    dest!: registry_route_step health_check_step [where sha = "\<lambda>_. []"] create_automation_rule_step patch_rule_step [where cap = 0]
      delete_rule_step [where cap = 0] external_query_cases(1) [where cap = 0] issue_external_key_step [where sha = "\<lambda>_. []"]
      revoke_external_key_step [where sha = "\<lambda>_. []" and cap = 0] relay_dispatch_step frame_mail)

lemma orch_reach_mail:
  assumes "orch_reach c s s'" "orch_inv c (fst s)"
  shows "mail_grows (fst s) (fst s')"
  using assms
proof (induction rule: orch_reach.induct)
  case (reach_step t t')
  then show ?case using orch_step_mail orch_reach_inv mail_grows_trans by blast
qed (simp add: mail_grows_def)

text \<open>The states of successive reads: each is reached from the one before.\<close>

fun orch_history :: "orch_config \<Rightarrow> (orch_db \<times> 'w) list \<Rightarrow> bool" where
  "orch_history c [] = True"
| "orch_history c [s] = orch_inv c (fst s)"
| "orch_history c (s # s' # ss) = (orch_inv c (fst s) \<and> orch_reach c s s' \<and> orch_history c (s' # ss))"

lemma orch_history_mail: "orch_history c ss \<Longrightarrow> mail_history (map fst ss)"
  by (induction c ss rule: orch_history.induct) (auto simp: orch_inv_def mail_ok_def intro: orch_reach_mail)

section \<open>Policies and the fleet\<close>

text \<open>Submissions, rollbacks and pushes in any order, with the Sentinels of the deployment as the receivers.\<close>

datatype dist_op =
  Submit_op "json \<Rightarrow> string" submit_env "string option" string
| Rollback_op "string option" submit_env "string option" string
| Drive_op drive_env ident ident

fun dist_run :: "orch_ext \<Rightarrow> distribution_settings \<Rightarrow> sentinel_link \<Rightarrow> dist_op list \<Rightarrow> orch_db \<times> sentinel_world \<Rightarrow> orch_db \<times> sentinel_world" where
  "dist_run x st L [] s = s"
| "dist_run x st L (Submit_op hash env auth raw # ops) (d, w) = dist_run x st L ops (snd (submit_distribution x hash st env auth raw d), w)"
| "dist_run x st L (Rollback_op admin env auth raw # ops) (d, w) = dist_run x st L ops (snd (rollback_policy_distribution x admin env auth raw d), w)"
| "dist_run x st L (Drive_op env i tn # ops) s = dist_run x st L ops (snd (drive_distribution x st env (post_to_sentinel L) i tn s))"

abbreviation fleet_holds :: "sentinel_link \<Rightarrow> string \<Rightarrow> json \<Rightarrow> sentinel_world \<Rightarrow> bool" where
  "fleet_holds L \<equiv> \<lambda>url rec w. stores (sl_params L url) (sw_db w url) rec"

definition records :: "orch_db \<Rightarrow> json set" where
  "records d = ds_record ` set (policy_distributions d)"

lemma records_kept: "same_plan d d' \<Longrightarrow> records d' = records d" "submit_step sha d d' \<Longrightarrow> records d \<subseteq> records d'"
proof -
  assume "same_plan d d'"
  then have "map dist_key (policy_distributions d') = map dist_key (policy_distributions d)" by (simp add: same_plan_def)
  then have "map (snd \<circ> snd \<circ> dist_key) (policy_distributions d') = map (snd \<circ> snd \<circ> dist_key) (policy_distributions d)"
    by (metis list.map_comp)
  then have "map ds_record (policy_distributions d') = map ds_record (policy_distributions d)" by (simp add: comp_def dist_key_def)
  then show "records d' = records d" by (simp only: records_def set_map [symmetric])
qed (auto simp: submit_step_def records_def)

text \<open>One operation, and what it keeps.\<close>

lemma dist_op_cases:
  assumes "dist_run x st L [op] (d, w) = (d', w')" "dist_ok d"
  obtains (submit) "submit_step (xo_sha x) d d'" "w' = w"
    | (drive) env i tn y where "drive_distribution x st env (post_to_sentinel L) i tn (d, w) = (y, d', w')" "same_plan d d'"
proof (cases op)
  case (Submit_op hash env auth raw)
  then show thesis using that(1) assms submit_distribution_step [of x hash st env auth raw d] by (metis dist_run.simps(1,2) prod.collapse prod.inject)
next
  case (Rollback_op admin env auth raw)
  then show thesis using that(1) assms rollback_cases(1) [of x admin env auth raw d] by (metis dist_run.simps(1,3) prod.collapse prod.inject)
next
  case (Drive_op env i tn)
  obtain y where y: "drive_distribution x st env (post_to_sentinel L) i tn (d, w) = (y, d', w')"
    using assms(1) by (metis Drive_op dist_run.simps(1,4) prod.collapse)
  show thesis using that(2) [OF y] drive_distribution_keeps [OF y, of "\<lambda>_. True"] by (simp add: drive_step_def)
qed

lemma dist_op_keeps:
  assumes "dist_run x st L [op] (d, w) = (d', w')" "dist_ok d"
  shows "dist_ok d' \<and> records d \<subseteq> records d'"
  using assms
proof (cases rule: dist_op_cases)
  case submit
  then show ?thesis using records_kept(2) [OF submit(1)] by (simp add: submit_step_def)
next
  case drive
  then show ?thesis using records_kept(1) [OF drive(2)] dist_ok_same_plan [OF drive(2) assms(2)] by simp
qed

lemma dist_run_Cons: "dist_run x st L (op # ops) s = dist_run x st L ops (dist_run x st L [op] s)"
  by (cases op; cases s) simp_all

lemma dist_run_keeps:
  assumes "dist_run x st L ops (d, w) = (d', w')" "dist_ok d"
  shows "dist_ok d' \<and> records d \<subseteq> records d'"
  using assms
proof (induction ops arbitrary: d w)
  case (Cons op ops)
  obtain d1 w1 where e: "dist_run x st L [op] (d, w) = (d1, w1)" by fastforce
  have "dist_run x st L ops (d1, w1) = (d', w')" using Cons.prems(1) e by (simp only: dist_run_Cons [of x st L op ops])
  then show ?case using Cons.IH dist_op_keeps [OF e Cons.prems(2)] by blast
qed simp

lemma dist_run_delivered:
  assumes "dist_run x st L ops (d, w) = (d', w')" "gates_refuse L" "\<forall>rec \<in> records d'. wire_faithful L rec"
    and "dist_ok d" "delivered st (fleet_holds L) d w"
  shows "delivered st (fleet_holds L) d' w'"
  using assms(1,4,5)
proof (induction ops arbitrary: d w)
  case (Cons op ops)
  obtain d1 w1 where e: "dist_run x st L [op] (d, w) = (d1, w1)" by fastforce
  have later: "dist_run x st L ops (d1, w1) = (d', w')" using Cons.prems(1) e by (simp only: dist_run_Cons [of x st L op ops])
  have r: "\<forall>r \<in> set (policy_distributions d). gates_refuse L \<and> wire_faithful L (ds_record r)"
    using dist_run_keeps [OF Cons.prems(1,2)] assms(2,3) by (auto simp: records_def)
  have "delivered st (fleet_holds L) d1 w1"
    using e Cons.prems(2)
  proof (cases rule: dist_op_cases)
    case submit
    then show ?thesis using submit_step_delivered [OF submit(1) Cons.prems(3)] by simp
  next
    case (drive env i tn y)
    show ?thesis by (rule sentinel_peer.drive_outcome(2) [OF drive(1) r Cons.prems(2,3)])
  qed
  then show ?case using Cons.IH [OF later] dist_op_keeps [OF e Cons.prems(2)] by blast
qed simp

end
