(* ===== verification/Samples_Services.thy ===== *)
theory Samples_Services
  imports Samples_Orchestrator Orch_Histories Orch_Gateway_Facts
begin

text \<open>
  Concrete inputs for the other services of the Orchestrator: a message and a shared value of an
  agent, an identity event, a relayed request to a healthy Sentinel, a policy that was pushed
  twice, and a third party's key.
\<close>

definition services_x :: orch_ext where
  "services_x = orch_x0\<lparr>xo_loads := (\<lambda>raw.
     if raw = ''state'' then Some (JObj [(''expected_version'', JNull), (''value'', JObj [])])
     else if raw = ''identity'' then Some (JObj [(''tenant_id'', JStr ''t''), (''principal_type'', JStr ''operator''), (''principal_id'', JStr ''u''),
       (''action'', JStr ''login''), (''occurred_at'', JStr ''now''), (''idempotency_key'', JStr ''k'')])
     else if raw = ''relay'' then Some (JObj [(''tenant_id'', JStr ''t''), (''sentinel_id'', JStr ''s1''), (''target_path'', JStr ''/v1/models''), (''payload'', JObj [])])
     else if raw = ''rollback'' then Some (JObj [(''tenant_id'', JStr ''t1''), (''policy_id'', JStr ''p1'')])
     else None)\<rparr>"

section \<open>Messages and state\<close>

definition messaging_env0 :: messaging_env where
  "messaging_env0 = \<lparr>mg_read = None, mg_race = id, mg_write = Txn_ok, mg_now = now0, mg_race2 = id, mg_reread = None, mg_audit = Txn_ok\<rparr>"

definition state_body0 :: "(string \<times> json) list" where
  "state_body0 = [(''expected_version'', JNull), (''value'', JObj [])]"

lemma parse_state0: "parse_body (xo_loads services_x) ''state'' = Inr state_body0"
  by code_simp

lemma answered0:
  assumes "case fst s of Inl _ \<Rightarrow> False | Inr resp \<Rightarrow> hr_status resp = n"
  shows "\<exists>resp d'. s = (Inr resp, d') \<and> hr_status resp = n"
  using assms by (cases s) (auto split: sum.splits)

lemma written0: "\<exists>resp d'. write_state services_x (\<lambda>_. 2) messaging_st0 messaging_env0 ''t'' ''k'' ''state'' orch_db0 = (Inr resp, d') \<and> hr_status resp = 200"
  by (rule answered0) code_simp

definition message0 :: "int \<Rightarrow> string \<Rightarrow> agent_message" where
  "message0 n k = \<lparr>am_seq = n, am_tenant = ''t'', am_sender = (''a'', ''b'', ''c''), am_recipient = (''x'', ''y'', ''z''), am_type = ''m'', am_body = JObj [],
     am_key = k, am_created = now0\<rparr>"

definition mail_db0 :: orch_db where "mail_db0 = orch_db0\<lparr>agent_messages := [message0 1 ''a'', message0 2 ''b'']\<rparr>"

lemma mail_inv0: "orch_inv orch_c0 mail_db0"
  using orch_inv0 by (simp add: orch_inv_def table_views mail_db0_def orch_db0_def message0_def orch_c0_def messaging_st0_def gateway_st0_def)

section \<open>Identity events\<close>

definition side_env0 :: side_env where
  "side_env0 = \<lparr>se_decode = None, se_insert = Txn_ok, se_now = now0, se_race = id, se_audit = Txn_ok\<rparr>"

lemma pushed0: "\<exists>resp d'. ingest_identity_event services_x (\<lambda>_. Some 0) side_st0 side_env0 (Some ''Bearer k'') ''identity'' orch_db0 = (Inr resp, d')
    \<and> hr_status resp = 202"
  by (rule answered0) code_simp

section \<open>A policy that was pushed twice\<close>

definition record_a :: json where "record_a = JObj (deny_record ''t1'' 1 sig_a)"

definition dist_row0 :: "ident \<Rightarrow> instant \<Rightarrow> distribution_row" where
  "dist_row0 i now = \<lparr>ds_id = i, ds_policy = ''p1'', ds_version = JInt 1, ds_tenant = ''t1'', ds_type = ''model_denylist'', ds_state = ''distributed'',
     ds_record = record_a, ds_content_hash = ''h'', ds_created = now\<rparr>"

definition dist_target0 :: "ident \<Rightarrow> ident \<Rightarrow> target_dist_row" where
  "dist_target0 i j = \<lparr>dt_id = i, dt_distribution = j, dt_tenant = ''t1'', dt_sentinel = ''s1'', dt_state = ''distributed'', dt_attempts = 1, dt_max_attempts = 3,
     dt_last_error = None, dt_next_attempt = None, dt_distributed = Some 1, dt_updated = 1\<rparr>"

definition pushed_db0 :: orch_db where
  "pushed_db0 = orch_db0\<lparr>policy_distributions := [dist_row0 ''d1'' 1, dist_row0 ''d2'' 2],
     policy_distribution_targets := [dist_target0 ''a'' ''d1'', dist_target0 ''b'' ''d2'']\<rparr>"

definition fleet0 :: sentinel_link where
  "fleet0 = \<lparr>sl_params = (\<lambda>_. intake0\<lparr>ip_loads := (\<lambda>s. Some record_a)\<rparr>), sl_wire = (\<lambda>_. ''r''), sl_gate = (\<lambda>_ _. None),
     sl_env = (\<lambda>_ _. intake_env0), sl_fate = (\<lambda>_ _. Push_answered)\<rparr>"

definition world0 :: sentinel_world where
  "world0 = \<lparr>sw_db = (\<lambda>_. policies1), sw_posts = 0\<rparr>"

definition submit_env0 :: submit_env where
  "submit_env0 = \<lparr>sb_persist = Txn_ok, sb_audit = Txn_ok, sb_now = 3\<rparr>"

lemma fleet0_ok: "gates_refuse fleet0" "wire_faithful fleet0 record_a"
  by (simp_all add: gates_refuse_def wire_faithful_def fleet0_def)

lemma stored0: "stores (sl_params fleet0 url) (sw_db world0 url) record_a"
  using sig_ok
  by (auto simp: stores_def fleet0_def world0_def record_a_def policies1_def policies0_def version_a_def version_of_claims_def claims_for_def deny_record_def
      jget_def intake0_def)

lemma dist_ok0: "dist_ok pushed_db0"
  by (simp add: dist_ok_def pushed_db0_def dist_row0_def dist_target0_def)

lemma delivered0: "delivered distribution_st0 (fleet_holds fleet0) pushed_db0 world0"
  using stored0 by (simp add: delivered_def pushed_db0_def dist_row0_def dist_target0_def distribution_st0_def)

lemma records0: "records pushed_db0 = {record_a}"
  by (simp add: records_def pushed_db0_def dist_row0_def)

lemma rolled_back0: "case fst (rollback_policy_distribution services_x (Some ''k'') submit_env0 (Some ''Bearer k'') ''rollback'' pushed_db0) of
    Inl _ \<Rightarrow> False | Inr (resp, started) \<Rightarrow> started = Some (u4_0 0, ''t1'')"
  by code_simp

text \<open>The rollback is submitted, with the record of the older push and its target.\<close>

lemma rollback0: "\<exists>resp. rollback_policy_distribution services_x (Some ''k'') submit_env0 (Some ''Bearer k'') ''rollback'' pushed_db0
    = (Inr (resp, Some (u4_0 0, ''t1'')), snd (rollback_policy_distribution services_x (Some ''k'') submit_env0 (Some ''Bearer k'') ''rollback'' pushed_db0))"
  using rolled_back0 by (cases "rollback_policy_distribution services_x (Some ''k'') submit_env0 (Some ''Bearer k'') ''rollback'' pushed_db0")
    (auto split: sum.splits)

lemma rollback_records0: "list_all (\<lambda>r. ds_record r = record_a)
    (policy_distributions (snd (rollback_policy_distribution services_x (Some ''k'') submit_env0 (Some ''Bearer k'') ''rollback'' pushed_db0)))"
  by code_simp

section \<open>A relayed request\<close>

definition sentinel0 :: sentinel_row where
  "sentinel0 = \<lparr>sr_id = ''s1'', sr_endpoint = ''https://s1'', sr_peer_auth_ref = ''global'', sr_capabilities = [''budget_limit''], sr_health = ''healthy'',
     sr_failures = 0, sr_checked = Some 0, sr_healthy = Some 0, sr_enabled = True, sr_created = 0, sr_updated = 0\<rparr>"

definition fleet_db0 :: orch_db where "fleet_db0 = orch_db0\<lparr>sentinel_registry := [sentinel0]\<rparr>"

definition url0 :: url_ext where
  "url0 = \<lparr>ux_urlsplit = (\<lambda>_. Some \<lparr>up_scheme = ''https'', up_username = None, up_password = None, up_fragment = [], up_hostname = Some ''s1'',
       up_port = Some None\<rparr>),
     ux_ip = (\<lambda>h. if h = ''s1'' then None else Some \<lparr>ip_private = False, ip_loopback = False, ip_link_local = False, ip_multicast = False,
       ip_reserved = False, ip_unspecified = False\<rparr>)\<rparr>"

definition relay_env0 :: relay_env where
  "relay_env0 = \<lparr>rv_decode = None, rv_read = None, rv_now = 1, rv_dns = (\<lambda>_. Dns_addrs [''8.8.8.8'']), rv_audit = Txn_ok\<rparr>"

text \<open>The answer of the Sentinel, which counts the calls it gets.\<close>

definition relay_post0 :: "string \<Rightarrow> string \<Rightarrow> string \<Rightarrow> nat \<Rightarrow> relay_result \<times> nat" where
  "relay_post0 url auth body n = (Relay_response 200 ''ok'' ''text'', Suc n)"

lemma relayed0: "let (y, d', w') = relay_dispatch services_x url0 coordination_st0 relay_env0 relay_post0 (Some ''Bearer k'') (Some ''a'') ''relay'' (fleet_db0, 0)
    in y = Inr (Relayed 200 ''ok'' ''text'') \<and> w' = 1"
  by code_simp

section \<open>A third party's key\<close>

definition key0 :: api_key where
  "key0 = \<lparr>tk_id = ''k1'', tk_tenant = ''t'', tk_hash = digest0, tk_label = ''l'', tk_scopes = [''events:read''], tk_status = ''active'', tk_limit = 1, tk_created = 0,
     tk_revoked = None\<rparr>"

definition key_db0 :: orch_db where "key_db0 = orch_db0\<lparr>third_party_api_keys := [key0]\<rparr>"

definition gate_env0 :: gate_env where
  "gate_env0 = \<lparr>ge_auth = None, ge_audit = Txn_ok, ge_count = Txn_ok, ge_read = None, ge_now = 0\<rparr>"

lemma served0_once: "served services_x (\<lambda>_ _. True) gateway_st0 ''k1'' 0 [Read_events gate_env0 (Some ''x'') None No_cursor] key_db0 = 1"
  by code_simp

section \<open>A rule\<close>

definition rule0 :: automation_rule where
  "rule0 = \<lparr>rl_id = ''r1'', rl_tenant = ''t1'', rl_name = ''n'', rl_enabled = True, rl_event_type = ''usage'', rl_source = None, rl_conditions = [],
     rl_action = REDISTRIBUTE_POLICY, rl_config = [(''distribution_id'', JStr ''d1'')], rl_created = 0, rl_updated = 0\<rparr>"

definition rule_db0 :: orch_db where "rule_db0 = pushed_db0\<lparr>automation_rules := [rule0]\<rparr>"

definition drive_env0 :: drive_env where
  "drive_env0 = \<lparr>de_read = None, de_write = (\<lambda>_. Txn_ok), de_audit = (\<lambda>_. Txn_ok), de_now = 5, de_final = Txn_ok, de_final_audit = Txn_ok\<rparr>"

definition rule_env0 :: rule_env where
  "rule_env0 = \<lparr>ru_load = None, ru_drive = (\<lambda>_. drive_env0), ru_audit = (\<lambda>_. Txn_ok), ru_record = (\<lambda>_. Txn_ok)\<rparr>"

end
