(* ===== verification/Spec2Isabelle.thy ===== *)
theory Spec2Isabelle
  imports Further_Results Samples_Services
begin

text \<open>
  A verification library for the spend-control core of the Anoryx ecosystem: Delta's ledger,
  ingest, budget engine, kill switch and allocation administration; the parts of Sentinel that
  act on requests (rate limits, signed policies, the decision cache and the router); and the AI
  Orchestrator that carries events from one to the other and policies back. Delta lives under
  \<open>src/Delta/src/delta\<close>, Sentinel under \<open>src/Anoryx-Sentinel/src\<close>, the Orchestrator under
  \<open>src/Anoryx-AI-Orchestrator/src/orchestrator\<close>.

  \<^bold>\<open>How the parts interact.\<close> Sentinel emits events. The Orchestrator's
  ingest verifies, deduplicates and stores them, and its dispatcher signs the usage events and
  forwards them to Delta. Delta's ingest checks their signature,
  validates them and posts balanced transactions into an append-only ledger; an event that can
  never be posted becomes a dead letter. After a posting the budget engine sums the scope's
  spend in the current period and queues an enforcement or a lifting as a versioned policy; the
  kill switch does the same for unauthorized agents and single costs above a ceiling. Both
  outboxes are drained to an HTTP seam; the Orchestrator distributes signed policies to the
  registered Sentinels, with retries, and can redistribute or roll back one. Sentinel's intake
  verifies such a policy and stores it; each request then passes the rate limiter, the model
  and budget policies, and the router, which picks a provider. Beside this loop the Orchestrator
  keeps agents' messages and shared state, relays requests to healthy Sentinels, takes identity
  and safety events, serves third parties and runs automation rules over accepted events; each
  of these services writes to a hash-chained audit log.

  \<^bold>\<open>Theories and sources, Delta.\<close> \<open>Delta_Prelude\<close> holds results as sums, tables as lists, decimal
  texts and the generic lemmas. \<open>Calendar\<close> and \<open>Periods\<close> model UTC dates and
  \<open>budget_engine/periods.py\<close>; \<open>Money\<close> \<open>money.py\<close>; \<open>Identifiers\<close> \<open>identifiers.py\<close>; \<open>Ledger\<close>
  \<open>accounts.py\<close>, \<open>cost_center.py\<close>, \<open>ledger.py\<close>, \<open>reconciliation.py\<close> and \<open>allocation.py\<close>; \<open>Usage\<close>
  \<open>usage.py\<close>, \<open>revenue.py\<close> and \<open>burn_rate.py\<close>; \<open>Budget\<close> \<open>budget.py\<close>, \<open>budget_policy.py\<close> and
  \<open>attribution.py\<close>. \<open>Schema\<close> is the relational schema: one record \<open>db\<close> with a list per table, its
  keys, checks and triggers. \<open>Ledger_Store\<close> is \<open>persistence/ledger_store.py\<close> and \<open>balances.py\<close>;
  \<open>Json_Text\<close>, \<open>Hash_Chain\<close> and \<open>Audit_Log\<close> are \<open>persistence/audit_log.py\<close>. \<open>Outbox\<close>, \<open>Budget_Engine\<close>,
  \<open>Budget_Eval\<close> and \<open>Spend\<close> are \<open>budget_engine\<close>; \<open>Kill_Switch\<close> is \<open>kill_switch\<close>; \<open>Ingest_Posting\<close>,
  \<open>Ingest\<close> and \<open>Ingest_Serve\<close> are \<open>ingest\<close>; \<open>Allocation_Admin\<close> is \<open>allocation_admin\<close>. \<open>Budget_Reach\<close>,
  \<open>Budget_Steady\<close>, \<open>Kill_Reach\<close> and \<open>Allocation_Facts\<close> hold their invariants over reachable states.

  \<^bold>\<open>Theories and sources, Sentinel.\<close> \<open>Sliding_Window\<close> is the contract of a window limiter, a locale.
  \<open>Sentinel_Limiter\<close> is \<open>gateway/middleware/rate_limit.py\<close> and the health loop of
  \<open>gateway/redis_client.py\<close>; \<open>Limiter_Facts\<close> interprets the contract for a Redis tier,
  \<open>Limiter_Local\<close> refines the in-process limiter to a history of admissions, and
  \<open>Limiter_Streams\<close> treats the stream counter. \<open>Policy_Store\<close> is
  \<open>persistence/repositories/policy_repository.py\<close>; \<open>Policy_Enforce\<close> is \<open>policy/enforcement.py\<close> and
  \<open>policy/variants\<close>, \<open>Policy_Decision\<close> its specification; \<open>Policy_Intake\<close> is \<open>policy/intake.py\<close>,
  \<open>Intake_Facts\<close> what it guarantees; \<open>Eval_Cache\<close> is \<open>policy/eval_cache.py\<close>; \<open>Router_Select\<close> is
  \<open>gateway/router/selection.py\<close> and \<open>cost.py\<close>, \<open>Router_Facts\<close> what it guarantees. \<open>Samples\<close>,
  \<open>Samples_Enforcement\<close> and \<open>Samples_Sentinel\<close> are the concrete states of the witnesses.

  \<^bold>\<open>Theories and sources, Orchestrator.\<close> \<open>Json_Dumps\<close> is \<open>json.dumps\<close>. \<open>Orch_Http\<close> holds requests, answers,
  the settings of \<open>config.py\<close> and the bearer checks; \<open>Orch_Chain\<close> is what the chains
  of \<open>persistence/hash_chain.py\<close> share and \<open>Orch_Audit\<close> the eleven chains; \<open>Orch_Store\<close> is the tables.
  The functions of \<open>persistence/repositories.py\<close> stand with the services that call them. \<open>Orch_Ingest\<close> is \<open>ingest\<close>, \<open>pipeline\<close> and \<open>hmac_verify.py\<close>;
  \<open>Orch_Dispatch\<close> is \<open>dispatch\<close>; \<open>Orch_Distribution\<close> is \<open>distribution\<close> and the rollback of
  \<open>command_center/router.py\<close>; \<open>Orch_Sentinel\<close> is the intake route of Sentinel,
  \<open>admin/policies.py\<close>; \<open>Orch_Registry\<close> is \<open>coordination\<close>; \<open>Orch_Automation\<close> is \<open>automation\<close>;
  \<open>Orch_Messaging\<close> is \<open>messaging\<close>; \<open>Orch_Gateway\<close> is \<open>external_gateway\<close> and \<open>query\<close>; \<open>Orch_Side\<close> is
  \<open>identity\<close> and \<open>safety\<close>; \<open>Orch_Relay\<close> is \<open>relay\<close>. Their facts are in the theories with the
  suffix \<open>_Facts\<close>. \<open>Orch_System\<close> composes the services: \<open>orch_step\<close> is one request, drain or poll,
  \<open>orch_reach\<close> a sequence of them, \<open>orch_inv\<close> the invariant of all tables and chains.
  \<open>Orch_Forward\<close> runs the Orchestrator against Delta, \<open>Orch_Histories\<close> against a fleet of
  Sentinels. \<open>Samples_Orchestrator\<close> and \<open>Samples_Services\<close> are states of the witnesses.

  \<^bold>\<open>State and errors.\<close> A handler is a function from the request, its environment and the state to
  an answer and the state. A transaction is all or nothing: an exception inside it leaves the
  tables as they were. Exceptions are values of \<open>py_exc\<close> in a sum; the faults that an
  environment may inject (a lost connection, a failing commit, a concurrent winner) are fields
  of the environment records, so theorems quantify over them. Redis is a record of sorted sets
  and counters on which one command, or one MULTI/EXEC block, acts at once, with the effect that
  its documentation gives. Instants are integers (microseconds); money is an integer of cents;
  Sentinel's float costs are rationals with the rounding of each operation as a parameter.

  \<^bold>\<open>Interfaces.\<close> \<open>chained_log\<close> (a hash chain over any record type) is interpreted for the audit
  log, \<open>delivery_outbox\<close> (claiming and delivering rows) for the outboxes of the budget engine and
  of the kill switch, and \<open>window_limiter\<close> for a Redis tier and for the in-process history.
  Of the Orchestrator, \<open>audit_chain\<close> (built on \<open>chained_log\<close>) is interpreted for the eleven chains, \<open>intake_peer\<close> (what a
  distribution may rely on at its peer) for Sentinel's intake, and \<open>side_log\<close> (a deduplicated
  table with its chain) for the identity and the safety events.

  \<^bold>\<open>Parameters.\<close> HMAC, SHA-256, uuid5, the JSON decoder, pydantic's and \<open>fromisoformat\<close>'s reading of
  times, the policy signer and the HTTP peer of Delta; the JSON Schema validator, the JWS
  verification, the providers and the clocks of Sentinel; the URL parser, name resolution, the
  schema validators and the HTTP peers of the Orchestrator, of which Delta's ingest and
  Sentinel's intake are instances. What a theorem needs of them
  (collision freedom of the hash, say) is a hypothesis it names.

  \<^bold>\<open>What the theorems show.\<close> Delta: exactly-once posting, no silent loss, a balanced append-only
  ledger, spend that moves by exactly the cost, consecutive versions, enforcement that follows
  the cap, an outbox that loses nothing, alternating kill decisions, tampering that is detected,
  approval that spends the whole total, decisions that are final. Sentinel: no minute exceeds a
  tier's limit under any interleaving; the in-process limiter refines a full history; the
  stream counter is exact until a release is lost; a model decision is exactly its declarative
  specification; only verified records change policies and none twice; the cache serves only
  what was computed for the request; the router calls only permitted providers and reaches a
  working one. Orchestrator: every chain verifies and every table is well formed after any
  sequence of steps; an event answered with 202 is stored or dead-lettered; a forwarded event is in
  Delta's ledger exactly once, whatever is lost on the way; the outbox settles; a target marked
  distributed holds the policy; automation stays in its tenant; the relay reaches only governed
  Sentinels; shared state is a versioned register; an inbox is read once and in order; a key
  is served at most its limit; an identity event is stored once and audited. Three theorems
  state where the code departs from its documentation: a decision that outlives an accepted
  policy, an acceptance whose audit link is lost, a rollback that never takes effect.
  \<open>Further_Results\<close> holds results beside these: reversals, periods, reconciliation, bounded
  attempts, the effect of authorizations, costs that are never dead-lettered, refused attempts
  that starve a client, policies that apply nowhere after a change of tenant.

  \<^bold>\<open>Interleaving.\<close> In the histories of \<open>Orch_System\<close>, \<open>Orch_Forward\<close> and \<open>Orch_Histories\<close> a request runs
  to its end before the next one starts. What other requests do between the transactions of one
  request is a part of the environments of ingest, drain, messaging and the side seams (the
  fields named \<open>race\<close>): the theorem on accepted events quantifies over it throughout, that on
  shared state over what happens before the write takes effect. The limiter's theorems hold
  for every interleaving of commands.

  \<^bold>\<open>Bounds and termination.\<close> All functions are total: loops over rows, attempts and windows recurse
  on lists, the transient-error walk on the chain of causes. No fuel is used.

  \<^bold>\<open>Not modelled.\<close> Delta's reporting and business packages (chargeback, dashboards, CRM, ERP,
  invoicing and others) and role-based access control; Sentinel's provider adapters, key
  handling and command line, gateway handlers, webhooks, audit repository and administration;
  of the Orchestrator the administrative page, the command-center summary, the traffic forecast,
  the dead-letter query, the opaque encoding of page cursors and the loading of schema files;
  engine and pool set-up everywhere; Rendly. Tracing spans, logs and metrics carry no state and
  are left out. Non-connection errors of Redis, which surface as unhandled exceptions, and
  clocks of workers that disagree are outside the limiter's model.
\<close>

section \<open>Exactly-once ingestion\<close>

text \<open>
  C1: However the emitter repeats itself, and whatever faults hit the database in between, a
  usage event that was once answered with 200 is in the ledger exactly once: after any
  deliveries before it and any deliveries after it, one transaction carries its tenant and event
  id.
\<close>

theorem delivered_exactly_once:
  assumes "ledger_ok d"
    and "o_reply (serve_usage x app env rq (serve_all x app before d)) = Accepted applied replay i"
  shows "\<exists>r. usage_event x app env rq = Some r
    \<and> posted_count (u_tenant r) (u_event r) (serve_all x app (before @ (env, rq) # after) d) = 1"
  by (rule serve_all_once [OF assms(1) refl assms(2)])

theorem delivered_exactly_once_witness:
  "posted_count tenant0 event0 (serve_all externals250 app0 [(env0, request0), (env0, request0), (env0, request0)] empty_db) = 1"
  using delivered_exactly_once [OF ledger_ok_empty, of externals250 app0 env0 request0 "[]" True False "Some (uuid0 73)"
      "[(env0, request0), (env0, request0)]"]
  by (simp add: served0 usage_event0 record0_def)



text \<open>
  C3: The ledger stays sound and append-only under every sequence of usage deliveries and every
  revenue delivery, faults included: each transaction keeps at least two entries of one tenant
  and one currency whose debits equal its credits, every entry refers to a transaction and an
  account that exist, ids and idempotency keys stay unique, and no row of the accounts,
  transactions, entries or dead letters is ever changed or removed.
\<close>

theorem ledger_always_balanced:
  assumes "ledger_ok d"
  shows "ledger_ok (serve_all x app deliveries d) \<and> grows d (serve_all x app deliveries d)
    \<and> ledger_ok (o_db (serve_revenue x app env rq d)) \<and> grows d (o_db (serve_revenue x app env rq d))"
  using serve_all_ledger [of d x app deliveries] serve_revenue_ledger [of d x app env rq] assms by simp

theorem ledger_always_balanced_witness:
  "ledger_ok ledger0 \<and> transactions ledger0 \<noteq> []"
  using ledger_always_balanced [OF ledger_ok_empty, of externals250 app0 "[(env0, request0)]"]
  by (simp add: served0) (simp add: ledger0_def)

text \<open>
  C4: A valid event is certain to be posted: when its idempotency key and its derived ids are
  new and no fault hits the posting transaction, its first delivery is answered with 200,
  applied and not a replay, and the ledger then holds it once.
\<close>

theorem first_delivery_posts:
  assumes "usage_event x app env rq = Some r" and "ledger_ok d" and "fresh_posting (x_u5 x) r d" and "sv_post env = NoFault"
  shows "\<exists>i. o_reply (serve_usage x app env rq d) = Accepted True False (Some i)
    \<and> posted_count (u_tenant r) (u_event r) (o_db (serve_usage x app env rq d)) = 1"
proof -
  obtain res d' where p: "post_usage (x_u5 x) r d = Inr (res, d')" "ap_applied res"
    using post_usage_posts [OF assms(2) usage_event_valid [OF assms(1)] assms(3)] by blast
  then have "o_reply (serve_usage x app env rq d) = Accepted True False (Some (ap_txn res))"
    using serve_usage_posts [OF assms(1,4) p(1)] post_usage_flags [OF p(1)] by simp
  then show ?thesis using serve_usage_accepted_once [OF _ assms(2)] assms(1) by force
qed

theorem first_delivery_posts_witness:
  "\<exists>i. o_reply (serve_usage externals250 app0 env0 request0 empty_db) = Accepted True False (Some i)"
  using first_delivery_posts [OF usage_event0 ledger_ok_empty] fresh_posting0 by (auto simp: env0_def)



section \<open>Budgets\<close>

text \<open>
  C6: The decisions queued for a budget's policy carry the versions 1, 2, 3, ... without gap or
  repeat, whatever evaluations, drains and other work interleave, period boundaries included, as
  long as time does not run backwards; and every period whose state says enforced is backed by a
  queued enforce decision with exactly the version the state recorded.
\<close>

theorem budget_versions_consecutive:
  assumes "budget_reach sha u4 st b T d"
  shows "\<exists>n. map ob_version (policy_rows (bd_tenant b) (bd_policy b) (boutbox d)) = [1..n]
    \<and> list_all (\<lambda>s. bs_state s = Enforced \<longrightarrow> list_ex (\<lambda>r. ob_transition r = TEnforce \<and> bs_enforced_version s = Some (ob_version r))
        (policy_rows (bd_tenant b) (bd_policy b) (boutbox d))) (budget_states b d)"
  using budget_reach_versions_ok [OF assms] unfolding versions_ok_def list_all_iff list_ex_iff by blast

theorem budget_versions_consecutive_witness:
  "\<exists>d' n. evaluate_budget sha0 u4_0 engine0 tenant0 budget0 now0 budget_db0 = Inr (Decided TEnforce 1, d')
     \<and> map ob_version (policy_rows tenant0 (uuid0 2) (boutbox d')) = [1..n]"
proof -
  obtain d' where e: "evaluate_budget sha0 u4_0 engine0 tenant0 budget0 now0 budget_db0 = Inr (Decided TEnforce 1, d')"
    using evaluate0 by blast
  have "budget_reach sha0 u4_0 engine0 budget0 now0 budget_db0"
    by (rule budget_reach.start) (simp_all add: now0_def budget_states_def policy_rows_def budget_db0_def ledger0_def empty_db_def)
  then have "budget_reach sha0 u4_0 engine0 budget0 now0 d'"
    using budget_reach.evaluate [OF _ order_refl _ e] by (simp add: same_budget_def)
  from budget_versions_consecutive [OF this] e show ?thesis by (auto simp: budget0_def)
qed

text \<open>
  C7: After a budget is evaluated its state for the current period says enforced exactly when
  the spend the ledger shows for its scope and period exceeds its cap; a decision it reports is
  an enforce or a refresh accordingly; otherwise neither the outbox nor the audit history
  changes.
\<close>

theorem evaluation_follows_the_cap:
  assumes "evaluate_budget sha u4 st sess b now d = Inr (oc, d')" and "distinct (map state_key (bstates d))"
  shows "(\<exists>s \<in> set (bstates d'). state_key s = (sess, bd_id b, period_bucket_label (bd_period b) now)
      \<and> bs_state s = (if over_cap sess b now d then Enforced else Under))
    \<and> (case oc of
         Decided tr v \<Rightarrow> tr = (if over_cap sess b now d then TEnforce else TRefresh)
       | _ \<Rightarrow> boutbox d' = boutbox d \<and> history d' = history d)"
proof -
  have "tr = (if over_cap sess b now d then TEnforce else TRefresh)" if "oc = Decided tr v" for tr v
    using assms by (cases rule: evaluate_budget_cases) (simp_all add: that)
  then show ?thesis
    using evaluate_budget_state [OF assms] evaluate_budget_quiet [OF assms] by (cases oc) auto
qed

theorem evaluation_follows_the_cap_witness:
  "\<exists>d'. evaluate_budget sha0 u4_0 engine0 tenant0 budget0 now0 budget_db0 = Inr (Decided TEnforce 1, d')
     \<and> (\<exists>s \<in> set (bstates d'). bs_state s = Enforced)"
proof -
  obtain d' where e: "evaluate_budget sha0 u4_0 engine0 tenant0 budget0 now0 budget_db0 = Inr (Decided TEnforce 1, d')"
    using evaluate0 by blast
  have "distinct (map state_key (bstates budget_db0))" by (simp add: budget_db0_def ledger0_def empty_db_def)
  from evaluation_follows_the_cap [OF e this] over_cap0 e show ?thesis by auto
qed

text \<open>
  C8: Draining an outbox never loses, adds, reorders or alters a decision, whatever the network,
  the signer, the database and concurrent drainers do: the ids, subjects, versions, transitions
  and payloads of all rows, of both the budget and the kill-switch outbox, are the same before
  and after.
\<close>

theorem drains_keep_every_decision:
  "map decision (boutbox (bpo_drain_tenant pystr st env t now d)) = map decision (boutbox d)
   \<and> map decision (koutbox (kso_drain_tenant pystr kst env t now d)) = map decision (koutbox d)"
  by (simp add: bpo_drain_tenant_def Let_def bpo.drain_decisions kso_drain_frame)

text \<open>
  C9: A due decision gets through: when a pending row is among the first 64 due rows of its
  tenant, its transaction is not lost, it signs, and the orchestrator answers 202 with a
  distribution id that fits its column, then the drain marks exactly that decision distributed.
\<close>

theorem due_decision_is_delivered:
  assumes "distinct (map ob_id (boutbox d))"
    and "list_all (\<lambda>r. 0 \<le> ob_attempts r \<and> (ob_state r = Pending \<longrightarrow> ob_attempts r < es_max_attempts st)) (boutbox d)"
    and "r \<in> set (boutbox d)" and "ob_tenant r = t" and "ob_state r = Pending" and "ob_next r \<le> now"
    and "ob_id r \<in> set (bpo_due_outbox_ids t now 64 (boutbox d))"
    and "dv_key env" and "dv_snapshot env" and "tenant_session t = Inr ()"
    and "dv_row env (ob_id r) = Go (Inr sg) h" and "publish_signed_policy pystr h = Distributed i" and "length i \<le> 64"
  shows "\<exists>s \<in> set (boutbox (bpo_drain_tenant pystr st env t now d)). ob_state s = Delivered \<and> decision s = decision r"
proof -
  have ok: "bpo.outbox_ok st (boutbox d)" using assms(1,2) by (simp add: bpo.outbox_ok_def list_all_iff)
  have "row_of t (ob_id r) r" using assms(4) by (simp add: row_of_def)
  from bpo.drain_delivers [where env = "dv_row env", OF ok assms(3) this assms(5,6,11-13,7)] assms(8-10) show ?thesis
    by (simp add: bpo_drain_tenant_def Let_def)
qed

theorem due_decision_is_delivered_witness:
  "\<exists>s \<in> set (boutbox (bpo_drain_tenant pystr0 engine0 drain_ok0 tenant0 now0 (budget_db0\<lparr>boutbox := [outbox_row0]\<rparr>))).
     ob_state s = Delivered \<and> decision s = decision outbox_row0"
  by (rule due_decision_is_delivered [where sg = "[]" and h = response0 and i = "''x''"])
    (simp_all add: outbox_row0_def engine0_def drain_ok0_def response0_def bpo_due_outbox_ids_def bpo_due_def publish_signed_policy_def str_of_def jget_def)

section \<open>The kill switch\<close>

text \<open>
  C10: In every state reachable by evaluating events, authorizing and revoking agents, clearing
  scopes and draining, the decisions queued for a scope's policy are kill, clear, kill, clear,
  ... with the versions 1, 2, 3, ... up to the scope's own version, and the scope is killed
  exactly when that version is odd: no decision is skipped, repeated or out of order, provided
  the ids drawn so far are distinct.
\<close>

theorem kill_decisions_alternate:
  assumes "kill_reach sha u4 pystr st d" and "inj_on u4 {..<uuid_ctr d}"
  shows "list_all (\<lambda>k. (ks_state k = Killed) = odd (ks_version k)
      \<and> map (\<lambda>r. (ob_version r, ob_transition r)) (policy_rows (ks_tenant k) (ks_policy k) (koutbox d))
        = map (\<lambda>v. (v, if odd v then TKill else TClear)) [1..ks_version k]) (kstates d)"
  using kill_okD(4) [OF kill_reach_ok [OF assms]] by (simp add: scope_ok_def list_all_iff)

theorem kill_decisions_alternate_witness:
  "\<exists>d. kill_txn sha0 u4_0 kill_settings0 record0 now0 empty_db = Inr d
     \<and> list_all (\<lambda>k. (ks_state k = Killed) = odd (ks_version k)) (kstates d)"
proof -
  obtain d where d: "kill_txn sha0 u4_0 kill_settings0 record0 now0 empty_db = Inr d"
    "kill_reach sha0 u4_0 pystr0 kill_settings0 d" using kill0 by blast
  have "inj_on u4_0 {..<uuid_ctr d}" using inj_u4_0 by (rule inj_on_subset) simp
  from kill_decisions_alternate [OF d(2) this] d(1) show ?thesis by (auto simp: list_all_iff)
qed

section \<open>The audit log\<close>

text \<open>
  C11: The audit log is tamper-evident: if two databases both pass verification for a tenant,
  with equally many rows and the same newest hash, then all their rows agree in tenant, entity,
  action, actor, note and time, or else two of their rows exhibit a collision: their canonical
  texts differ and have the same digest.
\<close>

theorem audit_tampering_is_detected:
  assumes "cr_valid (verify_chain sha t t d)" and "cr_valid (verify_chain sha t t d')"
    and "length (chain_rows t t d) = length (chain_rows t t d')" and "tip_hash sha t t d = tip_hash sha t t d'"
  shows "map audited (chain_rows t t d) = map audited (chain_rows t t d') 
    \<or> (\<exists>r \<in> set (chain_rows t t d). \<exists>s \<in> set (chain_rows t t d'). hashed_text r \<noteq> hashed_text s \<and> sha (hashed_text r) = sha (hashed_text s))"
proof -
  have w: "walks sha (GENESIS_HASH sha) (chain_rows t t d)" "walks sha (GENESIS_HASH sha) (chain_rows t t d')"
    using assms(1,2) by (simp_all add: walks_def verify_chain_def)
  from audit.walk_determined [OF w assms(3)] assms(4) show ?thesis
    unfolding audit_collide_iff tip_hash_def by blast
qed

theorem audit_tampering_is_detected_witness:
  "map audited (chain_rows tenant0 tenant0 (audit_db0 uuid0)) = map audited (chain_rows tenant0 tenant0 (audit_db0 u4_0))
   \<and> chain_rows tenant0 tenant0 (audit_db0 uuid0) \<noteq> []"
proof -
  have v: "cr_valid (verify_chain sha0 tenant0 tenant0 (audit_db0 u))" for u
    using verify_chain_ok [OF append_history_ok [OF history_ok_empty history0]] .
  have "tip_hash sha0 tenant0 tenant0 (audit_db0 uuid0) = tip_hash sha0 tenant0 tenant0 (audit_db0 u4_0)"
    by (simp add: tip_hash_def chain_rows0 tip_of_def audit_row0_def)
  with audit_tampering_is_detected [OF v v, of uuid0 u4_0] show ?thesis by (auto simp: chain_rows0 sha0_def)
qed

section \<open>Money\<close>


section \<open>Allocations\<close>

text \<open>
  C13: Approving an allocation creates exactly one budget per target, with the target's scope
  and amount and the allocation's period and currency, so that the caps add up to the allocated
  total; the allocation tables stay sound, every target of an approved allocation naming an
  existing budget. Rejecting creates none.
\<close>

theorem approval_spends_the_whole_total:
  assumes "alloc_ok d" and "decide_txn sha u4 sess aid dr now d = Inr (rec, d')"
  shows "alloc_ok d'
    \<and> (\<exists>bs. budgets d' = budgets d @ bs
         \<and> (if dr_action dr = Approve then list_all2 (budget_of (rc_row rec) now) (alloc_targets aid d) bs
              \<and> total (\<lambda>b. the (bd_cost b)) bs = ar_total (rc_row rec)
            else bs = []))"
proof (cases "dr_action dr = Approve")
  case True
  then show ?thesis using decide_txn_alloc_ok [OF assms] approval_materializes [OF assms] by auto
next
  case False
  from assms show ?thesis
  proof (cases rule: decide_txn_Inr)
    case (1 a ts bs)
    then show ?thesis using False decide_txn_alloc_ok [OF assms] by auto
  qed
qed

theorem approval_spends_the_whole_total_witness:
  "\<exists>rec d. decide_txn sha0 uuid0 tenant0 (uuid0 0) approval0 now0 allocated0 = Inr (rec, d) \<and> alloc_ok d
     \<and> (\<exists>bs. budgets d = bs \<and> total (\<lambda>b. the (bd_cost b)) bs = 500)"
proof -
  obtain rec d where e: "decide_txn sha0 uuid0 tenant0 (uuid0 0) approval0 now0 allocated0 = Inr (rec, d)"
    "ar_total (rc_row rec) = 500" using approve0 by blast
  from approval_spends_the_whole_total [OF alloc_ok_allocated0 e(1)] e show ?thesis
    by (auto simp: approval0_def allocated0_def empty_db_def)
qed

text \<open>
  C14: An allocation is decided at most once: after an approval or a rejection committed, every
  later decision on it by its tenant is refused as already decided and changes nothing.
\<close>

theorem decisions_are_final:
  assumes "alloc_ok d" and "decide_txn sha u4 sess aid dr now d = Inr (rec, d')" and "dr_tenant dr' = sess"
  shows "decide_allocation sha' u4' sess aid dr' now' d' = (Inl AllocationAlreadyDecidedError, d')"
proof -
  from assms(1,2) obtain a where a: "decided_row dr now a \<in> set (allocs d')" "ar_id a = aid" "ar_tenant a = sess"
  proof (cases rule: decide_txn_Inr)
    case (1 a ts bs)
    then have "decided_row dr now a \<in> set (allocs d')" by (auto simp: set_update_where)
    then show ?thesis using that 1 by blast
  qed
  have "decided_status (dr_action dr) \<noteq> Requested" by (cases "dr_action dr") simp_all
  then show ?thesis
    using decided_refuses [OF decide_txn_alloc_ok [OF assms(1,2)] a(1)] a(2,3) assms(3) by simp
qed

theorem decisions_are_final_witness:
  "\<exists>rec d. decide_txn sha0 uuid0 tenant0 (uuid0 0) approval0 now0 allocated0 = Inr (rec, d)
     \<and> decide_allocation sha0 uuid0 tenant0 (uuid0 0) approval0 now0 d = (Inl AllocationAlreadyDecidedError, d)"
proof -
  obtain rec d where e: "decide_txn sha0 uuid0 tenant0 (uuid0 0) approval0 now0 allocated0 = Inr (rec, d)" using approve0 by blast
  then show ?thesis using decisions_are_final [OF alloc_ok_allocated0 e, of approval0 sha0 uuid0 now0] by (auto simp: approval0_def)
qed

section \<open>The edges of the ingest seam\<close>



section \<open>Sentinel: rate limits\<close>

text \<open>
  C16: A rate-limit key in Redis never admits more than its limit per minute, however the
  commands of many workers interleave: after any time-ordered sequence of admission blocks and
  compensating removals, on this and other keys, no sixty seconds hold more than rpm admissions
  of the key that were not taken back, and the expiry of idle keys never frees a slot early.
\<close>

theorem redis_tier_never_exceeds_its_limit:
  assumes "rd_zsets r key = None" "sorted (cmd_times cs)" "distinct (cmd_members cs)" "list_all (cmd_limits key rpm burst) cs"
  shows "length (filter (\<lambda>g. fst g = key \<and> a < snd (snd g) \<and> snd (snd g) \<le> a + WINDOW_MS) (snd (exec_cmds cs (r, [])))) \<le> nat rpm"
proof -
  have "length (filter (\<lambda>p. a < snd p \<and> snd p \<le> a + WINDOW_MS) (grants_of key log))
      = length (filter (\<lambda>g. fst g = key \<and> a < snd (snd g) \<and> snd (snd g) \<le> a + WINDOW_MS) log)" for log :: "grant list"
    by (simp add: grants_of_def filter_map comp_def conj_commute conj_left_commute)
  then show ?thesis using grants_within [OF assms, of a] by simp
qed

theorem redis_tier_never_exceeds_its_limit_witness:
  "length (filter (\<lambda>g. fst g = ''k'' \<and> 0 < snd (snd g) \<and> snd (snd g) \<le> 0 + WINDOW_MS)
     (snd (exec_cmds [Tier ''k'' 1 ''u'' 1 9, Tier ''j'' 2 ''v'' 5 9, Zrem ''k'' ''w'', Tier ''k'' 3 ''x'' 1 9] (redis0, [])))) \<le> nat 1"
proof -
  have d: "distinct [zmember 1 ''u'', zmember 2 ''v'', zmember 3 ''x'']" by (auto dest: zmember_time)
  show ?thesis
    by (rule redis_tier_never_exceeds_its_limit [where burst = 9]) (use d in \<open>simp_all add: redis0_def\<close>)
qed

text \<open>
  C17: The in-process limiter that a worker falls back to implements a limiter that keeps every
  admission for ever: for every sequence of checks and stream releases with a monotonic clock
  all its answers (limit, remaining and reset, or the seconds to wait) are the same, so eviction
  and the pruning of empty windows cannot be observed, and within any sixty seconds no key and
  no tenant is admitted more than rpm times.
\<close>

theorem local_limiter_refines_full_history:
  assumes "sorted (op_clocks ops)"
  shows "fst (local_run st ops no_local) = fst (history_run st ops no_history)
    \<and> (\<forall>a k. length (filter (\<lambda>t. a < t \<and> t \<le> a + 60 * us) (hs_key (snd (history_run st ops no_history)) k)) \<le> nat (ls_rpm st)
        \<and> length (filter (\<lambda>t. a < t \<and> t \<le> a + 60 * us) (hs_tenant (snd (history_run st ops no_history)) k)) \<le> nat (ls_rpm st))"
  using local_run_refines [OF assms] history_within [OF assms] by blast

theorem local_limiter_refines_full_history_witness:
  "fst (local_run limits0 [Check ''k'' ''t'' True 0 1 0, Check ''k'' ''t'' False 2 3 0, Release ''t''] no_local)
    = fst (history_run limits0 [Check ''k'' ''t'' True 0 1 0, Check ''k'' ''t'' False 2 3 0, Release ''t''] no_history)"
proof -
  have "sorted (op_clocks [Check ''k'' ''t'' True 0 1 0, Check ''k'' ''t'' False 2 3 0, Release ''t''])" by simp
  from local_limiter_refines_full_history [OF this, of limits0] show ?thesis by blast
qed



section \<open>Sentinel: signed policies\<close>

text \<open>
  C19: A model is allowed exactly when it is permitted: no active deny-list that matches the
  request's tenant, team, project and agent (wildcards included) names it; the strongest
  matching unexpired allow-list, by specificity, then version, then id, names it if there is
  one; and when an approval policy matches, the tenant's inventory was readable and holds the
  model as approved and not past its retirement. The order of rows plays no part.
\<close>

theorem model_decision_is_exact:
  assumes "store_ok d" "payloads_named d" "evaluate_model_policies pdt env scope model d = Inr dec"
  shows "(\<exists>p. dec = ModelAllow p) \<longleftrightarrow> model_permitted pdt env scope model d"
  by (rule evaluate_exact [OF assms])

theorem model_decision_is_exact_witness:
  "\<not> model_permitted (\<lambda>_. None) eval_env0 scope_a ''gpt-4'' policies1"
  using model_decision_is_exact [OF store_ok1 evaluate_denied [of "\<lambda>_. None"]] by simp

text \<open>
  C20: Whatever is submitted and whatever fails, the stored policies change only by one step:
  the record's signature verified, its claims are complete, agree with the body on all eight
  scope fields and name no wildcard tenant, and the signed hash is that of the whole body. Then
  one version with the claims' values and the record as its payload is appended, above all
  earlier versions of that policy, the policy's current row carries the record, all other rows
  stay, and the invariant of the tables is kept.
\<close>

theorem only_verified_records_change_policies:
  assumes "store_ok d" "payloads_named d" "intake_policy x env raw d = (res, d', stale)" "\<not> unchanged_policies d d'"
  shows "store_ok d' \<and> payloads_named d' \<and> (\<exists>r claims v. verified x raw r claims \<and> version_of_claims claims r v
    \<and> res = Inr (Policy_accepted (vr_policy v) (vr_version v) (vr_type v))
    \<and> pd_versions d' = pd_versions d @ [v] \<and> list_all (\<lambda>n. n < vr_version v) (versions_of (vr_policy v) d)
    \<and> (\<exists>p \<in> set (pd_policies d'). po_id p = vr_policy v \<and> po_version p = vr_version v \<and> po_payload p = r)
    \<and> filter (\<lambda>p. po_id p \<noteq> vr_policy v) (pd_policies d') = filter (\<lambda>p. po_id p \<noteq> vr_policy v) (pd_policies d))"
  using assms(3)
proof (cases rule: intake_outcome)
  case (accepted r claims v d1 e)
  have "vr_payload v = r" using accepted(2) by (simp add: version_of_claims_def)
  then show ?thesis
    using intake_keeps_store [OF assms(1-3)] accepted upsert_versions [OF accepted(3)] upsert_current [OF accepted(3)]
    by (intro conjI exI [of _ r] exI [of _ claims] exI [of _ v])
      (auto simp: upsert_policy_eq_Inr version_fresh_iff list_all_iff)
qed (use assms(4) in blast)

theorem only_verified_records_change_policies_witness:
  "store_ok policies1 \<and> \<not> unchanged_policies policies0 policies1"
proof -
  have "\<not> unchanged_policies policies0 policies1" by (simp add: unchanged_policies_def policies0_def policies1_def)
  with only_verified_records_change_policies [OF store_ok0 intake_a] show ?thesis by blast
qed

text \<open>
  C21: A record that was accepted once is never accepted again, whatever is submitted in between
  and whatever fails: replaying it leaves the policies and their history unchanged.
\<close>

theorem accepted_record_is_never_accepted_again:
  assumes "intake_policy x env raw d = (Inr (Policy_accepted pid n t), d', stale)"
    and "intake_policy x env' raw (intakes x ops d') = (res, d'', stale')"
  shows "unchanged_policies (intakes x ops d') d'' \<and> (\<forall>p m u. res \<noteq> Inr (Policy_accepted p m u))"
  by (rule never_accepted_again [OF assms])

theorem accepted_record_is_never_accepted_again_witness:
  "\<exists>d. unchanged_policies policies2 d"
proof -
  obtain res d'' st where r: "intake_policy intake0 intake_env0 (Raw_dict (deny_record ''t1'' 1 sig_a))
      (intakes intake0 [(intake_env0, Raw_dict (deny_record ''t2'' 2 sig_b))] policies1) = (res, d'', st)" using prod_cases3 by blast
  have "intakes intake0 [(intake_env0, Raw_dict (deny_record ''t2'' 2 sig_b))] policies1 = policies2" by (simp add: intake_b)
  then show ?thesis using accepted_record_is_never_accepted_again [OF intake_a r] by auto
qed

text \<open>
  C22: The decision cache never invents or confuses decisions: whatever workers write,
  invalidate and fail to do, a decision it serves was written for exactly this tenant, team,
  project, agent and model, under the version that was read, and its time to live has not
  passed.
\<close>

theorem cached_decision_was_computed_for_the_request:
  assumes "dc_decisions c = Map.empty" "list_all op_plain (ops @ ops')" "plain_scope scope"
    and "get_cached_decision env scope model (cache_run fl ops c) = (Inr (Some dec, version), c')" "ce_between env = cache_run fl ops'"
  shows "\<exists>expiry. written fl (ops @ ops') scope model version dec expiry \<and> ce_now env < expiry"
  by (rule served_was_computed [OF assms])

theorem cached_decision_was_computed_for_the_request_witness:
  "\<exists>expiry. written (\<lambda>x. x) ([Set_op (cache_env_at 0) 5 scope_a ''m'' (ModelAllow None) 0] @ []) scope_a ''m'' 0 (ModelAllow None) expiry \<and> 10 < expiry"
proof -
  have p: "plain_scope scope_a" by (simp add: plain_scope_def scope_a_def)
  then have l: "list_all op_plain ([Set_op (cache_env_at 0) 5 scope_a ''m'' (ModelAllow None) 0] @ [])" by simp
  have c: "dc_decisions cache0 = Map.empty" by (simp add: cache0_def)
  have g: "get_cached_decision (cache_env_at 10) scope_a ''m'' (cache_run (\<lambda>x. x) [Set_op (cache_env_at 0) 5 scope_a ''m'' (ModelAllow None) 0] cache0)
      = (Inr (Some (ModelAllow None), 0), set_cached_decision (\<lambda>x. x) (cache_env_at 0) 5 scope_a ''m'' (ModelAllow None) 0 cache0)"
    using get_after_set [of "cache_env_at 0" "cache_env_at 10" 5 0 scope_a cache0 "\<lambda>x. x" "''m''" "ModelAllow None"]
    by (simp add: cached_version_def cache0_def cache_env_at_def cache_works_def)
  have b: "ce_between (cache_env_at 10) = cache_run (\<lambda>x. x) []" by (simp add: cache_env_at_def fun_eq_iff)
  have n: "ce_now (cache_env_at 10) = 10" by (simp add: cache_env_at_def)
  show ?thesis using cached_decision_was_computed_for_the_request [OF c l p g b] n by simp
qed



section \<open>Sentinel: routing\<close>



text \<open>
  C25: A request that the model and budget policies let pass succeeds when some provider of the
  tenant's chain completes it, every provider before it fails with a transient or rate-limit
  error, none of them up to it is above the cost ceiling, and the shared deadline has not
  passed: it is routed to that provider.
\<close>

theorem router_reaches_a_working_provider:
  assumes "enforce_policies_pre_request (ru_enforce env) scope body es d c = (Inr (m, b, bls), c1)" "policy_deny m b = None"
    and "get_for_tenant (en_fl (ru_enforce env)) (ru_row env) = Inr policy"
    and "chain = effective_chain policy (ru_available env) (ru_max_fallbacks env)" "j < length chain"
    and "list_all (\<lambda>i. \<not> ae_expired (ru_attempts env) i \<and> \<not> cost_blocked (en_fl (ru_enforce env)) policy body (chain ! i)
           \<and> ae_registered (ru_attempts env) i (chain ! i)) [0..<Suc j]"
    and "list_all (\<lambda>i. retried (ru_attempts env) (i, chain ! i)) [0..<j]" "ae_answer (ru_attempts env) j (chain ! j) = Completed r"
  shows "ro_outcome (route_non_stream env scope body es d c) = Routed (chain ! j) r"
proof -
  let ?fl = "en_fl (ru_enforce env)"
  have "fst (walk_chain ?fl (ru_attempts env) policy body chain 0 None chain) = Routed (chain ! j) r"
  proof (rule walk_reaches)
    fix i assume "i \<le> j"
    moreover have "chain ! i \<in> set (rp_allowed policy)" using chain_set [of "chain ! i" policy "ru_available env" "ru_max_fallbacks env"] assms(4,5) \<open>i \<le> j\<close> by simp
    ultimately show "\<not> ae_expired (ru_attempts env) i \<and> chain ! i \<in> set (rp_allowed policy) \<and> \<not> cost_blocked ?fl policy body (chain ! i) \<and> ae_registered (ru_attempts env) i (chain ! i)"
      using assms(6) by (simp add: list_all_iff del: upt_Suc)
  qed (use assms in \<open>auto simp: list_all_iff\<close>)
  moreover have "chain \<noteq> []" using assms(5) by auto
  ultimately show ?thesis using assms(1-4) by (auto simp: route_non_stream_def Let_def split: prod.splits)
qed

theorem router_reaches_a_working_provider_witness:
  "ro_outcome (route_non_stream router0 scope_a body_a [] policies0 cache0) = Routed ''anthropic'' ''ok''"
proof -
  have 1: "enforce_policies_pre_request (ru_enforce router0) scope_a body_a [] policies0 cache0
      = (Inr (ModelAllow None, BudgetOk, []), set_cached_decision (\<lambda>x. x) (cache_env_at 0) 5 scope_a ''gpt-4'' (ModelAllow None) (cached_version ''t1'' cache0) cache0)"
    using enforced_first [of cache0 0] by (simp add: router0_def cache0_def)
  have 2: "policy_deny (ModelAllow None) BudgetOk = None" by (simp add: policy_deny_def)
  have 3: "get_for_tenant (en_fl (ru_enforce router0)) (ru_row router0) = Inr default_policy" by (simp add: router0_def get_for_tenant_def)
  have 4: "[''openai'', ''anthropic''] = effective_chain default_policy (ru_available router0) (ru_max_fallbacks router0)" using chain0 by (simp add: router0_def)
  have nc: "\<not> cost_blocked fl default_policy body_a p" for fl p by (simp add: cost_blocked_def default_policy_def)
  show ?thesis
    using router_reaches_a_working_provider [OF 1 2 3 4, of 1 "''ok''"] nc
    by (simp add: router0_def attempts0_def retried_def is_retryable_def upt_rec)
qed

section \<open>The Orchestrator as a system\<close>

text \<open>
  C26: All eleven audit chains of the Orchestrator verify in every state that any sequence of
  requests and background tasks reaches: ingest, dispatch, distribution, rollback, the fleet
  registry, health checks, coordinated pushes, automation, messages, shared state, the external
  gateway, the identity and safety seams and the relay, with arbitrary inputs, network answers
  and faults of the database.
\<close>

theorem every_audit_chain_verifies:
  assumes "orch_reach c (d0, w0) (d, w)" "orch_inv c d0" and sha: "sha = xo_sha (oc_ext c)"
  shows "validate_chain sha True (ingest_audit_log (chains d)) = Inr True
    \<and> validate_distribution_chain sha True (distribution_audit_log (chains d)) = Inr True
    \<and> validate_registry_chain sha True (sentinel_registry_audit_log (chains d)) = Inr True
    \<and> validate_relay_chain sha True (relay_audit_log (chains d)) = Inr True
    \<and> validate_identity_chain sha True (identity_audit_log (chains d)) = Inr True
    \<and> validate_automation_chain sha True (automation_executions (chains d)) = Inr True
    \<and> validate_messaging_chain sha True (agent_messaging_audit_log (chains d)) = Inr True
    \<and> validate_state_chain sha True (agent_state_audit_log (chains d)) = Inr True
    \<and> validate_external_gateway_chain sha True (external_gateway_audit_log (chains d)) = Inr True
    \<and> validate_rollback_chain sha True (distribution_rollbacks (chains d)) = Inr True
    \<and> validate_safety_chain sha True (safety_audit_log (chains d)) = Inr True"
proof -
  have "chains_ok sha (chains d)" using orch_reach_inv [OF assms(1)] assms(2) sha by (simp add: orch_invD)
  then show ?thesis by (simp add: chains_ok_validate)
qed

theorem every_audit_chain_verifies_witness:
  "orch_reach orch_c0 (orch_db0, ()) (orch_db1, ()) \<and> ingest_audit_log (chains orch_db1) \<noteq> []
    \<and> validate_chain (xo_sha orch_x0) True (ingest_audit_log (chains orch_db1)) = Inr True"
  using every_audit_chain_verifies [OF reached0 orch_inv0 refl] reached0 by (simp add: orch_db1_def orch_c0_def)

text \<open>
  C27: The rows of every table keep their shape, their keys and their references in every
  reachable state: an event has one outbox row and no key or envelope occurs twice; a registered
  Sentinel has a valid id, known capabilities and health counters that fit its health state;
  targets belong to a stored distribution; a rule names a stored distribution of its own tenant;
  a rule runs at most once per event; versions of shared state start at 1; and no tenant has
  more rules, messages or keys than its cap.
\<close>

theorem tables_stay_well_formed:
  assumes "orch_reach c (d0, w0) (d, w)" "orch_inv c d0"
  shows "(distinct (map ev_key (ingest_events d)) \<and> distinct (map ev_envelope (ingest_events d))
      \<and> map fo_key (forward_outbox d) = map ev_key (ingest_events d) \<and> distinct (map fo_id (forward_outbox d)))
    \<and> (distinct (map sr_id (sentinel_registry d)) \<and> list_all sentinel_ok (sentinel_registry d))
    \<and> (dt_distribution ` set (policy_distribution_targets d) \<subseteq> ds_id ` set (policy_distributions d)
      \<and> distinct (map ds_id (policy_distributions d)) \<and> distinct (map dt_id (policy_distribution_targets d)))
    \<and> list_all (\<lambda>r. \<exists>q \<in> set (policy_distributions d). ds_tenant q = rl_tenant r \<and> jget ''distribution_id'' (rl_config r) = JStr (ds_id q)) (automation_rules d)
    \<and> distinct (map execution_key (automation_executions (chains d)))
    \<and> (distinct (map (\<lambda>r. (st_tenant r, st_key r)) (agent_state d)) \<and> list_all (\<lambda>r. 1 \<le> st_version r) (agent_state d))
    \<and> (distinct (map (\<lambda>m. (am_tenant m, am_key m)) (agent_messages d)) \<and> sorted_wrt (<) (map am_seq (agent_messages d)))
    \<and> (distinct (map side_key (identity_events d)) \<and> distinct (map side_key (safety_events d)))
    \<and> (\<forall>t. count_automation_rules t d \<le> au_max_rules (oc_automation c) \<and> count_agent_messages t d \<le> ms_max_messages (oc_messaging c)
      \<and> count_third_party_api_keys t d \<le> gw_max_keys (oc_gateway c))"
proof -
  have "orch_inv c d" using orch_reach_inv [OF assms(1)] assms(2) by simp
  then show ?thesis
    unfolding orch_inv_def ingest_inv_def registry_ok_def dist_ok_def rules_ok_def executions_ok_def state_ok_def mail_ok_def
      side_ok_def side_rows_ok_def keys_ok_def list_all_iff
    by (elim conjE) (intro conjI; (assumption | blast))
qed

theorem tables_stay_well_formed_witness:
  "map fo_key (forward_outbox orch_db1) = map ev_key (ingest_events orch_db1) \<and> forward_outbox orch_db1 \<noteq> []"
  using tables_stay_well_formed [OF reached0 orch_inv0] by (simp add: orch_db1_def)

section \<open>The Orchestrator: receiving events\<close>

text \<open>
  C28: An event that is answered with 202 is durable, whatever faults occur and whatever other
  requests interleave: its signature verified, and then either a stored event with its
  idempotency key and content hash exists, or a dead letter with the whole envelope and a link
  of the chain that names it; and when the automation rules are scheduled for it, it is stored
  and its acceptance is in the chain.
\<close>

theorem accepted_event_is_durable:
  assumes "out = serve_ingest x st env rq d" "io_reply out = Ingest_accepted k" "calm x env"
  shows "\<exists>envelope. request_envelope x st env rq = Some envelope \<and> k = jstring (jget ''idempotency_key'' envelope)
    \<and> (event_stored x envelope (io_db out) \<or> event_dead_lettered envelope (io_db out))
    \<and> (io_scheduled out \<noteq> None \<longrightarrow> event_stored x envelope (io_db out) \<and> event_audited envelope (io_db out))"
  using serve_ingest_durable [OF assms(2) [unfolded assms(1)] assms(3)] assms(1) by metis

theorem accepted_event_is_durable_witness:
  "event_stored orch_x0 envelope0 orch_db1 \<and> event_audited envelope0 orch_db1"
  using accepted_event_is_durable [OF refl _ ingest_calm0(3), of orch_st0 orch_rq0 orch_db0 event0] received0 request_envelope0 by simp

text \<open>
  C29: The event and its audit link are written in two transactions. When the second one fails,
  the sender is answered 503 although the event is stored; the retry is recognised as a
  duplicate and answered 202, so the event is kept but no link of its acceptance is ever written
  and no automation rule is evaluated for it.
\<close>

theorem interrupted_ingest_loses_its_audit_link:
  assumes "io_scheduled (serve_ingest x st env rq d) \<noteq> None" "ig_race env = id" "ig_race2 env = id"
    and "request_envelope x st env2 rq = request_envelope x st env rq" "ig_lookup env2 = None"
    and "out1 = serve_ingest x st (env\<lparr>ig_record := Txn_abort f\<rparr>) rq d" "out2 = serve_ingest x st env2 rq (io_db out1)"
  shows "\<exists>envelope. request_envelope x st env rq = Some envelope \<and> io_reply out1 = Ingest_error 503 ''ingest_unavailable''
    \<and> event_stored x envelope (io_db out1) \<and> io_reply out2 = Ingest_accepted (jstring (jget ''idempotency_key'' envelope))
    \<and> io_scheduled out2 = None \<and> chains (io_db out2) = chains d"
  using serve_ingest_lost_link [OF assms] by metis

theorem interrupted_ingest_loses_its_audit_link_witness:
  "\<exists>out1 out2. out1 = serve_ingest orch_x0 orch_st0 (ingest_env0\<lparr>ig_record := Txn_abort OperationalError\<rparr>) orch_rq0 orch_db0
    \<and> io_reply out1 = Ingest_error 503 ''ingest_unavailable'' \<and> event_stored orch_x0 envelope0 (io_db out1)
    \<and> out2 = serve_ingest orch_x0 orch_st0 ingest_env0 orch_rq0 (io_db out1)
    \<and> io_reply out2 = Ingest_accepted event0 \<and> io_scheduled out2 = None \<and> ingest_audit_log (chains (io_db out2)) = []"
proof -
  have "io_scheduled orch_out0 \<noteq> None" "ig_lookup ingest_env0 = None" "ingest_audit_log (chains orch_db0) = []"
    using received0 by (simp_all add: ingest_env0_def orch_db0_def no_chains_def)
  then show ?thesis
    using interrupted_ingest_loses_its_audit_link [of orch_x0 orch_st0 ingest_env0 orch_rq0 orch_db0 ingest_env0 _ OperationalError, OF _ _ _ refl _ refl refl]
      ingest_calm0 request_envelope0 by (simp add: jstring_def)
qed

section \<open>The Orchestrator: forwarding to Delta\<close>



text \<open>
  C31: An outbox row that the Orchestrator has marked forwarded stands for money that Delta has
  booked: after any sequence of received events and drains, with faults in both databases and
  requests or answers lost in between, the usage record that Delta reads from the event's
  payload is in Delta's ledger in exactly one transaction, and Delta's ledger is sound.
\<close>

theorem forwarded_event_is_in_deltas_ledger_once:
  assumes "forward_run xo st x app ops (d, w) = (d', w')" "\<forall>op \<in> set ops. forward_op_ok jsonb op"
    and "ingest_inv (xo_sha xo) d" "\<forall>fo \<in> set (forward_outbox d). fo_status fo \<noteq> ''forwarded''" "ledger_ok w"
  shows "ledger_ok w' \<and> (\<forall>fo \<in> set (forward_outbox d'). fo_status fo = ''forwarded'' \<longrightarrow>
    (\<exists>r. forwarded_record jsonb x (ingest_events d') (fo_key fo) = Some r \<and> posted_count (u_tenant r) (u_event r) w' = 1))"
proof -
  have "forwarded_posted jsonb x d w" using assms(4) by (simp add: forwarded_posted_def)
  then show ?thesis using forward_run_posted [OF assms(1-3) _ assms(5)] by (simp add: forwarded_posted_def)
qed

theorem forwarded_event_is_in_deltas_ledger_once_witness:
  "\<exists>d' w'. forward_run orch_x0 orch_st0 externals250 app0 [Receive ingest_env0 orch_rq0, Drain drain_p0 (\<lambda>_. env0) (\<lambda>_. Answered)] (orch_db0, empty_db) = (d', w')
    \<and> map fo_status (forward_outbox d') = [''forwarded''] \<and> posted_count tenant0 event0 w' = 1"
proof -
  have inv: "ingest_inv (xo_sha orch_x0) orch_db0" using orch_inv0 by (simp add: orch_inv_def orch_c0_def)
  obtain d' w' where r: "forward_run orch_x0 orch_st0 externals250 app0 [Receive ingest_env0 orch_rq0, Drain drain_p0 (\<lambda>_. env0) (\<lambda>_. Answered)] (orch_db0, empty_db) = (d', w')"
    and fo: "forward_outbox d' = [forward_row0\<lparr>fo_status := ''forwarded'', fo_last_attempt := Some now0\<rparr>]"
      "ingest_events d' = [event_row0\<lparr>ev_seq := 1\<rparr>]"
    using drained0 received0 by (fastforce simp: orch_db1_def)
  have ok: "\<forall>op \<in> set [Receive ingest_env0 orch_rq0, Drain drain_p0 (\<lambda>_. env0) (\<lambda>_. Answered)]. forward_op_ok id op"
    using ingest_calm0 by (simp add: alone_def drain_p0_def)
  have "forward_outbox orch_db0 = []" by (simp add: orch_db0_def)
  with forwarded_event_is_in_deltas_ledger_once [OF r ok inv _ ledger_ok_empty] fo forwarded_record0
  show ?thesis using r by (auto simp: forward_row0_def record0_def)
qed



section \<open>The Orchestrator: policies and the fleet\<close>

text \<open>
  C33: A target that the Orchestrator reports as distributed really holds the policy: after any
  sequence of submissions, rollbacks and pushes, with lost requests, lost answers and faults of
  every database, the Sentinel behind each target in state distributed has the record of its
  distribution among its stored versions, with a signature that verified and the values of its
  signed claims.
\<close>

theorem distributed_target_holds_the_policy:
  assumes "dist_run x st L ops (d, w) = (d', w')" "gates_refuse L" "\<forall>rec \<in> records d'. wire_faithful L rec"
    and "dist_ok d" "delivered st (fleet_holds L) d w" "t \<in> set (policy_distribution_targets d')" "dt_state t = ''distributed''"
  shows "\<exists>base. map_of (dg_targets st) (dt_sentinel t) = Some base \<and> (\<exists>r \<in> set (policy_distributions d'). ds_id r = dt_distribution t
    \<and> stores (sl_params L (target_url st base)) (sw_db w' (target_url st base)) (ds_record r))"
  using dist_run_delivered [OF assms(1-5)] assms(6,7) by (auto simp: delivered_def)

theorem distributed_target_holds_the_policy_witness:
  "\<exists>r \<in> set (policy_distributions pushed_db0). ds_id r = ''d1''
    \<and> stores (sl_params fleet0 (target_url distribution_st0 ''https://s1'')) (sw_db world0 (target_url distribution_st0 ''https://s1'')) (ds_record r)"
proof -
  have t: "dist_target0 ''a'' ''d1'' \<in> set (policy_distribution_targets pushed_db0)" "dt_state (dist_target0 ''a'' ''d1'') = ''distributed''"
    "dt_sentinel (dist_target0 ''a'' ''d1'') = ''s1''" "dt_distribution (dist_target0 ''a'' ''d1'') = ''d1''"
    by (simp_all add: pushed_db0_def dist_target0_def)
  show ?thesis
    using distributed_target_holds_the_policy [of services_x distribution_st0 fleet0 "[]" pushed_db0 world0, OF _ fleet0_ok(1) _ dist_ok0 delivered0 t(1,2)] t(3,4)
      fleet0_ok(2) records0 by (auto simp: distribution_st0_def)
qed



text \<open>
  C35: Evaluating the rules of a tenant touches nothing else: no table outside the
  distributions, their targets and the two chains changes, no row of another tenant changes, no
  distribution is added or re-addressed, and the execution log only grows, with at most one
  entry for a rule and an event.
\<close>

theorem automation_stays_in_its_tenant:
  assumes "evaluate_and_execute x au st env post tn ev ty src payload (d, w) = (y, d', w')" "distinct (map execution_key (automation_executions (chains d)))"
  shows "engine_frame d d' \<and> same_plan d d'
    \<and> filter (\<lambda>r. ds_tenant r \<noteq> tn) (policy_distributions d') = filter (\<lambda>r. ds_tenant r \<noteq> tn) (policy_distributions d)
    \<and> filter (\<lambda>t. dt_tenant t \<noteq> tn) (policy_distribution_targets d') = filter (\<lambda>t. dt_tenant t \<noteq> tn) (policy_distribution_targets d)
    \<and> prefix (automation_executions (chains d)) (automation_executions (chains d')) \<and> distinct (map execution_key (automation_executions (chains d')))"
  using evaluate_step [OF assms(1)] assms(2) by (simp add: engine_step_def foreign_def executions_ok_def)

theorem automation_stays_in_its_tenant_witness:
  "\<exists>y d' w'. evaluate_and_execute services_x \<lparr>au_enabled = True, au_max_rules = 20\<rparr> distribution_st0 rule_env0 (post_to_sentinel fleet0) ''t1'' ''e1'' ''usage'' ''sentinel'' []
      (rule_db0, world0) = (y, d', w') \<and> same_plan rule_db0 d'"
proof -
  obtain y d' w' where e: "evaluate_and_execute services_x \<lparr>au_enabled = True, au_max_rules = 20\<rparr> distribution_st0 rule_env0 (post_to_sentinel fleet0) ''t1'' ''e1''
      ''usage'' ''sentinel'' [] (rule_db0, world0) = (y, d', w')" by (metis prod.exhaust)
  have "automation_executions (chains rule_db0) = []" by (simp add: rule_db0_def pushed_db0_def orch_db0_def no_chains_def)
  then show ?thesis using e automation_stays_in_its_tenant [OF e] by simp
qed



section \<open>The Orchestrator: agents, seams and third parties\<close>



text \<open>
  C38: An agent that polls with the last sequence number it has seen reads every message
  addressed to it exactly once and in the order in which the messages were stored, however the
  system runs between the polls: what it has read is always a prefix of its inbox, and all of it
  as soon as a page comes back shorter than its limit.
\<close>

theorem inbox_is_read_once_and_in_order:
  assumes "orch_history c ss" "ss \<noteq> []" "length limits = length ss" "polls = zip limits (map fst ss)"
  shows "prefix (poll sess recipient None polls) (inbox sess recipient (fst (last ss)))
    \<and> (length (poll sess recipient None polls) < length (poll sess recipient None (butlast polls)) + last limits
        \<longrightarrow> poll sess recipient None polls = inbox sess recipient (fst (last ss)))"
proof -
  have p: "map snd polls = map fst ss" "map fst polls = limits" "polls \<noteq> []" using assms(2-4) by (auto simp: zip_eq_Nil_iff)
  have l: "snd (last polls) = fst (last ss)" "fst (last polls) = last limits"
    using p assms(2) by (metis last_map list.map_disc_iff)+
  show ?thesis
    using poll_prefix [of polls "[]" sess recipient None] orch_history_mail [OF assms(1)] p l by simp
qed

theorem inbox_is_read_once_and_in_order_witness:
  "poll ''t'' (''x'', ''y'', ''z'') None [(1, mail_db0), (5, mail_db0)] = [message0 1 ''a'', message0 2 ''b'']"
proof -
  have h: "orch_history orch_c0 [(mail_db0, ()), (mail_db0, ())]" using mail_inv0 reach_refl by simp
  have n: "length (poll ''t'' (''x'', ''y'', ''z'') None [(1, mail_db0), (5, mail_db0)]) < length (poll ''t'' (''x'', ''y'', ''z'') None [(1, mail_db0)]) + 5"
    by code_simp
  have i: "inbox ''t'' (''x'', ''y'', ''z'') mail_db0 = [message0 1 ''a'', message0 2 ''b'']" by (simp add: inbox_def mail_db0_def message0_def)
  show ?thesis using inbox_is_read_once_and_in_order [OF h, of "[1, 5]" "[(1, mail_db0), (5, mail_db0)]" "''t''" "(''x'', ''y'', ''z'')"] n i by simp
qed





end
